(* ===== verification/Prelude.thy ===== *)
theory Prelude
  imports Main "HOL-Library.AList" "HOL-Library.List_Lexorder" "HOL-Library.Char_ord"
begin

section \<open>Python values, exceptions and strings\<close>

text \<open>
  What every component of the development shares: the JSON values the tools exchange as
  plain dictionaries (with Python's truth values, \<open>dict.get\<close>, \<open>str\<close> and \<open>repr\<close> on them),
  exceptions as values of a sum, the string methods the gates use on untrusted input, and
  generic lemmas on association lists, sorting and sums.

  A Python \<open>str\<close> is a HOL \<open>string\<close> whose characters are the code points 0 to 255;
  \<open>isascii\<close>, \<open>strip\<close> and \<open>casefold\<close> are modelled on that range.
  A Python \<open>dict\<close> with string keys is an association list in insertion order.
  A Python \<open>float\<close> is carried by its \<open>repr\<close> text, which determines it.
\<close>

named_theorems verdict_defs "definitions of the gates' verdict constructors"
named_theorems py_defs "definitions of the Python operations on values and strings"

subsection \<open>Exceptions\<close>

datatype py_exc = AttributeError | TypeError | ValueError | KeyError | IndexError | OSError | RuntimeError

type_synonym 'a py = "py_exc + 'a"

definition py_bind :: "'e + 'a \<Rightarrow> ('a \<Rightarrow> 'e + 'b) \<Rightarrow> 'e + 'b" where
  "py_bind m f = (case m of Inl e \<Rightarrow> Inl e | Inr a \<Rightarrow> f a)"

lemma py_bind_simps [simp]:
  "py_bind (Inl e) f = Inl e"
  "py_bind (Inr a) f = f a"
  by (simp_all add: py_bind_def)

lemma py_bind_assoc: "py_bind (py_bind m f) g = py_bind m (\<lambda>a. py_bind (f a) g)"
  by (cases m) simp_all

lemma py_bind_Inr_iff: "py_bind m f = Inr b \<longleftrightarrow> (\<exists>a. m = Inr a \<and> f a = Inr b)"
  by (cases m) simp_all

text \<open>Statements that may raise and leave a state in either case, run one after the other.\<close>

definition then_do :: "('s \<Rightarrow> 's \<times> ('e + 'a)) \<Rightarrow> ('a \<Rightarrow> 's \<Rightarrow> 's \<times> ('e + 'b)) \<Rightarrow> 's \<Rightarrow> 's \<times> ('e + 'b)" where
  "then_do m f st = (case m st of (st', Inl e) \<Rightarrow> (st', Inl e) | (st', Inr a) \<Rightarrow> f a st')"

lemma then_do_Inr_iff:
  "then_do m f st = (st', Inr b) \<longleftrightarrow> (\<exists>st1 a. m st = (st1, Inr a) \<and> f a st1 = (st', Inr b))"
  by (auto simp: then_do_def split: prod.splits sum.splits)

lemma then_do_cases:
  assumes "then_do m f st = (st', r)"
  obtains (stopped) e where "m st = (st', Inl e)" "r = Inl e"
  | (went_on) st1 a where "m st = (st1, Inr a)" "f a st1 = (st', r)"
  using assms by (auto simp: then_do_def split: prod.splits sum.splits)

text \<open>A comprehension whose body may raise stops at the first exception.\<close>

fun py_map :: "('a \<Rightarrow> 'e + 'b) \<Rightarrow> 'a list \<Rightarrow> 'e + 'b list" where
  "py_map f [] = Inr []"
| "py_map f (x # xs) = py_bind (f x) (\<lambda>y. py_bind (py_map f xs) (\<lambda>ys. Inr (y # ys)))"

lemma py_map_total: "(\<And>x. x \<in> set xs \<Longrightarrow> f x = Inr (g x)) \<Longrightarrow> py_map f xs = Inr (map g xs)"
  by (induction xs) simp_all

lemma py_map_Inr_iff: "py_map f xs = Inr ys \<longleftrightarrow> list_all2 (\<lambda>x y. f x = Inr y) xs ys"
  by (induction xs arbitrary: ys) (auto simp: py_bind_Inr_iff list_all2_Cons1)

lemma py_map_Inr_image: "py_map f xs = Inr ys \<Longrightarrow> f ` set xs = Inr ` set ys"
proof (induction xs arbitrary: ys)
  case (Cons x xs)
  then obtain y zs where "f x = Inr y" "py_map f xs = Inr zs" "ys = y # zs"
    by (auto simp: py_bind_Inr_iff)
  with Cons.IH [of zs] show ?case by simp
qed simp
lemma py_map_Inr_mem:
  assumes "py_map f xs = Inr ys"
  shows "x \<in> set xs \<Longrightarrow> \<exists>y \<in> set ys. f x = Inr y"
    and "y \<in> set ys \<Longrightarrow> \<exists>x \<in> set xs. f x = Inr y"
proof -
  note i = py_map_Inr_image [OF assms]
  show "\<exists>y \<in> set ys. f x = Inr y" if "x \<in> set xs"
    using imageI [OF that, of f] unfolding i by auto
  show "\<exists>x \<in> set xs. f x = Inr y" if "y \<in> set ys"
  proof -
    from that have "Inr y \<in> f ` set xs" unfolding i by (rule imageI)
    then obtain x where "Inr y = f x" "x \<in> set xs" by (rule imageE)
    then show ?thesis by (intro bexI [of _ x]) simp_all
  qed
qed

lemma py_map_Inr_length: "py_map f xs = Inr ys \<Longrightarrow> length ys = length xs"
  by (induction xs arbitrary: ys) (auto simp: py_bind_Inr_iff)

subsection \<open>JSON values\<close>

datatype json =
    JNull
  | JBool bool
  | JInt int
  | JFloat string
  | JStr string
  | JList "json list"
  | JObj "(string \<times> json) list"

type_synonym dict = "(string \<times> json) list"

lemma json_induct [case_names JNull JBool JInt JFloat JStr JList JObj]:
  assumes "P JNull" "\<And>b. P (JBool b)" "\<And>i. P (JInt i)" "\<And>r. P (JFloat r)" "\<And>s. P (JStr s)"
    and "\<And>xs. (\<And>x. x \<in> set xs \<Longrightarrow> P x) \<Longrightarrow> P (JList xs)"
    and "\<And>d. (\<And>k v. (k, v) \<in> set d \<Longrightarrow> P v) \<Longrightarrow> P (JObj d)"
  shows "P v"
  using assms(1-6) by (induction v) (use assms(7) in \<open>fastforce simp: snds.simps\<close>)+

fun truthy :: "json \<Rightarrow> bool" where
  "truthy JNull = False"
| "truthy (JBool b) = b"
| "truthy (JInt i) = (i \<noteq> 0)"
| "truthy (JFloat r) = (r \<noteq> ''0.0'' \<and> r \<noteq> ''-0.0'')"
| "truthy (JStr s) = (s \<noteq> [])"
| "truthy (JList xs) = (xs \<noteq> [])"
| "truthy (JObj d) = (d \<noteq> [])"

fun is_dict :: "json \<Rightarrow> bool" where
  "is_dict (JObj d) = True"
| "is_dict _ = False"

fun is_list :: "json \<Rightarrow> bool" where
  "is_list (JList xs) = True"
| "is_list _ = False"

fun is_str :: "json \<Rightarrow> bool" where
  "is_str (JStr s) = True"
| "is_str _ = False"

text \<open>\<open>d.get(k, default)\<close>, and \<open>d.get(k)\<close> whose default is \<open>None\<close>.\<close>

definition dget_or :: "dict \<Rightarrow> string \<Rightarrow> json \<Rightarrow> json" where
  "dget_or d k v = (case map_of d k of None \<Rightarrow> v | Some w \<Rightarrow> w)"

definition dget :: "dict \<Rightarrow> string \<Rightarrow> json" where
  "dget d k = dget_or d k JNull"

text \<open>\<open>d[k] = v\<close>: a new key goes to the end, an old one keeps its place.\<close>

definition dset :: "dict \<Rightarrow> string \<Rightarrow> json \<Rightarrow> dict" where
  "dset d k v = AList.update k v d"

lemma dget_Nil [simp]: "dget [] k = JNull" "dget_or [] k v = v"
  by (simp_all add: dget_def dget_or_def)

lemma dget_Cons [simp]:
  "dget ((k, v) # d) k' = (if k' = k then v else dget d k')"
  "dget_or ((k, v) # d) k' w = (if k' = k then v else dget_or d k' w)"
  by (simp_all add: dget_def dget_or_def)

lemma dget_dset [simp]: "dget (dset d k v) k' = (if k' = k then v else dget d k')"
  by (auto simp: dget_def dget_or_def dset_def update_conv')

lemma dget_or_dset [simp]: "dget_or (dset d k v) k' w = (if k' = k then v else dget_or d k' w)"
  by (auto simp: dget_or_def dset_def update_conv')

text \<open>\<open>x.get(k)\<close> on a value that may not be a dictionary, and iteration over a value.\<close>

fun obj_get_or :: "json \<Rightarrow> string \<Rightarrow> json \<Rightarrow> json py" where
  "obj_get_or (JObj d) k v = Inr (dget_or d k v)"
| "obj_get_or _ k v = Inl AttributeError"

fun obj_get :: "json \<Rightarrow> string \<Rightarrow> json py" where
  "obj_get (JObj d) k = Inr (dget d k)"
| "obj_get _ k = Inl AttributeError"

fun py_iter :: "json \<Rightarrow> json list py" where
  "py_iter (JList xs) = Inr xs"
| "py_iter (JObj d) = Inr (map (JStr \<circ> fst) d)"
| "py_iter (JStr s) = Inr (map (\<lambda>c. JStr [c]) s)"
| "py_iter _ = Inl TypeError"

subsection \<open>String methods\<close>

definition code :: "char \<Rightarrow> nat" where
  "code c = of_char c"

definition is_space :: "char \<Rightarrow> bool" where
  "is_space c = (let n = code c in
     (9 \<le> n \<and> n \<le> 13) \<or> (28 \<le> n \<and> n \<le> 32) \<or> n = 133 \<or> n = 160)"

definition strip :: "string \<Rightarrow> string" where
  "strip s = rev (dropWhile is_space (rev (dropWhile is_space s)))"

definition isascii :: "string \<Rightarrow> bool" where
  "isascii s = list_all (\<lambda>c. code c < 128) s"

definition lower_char :: "char \<Rightarrow> char" where
  "lower_char c = (if 65 \<le> code c \<and> code c \<le> 90 then char_of (code c + 32) else c)"

definition casefold_ascii :: "string \<Rightarrow> string" where
  "casefold_ascii s = map lower_char s"

text \<open>\<open>lower\<close> on the first 256 code points.\<close>

definition lower_latin :: "string \<Rightarrow> string" where
  "lower_latin s = map (\<lambda>c. if (65 \<le> code c \<and> code c \<le> 90) \<or> (192 \<le> code c \<and> code c \<le> 222 \<and> code c \<noteq> 215)
     then char_of (code c + 32) else c) s"

definition startswith :: "string \<Rightarrow> string \<Rightarrow> bool" where
  "startswith s p = (take (length p) s = p)"

fun contains :: "string \<Rightarrow> string \<Rightarrow> bool" where
  "contains p [] = (p = [])"
| "contains p (c # cs) = (startswith (c # cs) p \<or> contains p cs)"

definition endswith :: "string \<Rightarrow> string \<Rightarrow> bool" where
  "endswith s p = (length p \<le> length s \<and> drop (length s - length p) s = p)"

text \<open>A text in single quotes, and \<open>s.replace(old, new)\<close> for a pattern that is not empty.\<close>

definition quoted :: "string \<Rightarrow> string" where
  "quoted s = [CHR 0x27] @ s @ [CHR 0x27]"

function replace_all :: "string \<Rightarrow> string \<Rightarrow> string \<Rightarrow> string" where
  "replace_all old new [] = []"
| "replace_all old new (c # cs) =
     (if old \<noteq> [] \<and> startswith (c # cs) old then new @ replace_all old new (drop (length old - 1) cs)
      else c # replace_all old new cs)"
  by pat_completeness auto
termination by (relation "measure (\<lambda>(_, _, s). length s)") auto

definition split_on :: "(char \<Rightarrow> bool) \<Rightarrow> string \<Rightarrow> string list" where
  "split_on p s = foldr (\<lambda>c acc. if p c then [] # acc
     else case acc of [] \<Rightarrow> [[c]] | w # ws \<Rightarrow> (c # w) # ws) s [[]]"

text \<open>The line boundaries of \<open>str.splitlines\<close>; empty lines are dropped by the caller.\<close>

definition line_break :: "char \<Rightarrow> bool" where
  "line_break c = (let n = code c in (10 \<le> n \<and> n \<le> 13) \<or> (28 \<le> n \<and> n \<le> 30) \<or> n = 133)"

text \<open>\<open>str.splitlines\<close>\<close>

fun splitlines :: "string \<Rightarrow> string list" where
  "splitlines [] = []"
| "splitlines (c # s) =
     (if c = CHR 0x0D \<and> s \<noteq> [] \<and> hd s = CHR 0x0A then [] # splitlines (tl s)
      else if line_break c then [] # splitlines s
      else case splitlines s of [] \<Rightarrow> [[c]] | l # ls \<Rightarrow> (c # l) # ls)"

lemma code_lt [simp]: "code c < 256"
  by (simp add: code_def)

lemma code_char_of [simp]: "n < 256 \<Longrightarrow> code (char_of n) = n"
  by (simp add: code_def)

lemma char_of_code [simp]: "char_of (code c) = c"
  by (simp add: code_def)

lemma code_inj [simp]: "code c = code d \<longleftrightarrow> c = d"
  by (simp add: code_def)

lemma code_literals: "code CHR 0x22 = 34" "code CHR 0x5C = 92" "code CHR ''u'' = 117"
  "code CHR ''b'' = 98" "code CHR ''t'' = 116" "code CHR ''n'' = 110" "code CHR ''f'' = 102"
  "code CHR ''r'' = 114" "code CHR ''0'' = 48" "code CHR ''-'' = 45" "code CHR ''.'' = 46"
  "code CHR ''+'' = 43" "code CHR ''e'' = 101" "code CHR ''E'' = 69" 
  "code CHR '','' = 44" "code CHR '']'' = 93" "code CHR ''}'' = 125" "code CHR '':'' = 58"
  "code CHR ''['' = 91" "code CHR ''{'' = 123"
  by (simp_all add: code_def)

lemma char_eq_code: "c = d \<longleftrightarrow> code c = code d" by simp

lemma code_eqD: "code c = n \<Longrightarrow> c = char_of n"
  by auto

lemma lower_latin_idem: "lower_latin (lower_latin s) = lower_latin s"
  by (auto simp: lower_latin_def code_def)

lemma lower_char_idem [simp]: "lower_char (lower_char c) = lower_char c"
  by (simp add: lower_char_def)

lemma casefold_ascii_idem [simp]: "casefold_ascii (casefold_ascii s) = casefold_ascii s"
  by (simp add: casefold_ascii_def)

lemma is_space_lower_char [simp]: "is_space (lower_char c) = is_space c"
  by (auto simp: lower_char_def is_space_def Let_def)

lemma dropWhile_space_map_lower:
  "dropWhile is_space (map lower_char s) = map lower_char (dropWhile is_space s)"
  by (induction s) simp_all

lemma strip_casefold: "strip (casefold_ascii s) = casefold_ascii (strip s)"
  by (simp add: strip_def casefold_ascii_def rev_map dropWhile_space_map_lower)

lemma dropWhile_rev_hd:
  assumes "xs = [] \<or> \<not> p (hd xs)"
  shows "rev (dropWhile p (rev xs)) = [] \<or> \<not> p (hd (rev (dropWhile p (rev xs))))"
proof (cases xs)
  case Nil
  then show ?thesis by simp
next
  case (Cons x ys)
  with assms have "\<not> p x" by simp
  then have "rev (dropWhile p (rev xs)) = x # rev (dropWhile p (rev ys))"
    using Cons by (simp add: dropWhile_append3 dropWhile_append)
  with \<open>\<not> p x\<close> show ?thesis by simp
qed

lemma strip_idem [simp]: "strip (strip s) = strip s"
proof -
  let ?t = "dropWhile is_space s"
  have "?t = [] \<or> \<not> is_space (hd ?t)"
    using hd_dropWhile by blast
  then have "strip s = [] \<or> \<not> is_space (hd (strip s))"
    unfolding strip_def by (rule dropWhile_rev_hd)
  then have "dropWhile is_space (strip s) = strip s"
    by (cases "strip s") simp_all
  moreover have "dropWhile is_space (rev (strip s)) = rev (strip s)"
    by (simp add: strip_def)
  ultimately show ?thesis
    by (metis rev_rev_ident strip_def)
qed

lemma splitlines_line:
  assumes "list_all (\<lambda>c. \<not> line_break c) l"
  shows "splitlines (l @ CHR 0x0A # t) = l # splitlines t"
  using assms
proof (induction l)
  case Nil
  then show ?case by (simp add: line_break_def code_def)
next
  case (Cons c l)
  then have "c \<noteq> CHR 0x0D" by (auto simp: line_break_def code_def)
  with Cons show ?case by simp
qed

subsection \<open>Decimal numbers, \<open>str\<close> and \<open>repr\<close>\<close>

fun dec_digits :: "nat \<Rightarrow> string" where
  "dec_digits n = (if n < 10 then [char_of (48 + n)]
     else dec_digits (n div 10) @ [char_of (48 + n mod 10)])"

declare dec_digits.simps [simp del]

definition int_str :: "int \<Rightarrow> string" where
  "int_str i = (if i < 0 then ''-'' @ dec_digits (nat (- i)) else dec_digits (nat i))"

definition hex_digit :: "nat \<Rightarrow> char" where
  "hex_digit n = (if n < 10 then char_of (48 + n) else char_of (87 + n))"

definition repr_char :: "char \<Rightarrow> char \<Rightarrow> string" where
  "repr_char q c = (let n = code c in
     if c = q \<or> n = 92 then [CHR 0x5C, c]
     else if n = 9 then [CHR 0x5C, CHR ''t'']
     else if n = 10 then [CHR 0x5C, CHR ''n'']
     else if n = 13 then [CHR 0x5C, CHR ''r'']
     else if n < 32 \<or> (127 \<le> n \<and> n \<le> 160) \<or> n = 173
     then [CHR 0x5C, CHR ''x'', hex_digit (n div 16), hex_digit (n mod 16)]
     else [c])"

definition repr_str :: "string \<Rightarrow> string" where
  "repr_str s = (let q = (if CHR 0x27 \<in> set s \<and> CHR 0x22 \<notin> set s then CHR 0x22 else CHR 0x27)
     in [q] @ concat (map (repr_char q) s) @ [q])"

definition join :: "string \<Rightarrow> string list \<Rightarrow> string" where
  "join sep ss = (case ss of [] \<Rightarrow> [] | s # rest \<Rightarrow> s @ concat (map (\<lambda>t. sep @ t) rest))"

lemma join_simps [simp]:
  "join sep [] = []" "join sep [x] = x" "join sep (x # y # zs) = x @ sep @ join sep (y # zs)"
  by (simp_all add: join_def)

lemma join_append: "xs \<noteq> [] \<Longrightarrow> ys \<noteq> [] \<Longrightarrow> join sep (xs @ ys) = join sep xs @ sep @ join sep ys"
  by (cases xs; cases ys) (simp_all add: join_def)

fun py_repr :: "json \<Rightarrow> string" where
  "py_repr JNull = ''None''"
| "py_repr (JBool b) = (if b then ''True'' else ''False'')"
| "py_repr (JInt i) = int_str i"
| "py_repr (JFloat r) = r"
| "py_repr (JStr s) = repr_str s"
| "py_repr (JList xs) = ''['' @ join '', '' (map py_repr xs) @ '']''"
| "py_repr (JObj d) = ''{'' @ join '', '' (map (\<lambda>(k, v). repr_str k @ '': '' @ py_repr v) d) @ ''}''"

fun py_str :: "json \<Rightarrow> string" where
  "py_str (JStr s) = s"
| "py_str v = py_repr v"

subsection \<open>Numbers in text, \<open>or\<close>, equality\<close>

text \<open>\<open>int(text)\<close>: surrounding white space, a sign, digits with single underscores between.\<close>

definition digit_char :: "char \<Rightarrow> bool" where
  "digit_char c = (48 \<le> code c \<and> code c \<le> 57)"

fun int_digits :: "bool \<Rightarrow> nat \<Rightarrow> string \<Rightarrow> nat option" where
  "int_digits after_digit a [] = (if after_digit then Some a else None)"
| "int_digits after_digit a (c # cs) =
     (if digit_char c then int_digits True (10 * a + (code c - 48)) cs
      else if c = CHR ''_'' \<and> after_digit then int_digits False a cs
      else None)"

definition int_of_str :: "string \<Rightarrow> int option" where
  "int_of_str s = (case strip s of [] \<Rightarrow> None
     | c # cs \<Rightarrow> if c = CHR ''-'' then map_option (\<lambda>n. - int n) (int_digits False 0 cs)
         else if c = CHR ''+'' then map_option int (int_digits False 0 cs)
         else map_option int (int_digits False 0 (c # cs)))"

text \<open>\<open>int(v)\<close>; what it does with a float is an argument.\<close>

definition int_of_json :: "(string \<Rightarrow> int py) \<Rightarrow> json \<Rightarrow> int py" where
  "int_of_json trunc v = (case v of
     JBool b \<Rightarrow> Inr (if b then 1 else 0)
   | JInt i \<Rightarrow> Inr i
   | JFloat r \<Rightarrow> trunc r
   | JStr s \<Rightarrow> (case int_of_str s of Some i \<Rightarrow> Inr i | None \<Rightarrow> Inl ValueError)
   | _ \<Rightarrow> Inl TypeError)"

definition py_or :: "json \<Rightarrow> json \<Rightarrow> json" where
  "py_or a b = (if truthy a then a else b)"

text \<open>Equality of documents: \<open>True == 1 == 1.0\<close>, dictionaries regardless of order. A float
  stands for an integer when its text is the digits of one followed by \<open>.0\<close>.\<close>

fun py_num :: "json \<Rightarrow> int option" where
  "py_num (JBool b) = Some (if b then 1 else 0)"
| "py_num (JInt i) = Some i"
| "py_num (JFloat r) =
     (if endswith r ''.0'' then int_of_str (take (length r - 2) r) else None)"
| "py_num _ = None"

fun py_eq :: "json \<Rightarrow> json \<Rightarrow> bool" where
  "py_eq (JList xs) v = (case v of JList ys \<Rightarrow> list_all2 py_eq xs ys | _ \<Rightarrow> False)"
| "py_eq (JObj d) v = (case v of JObj d' \<Rightarrow> length d = length d' \<and>
     list_all (\<lambda>(k, w). case map_of d' k of Some w' \<Rightarrow> py_eq w w' | None \<Rightarrow> False) d | _ \<Rightarrow> False)"
| "py_eq u v = (case (py_num u, py_num v) of (Some i, Some j) \<Rightarrow> i = j | _ \<Rightarrow> u = v)"

fun hashable :: "json \<Rightarrow> bool" where
  "hashable (JList _) = False"
| "hashable (JObj _) = False"
| "hashable _ = True"

definition member_of :: "json \<Rightarrow> json list \<Rightarrow> bool py" where
  "member_of v vs = (if hashable v then Inr (list_ex (py_eq v) vs) else Inl TypeError)"

text \<open>\<open>sorted(xs, key=...)\<close>: numbers compare with numbers and strings with strings; other
  values, or a mixture, do not compare. Integers, booleans and floats that stand for an integer
  are the numbers of the model.\<close>

definition py_sort_by :: "('a \<Rightarrow> json) \<Rightarrow> 'a list \<Rightarrow> 'a list py" where
  "py_sort_by key xs =
     (if list_all (\<lambda>x. py_num (key x) \<noteq> None) xs then Inr (sort_key (\<lambda>x. the (py_num (key x))) xs)
      else if list_all (\<lambda>x. is_str (key x)) xs then Inr (sort_key (\<lambda>x. py_str (key x)) xs)
      else if length xs \<le> 1 then Inr xs
      else Inl TypeError)"

subsection \<open>Dictionaries with any keys\<close>

text \<open>A dictionary whose keys are JSON values, compared by Python's equality.\<close>

type_synonym keyed = "(json \<times> json) list"

definition pget :: "keyed \<Rightarrow> json \<Rightarrow> json" where
  "pget d k = (case find (\<lambda>p. py_eq k (fst p)) d of None \<Rightarrow> JNull | Some p \<Rightarrow> snd p)"

definition pset :: "keyed \<Rightarrow> json \<Rightarrow> json \<Rightarrow> keyed" where
  "pset d k v = (if list_ex (\<lambda>p. py_eq k (fst p)) d
     then map (\<lambda>p. if py_eq k (fst p) then (fst p, v) else p) d else d @ [(k, v)])"

lemma py_eq_JStr [simp]: "py_eq (JStr s) v \<longleftrightarrow> JStr s = v" "py_eq v (JStr s) \<longleftrightarrow> v = JStr s"
  by (cases v; auto split: option.splits)+

lemma py_eq_refl_hashable: "hashable v \<Longrightarrow> py_eq v v"
  by (cases v) (auto split: option.splits)

lemma list_ex_key: "list_ex (\<lambda>p. k = fst p) d \<longleftrightarrow> k \<in> set (map fst d)"
  by (auto simp: list_ex_iff)

lemma pget_pset: "pget (pset d (JStr i) v) (JStr i) = v"
proof (cases "JStr i \<in> set (map fst d)")
  case True
  then have "find (\<lambda>p. JStr i = fst p) (map (\<lambda>p. if JStr i = fst p then (fst p, v) else p) d) = Some (JStr i, v)"
    by (induction d) auto
  with True show ?thesis by (simp add: pget_def pset_def list_ex_key)
next
  case False
  then have "find (\<lambda>p. JStr i = fst p) (d @ [(JStr i, v)]) = Some (JStr i, v)" by (induction d) auto
  with False show ?thesis by (simp add: pget_def pset_def list_ex_key)
qed

lemma pget_pset_other: "k \<noteq> JStr i \<Longrightarrow> pget (pset d k v) (JStr i) = pget d (JStr i)"
proof -
  assume k: "k \<noteq> JStr i"
  have "find (\<lambda>p. JStr i = fst p) (map (\<lambda>p. if py_eq k (fst p) then (fst p, v) else p) d) =
      find (\<lambda>p. JStr i = fst p) d"
    using k by (induction d) auto
  moreover have "find (\<lambda>p. JStr i = fst p) (d @ [(k, v)]) = find (\<lambda>p. JStr i = fst p) d"
    using k by (induction d) auto
  ultimately show ?thesis by (simp add: pget_def pset_def)
qed

subsection \<open>Lines of text\<close>

lemma split_on_simps:
  "split_on p [] = [[]]"
  "split_on p (c # s) = (if p c then [] # split_on p s
     else case split_on p s of [] \<Rightarrow> [[c]] | w # ws \<Rightarrow> (c # w) # ws)"
  by (simp_all add: split_on_def)

lemma split_on_line:
  assumes "list_all (\<lambda>c. \<not> p c) l"
  shows "split_on p l = [l]" and "p x \<Longrightarrow> split_on p (l @ x # r) = l # split_on p r"
  using assms by (induction l) (simp_all add: split_on_simps)

lemma split_on_join:
  assumes "list_all (list_all (\<lambda>c. \<not> p c)) ls" "ls \<noteq> []" "p x"
  shows "split_on p (join [x] ls) = ls"
  using assms
proof (induction ls rule: induct_list012)
  case (3 l m ls)
  then show ?case by (simp add: split_on_line(2))
qed (simp_all add: split_on_line)

definition trimmed :: "string \<Rightarrow> bool" where
  "trimmed l = (l \<noteq> [] \<and> \<not> is_space (hd l) \<and> \<not> is_space (last l))"

lemma strip_trimmed: "trimmed l \<Longrightarrow> strip l = l"
  by (simp add: trimmed_def strip_def dropWhile_eq_self_iff [THEN iffD2] hd_rev)

lemma strip_trimmed_newline: "trimmed l \<Longrightarrow> strip (l @ [CHR 0x0A]) = l"
proof -
  assume t: "trimmed l"
  have "is_space CHR 0x0A" by (simp add: is_space_def code_def)
  moreover have "dropWhile is_space (l @ [CHR 0x0A]) = l @ [CHR 0x0A]"
    using t by (cases l) (simp_all add: trimmed_def)
  ultimately show ?thesis
    using t by (simp add: trimmed_def strip_def dropWhile_eq_self_iff [THEN iffD2] hd_rev)
qed

lemma trimmed_join:
  assumes "list_all trimmed ls" "ls \<noteq> []"
  shows "trimmed (join [x] ls)" and "concat (map (\<lambda>l. l @ [x]) ls) = join [x] ls @ [x]"
proof -
  have ne: "join [x] ls \<noteq> []" if "list_all trimmed ls" "ls \<noteq> []" for ls
    using that by (cases ls) (auto simp: join_def trimmed_def)
  show "trimmed (join [x] ls)"
    using assms
  proof (induction ls rule: induct_list012)
    case (3 l m ls)
    then have "trimmed (join [x] (m # ls))" "trimmed l" by simp_all
    then show ?case by (auto simp: trimmed_def hd_append)
  qed simp_all
  show "concat (map (\<lambda>l. l @ [x]) ls) = join [x] ls @ [x]"
    using assms(2) by (induction ls rule: induct_list012) simp_all
qed

subsection \<open>Generic lemmas\<close>

lemma takeWhile_plain:
  assumes "list_all p s" "t = [] \<or> \<not> p (hd t)"
  shows "takeWhile p (s @ t) = s" "dropWhile p (s @ t) = t"
  using assms by (induction s) (cases t; simp)+

lemma set_filter_sort_key: "set (filter p (sort_key f xs)) = {x \<in> set xs. p x}"
  by simp

lemma sort_key_set_unique:
  assumes "set xs = set ys" "distinct (map f xs)" "distinct (map f ys)"
  shows "sort_key f xs = sort_key f ys"
proof (rule map_sorted_distinct_set_unique [of f])
  show "inj_on f (set (sort_key f xs) \<union> set (sort_key f ys))"
    using assms by (simp add: distinct_map)
qed (use assms in \<open>simp_all add: distinct_map\<close>)

lemma find_None_list_all: "find p xs = None \<longleftrightarrow> list_all (\<lambda>x. \<not> p x) xs"
  by (induction xs) auto

lemma concat_map_Nil_iff: "concat (map f xs) = [] \<longleftrightarrow> (\<forall>x \<in> set xs. f x = [])"
  by auto

lemma distinct_map_sort_key: "distinct (map f (sort_key k xs)) = distinct (map f xs)"
  by (simp add: distinct_map)

lemma sort_key_map_filter: "sort_key f (filter p xs) = filter p (sort_key f xs)"
  by (simp add: filter_sort)

end
