(* ===== verification/Sha256.thy ===== *)
theory Sha256
  imports Prelude "HOL-Library.Word"
begin

unbundle bit_operations_syntax

section \<open>\<open>hashlib.sha256\<close>\<close>

text \<open>
  The digest the standard library computes, as the tools use it: UTF-8 encoding of a string,
  SHA-256 of the bytes, and the lower-case hexadecimal digest. The compression function is
  written over \<open>32 word\<close>, so its additions wrap as they do in the standard (FIPS 180-4).
  Everything evaluates; \<open>Sha256_Vectors\<close> checks a published digest.

  Collision resistance is not provable (a 256-bit digest has collisions), so no theorem of the
  development assumes it: the tamper-evidence theorems say that an undetected change exhibits
  two distinct strings with the same digest. What the clients rely on is the shape of a digest,
  64 lower-case hexadecimal digits, which the last section proves.
\<close>

type_synonym byte = "8 word"

definition utf8_char :: "char \<Rightarrow> byte list" where
  "utf8_char c = (let n = code c in
     if n < 128 then [of_nat n] else [of_nat (192 + n div 64), of_nat (128 + n mod 64)])"

definition utf8 :: "string \<Rightarrow> byte list" where
  "utf8 s = concat (map utf8_char s)"

definition big_endian8 :: "nat \<Rightarrow> byte list" where
  "big_endian8 n = (let w = (of_nat n :: 64 word)
     in map (\<lambda>i. ucast (drop_bit (8 * (7 - i)) w)) [0..<8])"

definition sha_pad :: "byte list \<Rightarrow> byte list" where
  "sha_pad m = (let n = length m; z = (119 - n mod 64) mod 64
     in m @ [0x80] @ replicate z 0 @ big_endian8 (8 * n))"

fun words_of :: "byte list \<Rightarrow> 32 word list" where
  "words_of (a # b # c # d # rest) =
     (push_bit 24 (ucast a) OR push_bit 16 (ucast b) OR push_bit 8 (ucast c) OR ucast d)
       # words_of rest"
| "words_of _ = []"

definition sha_k :: "32 word list" where
  "sha_k = [
     0x428A2F98, 0x71374491, 0xB5C0FBCF, 0xE9B5DBA5, 0x3956C25B, 0x59F111F1, 0x923F82A4, 0xAB1C5ED5,
     0xD807AA98, 0x12835B01, 0x243185BE, 0x550C7DC3, 0x72BE5D74, 0x80DEB1FE, 0x9BDC06A7, 0xC19BF174,
     0xE49B69C1, 0xEFBE4786, 0x0FC19DC6, 0x240CA1CC, 0x2DE92C6F, 0x4A7484AA, 0x5CB0A9DC, 0x76F988DA,
     0x983E5152, 0xA831C66D, 0xB00327C8, 0xBF597FC7, 0xC6E00BF3, 0xD5A79147, 0x06CA6351, 0x14292967,
     0x27B70A85, 0x2E1B2138, 0x4D2C6DFC, 0x53380D13, 0x650A7354, 0x766A0ABB, 0x81C2C92E, 0x92722C85,
     0xA2BFE8A1, 0xA81A664B, 0xC24B8B70, 0xC76C51A3, 0xD192E819, 0xD6990624, 0xF40E3585, 0x106AA070,
     0x19A4C116, 0x1E376C08, 0x2748774C, 0x34B0BCB5, 0x391C0CB3, 0x4ED8AA4A, 0x5B9CCA4F, 0x682E6FF3,
     0x748F82EE, 0x78A5636F, 0x84C87814, 0x8CC70208, 0x90BEFFFA, 0xA4506CEB, 0xBEF9A3F7, 0xC67178F2]"

type_synonym sha_state =
  "32 word \<times> 32 word \<times> 32 word \<times> 32 word \<times> 32 word \<times> 32 word \<times> 32 word \<times> 32 word"

definition sha_init :: sha_state where
  "sha_init = (0x6A09E667, 0xBB67AE85, 0x3C6EF372, 0xA54FF53A,
     0x510E527F, 0x9B05688C, 0x1F83D9AB, 0x5BE0CD19)"

definition big_sigma0 :: "32 word \<Rightarrow> 32 word" where
  "big_sigma0 x = word_rotr 2 x XOR word_rotr 13 x XOR word_rotr 22 x"

definition big_sigma1 :: "32 word \<Rightarrow> 32 word" where
  "big_sigma1 x = word_rotr 6 x XOR word_rotr 11 x XOR word_rotr 25 x"

definition small_sigma0 :: "32 word \<Rightarrow> 32 word" where
  "small_sigma0 x = word_rotr 7 x XOR word_rotr 18 x XOR drop_bit 3 x"

definition small_sigma1 :: "32 word \<Rightarrow> 32 word" where
  "small_sigma1 x = word_rotr 17 x XOR word_rotr 19 x XOR drop_bit 10 x"

fun sha_round :: "32 word \<Rightarrow> 32 word \<Rightarrow> sha_state \<Rightarrow> sha_state" where
  "sha_round k w (a, b, c, d, e, f, g, h) =
     (let t1 = h + big_sigma1 e + ((e AND f) XOR (NOT e AND g)) + k + w;
          t2 = big_sigma0 a + ((a AND b) XOR (a AND c) XOR (b AND c))
      in (t1 + t2, a, b, c, d + t1, e, f, g))"

text \<open>The message schedule is a window of sixteen words that slides once per round.\<close>

definition next_word :: "32 word list \<Rightarrow> 32 word" where
  "next_word w = small_sigma1 (w ! 14) + w ! 9 + small_sigma0 (w ! 1) + w ! 0"

fun sha_rounds :: "32 word list \<Rightarrow> 32 word list \<Rightarrow> sha_state \<Rightarrow> sha_state" where
  "sha_rounds [] w st = st"
| "sha_rounds (k # ks) w st = sha_rounds ks (tl w @ [next_word w]) (sha_round k (hd w) st)"

fun add_state :: "sha_state \<Rightarrow> sha_state \<Rightarrow> sha_state" where
  "add_state (a, b, c, d, e, f, g, h) (a', b', c', d', e', f', g', h') =
     (a + a', b + b', c + c', d + d', e + e', f + f', g + g', h + h')"

function sha_blocks :: "32 word list \<Rightarrow> sha_state \<Rightarrow> sha_state" where
  "sha_blocks ws st = (if ws = [] then st
     else sha_blocks (drop 16 ws) (add_state st (sha_rounds sha_k (take 16 ws) st)))"
  by pat_completeness auto
termination
  by (relation "measure (\<lambda>(ws, st). length ws)") auto

declare sha_blocks.simps [simp del]

definition hex_word :: "32 word \<Rightarrow> string" where
  "hex_word w = map (\<lambda>i. hex_digit (unat (drop_bit (28 - 4 * i) w AND 15))) [0..<8]"

fun hex_state :: "sha_state \<Rightarrow> string" where
  "hex_state (a, b, c, d, e, f, g, h) =
     hex_word a @ hex_word b @ hex_word c @ hex_word d @
     hex_word e @ hex_word f @ hex_word g @ hex_word h"

definition sha256_bytes :: "byte list \<Rightarrow> string" where
  "sha256_bytes m = hex_state (sha_blocks (words_of (sha_pad m)) sha_init)"

definition sha256_hex :: "string \<Rightarrow> string" where
  "sha256_hex s = sha256_bytes (utf8 s)"

subsection \<open>The shape of a digest\<close>

definition is_lower_hex :: "char \<Rightarrow> bool" where
  "is_lower_hex c = ((48 \<le> code c \<and> code c \<le> 57) \<or> (97 \<le> code c \<and> code c \<le> 102))"

definition is_hex64 :: "string \<Rightarrow> bool" where
  "is_hex64 s = (length s = 64 \<and> list_all is_lower_hex s)"

lemma is_lower_hex_digit: "n < 16 \<Longrightarrow> is_lower_hex (hex_digit n)"
  by (auto simp: hex_digit_def is_lower_hex_def)

lemma list_all_hex_word: "list_all is_lower_hex (hex_word w)"
proof -
  have "unat (v AND 15) < 16" for v :: "32 word"
  proof -
    have "unat (v AND 15) \<le> unat (15 :: 32 word)"
      by (rule word_and_le1 [THEN word_le_nat_alt [THEN iffD1]])
    then show ?thesis by simp
  qed
  then show ?thesis
    by (simp add: hex_word_def list_all_iff is_lower_hex_digit)
qed

lemma is_hex64_sha256_bytes: "is_hex64 (sha256_bytes m)"
proof -
  obtain a b c d e f g h
    where "sha_blocks (words_of (sha_pad m)) sha_init = (a, b, c, d, e, f, g, h)"
    by (cases "sha_blocks (words_of (sha_pad m)) sha_init") auto
  moreover have "length (hex_word w) = 8" for w
    by (simp add: hex_word_def)
  ultimately show ?thesis
    by (simp add: sha256_bytes_def is_hex64_def list_all_hex_word)
qed

text \<open>Two different texts with the same digest.\<close>

definition collide :: "string \<Rightarrow> string \<Rightarrow> bool" where
  "collide x y = (x \<noteq> y \<and> sha256_hex x = sha256_hex y)"

lemma sha256_hex_eq: "sha256_hex x = sha256_hex y \<longleftrightarrow> x = y \<or> collide x y"
  by (auto simp: collide_def)

lemma is_hex64_sha256_hex [simp]: "is_hex64 (sha256_hex s)"
  by (simp add: sha256_hex_def is_hex64_sha256_bytes)

subsection \<open>\<open>hmac\<close>\<close>

text \<open>\<open>hmac.new(key, message, sha256).hexdigest()\<close>, as RFC 2104 has it.\<close>

definition hex_digit_val :: "char \<Rightarrow> nat" where
  "hex_digit_val c = (if code c < 58 then code c - 48 else code c - 87)"

fun unhex :: "string \<Rightarrow> byte list" where
  "unhex (a # b # s) = of_nat (16 * hex_digit_val a + hex_digit_val b) # unhex s"
| "unhex _ = []"

definition hmac_key :: "byte list \<Rightarrow> byte list" where
  "hmac_key k = (let k = (if 64 < length k then unhex (sha256_bytes k) else k)
     in k @ replicate (64 - length k) 0)"

definition hmac_sha256 :: "byte list \<Rightarrow> byte list \<Rightarrow> string" where
  "hmac_sha256 k m = (let k = hmac_key k in
     sha256_bytes (map (\<lambda>b. b XOR 0x5C) k @ unhex (sha256_bytes (map (\<lambda>b. b XOR 0x36) k @ m))))"

end
