(* ===== verification/Sha256_Vectors.thy ===== *)
theory Sha256_Vectors
  imports Sha256
begin

section \<open>A published digest\<close>

text \<open>
  The digest of ''abc'' printed in FIPS 180-4, evaluated by the simplifier on the definitions of
  \<open>Sha256\<close>: one padded block, 64 rounds.
\<close>

lemma sha256_abc:
  "sha256_hex ''abc'' = ''ba7816bf8f01cfea414140de5dae2223b00361a396177a9cb410ff61f20015ad''"
  by code_simp

end
