(* ===== verification/Roles.thy ===== *)
theory Roles
  imports Prelude
begin

section \<open>Actor roles, execution bounds and actor identity\<close>

text \<open>
  \<open>tools/spine_roles.py\<close>, \<open>tools/execution_bounds.py\<close> and \<open>tools/actor_identity.py\<close>.
  The environment is a partial map from names to strings and an argument of the bounds; the
  hook event is a dictionary. The lemmas show that an identity comes from the two runtime keys
  only, so nothing an agent writes into its payload can change it.
\<close>

subsection \<open>Roles\<close>

definition VERIFIER_ROLE :: string where "VERIFIER_ROLE = ''verifier''"
definition IMPLEMENTER_ROLE :: string where "IMPLEMENTER_ROLE = ''implementer''"
definition INITIALIZER_ROLE :: string where "INITIALIZER_ROLE = ''initializer''"
definition RESEARCH_ROLE :: string where "RESEARCH_ROLE = ''research''"
definition MAIN_ACTOR :: string where "MAIN_ACTOR = ''main''"

definition PROTECTED_PREFIXES :: "string list" where
  "PROTECTED_PREFIXES = [''tests/'', ''schema/'', ''.github/workflows/'', ''.github/policies/'',
     ''.claude/hooks/'', ''.claude/settings.json'']"

lemmas role_defs = VERIFIER_ROLE_def IMPLEMENTER_ROLE_def INITIALIZER_ROLE_def
  RESEARCH_ROLE_def MAIN_ACTOR_def

subsection \<open>Execution bounds\<close>

type_synonym environ = "string \<rightharpoonup> string"

definition bound_int :: "environ \<Rightarrow> string \<Rightarrow> int \<Rightarrow> int" where
  "bound_int env name d = (case env name of None \<Rightarrow> d
     | Some text \<Rightarrow> (case int_of_str text of None \<Rightarrow> d | Some i \<Rightarrow> i))"

definition bound_str :: "environ \<Rightarrow> string \<Rightarrow> string \<Rightarrow> string" where
  "bound_str env name d = (case env name of None \<Rightarrow> d | Some text \<Rightarrow> text)"

record exec_bounds =
  MAX_TURNS_PER_SLICE :: int
  N_PROGRESS_WINDOW :: int
  SPEC_COMPLETION_HARD_CAP :: int
  BLOCK_STREAK_HANDOFF :: int
  ORPHAN_DETECTOR_BASELINE :: string
  SEMGREP_BASELINE_STRATEGY :: string
  ORPHAN_ALLOWLIST_PATTERN :: string
  SEMGREP_TIMEOUT_SECONDS :: int

definition exec_bounds_of :: "environ \<Rightarrow> exec_bounds" where
  "exec_bounds_of env = \<lparr>
     MAX_TURNS_PER_SLICE = bound_int env ''SPINE_MAX_TURNS_PER_SLICE'' 25,
     N_PROGRESS_WINDOW = bound_int env ''SPINE_N_PROGRESS_WINDOW'' 3,
     SPEC_COMPLETION_HARD_CAP = bound_int env ''SPINE_SPEC_PASS_CAP'' 7,
     BLOCK_STREAK_HANDOFF = bound_int env ''SPINE_BLOCK_STREAK_HANDOFF'' 5,
     ORPHAN_DETECTOR_BASELINE = bound_str env ''ORPHAN_DETECTOR_BASELINE'' ''origin/main'',
     SEMGREP_BASELINE_STRATEGY = bound_str env ''SEMGREP_BASELINE_STRATEGY'' ''auto'',
     ORPHAN_ALLOWLIST_PATTERN = bound_str env ''ORPHAN_ALLOWLIST_PATTERN'' ''tools/.*'',
     SEMGREP_TIMEOUT_SECONDS = bound_int env ''SEMGREP_TIMEOUT_SECONDS'' 120\<rparr>"

lemma bound_int_fallback:
  "env name = None \<or> (\<exists>t. env name = Some t \<and> int_of_str t = None) \<Longrightarrow> bound_int env name d = d"
  by (auto simp: bound_int_def)

subsection \<open>Identity\<close>

record identity =
  ident_session :: string
  ident_actor :: string

definition resolve_identity :: "dict \<Rightarrow> identity py" where
  "resolve_identity hook_input =
     (let sid = dget hook_input ''session_id'' in
      if \<not> truthy sid then Inl ValueError
      else let ag = dget hook_input ''agent_type'';
               ag' = (if truthy ag then ag else JStr MAIN_ACTOR)
           in Inr \<lparr>ident_session = py_str sid, ident_actor = py_str ag'\<rparr>)"

lemma resolve_identity_cong:
  assumes "dget d ''session_id'' = dget d' ''session_id''"
    and "dget d ''agent_type'' = dget d' ''agent_type''"
  shows "resolve_identity d = resolve_identity d'"
  using assms by (simp add: resolve_identity_def Let_def)

text \<open>
  Identity cannot be forged from the payload: whatever keys other than the two runtime
  signals an agent adds to or overwrites in the hook event (\<open>actor_agent\<close>,
  \<open>tool_input\<close>, \<open>implementer_session_id\<close>, \<dots>), the resolved identity stays the same.
\<close>

theorem resolve_identity_unforgeable:
  assumes "\<forall>k \<in> fst ` set forged. k \<noteq> ''session_id'' \<and> k \<noteq> ''agent_type''"
  shows "resolve_identity (fold (\<lambda>(k, v) d. dset d k v) forged d) = resolve_identity d"
  using assms
proof (induction forged arbitrary: d)
  case (Cons p forged)
  obtain k v where [simp]: "p = (k, v)" by force
  from Cons.prems have "resolve_identity (dset d k v) = resolve_identity d"
    by (intro resolve_identity_cong) auto
  with Cons show ?case by simp
qed simp

theorem resolve_identity_unforgeable_witness:
  "resolve_identity (fold (\<lambda>(k, v) d. dset d k v)
       [(''actor_agent'', JStr ''verifier'')]
       [(''session_id'', JStr ''s1''), (''agent_type'', JStr ''implementer'')])
     = Inr \<lparr>ident_session = ''s1'', ident_actor = ''implementer''\<rparr>"
  by (subst resolve_identity_unforgeable) (simp_all add: resolve_identity_def)

end
