(* ===== verification/Coverage.thy ===== *)
theory Coverage
  imports Roles
begin

section \<open>The coverage model: transitions, authority, completion\<close>

text \<open>
  \<open>tools/coverage.py\<close>. A coverage model is a JSON document with an \<open>items\<close> list of
  dictionaries; reading a field of an item that is not a dictionary raises. The locale
  \<open>status_moves\<close> is the contract of a table of legal status moves: the coverage helpers
  and the durable store each hold such a table, and both interpret it.
\<close>

subsection \<open>The contract of a table of legal moves\<close>

locale status_moves =
  fixes allowed :: "(string \<times> string) list"
  assumes into_proven: "(s, ''proven'') \<in> set allowed \<Longrightarrow> s = ''unproven''"
    and out_of_failed: "(''failed'', t) \<in> set allowed \<Longrightarrow> t = ''unproven''"
    and no_stutter: "(s, s) \<notin> set allowed"
begin

definition history :: "string list \<Rightarrow> bool" where
  "history ss = successively (\<lambda>s t. (s, t) \<in> set allowed) ss"

lemma history_snoc2:
  "history (ss @ [s, t]) \<longleftrightarrow> history (ss @ [s]) \<and> (s, t) \<in> set allowed"
  by (auto simp: history_def successively_append_iff)

lemma proven_from_unproven: "history (ss @ [s, ''proven'']) \<Longrightarrow> s = ''unproven''"
  by (auto simp: history_snoc2 dest: into_proven)

lemma failed_never_straight_to_proven: "\<not> history (ss @ [''failed'', ''proven''])"
  by (auto dest: proven_from_unproven)

end

subsection \<open>Transitions and authority\<close>

definition ALLOWED_TRANSITIONS :: "(string \<times> string) list" where
  "ALLOWED_TRANSITIONS =
     [(''unproven'', ''proven''), (''unproven'', ''failed''), (''failed'', ''unproven''),
      (''proven'', ''unproven'')]"

interpretation cov: status_moves ALLOWED_TRANSITIONS
  by unfold_locales (auto simp: ALLOWED_TRANSITIONS_def)

datatype cov_error =
    CovTransitionError string string
  | StatusAuthorityError
  | ScopeAuthorityError
  | UnknownFieldError string

definition assert_transition :: "string \<Rightarrow> string \<Rightarrow> cov_error + unit" where
  "assert_transition frm to =
     (if (frm, to) \<in> set ALLOWED_TRANSITIONS then Inr () else Inl (CovTransitionError frm to))"

definition assert_field_authority :: "string \<Rightarrow> string \<Rightarrow> bool \<Rightarrow> cov_error + unit" where
  "assert_field_authority field actor human_signed =
     (if field = ''status'' then
        (if actor \<noteq> VERIFIER_ROLE then Inl StatusAuthorityError else Inr ())
      else if field = ''in_scope'' then
        (if \<not> human_signed then Inl ScopeAuthorityError else Inr ())
      else Inl (UnknownFieldError field))"

subsection \<open>In-scope items and the completion query\<close>

text \<open>\<open>[i for i in model.get("items", []) if i.get("in_scope")]\<close>\<close>

fun filter_in_scope :: "json list \<Rightarrow> dict list py" where
  "filter_in_scope [] = Inr []"
| "filter_in_scope (i # is) =
     (case i of
        JObj d \<Rightarrow> py_bind (filter_in_scope is)
          (\<lambda>ds. Inr (if truthy (dget d ''in_scope'') then d # ds else ds))
      | _ \<Rightarrow> Inl AttributeError)"

definition in_scope_items :: "json \<Rightarrow> dict list py" where
  "in_scope_items model =
     py_bind (obj_get_or model ''items'' (JList [])) (\<lambda>its. py_bind (py_iter its) filter_in_scope)"

definition has_unproven_in_scope :: "json \<Rightarrow> bool py" where
  "has_unproven_in_scope model = py_bind (in_scope_items model)
     (\<lambda>ds. Inr (list_ex (\<lambda>d. dget d ''status'' \<noteq> JStr ''proven'') ds))"

definition is_complete :: "json \<Rightarrow> bool py" where
  "is_complete model = py_bind (in_scope_items model)
     (\<lambda>ds. py_bind (has_unproven_in_scope model) (\<lambda>b. Inr (ds \<noteq> [] \<and> \<not> b)))"

lemma filter_in_scope_objs:
  "filter_in_scope (map JObj ds) = Inr (filter (\<lambda>d. truthy (dget d ''in_scope'')) ds)"
  by (induction ds) simp_all

lemma filter_in_scope_Inr:
  "filter_in_scope is = Inr ds \<Longrightarrow>
     \<exists>es. is = map JObj es \<and> ds = filter (\<lambda>d. truthy (dget d ''in_scope'')) es"
proof (induction "is" arbitrary: ds)
  case (Cons i "is")
  then obtain d ds' where i: "i = JObj d" and "filter_in_scope is = Inr ds'"
    and ds: "ds = (if truthy (dget d ''in_scope'') then d # ds' else ds')"
    by (cases i) (auto simp: py_bind_Inr_iff)
  then obtain es where "is = map JObj es" "ds' = filter (\<lambda>d. truthy (dget d ''in_scope'')) es"
    using Cons.IH by blast
  with i ds show ?case by (intro exI [of _ "d # es"]) simp
qed simp

lemma in_scope_items_objs [simp]:
  "in_scope_items (JObj [(''items'', JList (map JObj ds))]) =
     Inr (filter (\<lambda>d. truthy (dget d ''in_scope'')) ds)"
  by (simp add: in_scope_items_def filter_in_scope_objs)

lemma in_scope_items_Inr:
  "in_scope_items model = Inr ds \<Longrightarrow> d \<in> set ds \<Longrightarrow> truthy (dget d ''in_scope'')"
  by (auto simp: in_scope_items_def py_bind_Inr_iff dest!: filter_in_scope_Inr)

lemma is_complete_True:
  "is_complete model = Inr True \<longleftrightarrow>
     (\<exists>ds. in_scope_items model = Inr ds \<and> ds \<noteq> [] \<and>
        list_all (\<lambda>d. dget d ''status'' = JStr ''proven'') ds)"
  by (cases "in_scope_items model")
    (auto simp: is_complete_def has_unproven_in_scope_def list_ex_iff list_all_iff)

subsection \<open>Properties\<close>

text \<open>
  \<open>assert_transition\<close> raises on every move but the four legal ones, so in any run of
  accepted moves the status before \<open>proven\<close> is \<open>unproven\<close>: a failed item is never
  flipped straight to proven, and a proven one is never re-proven without re-entry.
\<close>

theorem proven_only_from_unproven:
  assumes "successively (\<lambda>s t. assert_transition s t = Inr ()) (ss @ [s, ''proven''])"
  shows "s = ''unproven''"
proof -
  have "successively (\<lambda>s t. (s, t) \<in> set ALLOWED_TRANSITIONS) (ss @ [s, ''proven''])"
    using assms by (rule successively_mono) (simp add: assert_transition_def split: if_splits)
  then show ?thesis
    by (intro cov.proven_from_unproven [of ss]) (simp add: cov.history_def)
qed

theorem proven_only_from_unproven_witness:
  "\<exists>s. successively (\<lambda>s t. assert_transition s t = Inr ())
     ([''failed''] @ [s, ''proven'']) \<and> s = ''unproven''"
  by (intro exI [of _ "''unproven''"] conjI proven_only_from_unproven [of "[''failed'']"])
    (simp_all add: assert_transition_def ALLOWED_TRANSITIONS_def)

text \<open>
  Completion is exact: \<open>is_complete\<close> answers true exactly when the document is well
  formed, has at least one in-scope item, and every in-scope item is \<open>proven\<close>. A model with no
  in-scope items is never complete.
\<close>

theorem is_complete_iff:
  "is_complete model = Inr True \<longleftrightarrow>
     (\<exists>ds. in_scope_items model = Inr ds \<and> ds \<noteq> [] \<and>
        list_all (\<lambda>d. dget d ''status'' = JStr ''proven'') ds)"
  by (rule is_complete_True)

end
