(* ===== verification/Evidence.thy ===== *)
theory Evidence
  imports Coverage Sha256
begin

section \<open>Evidence records\<close>

text \<open>
  \<open>tools/evidence_collector.py\<close>, and what it uses of the standard library: the pattern
  \<open>^sha256:[a-f0-9]{64}$\<close> as \<open>re.match\<close> applies it (\<open>$\<close> also matches before a final
  newline), \<open>datetime.fromisoformat\<close> on its documented grammar, and
  \<open>datetime.isoformat\<close> of an aware UTC instant. The clock is an argument of \<open>collect\<close>.
\<close>

subsection \<open>ISO 8601 instants\<close>

definition dig :: "nat \<Rightarrow> char" where
  "dig n = char_of (48 + n)"

fun digits_val :: "nat \<Rightarrow> string \<Rightarrow> (nat \<times> string) option" where
  "digits_val 0 s = Some (0, s)"
| "digits_val (Suc n) [] = None"
| "digits_val (Suc n) (c # s) =
     (if digit_char c
      then map_option (\<lambda>(v, r). ((code c - 48) * 10 ^ n + v, r)) (digits_val n s) else None)"

definition leap_year :: "nat \<Rightarrow> bool" where
  "leap_year y = (y mod 4 = 0 \<and> (y mod 100 \<noteq> 0 \<or> y mod 400 = 0))"

definition days_in_month :: "nat \<Rightarrow> nat \<Rightarrow> nat" where
  "days_in_month y m = (if m = 2 then (if leap_year y then 29 else 28)
     else if m = 4 \<or> m = 6 \<or> m = 9 \<or> m = 11 then 30 else 31)"

definition valid_date :: "nat \<Rightarrow> nat \<Rightarrow> nat \<Rightarrow> bool" where
  "valid_date y m d =
     (1 \<le> y \<and> y \<le> 9999 \<and> 1 \<le> m \<and> m \<le> 12 \<and> 1 \<le> d \<and> d \<le> days_in_month y m)"

text \<open>Week dates: the weekday (Monday is 1) of the first of January decides on week 53.\<close>

definition jan1_weekday :: "nat \<Rightarrow> nat" where
  "jan1_weekday y = (let p = y - 1 in (p + p div 4 - p div 100 + p div 400) mod 7 + 1)"

definition valid_week :: "nat \<Rightarrow> nat \<Rightarrow> nat \<Rightarrow> bool" where
  "valid_week y w d =
     (1 \<le> y \<and> y \<le> 9999 \<and> 1 \<le> d \<and> d \<le> 7 \<and>
      ((1 \<le> w \<and> w \<le> 52) \<or>
       (w = 53 \<and> (jan1_weekday y = 4 \<or> (jan1_weekday y = 3 \<and> leap_year y)))) \<and>
      \<not> (y = 9999 \<and> w = 52 \<and> 5 < d))"

definition parse_date :: "string \<Rightarrow> bool" where
  "parse_date s = (case digits_val 4 s of None \<Rightarrow> False
     | Some (y, r) \<Rightarrow>
         (let sep = (r \<noteq> [] \<and> hd r = CHR ''-''); r1 = (if sep then tl r else r) in
          if r1 \<noteq> [] \<and> hd r1 = CHR ''W'' then
            (case digits_val 2 (tl r1) of None \<Rightarrow> False
             | Some (w, r2) \<Rightarrow>
                 if r2 = [] then valid_week y w 1
                 else if (hd r2 = CHR ''-'') \<noteq> sep then False
                 else (case digits_val 1 (if sep then tl r2 else r2) of
                         Some (d, []) \<Rightarrow> valid_week y w d | _ \<Rightarrow> False))
          else (case digits_val 2 r1 of None \<Rightarrow> False
             | Some (m, r2) \<Rightarrow>
                 if (r2 \<noteq> [] \<and> hd r2 = CHR ''-'') \<noteq> sep then False
                 else (case digits_val 2 (if sep then tl r2 else r2) of
                         Some (d, []) \<Rightarrow> valid_date y m d | _ \<Rightarrow> False))))"

text \<open>\<open>HH[:?MM[:?SS[{.,}f+]]]\<close>\<close>

definition hms :: "string \<Rightarrow> (nat \<times> nat \<times> nat) option" where
  "hms s = (case digits_val 2 s of None \<Rightarrow> None
     | Some (h, []) \<Rightarrow> Some (h, 0, 0)
     | Some (h, r) \<Rightarrow>
         (let sep = (hd r = CHR '':'') in
          case digits_val 2 (if sep then tl r else r) of None \<Rightarrow> None
          | Some (m, []) \<Rightarrow> Some (h, m, 0)
          | Some (m, r1) \<Rightarrow>
              if sep \<and> hd r1 \<noteq> CHR '':'' then None
              else case digits_val 2 (if sep then tl r1 else r1) of None \<Rightarrow> None
                | Some (sc, []) \<Rightarrow> Some (h, m, sc)
                | Some (sc, r2) \<Rightarrow>
                    if (hd r2 = CHR ''.'' \<or> hd r2 = CHR '','') \<and> tl r2 \<noteq> [] \<and> list_all digit_char (tl r2)
                    then Some (h, m, sc) else None))"

text \<open>The result says whether the instant carries an offset.\<close>

definition is_tz :: "char \<Rightarrow> bool" where
  "is_tz c = (c = CHR ''+'' \<or> c = CHR ''-'' \<or> c = CHR ''Z'')"

definition parse_time :: "string \<Rightarrow> bool option" where
  "parse_time s =
     (let t = takeWhile (\<lambda>c. \<not> is_tz c) s; z = dropWhile (\<lambda>c. \<not> is_tz c) s in
      case hms t of None \<Rightarrow> None
      | Some (h, m, sc) \<Rightarrow>
          if 23 < h \<or> 59 < m \<or> 59 < sc then None
          else (case z of [] \<Rightarrow> Some False
             | c # off \<Rightarrow>
                 if c = CHR ''Z'' then (if off = [] then Some True else None)
                 else if length off \<in> {0, 1, 3} then None
                 else (case hms off of None \<Rightarrow> None
                    | Some (oh, om, os) \<Rightarrow>
                        if oh * 3600 + om * 60 + os < 86400 then Some True else None)))"

definition week_separator :: "string \<Rightarrow> nat" where
  "week_separator s = (let idx = 7 + length (takeWhile digit_char (drop 7 s)) in
     if idx < 9 then idx else if even idx then 7 else 8)"

definition date_separator :: "string \<Rightarrow> nat option" where
  "date_separator s =
     (if length s = 7 then Some 7
      else if s ! 4 = CHR ''-'' then
        (if s ! 5 = CHR ''W'' then
           (if 8 < length s \<and> s ! 8 = CHR ''-'' then
              (if length s = 9 then None
               else if 10 < length s \<and> digit_char (s ! 10) then Some 8 else Some 10)
            else Some 8)
         else Some 10)
      else if s ! 4 = CHR ''W'' then Some (week_separator s) else Some 8)"

definition fromisoformat :: "string \<Rightarrow> bool option" where
  "fromisoformat s =
     (if length s < 7 then None
      else case date_separator s of None \<Rightarrow> None
        | Some k \<Rightarrow>
            if \<not> parse_date (take k s) then None
            else if drop (Suc k) s = [] then Some False
            else parse_time (drop (Suc k) s))"

subsection \<open>The clock: an aware UTC instant and its \<open>isoformat\<close>\<close>

record utc_instant =
  u_year :: nat
  u_month :: nat
  u_day :: nat
  u_hour :: nat
  u_minute :: nat
  u_second :: nat
  u_micro :: nat

definition valid_instant :: "utc_instant \<Rightarrow> bool" where
  "valid_instant t = (valid_date (u_year t) (u_month t) (u_day t) \<and> u_hour t < 24 \<and>
     u_minute t < 60 \<and> u_second t < 60 \<and> u_micro t < 1000000)"

definition two :: "nat \<Rightarrow> string" where
  "two n = [dig (n div 10 mod 10), dig (n mod 10)]"

definition isoformat :: "utc_instant \<Rightarrow> string" where
  "isoformat t = two (u_year t div 100) @ two (u_year t mod 100) @ ''-'' @ two (u_month t) @ ''-'' @
     two (u_day t) @ ''T'' @ two (u_hour t) @ '':'' @ two (u_minute t) @ '':'' @ two (u_second t) @
     (if u_micro t = 0 then [] else ''.'' @ two (u_micro t div 10000) @
        two (u_micro t div 100 mod 100) @ two (u_micro t mod 100)) @ ''+00:00''"

subsection \<open>The validator and the collector\<close>

definition output_hash_match :: "string \<Rightarrow> bool" where
  "output_hash_match s = (startswith s ''sha256:'' \<and> is_hex64 (take 64 (drop 7 s)) \<and>
     (drop 71 s = [] \<or> drop 71 s = [CHR 0x0A]))"

definition REQUIRED_FIELDS :: "string list" where
  "REQUIRED_FIELDS = [''test_file'', ''test_name'', ''output_hash'', ''collected_at'']"

fun nonblank_str :: "json \<Rightarrow> bool" where
  "nonblank_str (JStr s) = (strip s \<noteq> [])"
| "nonblank_str _ = False"

fun str_of :: "json \<Rightarrow> string" where
  "str_of (JStr s) = s"
| "str_of _ = []"

definition validate_evidence_record :: "json \<Rightarrow> bool" where
  "validate_evidence_record record =
     (case record of
        JObj d \<Rightarrow>
          if \<not> list_all (\<lambda>f. nonblank_str (dget d f)) REQUIRED_FIELDS then False
          else if \<not> output_hash_match (str_of (dget d ''output_hash'')) then False
          else (case fromisoformat (str_of (dget d ''collected_at'')) of
                  None \<Rightarrow> False | Some aware \<Rightarrow> aware)
      | _ \<Rightarrow> False)"

definition collect :: "string \<Rightarrow> string \<Rightarrow> string \<Rightarrow> utc_instant \<Rightarrow> dict" where
  "collect test_file test_name output now =
     [(''test_file'', JStr test_file), (''test_name'', JStr test_name),
      (''output_hash'', JStr (''sha256:'' @ sha256_hex output)),
      (''collected_at'', JStr (isoformat now))]"

subsection \<open>Lemmas\<close>

lemma digit_char_dig [simp]: "n < 10 \<Longrightarrow> digit_char (dig n)"
  by (simp add: digit_char_def dig_def)

lemma code_dig [simp]: "n < 10 \<Longrightarrow> code (dig n) = 48 + n"
  by (simp add: dig_def)

lemma dig_neq [simp]:
  "n < 10 \<Longrightarrow> dig n \<noteq> CHR ''-''" "n < 10 \<Longrightarrow> dig n \<noteq> CHR ''W''" "n < 10 \<Longrightarrow> dig n \<noteq> CHR ''+''"
  "n < 10 \<Longrightarrow> dig n \<noteq> CHR ''Z''" "n < 10 \<Longrightarrow> dig n \<noteq> CHR '':''"
  using code_dig [of n] by (auto simp: code_def simp del: code_dig)

lemma digits_val_Suc_two:
  "k < 100 \<Longrightarrow> digits_val (Suc (Suc n)) (two k @ r) =
     map_option (\<lambda>(v, r'). (k * 10 ^ n + v, r')) (digits_val n r)"
proof -
  assume "k < 100"
  then have k: "k div 10 * 10 + k mod 10 = k" "k div 10 < 10" "k div 10 mod 10 = k div 10" by auto
  have "(k div 10) * (10 * 10 ^ n) + ((k mod 10) * 10 ^ n + v) = k * 10 ^ n + v" for v :: nat
  proof -
    have "(k div 10) * (10 * 10 ^ n) + (k mod 10) * 10 ^ n = (k div 10 * 10 + k mod 10) * 10 ^ n"
      by (simp only: distrib_right mult.assoc)
    with k show ?thesis by simp
  qed
  with k show ?thesis by (cases "digits_val n r") (auto simp: two_def)
qed

lemma digits_val_two: "n < 100 \<Longrightarrow> digits_val 2 (two n @ r) = Some (n, r)"
  by (simp add: numeral_2_eq_2 digits_val_Suc_two)

lemma digits_val_four:
  assumes "y < 10000"
  shows "digits_val 4 (two (y div 100) @ two (y mod 100) @ r) = Some (y, r)"
proof -
  have "digits_val (Suc (Suc 2)) (two (y div 100) @ two (y mod 100) @ r) = Some (y, r)"
    using assms by (subst digits_val_Suc_two) (auto simp: digits_val_two)
  moreover have "(4 :: nat) = Suc (Suc 2)" by simp
  ultimately show ?thesis by (simp only:)
qed

lemma length_two [simp]: "length (two n) = 2"
  by (simp add: two_def)

lemma two_not_Nil [simp]: "two n \<noteq> []"
  by (simp add: two_def)

lemma two_no_tz:
  "takeWhile (\<lambda>c. \<not> is_tz c) (two n @ s) = two n @ takeWhile (\<lambda>c. \<not> is_tz c) s"
  "dropWhile (\<lambda>c. \<not> is_tz c) (two n @ s) = dropWhile (\<lambda>c. \<not> is_tz c) s"
  by (simp_all add: two_def is_tz_def)

lemma is_tz_literals: "is_tz CHR ''+''" "\<not> is_tz CHR '':''" "\<not> is_tz CHR ''.''"
  by (simp_all add: is_tz_def)

lemma hms_two:
  assumes "h < 100" "m < 100" "s < 100" "list_all digit_char f" "f \<noteq> []"
  shows "hms (two h @ '':'' @ two m @ '':'' @ two s) = Some (h, m, s)"
    and "hms (two h @ '':'' @ two m @ '':'' @ two s @ ''.'' @ f) = Some (h, m, s)"
    and "hms (two h @ '':'' @ two m) = Some (h, m, 0)"
  using assms digits_val_two [of h "'':'' @ two m @ '':'' @ two s"]
    digits_val_two [of h "'':'' @ two m @ '':'' @ two s @ ''.'' @ f"] digits_val_two [of h "'':'' @ two m"]
    digits_val_two [of m "'':'' @ two s"] digits_val_two [of m "'':'' @ two s @ ''.'' @ f"]
    digits_val_two [of m "[]"] digits_val_two [of s "[]"] digits_val_two [of s "''.'' @ f"]
  by (simp_all add: hms_def)

lemma two_digits: "list_all digit_char (two n)"
  by (simp add: two_def)

lemma parse_time_isoformat:
  assumes "h < 24" "m < 60" "s < 60"
  shows "parse_time (two h @ '':'' @ two m @ '':'' @ two s @ ''+00:00'') = Some True"
    and "parse_time (two h @ '':'' @ two m @ '':'' @ two s @ ''.'' @ two a @ two b @ two c @ ''+00:00'')
      = Some True"
proof -
  have z: "hms ''00:00'' = Some (0, 0, 0)"
    by code_simp
  show "parse_time (two h @ '':'' @ two m @ '':'' @ two s @ ''+00:00'') = Some True"
    using assms hms_two(1) [of h m s "two 0"] z
    by (simp add: parse_time_def Let_def two_digits two_no_tz is_tz_literals)
  show "parse_time (two h @ '':'' @ two m @ '':'' @ two s @ ''.'' @ two a @ two b @ two c @ ''+00:00'')
      = Some True"
    using assms hms_two(2) [of h m s "two a @ two b @ two c"] z
    by (simp add: parse_time_def Let_def two_digits two_no_tz is_tz_literals)
qed

lemma parse_date_isoformat:
  assumes "valid_date y m d"
  shows "parse_date (two (y div 100) @ two (y mod 100) @ ''-'' @ two m @ ''-'' @ two d)"
proof -
  have b: "y < 10000" "m < 100" "d < 100"
    using assms by (auto simp: valid_date_def days_in_month_def split: if_splits)
  have W: "hd (two m @ x) \<noteq> CHR ''W''" for x by (simp add: two_def)
  show ?thesis
    using assms b W [of "''-'' @ two d"] digits_val_four [OF b(1), of "''-'' @ two m @ ''-'' @ two d"]
      digits_val_two [OF b(2), of "''-'' @ two d"] digits_val_two [OF b(3), of "[]"]
    by (simp add: parse_date_def Let_def)
qed

lemma fromisoformat_split:
  assumes "valid_date y m d"
  shows "fromisoformat ((two (y div 100) @ two (y mod 100) @ ''-'' @ two m @ ''-'' @ two d) @ ''T'' @ t)
    = (if t = [] then Some False else parse_time t)"
proof -
  let ?D = "two (y div 100) @ two (y mod 100) @ ''-'' @ two m @ ''-'' @ two d"
  have "(?D @ ''T'' @ t) ! 4 = CHR ''-''" "(?D @ ''T'' @ t) ! 5 \<noteq> CHR ''W''"
    by (simp_all add: two_def)
  then have "date_separator (?D @ ''T'' @ t) = Some 10"
    by (simp add: date_separator_def)
  moreover have "take 10 (?D @ ''T'' @ t) = ?D" "drop (Suc 10) (?D @ ''T'' @ t) = t"
    by (simp_all add: two_def)
  moreover have "\<not> length (?D @ ''T'' @ t) < 7" by simp
  ultimately show ?thesis
    using parse_date_isoformat [OF assms] by (simp only: fromisoformat_def option.case if_False not_True_eq_False)
qed

lemma fromisoformat_isoformat:
  assumes "valid_instant t"
  shows "fromisoformat (isoformat t) = Some True"
  using assms fromisoformat_split [of "u_year t" "u_month t" "u_day t"] parse_time_isoformat
  by (auto simp: isoformat_def valid_instant_def)

lemma output_hash_match_digest: "is_hex64 h \<Longrightarrow> output_hash_match (''sha256:'' @ h)"
  by (simp add: output_hash_match_def startswith_def is_hex64_def)

lemma output_hash_match_newline: "is_hex64 h \<Longrightarrow> output_hash_match (''sha256:'' @ h @ [CHR 0x0A])"
  by (simp add: output_hash_match_def startswith_def is_hex64_def)

lemma output_hash_match_parts:
  assumes "output_hash_match s"
  shows "s \<in> {''sha256:'' @ take 64 (drop 7 s), ''sha256:'' @ take 64 (drop 7 s) @ [CHR 0x0A]}"
    and "is_hex64 (take 64 (drop 7 s))"
proof -
  have "s = take 7 s @ take 64 (drop 7 s) @ drop 71 s"
    using append_take_drop_id [of 7 s] append_take_drop_id [of 64 "drop 7 s"] by simp
  moreover have "take 7 s = ''sha256:''"
    using assms by (simp add: output_hash_match_def startswith_def numeral_eq_Suc)
  ultimately show "s \<in> {''sha256:'' @ take 64 (drop 7 s), ''sha256:'' @ take 64 (drop 7 s) @ [CHR 0x0A]}"
    using assms by (metis append_Nil2 insertI1 insertI2 output_hash_match_def)
  show "is_hex64 (take 64 (drop 7 s))"
    using assms by (simp add: output_hash_match_def)
qed

subsection \<open>Properties\<close>

lemma collect_record_ok:
  assumes "strip test_file \<noteq> []" "strip test_name \<noteq> []" "valid_instant now"
  shows "list_all (\<lambda>f. nonblank_str (dget (collect test_file test_name output now) f)) REQUIRED_FIELDS"
    and "output_hash_match (''sha256:'' @ sha256_hex output)"
    and "fromisoformat (isoformat now) = Some True"
proof -
  have "strip (''sha256:'' @ sha256_hex output) \<noteq> []" "strip (isoformat now) \<noteq> []"
    by (simp_all add: strip_def is_space_def isoformat_def two_def code_def dropWhile_append)
  then show "list_all (\<lambda>f. nonblank_str (dget (collect test_file test_name output now) f)) REQUIRED_FIELDS"
    using assms by (simp add: collect_def REQUIRED_FIELDS_def)
  show "output_hash_match (''sha256:'' @ sha256_hex output)"
    by (rule output_hash_match_digest) simp
  show "fromisoformat (isoformat now) = Some True"
    using assms(3) by (rule fromisoformat_isoformat)
qed

text \<open>
  Round trip: what the collector produces, the validator accepts. For any non-blank test
  identifiers, any output and any instant of the clock, \<open>collect\<close> returns a record that
  \<open>validate_evidence_record\<close> accepts.
\<close>

lemma collect_validates:
  assumes "strip test_file \<noteq> []" "strip test_name \<noteq> []" "valid_instant now"
  shows "validate_evidence_record (JObj (collect test_file test_name output now))"
  using collect_record_ok [OF assms]
  by (simp add: validate_evidence_record_def collect_def)

text \<open>
  What acceptance means: an accepted record is a dictionary whose four fields are non-blank
  strings, whose \<open>output_hash\<close> is the prefix \<open>sha256:\<close>, 64 lower-case hexadecimal digits and
  at most one final newline, and whose \<open>collected_at\<close> parses with an offset.
\<close>

theorem validate_evidence_record_iff:
  "validate_evidence_record record \<longleftrightarrow>
     (\<exists>d h t. record = JObj d \<and> list_all (\<lambda>f. nonblank_str (dget d f)) REQUIRED_FIELDS \<and>
        is_hex64 h \<and> dget d ''output_hash'' \<in> {JStr (''sha256:'' @ h), JStr (''sha256:'' @ h @ [CHR 0x0A])} \<and>
        dget d ''collected_at'' = JStr t \<and> fromisoformat t = Some True)"
proof
  assume v: "validate_evidence_record record"
  then obtain d where d: "record = JObj d" by (cases "record") (auto simp: validate_evidence_record_def)
  from v d have f: "list_all (\<lambda>f. nonblank_str (dget d f)) REQUIRED_FIELDS"
    and oh: "output_hash_match (str_of (dget d ''output_hash''))"
    and ca: "fromisoformat (str_of (dget d ''collected_at'')) = Some True"
    by (auto simp: validate_evidence_record_def split: if_splits option.splits)
  from f obtain s t where s: "dget d ''output_hash'' = JStr s" and t: "dget d ''collected_at'' = JStr t"
    by (auto simp: REQUIRED_FIELDS_def elim!: nonblank_str.elims(2))
  from oh s have "s \<in> {''sha256:'' @ take 64 (drop 7 s), ''sha256:'' @ take 64 (drop 7 s) @ [CHR 0x0A]}"
    and "is_hex64 (take 64 (drop 7 s))"
    using output_hash_match_parts by simp_all
  with d f s t ca show "\<exists>d h t. record = JObj d \<and> list_all (\<lambda>f. nonblank_str (dget d f)) REQUIRED_FIELDS \<and>
        is_hex64 h \<and> dget d ''output_hash'' \<in> {JStr (''sha256:'' @ h), JStr (''sha256:'' @ h @ [CHR 0x0A])} \<and>
        dget d ''collected_at'' = JStr t \<and> fromisoformat t = Some True"
    by (intro exI [of _ d] exI [of _ "take 64 (drop 7 s)"] exI [of _ t]) auto
next
  assume "\<exists>d h t. record = JObj d \<and> list_all (\<lambda>f. nonblank_str (dget d f)) REQUIRED_FIELDS \<and>
        is_hex64 h \<and> dget d ''output_hash'' \<in> {JStr (''sha256:'' @ h), JStr (''sha256:'' @ h @ [CHR 0x0A])} \<and>
        dget d ''collected_at'' = JStr t \<and> fromisoformat t = Some True"
  then show "validate_evidence_record record"
    using output_hash_match_digest output_hash_match_newline
    by (auto simp: validate_evidence_record_def)
qed

end
