(* ===== verification/Json_Codec.thy ===== *)
theory Json_Codec
  imports Prelude
begin

section \<open>\<open>json.dumps\<close> and \<open>json.loads\<close>\<close>

text \<open>
  The serialisation the tools hash, store and read back: \<open>json.dumps\<close> with compact
  separators, with and without \<open>ensure_ascii\<close>, \<open>sort_keys=True\<close> as a recursive
  normalisation of the value (\<open>sort_json\<close>), and \<open>json.loads\<close>. The parser is recursive
  descent with a fuel of the length of its input; \<open>loads_dumps\<close> shows that this is enough for
  every serialised value. A float literal keeps its text, so a document that spells a float
  otherwise than \<open>repr\<close> does, or uses the literals NaN and Infinity, is outside the model.
  The round trip makes the serialisation injective, which is what the
  hash chain, the resume hash and the durable history rest on.
\<close>

subsection \<open>Serialisation\<close>

definition hex4 :: "nat \<Rightarrow> string" where
  "hex4 n = [CHR ''0'', CHR ''0'', hex_digit (n div 16), hex_digit (n mod 16)]"

definition esc_char :: "bool \<Rightarrow> char \<Rightarrow> string" where
  "esc_char ascii c = (let n = code c in
     if n = 34 \<or> n = 92 then [CHR 0x5C, c]
     else if n = 8 then [CHR 0x5C, CHR ''b'']
     else if n = 9 then [CHR 0x5C, CHR ''t'']
     else if n = 10 then [CHR 0x5C, CHR ''n'']
     else if n = 12 then [CHR 0x5C, CHR ''f'']
     else if n = 13 then [CHR 0x5C, CHR ''r'']
     else if n < 32 \<or> (ascii \<and> 127 \<le> n) then [CHR 0x5C, CHR ''u''] @ hex4 n
     else [c])"

definition dumps_str :: "bool \<Rightarrow> string \<Rightarrow> string" where
  "dumps_str ascii s = CHR 0x22 # concat (map (esc_char ascii) s) @ [CHR 0x22]"

fun dumps :: "bool \<Rightarrow> json \<Rightarrow> string" where
  "dumps a JNull = ''null''"
| "dumps a (JBool b) = (if b then ''true'' else ''false'')"
| "dumps a (JInt i) = int_str i"
| "dumps a (JFloat r) = r"
| "dumps a (JStr s) = dumps_str a s"
| "dumps a (JList xs) = ''['' @ join '','' (map (dumps a) xs) @ '']''"
| "dumps a (JObj d) =
     ''{'' @ join '','' (map (\<lambda>(k, v). dumps_str a k @ '':'' @ dumps a v) d) @ ''}''"

text \<open>The default separators, a comma and a colon each with a space.\<close>

fun dumps_spaced :: "bool \<Rightarrow> json \<Rightarrow> string" where
  "dumps_spaced a (JList xs) = ''['' @ join '', '' (map (dumps_spaced a) xs) @ '']''"
| "dumps_spaced a (JObj d) =
     ''{'' @ join '', '' (map (\<lambda>(k, v). dumps_str a k @ '': '' @ dumps_spaced a v) d) @ ''}''"
| "dumps_spaced a v = dumps a v"

fun sort_json :: "json \<Rightarrow> json" where
  "sort_json (JList xs) = JList (map sort_json xs)"
| "sort_json (JObj d) = JObj (sort_key fst (map (\<lambda>(k, v). (k, sort_json v)) d))"
| "sort_json v = v"

definition dumps_sorted :: "bool \<Rightarrow> json \<Rightarrow> string" where
  "dumps_sorted a v = dumps a (sort_json v)"

subsection \<open>Parsing\<close>

definition is_digit :: "char \<Rightarrow> bool" where
  "is_digit c = (48 \<le> code c \<and> code c \<le> 57)"

definition is_ws :: "char \<Rightarrow> bool" where
  "is_ws c = (code c \<in> {9, 10, 13, 32})"

definition dec_value :: "string \<Rightarrow> nat" where
  "dec_value s = foldl (\<lambda>a c. 10 * a + (code c - 48)) 0 s"

definition hex_val :: "char \<Rightarrow> nat option" where
  "hex_val c = (let n = code c in
     if 48 \<le> n \<and> n \<le> 57 then Some (n - 48)
     else if 97 \<le> n \<and> n \<le> 102 then Some (n - 87)
     else if 65 \<le> n \<and> n \<le> 70 then Some (n - 55) else None)"

definition simple_escape :: "char \<Rightarrow> char option" where
  "simple_escape c = (if code c \<in> {34, 92, 47} then Some c
     else if c = CHR ''b'' then Some (char_of (8::nat)) else if c = CHR ''t'' then Some (char_of (9::nat))
     else if c = CHR ''n'' then Some (char_of (10::nat)) else if c = CHR ''f'' then Some (char_of (12::nat))
     else if c = CHR ''r'' then Some (char_of (13::nat)) else None)"

text \<open>An escape above \<open>00FF\<close> names a code point outside the modelled range.\<close>

definition u_escape :: "char \<Rightarrow> char \<Rightarrow> char \<Rightarrow> char \<Rightarrow> char option" where
  "u_escape a b c d = (case (hex_val a, hex_val b, hex_val c, hex_val d) of
     (Some 0, Some 0, Some h, Some l) \<Rightarrow> Some (char_of (16 * h + l)) | _ \<Rightarrow> None)"

fun parse_str :: "string \<Rightarrow> (string \<times> string) option" where
  "parse_str [] = None"
| "parse_str (c # cs) =
     (if code c = 34 then Some ([], cs)
      else if code c = 92 then
        (case cs of
           e # rest \<Rightarrow>
             (if e = CHR ''u'' then
                (case rest of
                   h1 # h2 # h3 # h4 # rest' \<Rightarrow>
                     (case u_escape h1 h2 h3 h4 of
                        Some x \<Rightarrow> map_option (apfst (Cons x)) (parse_str rest')
                      | None \<Rightarrow> None)
                 | _ \<Rightarrow> None)
              else (case simple_escape e of
                      Some x \<Rightarrow> map_option (apfst (Cons x)) (parse_str rest)
                    | None \<Rightarrow> None))
         | [] \<Rightarrow> None)
      else if code c < 32 then None
      else map_option (apfst (Cons c)) (parse_str cs))"

fun num_frac :: "string \<Rightarrow> string \<times> string" where
  "num_frac (c # r) = (let ds = takeWhile is_digit r in
     if c = CHR ''.'' \<and> ds \<noteq> [] then (c # ds, dropWhile is_digit r) else ([], c # r))"
| "num_frac [] = ([], [])"

definition exp_sign :: "string \<Rightarrow> string \<times> string" where
  "exp_sign r = (case r of c # r' \<Rightarrow> if c = CHR ''+'' \<or> c = CHR ''-'' then ([c], r') else ([], r)
     | [] \<Rightarrow> ([], []))"

fun num_exp :: "string \<Rightarrow> string \<times> string" where
  "num_exp (c # r) = (let (sg, r') = exp_sign r; ds = takeWhile is_digit r' in
     if (c = CHR ''e'' \<or> c = CHR ''E'') \<and> ds \<noteq> [] then (c # sg @ ds, dropWhile is_digit r')
     else ([], c # r))"
| "num_exp [] = ([], [])"

definition num_int :: "string \<Rightarrow> string \<times> string" where
  "num_int s = (case s of [] \<Rightarrow> ([], [])
     | c # r \<Rightarrow> if c = CHR ''0'' then ([c], r)
         else (takeWhile is_digit s, dropWhile is_digit s))"

definition parse_unsigned :: "string \<Rightarrow> (string \<times> string \<times> string) option" where
  "parse_unsigned s = (let (ds, r) = num_int s; (fr, r') = num_frac r; (ex, r'') = num_exp r'
     in if ds = [] then None else Some (ds, fr @ ex, r''))"

definition parse_number :: "string \<Rightarrow> (json \<times> string) option" where
  "parse_number s = (let neg = (s \<noteq> [] \<and> hd s = CHR ''-''); u = (if neg then tl s else s)
     in case parse_unsigned u of None \<Rightarrow> None
        | Some (ds, [], r) \<Rightarrow>
            Some (JInt (if neg then - int (dec_value ds) else int (dec_value ds)), r)
        | Some (ds, fe, r) \<Rightarrow> Some (JFloat ((if neg then ''-'' else []) @ ds @ fe), r))"

definition skip_ws :: "string \<Rightarrow> string" where
  "skip_ws s = dropWhile is_ws s"

definition dict_of_pairs :: "(string \<times> json) list \<Rightarrow> dict" where
  "dict_of_pairs ps = foldl (\<lambda>d (k, v). dset d k v) [] ps"

fun parse_value :: "nat \<Rightarrow> string \<Rightarrow> (json \<times> string) option"
and parse_elems :: "nat \<Rightarrow> string \<Rightarrow> (json list \<times> string) option"
and parse_members :: "nat \<Rightarrow> string \<Rightarrow> ((string \<times> json) list \<times> string) option" where
  "parse_value 0 s = None"
| "parse_value (Suc n) s =
     (let t = skip_ws s in
      if t = [] then None
      else if hd t = CHR 0x22 then map_option (apfst JStr) (parse_str (tl t))
      else if hd t = CHR ''['' then
        (let r = skip_ws (tl t) in
         if r \<noteq> [] \<and> hd r = CHR '']'' then Some (JList [], tl r)
         else map_option (apfst JList) (parse_elems n r))
      else if hd t = CHR ''{'' then
        (let r = skip_ws (tl t) in
         if r \<noteq> [] \<and> hd r = CHR ''}'' then Some (JObj [], tl r)
         else map_option (apfst (JObj \<circ> dict_of_pairs)) (parse_members n r))
      else if startswith t ''null'' then Some (JNull, drop 4 t)
      else if startswith t ''true'' then Some (JBool True, drop 4 t)
      else if startswith t ''false'' then Some (JBool False, drop 5 t)
      else parse_number t)"
| "parse_elems 0 s = None"
| "parse_elems (Suc n) s =
     (case parse_value n s of None \<Rightarrow> None
      | Some (v, r) \<Rightarrow>
          (let t = skip_ws r in
           if t = [] then None
           else if hd t = CHR '','' then map_option (apfst (Cons v)) (parse_elems n (tl t))
           else if hd t = CHR '']'' then Some ([v], tl t)
           else None))"
| "parse_members 0 s = None"
| "parse_members (Suc n) s =
     (let t = skip_ws s in
      if t = [] \<or> hd t \<noteq> CHR 0x22 then None
      else case parse_str (tl t) of None \<Rightarrow> None
        | Some (k, r) \<Rightarrow>
            (let u = skip_ws r in
             if u = [] \<or> hd u \<noteq> CHR '':'' then None
             else case parse_value n (tl u) of None \<Rightarrow> None
               | Some (v, r') \<Rightarrow>
                   (let w = skip_ws r' in
                    if w = [] then None
                    else if hd w = CHR '','' then
                      map_option (apfst (Cons (k, v))) (parse_members n (tl w))
                    else if hd w = CHR ''}'' then Some ([(k, v)], tl w)
                    else None)))"

definition loads :: "string \<Rightarrow> json option" where
  "loads s = (case parse_value (length s) s of
     Some (v, r) \<Rightarrow> if skip_ws r = [] then Some v else None | None \<Rightarrow> None)"

subsection \<open>The round trip\<close>

lemma hex_val_digit: "n < 16 \<Longrightarrow> hex_val (hex_digit n) = Some n"
  by (auto simp: hex_val_def hex_digit_def)

lemma u_escape_hex4:
  assumes "n < 256"
  shows "u_escape CHR ''0'' CHR ''0'' (hex_digit (n div 16)) (hex_digit (n mod 16))
    = Some (char_of n)"
proof -
  have "hex_val CHR ''0'' = Some 0" by (simp add: hex_val_def code_literals)
  moreover have "n div 16 < 16" using assms by simp
  ultimately show ?thesis by (simp add: u_escape_def hex_val_digit)
qed

lemma parse_str_esc:
  "parse_str (esc_char a c @ rest) = map_option (apfst (Cons c)) (parse_str rest)"
  by (auto simp: esc_char_def Let_def code_literals char_eq_code simple_escape_def hex4_def
      u_escape_hex4 dest: code_eqD)

lemma parse_str_dumps:
  "parse_str (concat (map (esc_char a) s) @ CHR 0x22 # rest) = Some (s, rest)"
  by (induction s) (simp_all add: parse_str_esc code_literals)

lemma dec_value_append: "dec_value (s @ [c]) = 10 * dec_value s + (code c - 48)"
  by (simp add: dec_value_def)

lemma dec_value_digits: "dec_value (dec_digits n) = n"
proof (induction n rule: dec_digits.induct)
  case (1 n)
  show ?case
  proof (cases "n < 10")
    case True
    then show ?thesis by (simp add: dec_digits.simps [of n] dec_value_def)
  next
    case False
    then have "dec_value (dec_digits n) = 10 * dec_value (dec_digits (n div 10)) + n mod 10"
      by (simp add: dec_digits.simps [of n] dec_value_append)
    with False "1" show ?thesis by simp
  qed
qed

lemma dec_digits_digits: "list_all is_digit (dec_digits n)"
proof (induction n rule: dec_digits.induct)
  case (1 n)
  show ?case
  proof (cases "n < 10")
    case True
    then show ?thesis by (simp add: dec_digits.simps [of n] is_digit_def)
  next
    case False
    with "1" show ?thesis by (simp add: dec_digits.simps [of n] is_digit_def)
  qed
qed

lemma dec_digits_nonempty [simp]: "dec_digits n \<noteq> []"
  by (subst dec_digits.simps) simp

lemma hd_dec_digits: "0 < n \<Longrightarrow> hd (dec_digits n) \<noteq> CHR ''0''"
proof (induction n rule: dec_digits.induct)
  case (1 n)
  show ?case
  proof (cases "n < 10")
    case True
    with "1.prems" show ?thesis by (simp add: dec_digits.simps [of n] char_eq_code code_literals)
  next
    case False
    then have "0 < n div 10" by arith
    with False "1.IH" show ?thesis by (simp add: dec_digits.simps [of n])
  qed
qed

definition num_stop :: "string \<Rightarrow> bool" where
  "num_stop r = (r = [] \<or> \<not> is_digit (hd r) \<and> hd r \<noteq> CHR ''.'' \<and> hd r \<noteq> CHR ''e'' \<and> hd r \<noteq> CHR ''E'')"

lemma takeWhile_digits: 
  assumes "list_all is_digit ds" "r = [] \<or> \<not> is_digit (hd r)"
  shows "takeWhile is_digit (ds @ r) = ds" "dropWhile is_digit (ds @ r) = r"
  using assms by (induction ds; cases r; simp)+

lemma num_int_digits:
  assumes "num_stop r"
  shows "num_int (dec_digits n @ r) = (dec_digits n, r)"
proof (cases "n = 0")
  case True
  then show ?thesis by (simp add: dec_digits.simps [of 0] num_int_def char_eq_code code_literals)
next
  case False
  then obtain c cs where c: "dec_digits n = c # cs" "c \<noteq> CHR ''0''"
    using hd_dec_digits [of n] by (cases "dec_digits n") auto
  have "r = [] \<or> \<not> is_digit (hd r)" using assms by (auto simp: num_stop_def)
  with dec_digits_digits [of n] have "takeWhile is_digit (dec_digits n @ r) = dec_digits n"
    "dropWhile is_digit (dec_digits n @ r) = r" by (rule takeWhile_digits)+
  with c show ?thesis by (simp add: num_int_def)
qed

lemma num_frac_stop: "num_stop r \<Longrightarrow> num_frac r = ([], r)"
  by (cases r) (simp_all add: num_stop_def)

lemma num_exp_stop: "num_stop r \<Longrightarrow> num_exp r = ([], r)"
  by (cases r) (simp_all add: num_stop_def split: prod.splits)

lemma parse_unsigned_digits: "num_stop r \<Longrightarrow> parse_unsigned (dec_digits n @ r) = Some (dec_digits n, [], r)"
  by (simp add: parse_unsigned_def num_int_digits num_frac_stop num_exp_stop)

lemma hd_dec_digits_digit: "is_digit (hd (dec_digits n))"
  using dec_digits_digits [of n] by (cases "dec_digits n") auto

lemma parse_number_int: "num_stop r \<Longrightarrow> parse_number (int_str i @ r) = Some (JInt i, r)"
proof (cases "i < 0")
  case True
  assume "num_stop r"
  with True show ?thesis
    by (simp add: parse_number_def int_str_def parse_unsigned_digits dec_value_digits)
next
  case False
  assume "num_stop r"
  have "hd (dec_digits (nat i) @ r) \<noteq> CHR ''-''"
    using hd_dec_digits_digit [of "nat i"] by (auto simp: is_digit_def code_literals)
  with False \<open>num_stop r\<close> show ?thesis
    by (simp add: parse_number_def int_str_def parse_unsigned_digits dec_value_digits)
qed
lemma takeWhile_stop:
  assumes "\<not> p x"
  shows "takeWhile p (s @ x # r) = takeWhile p s" "dropWhile p (s @ x # r) = dropWhile p s @ x # r"
  using assms by (induction s) auto

lemma num_int_append:
  assumes "num_int s = (ds, t)" "num_stop r" "s \<noteq> []"
  shows "num_int (s @ r) = (ds, t @ r)"
  using assms by (cases s; cases r) (auto simp: num_int_def num_stop_def takeWhile_stop split: if_splits)

lemma num_frac_append:
  assumes "num_frac s = (ds, t)" "num_stop r"
  shows "num_frac (s @ r) = (ds, t @ r)"
  using assms by (cases s; cases r) (auto simp: num_stop_def Let_def takeWhile_stop split: if_splits)

lemma num_exp_append:
  assumes "num_exp s = (ds, [])" "num_stop r"
  shows "num_exp (s @ r) = (ds, r)"
  using assms
  by (cases s; cases r) 
    (auto simp: num_stop_def Let_def takeWhile_stop exp_sign_def split: if_splits prod.splits list.splits)

lemma parse_unsigned_append:
  assumes "parse_unsigned s = Some (ds, fe, [])" "num_stop r"
  shows "parse_unsigned (s @ r) = Some (ds, fe, r)"
proof -
  obtain r1 where a: "num_int s = (ds, r1)" and ds: "ds \<noteq> []"
    and b: "\<exists>fr r2 ex. num_frac r1 = (fr, r2) \<and> num_exp r2 = (ex, []) \<and> fe = fr @ ex"
    using assms(1) by (auto simp: parse_unsigned_def Let_def split: prod.splits if_splits)
  from a ds have "s \<noteq> []" by (auto simp: num_int_def)
  with a assms(2) have "num_int (s @ r) = (ds, r1 @ r)" by (intro num_int_append)
  moreover from b obtain fr r2 ex where c: "num_frac r1 = (fr, r2)" "num_exp r2 = (ex, [])" "fe = fr @ ex" by blast
  ultimately show ?thesis 
    using num_frac_append [OF c(1) assms(2)] num_exp_append [OF c(2) assms(2)] ds
    by (simp add: parse_unsigned_def)
qed

definition float_text :: "string \<Rightarrow> bool" where
  "float_text t = (parse_number t = Some (JFloat t, []))"

lemma parse_number_float:
  assumes "float_text t" "num_stop r"
  shows "parse_number (t @ r) = Some (JFloat t, r)"
proof -
  have ne: "t \<noteq> []" using assms(1) by (auto simp: float_text_def parse_number_def parse_unsigned_def num_int_def)
  define u where "u = (if hd t = CHR ''-'' then tl t else t)"
  obtain ds fe where p: "parse_unsigned u = Some (ds, fe, [])" "fe \<noteq> []"
    "t = (if hd t = CHR ''-'' then ''-'' else []) @ ds @ fe"
    using assms(1) ne 
    by (auto simp: float_text_def parse_number_def u_def Let_def split: option.splits prod.splits list.splits if_splits)
  have "parse_unsigned (u @ r) = Some (ds, fe, r)"
    using p(1) assms(2) by (rule parse_unsigned_append)
  then have q: "parse_unsigned (if hd t = CHR ''-'' then tl (t @ r) else t @ r) = Some (ds, fe, r)"
    using ne by (cases "hd t = CHR ''-''") (simp_all add: u_def)
  have "parse_number (t @ r) = Some (JFloat ((if hd t = CHR ''-'' then ''-'' else []) @ ds @ fe), r)"
    using q p(2) ne by (cases fe) (simp_all add: parse_number_def)
  with p(3) show ?thesis by simp
qed

fun wf_json :: "json \<Rightarrow> bool" where
  "wf_json (JFloat t) = float_text t"
| "wf_json (JList xs) = list_all wf_json xs"
| "wf_json (JObj d) = (distinct (map fst d) \<and> list_all (\<lambda>kv. wf_json (snd kv)) d)"
| "wf_json v = True"

fun need :: "json \<Rightarrow> nat" where
  "need (JList xs) = Suc (sum_list (map (\<lambda>x. Suc (need x)) xs))"
| "need (JObj d) = Suc (sum_list (map (\<lambda>kv. Suc (need (snd kv))) d))"
| "need v = 1"

lemma dict_of_pairs_aux:
  "distinct (map fst (acc @ ps)) \<Longrightarrow> foldl (\<lambda>d (k, v). dset d k v) acc ps = acc @ ps"
proof (induction ps arbitrary: acc)
  case Nil
  then show ?case by simp
next
  case (Cons p ps)
  obtain k v where p: "p = (k, v)" by force
  have "AList.update k v acc = acc @ [(k, v)]" if "k \<notin> set (map fst acc)" for acc :: dict
    using that by (induction acc) auto
  with Cons p show ?case by (simp add: dset_def)
qed

lemma dict_of_pairs_distinct: "distinct (map fst ps) \<Longrightarrow> dict_of_pairs ps = ps"
  using dict_of_pairs_aux [of "[]" ps] by (simp add: dict_of_pairs_def)

lemma hd_int_str: "int_str i \<noteq> [] \<and> (hd (int_str i) = CHR ''-'' \<or> is_digit (hd (int_str i)))"
  using hd_dec_digits_digit by (simp add: int_str_def)

lemma parse_unsigned_hd:
  "parse_unsigned u = Some z \<Longrightarrow> u \<noteq> [] \<and> is_digit (hd u)"
  by (cases u) (auto simp: parse_unsigned_def num_int_def Let_def is_digit_def code_literals
      split: prod.splits if_splits)

lemma hd_float: "float_text t \<Longrightarrow> t \<noteq> [] \<and> (hd t = CHR ''-'' \<or> is_digit (hd t))"
  by (auto simp: float_text_def parse_number_def Let_def split: option.splits if_splits
      dest: parse_unsigned_hd)

lemma number_hd:
  assumes "c = CHR ''-'' \<or> is_digit c"
  shows "\<not> is_ws c" "c \<noteq> CHR 0x22" "c \<noteq> CHR ''[''" "c \<noteq> CHR ''{''" "c \<noteq> CHR ''n''"
    "c \<noteq> CHR ''t''" "c \<noteq> CHR ''f''" "c \<noteq> CHR '']''"
  using assms by (auto simp: is_digit_def is_ws_def code_literals)

lemma literal_ws: "\<not> is_ws CHR 0x22" "\<not> is_ws CHR ''[''" "\<not> is_ws CHR ''{''" "\<not> is_ws CHR ''n''"
    "\<not> is_ws CHR ''t''" "\<not> is_ws CHR ''f''" "\<not> is_ws CHR '']''" "\<not> is_ws CHR ''}''" "\<not> is_ws CHR '',''"
    "\<not> is_ws CHR '':''"
  by (simp_all add: is_ws_def code_literals)

lemma skip_ws_Cons: "\<not> is_ws c \<Longrightarrow> skip_ws (c # s) = c # s"
  by (simp add: skip_ws_def)

lemma skip_ws_hd: "s = [] \<or> \<not> is_ws (hd s) \<Longrightarrow> skip_ws s = s"
  by (cases s) (simp_all add: skip_ws_def)

text \<open>Both writers are one, with white space after the separators.\<close>

fun dumps_gen :: "string \<Rightarrow> bool \<Rightarrow> json \<Rightarrow> string" where
  "dumps_gen w a (JList xs) = ''['' @ join ('','' @ w) (map (dumps_gen w a) xs) @ '']''"
| "dumps_gen w a (JObj d) =
     ''{'' @ join ('','' @ w) (map (\<lambda>(k, v). dumps_str a k @ '':'' @ w @ dumps_gen w a v) d) @ ''}''"
| "dumps_gen w a v = dumps a v"

lemma dumps_gen_eq: "dumps a v = dumps_gen [] a v" "dumps_spaced a v = dumps_gen '' '' a v"
proof -
  show "dumps a v = dumps_gen [] a v"
    by (induction v rule: json_induct) (auto cong: map_cong intro!: arg_cong [of _ _ "join '',''"])
  show "dumps_spaced a v = dumps_gen '' '' a v"
    by (induction v rule: json_induct) (auto cong: map_cong intro!: arg_cong [of _ _ "join '', ''"])
qed

lemma skip_ws_blank: "list_all is_ws w \<Longrightarrow> skip_ws (w @ s) = skip_ws s"
  by (induction w) (simp_all add: skip_ws_def)

lemma parse_value_blank: "list_all is_ws w \<Longrightarrow> parse_value n (w @ s) = parse_value n s"
  by (cases n) (simp_all add: skip_ws_blank)

lemma parse_elems_blank: "list_all is_ws w \<Longrightarrow> parse_elems n (w @ s) = parse_elems n s"
  by (cases n) (simp_all add: parse_value_blank)

lemma parse_members_blank: "list_all is_ws w \<Longrightarrow> parse_members n (w @ s) = parse_members n s"
  by (cases n) (simp_all add: skip_ws_blank)

lemma dumps_hd:
  "wf_json v \<Longrightarrow> dumps_gen w a v \<noteq> [] \<and> \<not> is_ws (hd (dumps_gen w a v)) \<and> hd (dumps_gen w a v) \<noteq> CHR '']''"
  using hd_int_str hd_float by (cases v) (auto simp: literal_ws dumps_str_def number_hd)

lemma parse_value_number:
  assumes "s \<noteq> []" "hd s = CHR ''-'' \<or> is_digit (hd s)"
  shows "parse_value (Suc n) s = parse_number s"
proof (cases s)
  case (Cons c cs)
  with assms number_hd [of c] show ?thesis
    by (simp add: skip_ws_Cons startswith_def Let_def)
qed (use assms in simp)

lemma parse_elems_dumps:
  assumes "\<And>x n r. x \<in> set xs \<Longrightarrow> need x \<le> n \<Longrightarrow> num_stop r \<Longrightarrow>
      parse_value n (dumps_gen w a x @ r) = Some (x, r)"
    and "xs \<noteq> []" "sum_list (map (\<lambda>x. Suc (need x)) xs) \<le> n" and w: "list_all is_ws w"
  shows "parse_elems n (join ('','' @ w) (map (dumps_gen w a) xs) @ CHR '']'' # r) = Some (xs, r)"
  using assms
proof (induction xs arbitrary: n)
  case Nil
  then show ?case by simp
next
  case (Cons x xs)
  note blank = parse_elems_blank [OF w]
  from Cons.prems(3) obtain m where m: "n = Suc m" "need x + sum_list (map (\<lambda>x. Suc (need x)) xs) \<le> m"
    by (cases n) auto
  show ?case
  proof (cases xs)
    case Nil
    have "parse_value m (dumps_gen w a x @ CHR '']'' # r) = Some (x, CHR '']'' # r)"
      using m Nil by (intro Cons.prems(1)) (auto simp: num_stop_def is_digit_def code_literals)
    with Nil m show ?thesis by (simp add: skip_ws_Cons literal_ws)
  next
    case (Cons y ys)
    have "parse_value m (dumps_gen w a x @ CHR '','' # t) = Some (x, CHR '','' # t)" for t
      using m by (intro Cons.prems(1)) (auto simp: num_stop_def is_digit_def code_literals)
    moreover have "parse_elems m (join ('','' @ w) (map (dumps_gen w a) xs) @ CHR '']'' # r) = Some (xs, r)"
      using m Cons w by (intro Cons.IH Cons.prems(1)) auto
    ultimately show ?thesis using m Cons by (simp add: skip_ws_Cons literal_ws blank)
  qed
qed

lemma parse_members_dumps:
  assumes "\<And>k x n r. (k, x) \<in> set d \<Longrightarrow> need x \<le> n \<Longrightarrow> num_stop r \<Longrightarrow>
      parse_value n (dumps_gen w a x @ r) = Some (x, r)"
    and "d \<noteq> []" "sum_list (map (\<lambda>kv. Suc (need (snd kv))) d) \<le> n" and w: "list_all is_ws w"
  shows "parse_members n (join ('','' @ w) (map (\<lambda>(k, v). dumps_str a k @ '':'' @ w @ dumps_gen w a v) d) @ CHR ''}'' # r) = Some (d, r)"
  using assms
proof (induction d arbitrary: n)
  case Nil
  then show ?case by simp
next
  case (Cons p d)
  obtain k x where p: "p = (k, x)" by force
  note blank = parse_members_blank [OF w] parse_value_blank [OF w]
  from Cons.prems(3) p obtain m where m: "n = Suc m" "need x + sum_list (map (\<lambda>kv. Suc (need (snd kv))) d) \<le> m"
    by (cases n) auto
  show ?case
  proof (cases d)
    case Nil
    have "parse_value m (dumps_gen w a x @ CHR ''}'' # r) = Some (x, CHR ''}'' # r)"
      using m Nil p by (intro Cons.prems(1)) (auto simp: num_stop_def is_digit_def code_literals)
    with Nil m p show ?thesis
      by (simp add: skip_ws_Cons literal_ws dumps_str_def parse_str_dumps Let_def blank)
  next
    case (Cons q ds)
    have "parse_value m (dumps_gen w a x @ CHR '','' # t) = Some (x, CHR '','' # t)" for t
      using m p by (intro Cons.prems(1)) (auto simp: num_stop_def is_digit_def code_literals)
    moreover have "parse_members m (join ('','' @ w) (map (\<lambda>(k, v). dumps_str a k @ '':'' @ w @ dumps_gen w a v) d) @ CHR ''}'' # r) = Some (d, r)"
      using m Cons w by (intro Cons.IH Cons.prems(1)) auto
    ultimately show ?thesis using m Cons p
      by (simp add: skip_ws_Cons literal_ws dumps_str_def parse_str_dumps Let_def blank)
  qed
qed

lemma parse_value_dumps:
  assumes w: "list_all is_ws w"
  shows "wf_json v \<Longrightarrow> need v \<le> n \<Longrightarrow> num_stop r \<Longrightarrow> parse_value n (dumps_gen w a v @ r) = Some (v, r)"
proof (induction v arbitrary: n r rule: json_induct)
  case (JInt i)
  then obtain m where "n = Suc m" by (cases n) auto
  with JInt hd_int_str [of i] show ?case
    by (simp add: parse_value_number parse_number_int del: parse_value.simps)
next
  case (JFloat t)
  then obtain m where "n = Suc m" by (cases n) auto
  with JFloat hd_float [of t] show ?case
    by (simp add: parse_value_number parse_number_float del: parse_value.simps)
next
  case (JStr s)
  then obtain m where "n = Suc m" by (cases n) auto
  then show ?case by (simp add: dumps_str_def parse_str_dumps skip_ws_Cons literal_ws Let_def)
next
  case (JList xs)
  then obtain m where m: "n = Suc m" "sum_list (map (\<lambda>x. Suc (need x)) xs) \<le> m" by (cases n) auto
  show ?case
  proof (cases xs)
    case Nil
    with m show ?thesis by (simp add: skip_ws_Cons literal_ws Let_def)
  next
    case (Cons x ys)
    let ?t = "join ('','' @ w) (map (dumps_gen w a) xs) @ CHR '']'' # r"
    have "wf_json x" using JList.prems Cons by simp
    then have "\<not> is_ws (hd ?t) \<and> hd ?t \<noteq> CHR '']'' \<and> ?t \<noteq> []"
      using dumps_hd [of x w a] Cons by (cases ys) auto
    moreover have "parse_elems m ?t = Some (xs, r)"
      using JList Cons m w by (intro parse_elems_dumps) (auto simp: list_all_iff)
    ultimately show ?thesis using m 
      by (simp add: skip_ws_Cons skip_ws_hd literal_ws Let_def)
  qed
next
  case (JObj d)
  then obtain m where m: "n = Suc m" "sum_list (map (\<lambda>kv. Suc (need (snd kv))) d) \<le> m" by (cases n) auto
  show ?case
  proof (cases d)
    case Nil
    with m show ?thesis by (simp add: skip_ws_Cons literal_ws Let_def)
  next
    case (Cons p ds)
    let ?t = "join ('','' @ w) (map (\<lambda>(k, v). dumps_str a k @ '':'' @ w @ dumps_gen w a v) d) @ CHR ''}'' # r"
    have hd: "hd ?t = CHR 0x22 \<and> ?t \<noteq> []"
      using Cons by (cases ds) (auto simp: dumps_str_def split: prod.splits)
    have "parse_value n (dumps_gen w a x @ r) = Some (x, r)" 
      if "(k, x) \<in> set d" "need x \<le> n" "num_stop r" for k x n r
      using that JObj.prems(1) by (intro JObj.IH) (force simp: list_all_iff)+
    then have "parse_members m ?t = Some (d, r)"
      using Cons m w by (intro parse_members_dumps) auto
    with hd show ?thesis using m JObj.prems
      by (simp add: skip_ws_Cons skip_ws_hd literal_ws Let_def dict_of_pairs_distinct)
  qed
qed (case_tac n; simp add: skip_ws_Cons literal_ws startswith_def Let_def)+


text \<open>The length of the text is enough fuel to parse it.\<close>

lemma length_join:
  "xs \<noteq> [] \<Longrightarrow> sum_list (map (\<lambda>x. Suc (length x)) xs) \<le> Suc (length (join ('','' @ w) xs))"
  by (induction xs rule: induct_list012) auto

lemma sum_list_need:
  assumes "\<And>x. x \<in> set xs \<Longrightarrow> f x \<le> length (g x)"
  shows "sum_list (map (\<lambda>x. Suc (f x)) xs) \<le> Suc (length (join ('','' @ w) (map g xs)))"
proof (cases "xs = []")
  case False
  then have "sum_list (map (\<lambda>x. Suc (length (g x))) xs) \<le> Suc (length (join ('','' @ w) (map g xs)))"
    using length_join [of "map g xs" w] by (simp add: comp_def)
  moreover have "sum_list (map (\<lambda>x. Suc (f x)) xs) \<le> sum_list (map (\<lambda>x. Suc (length (g x))) xs)"
    using assms by (simp add: sum_list_mono)
  ultimately show ?thesis by linarith
qed simp

lemma need_le_length: "wf_json v \<Longrightarrow> need v \<le> length (dumps_gen w a v)"
proof (induction v rule: json_induct)
  case (JInt i)
  then show ?case using hd_int_str [of i] by (cases "int_str i") auto
next
  case (JFloat t)
  then show ?case using hd_float [of t] by (cases t) auto
next
  case (JList xs)
  then have "sum_list (map (\<lambda>x. Suc (need x)) xs) \<le> Suc (length (join ('','' @ w) (map (dumps_gen w a) xs)))"
    by (intro sum_list_need) (auto simp: list_all_iff)
  then show ?case by simp
next
  case (JObj d)
  have "need (snd kv) \<le> length ((\<lambda>(k, v). dumps_str a k @ '':'' @ w @ dumps_gen w a v) kv)"
    if kv: "kv \<in> set d" for kv
  proof -
    obtain k x where [simp]: "kv = (k, x)" by force
    have "need x \<le> length (dumps_gen w a x)"
      using kv JObj.prems by (intro JObj.IH) (auto simp: list_all_iff)
    then show ?thesis by simp
  qed
  then have "sum_list (map (\<lambda>kv. Suc (need (snd kv))) d)
      \<le> Suc (length (join ('','' @ w) (map (\<lambda>(k, v). dumps_str a k @ '':'' @ w @ dumps_gen w a v) d)))"
    by (rule sum_list_need)
  then show ?case by simp
qed (auto simp: dumps_str_def)

lemma loads_dumps_gen: "list_all is_ws w \<Longrightarrow> wf_json v \<Longrightarrow> loads (dumps_gen w a v) = Some v"
  using parse_value_dumps [of w v "length (dumps_gen w a v)" "[]" a] need_le_length [of v w a]
  by (simp add: loads_def num_stop_def skip_ws_def)

lemma loads_dumps: "wf_json v \<Longrightarrow> loads (dumps a v) = Some v"
  by (simp add: dumps_gen_eq loads_dumps_gen)

lemma loads_dumps_spaced: "wf_json v \<Longrightarrow> loads (dumps_spaced a v) = Some v"
  by (simp add: dumps_gen_eq loads_dumps_gen is_ws_def code_def)

lemma dumps_inject: "wf_json u \<Longrightarrow> wf_json v \<Longrightarrow> dumps a u = dumps a v \<longleftrightarrow> u = v"
  by (metis loads_dumps option.inject)

lemma wf_sort_json: "wf_json v \<Longrightarrow> wf_json (sort_json v)"
proof (induction v rule: json_induct)
  case (JObj d)
  have "map fst (map (\<lambda>(k, v). (k, sort_json v)) d) = map fst d"
    by (simp add: comp_def case_prod_beta)
  with JObj show ?case
    by (auto simp: list_all_iff distinct_map_sort_key simp del: map_map)
qed (auto simp: list_all_iff)

lemma loads_dumps_sorted: "wf_json v \<Longrightarrow> loads (dumps_sorted a v) = Some (sort_json v)"
  by (simp add: dumps_sorted_def loads_dumps wf_sort_json)

lemma dumps_sorted_inject:
  "wf_json u \<Longrightarrow> wf_json v \<Longrightarrow> dumps_sorted a u = dumps_sorted a v \<longleftrightarrow> sort_json u = sort_json v"
  by (simp add: dumps_sorted_def dumps_inject wf_sort_json)

subsection \<open>Lookups after sorting, and the characters of the ASCII form\<close>

lemma map_of_sort_key: "distinct (map fst d) \<Longrightarrow> map_of (sort_key fst d) = map_of d"
  by (subst map_of_inject_set) (auto simp: distinct_map)

lemma sort_json_obj:
  assumes "distinct (map fst d)"
  obtains d' where "sort_json (JObj d) = JObj d'" "distinct (map fst d')"
    "\<And>k. map_of d' k = map_option sort_json (map_of d k)"
proof -
  let ?m = "map (\<lambda>(k, v). (k, sort_json v)) d"
  have d: "distinct (map fst ?m)" using assms by (simp add: comp_def case_prod_beta)
  have "map_of ?m k = map_option sort_json (map_of d k)" for k
    by (induction d) auto
  with map_of_sort_key [OF d] d show thesis
    by (intro that [of "sort_key fst ?m"]) (simp_all add: distinct_map_sort_key)
qed

lemma sort_json_obj_eq:
  assumes "sort_json (JObj d) = sort_json (JObj d')" "distinct (map fst d)" "distinct (map fst d')"
  shows "map_option sort_json (map_of d k) = map_option sort_json (map_of d' k)"
  using sort_json_obj [OF assms(2)] sort_json_obj [OF assms(3)] assms(1) by (metis json.inject(6))

definition printable :: "char \<Rightarrow> bool" where
  "printable c = (32 \<le> code c \<and> code c \<le> 126)"

fun float_free :: "json \<Rightarrow> bool" where
  "float_free (JFloat r) = False"
| "float_free (JList xs) = list_all float_free xs"
| "float_free (JObj d) = list_all (\<lambda>kv. float_free (snd kv)) d"
| "float_free v = True"

lemma printable_lits [simp]: "printable CHR ''[''" "printable CHR '']''" "printable CHR ''{''" "printable CHR ''}''"
  "printable CHR '',''" "printable CHR '':''" "printable CHR 0x22"
  by (simp_all add: printable_def code_literals)

lemma printable_hex: "n < 16 \<Longrightarrow> printable (hex_digit n)"
  by (simp add: printable_def hex_digit_def)

lemma printable_digits: "list_all printable (dec_digits n)"
  using dec_digits_digits [of n] by (auto simp: list_all_iff is_digit_def printable_def)

lemma printable_int: "list_all printable (int_str i)"
  using printable_digits by (simp add: int_str_def printable_def code_literals)

lemma printable_literals: "list_all printable ''null''" "list_all printable ''true''" "list_all printable ''false''"
  by (simp_all add: printable_def code_def)

lemma printable_esc: "list_all printable (esc_char True c)"
proof -
  have "printable (hex_digit (code c div 16))" "printable (hex_digit (code c mod 16))"
    using code_lt [of c] by (simp_all add: printable_hex less_mult_imp_div_less)
  then show ?thesis
    by (auto simp: esc_char_def Let_def hex4_def printable_def code_literals)
qed

lemma printable_dumps_str: "list_all printable (dumps_str True s)"
  using printable_esc by (auto simp: dumps_str_def list_all_iff printable_def code_literals)

lemma printable_join:
  "list_all printable sep \<Longrightarrow> list_all (list_all printable) ss \<Longrightarrow> list_all printable (join sep ss)"
  by (cases ss) (auto simp: join_def list_all_iff)

lemma dumps_gen_printable: "list_all printable w \<Longrightarrow> float_free v \<Longrightarrow> list_all printable (dumps_gen w True v)"
proof (induction v rule: json_induct)
  case (JList xs)
  then have "list_all (list_all printable) (map (dumps_gen w True) xs)" by (simp add: list_all_iff)
  from printable_join [OF _ this, of "'','' @ w"] JList.prems show ?case by simp
next
  case (JObj d)
  have "list_all (list_all printable) (map (\<lambda>(k, v). dumps_str True k @ '':'' @ w @ dumps_gen w True v) d)"
    using JObj printable_dumps_str by (fastforce simp: list_all_iff)
  from printable_join [OF _ this, of "'','' @ w"] JObj.prems show ?case by simp
qed (use printable_literals printable_int printable_dumps_str in auto)

lemma dumps_printable: "float_free v \<Longrightarrow> list_all printable (dumps True v)"
  by (simp add: dumps_gen_eq dumps_gen_printable)

lemma printable_no_break: "printable c \<Longrightarrow> \<not> line_break c"
  by (auto simp: printable_def line_break_def Let_def)

lemma dumps_dict_trimmed: "is_dict j \<Longrightarrow> trimmed (dumps_spaced True j)"
  by (cases j) (simp_all add: trimmed_def is_space_def code_def)

lemma dumps_spaced_printable: "float_free v \<Longrightarrow> list_all printable (dumps_spaced True v)"
  by (simp add: dumps_gen_eq dumps_gen_printable printable_def code_def)

lemma float_free_sort: "float_free v \<Longrightarrow> float_free (sort_json v)"
  by (induction v rule: json_induct) (fastforce simp: list_all_iff)+

end
