(* ===== verification/Gate_Contract.thy ===== *)
theory Gate_Contract
  imports Main
begin

section \<open>The contract of a gate over the items of a coverage model\<close>

text \<open>
  Every gate of the control plane looks at the items of the model one by one: it accepts when
  each item in scope is clean. \<open>scope_gate\<close> is that contract; \<open>merge_gate\<close> adds that an
  accepted model has at least one item in scope, so an empty model never passes. The
  completion query, the evidence gate, the merge gate and the merge-input builder interpret them.
\<close>

locale scope_gate =
  fixes accept :: "'i list \<Rightarrow> bool"
    and scoped :: "'i \<Rightarrow> bool"
    and clean :: "'i \<Rightarrow> bool"
  assumes accept_iff: "accept ds \<longleftrightarrow> (\<forall>d \<in> set ds. scoped d \<longrightarrow> clean d)"
begin

lemma one_bad_item_blocks: "d \<in> set ds \<Longrightarrow> scoped d \<Longrightarrow> \<not> clean d \<Longrightarrow> \<not> accept ds"
  by (auto simp: accept_iff)

lemma out_of_scope_ignored: "\<not> scoped d \<Longrightarrow> accept (xs @ d # ys) \<longleftrightarrow> accept (xs @ ys)"
  by (auto simp: accept_iff)

lemma order_irrelevant: "set xs = set ys \<Longrightarrow> accept xs \<longleftrightarrow> accept ys"
  by (simp add: accept_iff)

lemma accept_append: "accept (xs @ ys) \<longleftrightarrow> accept xs \<and> accept ys"
  by (auto simp: accept_iff)

lemma accept_subset: "accept ys \<Longrightarrow> set xs \<subseteq> set ys \<Longrightarrow> accept xs"
  by (auto simp: accept_iff)

end

locale merge_gate = scope_gate accept scoped clean
  for accept :: "'i list \<Rightarrow> bool" and scoped :: "'i \<Rightarrow> bool" and clean :: "'i \<Rightarrow> bool" +
  fixes merge :: "'i list \<Rightarrow> bool"
  assumes merge_iff: "merge ds \<longleftrightarrow> accept ds \<and> (\<exists>d \<in> set ds. scoped d)"
begin

lemma merge_never_empty: "merge ds \<Longrightarrow> filter scoped ds \<noteq> []"
  by (auto simp: merge_iff filter_empty_conv)

lemma merge_blocked_by_one: "d \<in> set ds \<Longrightarrow> scoped d \<Longrightarrow> \<not> clean d \<Longrightarrow> \<not> merge ds"
  using one_bad_item_blocks by (auto simp: merge_iff)

lemma merge_order_irrelevant: "set xs = set ys \<Longrightarrow> merge xs \<longleftrightarrow> merge ys"
  using order_irrelevant [of xs ys] by (simp add: merge_iff)

lemma merge_out_of_scope_ignored: "\<not> scoped d \<Longrightarrow> merge (xs @ d # ys) \<longleftrightarrow> merge (xs @ ys)"
  using out_of_scope_ignored [of d xs ys] by (auto simp: merge_iff)

end

end
