(* ===== verification/Evidence_Gate.thy ===== *)
theory Evidence_Gate
  imports Evidence Json_Codec Gate_Contract
begin

section \<open>The per-slice evidence gate\<close>

text \<open>
  \<open>tools/evidence_gate.py\<close>. \<open>check_slice\<close> is the fail-closed trust core: it re-derives the
  digest of the captured artifact and compares normalised session ids with the dispatch
  ledger. \<open>check_model\<close> runs it over the in-scope items. \<open>check_slice_semgrep\<close> is a depth
  pillar; the semgrep process is its argument, a function from the command line to an outcome.
  The orphan pillar is in \<open>Orphan_Pillar\<close>.

  The text of a reason is kept where it is a fixed string; an exception's text is the
  exception, and the report of the orphan pillar carries its lists.
\<close>

subsection \<open>Verdicts\<close>

datatype gate_code =
    OK | EVIDENCE_MISSING | EVIDENCE_MALFORMED | HASH_MISMATCH | SESSION_MISSING
  | SAME_SESSION | SESSION_NOT_IN_LEDGER | SAST_HIGH_CRITICAL | ORPHAN_DETECTED
  | ORPHAN_DANGLING_REF | MODEL_MALFORMED

datatype reason =
    Text string
  | Raised py_exc
  | OrphanLists "string list" "string list"

record verdict =
  accepted :: bool
  vcode :: gate_code
  vreason :: reason

definition reject :: "gate_code \<Rightarrow> reason \<Rightarrow> verdict" where
  [verdict_defs]: "reject c r = \<lparr>accepted = False, vcode = c, vreason = r\<rparr>"

definition accept_ok :: "reason \<Rightarrow> verdict" where
  [verdict_defs]: "accept_ok r = \<lparr>accepted = True, vcode = OK, vreason = r\<rparr>"

subsection \<open>Session ids\<close>

fun norm_session :: "json \<Rightarrow> string" where
  "norm_session (JStr s) =
     (let t = strip s in if t = [] \<or> \<not> isascii t then [] else casefold_ascii t)"
| "norm_session _ = []"

definition rederive :: "string \<Rightarrow> string" where
  "rederive artifact = ''sha256:'' @ sha256_hex artifact"

lemma norm_session_strip: "norm_session (JStr (strip s)) = norm_session (JStr s)"
  by simp

lemma isascii_casefold [simp]: "isascii (casefold_ascii s) = isascii s"
  by (auto simp: isascii_def casefold_ascii_def lower_char_def list_all_iff)

lemma norm_session_casefold: "norm_session (JStr (casefold_ascii s)) = norm_session (JStr s)"
  by (auto simp: strip_casefold Let_def) (auto simp: casefold_ascii_def)

lemma strip_Nil [simp]: "strip [] = []"
  by (simp add: strip_def)

lemma norm_session_idem: "norm_session (JStr (norm_session v)) = norm_session v"
proof (cases "norm_session v = []")
  case False
  then obtain s where "v = JStr s" "strip s \<noteq> []" "isascii (strip s)"
    by (cases v) (auto simp: Let_def split: if_splits)
  moreover from this have "norm_session v = casefold_ascii (strip s)" by simp
  moreover have "casefold_ascii (strip s) \<noteq> []"
    using \<open>strip s \<noteq> []\<close> by (simp add: casefold_ascii_def)
  ultimately show ?thesis by (simp add: strip_casefold)
qed simp

lemma norm_session_variant:
  "casefold_ascii (strip s) = casefold_ascii (strip t) \<Longrightarrow> norm_session (JStr s) = norm_session (JStr t)"
  using isascii_casefold [of "strip s"] isascii_casefold [of "strip t"]
  by (auto simp: Let_def casefold_ascii_def)

subsection \<open>One slice\<close>

text \<open>The part of \<open>check_slice\<close> that runs on a validated record (a dictionary).\<close>

definition actor_separation :: "dict \<Rightarrow> json \<Rightarrow> verdict py" where
  "actor_separation d ledger =
     (let vs = norm_session (dget d ''verifier_session_id'');
          im = norm_session (dget d ''implementer_session_id'') in
      if vs = [] \<or> im = [] then Inr (reject SESSION_MISSING
        (Text ''evidence lacks a valid (non-empty, ASCII) verifier/implementer session id''))
      else if vs = im then Inr (reject SAME_SESSION
        (Text ''verifier session equals implementer session (self-grading)''))
      else py_bind (obj_get_or ledger ''sessions'' (JList [])) (\<lambda>ss.
        py_bind (py_iter ss) (\<lambda>ids.
          let valid = removeAll [] (map norm_session ids) in
          if vs \<notin> set valid \<or> im \<notin> set valid then Inr (reject SESSION_NOT_IN_LEDGER
            (Text ''a declared session id is not in the dispatch ledger''))
          else Inr (accept_ok (Text ''evidence independently verified'')))))"

text \<open>\<open>artifact.encode\<close> raises on a value that is neither \<open>None\<close> nor a string.\<close>

definition check_slice_body :: "json \<Rightarrow> json \<Rightarrow> json \<Rightarrow> verdict py" where
  "check_slice_body evidence artifact ledger =
     (if \<not> truthy evidence then Inr (reject EVIDENCE_MISSING
        (Text ''no Evidence_Record present for a proven item''))
      else if \<not> validate_evidence_record evidence then Inr (reject EVIDENCE_MALFORMED
        (Text ''Evidence_Record fails four-field validation''))
      else case evidence of
        JObj d \<Rightarrow>
          (case artifact of
             JNull \<Rightarrow> Inr (reject HASH_MISMATCH
               (Text ''output_hash does not re-derive from the captured artifact''))
           | JStr a \<Rightarrow>
               if JStr (rederive a) \<noteq> dget d ''output_hash'' then Inr (reject HASH_MISMATCH
                 (Text ''output_hash does not re-derive from the captured artifact''))
               else actor_separation d ledger
           | _ \<Rightarrow> Inl AttributeError)
      | _ \<Rightarrow> Inl AttributeError)"

definition check_slice :: "json \<Rightarrow> json \<Rightarrow> json \<Rightarrow> verdict" where
  "check_slice evidence artifact ledger =
     (case check_slice_body evidence artifact ledger of
        Inr v \<Rightarrow> v | Inl e \<Rightarrow> reject EVIDENCE_MALFORMED (Raised e))"

subsection \<open>A whole model\<close>

record rejection =
  rej_id :: json
  rej_code :: gate_code
  rej_reason :: reason

record model_verdict =
  m_accepted :: bool
  m_rejections :: "rejection list"

definition malformed_model :: "reason \<Rightarrow> model_verdict" where
  [verdict_defs]: "malformed_model r = \<lparr>m_accepted = False,
     m_rejections = [\<lparr>rej_id = JNull, rej_code = MODEL_MALFORMED, rej_reason = r\<rparr>]\<rparr>"

definition item_key :: "dict \<Rightarrow> string" where
  "item_key d = py_str (dget_or d ''id'' (JStr []))"

text \<open>\<open>artifacts.get(item_id)\<close>: an unhashable id raises.\<close>

definition artifact_of :: "keyed \<Rightarrow> json \<Rightarrow> json py" where
  "artifact_of artifacts item_id = (if hashable item_id then Inr (pget artifacts item_id) else Inl TypeError)"

definition check_item :: "json \<Rightarrow> keyed \<Rightarrow> dict \<Rightarrow> rejection list py" where
  "check_item ledger artifacts d =
     (if dget d ''status'' \<noteq> JStr ''proven'' then
        Inr [\<lparr>rej_id = dget d ''id'', rej_code = EVIDENCE_MISSING,
              rej_reason = Text (''in-scope item is '' @ py_repr (dget d ''status'') @ '', not proven'')\<rparr>]
      else py_bind (artifact_of artifacts (dget d ''id'')) (\<lambda>a.
        let r = check_slice (dget d ''evidence'') a ledger in
        Inr (if accepted r then []
             else [\<lparr>rej_id = dget d ''id'', rej_code = vcode r, rej_reason = vreason r\<rparr>])))"

definition check_model_body :: "json \<Rightarrow> json \<Rightarrow> keyed \<Rightarrow> model_verdict py" where
  "check_model_body model ledger artifacts =
     py_bind (in_scope_items model) (\<lambda>ds.
       py_bind (py_map (check_item ledger artifacts) (sort_key item_key ds)) (\<lambda>rss.
         Inr \<lparr>m_accepted = (concat rss = []), m_rejections = concat rss\<rparr>))"

definition check_model :: "json \<Rightarrow> json \<Rightarrow> keyed \<Rightarrow> model_verdict" where
  "check_model model ledger artifacts =
     (case model of
        JObj m \<Rightarrow>
          (case dget_or m ''items'' (JList []) of
             JList items \<Rightarrow>
               if \<not> list_all is_dict items
               then malformed_model (Text ''model['items'] contains a non-dict element'')
               else (case check_model_body model ledger artifacts of
                       Inr v \<Rightarrow> v | Inl e \<Rightarrow> malformed_model (Raised e))
           | _ \<Rightarrow> malformed_model (Text ''model['items'] is not a list''))
      | _ \<Rightarrow> malformed_model (Text ''model is not a dict''))"

subsection \<open>Self-heal directives\<close>

text \<open>One constructor for each entry of the directive table, and its default.\<close>

datatype heal =
    ProduceRecord | ReemitRecord | RebuildHash | StampSessions | HandToVerifier
  | UseDispatchedSessions | FixFindings | LinkOrphans | CorrectRequirementId | ResolveRejection

fun self_heal_prompt :: "gate_code \<Rightarrow> heal" where
  "self_heal_prompt EVIDENCE_MISSING = ProduceRecord"
| "self_heal_prompt EVIDENCE_MALFORMED = ReemitRecord"
| "self_heal_prompt HASH_MISMATCH = RebuildHash"
| "self_heal_prompt SESSION_MISSING = StampSessions"
| "self_heal_prompt SAME_SESSION = HandToVerifier"
| "self_heal_prompt SESSION_NOT_IN_LEDGER = UseDispatchedSessions"
| "self_heal_prompt SAST_HIGH_CRITICAL = FixFindings"
| "self_heal_prompt ORPHAN_DETECTED = LinkOrphans"
| "self_heal_prompt ORPHAN_DANGLING_REF = CorrectRequirementId"
| "self_heal_prompt _ = ResolveRejection"

subsection \<open>The depth pillars\<close>

datatype process_outcome = NotFound | TimedOut | Failed | Stdout string

definition upper_char :: "char \<Rightarrow> char" where
  "upper_char c = (if 97 \<le> code c \<and> code c \<le> 122 then char_of (code c - 32) else c)"

definition semgrep_command :: "string \<Rightarrow> string list \<Rightarrow> string option \<Rightarrow> string list" where
  "semgrep_command strategy changed_files baseline_commit =
     [''semgrep'', ''--config'', ''auto'', ''--json''] @
     (case baseline_commit of
        Some c \<Rightarrow> if c \<noteq> [] \<and> casefold_ascii strategy \<notin> {''off'', ''none'', ''disabled''}
          then [''--baseline-commit'', c] else []
      | None \<Rightarrow> []) @ changed_files"

definition blocking_severities :: "string list" where
  "blocking_severities = [''ERROR'', ''HIGH'', ''CRITICAL'']"

text \<open>\<open>(f.get("extra") or {}).get("severity", "")\<close> raises when \<open>extra\<close> is neither
  false nor a dictionary.\<close>

fun blocking_finding :: "json \<Rightarrow> bool py" where
  "blocking_finding (JObj f) =
     (let e = dget f ''extra''; e' = (if truthy e then e else JObj []) in
      py_bind (obj_get_or e' ''severity'' (JStr [])) (\<lambda>sv.
        Inr (map upper_char (py_str sv) \<in> set blocking_severities)))"
| "blocking_finding _ = Inr False"

definition semgrep_verdict :: "json list \<Rightarrow> verdict py" where
  "semgrep_verdict results =
     py_bind (py_map blocking_finding results) (\<lambda>bs.
       let n = length (filter id bs) in
       Inr (if n \<noteq> 0 then reject SAST_HIGH_CRITICAL
              (Text (''semgrep found '' @ int_str (int n) @ '' blocking (HIGH/CRITICAL) finding(s)''))
            else accept_ok (Text ''semgrep clean (no blocking findings)'')))"

definition check_slice_semgrep ::
    "(string list \<Rightarrow> process_outcome) \<Rightarrow> string \<Rightarrow> string list \<Rightarrow> string option \<Rightarrow> verdict py" where
  "check_slice_semgrep run_process strategy changed_files baseline_commit =
     (if changed_files = [] then Inr (accept_ok (Text ''no changed files; depth pillar skips''))
      else case run_process (semgrep_command strategy changed_files baseline_commit) of
        NotFound \<Rightarrow> Inr (accept_ok (Text ''semgrep binary not found; failing open (warn)''))
      | TimedOut \<Rightarrow> Inr (accept_ok (Text ''semgrep timeout; failing open (warn)''))
      | Failed \<Rightarrow> Inr (accept_ok (Text ''semgrep error; failing open (warn)''))
      | Stdout out \<Rightarrow>
          (case loads (if out = [] then ''{}'' else out) of
             None \<Rightarrow> Inr (accept_ok (Text ''semgrep output malformed; failing open (warn)''))
           | Some (JObj data) \<Rightarrow>
               semgrep_verdict (case dget data ''results'' of JList rs \<Rightarrow> rs | _ \<Rightarrow> [])
           | Some _ \<Rightarrow> Inr (accept_ok (Text ''semgrep output not an object; failing open (warn)''))))"

subsection \<open>Acceptance of a slice\<close>

definition in_ledger :: "json \<Rightarrow> string \<Rightarrow> bool" where
  "in_ledger ledger sid =
     (case obj_get_or ledger ''sessions'' (JList []) of
        Inr ss \<Rightarrow> (case py_iter ss of Inr ids \<Rightarrow> sid \<in> set (map norm_session ids) | Inl _ \<Rightarrow> False)
      | Inl _ \<Rightarrow> False)"

definition separated :: "dict \<Rightarrow> json \<Rightarrow> bool" where
  "separated d ledger =
     (let vs = norm_session (dget d ''verifier_session_id'');
          im = norm_session (dget d ''implementer_session_id'')
      in vs \<noteq> [] \<and> im \<noteq> [] \<and> vs \<noteq> im \<and> in_ledger ledger vs \<and> in_ledger ledger im)"

lemma accepted_simps [simp]: "accepted (accept_ok r)" "\<not> accepted (reject c r)"
  "vcode (accept_ok r) = OK" "vcode (reject c r) = c"
  by (simp_all add: verdict_defs)

lemma actor_separation_accepts:
  "(\<exists>v. actor_separation d ledger = Inr v \<and> accepted v) \<longleftrightarrow> separated d ledger"
proof (cases "obj_get_or ledger ''sessions'' (JList [])")
  case (Inl e)
  then show ?thesis by (auto simp: actor_separation_def separated_def in_ledger_def Let_def)
next
  case (Inr ss)
  then show ?thesis
    by (cases "py_iter ss") (auto simp: actor_separation_def separated_def in_ledger_def Let_def)
qed

lemma check_slice_eq_body:
  "accepted (check_slice e a l) \<longleftrightarrow> (\<exists>v. check_slice_body e a l = Inr v \<and> accepted v)"
  by (auto simp: check_slice_def split: sum.splits)

lemma validate_truthy: "validate_evidence_record e \<Longrightarrow> truthy e"
  by (cases e) (auto simp: validate_evidence_record_def REQUIRED_FIELDS_def)

lemma check_slice_accepts:
  "accepted (check_slice e a l) \<longleftrightarrow>
     (\<exists>d art. e = JObj d \<and> validate_evidence_record e \<and> a = JStr art \<and>
        dget d ''output_hash'' = JStr (''sha256:'' @ sha256_hex art) \<and> separated d l)"
proof -
  have "accepted (check_slice e a l) \<longleftrightarrow>
      (\<exists>v d art. e = JObj d \<and> validate_evidence_record e \<and> a = JStr art \<and>
        JStr (rederive art) = dget d ''output_hash'' \<and> actor_separation d l = Inr v \<and> accepted v)"
    unfolding check_slice_eq_body
    by (cases e; cases a) (auto simp: check_slice_body_def validate_truthy
        dest: validate_truthy split: if_splits)
  then show ?thesis
    using actor_separation_accepts by (auto simp: rederive_def) metis+
qed

text \<open>
  C1. The trust core, exactly: a slice is accepted if and only if its record validates, the
  captured artifact is a string whose digest re-derives the declared \<open>output_hash\<close>, and the
  verifier and implementer sessions are, after normalisation, present, distinct and both in
  the dispatch ledger. Every other input, malformed ones included, is rejected.
\<close>

theorem check_slice_accepts_iff:
  "accepted (check_slice e a l) \<longleftrightarrow>
     (\<exists>d art. e = JObj d \<and> validate_evidence_record e \<and> a = JStr art \<and>
        dget d ''output_hash'' = JStr (''sha256:'' @ sha256_hex art) \<and> separated d l)"
  by (rule check_slice_accepts)

text \<open>
  C2. Self-grading is refused in every disguise: when the verifier's session differs from the
  implementer's by surrounding white space or letter case only, the slice is rejected,
  whatever the rest of the record, the artifact and the ledger.
\<close>

theorem check_slice_no_self_grading:
  assumes "dget d ''verifier_session_id'' = JStr s" "dget d ''implementer_session_id'' = JStr t"
    and "casefold_ascii (strip s) = casefold_ascii (strip t)"
  shows "\<not> accepted (check_slice (JObj d) a l)"
  using assms norm_session_variant [OF assms(3)]
  by (auto simp: check_slice_accepts separated_def Let_def simp del: norm_session.simps)

theorem check_slice_no_self_grading_witness:
  "\<not> accepted (check_slice
     (JObj [(''verifier_session_id'', JStr '' S1 ''), (''implementer_session_id'', JStr ''s1'')])
     (JStr ''out'') (JObj [(''sessions'', JList [JStr ''s1'', JStr ''S1''])]))"
  by (rule check_slice_no_self_grading [of _ "'' S1 ''" "''s1''"])
    (simp, simp, code_simp)

definition deliver :: "string \<Rightarrow> string \<Rightarrow> string \<Rightarrow> utc_instant \<Rightarrow> string \<Rightarrow> string \<Rightarrow> dict" where
  "deliver tf tn output now vs im =
     collect tf tn output now @
       [(''verifier_session_id'', JStr vs), (''implementer_session_id'', JStr im)]"

lemma validate_deliver:
  assumes "strip tf \<noteq> []" "strip tn \<noteq> []" "valid_instant now"
  shows "validate_evidence_record (JObj (deliver tf tn output now vs im))"
  using collect_record_ok [OF assms]
  by (simp add: validate_evidence_record_def deliver_def collect_def REQUIRED_FIELDS_def)

lemma deliver_accepted:
  assumes "strip tf \<noteq> []" "strip tn \<noteq> []" "valid_instant now"
    and "norm_session (JStr vs) \<noteq> []" "norm_session (JStr im) \<noteq> []"
    and "norm_session (JStr vs) \<noteq> norm_session (JStr im)"
    and "JStr vs \<in> set sessions" "JStr im \<in> set sessions"
  shows "accepted (check_slice (JObj (deliver tf tn output now vs im)) (JStr output)
     (JObj [(''sessions'', JList sessions)]))"
  using assms validate_deliver [OF assms(1-3)]
  by (auto simp: check_slice_accepts deliver_def collect_def separated_def in_ledger_def Let_def
      simp del: norm_session.simps)

text \<open>
  An honest delivery passes: a record made by the collector from the captured output, with
  two distinct sessions the dispatcher recorded, is accepted against that output.
\<close>

theorem honest_delivery_accepted:
  assumes "strip tf \<noteq> []" "strip tn \<noteq> []" "valid_instant now"
    and "norm_session (JStr vs) \<noteq> []" "norm_session (JStr im) \<noteq> []"
    and "norm_session (JStr vs) \<noteq> norm_session (JStr im)"
    and "JStr vs \<in> set sessions" "JStr im \<in> set sessions"
  shows "accepted (check_slice (JObj (deliver tf tn output now vs im)) (JStr output)
     (JObj [(''sessions'', JList sessions)]))"
  using assms by (rule deliver_accepted)

theorem honest_delivery_accepted_witness:
  "accepted (check_slice (JObj (deliver ''t.py'' ''t'' ''1 passed''
       \<lparr>u_year = 2026, u_month = 6, u_day = 22, u_hour = 9, u_minute = 5, u_second = 0, u_micro = 0\<rparr>
       ''v1'' ''i1'')) (JStr ''1 passed'') (JObj [(''sessions'', JList [JStr ''v1'', JStr ''i1''])]))"
  by (rule honest_delivery_accepted)
    (simp_all add: valid_instant_def valid_date_def days_in_month_def strip_def is_space_def code_def
      isascii_def casefold_ascii_def lower_char_def)

lemma sample_delivery_accepted:
  "accepted (check_slice (JObj (deliver ''t.py'' ''t'' ''1 passed''
       \<lparr>u_year = 2026, u_month = 6, u_day = 22, u_hour = 9, u_minute = 5, u_second = 0, u_micro = 0\<rparr>
       ''v1'' ''i1'')) (JStr ''1 passed'') (JObj [(''sessions'', JList [JStr ''v1'', JStr ''i1''])]))"
  by (rule deliver_accepted)
    (simp_all add: valid_instant_def valid_date_def days_in_month_def strip_def is_space_def code_def
      isascii_def casefold_ascii_def lower_char_def)

text \<open>
  A substituted artifact is a collision: a record accepted with two artifacts, under any two
  ledgers, exhibits two strings with the same SHA-256 digest.
\<close>

theorem substituted_artifact_collides:
  assumes "accepted (check_slice e (JStr a) l)" "accepted (check_slice e (JStr b) l')"
  shows "sha256_hex a = sha256_hex b"
  using assms by (auto simp: check_slice_accepts)

theorem substituted_artifact_collides_witness:
  "\<exists>a. sha256_hex ''1 passed'' = sha256_hex a"
  by (rule exI, rule substituted_artifact_collides [OF sample_delivery_accepted sample_delivery_accepted])

subsection \<open>Acceptance of a model\<close>

definition item_in_scope :: "dict \<Rightarrow> bool" where
  "item_in_scope d = truthy (dget d ''in_scope'')"

definition item_evidenced :: "json \<Rightarrow> keyed \<Rightarrow> dict \<Rightarrow> bool" where
  "item_evidenced ledger artifacts d =
     (dget d ''status'' = JStr ''proven'' \<and>
      (case artifact_of artifacts (dget d ''id'') of
         Inr a \<Rightarrow> accepted (check_slice (dget d ''evidence'') a ledger) | Inl _ \<Rightarrow> False))"

lemma check_item_clean: "check_item l arts d = Inr [] \<longleftrightarrow> item_evidenced l arts d"
  by (auto simp: check_item_def item_evidenced_def Let_def split: sum.splits)

lemma py_map_concat_Nil:
  "(\<exists>yss. py_map f xs = Inr yss \<and> concat yss = []) \<longleftrightarrow> (\<forall>x \<in> set xs. f x = Inr [])"
proof (induction xs)
  case (Cons x xs)
  then show ?case by (cases "f x"; cases "py_map f xs") auto
qed simp

lemma check_model_body_objs:
  assumes "dget_or m ''items'' (JList []) = JList (map JObj ds)"
  shows "(\<exists>v. check_model_body (JObj m) l arts = Inr v \<and> m_accepted v) \<longleftrightarrow>
    (\<forall>d \<in> set ds. item_in_scope d \<longrightarrow> item_evidenced l arts d)"
proof -
  let ?es = "filter item_in_scope ds"
  have "in_scope_items (JObj m) = Inr ?es"
    using assms by (simp add: in_scope_items_def filter_in_scope_objs item_in_scope_def [abs_def])
  then have "(\<exists>v. check_model_body (JObj m) l arts = Inr v \<and> m_accepted v) \<longleftrightarrow>
      (\<exists>rss. py_map (check_item l arts) (sort_key item_key ?es) = Inr rss \<and> concat rss = [])"
    by (auto simp: check_model_body_def py_bind_Inr_iff)
  also have "\<dots> \<longleftrightarrow> (\<forall>d \<in> set (sort_key item_key ?es). check_item l arts d = Inr [])"
    by (rule py_map_concat_Nil)
  finally show ?thesis by (auto simp: check_item_clean)
qed

lemma all_dicts: "list_all is_dict items \<Longrightarrow> \<exists>ds. items = map JObj ds"
  by (induction items) (auto elim!: is_dict.elims(2) intro: exI [of _ "_ # _"])

lemma check_model_objs:
  assumes "dget_or m ''items'' (JList []) = JList (map JObj ds)"
  shows "m_accepted (check_model (JObj m) l arts) \<longleftrightarrow>
    (\<forall>d \<in> set ds. item_in_scope d \<longrightarrow> item_evidenced l arts d)"
proof -
  have "list_all is_dict (map JObj ds)" by (simp add: list_all_iff)
  then have "m_accepted (check_model (JObj m) l arts) \<longleftrightarrow>
      (\<exists>v. check_model_body (JObj m) l arts = Inr v \<and> m_accepted v)"
    using assms by (auto simp: check_model_def malformed_model_def split: sum.splits)
  then show ?thesis using check_model_body_objs [OF assms] by simp
qed

definition model_of :: "dict list \<Rightarrow> json" where
  "model_of ds = JObj [(''items'', JList (map JObj ds))]"

text \<open>A document that lists dictionaries under \<open>items\<close>, whatever its other keys.\<close>

definition lists_items :: "json \<Rightarrow> dict list \<Rightarrow> bool" where
  "lists_items model ds =
     (case model of JObj m \<Rightarrow> map_of m ''items'' = Some (JList (map JObj ds)) | _ \<Rightarrow> False)"

lemma lists_items_iff:
  "lists_items model ds \<longleftrightarrow> (\<exists>m. model = JObj m \<and> map_of m ''items'' = Some (JList (map JObj ds)))"
  by (simp add: lists_items_def split: json.splits)

lemma lists_items_of [simp]: "lists_items (model_of ds) ds"
  by (simp add: lists_items_def model_of_def)

lemma accepts_listed:
  "lists_items model ds \<Longrightarrow> m_accepted (check_model model l arts) \<longleftrightarrow>
     (\<forall>d \<in> set ds. item_in_scope d \<longrightarrow> item_evidenced l arts d)"
  using check_model_objs by (auto simp: lists_items_iff dget_or_def)

lemma check_model_of:
  "check_model (model_of ds) l arts =
     (case check_model_body (model_of ds) l arts of Inr v \<Rightarrow> v | Inl e \<Rightarrow> malformed_model (Raised e))"
  by (simp add: check_model_def model_of_def list_all_iff)

lemma in_scope_model_of: "in_scope_items (model_of ds) = Inr (filter item_in_scope ds)"
  by (simp add: model_of_def item_in_scope_def [abs_def])

interpretation model_gate: scope_gate "\<lambda>ds. m_accepted (check_model (model_of ds) l arts)"
    item_in_scope "item_evidenced l arts" for l arts
  by unfold_locales (simp add: model_of_def check_model_objs)

text \<open>
  The model gate fails closed and never trusts \<open>status\<close> alone: a model is accepted if and
  only if it is a dictionary whose \<open>items\<close> is a list of dictionaries and every in-scope item is
  \<open>proven\<close> with an accepted slice. In particular a document of any other shape is rejected.
\<close>

theorem check_model_accepts_iff:
  "m_accepted (check_model model l arts) \<longleftrightarrow>
     (\<exists>m ds. model = JObj m \<and> dget_or m ''items'' (JList []) = JList (map JObj ds) \<and>
        list_all (\<lambda>d. item_in_scope d \<longrightarrow> item_evidenced l arts d) ds)"
proof
  assume acc: "m_accepted (check_model model l arts)"
  then obtain m items where m: "model = JObj m" "dget_or m ''items'' (JList []) = JList items"
    "list_all is_dict items"
    by (auto simp: check_model_def malformed_model_def split: json.splits if_splits)
  then obtain ds where "items = map JObj ds" using all_dicts by blast
  with acc m show "\<exists>m ds. model = JObj m \<and> dget_or m ''items'' (JList []) = JList (map JObj ds) \<and>
      list_all (\<lambda>d. item_in_scope d \<longrightarrow> item_evidenced l arts d) ds"
    using check_model_objs [of m ds l arts] by (auto simp: list_all_iff)
next
  assume "\<exists>m ds. model = JObj m \<and> dget_or m ''items'' (JList []) = JList (map JObj ds) \<and>
      list_all (\<lambda>d. item_in_scope d \<longrightarrow> item_evidenced l arts d) ds"
  then show "m_accepted (check_model model l arts)"
    using check_model_objs by (auto simp: list_all_iff)
qed

theorem check_model_accepts_iff_witness:
  "\<not> m_accepted (check_model (model_of [[(''id'', JStr ''A''), (''in_scope'', JBool True),
      (''status'', JStr ''proven'')]]) JNull [])"
  by (subst check_model_accepts_iff)
    (auto simp: model_of_def item_in_scope_def item_evidenced_def artifact_of_def check_slice_def
      check_slice_body_def split: sum.splits)

text \<open>
  Rejections name the culprits: every rejection of a well-formed model, one whose items
  are dictionaries and whose artifacts can be looked up, carries the id of an in-scope item of
  the model that has no accepted evidence, and every such item has its rejection.
\<close>

theorem check_model_rejections_exact:
  assumes "\<And>d. d \<in> set ds \<Longrightarrow> \<exists>a. artifact_of arts (dget d ''id'') = Inr a"
  shows "rej_id ` set (m_rejections (check_model (model_of ds) l arts)) =
    set (map (\<lambda>d. dget d ''id'') (filter (\<lambda>d. item_in_scope d \<and> \<not> item_evidenced l arts d) ds))"
proof -
  define g where "g d = (case check_item l arts d of Inr rs \<Rightarrow> rs | Inl _ \<Rightarrow> [])" for d
  let ?es = "sort_key item_key (filter item_in_scope ds)"
  have "py_map (check_item l arts) ?es = Inr (map g ?es)"
  proof (rule py_map_total)
    fix d assume "d \<in> set ?es"
    then obtain a where "artifact_of arts (dget d ''id'') = Inr a" using assms by auto
    then show "check_item l arts d = Inr (g d)" by (auto simp: g_def check_item_def Let_def)
  qed
  then have "m_rejections (check_model (model_of ds) l arts) = concat (map g ?es)"
    by (simp add: check_model_of check_model_body_def in_scope_model_of)
  moreover have "rej_id ` set (g d) = (if item_evidenced l arts d then {} else {dget d ''id''})"
    if "d \<in> set ds" for d
    using assms [OF that] by (auto simp: g_def check_item_def item_evidenced_def Let_def)
  ultimately show ?thesis by (auto simp: image_UN split: if_splits)
qed

theorem check_model_rejections_exact_witness:
  "rej_id ` set (m_rejections (check_model (model_of
       [[(''id'', JStr ''A''), (''in_scope'', JBool True), (''status'', JStr ''failed'')],
        [(''id'', JStr ''B''), (''in_scope'', JBool False)]]) JNull [])) = {JStr ''A''}"
  by (subst check_model_rejections_exact) (auto simp: item_in_scope_def item_evidenced_def artifact_of_def)

subsection \<open>The SAST pillar\<close>

definition finding_shape_ok :: "json \<Rightarrow> bool" where
  "finding_shape_ok f = (case f of JObj d \<Rightarrow> \<not> truthy (dget d ''extra'') \<or> is_dict (dget d ''extra'') | _ \<Rightarrow> True)"

lemma blocking_finding_total: "finding_shape_ok f \<Longrightarrow> \<exists>b. blocking_finding f = Inr b"
  by (cases f) (auto simp: finding_shape_ok_def Let_def elim: is_dict.elims)

lemma blocking_finding_raises: "\<not> finding_shape_ok f \<Longrightarrow> blocking_finding f = Inl AttributeError"
  by (cases f; auto simp: finding_shape_ok_def Let_def split: json.splits)
    (case_tac "dget x7 ''extra''"; simp)

text \<open>
  The fail-open promise of the SAST pillar does not cover every tool output: semgrep output
  that is well-formed JSON with a finding whose \<open>extra\<close> is a string makes the pillar raise,
  whatever files changed, where its documentation says that any wrong shape fails open.
\<close>

theorem semgrep_wrong_shape_raises:
  assumes "changed_files \<noteq> []"
  shows "check_slice_semgrep (\<lambda>_. Stdout (dumps True (JObj [(''results'', JList [JObj [(''extra'', JStr ''x'')]])])))
     strategy changed_files baseline = Inl AttributeError"
proof -
  let ?v = "JObj [(''results'', JList [JObj [(''extra'', JStr ''x'')]])]"
  have "loads (dumps True ?v) = Some ?v" by (rule loads_dumps) simp
  moreover have "dumps True ?v \<noteq> []" by simp
  ultimately show ?thesis
    using assms by (simp add: check_slice_semgrep_def semgrep_verdict_def del: dumps.simps)
qed

theorem semgrep_wrong_shape_raises_witness:
  "check_slice_semgrep (\<lambda>_. Stdout (dumps True (JObj [(''results'', JList [JObj [(''extra'', JStr ''x'')]])])))
     ''auto'' [''a.py''] None = Inl AttributeError"
  by (rule semgrep_wrong_shape_raises) simp

lemma semgrep_verdict_total:
  assumes "\<And>f. f \<in> set rs \<Longrightarrow> \<exists>b. blocking_finding f = Inr b"
  shows "\<exists>v. semgrep_verdict rs = Inr v \<and> (accepted v \<or> (\<exists>f \<in> set rs. blocking_finding f = Inr True))"
proof -
  have "py_map blocking_finding rs = Inr (map (\<lambda>f. blocking_finding f = Inr True) rs)"
    using assms by (intro py_map_total) (metis (full_types))
  then show ?thesis
    by (auto simp: semgrep_verdict_def Let_def comp_def filter_map filter_empty_conv)
qed

text \<open>
  Everywhere else the pillar is fail-open: when every finding has the documented shape, it
  returns a verdict, and the verdict is a rejection only if the process ran, printed an object
  and at least one finding has a blocking severity.
\<close>

theorem semgrep_fail_open:
  assumes "\<And>out d rs f. run_process (semgrep_command strategy files baseline) = Stdout out \<Longrightarrow>
      loads out = Some (JObj d) \<Longrightarrow> dget d ''results'' = JList rs \<Longrightarrow> f \<in> set rs \<Longrightarrow> finding_shape_ok f"
  shows "\<exists>v. check_slice_semgrep run_process strategy files baseline = Inr v \<and>
     (accepted v \<or> (\<exists>out d rs f. run_process (semgrep_command strategy files baseline) = Stdout out \<and>
        loads out = Some (JObj d) \<and> dget d ''results'' = JList rs \<and> f \<in> set rs \<and>
        blocking_finding f = Inr True))"
proof (cases "files = []")
  case False
  show ?thesis
  proof (cases "run_process (semgrep_command strategy files baseline)")
    case (Stdout out)
    have empty: "loads ''{}'' = Some (JObj [])" by code_simp
    show ?thesis
    proof (cases "loads (if out = [] then ''{}'' else out)")
      case (Some data)
      show ?thesis
      proof (cases data)
        case (JObj d)
        let ?rs = "case dget d ''results'' of JList rs \<Rightarrow> rs | _ \<Rightarrow> []"
        have src: "loads out = Some (JObj d) \<and> dget d ''results'' = JList ?rs" if "f \<in> set ?rs" for f
          using that Some JObj empty by (cases "out = []"; cases "dget d ''results''") auto
        have "\<exists>b. blocking_finding f = Inr b" if "f \<in> set ?rs" for f
          using blocking_finding_total assms [OF Stdout] src [OF that] that by blast
        then obtain v where v: "semgrep_verdict ?rs = Inr v"
          "accepted v \<or> (\<exists>f \<in> set ?rs. blocking_finding f = Inr True)"
          using semgrep_verdict_total [of ?rs] by blast
        then have "check_slice_semgrep run_process strategy files baseline = Inr v"
          using False Stdout Some JObj by (simp add: check_slice_semgrep_def)
        with v(2) Stdout src show ?thesis by blast
      qed (use False Stdout Some in \<open>simp_all add: check_slice_semgrep_def\<close>)
    qed (use False Stdout in \<open>simp add: check_slice_semgrep_def\<close>)
  qed (use False in \<open>simp_all add: check_slice_semgrep_def\<close>)
qed (simp add: check_slice_semgrep_def)

theorem semgrep_fail_open_witness:
  "\<exists>v. check_slice_semgrep (\<lambda>_. TimedOut) ''auto'' [''a.py''] None = Inr v \<and> accepted v"
  using semgrep_fail_open [of "\<lambda>_. TimedOut" "''auto''" "[''a.py'']" None] by simp

end
