(* ===== verification/Merge_Gate.thy ===== *)
theory Merge_Gate
  imports Evidence_Gate
begin

section \<open>The merge boundary\<close>

text \<open>
  \<open>tools/coverage_gate.py\<close> (the zero-evidence merge gate), \<open>tools/baseline_gate.py\<close> and
  \<open>tools/baseline_writer.py\<close> (the trusted baseline), \<open>tools/opa_input.py\<close> (the document the
  policy evaluates). A deny reason is a value that carries what its message interpolates. The
  document is the parsed JSON; reading it from a path is not modelled.
\<close>

subsection \<open>The zero-evidence gate\<close>

datatype deny_reason =
    NotAnObject json
  | NoItemsArray
  | ItemsNotArray json
  | ZeroInScope
  | StatusReason json json
  | EvidenceReason json "string list"
  | SessionsMissing json
  | SelfGrading json
  | WiringKind json json

record 'r decision =
  deny :: bool
  reasons :: "'r list"

definition EVIDENCE_FIELDS :: "string list" where
  "EVIDENCE_FIELDS = [''test_file'', ''test_name'', ''output_hash'', ''collected_at'']"

definition is_nonempty_str_field :: "dict \<Rightarrow> string \<Rightarrow> bool" where
  "is_nonempty_str_field evidence field = nonblank_str (dget evidence field)"

definition evidence_obj :: "dict \<Rightarrow> dict" where
  "evidence_obj item = (case dget item ''evidence'' of JObj ev \<Rightarrow> ev | _ \<Rightarrow> [])"

definition evidence_complete :: "dict \<Rightarrow> bool" where
  "evidence_complete item = (case dget item ''evidence'' of
     JObj ev \<Rightarrow> list_all (is_nonempty_str_field ev) EVIDENCE_FIELDS | _ \<Rightarrow> False)"

fun model_shape_denial :: "json \<Rightarrow> deny_reason decision option" where
  "model_shape_denial (JObj m) = (case dget m ''items'' of
     JNull \<Rightarrow> Some \<lparr>deny = True, reasons = [NoItemsArray]\<rparr>
   | JList _ \<Rightarrow> None
   | v \<Rightarrow> Some \<lparr>deny = True, reasons = [ItemsNotArray v]\<rparr>)"
| "model_shape_denial v = Some \<lparr>deny = True, reasons = [NotAnObject v]\<rparr>"

definition deny_reason_status :: "json \<Rightarrow> json \<Rightarrow> deny_reason option" where
  "deny_reason_status item_id st =
     (if st \<noteq> JStr ''proven'' then Some (StatusReason item_id st) else None)"

definition deny_reason_evidence :: "json \<Rightarrow> dict \<Rightarrow> deny_reason option" where
  "deny_reason_evidence item_id item =
     (if evidence_complete item then None
      else Some (EvidenceReason item_id
        (filter (\<lambda>f. \<not> is_nonempty_str_field (evidence_obj item) f) EVIDENCE_FIELDS)))"

definition deny_reasons_actor_sep :: "json \<Rightarrow> dict \<Rightarrow> deny_reason list" where
  "deny_reasons_actor_sep item_id ev =
     (let vs = norm_session (dget ev ''verifier_session_id'');
          im = norm_session (dget ev ''implementer_session_id'') in
      if vs = [] \<or> im = [] then [SessionsMissing item_id]
      else if vs = im then [SelfGrading item_id] else [])"

definition deny_reason_wiring_kind :: "json \<Rightarrow> dict \<Rightarrow> dict \<Rightarrow> deny_reason option" where
  "deny_reason_wiring_kind item_id item ev =
     (if dget item ''type'' \<noteq> JStr ''WIRING'' then None
      else if dget ev ''evidence_kind'' \<noteq> JStr ''integration''
      then Some (WiringKind item_id (dget ev ''evidence_kind'')) else None)"

definition opt_list :: "'a option \<Rightarrow> 'a list" where
  "opt_list x = (case x of None \<Rightarrow> [] | Some a \<Rightarrow> [a])"

text \<open>The body of the loop: a status reason skips the other rules.\<close>

definition item_reasons :: "dict \<Rightarrow> deny_reason list" where
  "item_reasons item =
     (let item_id = dget_or item ''id'' (JStr ''<no-id>''); ev = evidence_obj item in
      case deny_reason_status item_id (dget item ''status'') of
        Some r \<Rightarrow> [r]
      | None \<Rightarrow> opt_list (deny_reason_evidence item_id item) @ deny_reasons_actor_sep item_id ev @
          opt_list (deny_reason_wiring_kind item_id item ev))"

definition strictly_in_scope :: "dict \<Rightarrow> bool" where
  "strictly_in_scope d = (dget d ''in_scope'' = JBool True)"

fun dict_items :: "json list \<Rightarrow> dict list" where
  "dict_items [] = []"
| "dict_items (JObj d # xs) = d # dict_items xs"
| "dict_items (_ # xs) = dict_items xs"

definition deny_merge :: "json \<Rightarrow> deny_reason decision" where
  "deny_merge feature_list =
     (case model_shape_denial feature_list of
        Some r \<Rightarrow> r
      | None \<Rightarrow>
          (let items = (case feature_list of JObj m \<Rightarrow>
                 (case dget m ''items'' of JList xs \<Rightarrow> xs | _ \<Rightarrow> []) | _ \<Rightarrow> []);
               scoped = filter strictly_in_scope (dict_items items) in
           if scoped = [] then \<lparr>deny = True, reasons = [ZeroInScope]\<rparr>
           else (let rs = concat (map item_reasons (sort_key item_key scoped))
                 in \<lparr>deny = (rs \<noteq> []), reasons = rs\<rparr>)))"

subsection \<open>The trusted baseline\<close>

datatype baseline_reason =
    BaselineNotObject json
  | RequiredNotList json
  | PayloadMissing nat
  | RequiredNotInScope string
  | GateRaised py_exc

definition write_baseline :: "json list \<Rightarrow> json" where
  "write_baseline required =
     JObj [(''required_in_scope'', JList (map (\<lambda>x. JStr (py_str x)) required))]"

text \<open>First occurrence of an id wins; a later entry with the same id is ignored.\<close>

fun payload_scan :: "string list \<Rightarrow> string list \<Rightarrow> json list \<Rightarrow> string list py" where
  "payload_scan seen scoped [] = Inr scoped"
| "payload_scan seen scoped (i # is) =
     (case i of
        JObj d \<Rightarrow>
          (let iid = py_str (dget d ''id'') in
           if iid \<in> set seen then payload_scan seen scoped is
           else payload_scan (iid # seen)
             (if truthy (dget d ''in_scope'') then iid # scoped else scoped) is)
      | _ \<Rightarrow> Inl AttributeError)"

definition required_check :: "string list \<Rightarrow> json \<Rightarrow> baseline_reason decision" where
  "required_check required_set feature_list =
     (case feature_list of
        JObj m \<Rightarrow>
          (case py_bind (py_iter (dget_or m ''items'' (JList []))) (payload_scan [] []) of
             Inl e \<Rightarrow> \<lparr>deny = True, reasons = [GateRaised e]\<rparr>
           | Inr scoped \<Rightarrow>
               (let rs = map RequiredNotInScope (filter (\<lambda>r. r \<notin> set scoped) (sort required_set))
                in \<lparr>deny = (rs \<noteq> []), reasons = rs\<rparr>))
      | _ \<Rightarrow> \<lparr>deny = True, reasons = [PayloadMissing (length required_set)]\<rparr>)"

definition baseline_gate :: "json \<Rightarrow> json \<Rightarrow> baseline_reason decision" where
  "baseline_gate baseline feature_list =
     (case baseline of
        JNull \<Rightarrow> \<lparr>deny = False, reasons = []\<rparr>
      | JObj b \<Rightarrow>
          (case dget b ''required_in_scope'' of
             JNull \<Rightarrow> \<lparr>deny = False, reasons = []\<rparr>
           | JList required \<Rightarrow>
               (let required_set = remdups (map py_str required) in
                if required_set = [] then \<lparr>deny = False, reasons = []\<rparr>
                else required_check required_set feature_list)
           | v \<Rightarrow> \<lparr>deny = True, reasons = [RequiredNotList v]\<rparr>)
      | v \<Rightarrow> \<lparr>deny = True, reasons = [BaselineNotObject v]\<rparr>)"

subsection \<open>The policy's input document\<close>

record opa_input =
  unproven_in_scope :: "json list"
  missing_evidence :: "json list"

fun opa_scan :: "json list \<Rightarrow> opa_input py" where
  "opa_scan [] = Inr \<lparr>unproven_in_scope = [], missing_evidence = []\<rparr>"
| "opa_scan (i # is) =
     (case i of
        JObj d \<Rightarrow> py_bind (opa_scan is) (\<lambda>r. Inr
          (if \<not> truthy (dget d ''in_scope'') then r
           else if dget d ''status'' \<noteq> JStr ''proven''
           then r\<lparr>unproven_in_scope := dget d ''id'' # unproven_in_scope r\<rparr>
           else if \<not> truthy (dget d ''evidence'')
           then r\<lparr>missing_evidence := dget d ''id'' # missing_evidence r\<rparr> else r))
      | _ \<Rightarrow> Inl AttributeError)"

definition build_opa_input :: "json \<Rightarrow> opa_input py" where
  "build_opa_input model =
     py_bind (obj_get_or model ''items'' (JList [])) (\<lambda>its. py_bind (py_iter its) opa_scan)"

subsection \<open>What the merge gate accepts\<close>

definition merge_clean :: "dict \<Rightarrow> bool" where
  "merge_clean d = (dget d ''status'' = JStr ''proven'' \<and> evidence_complete d \<and>
     (let ev = evidence_obj d; vs = norm_session (dget ev ''verifier_session_id'');
          im = norm_session (dget ev ''implementer_session_id'')
      in vs \<noteq> [] \<and> im \<noteq> [] \<and> vs \<noteq> im \<and>
         (dget d ''type'' = JStr ''WIRING'' \<longrightarrow> dget ev ''evidence_kind'' = JStr ''integration'')))"

lemma opt_list_Nil [simp]: "opt_list x = [] \<longleftrightarrow> x = None"
  by (simp add: opt_list_def split: option.splits)

lemma item_reasons_Nil: "item_reasons d = [] \<longleftrightarrow> merge_clean d"
  by (auto simp: item_reasons_def merge_clean_def deny_reason_status_def deny_reason_evidence_def
      deny_reasons_actor_sep_def deny_reason_wiring_kind_def Let_def)

lemma dict_items_objs [simp]: "dict_items (map JObj ds) = ds"
  by (induction ds) simp_all

lemma deny_merge_items:
  assumes "dget m ''items'' = JList xs"
  shows "\<not> deny (deny_merge (JObj m)) \<longleftrightarrow>
    (let ds = filter strictly_in_scope (dict_items xs) in ds \<noteq> [] \<and> list_all merge_clean ds)"
  using assms by (auto simp: deny_merge_def Let_def item_reasons_Nil list_all_iff)

lemma allows_listed:
  assumes "lists_items model ds"
  shows "\<not> deny (deny_merge model) \<longleftrightarrow>
     (\<forall>d \<in> set ds. strictly_in_scope d \<longrightarrow> merge_clean d) \<and> (\<exists>d \<in> set ds. strictly_in_scope d)"
proof -
  from assms obtain m where "model = JObj m" "dget m ''items'' = JList (map JObj ds)"
    by (auto simp: lists_items_iff dget_def dget_or_def)
  then show ?thesis by (auto simp: deny_merge_items Let_def list_all_iff filter_empty_conv)
qed

lemmas deny_merge_of = allows_listed [OF lists_items_of]

interpretation zero_evidence: merge_gate
    "\<lambda>ds. \<forall>d \<in> set ds. strictly_in_scope d \<longrightarrow> merge_clean d"
    strictly_in_scope merge_clean "\<lambda>ds. \<not> deny (deny_merge (model_of ds))"
  by unfold_locales (simp_all add: deny_merge_of)

text \<open>
  C3. The merge gate, exactly: it allows a document if and only if the document is a dictionary
  whose \<open>items\<close> is a list, at least one of its dictionaries has \<open>in_scope\<close> true, and each of
  those is proven with four non-blank evidence fields, present and distinct normalised
  sessions, and integration evidence when it is a wiring item.
\<close>

theorem deny_merge_allows_iff:
  "\<not> deny (deny_merge doc) \<longleftrightarrow>
     (\<exists>m xs. doc = JObj m \<and> dget m ''items'' = JList xs \<and>
        filter strictly_in_scope (dict_items xs) \<noteq> [] \<and>
        list_all merge_clean (filter strictly_in_scope (dict_items xs)))"
proof (cases "\<exists>m xs. doc = JObj m \<and> dget m ''items'' = JList xs")
  case True
  then obtain m xs where "doc = JObj m" "dget m ''items'' = JList xs" by blast
  then show ?thesis using deny_merge_items [of m xs] by (auto simp: Let_def)
next
  case False
  then have "deny (deny_merge doc)"
    by (cases doc) (auto simp: deny_merge_def split: json.splits)
  with False show ?thesis by blast
qed

text \<open>
  One bad item is enough: adding any in-scope item that is not clean, anywhere in the
  list, to any model makes the gate deny, and the order of the items and the items out of
  scope never change the decision.
\<close>

theorem deny_merge_one_bad_item:
  assumes "strictly_in_scope d" "\<not> merge_clean d"
  shows "deny (deny_merge (model_of (xs @ d # ys)))"
  using zero_evidence.merge_blocked_by_one [of d "xs @ d # ys"] assms by simp

theorem deny_merge_one_bad_item_witness:
  "deny (deny_merge (model_of ([] @ [(''id'', JStr ''A''), (''in_scope'', JBool True),
     (''status'', JStr ''failed'')] # [])))"
  by (rule deny_merge_one_bad_item) (simp_all add: strictly_in_scope_def merge_clean_def)

theorem deny_merge_order_irrelevant:
  assumes "set xs = set ys"
  shows "deny (deny_merge (model_of xs)) = deny (deny_merge (model_of ys))"
  using zero_evidence.merge_order_irrelevant [OF assms] by simp

theorem deny_merge_order_irrelevant_witness:
  "deny (deny_merge (model_of [[(''in_scope'', JBool True)], []])) =
   deny (deny_merge (model_of [[], [(''in_scope'', JBool True)], []]))"
  by (rule deny_merge_order_irrelevant) auto

subsection \<open>Refinement: the gates agree where the data is well typed\<close>

definition boolean_scope :: "dict \<Rightarrow> bool" where
  "boolean_scope d = (dget d ''in_scope'' = JBool True \<or> \<not> truthy (dget d ''in_scope''))"

lemma boolean_scope_agree: "boolean_scope d \<Longrightarrow> item_in_scope d \<longleftrightarrow> strictly_in_scope d"
  by (auto simp: boolean_scope_def item_in_scope_def strictly_in_scope_def)

lemma opa_scan_objs:
  "opa_scan (map JObj ds) = Inr \<lparr>
     unproven_in_scope = map (\<lambda>d. dget d ''id'')
       (filter (\<lambda>d. item_in_scope d \<and> dget d ''status'' \<noteq> JStr ''proven'') ds),
     missing_evidence = map (\<lambda>d. dget d ''id'')
       (filter (\<lambda>d. item_in_scope d \<and> dget d ''status'' = JStr ''proven'' \<and>
          \<not> truthy (dget d ''evidence'')) ds)\<rparr>"
  by (induction ds) (simp_all add: item_in_scope_def)

lemma build_opa_input_of:
  "build_opa_input (model_of ds) = opa_scan (map JObj ds)"
  by (simp add: build_opa_input_def model_of_def)

lemma evidence_complete_truthy: "evidence_complete d \<Longrightarrow> truthy (dget d ''evidence'')"
  by (auto simp: evidence_complete_def EVIDENCE_FIELDS_def is_nonempty_str_field_def split: json.splits)

text \<open>
  The merge gate refines the completion query and the policy input: when \<open>in_scope\<close> is a
  boolean (or false-like) on every item, a model the merge gate allows is complete, and the
  policy document built from it lists no unproven item and none without evidence.
\<close>

theorem merge_allowed_is_complete:
  assumes "list_all boolean_scope ds" "\<not> deny (deny_merge (model_of ds))"
  shows "is_complete (model_of ds) = Inr True \<and>
    build_opa_input (model_of ds) = Inr \<lparr>unproven_in_scope = [], missing_evidence = []\<rparr>"
proof -
  have clean: "\<forall>d \<in> set ds. item_in_scope d \<longrightarrow> merge_clean d" and ne: "\<exists>d \<in> set ds. item_in_scope d"
    using assms boolean_scope_agree by (auto simp: deny_merge_of list_all_iff)
  then have "is_complete (model_of ds) = Inr True"
    by (auto simp: is_complete_True in_scope_model_of filter_empty_conv list_all_iff merge_clean_def)
  moreover have "build_opa_input (model_of ds) = Inr \<lparr>unproven_in_scope = [], missing_evidence = []\<rparr>"
    using clean evidence_complete_truthy
    by (auto simp: build_opa_input_of opa_scan_objs filter_empty_conv merge_clean_def)
  ultimately show ?thesis ..
qed

definition sample_item :: "string \<Rightarrow> json \<Rightarrow> dict" where
  "sample_item iid scope = [(''id'', JStr iid), (''in_scope'', scope), (''status'', JStr ''proven''),
     (''evidence'', JObj [(''test_file'', JStr ''t.py''), (''test_name'', JStr ''t''),
        (''output_hash'', JStr ''h''), (''collected_at'', JStr ''now''),
        (''verifier_session_id'', JStr ''v''), (''implementer_session_id'', JStr ''i'')])]"

lemma sample_item_clean: "merge_clean (sample_item iid scope)"
  by (simp add: merge_clean_def sample_item_def evidence_complete_def evidence_obj_def EVIDENCE_FIELDS_def
      is_nonempty_str_field_def strip_def is_space_def code_def isascii_def casefold_ascii_def lower_char_def)

lemma sample_item_scope: "dget (sample_item iid scope) ''in_scope'' = scope"
  "dget (sample_item iid scope) ''id'' = JStr iid"
  by (simp_all add: sample_item_def)

lemma sample_allowed: "\<not> deny (deny_merge (model_of [sample_item iid (JBool True)]))"
  by (simp add: deny_merge_of sample_item_clean strictly_in_scope_def sample_item_scope)

theorem merge_allowed_is_complete_witness:
  "is_complete (model_of [sample_item ''A'' (JBool True)]) = Inr True"
  using merge_allowed_is_complete [of "[sample_item ''A'' (JBool True)]"] sample_allowed
  by (simp add: boolean_scope_def sample_item_scope)

lemma evidenced_clean:
  assumes "item_evidenced l arts d"
    and "dget d ''type'' = JStr ''WIRING'' \<longrightarrow> dget (evidence_obj d) ''evidence_kind'' = JStr ''integration''"
  shows "merge_clean d"
proof -
  from assms(1) obtain ev where ev: "dget d ''evidence'' = JObj ev" "validate_evidence_record (JObj ev)"
    "separated ev l" and st: "dget d ''status'' = JStr ''proven''"
    by (auto simp: item_evidenced_def check_slice_accepts split: sum.splits)
  from ev(2) have "list_all (\<lambda>f. nonblank_str (dget ev f)) REQUIRED_FIELDS"
    by (auto simp: validate_evidence_record_def split: if_splits)
  with ev st assms(2) show ?thesis
    by (auto simp: merge_clean_def evidence_complete_def evidence_obj_def EVIDENCE_FIELDS_def
        REQUIRED_FIELDS_def is_nonempty_str_field_def separated_def Let_def)
qed

text \<open>
  C4. The evidence gate refines the merge gate: for a document that lists its items under \<open>items\<close>,
  with at least one item whose \<open>in_scope\<close> is \<open>True\<close>, and whose wiring items in scope all name
  integration evidence, which the evidence gate does not look at, acceptance by the evidence gate
  implies that the merge gate allows it.
\<close>

theorem evidence_gate_refines_merge_gate:
  assumes "m_accepted (check_model model l arts)" "lists_items model ds" "\<exists>d \<in> set ds. strictly_in_scope d"
    and "\<forall>d \<in> set ds. strictly_in_scope d \<and> dget d ''type'' = JStr ''WIRING'' \<longrightarrow>
      dget (evidence_obj d) ''evidence_kind'' = JStr ''integration''"
  shows "\<not> deny (deny_merge model)"
proof -
  have "item_evidenced l arts d" if "d \<in> set ds" "strictly_in_scope d" for d
    using that assms(1) by (auto simp: accepts_listed [OF assms(2)] item_in_scope_def strictly_in_scope_def)
  then have "\<forall>d \<in> set ds. strictly_in_scope d \<longrightarrow> merge_clean d"
    using evidenced_clean assms(4) by blast
  with assms(3) show ?thesis by (simp add: allows_listed [OF assms(2)])
qed

definition delivered_item :: dict where
  "delivered_item = [(''id'', JStr ''A''), (''in_scope'', JBool True), (''status'', JStr ''proven''),
     (''evidence'', JObj (deliver ''t.py'' ''t'' ''1 passed''
       \<lparr>u_year = 2026, u_month = 6, u_day = 22, u_hour = 9, u_minute = 5, u_second = 0, u_micro = 0\<rparr>
       ''v1'' ''i1''))]"

lemma delivered_item_evidenced:
  "item_evidenced (JObj [(''sessions'', JList [JStr ''v1'', JStr ''i1''])])
     [(JStr ''A'', JStr ''1 passed'')] delivered_item"
proof -
  have "accepted (check_slice (dget delivered_item ''evidence'') (JStr ''1 passed'')
      (JObj [(''sessions'', JList [JStr ''v1'', JStr ''i1''])]))"
    unfolding delivered_item_def dget_Cons
    using sample_delivery_accepted by simp
  then show ?thesis by (simp add: item_evidenced_def delivered_item_def artifact_of_def pget_def)
qed

text \<open>A feature list with its header and the delivered item.\<close>

definition delivered_list :: json where
  "delivered_list = JObj [(''schema_version'', JStr ''1.0.0''), (''product_class'', JStr ''control-plane''),
     (''checklist_ref'', JObj [(''path'', JStr ''c.md''), (''version'', JStr ''1''), (''sha'', JStr ''0'')]),
     (''items'', JList [JObj delivered_item])]"

lemma delivered_list_items: "lists_items delivered_list [delivered_item]"
  by (simp add: lists_items_def delivered_list_def)

lemma delivered_list_accepted:
  "m_accepted (check_model delivered_list (JObj [(''sessions'', JList [JStr ''v1'', JStr ''i1''])]) [(JStr ''A'', JStr ''1 passed'')])"
  using delivered_item_evidenced by (simp add: accepts_listed [OF delivered_list_items])

theorem evidence_gate_refines_merge_gate_witness: "\<not> deny (deny_merge delivered_list)"
  by (rule evidence_gate_refines_merge_gate [OF delivered_list_accepted delivered_list_items])
    (simp_all add: strictly_in_scope_def delivered_item_def)

subsection \<open>The baseline gate\<close>

text \<open>The entry that decides for an id: its first occurrence.\<close>

definition first_of :: "dict list \<Rightarrow> string \<Rightarrow> dict option" where
  "first_of ds r = find (\<lambda>d. py_str (dget d ''id'') = r) ds"

definition required_ok :: "dict list \<Rightarrow> string \<Rightarrow> bool" where
  "required_ok ds r = (case first_of ds r of None \<Rightarrow> False | Some d \<Rightarrow> item_in_scope d)"

lemma payload_scan_objs:
  "\<exists>res. payload_scan seen scoped (map JObj ds) = Inr res \<and>
     (\<forall>r. r \<in> set res \<longleftrightarrow> r \<in> set scoped \<or> (r \<notin> set seen \<and> required_ok ds r))"
proof (induction ds arbitrary: seen scoped)
  case Nil
  then show ?case by (simp add: required_ok_def first_of_def)
next
  case (Cons d ds)
  let ?i = "py_str (dget d ''id'')"
  show ?case
  proof (cases "?i \<in> set seen")
    case True
    with Cons [of seen scoped] show ?thesis
      by (auto simp: required_ok_def first_of_def)
  next
    case False
    with Cons [of "?i # seen" "if item_in_scope d then ?i # scoped else scoped"] show ?thesis
      by (fastforce simp: required_ok_def first_of_def item_in_scope_def split: if_splits)
  qed
qed

lemma required_check_of:
  assumes "lists_items model ds"
  shows "deny (required_check rs model) \<longleftrightarrow> (\<exists>r \<in> set rs. \<not> required_ok ds r)"
proof -
  from assms obtain m where "model = JObj m" "dget_or m ''items'' (JList []) = JList (map JObj ds)"
    by (auto simp: lists_items_iff dget_or_def)
  moreover obtain res where "payload_scan [] [] (map JObj ds) = Inr res" "\<forall>r. r \<in> set res \<longleftrightarrow> required_ok ds r"
    using payload_scan_objs [of "[]" "[]" ds] by auto
  ultimately show ?thesis by (auto simp: required_check_def Let_def filter_empty_conv)
qed

lemma baseline_denies_listed:
  assumes "lists_items model ds"
  shows "deny (baseline_gate (write_baseline required) model) \<longleftrightarrow>
     list_ex (\<lambda>r. \<not> required_ok ds (py_str r)) required"
proof (cases "required = []")
  case False
  let ?rs = "remdups (map py_str (map (\<lambda>x. JStr (py_str x)) required))"
  have "?rs \<noteq> []" using False by simp
  then have "deny (baseline_gate (write_baseline required) model) \<longleftrightarrow> deny (required_check ?rs model)"
    by (simp add: baseline_gate_def write_baseline_def Let_def)
  then show ?thesis by (auto simp: required_check_of [OF assms] list_ex_iff)
qed (simp add: baseline_gate_def write_baseline_def)

lemmas baseline_gate_denies = baseline_denies_listed [OF lists_items_of]

text \<open>
  The baseline gate, exactly: against a baseline the writer produced, a payload whose items
  are dictionaries is denied if and only if some required id has no item, or its first item is
  not in scope. A later duplicate with \<open>in_scope\<close> true never rescues it.
\<close>

theorem baseline_gate_denies_iff:
  "deny (baseline_gate (write_baseline required) (model_of ds)) \<longleftrightarrow>
     list_ex (\<lambda>r. \<not> required_ok ds (py_str r)) required"
  by (rule baseline_gate_denies)

text \<open>
  Omission fails closed: once a baseline requires at least one item, a payload that is not a
  dictionary (a deleted or malformed coverage model) is denied.
\<close>

theorem baseline_gate_omission_denied:
  assumes "required \<noteq> []" "\<not> is_dict payload"
  shows "deny (baseline_gate (write_baseline required) payload)"
  using assms by (cases payload)
    (auto simp: baseline_gate_def write_baseline_def required_check_def Let_def)

theorem baseline_gate_omission_denied_witness:
  "deny (baseline_gate (write_baseline [JStr ''REQ-A-001'']) JNull)"
  by (rule baseline_gate_omission_denied) simp_all

text \<open>
  C5. The two trusted gates compose: when a payload lists its items under \<open>items\<close> and \<open>in_scope\<close> is
  a boolean on every item, as the schema has it, and the payload passes both the baseline gate and the
  merge gate, then every required id has a first item that is in scope and clean.
\<close>

theorem required_items_are_clean:
  assumes "lists_items payload ds" "list_all boolean_scope ds"
    and "\<not> deny (baseline_gate (write_baseline required) payload)"
    and "\<not> deny (deny_merge payload)" and "r \<in> set required"
  shows "\<exists>d. first_of ds (py_str r) = Some d \<and> strictly_in_scope d \<and> merge_clean d"
proof -
  have "required_ok ds (py_str r)"
    using assms(3,5) by (auto simp: baseline_denies_listed [OF assms(1)] list_ex_iff)
  then obtain d where d: "first_of ds (py_str r) = Some d" "item_in_scope d"
    by (auto simp: required_ok_def split: option.splits)
  then have "d \<in> set ds" by (auto simp: first_of_def find_Some_iff)
  with assms(2,4) d boolean_scope_agree show ?thesis by (auto simp: allows_listed [OF assms(1)] list_all_iff)
qed

lemma delivered_list_gates:
  "\<not> deny (baseline_gate (write_baseline [JStr ''A'']) delivered_list)" "\<not> deny (deny_merge delivered_list)"
proof -
  show "\<not> deny (baseline_gate (write_baseline [JStr ''A'']) delivered_list)"
    by (simp add: baseline_denies_listed [OF delivered_list_items] required_ok_def first_of_def item_in_scope_def delivered_item_def)
  have "merge_clean delivered_item"
    by (rule evidenced_clean [OF delivered_item_evidenced]) (simp add: delivered_item_def)
  then show "\<not> deny (deny_merge delivered_list)"
    by (simp add: allows_listed [OF delivered_list_items] strictly_in_scope_def delivered_item_def)
qed

theorem required_items_are_clean_witness:
  "\<exists>d. first_of [delivered_item] ''A'' = Some d \<and> strictly_in_scope d \<and> merge_clean d"
  using required_items_are_clean [OF delivered_list_items _ delivered_list_gates, of "JStr ''A''"]
  by (simp add: boolean_scope_def delivered_item_def)

text \<open>
  Without that typing the two gates leave a gap: they read \<open>in_scope\<close> differently (any true
  value against exactly \<open>True\<close>). Given any payload the merge gate allows, putting a required
  item with \<open>in_scope\<close> set to the number 1 in front satisfies the baseline gate and is skipped
  by the merge gate, whatever its status or evidence.
\<close>

theorem in_scope_number_escapes_audit:
  assumes "\<not> deny (deny_merge (model_of ds))" "dget d ''in_scope'' = JInt 1"
  shows "\<not> deny (baseline_gate (write_baseline [JStr (py_str (dget d ''id''))]) (model_of (d # ds))) \<and>
    \<not> deny (deny_merge (model_of (d # ds)))"
proof
  show "\<not> deny (baseline_gate (write_baseline [JStr (py_str (dget d ''id''))]) (model_of (d # ds)))"
    using assms(2) by (simp add: baseline_gate_denies_iff required_ok_def first_of_def item_in_scope_def)
  have "\<not> strictly_in_scope d" using assms(2) by (simp add: strictly_in_scope_def)
  then show "\<not> deny (deny_merge (model_of (d # ds)))"
    using zero_evidence.merge_out_of_scope_ignored [of d "[]" ds] assms(1) by simp
qed

theorem in_scope_number_escapes_audit_witness:
  "\<not> deny (deny_merge (model_of [[(''id'', JStr ''B''), (''in_scope'', JInt 1), (''status'', JStr ''failed'')],
     sample_item ''A'' (JBool True)]))"
  using in_scope_number_escapes_audit [OF sample_allowed [of "''A''"],
      of "[(''id'', JStr ''B''), (''in_scope'', JInt 1), (''status'', JStr ''failed'')]"]
  by simp

end
