(* ===== verification/Req_Scan.thy ===== *)
theory Req_Scan
  imports Prelude
begin

section \<open>Requirement identifiers in text\<close>

text \<open>
  \<open>tools/req_id_scan.py\<close>: \<open>re.findall\<close> of the pattern of a requirement identifier between
  word boundaries, written as the left-to-right scan it performs, and the specification it
  meets: the identifiers found are exactly the ones that occur in the text with no word
  character on either side.
\<close>

subsection \<open>The pattern\<close>

definition is_upper :: "char \<Rightarrow> bool" where
  "is_upper c = (65 \<le> code c \<and> code c \<le> 90)"

definition ascii_digit :: "char \<Rightarrow> bool" where
  "ascii_digit c = (48 \<le> code c \<and> code c \<le> 57)"

text \<open>The class \<open>w\<close> of the pattern language on the first 256 code points.\<close>

definition word_char :: "char \<Rightarrow> bool" where
  "word_char c = (let n = code c in
     (48 \<le> n \<and> n \<le> 57) \<or> (65 \<le> n \<and> n \<le> 90) \<or> n = 95 \<or> (97 \<le> n \<and> n \<le> 122) \<or>
     n \<in> {170, 178, 179, 181, 185, 186, 188, 189, 190} \<or> (192 \<le> n \<and> n \<noteq> 215 \<and> n \<noteq> 247))"

definition boundary :: "string \<Rightarrow> bool" where
  "boundary post = (case post of [] \<Rightarrow> True | c # _ \<Rightarrow> \<not> word_char c)"

text \<open>A match at the start of a text, with what follows it. Both runs of capitals are maximal,
  as the character after them has to be a hyphen.\<close>

definition match_req :: "string \<Rightarrow> (string \<times> string) option" where
  "match_req s =
     (let u = takeWhile is_upper s in
      case dropWhile is_upper s of
        CHR ''-'' # r \<Rightarrow>
          (let v = takeWhile is_upper r in
           case dropWhile is_upper r of
             CHR ''-'' # a # b # c # post \<Rightarrow>
               if u \<noteq> [] \<and> v \<noteq> [] \<and> list_all ascii_digit [a, b, c] \<and> boundary post
               then Some (u @ CHR ''-'' # v @ [CHR ''-'', a, b, c], post) else None
           | _ \<Rightarrow> None)
      | _ \<Rightarrow> None)"

text \<open>\<open>REQ_ID_RE.fullmatch\<close>\<close>

definition is_req_id :: "string \<Rightarrow> bool" where
  "is_req_id s = (case match_req s of Some (m, post) \<Rightarrow> post = [] | None \<Rightarrow> False)"

definition id_form :: "string \<Rightarrow> bool" where
  "id_form m = (\<exists>u v a b c. m = u @ CHR ''-'' # v @ [CHR ''-'', a, b, c] \<and> u \<noteq> [] \<and> v \<noteq> [] \<and>
     list_all is_upper u \<and> list_all is_upper v \<and> list_all ascii_digit [a, b, c])"

lemma match_req_Some_iff:
  "match_req s = Some (m, post) \<longleftrightarrow> s = m @ post \<and> id_form m \<and> boundary post"
proof
  assume m: "match_req s = Some (m, post)"
  let ?u = "takeWhile is_upper s"
  from m obtain r where r: "dropWhile is_upper s = CHR ''-'' # r"
    by (auto simp: match_req_def Let_def split: list.splits char.splits bool.splits)
  let ?v = "takeWhile is_upper r"
  from m r obtain a b c where r2: "dropWhile is_upper r = CHR ''-'' # a # b # c # post"
    by (auto simp: match_req_def Let_def split: list.splits char.splits bool.splits if_splits)
  have "s = ?u @ dropWhile is_upper s" "r = ?v @ dropWhile is_upper r" by simp_all
  then have "s = ?u @ CHR ''-'' # ?v @ CHR ''-'' # a # b # c # post" using r r2 by metis
  moreover have "?u \<noteq> []" "?v \<noteq> []" "list_all ascii_digit [a, b, c]" "boundary post"
    and meq: "m = ?u @ CHR ''-'' # ?v @ [CHR ''-'', a, b, c]"
    using m by (auto simp: match_req_def r r2 Let_def split: if_splits)
  moreover have "list_all is_upper ?u" "list_all is_upper ?v"
    by (auto simp: list_all_iff dest: set_takeWhileD)
  ultimately have "id_form m" and "s = m @ post"
    unfolding id_form_def by (blast, simp)
  with \<open>boundary post\<close> show "s = m @ post \<and> id_form m \<and> boundary post" by blast
next
  assume r: "s = m @ post \<and> id_form m \<and> boundary post"
  then obtain u v a b c where
    m: "m = u @ CHR ''-'' # v @ [CHR ''-'', a, b, c]" and "u \<noteq> []" "v \<noteq> []"
    "list_all is_upper u" "list_all is_upper v" "list_all ascii_digit [a, b, c]"
    by (auto simp: id_form_def)
  moreover have "\<not> is_upper CHR ''-''" by (simp add: is_upper_def code_def)
  ultimately show "match_req s = Some (m, post)"
    using r by (simp add: match_req_def takeWhile_append2 dropWhile_append2 list_all_iff)
qed

lemma is_req_id_form: "is_req_id m \<longleftrightarrow> id_form m"
  by (cases "match_req m") (use match_req_Some_iff [of m m "[]"] in
    \<open>auto simp: is_req_id_def match_req_Some_iff boundary_def\<close>)

lemma match_req_length: "match_req s = Some (m, post) \<Longrightarrow> length post < length s"
  by (auto simp: match_req_Some_iff id_form_def)

lemma is_req_id_match: "is_req_id m \<Longrightarrow> boundary post \<Longrightarrow> match_req (m @ post) = Some (m, post)"
  by (simp add: is_req_id_form match_req_Some_iff)

lemma match_req_is_req_id: "match_req s = Some (m, post) \<Longrightarrow> is_req_id m"
  by (simp add: is_req_id_form match_req_Some_iff)

subsection \<open>The scan\<close>

text \<open>The flag says whether the character before the position is a word character.\<close>

function find_req_ids :: "bool \<Rightarrow> string \<Rightarrow> string list" where
  "find_req_ids before [] = []"
| "find_req_ids before (c # cs) =
     (case (if before then None else match_req (c # cs)) of
        Some (m, post) \<Rightarrow> m # find_req_ids True post
      | None \<Rightarrow> find_req_ids (word_char c) cs)"
  by pat_completeness auto
termination
  by (relation "measure (length \<circ> snd)") (auto split: if_splits dest: match_req_length)

definition first_seen :: "'a list \<Rightarrow> 'a list" where
  "first_seen xs = rev (remdups (rev xs))"

definition scan_req_ids :: "string \<Rightarrow> string list" where
  "scan_req_ids text = first_seen (find_req_ids False text)"

lemma first_seen_simps [simp]: "set (first_seen xs) = set xs" "distinct (first_seen xs)"
  "first_seen [] = []" "first_seen xs = [] \<longleftrightarrow> xs = []"
  by (simp_all add: first_seen_def)

subsection \<open>What the scan finds\<close>

definition ends_word :: "bool \<Rightarrow> string \<Rightarrow> bool" where
  "ends_word before pre = (if pre = [] then before else word_char (last pre))"

definition occurs :: "bool \<Rightarrow> string \<Rightarrow> string \<Rightarrow> bool" where
  "occurs before text i = (\<exists>pre post. text = pre @ i @ post \<and> is_req_id i \<and>
     \<not> ends_word before pre \<and> boundary post)"

lemma is_req_id_Cons: "is_req_id i \<Longrightarrow> i \<noteq> []"
  by (auto simp: is_req_id_form id_form_def)

lemma occurs_later:
  assumes "occurs (word_char c) cs i"
  shows "occurs before (c # cs) i"
proof -
  from assms obtain pre post where "cs = pre @ i @ post" "is_req_id i" "boundary post"
    "\<not> ends_word (word_char c) pre" by (auto simp: occurs_def)
  then show ?thesis
    unfolding occurs_def
    by (intro exI [of _ "c # pre"] exI [of _ post]) (auto simp: ends_word_def split: if_splits)
qed

lemma occurs_Cons:
  "occurs before (c # cs) i \<longleftrightarrow>
     (\<not> before \<and> (\<exists>post. match_req (c # cs) = Some (i, post))) \<or> occurs (word_char c) cs i"
proof
  assume "occurs before (c # cs) i"
  then obtain pre post where o: "c # cs = pre @ i @ post" "is_req_id i" "\<not> ends_word before pre"
    "boundary post" by (auto simp: occurs_def)
  show "(\<not> before \<and> (\<exists>post. match_req (c # cs) = Some (i, post))) \<or> occurs (word_char c) cs i"
  proof (cases pre)
    case Nil
    with o show ?thesis by (auto simp: ends_word_def dest: is_req_id_match)
  next
    case (Cons c' pre')
    with o have "cs = pre' @ i @ post" "\<not> ends_word (word_char c) pre'"
      by (auto simp: ends_word_def split: if_splits)
    with o show ?thesis by (auto simp: occurs_def)
  qed
next
  assume "(\<not> before \<and> (\<exists>post. match_req (c # cs) = Some (i, post))) \<or> occurs (word_char c) cs i"
  then show "occurs before (c # cs) i"
  proof
    assume "\<not> before \<and> (\<exists>post. match_req (c # cs) = Some (i, post))"
    then obtain post where "\<not> before" and m: "match_req (c # cs) = Some (i, post)" by blast
    from m have "c # cs = i @ post" "boundary post"
      by (auto simp: match_req_Some_iff)
    with \<open>\<not> before\<close> match_req_is_req_id [OF m] show ?thesis
      by (auto simp: occurs_def ends_word_def intro!: exI [of _ "[]"])
  qed (rule occurs_later)
qed

lemma occurs_skip_word:
  "list_all word_char w \<Longrightarrow> occurs True (w @ t) i = occurs True t i"
  by (induction w) (simp_all add: occurs_Cons)

lemma upper_word: "list_all is_upper u \<Longrightarrow> list_all word_char u"
  by (auto simp: list_all_iff is_upper_def word_char_def Let_def)

lemma digit_word: "ascii_digit c \<Longrightarrow> word_char c"
  by (auto simp: ascii_digit_def word_char_def Let_def)

lemma not_word_hyphen: "\<not> word_char CHR ''-''"
  by (simp add: word_char_def code_def)

lemma match_req_digit: "ascii_digit a \<Longrightarrow> match_req (a # cs) = None"
  by (auto simp: match_req_def ascii_digit_def is_upper_def code_def Let_def
      split: list.splits char.splits bool.splits)

lemma match_req_run_digit:
  assumes "list_all is_upper v" "ascii_digit a"
  shows "match_req (v @ CHR ''-'' # a # cs) = None"
proof -
  have "\<not> is_upper CHR ''-''" "\<not> is_upper a"
    using assms(2) by (auto simp: is_upper_def ascii_digit_def code_def)
  with assms(1) show ?thesis
    by (auto simp: match_req_def takeWhile_append2 dropWhile_append2 list_all_iff Let_def
        split: list.splits char.splits bool.splits)
qed

lemma occurs_after_match:
  assumes "match_req s = Some (m, post)"
  shows "occurs False s i \<longleftrightarrow> i = m \<or> occurs True post i"
proof -
  from assms obtain u v a b c where s: "s = u @ CHR ''-'' # v @ CHR ''-'' # a # b # c # post"
    and u: "u \<noteq> []" "list_all is_upper u" and v: "v \<noteq> []" "list_all is_upper v"
    and d: "ascii_digit a" "ascii_digit b" "ascii_digit c"
    by (auto simp: match_req_Some_iff id_form_def)
  obtain x u' where [simp]: "u = x # u'" using u(1) by (cases u) auto
  obtain y v' where [simp]: "v = y # v'" using v(1) by (cases v) auto
  have w: "word_char x" "list_all word_char u'" "word_char y" "list_all word_char v'"
    using upper_word [OF u(2)] upper_word [OF v(2)] by simp_all
  have "occurs False s i \<longleftrightarrow> (\<exists>post'. match_req s = Some (i, post')) \<or>
      occurs True (u' @ CHR ''-'' # v @ CHR ''-'' # a # b # c # post) i"
    unfolding s using w(1) by (simp add: occurs_Cons [of False])
  also have "occurs True (u' @ CHR ''-'' # v @ CHR ''-'' # a # b # c # post) i \<longleftrightarrow>
      occurs False (v @ CHR ''-'' # a # b # c # post) i"
    using w(2) not_word_hyphen by (simp add: occurs_skip_word occurs_Cons [of True])
  also have "\<dots> \<longleftrightarrow> occurs True (v' @ CHR ''-'' # a # b # c # post) i"
    using match_req_run_digit [OF v(2) d(1), of "b # c # post"] w(3)
    by (simp add: occurs_Cons [of False])
  also have "\<dots> \<longleftrightarrow> occurs False (a # b # c # post) i"
    using w(4) not_word_hyphen by (simp add: occurs_skip_word occurs_Cons [of True])
  also have "\<dots> \<longleftrightarrow> occurs True post i"
    using d by (simp add: occurs_Cons match_req_digit digit_word)
  finally show ?thesis using assms by auto
qed

lemma find_req_ids_occurs: "set (find_req_ids before text) = {i. occurs before text i}"
proof (induction before "text" rule: find_req_ids.induct)
  case (1 before)
  then show ?case by (auto simp: occurs_def dest: is_req_id_Cons)
next
  case (2 before c cs)
  show ?case
  proof (cases "if before then None else match_req (c # cs)")
    case None
    with 2(1) show ?thesis by (auto simp: occurs_Cons [of before] split: if_splits)
  next
    case (Some p)
    obtain m post where [simp]: "p = (m, post)" by force
    from Some have "\<not> before" "match_req (c # cs) = Some (m, post)" by (auto split: if_splits)
    with 2(2) [OF Some] show ?thesis
      using occurs_after_match [of "c # cs" m post] by auto
  qed
qed

lemma scan_req_ids_occurs: "set (scan_req_ids text) = {i. occurs False text i}"
  by (simp add: scan_req_ids_def find_req_ids_occurs)

lemma scan_req_ids_valid: "i \<in> set (scan_req_ids text) \<Longrightarrow> is_req_id i"
  by (auto simp: scan_req_ids_occurs occurs_def)

subsection \<open>Property\<close>

text \<open>
  The scan is exact: it lists, without duplicates, precisely the identifiers that occur in the
  text preceded and followed by the end of the text or a character that is not a word
  character. An identifier is never hidden behind an overlapping one.
\<close>

theorem scan_req_ids_exact:
  "distinct (scan_req_ids text) \<and>
   set (scan_req_ids text) = {i. is_req_id i \<and> (\<exists>pre post. text = pre @ i @ post \<and>
     \<not> ends_word False pre \<and> boundary post)}"
proof -
  have "distinct (scan_req_ids text)" by (simp add: scan_req_ids_def)
  then show ?thesis by (auto simp: scan_req_ids_occurs occurs_def)
qed

end
