(* ===== verification/Orphans.thy ===== *)
theory Orphans
  imports Req_Scan Roles Json_Codec
begin

section \<open>The orphan detector\<close>

text \<open>
  \<open>tools/orphan_detector.py\<close>: the in-memory core (forward and backward passes), the
  diff-aware layer, and what its command line does with a repository. An implementation unit
  and a requirement are dictionaries. Outside the repository's code stand the
  \<open>git\<close> process (\<open>git args\<close> is its standard output when it exits with 0), the directory walk
  (the list of files it yields) and \<open>re.match\<close> of the configured allowlist pattern, which is an
  arbitrary regular expression: \<open>rematch pattern path\<close> is \<open>None\<close> when the pattern does not
  compile.
\<close>

subsection \<open>Implementation units\<close>

definition impl_unit_ref :: "dict \<Rightarrow> string" where
  "impl_unit_ref u =
     (let explicit = py_or (dget u ''ref'') (dget u ''unit'');
          file = py_or (dget u ''file'') (dget u ''path'');
          func = py_or (py_or (dget u ''function'') (dget u ''name'')) (dget u ''symbol'')
      in if truthy explicit then py_str explicit
         else if truthy file \<and> truthy func then py_str file @ ''::'' @ py_str func
         else py_str (py_or (py_or file func) (JStr ''<unknown-unit>'')))"

text \<open>\<open>ORPHAN_EXEMPT_PATTERN.search\<close>: a hash sign, the marker, a colon and a reason.\<close>

definition exempt_marker :: string where
  "exempt_marker = ''orphan-exempt:''"

fun exempt_search :: "string \<Rightarrow> bool" where
  "exempt_search [] = False"
| "exempt_search (c # cs) =
     ((c = CHR ''#'' \<and> (let r = dropWhile is_space cs in
        startswith r exempt_marker \<and> dropWhile is_space (drop (length exempt_marker) r) \<noteq> []))
      \<or> exempt_search cs)"

definition impl_unit_is_exempt :: "dict \<Rightarrow> bool py" where
  "impl_unit_is_exempt u =
     (if dget u ''exempt'' = JBool True \<or> dget u ''orphan_exempt'' = JBool True then Inr True
      else if truthy (py_or (dget u ''exempt_reason'') (dget u ''orphan_exempt_reason'')) then Inr True
      else case py_or (py_or (dget u ''text'') (dget u ''source'')) (JStr []) of
        JStr t \<Rightarrow> Inr (exempt_search t)
      | _ \<Rightarrow> Inl TypeError)"

definition id_field :: "dict \<Rightarrow> string \<Rightarrow> string list" where
  "id_field u key = (case dget u key of
     JList vs \<Rightarrow> map py_str vs
   | JStr s \<Rightarrow> if s = [] then [] else [s]
   | _ \<Rightarrow> [])"

definition text_ids :: "dict \<Rightarrow> string list py" where
  "text_ids u = (let t = py_or (dget u ''text'') (dget u ''source'') in
     if truthy t then (case t of JStr s \<Rightarrow> Inr (scan_req_ids s) | _ \<Rightarrow> Inl TypeError) else Inr [])"

definition impl_unit_req_ids :: "dict \<Rightarrow> string list py" where
  "impl_unit_req_ids u =
     (let single = dget u ''requirement_id'';
          ids = (if truthy single then [py_str single] else []) @
            id_field u ''requirement_ids'' @ id_field u ''requirements'' @ id_field u ''req_ids''
      in py_bind (text_ids u) (\<lambda>ts. Inr (first_seen (filter is_req_id (ids @ ts)))))"

subsection \<open>Requirements\<close>

definition requirement_id :: "dict \<Rightarrow> string option" where
  "requirement_id r = (let rid = py_or (dget r ''id'') (dget r ''requirement_id'') in
     if truthy rid then Some (py_str rid) else None)"

fun link_proves :: "json \<Rightarrow> bool" where
  "link_proves (JObj l) =
     (casefold_ascii (py_str (dget_or l ''link_type'' (JStr []))) \<in> {''test'', ''evidence''})"
| "link_proves v = (casefold_ascii (py_str v) \<in> {''test'', ''evidence''})"

definition requirement_has_artifact :: "dict \<Rightarrow> string list \<Rightarrow> bool py" where
  "requirement_has_artifact r referenced =
     (if (case requirement_id r of Some i \<Rightarrow> i \<in> set referenced | None \<Rightarrow> False) then Inr True
      else if truthy (dget r ''has_artifact'') \<or> truthy (dget r ''verified'') then Inr True
      else if (is_dict (dget r ''evidence'') \<or> is_list (dget r ''evidence'')) \<and> truthy (dget r ''evidence'')
      then Inr True
      else py_bind (py_iter (py_or (dget_or r ''traceability_links'' (JList [])) (JList []))) (\<lambda>links.
        Inr (list_ex link_proves links \<or> truthy (dget r ''evidence_records''))))"

subsection \<open>The two passes\<close>

definition wire_id :: "string \<Rightarrow> bool" where
  "wire_id i = startswith i ''REQ-WIRE''"

definition is_dangling :: "json list \<Rightarrow> string \<Rightarrow> bool" where
  "is_dangling known i = (known \<noteq> [] \<and> \<not> wire_id i \<and> JStr i \<notin> set known)"

definition dangling_text :: "dict \<Rightarrow> string \<Rightarrow> string" where
  "dangling_text u i = impl_unit_ref u @ '' [dangling-ref: '' @ i @ '' not in model]''"

definition forward_unit :: "json list \<Rightarrow> dict \<Rightarrow> (string list \<times> string list) py" where
  "forward_unit known u =
     py_bind (impl_unit_req_ids u) (\<lambda>ids.
       let dangling = map (dangling_text u) (filter (is_dangling known) ids) in
       if ids \<noteq> [] then Inr (dangling, ids)
       else py_bind (impl_unit_is_exempt u) (\<lambda>e.
         Inr (dangling @ (if e then [] else [impl_unit_ref u]), ids)))"

definition forward_pass :: "dict list \<Rightarrow> json list \<Rightarrow> (string list \<times> string list) py" where
  "forward_pass units known = py_bind (py_map (forward_unit known) units)
     (\<lambda>rs. Inr (concat (map fst rs), concat (map snd rs)))"

fun backward_unit :: "string list \<Rightarrow> json \<Rightarrow> string list py" where
  "backward_unit referenced (JObj r) = (case requirement_id r of
     None \<Rightarrow> Inr []
   | Some i \<Rightarrow> py_bind (requirement_has_artifact r referenced) (\<lambda>b. Inr (if b then [] else [i])))"
| "backward_unit referenced _ = Inl AttributeError"

definition backward_pass :: "json list \<Rightarrow> string list \<Rightarrow> string list py" where
  "backward_pass reqs referenced = py_bind (py_map (backward_unit referenced) reqs) (\<lambda>rs. Inr (concat rs))"

record orphan_report =
  forward_orphans :: "string list"
  backward_orphans :: "string list"
  report_ok :: bool
  report_error :: "string option"
  fallback_reason :: "string option"
  dangling_refs :: "(string \<times> string \<times> string) list"

definition detect_orphans :: "dict list \<Rightarrow> json list \<Rightarrow> json list \<Rightarrow> orphan_report py" where
  "detect_orphans units reqs known =
     py_bind (forward_pass units known) (\<lambda>(fwd, referenced).
       py_bind (backward_pass reqs referenced) (\<lambda>bwd.
         Inr \<lparr>forward_orphans = fwd, backward_orphans = bwd, report_ok = (fwd = [] \<and> bwd = []),
              report_error = None, fallback_reason = None, dangling_refs = []\<rparr>))"

subsection \<open>Queries to \<open>git\<close>\<close>

definition ref_char :: "char \<Rightarrow> bool" where
  "ref_char c = (is_upper c \<or> ascii_digit c \<or> (97 \<le> code c \<and> code c \<le> 122))"

definition git_ref_ok :: "string \<Rightarrow> bool" where
  "git_ref_ok r = (case r of [] \<Rightarrow> False
     | c # cs \<Rightarrow> ref_char c \<and> length cs \<le> 254 \<and> list_all (\<lambda>d. ref_char d \<or> d \<in> set ''._/-'') cs)"

type_synonym git_process = "string list \<Rightarrow> string option"

definition get_merged_base :: "git_process \<Rightarrow> string \<Rightarrow> string option" where
  "get_merged_base git ref = (if \<not> git_ref_ok ref then None
     else map_option strip (git [''merge-base'', ref, ''HEAD'']))"

definition get_changed_files :: "git_process \<Rightarrow> string \<Rightarrow> string list" where
  "get_changed_files git ref = (if \<not> git_ref_ok ref then []
     else case git [''diff'', ''--name-only'', ref, ''HEAD''] of
       Some out \<Rightarrow> filter (\<lambda>l. l \<noteq> []) (map strip (split_on line_break out))
     | None \<Rightarrow> [])"

definition load_feature_list_from_commit :: "git_process \<Rightarrow> string \<Rightarrow> json" where
  "load_feature_list_from_commit git ref = (if \<not> git_ref_ok ref then JObj []
     else case git [''show'', ref @ '':feature_list.json''] of
       Some out \<Rightarrow> (case loads out of Some doc \<Rightarrow> doc | None \<Rightarrow> JObj [])
     | None \<Rightarrow> JObj [])"

subsection \<open>The diff-aware layer\<close>

definition is_path_exempt :: "(string \<Rightarrow> string \<Rightarrow> bool option) \<Rightarrow> string \<Rightarrow> string \<Rightarrow> bool" where
  "is_path_exempt rematch path pattern =
     (if pattern = [] then False else case rematch pattern path of Some b \<Rightarrow> b | None \<Rightarrow> False)"

text \<open>Whether a unit stays in a diff: its file is one of the changed ones and not exempt.\<close>

definition unit_changed ::
    "(string \<Rightarrow> string \<Rightarrow> bool option) \<Rightarrow> string list \<Rightarrow> string \<Rightarrow> dict \<Rightarrow> bool py" where
  "unit_changed rematch changed pattern u =
     (let f = py_or (dget u ''file'') (dget u ''path'') in
      if \<not> truthy f then Inr False
      else if \<not> hashable f then Inl TypeError
      else case f of
        JStr p \<Rightarrow> Inr (p \<in> set changed \<and> \<not> is_path_exempt rematch p pattern)
      | _ \<Rightarrow> Inr False)"

fun py_filter :: "('a \<Rightarrow> 'e + bool) \<Rightarrow> 'a list \<Rightarrow> 'e + 'a list" where
  "py_filter f [] = Inr []"
| "py_filter f (x # xs) = py_bind (f x) (\<lambda>b. py_bind (py_filter f xs) (\<lambda>ys.
     Inr (if b then x # ys else ys)))"

definition filter_forward_units_by_changed ::
    "(string \<Rightarrow> string \<Rightarrow> bool option) \<Rightarrow> dict list \<Rightarrow> string list option \<Rightarrow> string \<Rightarrow> dict list py" where
  "filter_forward_units_by_changed rematch units changed pattern =
     (case changed of None \<Rightarrow> Inr units
      | Some c \<Rightarrow> py_filter (unit_changed rematch c pattern) units)"

definition SEMANTIC :: "string list" where
  "SEMANTIC = [''id'', ''type'', ''nfr_subtype'', ''status'', ''in_scope'', ''evidence'',
     ''priority'', ''dependencies'', ''acceptance_criteria'']"

definition semantic_proj :: "dict \<Rightarrow> json" where
  "semantic_proj i = JObj (map (\<lambda>k. (k, dget i k)) SEMANTIC)"

text \<open>The items with an id, keyed by it, in the order of the model's \<open>items\<close>.\<close>

fun keyed_item :: "json \<Rightarrow> (json \<times> dict) list py" where
  "keyed_item (JObj d) =
     (if \<not> truthy (dget d ''id'') then Inr []
      else if hashable (dget d ''id'') then Inr [(dget d ''id'', d)] else Inl TypeError)"
| "keyed_item _ = Inl AttributeError"

definition keyed_items :: "json \<Rightarrow> (json \<times> dict) list py" where
  "keyed_items model = py_bind (obj_get_or model ''items'' (JList [])) (\<lambda>its.
     py_bind (py_iter its) (\<lambda>xs. py_bind (py_map keyed_item xs) (\<lambda>kss. Inr (concat kss))))"

text \<open>The baseline maps an id to the projection of its last item.\<close>

definition item_changed :: "(json \<times> dict) list \<Rightarrow> json \<times> dict \<Rightarrow> bool" where
  "item_changed baseline = (\<lambda>(i, d). case find (\<lambda>(j, b). py_eq i j) (rev baseline) of
     None \<Rightarrow> True | Some (j, b) \<Rightarrow> \<not> py_eq (semantic_proj b) (semantic_proj d))"

definition get_model_delta_ids :: "json \<Rightarrow> json \<Rightarrow> json list py" where
  "get_model_delta_ids baseline working =
     py_bind (keyed_items baseline) (\<lambda>kb. py_bind (keyed_items working) (\<lambda>kw.
       Inr (map fst (filter (item_changed kb) kw))))"

text \<open>\<open>r.get("id") in model_delta_ids\<close>\<close>

fun in_delta :: "json list \<Rightarrow> json \<Rightarrow> bool py" where
  "in_delta ids (JObj r) = member_of (dget r ''id'') ids"
| "in_delta ids _ = Inl AttributeError"

definition scope_diff_inputs ::
    "(string \<Rightarrow> string \<Rightarrow> bool option) \<Rightarrow> dict list \<Rightarrow> json list \<Rightarrow> string list option \<Rightarrow>
     json list option \<Rightarrow> string \<Rightarrow> string option \<Rightarrow> (dict list \<times> json list \<times> string option) py" where
  "scope_diff_inputs rematch units reqs changed delta pattern baseline =
     (case changed of
        None \<Rightarrow> Inr (units, reqs, (case baseline of
          Some b \<Rightarrow> if b = [] then None
            else Some (''diff not computed against '' @ repr_str b @ ''; full-repo fallback (local)'')
        | None \<Rightarrow> None))
      | Some _ \<Rightarrow> py_bind (filter_forward_units_by_changed rematch units changed pattern) (\<lambda>us.
          py_bind (case delta of None \<Rightarrow> Inr reqs
            | Some ids \<Rightarrow> py_filter (in_delta ids) reqs) (\<lambda>rs.
            Inr (us, rs, None))))"

definition dangling_entries :: "json list \<Rightarrow> dict \<Rightarrow> (string \<times> string \<times> string) list py" where
  "dangling_entries known u = py_bind (impl_unit_req_ids u) (\<lambda>ids.
     Inr (map (\<lambda>i. (i, impl_unit_ref u,
       ''requirement ID '' @ [CHR 0x27] @ i @ [CHR 0x27] @ '' does not exist in feature_list.json'')) (filter (is_dangling known) ids)))"

text \<open>\<open>setdefault\<close>: the first unit that cites an id is the one reported.\<close>

definition first_entries :: "('k \<times> 'v) list \<Rightarrow> ('k \<times> 'v) list" where
  "first_entries es = fold (\<lambda>(k, v) acc. if k \<in> fst ` set acc then acc else acc @ [(k, v)]) es []"

definition collect_dangling_refs :: "dict list \<Rightarrow> json list \<Rightarrow> (string \<times> string \<times> string) list py" where
  "collect_dangling_refs units known = (if known = [] then Inr []
     else py_bind (py_map (dangling_entries known) units) (\<lambda>ess. Inr (first_entries (concat ess))))"

definition apply_dangling_refs ::
    "orphan_report \<Rightarrow> (string \<times> string \<times> string) list \<Rightarrow> orphan_report" where
  "apply_dangling_refs report refs = (if refs = [] then report
     else report\<lparr>dangling_refs := refs, report_ok := False,
       forward_orphans := filter (\<lambda>fo. \<not> contains ''[dangling-ref:'' fo) (forward_orphans report)\<rparr>)"

record diff_request =
  dr_changed :: "string list option"
  dr_baseline :: "string option"
  dr_delta :: "json list option"
  dr_pattern :: string
  dr_fail_closed :: bool

text \<open>The long dash of the code's message is outside the alphabet of the model and written
  \<open>--\<close>.\<close>

definition unreachable_report :: "string \<Rightarrow> orphan_report" where
  "unreachable_report b = \<lparr>forward_orphans = [], backward_orphans = [], report_ok = False,
     report_error = Some (''merge-base '' @ repr_str b @
       '' unreachable -- fetch-depth:0 required (CI misconfiguration, not a degrade)''),
     fallback_reason = None, dangling_refs = []\<rparr>"

definition detect_orphans_diff ::
    "git_process \<Rightarrow> (string \<Rightarrow> string \<Rightarrow> bool option) \<Rightarrow> string \<Rightarrow> dict list \<Rightarrow> json list \<Rightarrow> json list \<Rightarrow>
     diff_request \<Rightarrow> orphan_report py" where
  "detect_orphans_diff git rematch default_pattern units reqs known q =
     (let pattern = (if dr_pattern q = [] then default_pattern else dr_pattern q);
          base = (case dr_baseline q of Some b \<Rightarrow> b | None \<Rightarrow> []) in
      if dr_fail_closed q \<and> base \<noteq> [] \<and> get_merged_base git base = None
      then Inr (unreachable_report base)
      else py_bind (scope_diff_inputs rematch units reqs (dr_changed q) (dr_delta q) pattern (dr_baseline q))
        (\<lambda>(us, rs, fallback). py_bind (detect_orphans us rs known) (\<lambda>report.
          py_bind (collect_dangling_refs us known) (\<lambda>refs.
            Inr (apply_dangling_refs (report\<lparr>fallback_reason := fallback\<rparr>) refs)))))"

subsection \<open>The command line\<close>

definition DEFAULT_EXCLUDE_DIRS :: "string list" where
  "DEFAULT_EXCLUDE_DIRS = [''tests'', ''test'', ''db/migrations'', ''node_modules'', ''.git'',
     ''__pycache__'', ''.venv'', ''venv'', ''build'', ''dist'', ''.kiro'', ''schema'']"

definition path_parts :: "string \<Rightarrow> string list" where
  "path_parts p = split_on (\<lambda>c. c = CHR ''/'') p"

definition strip_slashes :: "string \<Rightarrow> string" where
  "strip_slashes s = rev (dropWhile (\<lambda>c. c = CHR ''/'') (rev (dropWhile (\<lambda>c. c = CHR ''/'') s)))"

fun has_run :: "'a list \<Rightarrow> 'a list \<Rightarrow> bool" where
  "has_run r [] = (r = [])"
| "has_run r (x # xs) = (take (length r) (x # xs) = r \<or> has_run r xs)"

definition is_excluded_parts :: "string list \<Rightarrow> string list \<Rightarrow> bool" where
  "is_excluded_parts parts exclude_dirs =
     (last parts = ''__init__.py'' \<or>
      list_ex (\<lambda>ex. has_run (path_parts (strip_slashes ex)) parts) exclude_dirs)"

text \<open>The walk yields every file below the root in its order, with its contents when it can be
  read; a file is kept when neither it nor a directory above it is excluded.\<close>

definition path_kept :: "string list \<Rightarrow> string \<Rightarrow> bool" where
  "path_kept exclude_dirs path = (let parts = path_parts path in
     endswith path ''.py'' \<and>
     list_all (\<lambda>n. \<not> is_excluded_parts (take n parts) exclude_dirs) [1 ..< Suc (length parts)])"

definition scan_repo_impl_units :: "(string \<times> string option) list \<Rightarrow> string list \<Rightarrow> dict list" where
  "scan_repo_impl_units walk exclude_dirs =
     concat (map (\<lambda>(path, source). case source of
         Some src \<Rightarrow> if path_kept exclude_dirs path
           then [[(''file'', JStr path), (''text'', JStr src)]] else []
       | None \<Rightarrow> []) walk)"

definition requirements_from_feature_list :: "json \<Rightarrow> json list py" where
  "requirements_from_feature_list model =
     py_bind (obj_get_or model ''items'' (JList [])) (\<lambda>its. py_iter (py_or its (JList [])))"

fun link_entry :: "json \<Rightarrow> (string \<times> json) list py" where
  "link_entry (JObj l) = (let rid = py_or (dget l ''requirement_id'') (dget l ''id'') in
     Inr (if truthy rid then [(py_str rid, JObj l)] else []))"
| "link_entry _ = Inl AttributeError"

fun fold_link :: "(string \<times> json) list \<Rightarrow> json \<Rightarrow> json py" where
  "fold_link links (JObj r) = (case requirement_id r of
     None \<Rightarrow> Inr (JObj r)
   | Some i \<Rightarrow> (case map snd (filter (\<lambda>(j, l). j = i) links) of
       [] \<Rightarrow> Inr (JObj r)
     | ls \<Rightarrow> py_bind (py_iter (py_or (dget_or r ''traceability_links'' (JList [])) (JList []))) (\<lambda>old.
         Inr (JObj (dset r ''traceability_links'' (JList (old @ ls)))))))"
| "fold_link links _ = Inl AttributeError"

text \<open>\<open>None\<close> is a links file that is absent, unparsable or outside the root.\<close>

definition fold_in_links :: "json list \<Rightarrow> json option \<Rightarrow> json list py" where
  "fold_in_links reqs links_doc = (case links_doc of
     None \<Rightarrow> Inr reqs
   | Some doc \<Rightarrow>
       py_bind (if is_list doc then Inr doc else obj_get_or doc ''links'' (JList [])) (\<lambda>ls.
         py_bind (py_iter ls) (\<lambda>xs. py_bind (py_map link_entry xs) (\<lambda>es.
           py_map (fold_link (concat es)) reqs))))"

record orphan_repo =
  or_git :: git_process
  or_rematch :: "string \<Rightarrow> string \<Rightarrow> bool option"
  or_default_pattern :: string
  or_walk :: "(string \<times> string option) list"

fun known_id :: "json \<Rightarrow> json list py" where
  "known_id (JObj r) = Inr (case requirement_id r of Some i \<Rightarrow> [JStr i] | None \<Rightarrow> [])"
| "known_id _ = Inl AttributeError"

definition run_diff_aware ::
    "orphan_repo \<Rightarrow> string \<Rightarrow> string \<Rightarrow> dict list \<Rightarrow> json list \<Rightarrow> json \<Rightarrow> orphan_report py" where
  "run_diff_aware w baseline pattern units reqs model =
     py_bind (py_map known_id reqs) (\<lambda>ks.
       let base = load_feature_list_from_commit (or_git w) baseline in
       py_bind (if truthy base then py_bind (get_model_delta_ids base model) (Inr \<circ> Some) else Inr None)
         (\<lambda>delta. detect_orphans_diff (or_git w) (or_rematch w) (or_default_pattern w) units reqs (concat ks)
            \<lparr>dr_changed = Some (get_changed_files (or_git w) baseline), dr_baseline = Some baseline,
             dr_delta = delta, dr_pattern = pattern, dr_fail_closed = True\<rparr>))"

text \<open>\<open>_exempt_glob_to_regex\<close>: \<open>re.escape\<close>, then the two stars back as patterns.\<close>

definition re_escape :: "string \<Rightarrow> string" where
  "re_escape s = concat (map (\<lambda>c.
     if c \<in> set ''()[]{}?*+-|^$.&~# '' \<or> c = CHR 0x5C \<or> (9 \<le> code c \<and> code c \<le> 13)
     then [CHR 0x5C, c] else [c]) s)"

definition exempt_glob_to_regex :: "string \<Rightarrow> string" where
  "exempt_glob_to_regex glob =
     replace_all [CHR 0x5C, CHR ''*''] ''[^/]*''
       (replace_all [CHR 0x5C, CHR ''*'', CHR 0x5C, CHR ''*''] ''.*'' (re_escape glob))"

definition exempt_regex :: "string option \<Rightarrow> string" where
  "exempt_regex glob = (case glob of None \<Rightarrow> [] | Some g \<Rightarrow> if g = [] then [] else exempt_glob_to_regex g)"

record orphan_args =
  oa_links :: "json option option"
  oa_baseline :: "string option"
  oa_exempt_paths :: "string option"

text \<open>\<open>main\<close> on a loaded model (\<open>None\<close>: it could not be loaded), with the exit code.\<close>

definition orphan_main :: "orphan_repo \<Rightarrow> orphan_args \<Rightarrow> json option \<Rightarrow> (orphan_report option \<times> int) py" where
  "orphan_main w args feature_list = (case feature_list of
     None \<Rightarrow> Inr (None, 1)
   | Some model \<Rightarrow>
       py_bind (requirements_from_feature_list model) (\<lambda>reqs.
         py_bind (case oa_links args of None \<Rightarrow> Inr reqs | Some doc \<Rightarrow> fold_in_links reqs doc) (\<lambda>reqs.
           let units = scan_repo_impl_units (or_walk w) DEFAULT_EXCLUDE_DIRS;
               base = (case oa_baseline args of Some b \<Rightarrow> b | None \<Rightarrow> []) in
           py_bind (if base \<noteq> []
               then run_diff_aware w base (exempt_regex (oa_exempt_paths args)) units reqs model
               else detect_orphans units reqs [])
             (\<lambda>report. Inr (Some report, if report_ok report then 0 else 1)))))"

subsection \<open>What a clean report means\<close>

definition traced :: "json list \<Rightarrow> dict \<Rightarrow> bool" where
  "traced known u = (case impl_unit_req_ids u of
     Inr ids \<Rightarrow> \<not> list_ex (is_dangling known) ids \<and> (ids \<noteq> [] \<or> impl_unit_is_exempt u = Inr True)
   | Inl _ \<Rightarrow> False)"

definition cited_ids :: "dict list \<Rightarrow> string list" where
  "cited_ids units = concat (map (\<lambda>u. case impl_unit_req_ids u of Inr ids \<Rightarrow> ids | Inl _ \<Rightarrow> []) units)"

fun proven_by :: "string list \<Rightarrow> json \<Rightarrow> bool" where
  "proven_by referenced (JObj r) = (case requirement_id r of
     None \<Rightarrow> True | Some i \<Rightarrow> requirement_has_artifact r referenced = Inr True)"
| "proven_by referenced _ = False"

lemma forward_unit_Inr:
  assumes "forward_unit known u = Inr (ds, ids)"
  shows "impl_unit_req_ids u = Inr ids" and "ds = [] \<longleftrightarrow> traced known u"
  using assms
  by (auto simp: forward_unit_def traced_def py_bind_Inr_iff Let_def filter_empty_conv list_ex_iff
      split: if_splits)

lemma forward_pass_Inr:
  assumes "forward_pass units known = Inr (fwd, referenced)"
  shows "referenced = cited_ids units \<and> (fwd = [] \<longleftrightarrow> list_all (traced known) units)"
proof -
  from assms obtain rs where rs: "list_all2 (\<lambda>u r. forward_unit known u = Inr r) units rs"
    and eq: "fwd = concat (map fst rs)" "referenced = concat (map snd rs)"
    by (auto simp: forward_pass_def py_bind_Inr_iff py_map_Inr_iff)
  from rs have "concat (map snd rs) = cited_ids units \<and>
      (concat (map fst rs) = [] \<longleftrightarrow> list_all (traced known) units)"
  proof (induction rule: list_all2_induct)
    case (Cons u us r rs)
    then have "forward_unit known u = Inr (fst r, snd r)" by simp
    from Cons.IH forward_unit_Inr [OF this] show ?case by (simp add: cited_ids_def)
  qed (simp add: cited_ids_def)
  with eq show ?thesis by simp
qed

lemma backward_unit_Inr: "backward_unit referenced r = Inr ids \<Longrightarrow> ids = [] \<longleftrightarrow> proven_by referenced r"
  by (cases r) (auto simp: py_bind_Inr_iff split: option.splits if_splits)

lemma backward_pass_Inr:
  assumes "backward_pass reqs referenced = Inr bwd"
  shows "bwd = [] \<longleftrightarrow> list_all (proven_by referenced) reqs"
proof -
  from assms obtain rs where rs: "list_all2 (\<lambda>r ids. backward_unit referenced r = Inr ids) reqs rs"
    and eq: "bwd = concat rs"
    by (auto simp: backward_pass_def py_bind_Inr_iff py_map_Inr_iff)
  from rs have "concat rs = [] \<longleftrightarrow> list_all (proven_by referenced) reqs"
    by (induction rule: list_all2_induct) (auto dest: backward_unit_Inr)
  with eq show ?thesis by simp
qed

lemma detect_orphans_ok:
  assumes "detect_orphans units reqs known = Inr report"
  shows "report_ok report \<longleftrightarrow>
    list_all (traced known) units \<and> list_all (proven_by (cited_ids units)) reqs"
  using assms forward_pass_Inr backward_pass_Inr
  by (fastforce simp: detect_orphans_def py_bind_Inr_iff)

lemma py_filter_Inr:
  "py_filter f xs = Inr ys \<Longrightarrow> set ys = {x \<in> set xs. f x = Inr True}"
  by (induction xs arbitrary: ys) (auto simp: py_bind_Inr_iff split: if_splits)

lemma report_ok_apply [simp]:
  "report_ok (apply_dangling_refs report refs) \<longleftrightarrow> report_ok report \<and> refs = []"
  by (simp add: apply_dangling_refs_def)

lemma detect_orphans_diff_ok:
  assumes "detect_orphans_diff git rematch dflt units reqs known q = Inr report" "report_ok report"
  obtains us rs fallback where
    "scope_diff_inputs rematch units reqs (dr_changed q) (dr_delta q)
       (if dr_pattern q = [] then dflt else dr_pattern q) (dr_baseline q) = Inr (us, rs, fallback)"
    "list_all (traced known) us" "list_all (proven_by (cited_ids us)) rs"
proof -
  from assms have reach: "\<not> (dr_fail_closed q \<and> (case dr_baseline q of Some b \<Rightarrow> b | None \<Rightarrow> []) \<noteq> [] \<and>
      get_merged_base git (case dr_baseline q of Some b \<Rightarrow> b | None \<Rightarrow> []) = None)"
    by (auto simp: detect_orphans_diff_def unreachable_report_def Let_def split: if_splits)
  with assms(1) obtain us rs fallback base_report refs where
    sc: "scope_diff_inputs rematch units reqs (dr_changed q) (dr_delta q)
       (if dr_pattern q = [] then dflt else dr_pattern q) (dr_baseline q) = Inr (us, rs, fallback)"
    and d: "detect_orphans us rs known = Inr base_report"
    and r: "report = apply_dangling_refs (base_report\<lparr>fallback_reason := fallback\<rparr>) refs"
    by (auto simp: detect_orphans_diff_def py_bind_Inr_iff Let_def)
  from r assms(2) have "report_ok base_report" by simp
  with detect_orphans_ok [OF d] have "list_all (traced known) us" "list_all (proven_by (cited_ids us)) rs"
    by simp_all
  with sc show thesis by (intro that)
qed

lemma detect_orphans_diff_reachable:
  assumes "detect_orphans_diff git rematch dflt units reqs known q = Inr report" "report_ok report"
    and "dr_fail_closed q" "dr_baseline q = Some b" "b \<noteq> []"
  shows "get_merged_base git b \<noteq> None"
  using assms by (cases "get_merged_base git b")
    (auto simp: detect_orphans_diff_def unreachable_report_def Let_def)

text \<open>What the units and requirements in scope of a diff are.\<close>

lemma scope_diff_inputs_changed:
  assumes "scope_diff_inputs rematch units reqs (Some changed) delta pattern baseline = Inr (us, rs, fallback)"
  shows "set us = {u \<in> set units. unit_changed rematch changed pattern u = Inr True}"
    and "delta = Some ids \<Longrightarrow> set rs = {r \<in> set reqs. in_delta ids r = Inr True}"
    and "delta = None \<Longrightarrow> rs = reqs"
  using assms py_filter_Inr
  by (fastforce simp: scope_diff_inputs_def filter_forward_units_by_changed_def py_bind_Inr_iff
      split: option.splits)+

lemma git_ref_ok_not_option: "git_ref_ok r \<Longrightarrow> r \<noteq> [] \<and> hd r \<noteq> CHR ''-''"
  by (cases r) (auto simp: git_ref_ok_def ref_char_def is_upper_def ascii_digit_def code_def)

lemma get_merged_base_Some: "get_merged_base git b = Some sha \<Longrightarrow> git_ref_ok b"
  by (auto simp: get_merged_base_def split: if_splits)

lemma run_diff_aware_ok:
  assumes "run_diff_aware w b pattern units reqs model = Inr report" "report_ok report" "b \<noteq> []"
  obtains known where "get_merged_base (or_git w) b \<noteq> None"
    "\<And>u. u \<in> set units \<Longrightarrow>
      unit_changed (or_rematch w) (get_changed_files (or_git w) b)
        (if pattern = [] then or_default_pattern w else pattern) u = Inr True \<Longrightarrow> traced known u"
proof -
  from assms(1) obtain ks delta where
    d: "detect_orphans_diff (or_git w) (or_rematch w) (or_default_pattern w) units reqs (concat ks)
      \<lparr>dr_changed = Some (get_changed_files (or_git w) b), dr_baseline = Some b,
       dr_delta = delta, dr_pattern = pattern, dr_fail_closed = True\<rparr> = Inr report"
    by (auto simp: run_diff_aware_def py_bind_Inr_iff Let_def)
  obtain us rs fallback where
    "scope_diff_inputs (or_rematch w) units reqs (Some (get_changed_files (or_git w) b)) delta
       (if pattern = [] then or_default_pattern w else pattern) (Some b) = Inr (us, rs, fallback)"
    and "list_all (traced (concat ks)) us"
    using detect_orphans_diff_ok [OF d assms(2), unfolded diff_request.simps] by blast
  with scope_diff_inputs_changed(1) detect_orphans_diff_reachable [OF d assms(2), of b] assms(3)
  show thesis by (intro that [of "concat ks"]) (auto simp: list_all_iff)
qed

lemma orphan_main_exit:
  assumes "orphan_main w args (Some model) = Inr (r, 0)" "oa_baseline args = Some b" "b \<noteq> []"
  shows "\<exists>reqs report. run_diff_aware w b (exempt_regex (oa_exempt_paths args))
      (scan_repo_impl_units (or_walk w) DEFAULT_EXCLUDE_DIRS) reqs model = Inr report \<and> report_ok report"
  using assms(1) unfolding orphan_main_def Let_def assms(2) option.case py_bind_Inr_iff if_P [OF assms(3)]
  by (auto split: if_splits)

subsection \<open>Properties\<close>

text \<open>
  Property 11 of the design, on every branch: when the detector returns, its \<open>ok\<close> says
  exactly that every implementation unit is traced (it cites an identifier or carries a reasoned
  exemption, and cites nothing outside a non-empty model) and that every requirement has
  evidence, a test link, a flag, or a unit that cites it. Either kind of orphan alone fails it.
\<close>

theorem detect_orphans_ok_iff:
  assumes "detect_orphans units reqs known = Inr report"
  shows "report_ok report \<longleftrightarrow>
    list_all (traced known) units \<and> list_all (proven_by (cited_ids units)) reqs"
  using assms by (rule detect_orphans_ok)

definition sample_unit :: dict where
  "sample_unit = [(''file'', JStr ''a.py''), (''text'', JStr ''# REQ-A-001 and REQ-B-002'')]"

theorem detect_orphans_ok_iff_witness:
  "list_all (traced [JStr ''REQ-A-001'', JStr ''REQ-B-002'']) [sample_unit] \<and>
   list_all (proven_by (cited_ids [sample_unit])) [JObj [(''id'', JStr ''REQ-A-001'')]]"
proof -
  have "detect_orphans [sample_unit] [JObj [(''id'', JStr ''REQ-A-001'')]]
      [JStr ''REQ-A-001'', JStr ''REQ-B-002''] =
    Inr \<lparr>forward_orphans = [], backward_orphans = [], report_ok = True, report_error = None,
      fallback_reason = None, dangling_refs = []\<rparr>"
    by code_simp
  from detect_orphans_ok_iff [OF this] show ?thesis by simp
qed

text \<open>
  The diff gate never exempts a requirement by path: when the diff-aware report is clean, every
  requirement whose id is in the model delta has an artifact, whatever files changed and whatever
  the allowlist, and every unit in a changed file outside the allowlist is traced.
\<close>

theorem diff_report_sound:
  assumes "detect_orphans_diff git rematch dflt units reqs known q = Inr report" "report_ok report"
    and "dr_changed q = Some changed" "dr_delta q = Some delta"
  shows "\<exists>us. set us = {u \<in> set units. unit_changed rematch changed
         (if dr_pattern q = [] then dflt else dr_pattern q) u = Inr True} \<and>
       list_all (traced known) us \<and>
       (\<forall>r \<in> set reqs. in_delta delta r = Inr True \<longrightarrow> proven_by (cited_ids us) r)"
proof -
  obtain us rs fallback where
    sc: "scope_diff_inputs rematch units reqs (Some changed) (Some delta)
       (if dr_pattern q = [] then dflt else dr_pattern q) (dr_baseline q) = Inr (us, rs, fallback)"
    and "list_all (traced known) us" and p: "list_all (proven_by (cited_ids us)) rs"
    using detect_orphans_diff_ok [OF assms(1,2)] assms(3,4) by auto
  moreover have "\<forall>r \<in> set reqs. in_delta delta r = Inr True \<longrightarrow> proven_by (cited_ids us) r"
    using p scope_diff_inputs_changed(2) [OF sc] by (auto simp: list_all_iff)
  ultimately show ?thesis using scope_diff_inputs_changed(1) [OF sc] by blast
qed

definition sample_diff :: diff_request where
  "sample_diff = \<lparr>dr_changed = Some [''a.py''], dr_baseline = None, dr_delta = Some [JStr ''REQ-A-001''],
     dr_pattern = [], dr_fail_closed = False\<rparr>"

theorem diff_report_sound_witness:
  "\<exists>us. list_all (traced [JStr ''REQ-A-001'', JStr ''REQ-B-002'']) us \<and>
     proven_by (cited_ids us) (JObj [(''id'', JStr ''REQ-A-001'')])"
proof -
  have "detect_orphans_diff (\<lambda>_. None) (\<lambda>pattern path. Some (startswith path ''tools/'')) ''tools/.*''
      [sample_unit] [JObj [(''id'', JStr ''REQ-A-001'')]] [JStr ''REQ-A-001'', JStr ''REQ-B-002''] sample_diff =
    Inr \<lparr>forward_orphans = [], backward_orphans = [], report_ok = True, report_error = None,
      fallback_reason = None, dangling_refs = []\<rparr>"
    by code_simp
  from diff_report_sound [OF this, of "[''a.py'']" "[JStr ''REQ-A-001'']"] show ?thesis
    by (auto simp: sample_diff_def member_of_def)
qed

text \<open>
  The command line: in diff mode, exit code 0 means that the merge base was reachable from a
  well-formed reference (never one that \<open>git\<close> could read as an option) and that every
  Python file that the walk keeps, that changed since the base and that the allowlist does not
  exempt mentions a requirement identifier or carries a reasoned exemption.
\<close>

theorem orphan_main_exit0:
  assumes "orphan_main w args (Some model) = Inr (r, 0)"
    and "oa_baseline args = Some b" "b \<noteq> []"
    and "(path, Some src) \<in> set (or_walk w)" "path_kept DEFAULT_EXCLUDE_DIRS path"
    and "path \<in> set (get_changed_files (or_git w) b)"
    and "\<not> is_path_exempt (or_rematch w) path
      (if exempt_regex (oa_exempt_paths args) = [] then or_default_pattern w
       else exempt_regex (oa_exempt_paths args))"
  shows "git_ref_ok b \<and> get_merged_base (or_git w) b \<noteq> None \<and>
     (scan_req_ids src \<noteq> [] \<or> exempt_search src)"
proof -
  let ?pattern = "exempt_regex (oa_exempt_paths args)"
  let ?units = "scan_repo_impl_units (or_walk w) DEFAULT_EXCLUDE_DIRS"
  let ?u = "[(''file'', JStr path), (''text'', JStr src)]"
  obtain reqs report where
    m: "run_diff_aware w b ?pattern ?units reqs model = Inr report" and ok: "report_ok report"
    using orphan_main_exit [OF assms(1-3)] by blast
  obtain known where base: "get_merged_base (or_git w) b \<noteq> None" and
    t: "?u \<in> set ?units \<Longrightarrow> unit_changed (or_rematch w) (get_changed_files (or_git w) b)
        (if ?pattern = [] then or_default_pattern w else ?pattern) ?u = Inr True \<Longrightarrow> traced known ?u"
    using run_diff_aware_ok [OF m ok assms(3)] by metis
  have "?u \<in> set ?units"
    using assms(4,5) by (force simp: scan_repo_impl_units_def)
  moreover have "unit_changed (or_rematch w) (get_changed_files (or_git w) b)
      (if ?pattern = [] then or_default_pattern w else ?pattern) ?u = Inr True"
    using assms(5-7) by (auto simp: unit_changed_def py_or_def Let_def path_kept_def endswith_def
        is_path_exempt_def split: option.splits if_splits)
  ultimately have "traced known ?u" by (rule t)
  then have "scan_req_ids src \<noteq> [] \<or> exempt_search src"
    by (auto simp: traced_def impl_unit_req_ids_def text_ids_def id_field_def py_or_def Let_def
        impl_unit_is_exempt_def split: if_splits)
  with base show ?thesis by (auto dest: get_merged_base_Some)
qed

definition sample_repo :: orphan_repo where
  "sample_repo = \<lparr>or_git = (\<lambda>args. case args of c # _ \<Rightarrow>
         if c = ''merge-base'' then Some ''abc123'' else if c = ''diff'' then Some ''a.py'' else None
       | [] \<Rightarrow> None),
     or_rematch = (\<lambda>pattern path. Some (startswith path ''tools/'')),
     or_default_pattern = ''tools/.*'', or_walk = [(''a.py'', Some ''# REQ-A-001'')]\<rparr>"

definition sample_args :: orphan_args where
  "sample_args = \<lparr>oa_links = None, oa_baseline = Some ''main'', oa_exempt_paths = None\<rparr>"

lemma sample_run:
  "orphan_main sample_repo sample_args (Some (JObj [])) = Inr (Some \<lparr>forward_orphans = [],
     backward_orphans = [], report_ok = True, report_error = None, fallback_reason = None,
     dangling_refs = []\<rparr>, 0)"
  "oa_baseline sample_args = Some ''main''"
  "(''a.py'', Some ''# REQ-A-001'') \<in> set (or_walk sample_repo)"
  "path_kept DEFAULT_EXCLUDE_DIRS ''a.py''"
  "''a.py'' \<in> set (get_changed_files (or_git sample_repo) ''main'')"
  "\<not> is_path_exempt (or_rematch sample_repo) ''a.py''
     (if exempt_regex (oa_exempt_paths sample_args) = [] then or_default_pattern sample_repo
      else exempt_regex (oa_exempt_paths sample_args))"
  by (code_simp, code_simp, simp add: sample_repo_def, code_simp, code_simp, code_simp)

theorem orphan_main_exit0_witness:
  "git_ref_ok ''main'' \<and> get_merged_base (or_git sample_repo) ''main'' \<noteq> None"
  using orphan_main_exit0 [OF sample_run(1,2) _ sample_run(3-6)] by simp

end
