(* ===== verification/Orphan_Pillar.thy ===== *)
theory Orphan_Pillar
  imports Evidence_Gate Orphans
begin

section \<open>The orphan pillar of the evidence gate\<close>

text \<open>
  \<open>check_slice_orphans\<close> of \<open>tools/evidence_gate.py\<close>: it reads the changed Python files and the
  coverage model, asks \<open>detect_orphans_diff\<close>, and turns the report into a verdict; every
  exception is an acceptance. The workspace is what the pillar reads: files relative to the
  directory of the model, the model file, \<open>git\<close>, and the configured allowlist.
\<close>

datatype read_outcome = Absent | Undecodable | OsFailure | Contents string

record workspace =
  ws_read :: "string \<Rightarrow> read_outcome"
  ws_model_path :: string
  ws_model :: read_outcome
  ws_git :: git_process
  ws_rematch :: "string \<Rightarrow> string \<Rightarrow> bool option"
  ws_pattern :: string

definition build_impl_units :: "(string \<Rightarrow> read_outcome) \<Rightarrow> string list \<Rightarrow> dict list" where
  "build_impl_units read changed =
     concat (map (\<lambda>fp. if \<not> endswith fp ''.py'' then []
       else case read fp of
         Contents t \<Rightarrow> [[(''file'', JStr fp), (''text'', JStr t)]]
       | _ \<Rightarrow> []) changed)"

definition load_model_json :: "read_outcome \<Rightarrow> json py" where
  "load_model_json r = (case r of
     Contents t \<Rightarrow> Inr (case loads t of Some doc \<Rightarrow> doc | None \<Rightarrow> JObj [])
   | OsFailure \<Rightarrow> Inl OSError
   | _ \<Rightarrow> Inr (JObj []))"

definition resolve_model_delta :: "git_process \<Rightarrow> string option \<Rightarrow> json \<Rightarrow> json list option py" where
  "resolve_model_delta git baseline model =
     (case baseline of None \<Rightarrow> Inr None
      | Some b \<Rightarrow> if b = [] then Inr None
          else let base = load_feature_list_from_commit git b in
            if truthy base then py_bind (get_model_delta_ids base model) (Inr \<circ> Some) else Inr None)"

definition verdict_from_report :: "orphan_report \<Rightarrow> verdict" where
  "verdict_from_report report =
     (case dangling_refs report of
        (uid, unit, message) # _ \<Rightarrow> reject ORPHAN_DANGLING_REF (Text message)
      | [] \<Rightarrow>
          if forward_orphans report \<noteq> [] \<or> backward_orphans report \<noteq> [] then
            reject ORPHAN_DETECTED
              (OrphanLists (take 3 (forward_orphans report)) (take 3 (backward_orphans report)))
          else accept_ok (Text ''no forward or backward orphans''))"

text \<open>\<open>Path(p).name\<close>\<close>

definition path_name :: "string \<Rightarrow> string" where
  "path_name p = (case rev (filter (\<lambda>w. w \<noteq> [] \<and> w \<noteq> ''.'') (path_parts p)) of [] \<Rightarrow> [] | w # _ \<Rightarrow> w)"

definition allowlist_regex :: "string list option \<Rightarrow> string" where
  "allowlist_regex dirs = (case dirs of
     Some (d # ds) \<Rightarrow> ''('' @ join ''|'' (map re_escape (d # ds)) @ '').*''
   | _ \<Rightarrow> [])"

definition model_changed :: "workspace \<Rightarrow> string list \<Rightarrow> bool" where
  "model_changed ws changed = list_ex (\<lambda>f. path_name f = path_name (ws_model_path ws)) changed"

definition check_slice_orphans_body ::
    "workspace \<Rightarrow> string list \<Rightarrow> json list \<Rightarrow> string option \<Rightarrow> string list option \<Rightarrow> verdict py" where
  "check_slice_orphans_body ws changed known baseline allowlist_dirs =
     py_bind (load_model_json (ws_model ws)) (\<lambda>model.
       py_bind (if model_changed ws changed then py_bind (in_scope_items model) (\<lambda>ds. Inr (map JObj ds))
           else Inr []) (\<lambda>reqs.
         py_bind (keyed_items model) (\<lambda>ks.
           py_bind (resolve_model_delta (ws_git ws) baseline model) (\<lambda>delta.
             py_bind (detect_orphans_diff (ws_git ws) (ws_rematch ws) (ws_pattern ws)
                 (build_impl_units (ws_read ws) changed) reqs (known @ map fst ks)
                 \<lparr>dr_changed = Some changed, dr_baseline = baseline, dr_delta = delta,
                  dr_pattern = allowlist_regex allowlist_dirs, dr_fail_closed = False\<rparr>)
               (\<lambda>report. Inr (verdict_from_report report))))))"

definition check_slice_orphans ::
    "workspace \<Rightarrow> string list \<Rightarrow> json list \<Rightarrow> string option \<Rightarrow> string list option \<Rightarrow> verdict" where
  "check_slice_orphans ws changed known baseline allowlist_dirs =
     (if changed = [] then accept_ok (Text ''no changed files; depth pillar skips'')
      else case check_slice_orphans_body ws changed known baseline allowlist_dirs of
        Inr v \<Rightarrow> v
      | Inl e \<Rightarrow> accept_ok (Raised e))"

subsection \<open>Property\<close>

lemma detect_orphans_diff_nothing:
  assumes "detect_orphans_diff git rematch dflt [] [] known q = Inr report" "\<not> dr_fail_closed q"
    "dr_changed q = Some changed"
  shows "dangling_refs report = [] \<and> forward_orphans report = [] \<and> backward_orphans report = []"
proof -
  have "detect_orphans [] [] known = Inr \<lparr>forward_orphans = [], backward_orphans = [], report_ok = True,
      report_error = None, fallback_reason = None, dangling_refs = []\<rparr>"
    by (simp add: detect_orphans_def forward_pass_def backward_pass_def)
  moreover have "collect_dangling_refs [] known = Inr []"
    by (simp add: collect_dangling_refs_def first_entries_def)
  moreover have "scope_diff_inputs rematch [] [] (dr_changed q) (dr_delta q) pattern (dr_baseline q) =
      Inr ([], [], None)" for pattern
    using assms(3) by (simp add: scope_diff_inputs_def filter_forward_units_by_changed_def split: option.splits)
  ultimately show ?thesis
    using assms(1,2) by (auto simp: detect_orphans_diff_def apply_dangling_refs_def)
qed

text \<open>
  A change that touches no Python file and not the coverage model never blocks an advance on
  orphans: whatever the model, the baseline and the state of the repository, the pillar accepts.
\<close>

theorem orphan_pillar_other_changes:
  assumes "list_all (\<lambda>f. \<not> endswith f ''.py'' \<and> path_name f \<noteq> path_name (ws_model_path ws)) changed"
  shows "accepted (check_slice_orphans ws changed known baseline dirs)"
proof -
  have u: "build_impl_units (ws_read ws) changed = []" and m: "\<not> model_changed ws changed"
    using assms by (auto simp: build_impl_units_def model_changed_def list_ex_iff list_all_iff)
  have "accepted v" if "check_slice_orphans_body ws changed known baseline dirs = Inr v" for v
  proof -
    from that u m obtain ks q report where
      "detect_orphans_diff (ws_git ws) (ws_rematch ws) (ws_pattern ws) [] [] ks q = Inr report"
      "\<not> dr_fail_closed q" "dr_changed q = Some changed" "v = verdict_from_report report"
      by (fastforce simp: check_slice_orphans_body_def py_bind_Inr_iff)
    then show ?thesis
      using detect_orphans_diff_nothing by (fastforce simp: verdict_from_report_def accept_ok_def)
  qed
  then show ?thesis
    by (auto simp: check_slice_orphans_def accept_ok_def split: sum.splits)
qed

theorem orphan_pillar_other_changes_witness:
  "accepted (check_slice_orphans \<lparr>ws_read = (\<lambda>_. Absent), ws_model_path = ''feature_list.json'',
     ws_model = Contents ''{}'', ws_git = (\<lambda>_. None), ws_rematch = (\<lambda>_ _. None), ws_pattern = ''tools/.*''\<rparr>
     [''docs/a.md''] [] None None)"
  by (rule orphan_pillar_other_changes) code_simp

end
