(* ===== verification/Run_Loop.thy ===== *)
theory Run_Loop
  imports Orphan_Pillar
begin

section \<open>The run-state driver and the pre-advance gate\<close>

text \<open>
  \<open>tools/run_state_driver.py\<close> keeps the counters of a run in \<open>run_state.json\<close>;
  \<open>tools/loop_gate.py\<close> runs the evidence gate before a slice advances and ticks the driver.
  The file is absent, unparsable, or a document; a write replaces it by the document written. The
  driver itself only writes integer counters; for a file somebody else wrote, the sum and the
  comparison of a float counter are arguments (\<open>floats\<close>), every other value raises as in the
  code.

  The texts of a decision are kept as their parts: the rejected pillars' reasons, their heal
  directives, and the streak named in a hand-off.
\<close>

subsection \<open>The driver\<close>

datatype state_file = Missing | Garbled | Document json

record floats =
  fl_add :: "string \<Rightarrow> int \<Rightarrow> string"
  fl_ge :: "string \<Rightarrow> int \<Rightarrow> bool"

definition init_row :: "string \<Rightarrow> dict" where
  "init_row session_id =
     [(''session_id'', JStr session_id), (''iteration_count'', JInt 0), (''no_progress_n'', JInt 0),
      (''block_streak'', JInt 0), (''violation_count'', JInt 0), (''budget_exceeded'', JBool False),
      (''external_blocker'', JNull), (''status'', JStr ''running'')]"

definition init_state :: "string \<Rightarrow> dict \<times> state_file" where
  "init_state session_id = (init_row session_id, Document (JObj (init_row session_id)))"

fun py_plus :: "floats \<Rightarrow> json \<Rightarrow> int \<Rightarrow> json py" where
  "py_plus fl (JInt i) n = Inr (JInt (i + n))"
| "py_plus fl (JBool b) n = Inr (JInt ((if b then 1 else 0) + n))"
| "py_plus fl (JFloat r) n = Inr (JFloat (fl_add fl r n))"
| "py_plus fl _ n = Inl TypeError"

fun py_ge :: "floats \<Rightarrow> json \<Rightarrow> int \<Rightarrow> bool py" where
  "py_ge fl (JInt i) n = Inr (n \<le> i)"
| "py_ge fl (JBool b) n = Inr (n \<le> (if b then 1 else 0))"
| "py_ge fl (JFloat r) n = Inr (fl_ge fl r n)"
| "py_ge fl _ n = Inl TypeError"

definition read_row :: "state_file \<Rightarrow> dict py" where
  "read_row file = (case file of
     Missing \<Rightarrow> Inr (init_row ''unknown'')
   | Garbled \<Rightarrow> Inl ValueError
   | Document (JObj row) \<Rightarrow> Inr row
   | Document _ \<Rightarrow> Inl AttributeError)"

record tick_input =
  made_progress :: bool
  violations :: int
  blocker :: "string option"
  over_budget :: bool

definition blocker_json :: "string option \<Rightarrow> json" where
  "blocker_json b = (case b of None \<Rightarrow> JNull | Some s \<Rightarrow> JStr s)"

definition tick_counters :: "floats \<Rightarrow> tick_input \<Rightarrow> dict \<Rightarrow> dict py" where
  "tick_counters fl t row =
     (if made_progress t then Inr (dset (dset row ''no_progress_n'' (JInt 0)) ''block_streak'' (JInt 0))
      else py_bind (py_plus fl (dget_or row ''no_progress_n'' (JInt 0)) 1) (\<lambda>np.
        let row = dset row ''no_progress_n'' np in
        py_bind (py_plus fl (dget_or row ''block_streak'' (JInt 0)) (if violations t \<noteq> 0 then 1 else 0))
          (\<lambda>bs. Inr (dset row ''block_streak'' bs))))"

definition tick :: "floats \<Rightarrow> state_file \<Rightarrow> tick_input \<Rightarrow> (dict \<times> state_file) py" where
  "tick fl file t =
     py_bind (read_row file) (\<lambda>row.
       py_bind (py_plus fl (dget_or row ''iteration_count'' (JInt 0)) 1) (\<lambda>ic.
         py_bind (tick_counters fl t (dset row ''iteration_count'' ic)) (\<lambda>row.
           let row = dset (dset (dset row ''violation_count'' (JInt (violations t)))
                 ''external_blocker'' (blocker_json (blocker t)))
               ''budget_exceeded'' (JBool (over_budget t))
           in Inr (row, Document (JObj row)))))"

subsection \<open>The pre-advance gate\<close>

datatype gate_action = Advance | SelfHeal | HandOff

record advance =
  la_action :: gate_action
  la_code :: gate_code
  la_reasons :: "reason list"
  la_unresolved :: "json option"
  la_prompt :: "heal list"
  la_row :: dict

record loop_env =
  le_floats :: floats
  le_bounds :: exec_bounds
  le_run_process :: "string list \<Rightarrow> process_outcome"
  le_workspace :: "workspace option"

datatype changed_arg = NoChange | OnePath string | Paths "string list"

definition changed_list :: "changed_arg \<Rightarrow> string list" where
  "changed_list c = (case c of NoChange \<Rightarrow> [] | OnePath p \<Rightarrow> [p] | Paths ps \<Rightarrow> ps)"

record advance_request =
  rq_evidence :: json
  rq_artifact :: json
  rq_ledger :: json
  rq_changed :: changed_arg
  rq_baseline :: "string option"
  rq_known :: "json list"

definition reject_tick :: "int \<Rightarrow> tick_input" where
  "reject_tick n = \<lparr>made_progress = False, violations = n, blocker = None, over_budget = False\<rparr>"

definition progress_tick :: tick_input where
  "progress_tick = \<lparr>made_progress = True, violations = 0, blocker = None, over_budget = False\<rparr>"

definition escalate ::
    "floats \<Rightarrow> state_file \<Rightarrow> int \<Rightarrow> gate_code \<Rightarrow> reason list \<Rightarrow> heal list \<Rightarrow> int \<Rightarrow> (advance \<times> state_file) py" where
  "escalate fl file max_self_heal c reasons prompt n =
     py_bind (tick fl file (reject_tick n)) (\<lambda>(row, file').
       py_bind (py_ge fl (dget row ''block_streak'') max_self_heal) (\<lambda>over.
         Inr (if over
           then \<lparr>la_action = HandOff, la_code = c, la_reasons = reasons,
                 la_unresolved = Some (dget row ''block_streak''), la_prompt = [], la_row = row\<rparr>
           else \<lparr>la_action = SelfHeal, la_code = c, la_reasons = reasons,
                 la_unresolved = None, la_prompt = prompt, la_row = row\<rparr>, file')))"

text \<open>The depth pillars: semgrep first, then the orphans when a model path is given. An exception
  of a pillar escapes before the driver is ticked.\<close>

definition depth_rejections :: "loop_env \<Rightarrow> advance_request \<Rightarrow> verdict list py" where
  "depth_rejections env q =
     (let files = changed_list (rq_changed q) in
      if files = [] then Inr []
      else py_bind (check_slice_semgrep (le_run_process env) (SEMGREP_BASELINE_STRATEGY (le_bounds env))
             files (rq_baseline q)) (\<lambda>sg.
        let orphans = (case le_workspace env of None \<Rightarrow> []
              | Some ws \<Rightarrow> [check_slice_orphans ws files (rq_known q) (rq_baseline q) None])
        in Inr (filter (\<lambda>v. \<not> accepted v) (sg # orphans))))"

definition loop_limit :: "loop_env \<Rightarrow> int option \<Rightarrow> int" where
  "loop_limit env limit = (case limit of None \<Rightarrow> BLOCK_STREAK_HANDOFF (le_bounds env) | Some n \<Rightarrow> n)"

definition gated_advance ::
    "loop_env \<Rightarrow> int option \<Rightarrow> state_file \<Rightarrow> advance_request \<Rightarrow> (advance \<times> state_file) py" where
  "gated_advance env limit file q =
     (let max_self_heal = loop_limit env limit;
          res = check_slice (rq_evidence q) (rq_artifact q) (rq_ledger q) in
      if \<not> accepted res then
        escalate (le_floats env) file max_self_heal (vcode res) [vreason res] [self_heal_prompt (vcode res)] 1
      else py_bind (depth_rejections env q) (\<lambda>rejections.
        case rejections of
          [] \<Rightarrow> py_bind (tick (le_floats env) file progress_tick) (\<lambda>(row, file').
            Inr (\<lparr>la_action = Advance, la_code = OK, la_reasons = [vreason res], la_unresolved = None,
                  la_prompt = [], la_row = row\<rparr>, file'))
        | r # _ \<Rightarrow> escalate (le_floats env) file max_self_heal (vcode r) (map vreason rejections)
            (map (self_heal_prompt \<circ> vcode) rejections) (int (length rejections))))"

subsection \<open>Counters of a row\<close>

definition counters :: "dict \<Rightarrow> nat \<times> nat \<times> nat \<Rightarrow> bool" where
  "counters row = (\<lambda>(i, n, b).
     dget_or row ''iteration_count'' (JInt 0) = JInt (int i) \<and>
     dget_or row ''no_progress_n'' (JInt 0) = JInt (int n) \<and>
     dget_or row ''block_streak'' (JInt 0) = JInt (int b))"

fun count_tick :: "tick_input \<Rightarrow> nat \<times> nat \<times> nat \<Rightarrow> nat \<times> nat \<times> nat" where
  "count_tick t (i, n, b) =
     (if made_progress t then (Suc i, 0, 0)
      else (Suc i, Suc n, if violations t \<noteq> 0 then Suc b else b))"

lemma tick_counts:
  assumes "read_row file = Inr row" "counters row c"
  obtains row' where "tick fl file t = Inr (row', Document (JObj row'))" "counters row' (count_tick t c)"
    "dget row' ''block_streak'' = JInt (int (snd (snd (count_tick t c))))"
proof -
  obtain i n b where [simp]: "c = (i, n, b)" by (cases c)
  have "\<exists>row'. tick fl file t = Inr (row', Document (JObj row')) \<and> counters row' (count_tick t c) \<and>
      dget row' ''block_streak'' = JInt (int (snd (snd (count_tick t c))))"
    using assms
    by (cases "made_progress t"; cases "violations t = 0")
      (simp_all add: tick_def tick_counters_def counters_def Let_def)
  then show thesis using that by blast
qed

subsection \<open>Runs of the driver and of the gate\<close>

fun run_ticks :: "floats \<Rightarrow> state_file \<Rightarrow> tick_input list \<Rightarrow> state_file py" where
  "run_ticks fl file [] = Inr file"
| "run_ticks fl file (t # ts) = py_bind (tick fl file t) (\<lambda>(row, file'). run_ticks fl file' ts)"

fun run_gate :: "loop_env \<Rightarrow> int option \<Rightarrow> state_file \<Rightarrow> advance_request list \<Rightarrow> advance list py" where
  "run_gate env limit file [] = Inr []"
| "run_gate env limit file (q # qs) = py_bind (gated_advance env limit file q) (\<lambda>(r, file').
     py_bind (run_gate env limit file' qs) (\<lambda>rs. Inr (r # rs)))"

lemma run_ticks_snoc:
  "run_ticks fl f (ts @ [t]) = py_bind (run_ticks fl f ts) (\<lambda>g. run_ticks fl g [t])"
  by (induction ts arbitrary: f) (simp_all add: py_bind_assoc split_def)

text \<open>What the counters of a run should be, read off its history.\<close>

definition since_progress :: "tick_input list \<Rightarrow> tick_input list" where
  "since_progress h = takeWhile (\<lambda>t. \<not> made_progress t) (rev h)"

definition history_counters :: "tick_input list \<Rightarrow> nat \<times> nat \<times> nat" where
  "history_counters h = (length h, length (since_progress h),
     length (filter (\<lambda>t. violations t \<noteq> 0) (since_progress h)))"

lemma history_counters_snoc: "history_counters (h @ [t]) = count_tick t (history_counters h)"
  by (simp add: history_counters_def since_progress_def)

lemma slice_rejected_step:
  assumes "\<not> accepted (check_slice (rq_evidence q) (rq_artifact q) (rq_ledger q))"
    and "counters row (i, n, b)"
  obtains r row' where
    "gated_advance env limit (Document (JObj row)) q = Inr (r, Document (JObj row'))"
    "la_action r = (if loop_limit env limit \<le> int (Suc b) then HandOff else SelfHeal)"
    "counters row' (Suc i, Suc n, Suc b)"
proof -
  obtain row' where t: "tick (le_floats env) (Document (JObj row)) (reject_tick 1) = Inr (row', Document (JObj row'))"
    and c: "counters row' (Suc i, Suc n, Suc b)" "dget row' ''block_streak'' = JInt (int (Suc b))"
    using tick_counts [OF _ assms(2), of "Document (JObj row)" "le_floats env" "reject_tick 1"]
    by (auto simp: read_row_def reject_tick_def)
  have "\<exists>r. gated_advance env limit (Document (JObj row)) q = Inr (r, Document (JObj row')) \<and>
      la_action r = (if loop_limit env limit \<le> int (Suc b) then HandOff else SelfHeal)"
    using assms(1) t c(2)
    by (cases "loop_limit env limit \<le> int (Suc b)") (simp_all add: gated_advance_def Let_def escalate_def)
  then show thesis using c(1) that by blast
qed

lemma loop_limit_update [simp]:
  "loop_limit (env\<lparr>le_run_process := p, le_workspace := w\<rparr>) limit = loop_limit env limit"
  by (cases limit) (simp_all add: loop_limit_def)

lemma gated_advance_rejected:
  assumes "\<not> accepted (check_slice (rq_evidence q) (rq_artifact q) (rq_ledger q))"
  shows "gated_advance env limit file q =
    (let res = check_slice (rq_evidence q) (rq_artifact q) (rq_ledger q) in
     escalate (le_floats env) file (loop_limit env limit) (vcode res) [vreason res]
       [self_heal_prompt (vcode res)] 1)"
  using assms by (simp add: gated_advance_def Let_def)

lemma escalate_Inr:
  assumes "escalate fl f m c rs ps n = Inr (r, f')"
  shows "tick fl f (reject_tick n) = Inr (la_row r, f')" and "la_action r \<noteq> Advance"
  using assms by (auto simp: escalate_def py_bind_Inr_iff split: if_splits)

lemma gated_advance_cases:
  assumes "gated_advance env limit f q = Inr (r, f')"
  shows "la_action r = Advance \<and> accepted (check_slice (rq_evidence q) (rq_artifact q) (rq_ledger q)) \<and>
     depth_rejections env q = Inr [] \<and> tick (le_floats env) f progress_tick = Inr (la_row r, f') \<or>
   la_action r \<noteq> Advance \<and> (\<exists>n. 0 < n \<and> tick (le_floats env) f (reject_tick n) = Inr (la_row r, f')) \<and>
     \<not> (accepted (check_slice (rq_evidence q) (rq_artifact q) (rq_ledger q)) \<and> depth_rejections env q = Inr [])"
proof (cases "accepted (check_slice (rq_evidence q) (rq_artifact q) (rq_ledger q))")
  case False
  with assms have "escalate (le_floats env) f (loop_limit env limit)
      (vcode (check_slice (rq_evidence q) (rq_artifact q) (rq_ledger q)))
      [vreason (check_slice (rq_evidence q) (rq_artifact q) (rq_ledger q))]
      [self_heal_prompt (vcode (check_slice (rq_evidence q) (rq_artifact q) (rq_ledger q)))] 1 = Inr (r, f')"
    by (simp add: gated_advance_rejected Let_def)
  from escalate_Inr [OF this] False show ?thesis by (auto intro: exI [of _ 1])
next
  case True
  with assms obtain vs where vs: "depth_rejections env q = Inr vs"
    by (auto simp: gated_advance_def Let_def py_bind_Inr_iff)
  show ?thesis
  proof (cases vs)
    case Nil
    with True assms vs show ?thesis
      by (auto simp: gated_advance_def Let_def py_bind_Inr_iff)
  next
    case (Cons v ws)
    with True assms vs have "escalate (le_floats env) f (loop_limit env limit) (vcode v) (map vreason vs)
        (map (self_heal_prompt \<circ> vcode) vs) (int (length vs)) = Inr (r, f')"
      by (simp add: gated_advance_def Let_def)
    from escalate_Inr [OF this] Cons vs show ?thesis by (auto intro: exI [of _ "int (length vs)"])
  qed
qed

subsection \<open>Properties\<close>

text \<open>
  The driver refines its contract: after any history of ticks from a fresh file, the file on disk
  holds the number of ticks, the number of ticks since the last progress, and the number of
  those that reported a violation. No tick of the history fails.
\<close>

theorem driver_counts_history:
  "\<exists>row. run_ticks fl (snd (init_state sid)) h = Inr (Document (JObj row)) \<and>
     counters row (history_counters h)"
proof (induction h rule: rev_induct)
  case Nil
  then show ?case
    by (simp add: init_state_def init_row_def counters_def history_counters_def since_progress_def)
next
  case (snoc t h)
  then obtain row where r: "run_ticks fl (snd (init_state sid)) h = Inr (Document (JObj row))"
    "counters row (history_counters h)" by blast
  moreover obtain row' where "tick fl (Document (JObj row)) t = Inr (row', Document (JObj row'))"
    "counters row' (count_tick t (history_counters h))"
    using tick_counts [OF _ r(2), of "Document (JObj row)" fl t] by (auto simp: read_row_def)
  ultimately show ?case
    by (simp add: run_ticks_snoc history_counters_snoc)
qed

text \<open>
  C13. A recurring rejection ends in a hand-off. However many requests in a row the trust core
  rejects, each is answered, the driver's streak grows by one with each, and the answer is a
  self-heal as long as the streak is below the limit and a hand-off from then on: no
  sequence of rejections self-heals for ever.
\<close>

theorem recurring_reject_hands_off:
  assumes "list_all (\<lambda>q. \<not> accepted (check_slice (rq_evidence q) (rq_artifact q) (rq_ledger q))) qs"
    and "counters row (i, n, b)"
  shows "\<exists>rs. run_gate env limit (Document (JObj row)) qs = Inr rs \<and>
    map la_action rs = map (\<lambda>k. if loop_limit env limit \<le> int (b + Suc k) then HandOff else SelfHeal)
      [0 ..< length qs]"
  using assms
proof (induction qs arbitrary: row i n b)
  case (Cons q qs)
  from Cons.prems(1) have rej: "\<not> accepted (check_slice (rq_evidence q) (rq_artifact q) (rq_ledger q))"
    by simp
  obtain r row' where
    g: "gated_advance env limit (Document (JObj row)) q = Inr (r, Document (JObj row'))"
    and a: "la_action r = (if loop_limit env limit \<le> int (Suc b) then HandOff else SelfHeal)"
    and c: "counters row' (Suc i, Suc n, Suc b)"
    by (rule slice_rejected_step [OF rej Cons.prems(2), of env limit])
  from Cons.IH [OF _ c] Cons.prems(1) obtain rs where
    rs: "run_gate env limit (Document (JObj row')) qs = Inr rs"
    "map la_action rs = map (\<lambda>k. if loop_limit env limit \<le> int (Suc b + Suc k) then HandOff else SelfHeal)
      [0 ..< length qs]" by auto
  have "[0 ..< length (q # qs)] = 0 # map Suc [0 ..< length qs]"
    by (simp add: upt_conv_Cons map_Suc_upt del: upt_Suc)
  with g a rs show ?case by (simp add: comp_def)
qed simp

text \<open>
  C12. A turn of the loop: the gate advances exactly when the evidence gate accepts the slice and the
  depth pillars reject nothing, and whatever it answers, the file it leaves is one tick of the file
  it found; that tick counts as progress exactly when the answer is to advance, and it reports a
  violation exactly when the answer is not.
\<close>

theorem gated_advance_ticks_once:
  assumes "gated_advance env limit f q = Inr (r, f')"
  shows "(la_action r = Advance \<longleftrightarrow> accepted (check_slice (rq_evidence q) (rq_artifact q) (rq_ledger q)) \<and>
      depth_rejections env q = Inr []) \<and>
    (\<exists>t. tick (le_floats env) f t = Inr (la_row r, f') \<and>
      made_progress t = (la_action r = Advance) \<and> (violations t = 0) = (la_action r = Advance))"
  using gated_advance_cases [OF assms]
proof
  assume "la_action r = Advance \<and> accepted (check_slice (rq_evidence q) (rq_artifact q) (rq_ledger q)) \<and>
     depth_rejections env q = Inr [] \<and> tick (le_floats env) f progress_tick = Inr (la_row r, f')"
  then show ?thesis by (intro conjI exI [of _ progress_tick]) (simp_all add: progress_tick_def)
next
  assume a: "la_action r \<noteq> Advance \<and> (\<exists>n. 0 < n \<and> tick (le_floats env) f (reject_tick n) = Inr (la_row r, f')) \<and>
     \<not> (accepted (check_slice (rq_evidence q) (rq_artifact q) (rq_ledger q)) \<and> depth_rejections env q = Inr [])"
  then obtain n where "la_action r \<noteq> Advance" "0 < n"
    "tick (le_floats env) f (reject_tick n) = Inr (la_row r, f')" by blast
  then have "\<exists>t. tick (le_floats env) f t = Inr (la_row r, f') \<and>
      made_progress t = (la_action r = Advance) \<and> (violations t = 0) = (la_action r = Advance)"
    by (intro exI [of _ "reject_tick n"]) (simp add: reject_tick_def)
  with a show ?thesis by blast
qed

lemma escalate_streak:
  assumes "escalate fl f m c rs ps n = Inr (r, f')" "dget (la_row r) ''block_streak'' = JInt b"
  shows "la_action r = (if m \<le> b then HandOff else SelfHeal)"
  using assms by (auto simp: escalate_def py_bind_Inr_iff split: if_splits)

text \<open>
  From a driver row whose counters are numbers, and with a positive limit, a turn hands off exactly when
  the streak in the row it leaves has reached the limit, whichever pillar rejected the slice.
\<close>

theorem hands_off_at_limit:
  assumes "gated_advance env limit f q = Inr (r, f')" "read_row f = Inr row" "counters row c" "0 < loop_limit env limit"
  shows "\<exists>b. dget (la_row r) ''block_streak'' = JInt b \<and> (la_action r = HandOff \<longleftrightarrow> loop_limit env limit \<le> b)"
proof -
  obtain t where t: "tick (le_floats env) f t = Inr (la_row r, f')"
      "made_progress t = (la_action r = Advance)" "(violations t = 0) = (la_action r = Advance)"
    using gated_advance_cases [OF assms(1)] by (auto simp: progress_tick_def reject_tick_def)
  obtain row' where "tick (le_floats env) f t = Inr (row', Document (JObj row'))" "counters row' (count_tick t c)"
    "dget row' ''block_streak'' = JInt (int (snd (snd (count_tick t c))))" by (rule tick_counts [OF assms(2,3)])
  with t(1) have b: "dget (la_row r) ''block_streak'' = JInt (int (snd (snd (count_tick t c))))" by simp
  show ?thesis
  proof (cases "la_action r = Advance")
    case True
    with t(2) have "snd (snd (count_tick t c)) = 0" by (cases c) simp
    with True b assms(4) show ?thesis by simp
  next
    case False
    then obtain c rs ps n where "escalate (le_floats env) f (loop_limit env limit) c rs ps n = Inr (r, f')"
      using assms(1) by (auto simp: gated_advance_def Let_def py_bind_Inr_iff split: if_splits list.splits) (metis list.exhaust)
    from escalate_streak [OF this b] show ?thesis by (simp add: b)
  qed
qed

text \<open>
  Advance means every pillar passed, and the trust core is consulted first and alone: the gate
  advances exactly when the slice is accepted and no depth pillar rejects; when the slice is
  rejected the answer does not depend on the semgrep process, the workspace, the changed files,
  the baseline or the known ids.
\<close>

theorem pillar0_isolated:
  assumes "gated_advance env limit f q = Inr (r, f')"
  shows "(la_action r = Advance \<longleftrightarrow>
      accepted (check_slice (rq_evidence q) (rq_artifact q) (rq_ledger q)) \<and> depth_rejections env q = Inr [])
    \<and> (\<not> accepted (check_slice (rq_evidence q) (rq_artifact q) (rq_ledger q)) \<longrightarrow>
      gated_advance (env\<lparr>le_run_process := p, le_workspace := w\<rparr>) limit f
        (q\<lparr>rq_changed := c, rq_baseline := b, rq_known := k\<rparr>) = Inr (r, f'))"
proof (cases "accepted (check_slice (rq_evidence q) (rq_artifact q) (rq_ledger q))")
  case True
  from gated_advance_cases [OF assms] True show ?thesis by auto
next
  case False
  moreover have "la_action r \<noteq> Advance"
    using assms unfolding gated_advance_rejected [OF False] Let_def by (rule escalate_Inr(2))
  moreover have "gated_advance (env\<lparr>le_run_process := p, le_workspace := w\<rparr>) limit f
      (q\<lparr>rq_changed := c, rq_baseline := b, rq_known := k\<rparr>) = gated_advance env limit f q"
    using False by (simp add: gated_advance_rejected)
  ultimately show ?thesis using assms by simp
qed

subsection \<open>Witnesses\<close>

definition sample_env :: loop_env where
  "sample_env = \<lparr>le_floats = \<lparr>fl_add = (\<lambda>r _. r), fl_ge = (\<lambda>_ _. True)\<rparr>,
     le_bounds = exec_bounds_of (\<lambda>_. None), le_run_process = (\<lambda>_. NotFound), le_workspace = None\<rparr>"

definition empty_request :: advance_request where
  "empty_request = \<lparr>rq_evidence = JNull, rq_artifact = JNull, rq_ledger = JNull, rq_changed = NoChange,
     rq_baseline = None, rq_known = []\<rparr>"

lemma empty_request_rejected:
  "\<not> accepted (check_slice (rq_evidence empty_request) (rq_artifact empty_request) (rq_ledger empty_request))"
  by (simp add: empty_request_def check_slice_accepts)

lemma init_row_counters: "counters (init_row sid) (0, 0, 0)"
  by (simp add: counters_def init_row_def)

definition proven_request :: advance_request where
  "proven_request = empty_request\<lparr>
     rq_evidence := JObj (deliver ''t.py'' ''t'' ''1 passed''
       \<lparr>u_year = 2026, u_month = 6, u_day = 22, u_hour = 9, u_minute = 5, u_second = 0, u_micro = 0\<rparr> ''v1'' ''i1''),
     rq_artifact := JStr ''1 passed'', rq_ledger := JObj [(''sessions'', JList [JStr ''v1'', JStr ''i1''])]\<rparr>"

lemma proven_request_accepted:
  "accepted (check_slice (rq_evidence proven_request) (rq_artifact proven_request) (rq_ledger proven_request))"
  using sample_delivery_accepted by (simp add: proven_request_def)

theorem recurring_reject_hands_off_witness:
  "\<exists>rs. run_gate sample_env None (Document (JObj (init_row ''s''))) (replicate 6 empty_request) = Inr rs \<and>
    map la_action rs = [SelfHeal, SelfHeal, SelfHeal, SelfHeal, HandOff, HandOff]"
proof -
  have "loop_limit sample_env None = 5"
    by (simp add: loop_limit_def sample_env_def exec_bounds_of_def bound_int_def)
  moreover have "list_all (\<lambda>q. \<not> accepted (check_slice (rq_evidence q) (rq_artifact q) (rq_ledger q)))
      (replicate 6 empty_request)"
    using empty_request_rejected by (simp only: list_all_iff set_replicate_conv_if) simp
  ultimately show ?thesis
    using recurring_reject_hands_off [OF _ init_row_counters, of "replicate 6 empty_request" sample_env None "''s''"]
    by (simp add: upt_rec)
qed

lemma sample_advance:
  "\<exists>r f'. gated_advance sample_env (Some 3) Missing empty_request = Inr (r, f') \<and> la_action r = SelfHeal"
  by (simp add: gated_advance_rejected [OF empty_request_rejected] escalate_def tick_def tick_counters_def
      Let_def read_row_def init_row_def reject_tick_def sample_env_def loop_limit_def)

theorem gated_advance_ticks_once_witness:
  "(\<exists>t row f'. tick (le_floats sample_env) Missing t = Inr (row, f') \<and> \<not> made_progress t) \<and>
   \<not> (accepted (check_slice (rq_evidence empty_request) (rq_artifact empty_request) (rq_ledger empty_request)) \<and>
     depth_rejections sample_env empty_request = Inr [])"
proof -
  obtain r f' where r: "gated_advance sample_env (Some 3) Missing empty_request = Inr (r, f')" "la_action r = SelfHeal"
    using sample_advance by blast
  from gated_advance_ticks_once [OF r(1)] r(2) show ?thesis by auto
qed

theorem pillar0_isolated_witness:
  "\<exists>r f'. gated_advance (sample_env\<lparr>le_run_process := \<lambda>_. TimedOut, le_workspace := None\<rparr>) (Some 3) Missing
     (empty_request\<lparr>rq_changed := OnePath ''a.py'', rq_baseline := None, rq_known := []\<rparr>) = Inr (r, f') \<and>
     la_action r \<noteq> Advance"
  using sample_advance pillar0_isolated empty_request_rejected by metis

end
