(* ===== verification/Audit_Chain.thy ===== *)
theory Audit_Chain
  imports Prelude
begin

section \<open>The contract of a hash chain\<close>

text \<open>
  A chain is a list of entries, each with a row, the hash it chains onto and its own hash. The
  locale fixes the canonical text of a row and the digest; it asks that a digest has a fixed
  length, so that the concatenation of a text and a hash can be taken apart, and that the
  canonical text determines the row. The audit log interprets it.
\<close>

locale hash_chain =
  fixes body :: "'r \<Rightarrow> string" and H :: "string \<Rightarrow> string" and hash_length :: nat
  assumes length_H: "length (H s) = hash_length"
    and body_inject: "body r = body r' \<Longrightarrow> r = r'"
begin

fun linked :: "string \<Rightarrow> ('r \<times> string \<times> string) list \<Rightarrow> bool" where
  "linked p [] = True"
| "linked p ((r, q, h) # es) = (q = p \<and> h = H (body r @ q) \<and> linked h es)"

fun tip :: "string \<Rightarrow> ('r \<times> string \<times> string) list \<Rightarrow> string" where
  "tip p [] = p"
| "tip p ((r, q, h) # es) = tip h es"

text \<open>The texts that the hashes of a chain digest.\<close>

definition texts :: "('r \<times> string \<times> string) list \<Rightarrow> string list" where
  "texts es = map (\<lambda>(r, q, h). body r @ q) es"

lemma texts_snoc: "set (texts (es @ [(r, q, h)])) = insert (body r @ q) (set (texts es))"
  by (simp add: texts_def)

lemma linked_append: "linked p (es @ fs) \<longleftrightarrow> linked p es \<and> linked (tip p es) fs"
  by (induction p es rule: linked.induct) auto

lemma tip_append: "tip p (es @ fs) = tip (tip p es) fs"
  by (induction p es rule: tip.induct) auto

lemma linked_snoc:
  "linked p (es @ [(r, q, h)]) \<longleftrightarrow> linked p es \<and> q = tip p es \<and> h = H (body r @ q)"
  by (auto simp: linked_append)

lemma length_tip: "linked p es \<Longrightarrow> length p = hash_length \<Longrightarrow> length (tip p es) = hash_length"
  by (induction p es rule: linked.induct) (auto simp: length_H)

lemma linked_prefix: "linked p (es @ fs) \<Longrightarrow> linked p es"
  by (simp add: linked_append)

text \<open>The rows determine the chain, and the tip determines the rows, up to a collision.\<close>

lemma linked_rows: "linked p es \<Longrightarrow> linked p es' \<Longrightarrow> map fst es = map fst es' \<Longrightarrow> es = es'"
proof (induction es arbitrary: p es')
  case (Cons e es)
  obtain r q h where e: "e = (r, q, h)" by (cases e)
  from Cons.prems(3) e obtain q' h' fs where es': "es' = (r, q', h') # fs" and "map fst es = map fst fs"
    by (cases es') auto
  with Cons.prems e have "linked h es" "linked h fs" "es' = e # fs" by auto
  with Cons.IH \<open>map fst es = map fst fs\<close> show ?case by blast
qed simp

lemma tampering_collides:
  assumes "linked p es" "linked p' es'" "length es = length es'" "tip p es = tip p' es'"
    and "length p = hash_length" "length p' = hash_length"
  shows "p = p' \<and> es = es' \<or> (\<exists>x \<in> set (texts es). \<exists>y \<in> set (texts es'). x \<noteq> y \<and> H x = H y)"
  using assms(3,1,2,4)
proof (induction es es' rule: rev_induct2)
  case (4 e es e' es')
  obtain r q h r' q' h' where [simp]: "e = (r, q, h)" "e' = (r', q', h')" by (cases e, cases e')
  from 4 have l: "linked p es" "linked p' es'" and t: "q = tip p es" "q' = tip p' es'"
    and eq: "H (body r @ q) = H (body r' @ q')"
    by (auto simp: linked_snoc tip_append)
  show ?case
  proof (cases "body r @ q = body r' @ q'")
    case True
    have "length q = length q'"
      using length_tip [OF l(1) assms(5)] length_tip [OF l(2) assms(6)] t by simp
    with True have "q = q'" "r = r'" by (auto dest: body_inject)
    moreover have "p = p' \<and> es = es' \<or> (\<exists>x \<in> set (texts es). \<exists>y \<in> set (texts es'). x \<noteq> y \<and> H x = H y)"
      using 4 l t \<open>q = q'\<close> by simp
    ultimately show ?thesis using 4 t by (auto simp: linked_snoc texts_snoc)
  next
    case False
    with eq show ?thesis by (simp add: texts_snoc)
  qed
qed auto

end

end
