(* ===== verification/Audit_Log.thy ===== *)
theory Audit_Log
  imports Audit_Chain Json_Codec Evidence
begin

section \<open>The tamper-evident audit log and its verifier\<close>

text \<open>
  \<open>tools/audit_log.py\<close> (the producer, an append-only list mirrored to a JSONL file) and
  \<open>tools/audit_verify.py\<close> (the verifier of rows read back as dictionaries, with its command
  line as a function from the text it reads to an exit code). The clock is an argument of
  \<open>append_entry\<close>, and the mirror file is its contents.

  The producer's chain interprets \<open>hash_chain\<close>; the verifier is shown to accept what the
  mirror holds, to name the first broken row, and to let no change of a verified chain
  keep the tip without a collision of the digest.
\<close>

subsection \<open>Rows and entries\<close>

definition GENESIS_PREV_HASH :: string where
  "GENESIS_PREV_HASH = replicate 64 (CHR ''0'')"

record audit_row =
  ar_seq :: int
  ar_event :: string
  ar_tool :: "string option"
  ar_decision :: string
  ar_reason :: "string option"
  ar_requirement :: "string option"
  ar_actor :: string
  ar_created :: string

record audit_entry = audit_row +
  ae_prev :: string
  ae_hash :: string

definition canonical_row :: "json \<Rightarrow> json \<Rightarrow> json \<Rightarrow> json \<Rightarrow> json \<Rightarrow> json \<Rightarrow> json \<Rightarrow> json \<Rightarrow> string" where
  "canonical_row seq event_name tool_name decision reason requirement_id actor_agent created_at =
     dumps_sorted True (JObj
       [(''seq'', seq), (''event_name'', event_name), (''tool_name'', tool_name),
        (''decision'', decision), (''reason'', reason), (''requirement_id'', requirement_id),
        (''actor_agent'', actor_agent), (''created_at'', created_at)])"

definition opt_json :: "string option \<Rightarrow> json" where
  "opt_json x = (case x of None \<Rightarrow> JNull | Some s \<Rightarrow> JStr s)"

definition canonical_text :: "'a audit_row_scheme \<Rightarrow> string" where
  "canonical_text r = canonical_row (JInt (ar_seq r)) (JStr (ar_event r)) (opt_json (ar_tool r))
     (JStr (ar_decision r)) (opt_json (ar_reason r)) (opt_json (ar_requirement r))
     (JStr (ar_actor r)) (JStr (ar_created r))"

definition compute_entry_hash :: "string \<Rightarrow> string \<Rightarrow> string" where
  "compute_entry_hash bytes prev = sha256_hex (bytes @ prev)"

subsection \<open>The producer\<close>

record audit_log =
  al_entries :: "audit_entry list"
  al_file :: "string option"

definition new_log :: "string option \<Rightarrow> audit_log" where
  "new_log file = \<lparr>al_entries = [], al_file = file\<rparr>"

definition tip_hash :: "audit_log \<Rightarrow> string" where
  "tip_hash log = (if al_entries log = [] then GENESIS_PREV_HASH else ae_hash (last (al_entries log)))"

definition entry_json :: "audit_entry \<Rightarrow> json" where
  "entry_json e = JObj
     [(''seq'', JInt (ar_seq e)), (''event_name'', JStr (ar_event e)), (''tool_name'', opt_json (ar_tool e)),
      (''decision'', JStr (ar_decision e)), (''reason'', opt_json (ar_reason e)),
      (''requirement_id'', opt_json (ar_requirement e)), (''actor_agent'', JStr (ar_actor e)),
      (''created_at'', JStr (ar_created e)), (''prev_hash'', JStr (ae_prev e)),
      (''entry_hash'', JStr (ae_hash e))]"

definition mirror_line :: "audit_entry \<Rightarrow> string" where
  "mirror_line e = dumps_sorted True (entry_json e) @ [CHR 0x0A]"

record decision_call =
  dc_event :: string
  dc_tool :: "string option"
  dc_decision :: string
  dc_reason :: "string option"
  dc_requirement :: "string option"
  dc_actor :: string
  dc_now :: utc_instant

definition make_entry :: "audit_log \<Rightarrow> decision_call \<Rightarrow> audit_entry" where
  "make_entry log c =
     (let row = \<lparr>ar_seq = int (length (al_entries log)) + 1, ar_event = dc_event c, ar_tool = dc_tool c,
        ar_decision = dc_decision c, ar_reason = dc_reason c, ar_requirement = dc_requirement c,
        ar_actor = dc_actor c, ar_created = isoformat (dc_now c)\<rparr>
      in audit_row.extend row \<lparr>ae_prev = tip_hash log,
           ae_hash = compute_entry_hash (canonical_text row) (tip_hash log)\<rparr>)"

definition append_entry :: "audit_log \<Rightarrow> decision_call \<Rightarrow> (audit_log \<times> audit_entry) py" where
  "append_entry log c =
     (if dc_event c = [] then Inl ValueError
      else if dc_actor c = [] then Inl ValueError
      else if dc_decision c \<notin> {''allow'', ''block''} then Inl ValueError
      else let e = make_entry log c in
        Inr (\<lparr>al_entries = al_entries log @ [e],
              al_file = map_option (\<lambda>f. f @ mirror_line e) (al_file log)\<rparr>, e))"

fun verify_walk :: "string \<Rightarrow> int \<Rightarrow> audit_entry list \<Rightarrow> bool" where
  "verify_walk prev expected [] = True"
| "verify_walk prev expected (e # es) =
     (if ar_seq e \<noteq> expected then False
      else if ae_prev e \<noteq> prev then False
      else if ae_hash e \<noteq> compute_entry_hash (canonical_text e) (ae_prev e) then False
      else verify_walk (ae_hash e) (expected + 1) es)"

definition verify_entries :: "audit_entry list \<Rightarrow> bool" where
  "verify_entries es = verify_walk GENESIS_PREV_HASH 1 (sort_key ar_seq es)"

subsection \<open>The verifier\<close>

datatype chain_exc = ChainUnreadable | Escaped py_exc

record chain_result =
  cr_ok :: bool
  cr_broken_at :: "nat option"
  cr_count :: nat
  cr_broken_seq :: "json option"
  cr_why :: "string option"

definition DEFAULT_GENESIS_PREV_HASH :: string where
  "DEFAULT_GENESIS_PREV_HASH = sha256_hex []"

definition GENESIS_SENTINELS :: "string list" where
  "GENESIS_SENTINELS = [DEFAULT_GENESIS_PREV_HASH, GENESIS_PREV_HASH]"

definition field :: "dict \<Rightarrow> string \<Rightarrow> chain_exc + json" where
  "field row name = (case map_of row name of Some v \<Rightarrow> Inr v | None \<Rightarrow> Inl ChainUnreadable)"

definition row_canonical_bytes :: "dict \<Rightarrow> chain_exc + string" where
  "row_canonical_bytes row =
     py_bind (field row ''seq'') (\<lambda>seq. py_bind (field row ''event_name'') (\<lambda>event_name.
     py_bind (field row ''tool_name'') (\<lambda>tool_name. py_bind (field row ''decision'') (\<lambda>decision.
     py_bind (field row ''reason'') (\<lambda>reason. py_bind (field row ''requirement_id'') (\<lambda>requirement_id.
     py_bind (field row ''actor_agent'') (\<lambda>actor_agent. py_bind (field row ''created_at'') (\<lambda>created_at.
       Inr (canonical_row seq event_name tool_name decision reason requirement_id actor_agent created_at)))))))))"

definition select_genesis :: "dict list \<Rightarrow> string" where
  "select_genesis rows = (case rows of
     [] \<Rightarrow> DEFAULT_GENESIS_PREV_HASH
   | row # _ \<Rightarrow> (case field row ''prev_hash'' of
       Inr (JStr p) \<Rightarrow> if p \<in> set GENESIS_SENTINELS then p else DEFAULT_GENESIS_PREV_HASH
     | _ \<Rightarrow> DEFAULT_GENESIS_PREV_HASH))"

definition sort_rows :: "dict list \<Rightarrow> chain_exc + dict list" where
  "sort_rows rows = py_bind (py_map (\<lambda>r. field r ''seq'') rows) (\<lambda>seqs.
     case py_sort_by (\<lambda>r. dget r ''seq'') rows of Inr rs \<Rightarrow> Inr rs | Inl e \<Rightarrow> Inl (Escaped e))"

text \<open>One step of the walk: why the row breaks the chain, if it does, and its recomputed hash.\<close>

definition check_row :: "string \<Rightarrow> dict \<Rightarrow> chain_exc + string option \<times> string" where
  "check_row prev row =
     py_bind (field row ''prev_hash'') (\<lambda>stored_prev.
     py_bind (field row ''entry_hash'') (\<lambda>stored_entry.
     py_bind (row_canonical_bytes row) (\<lambda>bytes.
     py_bind (case stored_prev of JStr p \<Rightarrow> Inr (compute_entry_hash bytes p)
        | _ \<Rightarrow> Inl (Escaped AttributeError)) (\<lambda>recomputed.
       Inr (if stored_prev \<noteq> JStr prev then Some ''prev_hash mismatch''
            else if stored_entry \<noteq> JStr recomputed then Some ''entry_hash mismatch''
            else None, recomputed)))))"

fun walk_rows :: "string \<Rightarrow> nat \<Rightarrow> nat \<Rightarrow> dict list \<Rightarrow> chain_exc + chain_result" where
  "walk_rows prev index count [] =
     Inr \<lparr>cr_ok = True, cr_broken_at = None, cr_count = count, cr_broken_seq = None, cr_why = None\<rparr>"
| "walk_rows prev index count (row # rows) =
     py_bind (check_row prev row) (\<lambda>(why, recomputed). case why of
       Some w \<Rightarrow> Inr \<lparr>cr_ok = False, cr_broken_at = Some index, cr_count = count,
         cr_broken_seq = map_of row ''seq'', cr_why = Some w\<rparr>
     | None \<Rightarrow> walk_rows recomputed (Suc index) count rows)"

definition verify_chain :: "dict list \<Rightarrow> string option \<Rightarrow> chain_exc + chain_result" where
  "verify_chain rows genesis = py_bind (sort_rows rows) (\<lambda>ordered.
     walk_rows (case genesis of None \<Rightarrow> select_genesis ordered | Some g \<Rightarrow> g) 0 (length rows) ordered)"

definition verify_rows :: "dict list \<Rightarrow> string option \<Rightarrow> bool py" where
  "verify_rows rows genesis = (case verify_chain rows genesis of
     Inr r \<Rightarrow> Inr (cr_ok r)
   | Inl ChainUnreadable \<Rightarrow> Inr False
   | Inl (Escaped e) \<Rightarrow> Inl e)"

definition parse_line :: "string \<Rightarrow> chain_exc + json" where
  "parse_line l = (case loads l of Some v \<Rightarrow> Inr v | None \<Rightarrow> Inl ChainUnreadable)"

definition as_rows :: "json list \<Rightarrow> chain_exc + dict list" where
  "as_rows vs = py_map (\<lambda>v. case v of JObj d \<Rightarrow> Inr d | _ \<Rightarrow> Inl ChainUnreadable) vs"

definition load_entries :: "string \<Rightarrow> chain_exc + dict list" where
  "load_entries text =
     (let stripped = strip text in
      case stripped of [] \<Rightarrow> Inr []
      | c # _ \<Rightarrow>
          if c = CHR ''['' then
            (case loads stripped of Some (JList vs) \<Rightarrow> as_rows vs | _ \<Rightarrow> Inl ChainUnreadable)
          else py_bind (py_map parse_line
                 (filter (\<lambda>l. l \<noteq> []) (map strip (split_on line_break stripped)))) as_rows)"

text \<open>\<open>main\<close> on the text of its sources (\<open>None\<close>: a file could not be read), as an exit code.\<close>

definition audit_main :: "string option \<Rightarrow> string option \<Rightarrow> int py" where
  "audit_main genesis text =
     (case py_bind (case text of Some t \<Rightarrow> load_entries t | None \<Rightarrow> Inl ChainUnreadable)
        (\<lambda>rows. verify_chain rows genesis) of
        Inl ChainUnreadable \<Rightarrow> Inr 2
      | Inl (Escaped e) \<Rightarrow> Inl e
      | Inr r \<Rightarrow> Inr (if cr_ok r then 0 else 1))"

subsection \<open>The producer's chain\<close>

lemma opt_json_simps [simp]: "sort_json (opt_json x) = opt_json x" "wf_json (opt_json x)"
  "float_free (opt_json x)" "opt_json x = opt_json y \<longleftrightarrow> x = y"
  by (cases x; cases y; simp add: opt_json_def)+

lemma canonical_row_inject:
  assumes "canonical_row a b c d e f g h = canonical_row a' b' c' d' e' f' g' h'"
    and "list_all wf_json [a, b, c, d, e, f, g, h, a', b', c', d', e', f', g', h']"
  shows "map sort_json [a, b, c, d, e, f, g, h] = map sort_json [a', b', c', d', e', f', g', h']"
proof -
  let ?o = "\<lambda>a b c d e f g h. [(''seq'', a), (''event_name'', b), (''tool_name'', c),
    (''decision'', d), (''reason'', e), (''requirement_id'', f), (''actor_agent'', g), (''created_at'', h)]"
  have "sort_json (JObj (?o a b c d e f g h)) = sort_json (JObj (?o a' b' c' d' e' f' g' h'))"
    using assms unfolding canonical_row_def by (subst dumps_sorted_inject [symmetric]) auto
  then have eq: "map_option sort_json (map_of (?o a b c d e f g h) k) =
      map_option sort_json (map_of (?o a' b' c' d' e' f' g' h') k)" for k
    by (rule sort_json_obj_eq) simp_all
  show ?thesis
    using eq [of "''seq''"] eq [of "''event_name''"] eq [of "''tool_name''"] eq [of "''decision''"]
      eq [of "''reason''"] eq [of "''requirement_id''"] eq [of "''actor_agent''"] eq [of "''created_at''"]
    by simp
qed

lemma canonical_text_inject: "canonical_text (r :: audit_row) = canonical_text r' \<Longrightarrow> r = r'"
  unfolding canonical_text_def by (drule canonical_row_inject) auto

interpretation audit: hash_chain "canonical_text :: audit_row \<Rightarrow> string" sha256_hex 64
proof
  show "length (sha256_hex s) = 64" for s
    using is_hex64_sha256_hex [of s] by (simp add: is_hex64_def)
qed (rule canonical_text_inject)

definition link_of :: "audit_entry \<Rightarrow> audit_row \<times> string \<times> string" where
  "link_of e = (audit_row.truncate e, ae_prev e, ae_hash e)"

lemma canonical_text_truncate [simp]: "canonical_text (audit_row.truncate e) = canonical_text e"
  by (simp add: canonical_text_def audit_row.truncate_def)

lemma link_of_inject: "link_of e = link_of e' \<longleftrightarrow> e = e'"
  by (cases e; cases e') (simp add: link_of_def audit_row.truncate_def)

lemma verify_walk_linked:
  "verify_walk p n es \<longleftrightarrow>
     audit.linked p (map link_of es) \<and> map ar_seq es = map (\<lambda>k. n + int k) [0 ..< length es]"
proof (induction p n es rule: verify_walk.induct)
  case (2 p n e es)
  have "map (\<lambda>k. n + int k) [0 ..< length (e # es)] = n # map (\<lambda>k. n + 1 + int k) [0 ..< length es]"
    by (simp add: upt_conv_Cons map_Suc_upt [symmetric] comp_def add.assoc del: upt_Suc)
  with 2 show ?case by (auto simp: link_of_def compute_entry_hash_def)
qed simp

lemma tip_links: "audit.tip p (map link_of es) = (if es = [] then p else ae_hash (last es))"
  by (induction es arbitrary: p) (simp_all add: link_of_def)

text \<open>The text whose digest is the hash of an entry.\<close>

definition hashed_text :: "audit_entry \<Rightarrow> string" where
  "hashed_text e = canonical_text e @ ae_prev e"

lemma texts_links: "audit.texts (map link_of es) = map hashed_text es"
  by (simp add: audit.texts_def link_of_def hashed_text_def)

lemma verify_walk_sorted: "verify_walk p n es \<Longrightarrow> sort_key ar_seq es = es"
  by (rule sort_key_id_if_sorted) (simp add: verify_walk_linked sorted_iff_nth_mono)

lemma verify_walk_entries: "verify_walk GENESIS_PREV_HASH 1 es \<Longrightarrow> verify_entries es"
  by (simp add: verify_entries_def verify_walk_sorted)

lemma verify_walk_rev: "verify_walk p n es \<Longrightarrow> sort_key ar_seq (rev es) = es"
  using sort_key_set_unique [of "rev es" es ar_seq]
  by (simp add: verify_walk_sorted, simp add: verify_walk_linked rev_map [symmetric] distinct_map inj_on_def)

lemma make_entry_links:
  assumes "verify_walk GENESIS_PREV_HASH 1 (al_entries log)"
  shows "verify_walk GENESIS_PREV_HASH 1 (al_entries log @ [make_entry log c])"
proof -
  have "link_of (make_entry log c) = (audit_row.truncate (make_entry log c), tip_hash log,
      sha256_hex (canonical_text (audit_row.truncate (make_entry log c)) @ tip_hash log))"
    by (simp add: link_of_def make_entry_def Let_def audit_row.extend_def audit_row.truncate_def
        compute_entry_hash_def canonical_text_def)
  moreover have "ar_seq (make_entry log c) = int (length (al_entries log)) + 1"
    by (simp add: make_entry_def Let_def audit_row.extend_def)
  moreover have "tip_hash log = audit.tip GENESIS_PREV_HASH (map link_of (al_entries log))"
    by (simp add: tip_links tip_hash_def)
  ultimately show ?thesis
    using assms by (simp add: verify_walk_linked audit.linked_snoc)
qed

fun run_appends :: "audit_log \<Rightarrow> decision_call list \<Rightarrow> audit_log py" where
  "run_appends log [] = Inr log"
| "run_appends log (c # cs) = py_bind (append_entry log c) (\<lambda>(log', e). run_appends log' cs)"

definition log_inv :: "audit_log \<Rightarrow> bool" where
  "log_inv log = (verify_walk GENESIS_PREV_HASH 1 (al_entries log) \<and>
     al_file log = Some (concat (map mirror_line (al_entries log))))"

lemma append_entry_inv: "append_entry log c = Inr (log', e) \<Longrightarrow> log_inv log \<Longrightarrow> log_inv log'"
  by (auto simp: append_entry_def log_inv_def Let_def make_entry_links split: if_splits)

lemma run_appends_inv: "run_appends log cs = Inr log' \<Longrightarrow> log_inv log \<Longrightarrow> log_inv log'"
  by (induction cs arbitrary: log) (auto simp: py_bind_Inr_iff dest: append_entry_inv)

lemma new_log_inv: "log_inv (new_log (Some []))"
  by (simp add: log_inv_def new_log_def)

subsection \<open>Reading the mirror back\<close>

definition row_of :: "audit_entry \<Rightarrow> dict" where
  "row_of e = (case sort_json (entry_json e) of JObj d \<Rightarrow> d | _ \<Rightarrow> [])"

lemma row_of:
  shows "sort_json (entry_json e) = JObj (row_of e)" and "row_of e \<noteq> []"
    and "map_of (row_of e) ''seq'' = Some (JInt (ar_seq e))"
    and "map_of (row_of e) ''event_name'' = Some (JStr (ar_event e))"
    and "map_of (row_of e) ''tool_name'' = Some (opt_json (ar_tool e))"
    and "map_of (row_of e) ''decision'' = Some (JStr (ar_decision e))"
    and "map_of (row_of e) ''reason'' = Some (opt_json (ar_reason e))"
    and "map_of (row_of e) ''requirement_id'' = Some (opt_json (ar_requirement e))"
    and "map_of (row_of e) ''actor_agent'' = Some (JStr (ar_actor e))"
    and "map_of (row_of e) ''created_at'' = Some (JStr (ar_created e))"
    and "map_of (row_of e) ''prev_hash'' = Some (JStr (ae_prev e))"
    and "map_of (row_of e) ''entry_hash'' = Some (JStr (ae_hash e))"
proof -
  obtain d where d: "entry_json e = JObj d" "distinct (map fst d)" by (simp add: entry_json_def)
  obtain d' where d': "sort_json (JObj d) = JObj d'" "\<And>k. map_of d' k = map_option sort_json (map_of d k)"
    using sort_json_obj [OF d(2)] by metis
  then have r: "row_of e = d'" by (simp add: row_of_def d(1))
  show "sort_json (entry_json e) = JObj (row_of e)" using d d' r by simp
  from d(1) show m: "map_of (row_of e) ''seq'' = Some (JInt (ar_seq e))"
    "map_of (row_of e) ''event_name'' = Some (JStr (ar_event e))"
    "map_of (row_of e) ''tool_name'' = Some (opt_json (ar_tool e))"
    "map_of (row_of e) ''decision'' = Some (JStr (ar_decision e))"
    "map_of (row_of e) ''reason'' = Some (opt_json (ar_reason e))"
    "map_of (row_of e) ''requirement_id'' = Some (opt_json (ar_requirement e))"
    "map_of (row_of e) ''actor_agent'' = Some (JStr (ar_actor e))"
    "map_of (row_of e) ''created_at'' = Some (JStr (ar_created e))"
    "map_of (row_of e) ''prev_hash'' = Some (JStr (ae_prev e))"
    "map_of (row_of e) ''entry_hash'' = Some (JStr (ae_hash e))"
    unfolding r d'(2) by (auto simp: entry_json_def)
  from m(1) show "row_of e \<noteq> []" by auto
qed

lemma row_canonical_bytes_row_of: "row_canonical_bytes (row_of e) = Inr (canonical_text e)"
  by (simp add: row_canonical_bytes_def field_def row_of canonical_text_def)

lemma walk_rows_entries:
  "verify_walk p n es \<Longrightarrow> walk_rows p i c (map row_of es) =
     Inr \<lparr>cr_ok = True, cr_broken_at = None, cr_count = c, cr_broken_seq = None, cr_why = None\<rparr>"
  by (induction es arbitrary: p n i)
    (auto simp: check_row_def field_def row_of row_canonical_bytes_row_of split: if_splits)

lemma sort_rows_entries:
  assumes "verify_walk p n es"
  shows "sort_rows (map row_of es) = Inr (map row_of es)"
proof -
  have "py_map (\<lambda>r. field r ''seq'') (map row_of es) = Inr (map (JInt \<circ> ar_seq) es)"
    by (induction es) (simp_all add: field_def row_of)
  moreover have "map (\<lambda>r. the (py_num (dget r ''seq''))) (map row_of es) = map ar_seq es"
    by (simp add: dget_def dget_or_def row_of)
  then have "sort_key (\<lambda>r. the (py_num (dget r ''seq''))) (map row_of es) = map row_of es"
    using assms by (intro sort_key_id_if_sorted) (simp only: verify_walk_linked sorted_iff_nth_mono, simp)
  moreover have "list_all (\<lambda>r. py_num (dget r ''seq'') \<noteq> None) (map row_of es)"
    by (simp add: list_all_iff dget_def dget_or_def row_of)
  ultimately show ?thesis by (simp add: sort_rows_def py_sort_by_def)
qed

lemma verify_chain_entries:
  assumes "verify_walk GENESIS_PREV_HASH 1 es"
  shows "\<exists>r. verify_chain (map row_of es) None = Inr r \<and> cr_ok r"
proof (cases es)
  case Nil
  then show ?thesis by (simp add: verify_chain_def sort_rows_def py_sort_by_def)
next
  case (Cons e fs)
  then have "select_genesis (map row_of es) = GENESIS_PREV_HASH"
    using assms by (simp add: select_genesis_def field_def row_of GENESIS_SENTINELS_def split: if_splits)
  then show ?thesis
    using assms by (simp add: verify_chain_def sort_rows_entries walk_rows_entries)
qed

lemma mirror_line_shape:
  "mirror_line e = dumps True (JObj (row_of e)) @ [CHR 0x0A]"
  "trimmed (dumps True (JObj (row_of e)))"
  "list_all (\<lambda>c. \<not> line_break c) (dumps True (JObj (row_of e)))"
  "loads (dumps True (JObj (row_of e))) = Some (JObj (row_of e))"
proof -
  show "mirror_line e = dumps True (JObj (row_of e)) @ [CHR 0x0A]"
    by (simp add: mirror_line_def dumps_sorted_def row_of)
  show "trimmed (dumps True (JObj (row_of e)))"
    by (simp add: trimmed_def is_space_def code_literals)
  have "float_free (entry_json e)" by (simp add: entry_json_def)
  then have "list_all printable (dumps True (JObj (row_of e)))"
    using dumps_printable float_free_sort row_of(1) by metis
  then show "list_all (\<lambda>c. \<not> line_break c) (dumps True (JObj (row_of e)))"
    by (auto simp: list_all_iff printable_def line_break_def Let_def)
  have "wf_json (entry_json e)" by (simp add: entry_json_def)
  then show "loads (dumps True (JObj (row_of e))) = Some (JObj (row_of e))"
    using loads_dumps wf_sort_json row_of(1) by metis
qed

lemma load_entries_mirror: "load_entries (concat (map mirror_line es)) = Inr (map row_of es)"
proof (cases "es = []")
  case False
  let ?line = "\<lambda>e. dumps True (JObj (row_of e))"
  let ?ls = "map ?line es"
  have ls: "list_all trimmed ?ls" "?ls \<noteq> []" "list_all (list_all (\<lambda>c. \<not> line_break c)) ?ls"
    using False mirror_line_shape(2,3) by (auto simp: list_all_iff simp del: dumps.simps)
  have "map mirror_line es = map (\<lambda>l. l @ [CHR 0x0A]) ?ls"
    by (simp add: mirror_line_shape(1) del: dumps.simps)
  then have "concat (map mirror_line es) = concat (map (\<lambda>l. l @ [CHR 0x0A]) ?ls)" by (rule arg_cong)
  also have "\<dots> = join [CHR 0x0A] ?ls @ [CHR 0x0A]" by (rule trimmed_join(2) [OF ls(1,2)])
  finally have s: "strip (concat (map mirror_line es)) = join [CHR 0x0A] ?ls"
    by (simp only: strip_trimmed_newline [OF trimmed_join(1) [OF ls(1,2)]])
  have "line_break CHR 0x0A" by (simp add: line_break_def code_def)
  then have sp: "split_on line_break (join [CHR 0x0A] ?ls) = ?ls" by (rule split_on_join [OF ls(3,2)])
  have "map strip ?ls = ?ls"
    by (rule map_idI) (use ls(1) strip_trimmed in \<open>auto simp: list_all_iff simp del: dumps.simps\<close>)
  moreover have "filter (\<lambda>l. l \<noteq> []) ?ls = ?ls"
    by (rule filter_True) (use ls(1) in \<open>auto simp: list_all_iff trimmed_def simp del: dumps.simps\<close>)
  moreover obtain t where t: "join [CHR 0x0A] ?ls = CHR ''{'' # t"
    using False by (cases es) (auto simp: join_def)
  ultimately have f: "filter (\<lambda>l. l \<noteq> []) (map strip (split_on line_break (CHR ''{'' # t))) = ?ls"
    using sp by (simp only:)
  have p: "py_map parse_line ?ls = Inr (map (JObj \<circ> row_of) es)"
    by (induction es) (simp_all add: parse_line_def mirror_line_shape(4) del: dumps.simps)
  have a: "as_rows (map (JObj \<circ> row_of) es) = Inr (map row_of es)"
    by (induction es) (simp_all add: as_rows_def)
  have n: "(CHR ''{'' = CHR ''['') = False" by simp
  show ?thesis
    unfolding load_entries_def s Let_def t by (simp only: list.case n if_False f p a py_bind_simps)
qed (simp add: load_entries_def strip_def)

subsection \<open>Where a walk stops\<close>

fun walk_ok :: "string \<Rightarrow> dict list \<Rightarrow> bool" where
  "walk_ok p [] = True"
| "walk_ok p (row # rows) = (case check_row p row of Inr (None, h) \<Rightarrow> walk_ok h rows | _ \<Rightarrow> False)"

lemma walk_rows_result:
  assumes "walk_rows p i c rows = Inr r"
  shows "if cr_ok r then cr_broken_at r = None \<and> walk_ok p rows
    else \<exists>k < length rows. cr_broken_at r = Some (i + k) \<and> walk_ok p (take k rows) \<and>
      \<not> walk_ok p (take (Suc k) rows)"
  using assms
proof (induction rows arbitrary: p i)
  case (Cons row rows)
  from Cons.prems obtain why h where ch: "check_row p row = Inr (why, h)"
    by (auto simp: py_bind_Inr_iff)
  show ?case
  proof (cases why)
    case (Some w)
    with ch Cons.prems have "cr_ok r = False" "cr_broken_at r = Some i" by auto
    with ch Some show ?thesis by (auto intro: exI [of _ 0])
  next
    case None
    with ch Cons.prems have "walk_rows h (Suc i) c rows = Inr r" by simp
    from Cons.IH [OF this] show ?thesis
    proof (cases "cr_ok r")
      case False
      with Cons.IH [OF \<open>walk_rows h (Suc i) c rows = Inr r\<close>] obtain k where "k < length rows"
        "cr_broken_at r = Some (Suc i + k)" "walk_ok h (take k rows)" "\<not> walk_ok h (take (Suc k) rows)"
        by auto
      with ch None False show ?thesis by (auto intro!: exI [of _ "Suc k"])
    qed (use ch None in auto)
  qed
qed auto

subsection \<open>A small log\<close>

definition sample_call :: decision_call where
  "sample_call = \<lparr>dc_event = ''Stop'', dc_tool = None, dc_decision = ''block'', dc_reason = Some ''unproven'',
     dc_requirement = None, dc_actor = ''implementer'',
     dc_now = \<lparr>u_year = 2026, u_month = 6, u_day = 22, u_hour = 9, u_minute = 5, u_second = 0, u_micro = 0\<rparr>\<rparr>"

lemma sample_log:
  obtains log where "run_appends (new_log (Some [])) (replicate n sample_call) = Inr log"
    "length (al_entries log) = n" "verify_walk GENESIS_PREV_HASH 1 (al_entries log)"
proof -
  have "\<exists>log'. run_appends log (replicate n sample_call) = Inr log' \<and>
      length (al_entries log') = length (al_entries log) + n" for log
  proof (induction n arbitrary: log)
    case (Suc n)
    obtain log1 e where "append_entry log sample_call = Inr (log1, e)"
      "length (al_entries log1) = Suc (length (al_entries log))"
      by (simp add: append_entry_def sample_call_def Let_def)
    with Suc [of log1] show ?case by auto
  qed simp
  from this [of "new_log (Some [])"] obtain log where
    r: "run_appends (new_log (Some [])) (replicate n sample_call) = Inr log" and l: "length (al_entries log) = n"
    by (auto simp: new_log_def)
  moreover have "verify_walk GENESIS_PREV_HASH 1 (al_entries log)"
    using run_appends_inv [OF r new_log_inv] by (simp add: log_inv_def)
  ultimately show ?thesis by (rule that)
qed

subsection \<open>Properties\<close>

text \<open>
  C6. Producer and verifier agree: after any accepted sequence of appends, the chain verifies in
  memory, and the command line, given the mirror file and no genesis, reads back every entry
  and exits with 0.
\<close>

theorem audit_mirror_verifies:
  assumes "run_appends (new_log (Some [])) calls = Inr log"
  shows "verify_entries (al_entries log) \<and> audit_main None (al_file log) = Inr 0"
proof -
  have inv: "log_inv log" using run_appends_inv [OF assms new_log_inv] .
  then obtain r where "verify_chain (map row_of (al_entries log)) None = Inr r" "cr_ok r"
    using verify_chain_entries by (auto simp: log_inv_def)
  with inv show ?thesis
    by (simp add: audit_main_def log_inv_def load_entries_mirror verify_walk_entries)
qed

theorem audit_mirror_verifies_witness:
  "\<exists>log :: audit_log. length (al_entries log) = 2 \<and> audit_main None (al_file log) = Inr 0"
proof -
  obtain log where "run_appends (new_log (Some [])) (replicate 2 sample_call) = Inr log"
    and l: "length (al_entries log) = 2"
    and w: "verify_walk GENESIS_PREV_HASH 1 (al_entries log)"
    by (rule sample_log [of 2])
  from audit_mirror_verifies [OF this(1)] l show ?thesis by blast
qed

text \<open>
  C7. Tamper evidence: two verified logs of the same length whose last hashes agree hold the same
  entries, or one row text of the first and one of the second, each with the hash it chains
  onto, are different texts with the same SHA-256 digest. Rewriting any field of any row of a
  verified log, re-hashed or not, therefore changes its tip or exhibits a collision.
\<close>

theorem audit_tampering_collides:
  assumes "verify_entries es" "verify_entries es'" "length es = length es'" "es \<noteq> []"
    and "ae_hash (last (sort_key ar_seq es)) = ae_hash (last (sort_key ar_seq es'))"
  shows "sort_key ar_seq es = sort_key ar_seq es' \<or>
    (\<exists>e \<in> set es. \<exists>e' \<in> set es'. collide (hashed_text e) (hashed_text e'))"
proof -
  let ?s = "sort_key ar_seq es" and ?s' = "sort_key ar_seq es'"
  have "?s \<noteq> []" "?s' \<noteq> []" "length ?s = length ?s'"
    using assms(3,4) by (auto dest: arg_cong [of _ _ length])
  moreover have "audit.linked GENESIS_PREV_HASH (map link_of ?s)" "audit.linked GENESIS_PREV_HASH (map link_of ?s')"
    using assms(1,2) by (simp_all add: verify_entries_def verify_walk_linked)
  ultimately have "map link_of ?s = map link_of ?s' \<or>
      (\<exists>x \<in> hashed_text ` set es. \<exists>y \<in> hashed_text ` set es'. x \<noteq> y \<and> sha256_hex x = sha256_hex y)"
    using audit.tampering_collides [of GENESIS_PREV_HASH "map link_of ?s" GENESIS_PREV_HASH "map link_of ?s'"]
      assms(5) by (simp add: tip_links GENESIS_PREV_HASH_def texts_links)
  moreover have "inj link_of" by (simp add: inj_def link_of_inject)
  ultimately show ?thesis by (simp add: inj_map_eq_map collide_def)
qed

theorem audit_tampering_collides_witness:
  "\<exists>log :: audit_log. length (al_entries log) = 2 \<and>
     (sort_key ar_seq (al_entries log) = sort_key ar_seq (rev (al_entries log)) \<or>
      (\<exists>e \<in> set (al_entries log). \<exists>e' \<in> set (rev (al_entries log)). collide (hashed_text e) (hashed_text e')))"
proof -
  obtain log where "run_appends (new_log (Some [])) (replicate 2 sample_call) = Inr log"
    and l: "length (al_entries log) = 2"
    and w: "verify_walk GENESIS_PREV_HASH 1 (al_entries log)"
    by (rule sample_log [of 2])
  from w have "verify_entries (al_entries log)" "verify_entries (rev (al_entries log))"
    and "sort_key ar_seq (rev (al_entries log)) = sort_key ar_seq (al_entries log)"
    by (simp_all add: verify_walk_entries verify_entries_def verify_walk_sorted verify_walk_rev)
  with l show ?thesis
    using audit_tampering_collides [of "al_entries log" "rev (al_entries log)"] by force
qed

text \<open>
  The verifier names the first broken row: on a chain it can read, either every row links and
  recomputes, or \<open>broken_at\<close> is an index such that the rows before it verify on their own and
  the rows up to and including it do not.
\<close>

theorem verify_chain_first_break:
  assumes "verify_chain rows (Some genesis) = Inr r"
  shows "\<exists>ordered. sort_rows rows = Inr ordered \<and>
    (if cr_ok r then cr_broken_at r = None \<and> walk_ok genesis ordered
     else \<exists>k. k < length ordered \<and> cr_broken_at r = Some k \<and> walk_ok genesis (take k ordered) \<and>
       \<not> walk_ok genesis (take (Suc k) ordered))"
proof -
  from assms obtain ordered where "sort_rows rows = Inr ordered"
    "walk_rows genesis 0 (length rows) ordered = Inr r"
    by (auto simp: verify_chain_def py_bind_Inr_iff)
  with walk_rows_result [OF this(2)] show ?thesis by (auto split: if_splits)
qed

theorem verify_chain_first_break_witness:
  "\<exists>rows r. verify_chain rows (Some GENESIS_PREV_HASH) = Inr r \<and> \<not> cr_ok r \<and>
     (\<exists>ordered k. sort_rows rows = Inr ordered \<and> cr_broken_at r = Some k \<and> k < length ordered \<and>
        walk_ok GENESIS_PREV_HASH (take k ordered) \<and> \<not> walk_ok GENESIS_PREV_HASH (take (Suc k) ordered))"
proof -
  obtain log where "run_appends (new_log (Some [])) (replicate 1 sample_call) = Inr log"
    and l: "length (al_entries log) = 1"
    and w: "verify_walk GENESIS_PREV_HASH 1 (al_entries log)"
    by (rule sample_log [of 1])
  from l obtain e where e: "al_entries log = [e]" by (auto simp: length_Suc_conv)
  let ?bad = "e\<lparr>ae_prev := []\<rparr>"
  let ?r = "\<lparr>cr_ok = False, cr_broken_at = Some 0, cr_count = 1, cr_broken_seq = Some (JInt (ar_seq e)),
    cr_why = Some ''prev_hash mismatch''\<rparr>"
  have "verify_chain [row_of ?bad] (Some GENESIS_PREV_HASH) = Inr ?r"
    by (simp add: verify_chain_def sort_rows_def py_sort_by_def field_def row_of dget_def dget_or_def
        check_row_def row_canonical_bytes_row_of GENESIS_PREV_HASH_def)
  from this verify_chain_first_break [OF this] show ?thesis
    by (intro exI [of _ "[row_of ?bad]"] exI [of _ ?r]) auto
qed

text \<open>
  What the chain does not show: a log cut off after any entry still verifies, so dropped rows at
  the end leave no trace in the chain itself.
\<close>

theorem audit_truncation_verifies:
  assumes "verify_entries es"
  shows "verify_entries (take n (sort_key ar_seq es))"
proof -
  let ?s = "sort_key ar_seq es"
  have v: "verify_walk GENESIS_PREV_HASH 1 ?s" using assms by (simp add: verify_entries_def)
  have "map link_of ?s = map link_of (take n ?s) @ map link_of (drop n ?s)"
    by (metis append_take_drop_id map_append)
  then have "audit.linked GENESIS_PREV_HASH (map link_of (take n ?s))"
    using v audit.linked_prefix unfolding verify_walk_linked by metis
  moreover have "map ar_seq (take n ?s) = map (\<lambda>k. 1 + int k) [0 ..< length (take n ?s)]"
  proof -
    have "take n [0 ..< length ?s] = [0 ..< length (take n ?s)]"
      by (cases "n \<le> length ?s") simp_all
    then show ?thesis using v unfolding verify_walk_linked by (metis take_map)
  qed
  ultimately have "verify_walk GENESIS_PREV_HASH 1 (take n ?s)"
    by (simp add: verify_walk_linked)
  then show ?thesis by (rule verify_walk_entries)
qed

theorem audit_truncation_verifies_witness:
  "\<exists>log :: audit_log. length (al_entries log) = 2 \<and>
     verify_entries (take 1 (sort_key ar_seq (al_entries log)))"
proof -
  obtain log where "run_appends (new_log (Some [])) (replicate 2 sample_call) = Inr log"
    and l: "length (al_entries log) = 2"
    and w: "verify_walk GENESIS_PREV_HASH 1 (al_entries log)"
    by (rule sample_log [of 2])
  from verify_walk_entries [OF w] l audit_truncation_verifies show ?thesis by blast
qed

end
