(* ===== verification/State_Integrity.thy ===== *)
theory State_Integrity
  imports Json_Codec Sha256
begin

section \<open>Fingerprints of the model and of the resumed state\<close>

text \<open>
  \<open>tools/model_fingerprint.py\<close> freezes the shape of an approved coverage model;
  \<open>tools/state_integrity.py\<close> hashes the state a session resumes. Both hash a sorted
  projection. The lemmas show what the digests do not see (order, runtime fields, dependency
  order) and that everything else they hash is pinned, up to a collision of SHA-256.
\<close>

subsection \<open>The model fingerprint\<close>

definition FROZEN_FIELDS :: "string list" where
  "FROZEN_FIELDS = [''id'', ''type'', ''nfr_subtype'', ''priority'', ''dependencies'',
     ''acceptance_criteria'', ''in_scope'']"

definition frozen_row :: "dict \<Rightarrow> dict" where
  "frozen_row d = concat (map (\<lambda>k. case map_of d k of Some v \<Rightarrow> [(k, v)] | None \<Rightarrow> []) FROZEN_FIELDS)"

text \<open>\<open>{k: item[k] for k in _FROZEN_FIELDS if k in item}\<close> on an element that may not be a
  dictionary: \<open>in\<close> is a substring test on a string and a membership test on a list, after which
  indexing with a string raises.\<close>

fun frozen_of :: "json \<Rightarrow> dict py" where
  "frozen_of (JObj d) = Inr (frozen_row d)"
| "frozen_of (JStr s) = (if list_ex (\<lambda>k. contains k s) FROZEN_FIELDS then Inl TypeError else Inr [])"
| "frozen_of (JList xs) = (if list_ex (\<lambda>k. JStr k \<in> set xs) FROZEN_FIELDS then Inl TypeError else Inr [])"
| "frozen_of _ = Inl TypeError"

definition model_projection :: "json \<Rightarrow> dict list py" where
  "model_projection model = py_bind (obj_get_or model ''items'' (JList [])) (\<lambda>its.
     py_bind (py_iter its) (\<lambda>xs. py_bind (py_map frozen_of xs) (\<lambda>rows.
       if list_ex (\<lambda>r. map_of r ''id'' = None) rows then Inl KeyError
       else py_sort_by (\<lambda>r. dget r ''id'') rows)))"

definition fingerprint :: "json \<Rightarrow> string py" where
  "fingerprint model = py_bind (model_projection model) (\<lambda>rows.
     Inr (''sha256:'' @ sha256_hex (dumps_sorted True (JList (map JObj rows)))))"

subsection \<open>The hash of the resumed state\<close>

definition FEATURE_PROJECTION_KEYS :: "string list" where
  "FEATURE_PROJECTION_KEYS = [''id'', ''type'', ''priority'', ''dependencies'', ''acceptance_criteria'',
     ''in_scope'', ''status'']"

definition RUN_STATE_KEYS :: "string list" where
  "RUN_STATE_KEYS = [''phase'', ''current_item_id'', ''iteration_count'', ''violation_count'',
     ''last_commit_sha'']"

definition sorted_dependencies :: "json \<Rightarrow> json" where
  "sorted_dependencies v = JList (sort_key (\<lambda>d. dumps_spaced True (sort_json d))
     (case v of JNull \<Rightarrow> [] | JList xs \<Rightarrow> xs | _ \<Rightarrow> [v]))"

definition project_feature_item :: "dict \<Rightarrow> dict" where
  "project_feature_item d = map (\<lambda>k. (k, if k = ''dependencies'' then sorted_dependencies (dget d k)
     else dget d k)) FEATURE_PROJECTION_KEYS"

definition dicts_of :: "json list \<Rightarrow> dict list" where
  "dicts_of vs = concat (map (\<lambda>v. case v of JObj d \<Rightarrow> [d] | _ \<Rightarrow> []) vs)"

definition raw_items :: "json \<Rightarrow> json" where
  "raw_items feature_list = (case feature_list of
     JObj m \<Rightarrow> (case map_of m ''items'' of Some v \<Rightarrow> v | None \<Rightarrow> JObj m)
   | v \<Rightarrow> v)"

definition item_sort_id :: "dict \<Rightarrow> string" where
  "item_sort_id d = py_str (dget_or d ''id'' (JStr []))"

definition scoped_dict :: "dict \<Rightarrow> bool" where
  "scoped_dict d = truthy (dget d ''in_scope'')"

definition extract_in_scope_items :: "json \<Rightarrow> dict list" where
  "extract_in_scope_items feature_list =
     (let items = (case raw_items feature_list of
            JObj m \<Rightarrow> dicts_of (map snd m) | JList vs \<Rightarrow> dicts_of vs | _ \<Rightarrow> [])
      in sort_key item_sort_id (filter scoped_dict items))"

definition run_state_repr :: "json \<Rightarrow> json" where
  "run_state_repr progress =
     (let parsed = (case progress of JStr s \<Rightarrow> loads s | JObj d \<Rightarrow> Some (JObj d) | _ \<Rightarrow> None) in
      case parsed of Some (JObj d) \<Rightarrow> JObj (map (\<lambda>k. (k, dget d k)) RUN_STATE_KEYS)
      | _ \<Rightarrow> progress)"

definition canonical_state :: "json \<Rightarrow> json \<Rightarrow> json \<Rightarrow> json" where
  "canonical_state git_status progress feature_list = JObj
     [(''feature_items'', JList (map (JObj \<circ> project_feature_item) (extract_in_scope_items feature_list))),
      (''run_state'', run_state_repr progress), (''git_status'', git_status)]"

definition canonical_state_repr :: "json \<Rightarrow> json \<Rightarrow> json \<Rightarrow> string" where
  "canonical_state_repr git_status progress feature_list =
     dumps_sorted False (canonical_state git_status progress feature_list)"

definition compute_state_hash :: "json \<Rightarrow> json \<Rightarrow> json \<Rightarrow> string" where
  "compute_state_hash git_status progress feature_list =
     sha256_hex (canonical_state_repr git_status progress feature_list)"

definition check_resume_integrity :: "json \<Rightarrow> json \<Rightarrow> json \<Rightarrow> json \<Rightarrow> bool" where
  "check_resume_integrity stored git_status progress feature_list =
     (truthy stored \<and> compute_state_hash git_status progress feature_list = py_str stored)"

subsection \<open>Lemmas\<close>

definition items_doc :: "dict list \<Rightarrow> json" where
  "items_doc ds = JObj [(''items'', JList (map JObj ds))]"

lemma dicts_of_JObj [simp]: "dicts_of (map JObj ds) = ds"
  by (induction ds) (simp_all add: dicts_of_def)

lemma extract_items_doc: "extract_in_scope_items (items_doc ds) = sort_key item_sort_id (filter scoped_dict ds)"
  by (simp add: extract_in_scope_items_def raw_items_def items_doc_def)

lemma sort_key_map:
  assumes "distinct (map (f \<circ> g) xs)"
  shows "sort_key f (map g xs) = map g (sort_key (f \<circ> g) xs)"
proof -
  let ?q = "map g (sort_key (f \<circ> g) xs)"
  have "distinct (map f (map g xs))" "distinct (map f ?q)"
    using assms distinct_map_sort_key [of "f \<circ> g" "f \<circ> g" xs] by simp_all
  then have "sort_key f (map g xs) = sort_key f ?q"
    by (intro sort_key_set_unique) simp_all
  also have "\<dots> = ?q"
    by (rule sort_key_id_if_sorted) (use sorted_sort_key [of "f \<circ> g" xs] in simp)
  finally show ?thesis .
qed

lemma projections_unique:
  assumes "(\<lambda>d. (item_sort_id d, project_feature_item d)) ` set xs =
      (\<lambda>d. (item_sort_id d, project_feature_item d)) ` set ys"
    and "distinct (map item_sort_id xs)" "distinct (map item_sort_id ys)"
  shows "map project_feature_item (sort_key item_sort_id xs) = map project_feature_item (sort_key item_sort_id ys)"
proof -
  let ?g = "\<lambda>d. (item_sort_id d, project_feature_item d)"
  have c: "fst \<circ> ?g = item_sort_id" by (simp add: comp_def)
  have "sort_key fst (map ?g xs) = sort_key fst (map ?g ys)"
    using assms by (intro sort_key_set_unique) (simp_all add: c comp_def)
  then have "map ?g (sort_key item_sort_id xs) = map ?g (sort_key item_sort_id ys)"
    using assms(2,3) sort_key_map [of fst ?g xs] sort_key_map [of fst ?g ys] by (simp add: c)
  from arg_cong [OF this, of "map snd"] show ?thesis by (simp add: comp_def)
qed

lemma frozen_row_runtime:
  "frozen_row (dset (dset d ''status'' s) ''evidence'' e) = frozen_row d"
  by (simp add: frozen_row_def FROZEN_FIELDS_def dset_def update_conv')

text \<open>The parts of the canonical state, as documents up to the order of keys.\<close>

definition state_parts :: "json \<Rightarrow> json \<Rightarrow> json \<Rightarrow> json \<times> json \<times> json list" where
  "state_parts g p m = (sort_json g, sort_json (run_state_repr p),
     map (sort_json \<circ> JObj \<circ> project_feature_item) (extract_in_scope_items m))"

lemma canonical_state_parts:
  "sort_json (canonical_state g p m) = sort_json (canonical_state g' p' m') \<longleftrightarrow>
   state_parts g p m = state_parts g' p' m'"
proof
  let ?o = "\<lambda>g p m. [(''feature_items'', JList (map (JObj \<circ> project_feature_item) (extract_in_scope_items m))),
      (''run_state'', run_state_repr p), (''git_status'', g)]"
  assume "sort_json (canonical_state g p m) = sort_json (canonical_state g' p' m')"
  then have eq: "map_option sort_json (map_of (?o g p m) k) = map_option sort_json (map_of (?o g' p' m') k)" for k
    unfolding canonical_state_def by (rule sort_json_obj_eq) simp_all
  show "state_parts g p m = state_parts g' p' m'"
    using eq [of "''git_status''"] eq [of "''run_state''"] eq [of "''feature_items''"]
    by (simp add: comp_def state_parts_def)
next
  assume "state_parts g p m = state_parts g' p' m'"
  then show "sort_json (canonical_state g p m) = sort_json (canonical_state g' p' m')"
    by (simp add: canonical_state_def state_parts_def comp_def)
qed

lemma state_hash_nonempty [simp]: "compute_state_hash g p m \<noteq> []"
proof -
  have "is_hex64 (compute_state_hash g p m)" by (simp add: compute_state_hash_def)
  then show ?thesis by (auto simp: is_hex64_def)
qed

subsection \<open>Properties\<close>

text \<open>
  The resume hash is a function of the logical state: two coverage models with the same set of
  in-scope projections (each paired with the id it is sorted by, ids distinct) have the same
  hash, whatever the order of the items and of their dependencies, and whatever out-of-scope
  items, evidence, timestamps or other fields they carry.
\<close>

theorem state_hash_logical:
  assumes "(\<lambda>d. (item_sort_id d, project_feature_item d)) ` set (filter scoped_dict ds) =
      (\<lambda>d. (item_sort_id d, project_feature_item d)) ` set (filter scoped_dict ds')"
    and "distinct (map item_sort_id (filter scoped_dict ds))" "distinct (map item_sort_id (filter scoped_dict ds'))"
  shows "compute_state_hash g p (items_doc ds) = compute_state_hash g p (items_doc ds')"
proof -
  have "map project_feature_item (extract_in_scope_items (items_doc ds)) =
      map project_feature_item (extract_in_scope_items (items_doc ds'))"
    using projections_unique [OF assms] by (simp add: extract_items_doc)
  then have "canonical_state g p (items_doc ds) = canonical_state g p (items_doc ds')"
    unfolding canonical_state_def by (metis map_map)
  then show ?thesis by (simp add: compute_state_hash_def canonical_state_repr_def)
qed

definition state_item :: "string \<Rightarrow> json list \<Rightarrow> dict" where
  "state_item i deps = [(''id'', JStr i), (''in_scope'', JBool True), (''dependencies'', JList deps)]"

theorem state_hash_logical_witness:
  "compute_state_hash (JStr ''clean'') (JStr ''{}'')
     (items_doc [state_item ''B'' [JStr ''x'', JStr ''a''], state_item ''A'' [], [(''id'', JStr ''C'')]]) =
   compute_state_hash (JStr ''clean'') (JStr ''{}'')
     (items_doc [state_item ''A'' [], state_item ''B'' [JStr ''a'', JStr ''x'']])"
proof (rule state_hash_logical)
  have s: "scoped_dict (state_item i deps)" for i deps
    by (simp add: scoped_dict_def state_item_def)
  have n: "\<not> scoped_dict [(''id'', JStr ''C'')]" by (simp add: scoped_dict_def)
  have i: "item_sort_id (state_item i deps) = i" for i deps
    by (simp add: item_sort_id_def state_item_def)
  have p: "project_feature_item (state_item ''B'' [JStr ''x'', JStr ''a'']) =
      project_feature_item (state_item ''B'' [JStr ''a'', JStr ''x''])"
    by code_simp
  show "(\<lambda>d. (item_sort_id d, project_feature_item d)) ` set (filter scoped_dict
      [state_item ''B'' [JStr ''x'', JStr ''a''], state_item ''A'' [], [(''id'', JStr ''C'')]]) =
    (\<lambda>d. (item_sort_id d, project_feature_item d)) ` set (filter scoped_dict
      [state_item ''A'' [], state_item ''B'' [JStr ''a'', JStr ''x'']])"
    by (simp add: s n i p insert_commute)
  show "distinct (map item_sort_id (filter scoped_dict
      [state_item ''B'' [JStr ''x'', JStr ''a''], state_item ''A'' [], [(''id'', JStr ''C'')]]))"
    "distinct (map item_sort_id (filter scoped_dict [state_item ''A'' [], state_item ''B'' [JStr ''a'', JStr ''x'']]))"
    by (simp_all add: s n i)
qed

text \<open>
  The resume check pins the state: the recorded hash of one state passes the check against
  another exactly when both have the same git status, the same projection of the run state and
  the same list of item projections (as documents, key order aside), or when their two
  canonical texts are a collision of SHA-256.
\<close>

theorem resume_check_pins_state:
  assumes "wf_json (canonical_state g p m)" "wf_json (canonical_state g' p' m')"
  shows "check_resume_integrity (JStr (compute_state_hash g p m)) g' p' m' \<longleftrightarrow>
    state_parts g p m = state_parts g' p' m' \<or>
    collide (canonical_state_repr g p m) (canonical_state_repr g' p' m')"
proof -
  have "check_resume_integrity (JStr (compute_state_hash g p m)) g' p' m' \<longleftrightarrow>
      sha256_hex (canonical_state_repr g p m) = sha256_hex (canonical_state_repr g' p' m')"
    using state_hash_nonempty [of g p m] by (auto simp: check_resume_integrity_def compute_state_hash_def)
  moreover have "canonical_state_repr g p m = canonical_state_repr g' p' m' \<longleftrightarrow>
      state_parts g p m = state_parts g' p' m'"
    using assms by (simp only: canonical_state_repr_def dumps_sorted_inject canonical_state_parts)
  ultimately show ?thesis by (simp add: sha256_hex_eq)
qed

theorem resume_check_pins_state_witness:
  "check_resume_integrity (JStr (compute_state_hash (JStr ''clean'') (JStr ''x'') (items_doc [state_item ''A'' []])))
     (JStr ''dirty'') (JStr ''x'') (items_doc [state_item ''A'' []]) =
   collide (canonical_state_repr (JStr ''clean'') (JStr ''x'') (items_doc [state_item ''A'' []]))
     (canonical_state_repr (JStr ''dirty'') (JStr ''x'') (items_doc [state_item ''A'' []]))"
proof -
  have "wf_json (canonical_state (JStr ''clean'') (JStr ''x'') (items_doc [state_item ''A'' []]))"
    "wf_json (canonical_state (JStr ''dirty'') (JStr ''x'') (items_doc [state_item ''A'' []]))"
    by code_simp+
  from resume_check_pins_state [OF this] show ?thesis by (simp add: state_parts_def)
qed

text \<open>
  Proving items does not reopen the approval: whatever statuses and evidence the items of a
  model are given, the fingerprint stays the same.
\<close>

theorem fingerprint_runtime_fields:
  "fingerprint (items_doc (map (\<lambda>(d, s, e). dset (dset d ''status'' s) ''evidence'' e) xs)) =
   fingerprint (items_doc (map fst xs))"
proof -
  have "py_map frozen_of (map JObj (map (\<lambda>(d, s, e). dset (dset d ''status'' s) ''evidence'' e) xs)) =
      py_map frozen_of (map JObj (map fst xs))"
    by (induction xs) (auto simp: frozen_row_runtime)
  then show ?thesis by (simp add: fingerprint_def model_projection_def items_doc_def)
qed

text \<open>
  Everything else reopens it: two models have the same fingerprint exactly when their lists of
  frozen rows are the same (as documents, key order aside), or the texts of the two lists are a
  collision of SHA-256.
\<close>

theorem fingerprint_pins_shape:
  assumes "model_projection m = Inr rows" "model_projection m' = Inr rows'"
    and "wf_json (JList (map JObj rows))" "wf_json (JList (map JObj rows'))"
  shows "fingerprint m = fingerprint m' \<longleftrightarrow>
    map (sort_json \<circ> JObj) rows = map (sort_json \<circ> JObj) rows' \<or>
    collide (dumps_sorted True (JList (map JObj rows))) (dumps_sorted True (JList (map JObj rows')))"
proof -
  have "fingerprint m = fingerprint m' \<longleftrightarrow>
      sha256_hex (dumps_sorted True (JList (map JObj rows))) = sha256_hex (dumps_sorted True (JList (map JObj rows')))"
    using assms(1,2) by (simp add: fingerprint_def)
  then show ?thesis
    using dumps_sorted_inject [OF assms(3,4), of True] by (simp add: sha256_hex_eq comp_def)
qed

definition frozen_sample :: "string \<Rightarrow> json" where
  "frozen_sample i = items_doc [[(''id'', JStr i), (''status'', JStr ''proven'')]]"

theorem fingerprint_pins_shape_witness:
  "fingerprint (frozen_sample ''A'') = fingerprint (frozen_sample ''B'') \<longleftrightarrow>
    collide (dumps_sorted True (JList [JObj [(''id'', JStr ''A'')]]))
      (dumps_sorted True (JList [JObj [(''id'', JStr ''B'')]]))"
proof -
  have "model_projection (frozen_sample ''A'') = Inr [[(''id'', JStr ''A'')]]"
    "model_projection (frozen_sample ''B'') = Inr [[(''id'', JStr ''B'')]]" by code_simp+
  from fingerprint_pins_shape [OF this] show ?thesis by simp
qed

end
