(* ===== verification/Event_Bus.thy ===== *)
theory Event_Bus
  imports Json_Codec
begin

section \<open>The durable event bus\<close>

text \<open>
  \<open>tools/event_bus.py\<close>: an append-only event log, a queue of log indexes, a ledger of durable
  steps and a ledger of deliveries. A handler or a step function may do anything, including
  calls of the bus, so it is a function on the whole process state: the bus, the process-wide
  counter of event ids, the number of clock readings and the rest of the world. A handler is
  named by its object identity; \<open>key_of\<close> is its ledger key and \<open>code_of\<close> its code. The
  clock is the sequence \<open>clk\<close> of its readings. Locks are omitted: the model is one thread.
\<close>

subsection \<open>State\<close>

record bus =
  eb_log :: "dict list"
  eb_handlers :: "(string \<times> nat list) list"
  eb_steps :: "(string \<times> dict) list"
  eb_delivered :: "(string \<times> string) list"
  eb_queue :: "nat list"

record 'w process =
  pr_bus :: bus
  pr_seq :: nat
  pr_ticks :: nat
  pr_world :: 'w

definition empty_bus :: bus where
  "empty_bus = \<lparr>eb_log = [], eb_handlers = [], eb_steps = [], eb_delivered = [], eb_queue = []\<rparr>"

definition lookup :: "(string \<times> 'a) list \<Rightarrow> string \<Rightarrow> 'a \<Rightarrow> 'a" where
  "lookup kvs k d = (case map_of kvs k of Some v \<Rightarrow> v | None \<Rightarrow> d)"

type_synonym clock = "nat \<Rightarrow> string"

definition utc_now :: "clock \<Rightarrow> 'w process \<Rightarrow> string \<times> 'w process" where
  "utc_now clk p = (clk (pr_ticks p), p\<lparr>pr_ticks := Suc (pr_ticks p)\<rparr>)"

definition pad12 :: "nat \<Rightarrow> string" where
  "pad12 n = (let d = dec_digits n in replicate (12 - length d) (CHR ''0'') @ d)"

definition new_event_id :: "'w process \<Rightarrow> string \<times> 'w process" where
  "new_event_id p = (''evt-'' @ pad12 (Suc (pr_seq p)), p\<lparr>pr_seq := Suc (pr_seq p)\<rparr>)"

definition setdefault :: "dict \<Rightarrow> string \<Rightarrow> json \<Rightarrow> dict" where
  "setdefault d k v = (case map_of d k of None \<Rightarrow> d @ [(k, v)] | Some _ \<Rightarrow> d)"

subsection \<open>Emitting\<close>

fun index_of :: "json \<Rightarrow> nat \<Rightarrow> dict list \<Rightarrow> nat option" where
  "index_of i n [] = None"
| "index_of i n (e # es) = (if py_eq (dget e ''id'') i then Some n else index_of i (Suc n) es)"

definition emit :: "clock \<Rightarrow> 'w process \<Rightarrow> json \<Rightarrow> ('w process \<times> dict) py" where
  "emit clk p event = (case event of
     JObj d \<Rightarrow>
       (case dget d ''name'' of
          JStr (c # cs) \<Rightarrow>
            (let (i, p) = new_event_id p;
                 d = setdefault d ''id'' (JStr i);
                 (now, p) = utc_now clk p;
                 d = setdefault d ''ts'' (JStr now);
                 b = pr_bus p
             in (case index_of (dget d ''id'') 0 (eb_log b) of
                   None \<Rightarrow> Inr (p\<lparr>pr_bus := b\<lparr>eb_log := eb_log b @ [d],
                       eb_queue := eb_queue b @ [length (eb_log b)]\<rparr>\<rparr>, d)
                 | Some k \<Rightarrow> Inr (p\<lparr>pr_bus := b\<lparr>eb_queue := eb_queue b @ [k]\<rparr>\<rparr>, eb_log b ! k)))
        | _ \<Rightarrow> Inl ValueError)
   | _ \<Rightarrow> Inl TypeError)"

subsection \<open>Handlers\<close>

definition on :: "bus \<Rightarrow> string \<Rightarrow> nat \<Rightarrow> bus py" where
  "on b event_name h =
     (if event_name = [] then Inl ValueError
      else let hs = lookup (eb_handlers b) event_name [] in
        Inr (b\<lparr>eb_handlers := AList.update event_name (if h \<in> set hs then hs else hs @ [h]) (eb_handlers b)\<rparr>))"

definition unsubscribe :: "bus \<Rightarrow> string \<Rightarrow> nat \<Rightarrow> bus" where
  "unsubscribe b event_name h = (case map_of (eb_handlers b) event_name of
     None \<Rightarrow> b
   | Some hs \<Rightarrow> b\<lparr>eb_handlers := AList.update event_name (remove1 h hs) (eb_handlers b)\<rparr>)"

subsection \<open>Durable steps\<close>

datatype step_outcome = Value json | NotSerializable | RaisedError string

datatype step_result = Memo json | PreviouslyFailed json | DurableStepError

definition replay :: "dict \<Rightarrow> step_result" where
  "replay rec =
     (if dget rec ''status'' = JStr ''ok'' then Memo (dget rec ''value'')
      else if dget rec ''status'' = JStr ''error'' then PreviouslyFailed (dget rec ''error'')
      else DurableStepError)"

definition step_record :: "string \<Rightarrow> json \<Rightarrow> json \<Rightarrow> string \<Rightarrow> dict" where
  "step_record status v err now = [(''status'', JStr status), (''value'', v), (''error'', err),
     (''recorded_at'', JStr now)]"

text \<open>The first record of a step wins: what the function itself recorded under the same id, or
  a concurrent caller, is not overwritten.\<close>

definition record_step ::
    "clock \<Rightarrow> 'w process \<Rightarrow> string \<Rightarrow> string \<Rightarrow> json \<Rightarrow> json \<Rightarrow> 'w process \<times> step_result" where
  "record_step clk p step_id status v err =
     (case map_of (eb_steps (pr_bus p)) step_id of
        Some rec \<Rightarrow> (p, replay rec)
      | None \<Rightarrow> (let (now, p) = utc_now clk p; rec = step_record status v err now; b = pr_bus p
          in (p\<lparr>pr_bus := b\<lparr>eb_steps := eb_steps b @ [(step_id, rec)]\<rparr>\<rparr>, replay rec)))"

definition run_step ::
    "clock \<Rightarrow> 'w process \<Rightarrow> string \<Rightarrow> ('w process \<Rightarrow> 'w process \<times> step_outcome) \<Rightarrow>
     ('w process \<times> step_result) py" where
  "run_step clk p step_id fn =
     (if step_id = [] then Inl ValueError
      else case map_of (eb_steps (pr_bus p)) step_id of
        Some rec \<Rightarrow> Inr (p, replay rec)
      | None \<Rightarrow> (case fn p of
          (p', RaisedError e) \<Rightarrow> Inr (record_step clk p' step_id ''error'' JNull (JStr e))
        | (p', NotSerializable) \<Rightarrow> Inr (p', DurableStepError)
        | (p', Value v) \<Rightarrow> Inr (record_step clk p' step_id ''ok'' v JNull)))"

definition has_step :: "bus \<Rightarrow> string \<Rightarrow> bool" where
  "has_step b step_id = (map_of (eb_steps b) step_id \<noteq> None)"

subsection \<open>Delivery\<close>

datatype receipt =
    Skipped json string
  | Deduplicated json string string string
  | Delivered json string string string

definition delivery_id :: "json \<Rightarrow> string \<Rightarrow> string" where
  "delivery_id event_id key = py_str event_id @ '':'' @ key"

record 'w handler_table =
  key_of :: "nat \<Rightarrow> string"
  code_of :: "nat \<Rightarrow> dict \<Rightarrow> 'w process \<Rightarrow> 'w process \<times> bool"

text \<open>One event, handler by handler; the boolean says whether a handler raised, which ends the
  call of \<open>deliver\<close>.\<close>

fun dispatch ::
    "'w handler_table \<Rightarrow> clock \<Rightarrow> dict \<Rightarrow> nat list \<Rightarrow> 'w process \<Rightarrow> 'w process \<times> receipt list \<times> bool" where
  "dispatch t clk e [] p = (p, [], False)"
| "dispatch t clk e (h # hs) p =
     (let i = dget_or e ''id'' (JStr []); name = py_str (dget_or e ''name'' (JStr []));
          key = key_of t h; did = delivery_id i key in
      if map_of (eb_delivered (pr_bus p)) did \<noteq> None then
        (let (p', rs, raised) = dispatch t clk e hs p in (p', Deduplicated i name key did # rs, raised))
      else case code_of t h e p of
        (p', True) \<Rightarrow> (p', [], True)
      | (p', False) \<Rightarrow>
          (let (now, p') = utc_now clk p'; b = pr_bus p';
               p' = p'\<lparr>pr_bus := b\<lparr>eb_delivered := AList.update did now (eb_delivered b)\<rparr>\<rparr>;
               (p', rs, raised) = dispatch t clk e hs p'
           in (p', Delivered i name key did # rs, raised)))"

definition handlers_of :: "bus \<Rightarrow> dict \<Rightarrow> nat list" where
  "handlers_of b e = (case dget_or e ''name'' (JStr []) of JStr n \<Rightarrow> lookup (eb_handlers b) n [] | _ \<Rightarrow> [])"

text \<open>Handlers may enqueue events without end, so the loop is a partial function; the receipts are
  lost when a handler raises, and when a queued index is beyond the log (\<open>IndexError\<close>), which a
  restored queue may hold.\<close>

partial_function (option) deliver ::
    "'w handler_table \<Rightarrow> clock \<Rightarrow> 'w process \<Rightarrow> ('w process \<times> receipt list option) option" where
  "deliver t clk p =
     (case eb_queue (pr_bus p) of
        [] \<Rightarrow> Some (p, Some [])
      | k # q \<Rightarrow>
          (let b = pr_bus p; p = p\<lparr>pr_bus := b\<lparr>eb_queue := q\<rparr>\<rparr>; e = eb_log b ! k; hs = handlers_of b e in
           if length (eb_log b) \<le> k then Some (p, None)
           else if hs = [] then
             Option.bind (deliver t clk p) (\<lambda>(p', rs). Some (p', map_option
               ((#) (Skipped (dget_or e ''id'' (JStr [])) (py_str (dget_or e ''name'' (JStr []))))) rs))
           else case dispatch t clk e hs p of
             (p', rs, raised) \<Rightarrow>
               if raised then Some (p', None)
               else Option.bind (deliver t clk p') (\<lambda>(p'', rs'). Some (p'', map_option ((@) rs) rs'))))"

definition pending :: "bus \<Rightarrow> nat" where
  "pending b = length (eb_queue b)"

definition delivered_ids :: "bus \<Rightarrow> string list" where
  "delivered_ids b = sort (map fst (eb_delivered b))"

subsection \<open>Snapshot and restore\<close>

definition snapshot :: "bus \<Rightarrow> json" where
  "snapshot b = JObj
     [(''log'', JList (map JObj (eb_log b))),
      (''queue'', JList (map (JInt \<circ> int) (eb_queue b))),
      (''steps'', JObj (map (\<lambda>(k, v). (k, JObj v)) (eb_steps b))),
      (''delivered'', JObj (map (\<lambda>(k, v). (k, JStr v)) (eb_delivered b)))]"

fun as_dict :: "json \<Rightarrow> dict py" where
  "as_dict (JObj d) = Inr d"
| "as_dict _ = Inl TypeError"

fun as_index :: "json \<Rightarrow> nat py" where
  "as_index (JInt i) = (if 0 \<le> i then Inr (nat i) else Inl IndexError)"
| "as_index _ = Inl TypeError"

fun as_text :: "json \<Rightarrow> string py" where
  "as_text (JStr s) = Inr s"
| "as_text _ = Inl TypeError"

text \<open>A state of the shape \<open>snapshot\<close> writes, read back: a step with no status is refused
  (\<open>ValueError\<close> stands for \<open>DurableStepError\<close>). A state of another shape is refused
  here, where the code copies some of them unchecked and fails at their first use.\<close>

definition restore :: "json \<Rightarrow> bus py" where
  "restore state =
     py_bind (as_dict state) (\<lambda>st.
     py_bind (py_bind (py_iter (dget_or st ''log'' (JList []))) (py_map as_dict)) (\<lambda>log.
     py_bind (py_bind (py_iter (dget_or st ''queue'' (JList []))) (py_map as_index)) (\<lambda>queue.
     py_bind (as_dict (dget_or st ''steps'' (JObj []))) (\<lambda>steps.
     py_bind (py_map (\<lambda>(k, v). py_bind (as_dict v) (\<lambda>r.
         if map_of r ''status'' = None then Inl ValueError else Inr (k, r))) steps) (\<lambda>steps.
     py_bind (as_dict (dget_or st ''delivered'' (JObj []))) (\<lambda>dl.
     py_bind (py_map (\<lambda>(k, v). py_bind (as_text v) (\<lambda>s. Inr (k, s))) dl) (\<lambda>delivered.
       Inr \<lparr>eb_log = log, eb_handlers = [], eb_steps = steps, eb_delivered = delivered,
            eb_queue = queue\<rparr>)))))))"

subsection \<open>Lemmas\<close>

definition steps_terminal :: "bus \<Rightarrow> bool" where
  "steps_terminal b = list_all (\<lambda>(k, r). map_of r ''status'' \<noteq> None) (eb_steps b)"

lemma restore_of_snapshot:
  assumes "steps_terminal b"
  shows "restore (snapshot b) = Inr (b\<lparr>eb_handlers := []\<rparr>)"
proof -
  have "py_map as_dict (map JObj es) = Inr es" for es
    by (induction es) simp_all
  moreover have "py_map as_index (map (JInt \<circ> int) ns) = Inr ns" for ns
    by (induction ns) simp_all
  moreover have "py_map (\<lambda>(k, v). py_bind (as_dict v) (\<lambda>r.
      if map_of r ''status'' = None then Inl ValueError else Inr (k, r))) (map (\<lambda>(k, v). (k, JObj v)) rs) = Inr rs"
    if "list_all (\<lambda>(k, r). map_of r ''status'' \<noteq> None) rs" for rs :: "(string \<times> dict) list"
    using that by (induction rs) auto
  moreover have "py_map (\<lambda>(k, v). py_bind (as_text v) (\<lambda>s. Inr (k, s))) (map (\<lambda>(k, v). (k, JStr v)) ds) = Inr ds"
    for ds :: "(string \<times> string) list"
    by (induction ds) auto
  ultimately show ?thesis
    using assms by (simp add: restore_def snapshot_def steps_terminal_def)
qed

lemma replay_step_record [simp]:
  "replay (step_record ''ok'' v JNull now) = Memo v"
  "replay (step_record ''error'' JNull (JStr e) now) = PreviouslyFailed (JStr e)"
  by (simp_all add: replay_def step_record_def)

lemma record_step_ledger:
  "record_step clk p sid status v err = (p', r) \<Longrightarrow>
     \<exists>rec. map_of (eb_steps (pr_bus p')) sid = Some rec \<and> r = replay rec"
  by (auto simp: record_step_def utc_now_def Let_def map_add_def split: option.splits)

lemma run_step_ledger:
  assumes "run_step clk p sid fn = Inr (p', r)" "r \<noteq> DurableStepError"
  shows "\<exists>rec. map_of (eb_steps (pr_bus p')) sid = Some rec \<and> r = replay rec"
  using assms record_step_ledger
  by (fastforce simp: run_step_def split: if_splits option.splits prod.splits step_outcome.splits)

text \<open>Handlers that leave the bus alone.\<close>

definition quiet :: "'w handler_table \<Rightarrow> bool" where
  "quiet t = (\<forall>h e p. pr_bus (fst (code_of t h e p)) = pr_bus p)"

text \<open>The delivery ids of the receipts of deliveries.\<close>

fun receipt_ids :: "receipt list \<Rightarrow> string list" where
  "receipt_ids [] = []"
| "receipt_ids (Delivered i n key did # rs) = did # receipt_ids rs"
| "receipt_ids (_ # rs) = receipt_ids rs"

lemma receipt_ids_append [simp]: "receipt_ids (rs @ rs') = receipt_ids rs @ receipt_ids rs'"
  by (induction rs rule: receipt_ids.induct) simp_all

lemma set_delivered_ids: "set (delivered_ids b) = dom (map_of (eb_delivered b))"
  by (simp add: delivered_ids_def dom_map_of_conv_image_fst)

definition event_deliveries :: "'w handler_table \<Rightarrow> dict \<Rightarrow> nat list \<Rightarrow> string list" where
  "event_deliveries t e hs = map (\<lambda>h. delivery_id (dget_or e ''id'' (JStr [])) (key_of t h)) hs"

text \<open>The deliveries that the queue asks for: each queued event with each handler of its name.\<close>

definition pending_deliveries :: "'w handler_table \<Rightarrow> bus \<Rightarrow> string list" where
  "pending_deliveries t b =
     concat (map (\<lambda>k. event_deliveries t (eb_log b ! k) (handlers_of b (eb_log b ! k))) (eb_queue b))"

definition queue_in_log :: "bus \<Rightarrow> bool" where
  "queue_in_log b = list_all (\<lambda>k. k < length (eb_log b)) (eb_queue b)"

definition once :: "bus \<Rightarrow> string set \<Rightarrow> string list \<Rightarrow> bus \<Rightarrow> bool" where
  "once b wanted ids b' = (distinct ids \<and> set ids = wanted - set (delivered_ids b) \<and>
     set (delivered_ids b') = set (delivered_ids b) \<union> wanted)"

lemma once_refl: "set (delivered_ids b') = set (delivered_ids b) \<Longrightarrow> once b {} [] b'"
  by (simp add: once_def)

lemma once_trans: "once b P is b' \<Longrightarrow> once b' Q js b'' \<Longrightarrow> once b (P \<union> Q) (is @ js) b''"
  unfolding once_def by auto

lemma once_mark:
  "did \<notin> set (delivered_ids b) \<Longrightarrow>
     once b {did} [did] (b\<lparr>eb_delivered := AList.update did now (eb_delivered b)\<rparr>)"
  by (auto simp: once_def set_delivered_ids update_conv')

lemma once_known: "did \<in> set (delivered_ids b) \<Longrightarrow> once b P is b' \<Longrightarrow> once b (insert did P) is b'"
  by (auto simp: once_def)

lemma handlers_of_same: "eb_handlers b' = eb_handlers b \<Longrightarrow> handlers_of b' = handlers_of b"
  by (simp add: handlers_of_def [abs_def] cong: json.case_cong)

definition same_but_ledger :: "bus \<Rightarrow> bus \<Rightarrow> bool" where
  "same_but_ledger b b' = (eb_queue b' = eb_queue b \<and> eb_log b' = eb_log b \<and> eb_handlers b' = eb_handlers b)"

lemma dispatch_quiet:
  assumes "quiet t" "dispatch t clk e hs p = (p', rs, raised)"
  shows "same_but_ledger (pr_bus p) (pr_bus p') \<and>
    once (pr_bus p) (set (event_deliveries t e hs)) (receipt_ids rs) (pr_bus p') \<or> raised"
  using assms(2)
proof (induction hs arbitrary: p p' rs)
  case Nil
  then show ?case by (auto simp: event_deliveries_def same_but_ledger_def once_refl)
next
  case (Cons h hs)
  let ?did = "delivery_id (dget_or e ''id'' (JStr [])) (key_of t h)"
  have ids: "set (event_deliveries t e (h # hs)) = insert ?did (set (event_deliveries t e hs))"
    by (simp add: event_deliveries_def)
  show ?case
  proof (cases "map_of (eb_delivered (pr_bus p)) ?did")
    case (Some v)
    then have "?did \<in> set (delivered_ids (pr_bus p))" by (auto simp: set_delivered_ids)
    from once_known [OF this] Cons Some show ?thesis by (auto simp: Let_def ids split: prod.splits)
  next
    case None
    obtain q b where c: "code_of t h e p = (q, b)" by force
    then have q: "pr_bus q = pr_bus p" using assms(1) by (metis fst_conv quiet_def)
    show ?thesis
    proof (cases b)
      case True
      with Cons.prems None c show ?thesis by (simp add: Let_def)
    next
      case False
      define q' where "q' = snd (utc_now clk q)\<lparr>pr_bus := pr_bus p\<lparr>eb_delivered :=
        AList.update ?did (fst (utc_now clk q)) (eb_delivered (pr_bus p))\<rparr>\<rparr>"
      obtain p2 rs2 r2 where d: "dispatch t clk e hs q' = (p2, rs2, r2)" by (cases "dispatch t clk e hs q'")
      with Cons.prems None c False q have e: "p' = p2" "raised = r2" "receipt_ids rs = [?did] @ receipt_ids rs2"
        by (auto simp: Let_def q'_def utc_now_def)
      have "once (pr_bus p) {?did} [?did] (pr_bus q')" "same_but_ledger (pr_bus p) (pr_bus q')"
        using once_mark [of ?did "pr_bus p"] None by (auto simp: q'_def set_delivered_ids same_but_ledger_def)
      with once_trans [OF this(1)] Cons.IH [OF d [folded \<open>raised = r2\<close>]] show ?thesis
        by (auto simp: e(1,3) ids same_but_ledger_def)
    qed
  qed
qed

lemma dispatch_not_raised:
  assumes "\<And>h e p. \<not> snd (code_of t h e p)"
  shows "\<not> snd (snd (dispatch t clk e hs p))"
proof (induction hs arbitrary: p)
  case (Cons h hs)
  obtain p' b where "code_of t h e p = (p', b)" by force
  moreover have "dispatch t clk e hs q = (q', rs, r) \<Longrightarrow> \<not> r" for q q' rs r
    using Cons.IH [of q] by simp
  ultimately show ?case
    using assms [of h e p] by (auto simp: Let_def split: prod.splits)
qed simp

lemma deliver_quiet:
  assumes "quiet t" "\<And>h e p. \<not> snd (code_of t h e p)"
  shows "queue_in_log (pr_bus p) \<Longrightarrow> \<exists>p' rs. deliver t clk p = Some (p', Some rs) \<and> eb_queue (pr_bus p') = [] \<and>
    eb_log (pr_bus p') = eb_log (pr_bus p) \<and>
    once (pr_bus p) (set (pending_deliveries t (pr_bus p))) (receipt_ids rs) (pr_bus p')"
proof (induction "eb_queue (pr_bus p)" arbitrary: p)
  case Nil
  then show ?case by (subst deliver.simps) (simp add: pending_deliveries_def once_refl)
next
  case (Cons k q)
  let ?p = "p\<lparr>pr_bus := (pr_bus p)\<lparr>eb_queue := q\<rparr>\<rparr>" and ?e = "eb_log (pr_bus p) ! k"
  let ?hs = "handlers_of (pr_bus p) ?e"
  obtain p1 rs1 raised where d: "dispatch t clk ?e ?hs ?p = (p1, rs1, raised)" by (cases "dispatch t clk ?e ?hs ?p")
  have n: "\<not> raised" using dispatch_not_raised [OF assms(2), of clk ?e ?hs ?p] d by simp
  with dispatch_quiet [OF assms(1) d] have same: "same_but_ledger (pr_bus ?p) (pr_bus p1)"
    and here: "once (pr_bus p) (set (event_deliveries t ?e ?hs)) (receipt_ids rs1) (pr_bus p1)"
    by (auto simp: once_def delivered_ids_def)
  from same have p1: "eb_queue (pr_bus p1) = q" "eb_log (pr_bus p1) = eb_log (pr_bus p)" "eb_handlers (pr_bus p1) = eb_handlers (pr_bus p)"
    by (simp_all add: same_but_ledger_def)
  from Cons.prems Cons.hyps(2) [symmetric] p1 have k: "k < length (eb_log (pr_bus p))" "queue_in_log (pr_bus p1)"
    by (simp_all add: queue_in_log_def)
  have pend: "set (pending_deliveries t (pr_bus p)) = set (event_deliveries t ?e ?hs) \<union> set (pending_deliveries t (pr_bus p1))"
    by (simp add: pending_deliveries_def handlers_of_same [OF p1(3)] p1 Cons.hyps(2) [symmetric])
  from Cons.hyps(1) [OF p1(1) [symmetric] k(2)] p1 obtain p' rs where r: "deliver t clk p1 = Some (p', Some rs)" "eb_queue (pr_bus p') = []"
    "eb_log (pr_bus p') = eb_log (pr_bus p)" "once (pr_bus p1) (set (pending_deliveries t (pr_bus p1))) (receipt_ids rs) (pr_bus p')"
    by auto
  have "\<exists>rs'. deliver t clk p = Some (p', Some rs') \<and> receipt_ids rs' = receipt_ids rs1 @ receipt_ids rs"
  proof (cases "?hs = []")
    case True
    with d have "p1 = ?p" "rs1 = []" by auto
    with True Cons.hyps(2) [symmetric] k(1) r(1) show ?thesis by (subst deliver.simps) (simp add: Let_def)
  next
    case False
    with Cons.hyps(2) [symmetric] k(1) d n r(1) show ?thesis by (subst deliver.simps) simp
  qed
  with once_trans [OF here r(4)] r(2,3) show ?case by (auto simp: pend)
qed

subsection \<open>Properties\<close>

text \<open>
  C10. A durable step runs once, crash or no crash: when a step has returned or failed, its snapshot
  restores into a bus on which a second run of the same id, with any function whatever, in any
  process, has the same outcome and changes nothing.
\<close>

theorem durable_step_once:
  assumes "run_step clk p sid fn = Inr (p', r)" "r \<noteq> DurableStepError" "steps_terminal (pr_bus p')"
  shows "\<exists>b. restore (snapshot (pr_bus p')) = Inr b \<and>
    run_step clk' (q\<lparr>pr_bus := b\<rparr>) sid fn' = Inr (q\<lparr>pr_bus := b\<rparr>, r)"
proof -
  obtain rec where "map_of (eb_steps (pr_bus p')) sid = Some rec" "r = replay rec"
    using run_step_ledger [OF assms(1,2)] by blast
  moreover have "sid \<noteq> []" using assms(1) by (auto simp: run_step_def)
  ultimately show ?thesis
    by (simp add: restore_of_snapshot [OF assms(3)] run_step_def)
qed

definition sample_process :: "unit process" where
  "sample_process = \<lparr>pr_bus = empty_bus, pr_seq = 0, pr_ticks = 0, pr_world = ()\<rparr>"

theorem durable_step_once_witness:
  "\<exists>p' b. run_step (\<lambda>_. ''t'') sample_process ''s1'' (\<lambda>p. (p, Value (JInt 7))) = Inr (p', Memo (JInt 7)) \<and>
     run_step (\<lambda>_. ''u'') (sample_process\<lparr>pr_bus := b\<rparr>) ''s1'' (\<lambda>p. (p, RaisedError ''x'')) =
       Inr (sample_process\<lparr>pr_bus := b\<rparr>, Memo (JInt 7))"
proof -
  obtain p' where r: "run_step (\<lambda>_. ''t'') sample_process ''s1'' (\<lambda>p. (p, Value (JInt 7))) = Inr (p', Memo (JInt 7))"
    and s: "steps_terminal (pr_bus p')"
    by (auto simp: run_step_def record_step_def utc_now_def Let_def sample_process_def empty_bus_def steps_terminal_def
        step_record_def replay_def)
  show ?thesis using durable_step_once [OF r _ s, of "\<lambda>_. ''u''" sample_process "\<lambda>p. (p, RaisedError ''x'')"] r
    by blast
qed

definition queued_process :: "unit process" where
  "queued_process = sample_process\<lparr>pr_bus := empty_bus\<lparr>
     eb_log := [[(''name'', JStr ''slice.proven''), (''id'', JStr ''evt-000000000001'')]],
     eb_handlers := [(''slice.proven'', [0])], eb_queue := [0]\<rparr>\<rparr>"

lemma index_of_bound: "index_of i n es = Some k \<Longrightarrow> k < n + length es"
  by (induction es arbitrary: n) (force split: if_splits)+

lemmas index_of_in_log [dest!] = index_of_bound [of _ 0, simplified]

lemma emit_queue_in_log: "queue_in_log (pr_bus p) \<Longrightarrow> emit clk p event = Inr (p', e) \<Longrightarrow> queue_in_log (pr_bus p')"
  by (auto simp: emit_def queue_in_log_def Let_def new_event_id_def utc_now_def list_all_iff less_Suc_eq
      split: json.splits list.splits option.splits)

text \<open>
  C11. Exactly once: when the queue holds indexes of the log, and no handler changes the bus or
  raises, \<open>deliver\<close> returns and empties the queue, the deliveries it makes are those that the queued
  events and their handlers ask for and that the ledger does not hold yet, each once, and the ledger
  then holds them all.
\<close>

theorem deliver_exactly_once:
  assumes "queue_in_log (pr_bus p)" "quiet t" "\<And>h e p. \<not> snd (code_of t h e p)"
  shows "\<exists>p' rs. deliver t clk p = Some (p', Some rs) \<and> eb_queue (pr_bus p') = [] \<and>
    eb_log (pr_bus p') = eb_log (pr_bus p) \<and> distinct (receipt_ids rs) \<and>
    set (receipt_ids rs) = set (pending_deliveries t (pr_bus p)) - set (delivered_ids (pr_bus p)) \<and>
    set (delivered_ids (pr_bus p')) = set (delivered_ids (pr_bus p)) \<union> set (pending_deliveries t (pr_bus p))"
  using deliver_quiet [OF assms(2,3,1), of clk] by (auto simp: once_def)

theorem deliver_exactly_once_witness:
  "\<exists>p' rs. deliver \<lparr>key_of = (\<lambda>_. ''h''), code_of = (\<lambda>h e p. (p, False))\<rparr> (\<lambda>_. ''t'') queued_process = Some (p', Some rs) \<and>
    set (receipt_ids rs) = {''evt-000000000001:h''}"
proof -
  have "queue_in_log (pr_bus queued_process)" "quiet \<lparr>key_of = (\<lambda>_. ''h''), code_of = (\<lambda>h e p. (p :: unit process, False))\<rparr>"
    by (simp_all add: queue_in_log_def quiet_def queued_process_def)
  from deliver_exactly_once [OF this, of "\<lambda>_. ''t''"] show ?thesis
    by (auto simp: queued_process_def empty_bus_def pending_deliveries_def event_deliveries_def handlers_of_def lookup_def
        delivered_ids_def delivery_id_def)
qed

text \<open>
  A failed delivery is not retried: when the first handler of the only queued event raises,
  \<open>deliver\<close> fails with the event already taken off the queue, so the next call, whatever
  the handlers do by then, delivers nothing.
\<close>

theorem failed_delivery_lost:
  assumes "eb_queue (pr_bus p) = [k]" "k < length (eb_log (pr_bus p))" "handlers_of (pr_bus p) (eb_log (pr_bus p) ! k) = h # hs"
    and "map_of (eb_delivered (pr_bus p)) (delivery_id (dget_or (eb_log (pr_bus p) ! k) ''id'' (JStr [])) (key_of t h)) = None"
    and "\<And>e p. snd (code_of t h e p)" "quiet t"
  shows "\<exists>p'. deliver t clk p = Some (p', None) \<and> deliver t' clk p' = Some (p', Some [])"
proof -
  let ?p = "p\<lparr>pr_bus := (pr_bus p)\<lparr>eb_queue := []\<rparr>\<rparr>" and ?e = "eb_log (pr_bus p) ! k"
  obtain p' where c: "code_of t h ?e ?p = (p', True)" using assms(5) by (metis prod.collapse)
  then have "pr_bus p' = pr_bus ?p" using assms(6) by (metis fst_conv quiet_def)
  moreover have "deliver t clk p = Some (p', None)"
    using assms(1-4) c by (subst deliver.simps) (simp add: Let_def)
  ultimately show ?thesis by (intro exI [of _ p'] conjI) (simp, subst deliver.simps, simp)
qed

theorem failed_delivery_lost_witness:
  "\<exists>p'. deliver \<lparr>key_of = (\<lambda>_. ''h''), code_of = (\<lambda>h e p. (p, True))\<rparr> (\<lambda>_. ''t'') queued_process = Some (p', None) \<and>
     deliver \<lparr>key_of = (\<lambda>_. ''h''), code_of = (\<lambda>h e p. (p, False))\<rparr> (\<lambda>_. ''t'') p' = Some (p', Some [])"
  by (rule failed_delivery_lost [of _ 0 0 "[]"])
    (simp_all add: queued_process_def empty_bus_def handlers_of_def lookup_def quiet_def)

text \<open>
  Ids restart with the process: on a bus restored in a new process, an event emitted without an
  id gets the id the counter gives next; when the restored log already holds that id, the new
  event is not logged and the old one is returned in its place.
\<close>

theorem restarted_ids_swallow_events:
  assumes "dget d ''name'' = JStr n" "n \<noteq> []" "map_of d ''id'' = None"
    and "index_of (JStr (fst (new_event_id p))) 0 (eb_log (pr_bus p)) = Some k"
  shows "\<exists>p'. emit clk p (JObj d) = Inr (p', eb_log (pr_bus p) ! k) \<and> eb_log (pr_bus p') = eb_log (pr_bus p)"
proof -
  have "dget (setdefault (setdefault d ''id'' (JStr i)) ''ts'' t) ''id'' = JStr i" for i t
    using assms(3) by (auto simp: setdefault_def dget_def dget_or_def map_add_def split: option.splits)
  moreover obtain c cs where "n = c # cs" using assms(2) by (cases n) auto
  ultimately show ?thesis
    using assms(1,4) by (auto simp: emit_def Let_def new_event_id_def utc_now_def)
qed

theorem restarted_ids_swallow_events_witness:
  "\<exists>p'. emit (\<lambda>_. ''t'') queued_process (JObj [(''name'', JStr ''slice.failed'')]) =
     Inr (p', [(''name'', JStr ''slice.proven''), (''id'', JStr ''evt-000000000001'')]) \<and>
     length (eb_log (pr_bus p')) = 1"
proof -
  have i: "index_of (JStr (fst (new_event_id queued_process))) 0 (eb_log (pr_bus queued_process)) = Some 0"
    by code_simp
  have "dget [(''name'', JStr ''slice.failed'')] ''name'' = JStr ''slice.failed''" by simp
  from restarted_ids_swallow_events [OF this _ _ i, of "\<lambda>_. ''t''"] obtain p' where
    "emit (\<lambda>_. ''t'') queued_process (JObj [(''name'', JStr ''slice.failed'')]) =
       Inr (p', eb_log (pr_bus queued_process) ! 0)" "eb_log (pr_bus p') = eb_log (pr_bus queued_process)"
    by auto
  moreover have "eb_log (pr_bus queued_process) = [[(''name'', JStr ''slice.proven''), (''id'', JStr ''evt-000000000001'')]]"
    by (simp add: queued_process_def)
  ultimately show ?thesis by simp
qed

end
