(* ===== verification/Orchestrator.thy ===== *)
theory Orchestrator
  imports Complex_Main Json_Codec Sha256
begin

section \<open>The durable orchestrator\<close>

text \<open>
  \<open>tools/durable_orchestrator.py\<close>: activities under a bounded retry policy, an event-sourced
  workflow that replays its history, logical timers, and checkpoints with an integrity hash.

  A workflow body is a Python callable that issues commands and computes with their results; it
  is a tree whose inner nodes are commands with a continuation, which takes the result of the command
  or the exception it raised, as a body may catch it. A leaf returns or raises. An activity is a
  function on the world (everything outside the workflow) with an outcome. An error is the name of its class. Delays are floats the decision path never reads; they are
  kept as rationals.
\<close>

subsection \<open>Retry policy\<close>

record retry_policy =
  max_attempts :: int
  initial_backoff :: rat
  backoff_multiplier :: rat
  max_backoff :: rat
  non_retryable :: "string list"

definition DEFAULT_MAX_ATTEMPTS :: int where
  "DEFAULT_MAX_ATTEMPTS = 3 + 1"

definition default_policy :: retry_policy where
  "default_policy = \<lparr>max_attempts = DEFAULT_MAX_ATTEMPTS, initial_backoff = 1, backoff_multiplier = 2,
     max_backoff = 60, non_retryable = []\<rparr>"

definition policy_ok :: "retry_policy \<Rightarrow> bool" where
  "policy_ok pol = (1 \<le> max_attempts pol \<and> 0 \<le> initial_backoff pol \<and> 1 \<le> backoff_multiplier pol \<and>
     0 \<le> max_backoff pol)"

definition delay_before_attempt :: "retry_policy \<Rightarrow> nat \<Rightarrow> rat" where
  "delay_before_attempt pol attempt =
     (if attempt \<le> 1 then 0
      else min (initial_backoff pol * backoff_multiplier pol ^ (attempt - 2)) (max_backoff pol))"

definition backoff_delays :: "retry_policy \<Rightarrow> rat list" where
  "backoff_delays pol = map (\<lambda>i. delay_before_attempt pol (Suc i)) [0 ..< nat (max_attempts pol)]"

subsection \<open>Activities\<close>

record handoff =
  ho_reason :: string
  ho_activity :: "string option"
  ho_attempts :: "int option"
  ho_error :: "string option"

datatype outcome = Returned json | Raised_error string | Raised_handoff handoff

type_synonym 'w activity = "'w \<Rightarrow> 'w \<times> outcome"

definition exhausted :: "string \<Rightarrow> int \<Rightarrow> string option \<Rightarrow> handoff" where
  "exhausted name attempts err = \<lparr>ho_reason = ''retry-budget-exhausted'', ho_activity = Some name,
     ho_attempts = Some attempts, ho_error = err\<rparr>"

text \<open>The loop over the attempts left, after \<open>made\<close> attempts, the last of which failed with
  \<open>err\<close>.\<close>

fun attempt_loop ::
    "retry_policy \<Rightarrow> string \<Rightarrow> 'w activity \<Rightarrow> nat \<Rightarrow> int \<Rightarrow> string option \<Rightarrow> 'w \<Rightarrow> 'w \<times> (handoff + json)" where
  "attempt_loop pol name fn 0 made err w = (w, Inl (exhausted name made err))"
| "attempt_loop pol name fn (Suc left) made err w = (case fn w of
     (w', Returned v) \<Rightarrow> (w', Inr v)
   | (w', Raised_handoff h) \<Rightarrow> (w', Inl h)
   | (w', Raised_error e) \<Rightarrow>
       if e \<in> set (non_retryable pol) then (w', Inl (exhausted name (made + 1) (Some e)))
       else attempt_loop pol name fn left (made + 1) (Some e) w')"

definition run_activity :: "retry_policy \<Rightarrow> string \<Rightarrow> 'w activity \<Rightarrow> 'w \<Rightarrow> 'w \<times> (handoff + json)" where
  "run_activity pol name fn w = attempt_loop pol name fn (nat (max_attempts pol)) 0 None w"

subsection \<open>History\<close>

record event =
  ev_seq :: int
  ev_type :: string
  ev_name :: string
  ev_payload :: json

definition event_json :: "event \<Rightarrow> json" where
  "event_json e = JObj [(''seq'', JInt (ev_seq e)), (''type'', JStr (ev_type e)),
     (''name'', JStr (ev_name e)), (''payload'', ev_payload e)]"

definition history_hash :: "event list \<Rightarrow> string" where
  "history_hash es = sha256_hex (dumps_sorted False (JList (map event_json es)))"

record workflow =
  wf_id :: string
  wf_history :: "event list"
  wf_cursor :: nat

definition new_workflow :: "string \<Rightarrow> event list \<Rightarrow> workflow" where
  "new_workflow i es = \<lparr>wf_id = i, wf_history = es, wf_cursor = 0\<rparr>"

definition is_replaying :: "workflow \<Rightarrow> bool" where
  "is_replaying wk = (wf_cursor wk < length (wf_history wk))"

definition record_event :: "workflow \<Rightarrow> string \<Rightarrow> string \<Rightarrow> json \<Rightarrow> workflow" where
  "record_event wk t n v = wk\<lparr>wf_history := wf_history wk @
     [\<lparr>ev_seq = int (length (wf_history wk)), ev_type = t, ev_name = n, ev_payload = v\<rparr>]\<rparr>"

definition to_frontier :: "workflow \<Rightarrow> workflow" where
  "to_frontier wk = wk\<lparr>wf_cursor := length (wf_history wk)\<rparr>"

datatype stop = Stop_handoff handoff | Stop_nondeterminism | Stop_value_error | Stop_other string

text \<open>\<open>_replay_or_execute\<close>: the recorded payload inside the history, the produced one beyond.
  \<open>produce\<close> may itself record events (a hand-off).\<close>

definition replay_or_execute ::
    "string \<Rightarrow> string \<Rightarrow> (workflow \<Rightarrow> 'w \<Rightarrow> workflow \<times> 'w \<times> (stop + json)) \<Rightarrow> workflow \<Rightarrow> 'w \<Rightarrow>
     workflow \<times> 'w \<times> (stop + json)" where
  "replay_or_execute t n produce wk w =
     (if is_replaying wk then
        let e = wf_history wk ! wf_cursor wk in
        if ev_type e \<noteq> t \<or> ev_name e \<noteq> n then (wk, w, Inl Stop_nondeterminism)
        else (wk\<lparr>wf_cursor := Suc (wf_cursor wk)\<rparr>, w, Inr (ev_payload e))
      else case produce wk w of
        (wk', w', Inr v) \<Rightarrow> (to_frontier (record_event wk' t n v), w', Inr v)
      | (wk', w', Inl s) \<Rightarrow> (wk', w', Inl s))"

definition opt_int :: "int option \<Rightarrow> json" where
  "opt_int x = (case x of None \<Rightarrow> JNull | Some i \<Rightarrow> JInt i)"

definition activity_command ::
    "retry_policy \<Rightarrow> string \<Rightarrow> 'w activity \<Rightarrow> workflow \<Rightarrow> 'w \<Rightarrow> workflow \<times> 'w \<times> (stop + json)" where
  "activity_command pol name fn = replay_or_execute ''ACTIVITY_COMPLETED'' name (\<lambda>wk w.
     case run_activity pol name fn w of
       (w', Inr v) \<Rightarrow> (wk, w', Inr v)
     | (w', Inl h) \<Rightarrow> (to_frontier (record_event wk ''WORKFLOW_HANDOFF'' name
           (JObj [(''reason'', JStr (ho_reason h)), (''attempts'', opt_int (ho_attempts h))])),
         w', Inl (Stop_handoff h)))"

text \<open>The seconds of a timer, as the float's text and its sign.\<close>

definition timer_command ::
    "string \<Rightarrow> string \<Rightarrow> bool \<Rightarrow> workflow \<Rightarrow> 'w \<Rightarrow> workflow \<times> 'w \<times> (stop + json)" where
  "timer_command name seconds negative wk w =
     (if negative then (wk, w, Inl Stop_value_error)
      else replay_or_execute ''TIMER_FIRED'' name (\<lambda>wk w. (wk, w, Inr (JObj
        [(''timer'', JStr name), (''seconds'', JFloat seconds), (''fired'', JBool True)]))) wk w)"

subsection \<open>Bodies and execution\<close>

datatype 'w body =
    Return json
  | Raise stop
  | Activity retry_policy string "'w activity" "stop + json \<Rightarrow> 'w body"
  | Timer string string bool "stop + json \<Rightarrow> 'w body"

primrec run_body :: "'w body \<Rightarrow> workflow \<Rightarrow> 'w \<Rightarrow> workflow \<times> 'w \<times> (stop + json)" where
  "run_body (Return v) = (\<lambda>wk w. (wk, w, Inr v))"
| "run_body (Raise s) = (\<lambda>wk w. (wk, w, Inl s))"
| "run_body (Activity pol name fn k) = (\<lambda>wk w. case activity_command pol name fn wk w of
     (wk', w', r) \<Rightarrow> run_body (k r) wk' w')"
| "run_body (Timer name seconds negative k) = (\<lambda>wk w. case timer_command name seconds negative wk w of
     (wk', w', r) \<Rightarrow> run_body (k r) wk' w')"

text \<open>A continuation that catches nothing.\<close>

definition uncaught :: "(json \<Rightarrow> 'w body) \<Rightarrow> stop + json \<Rightarrow> 'w body" where
  "uncaught k r = (case r of Inl s \<Rightarrow> Raise s | Inr v \<Rightarrow> k v)"

lemma uncaught_simps [simp]: "uncaught k (Inl s) = Raise s" "uncaught k (Inr v) = k v"
  by (simp_all add: uncaught_def)

definition start :: "json list \<Rightarrow> workflow \<Rightarrow> workflow" where
  "start args wk =
     (if wf_history wk = [] then
        to_frontier (record_event wk ''WORKFLOW_STARTED'' (wf_id wk) (JObj [(''args'', JList args)]))
      else wk\<lparr>wf_cursor := (if ev_type (hd (wf_history wk)) = ''WORKFLOW_STARTED'' then 1 else 0)\<rparr>)"

definition execute :: "'w body \<Rightarrow> json list \<Rightarrow> workflow \<Rightarrow> 'w \<Rightarrow> workflow \<times> 'w \<times> (stop + json)" where
  "execute body args wk w =
     (case run_body body (start args wk) w of
        (wk', w', Inl s) \<Rightarrow> (wk', w', Inl s)
      | (wk', w', Inr v) \<Rightarrow>
          (if list_ex (\<lambda>e. ev_type e = ''WORKFLOW_COMPLETED'') (wf_history wk') then wk'
           else record_event wk' ''WORKFLOW_COMPLETED'' (wf_id wk') (JObj [(''result'', v)]), w', Inr v))"

subsection \<open>Checkpoint and resume\<close>

definition BLOB_VERSION :: int where "BLOB_VERSION = 1"

definition checkpoint_json :: "workflow \<Rightarrow> json" where
  "checkpoint_json wk = JObj [(''version'', JInt BLOB_VERSION), (''workflow_id'', JStr (wf_id wk)),
     (''history'', JList (map event_json (wf_history wk))),
     (''history_hash'', JStr (history_hash (wf_history wk)))]"

definition checkpoint :: "workflow \<Rightarrow> string" where
  "checkpoint wk = dumps_sorted False (checkpoint_json wk)"

datatype resume_error = NonDeterminismError | Uncaught py_exc

text \<open>\<open>int(d["seq"])\<close>: a float is truncated towards zero; only its integral texts are modelled.\<close>

definition py_int :: "json \<Rightarrow> int py" where
  "py_int v = (case v of JStr s \<Rightarrow> (case int_of_str s of Some i \<Rightarrow> Inr i | None \<Rightarrow> Inl ValueError)
     | _ \<Rightarrow> (case py_num v of Some i \<Rightarrow> Inr i | None \<Rightarrow> Inl TypeError))"

definition event_of :: "json \<Rightarrow> event py" where
  "event_of v = (case v of
     JObj d \<Rightarrow>
       (case (map_of d ''seq'', map_of d ''type'', map_of d ''name'') of
          (Some s, Some t, Some n) \<Rightarrow> py_bind (py_int s) (\<lambda>i.
            Inr \<lparr>ev_seq = i, ev_type = py_str t, ev_name = py_str n, ev_payload = dget d ''payload''\<rparr>)
        | _ \<Rightarrow> Inl KeyError)
   | _ \<Rightarrow> Inl TypeError)"

definition resume :: "string \<Rightarrow> resume_error + workflow" where
  "resume blob = (case loads blob of
     Some (JObj obj) \<Rightarrow>
       if \<not> py_eq (dget obj ''version'') (JInt BLOB_VERSION) then Inl NonDeterminismError
       else (case dget obj ''history'' of
         JList raw \<Rightarrow> (case py_map event_of raw of
             Inl e \<Rightarrow> Inl (Uncaught e)
           | Inr es \<Rightarrow>
               if dget obj ''history_hash'' \<noteq> JStr (history_hash es) then Inl NonDeterminismError
               else Inr (new_workflow (py_str (dget_or obj ''workflow_id'' (JStr []))) es))
       | _ \<Rightarrow> Inl NonDeterminismError)
   | _ \<Rightarrow> Inl NonDeterminismError)"

subsection \<open>Attempts\<close>

text \<open>The world after \<open>k\<close> attempts that all failed with a retryable error.\<close>

fun failures :: "retry_policy \<Rightarrow> 'w activity \<Rightarrow> nat \<Rightarrow> 'w \<Rightarrow> 'w option" where
  "failures pol fn 0 w = Some w"
| "failures pol fn (Suc k) w = (case fn w of
     (w', Raised_error e) \<Rightarrow> if e \<in> set (non_retryable pol) then None else failures pol fn k w'
   | _ \<Rightarrow> None)"

text \<open>How an activity ends in \<open>w1\<close>, the world after \<open>k\<close> failures of a budget of \<open>left\<close>.\<close>

definition ends_at ::
    "retry_policy \<Rightarrow> string \<Rightarrow> 'w activity \<Rightarrow> nat \<Rightarrow> int \<Rightarrow> nat \<Rightarrow> 'w \<Rightarrow> 'w \<Rightarrow> handoff + json \<Rightarrow> bool" where
  "ends_at pol name fn left made k w1 w' r =
     (if k < left then
        (case snd (fn w1) of
           Returned v \<Rightarrow> r = Inr v
         | Raised_handoff h \<Rightarrow> r = Inl h
         | Raised_error e \<Rightarrow> e \<in> set (non_retryable pol) \<and> r = Inl (exhausted name (made + int k + 1) (Some e)))
        \<and> w' = fst (fn w1)
      else k = left \<and> w' = w1 \<and> (\<exists>err. r = Inl (exhausted name (made + int left) err)))"

definition activity_end :: "retry_policy \<Rightarrow> string \<Rightarrow> 'w activity \<Rightarrow> nat \<Rightarrow> int \<Rightarrow> 'w \<Rightarrow> 'w \<Rightarrow> handoff + json \<Rightarrow> bool" where
  "activity_end pol name fn left made w w' r =
     (\<exists>k w1. failures pol fn k w = Some w1 \<and> ends_at pol name fn left made k w1 w' r)"

lemma ends_at_Suc: "ends_at pol name fn left (made + 1) k w1 w' r \<Longrightarrow> ends_at pol name fn (Suc left) made (Suc k) w1 w' r"
  by (auto simp: ends_at_def algebra_simps split: outcome.splits if_splits)

lemma activity_end_Suc:
  assumes "fn w = (w2, Raised_error e)" "e \<notin> set (non_retryable pol)"
    and "activity_end pol name fn left (made + 1) w2 w' r"
  shows "activity_end pol name fn (Suc left) made w w' r"
proof -
  from assms(3) obtain k w1 where "failures pol fn k w2 = Some w1" "ends_at pol name fn left (made + 1) k w1 w' r"
    by (auto simp: activity_end_def)
  with assms(1,2) ends_at_Suc show ?thesis
    unfolding activity_end_def by (intro exI [of _ "Suc k"] exI [of _ w1]) simp
qed

lemma activity_end_0:
  assumes "\<And>e. snd (fn w) = Raised_error e \<Longrightarrow> e \<in> set (non_retryable pol)"
    and "attempt_loop pol name fn (Suc left) made err w = (w', r)"
  shows "activity_end pol name fn (Suc left) made w w' r"
  unfolding activity_end_def
  by (intro exI [of _ 0] exI [of _ w])
    (use assms in \<open>auto simp: ends_at_def split: prod.splits outcome.splits if_splits\<close>)

lemma attempt_loop_end:
  "attempt_loop pol name fn left made err w = (w', r) \<Longrightarrow> activity_end pol name fn left made w w' r"
proof (induction left arbitrary: made err w)
  case 0
  then show ?case
    unfolding activity_end_def by (intro exI [of _ 0] exI [of _ w]) (auto simp: ends_at_def)
next
  case (Suc left)
  show ?case
  proof (cases "\<exists>e. snd (fn w) = Raised_error e \<and> e \<notin> set (non_retryable pol)")
    case True
    then obtain w2 e where "fn w = (w2, Raised_error e)" "e \<notin> set (non_retryable pol)"
      by (cases "fn w") auto
    with Suc show ?thesis by (intro activity_end_Suc) auto
  next
    case False
    then show ?thesis by (intro activity_end_0 [OF _ Suc.prems]) auto
  qed
qed

subsection \<open>Replaying a run\<close>

definition at_frontier :: "workflow \<Rightarrow> bool" where
  "at_frontier wk = (wf_cursor wk = length (wf_history wk))"

lemma at_frontier_simps [simp]:
  "at_frontier (to_frontier wk)"
  "wf_history (to_frontier wk) = wf_history wk"
  "wf_history (record_event wk t n v) = wf_history wk @
     [\<lparr>ev_seq = int (length (wf_history wk)), ev_type = t, ev_name = n, ev_payload = v\<rparr>]"
  by (simp_all add: at_frontier_def to_frontier_def record_event_def)

lemma replay_recorded:
  assumes "wf_history wk = pre @ \<lparr>ev_seq = i, ev_type = t, ev_name = n, ev_payload = v\<rparr> # suf"
    and "wf_cursor wk = length pre"
  shows "replay_or_execute t' n' produce wk w =
    (if t = t' \<and> n = n' then (wk\<lparr>wf_cursor := Suc (length pre)\<rparr>, w, Inr v) else (wk, w, Inl Stop_nondeterminism))"
  using assms by (simp add: replay_or_execute_def is_replaying_def)

text \<open>What a live run leaves in the history, and what that history does to a later run of the same
  body.\<close>

definition replays :: "'w body \<Rightarrow> event list \<Rightarrow> event list \<Rightarrow> stop + json \<Rightarrow> bool" where
  "replays body pre es r = (\<forall>wk u suf. wf_history wk = pre @ es @ suf \<longrightarrow> wf_cursor wk = length pre \<longrightarrow>
     run_body body wk u = (wk\<lparr>wf_cursor := length pre + length es\<rparr>, u, r))"

definition diverges :: "'w body \<Rightarrow> event list \<Rightarrow> event list \<Rightarrow> bool" where
  "diverges body pre es = (\<forall>wk u suf. wf_history wk = pre @ es @ suf \<longrightarrow> wf_cursor wk = length pre \<longrightarrow>
     (\<exists>wk'. run_body body wk u = (wk', u, Inl Stop_nondeterminism)))"

definition no_event :: "string \<Rightarrow> event list \<Rightarrow> bool" where
  "no_event t es = list_all (\<lambda>e. ev_type e \<noteq> t) es"

lemma no_event_simps [simp]:
  "no_event t []" "no_event t (e # es) \<longleftrightarrow> ev_type e \<noteq> t \<and> no_event t es"
  "no_event t (es @ es') \<longleftrightarrow> no_event t es \<and> no_event t es'"
  by (simp_all add: no_event_def)

text \<open>A body that lets the exceptions of its commands pass, and hands off through a command only.\<close>

primrec propagates :: "'w body \<Rightarrow> bool" where
  "propagates (Return v) = True"
| "propagates (Raise s) = (\<forall>h. s \<noteq> Stop_handoff h)"
| "propagates (Activity pol name fn k) = ((\<forall>s. k (Inl s) = Raise s) \<and> (\<forall>v. propagates (k (Inr v))))"
| "propagates (Timer name seconds negative k) = ((\<forall>s. k (Inl s) = Raise s) \<and> (\<forall>v. propagates (k (Inr v))))"

lemma activity_live:
  assumes "at_frontier wk" "activity_command pol name fn wk w = (wk', w', r)"
  shows "at_frontier wk' \<and> (case r of
      Inr v \<Rightarrow> \<exists>i. wf_history wk' = wf_history wk @
        [\<lparr>ev_seq = i, ev_type = ''ACTIVITY_COMPLETED'', ev_name = name, ev_payload = v\<rparr>]
    | Inl s \<Rightarrow> \<exists>i p. wf_history wk' = wf_history wk @
        [\<lparr>ev_seq = i, ev_type = ''WORKFLOW_HANDOFF'', ev_name = name, ev_payload = p\<rparr>])"
  using assms
  by (auto simp: activity_command_def replay_or_execute_def is_replaying_def at_frontier_def [of wk]
      split: prod.splits sum.splits)

lemma timer_live:
  assumes "at_frontier wk" "timer_command name secs neg wk w = (wk', w', r)"
  shows "at_frontier wk' \<and> w' = w \<and> (case r of
      Inr v \<Rightarrow> \<not> neg \<and> (\<exists>i. wf_history wk' = wf_history wk @
        [\<lparr>ev_seq = i, ev_type = ''TIMER_FIRED'', ev_name = name, ev_payload = v\<rparr>])
    | Inl s \<Rightarrow> s = Stop_value_error)"
  using assms
  by (auto simp: timer_command_def replay_or_execute_def is_replaying_def at_frontier_def to_frontier_def
      record_event_def split: if_splits)

lemma cursor_update [simp]: "wk\<lparr>wf_cursor := i, wf_cursor := j\<rparr> = wk\<lparr>wf_cursor := j\<rparr>"
  by simp

lemma replays_Activity:
  assumes "replays (k (Inr v1)) (pre @ [\<lparr>ev_seq = i, ev_type = ''ACTIVITY_COMPLETED'', ev_name = name, ev_payload = v1\<rparr>]) es r"
  shows "replays (Activity pol name fn k) pre
    (\<lparr>ev_seq = i, ev_type = ''ACTIVITY_COMPLETED'', ev_name = name, ev_payload = v1\<rparr> # es) r"
  using assms by (auto simp: replays_def activity_command_def replay_recorded)

lemma replays_Timer:
  assumes "replays (k (Inr v1)) (pre @ [\<lparr>ev_seq = i, ev_type = ''TIMER_FIRED'', ev_name = name, ev_payload = v1\<rparr>]) es r"
    and "\<not> neg"
  shows "replays (Timer name secs neg k) pre
    (\<lparr>ev_seq = i, ev_type = ''TIMER_FIRED'', ev_name = name, ev_payload = v1\<rparr> # es) r"
  using assms by (auto simp: replays_def timer_command_def replay_recorded)

lemma run_body_replays:
  assumes "run_body body wk w = (wk', w', r)" "at_frontier wk"
  shows "\<exists>es. wf_history wk' = wf_history wk @ es \<and> at_frontier wk' \<and> no_event ''WORKFLOW_COMPLETED'' es \<and>
    (no_event ''WORKFLOW_HANDOFF'' es \<longrightarrow> replays body (wf_history wk) es r)"
  using assms
proof (induction body arbitrary: wk w)
  case (Activity pol name fn k)
  obtain wk1 w1 r1 where c: "activity_command pol name fn wk w = (wk1, w1, r1)"
    by (cases "activity_command pol name fn wk w")
  with Activity.prems(1) have b: "run_body (k r1) wk1 w1 = (wk', w', r)" by simp
  from activity_live [OF Activity.prems(2) c] have f: "at_frontier wk1" by simp
  from Activity.IH [OF _ b f] obtain es where es: "wf_history wk' = wf_history wk1 @ es" "at_frontier wk'"
    "no_event ''WORKFLOW_COMPLETED'' es" "no_event ''WORKFLOW_HANDOFF'' es \<Longrightarrow> replays (k r1) (wf_history wk1) es r" by auto
  show ?case
  proof (cases r1)
    case (Inl s)
    with activity_live [OF Activity.prems(2) c] obtain i p where "wf_history wk1 = wf_history wk @
      [\<lparr>ev_seq = i, ev_type = ''WORKFLOW_HANDOFF'', ev_name = name, ev_payload = p\<rparr>]" by auto
    with es(1-3) show ?thesis
      by (intro exI [of _ "\<lparr>ev_seq = i, ev_type = ''WORKFLOW_HANDOFF'', ev_name = name, ev_payload = p\<rparr> # es"]) simp
  next
    case (Inr v1)
    with activity_live [OF Activity.prems(2) c] obtain i where "wf_history wk1 = wf_history wk @
      [\<lparr>ev_seq = i, ev_type = ''ACTIVITY_COMPLETED'', ev_name = name, ev_payload = v1\<rparr>]" by auto
    with es Inr show ?thesis
      by (intro exI [of _ "\<lparr>ev_seq = i, ev_type = ''ACTIVITY_COMPLETED'', ev_name = name, ev_payload = v1\<rparr> # es"])
        (simp add: replays_Activity)
  qed
next
  case (Timer name secs neg k)
  obtain wk1 w1 r1 where c: "timer_command name secs neg wk w = (wk1, w1, r1)"
    by (cases "timer_command name secs neg wk w")
  with Timer.prems(1) have b: "run_body (k r1) wk1 w1 = (wk', w', r)" by simp
  from timer_live [OF Timer.prems(2) c] have f: "at_frontier wk1" by simp
  from Timer.IH [OF _ b f] obtain es where es: "wf_history wk' = wf_history wk1 @ es" "at_frontier wk'"
    "no_event ''WORKFLOW_COMPLETED'' es" "no_event ''WORKFLOW_HANDOFF'' es \<Longrightarrow> replays (k r1) (wf_history wk1) es r" by auto
  show ?case
  proof (cases neg)
    case True
    then have "wk1 = wk" "r1 = Inl Stop_value_error" using c by (simp_all add: timer_command_def)
    with es True show ?thesis by (intro exI [of _ es]) (auto simp: replays_def timer_command_def)
  next
    case False
    then obtain v1 where r1: "r1 = Inr v1" using timer_live [OF Timer.prems(2) c] c Timer.prems(2)
      by (cases r1) (auto simp: timer_command_def replay_or_execute_def is_replaying_def at_frontier_def)
    with timer_live [OF Timer.prems(2) c] obtain i where "wf_history wk1 = wf_history wk @
      [\<lparr>ev_seq = i, ev_type = ''TIMER_FIRED'', ev_name = name, ev_payload = v1\<rparr>]" by auto
    with es r1 False show ?thesis
      by (intro exI [of _ "\<lparr>ev_seq = i, ev_type = ''TIMER_FIRED'', ev_name = name, ev_payload = v1\<rparr> # es"])
        (simp add: replays_Timer)
  qed
qed (rule exI [of _ "[]"], auto simp: replays_def)+

lemma returned_no_handoff:
  assumes "run_body body wk w = (wk', w', Inr v)" "at_frontier wk" "propagates body"
  shows "\<exists>es. wf_history wk' = wf_history wk @ es \<and> no_event ''WORKFLOW_HANDOFF'' es"
  using assms
proof (induction body arbitrary: wk w)
  case (Activity pol name fn k)
  obtain wk1 w1 r1 where c: "activity_command pol name fn wk w = (wk1, w1, r1)"
    by (cases "activity_command pol name fn wk w")
  with Activity.prems(1) have b: "run_body (k r1) wk1 w1 = (wk', w', Inr v)" by simp
  with Activity.prems(3) obtain v1 where r1: "r1 = Inr v1" by (cases r1) auto
  from activity_live [OF Activity.prems(2) c] r1 obtain i where f: "at_frontier wk1" and "wf_history wk1 = wf_history wk @
      [\<lparr>ev_seq = i, ev_type = ''ACTIVITY_COMPLETED'', ev_name = name, ev_payload = v1\<rparr>]" by auto
  with Activity.IH [OF _ b f] Activity.prems(3) r1 show ?case by fastforce
next
  case (Timer name secs neg k)
  obtain wk1 w1 r1 where c: "timer_command name secs neg wk w = (wk1, w1, r1)"
    by (cases "timer_command name secs neg wk w")
  with Timer.prems(1) have b: "run_body (k r1) wk1 w1 = (wk', w', Inr v)" by simp
  with Timer.prems(3) obtain v1 where r1: "r1 = Inr v1" by (cases r1) auto
  from timer_live [OF Timer.prems(2) c] r1 obtain i where f: "at_frontier wk1" and "wf_history wk1 = wf_history wk @
      [\<lparr>ev_seq = i, ev_type = ''TIMER_FIRED'', ev_name = name, ev_payload = v1\<rparr>]" by auto
  with Timer.IH [OF _ b f] Timer.prems(3) r1 show ?case by fastforce
qed (rule exI [of _ "[]"], auto)+

lemma run_body_handoff_diverges:
  assumes "run_body body wk w = (wk', w', Inl (Stop_handoff h))" "at_frontier wk" "propagates body"
  shows "\<exists>es. wf_history wk' = wf_history wk @ es \<and> diverges body (wf_history wk) es"
  using assms
proof (induction body arbitrary: wk w)
  case (Activity pol name fn k)
  obtain wk1 w1 r1 where c: "activity_command pol name fn wk w = (wk1, w1, r1)"
    by (cases "activity_command pol name fn wk w")
  with Activity.prems(1) have b: "run_body (k r1) wk1 w1 = (wk', w', Inl (Stop_handoff h))" by simp
  show ?case
  proof (cases r1)
    case (Inl s)
    with b Activity.prems(3) have "wk' = wk1" by simp
    with activity_live [OF Activity.prems(2) c] Inl obtain i p where
      "wf_history wk' = wf_history wk @
        [\<lparr>ev_seq = i, ev_type = ''WORKFLOW_HANDOFF'', ev_name = name, ev_payload = p\<rparr>]" by auto
    then show ?thesis
      using Activity.prems(3)
      by (intro exI [of _ "[\<lparr>ev_seq = i, ev_type = ''WORKFLOW_HANDOFF'', ev_name = name, ev_payload = p\<rparr>]"])
        (auto simp: diverges_def activity_command_def replay_recorded)
  next
    case (Inr v1)
    from activity_live [OF Activity.prems(2) c] Inr obtain i where f: "at_frontier wk1"
      and h: "wf_history wk1 = wf_history wk @
        [\<lparr>ev_seq = i, ev_type = ''ACTIVITY_COMPLETED'', ev_name = name, ev_payload = v1\<rparr>]" by auto
    from Activity.IH [OF _ b f] Activity.prems(3) Inr obtain es where "wf_history wk' = wf_history wk1 @ es"
      "diverges (k r1) (wf_history wk1) es" by auto
    with h Inr show ?thesis
      by (intro exI [of _ "\<lparr>ev_seq = i, ev_type = ''ACTIVITY_COMPLETED'', ev_name = name, ev_payload = v1\<rparr> # es"])
        (auto simp: diverges_def activity_command_def replay_recorded)
  qed
next
  case (Timer name secs neg k)
  obtain wk1 w1 r1 where c: "timer_command name secs neg wk w = (wk1, w1, r1)"
    by (cases "timer_command name secs neg wk w")
  with Timer.prems(1) have b: "run_body (k r1) wk1 w1 = (wk', w', Inl (Stop_handoff h))" by simp
  from timer_live [OF Timer.prems(2) c] b Timer.prems(3) obtain v1 where r: "r1 = Inr v1" by (cases r1) auto
  from timer_live [OF Timer.prems(2) c] r obtain i where f: "at_frontier wk1" "\<not> neg"
    and h: "wf_history wk1 = wf_history wk @
      [\<lparr>ev_seq = i, ev_type = ''TIMER_FIRED'', ev_name = name, ev_payload = v1\<rparr>]" by auto
  from Timer.IH [OF _ b f(1)] Timer.prems(3) r obtain es where "wf_history wk' = wf_history wk1 @ es"
    "diverges (k r1) (wf_history wk1) es" by auto
  with h f(2) r show ?case
    by (intro exI [of _ "\<lparr>ev_seq = i, ev_type = ''TIMER_FIRED'', ev_name = name, ev_payload = v1\<rparr> # es"])
      (auto simp: diverges_def timer_command_def replay_recorded)
qed simp_all

subsection \<open>Checkpoints\<close>

lemma sort_json_idem [simp]: "sort_json (sort_json v) = sort_json v"
proof (induction v rule: json_induct)
  case (JObj d)
  let ?d = "sort_key fst (map (\<lambda>(k, v). (k, sort_json v)) d)"
  have "map (\<lambda>(k, v). (k, sort_json v)) ?d = ?d"
    by (rule map_idI) (use JObj in auto)
  then show ?case by (simp add: sort_key_id_if_sorted)
qed simp_all

definition normal_event :: "event \<Rightarrow> event" where
  "normal_event e = e\<lparr>ev_payload := sort_json (ev_payload e)\<rparr>"

lemma sort_event_json: "sort_json (event_json (normal_event e)) = sort_json (event_json e)"
  by (simp add: event_json_def normal_event_def)

lemma history_hash_normal: "history_hash (map normal_event es) = history_hash es"
  by (simp add: history_hash_def dumps_sorted_def sort_event_json comp_def)

lemma event_of_sorted: "event_of (sort_json (event_json e)) = Inr (normal_event e)"
proof -
  let ?o = "[(''seq'', JInt (ev_seq e)), (''type'', JStr (ev_type e)), (''name'', JStr (ev_name e)),
    (''payload'', ev_payload e)]"
  obtain d where d: "sort_json (JObj ?o) = JObj d" "\<And>k. map_of d k = map_option sort_json (map_of ?o k)"
    by (rule sort_json_obj [of ?o]) auto
  show ?thesis
    unfolding event_json_def d(1) by (simp add: event_of_def d(2) dget_def dget_or_def py_int_def normal_event_def)
qed

lemma resume_checkpoint:
  assumes "list_all (\<lambda>e. wf_json (ev_payload e)) (wf_history wk)"
  shows "resume (checkpoint wk) = Inr (new_workflow (wf_id wk) (map normal_event (wf_history wk)))"
proof -
  have "wf_json (checkpoint_json wk)"
    using assms by (auto simp: checkpoint_json_def event_json_def list_all_iff)
  then have l: "loads (checkpoint wk) = Some (sort_json (checkpoint_json wk))"
    by (simp add: checkpoint_def loads_dumps_sorted)
  let ?o = "[(''version'', JInt BLOB_VERSION), (''workflow_id'', JStr (wf_id wk)),
     (''history'', JList (map event_json (wf_history wk))),
     (''history_hash'', JStr (history_hash (wf_history wk)))]"
  obtain d where d: "sort_json (JObj ?o) = JObj d" "\<And>k. map_of d k = map_option sort_json (map_of ?o k)"
    by (rule sort_json_obj [of ?o]) auto
  have "py_map event_of (map (\<lambda>e. sort_json (event_json e)) es) = Inr (map normal_event es)" for es
    by (induction es) (simp_all add: event_of_sorted)
  then show ?thesis
    using l unfolding checkpoint_json_def d(1)
    by (simp add: resume_def d(2) dget_def dget_or_def history_hash_normal comp_def)
qed

subsection \<open>Properties\<close>

text \<open>
  C9. An activity is bounded and honest about how it ends: for a policy that passes its own checks,
  there is a number of retryable failures, at most the budget, after which the activity either
  returns the value of the next attempt, propagates its hand-off verbatim, hands off at its
  first non-retryable error, or, all attempts spent, hands off with the whole budget reported.
\<close>

theorem run_activity_bounded:
  assumes "policy_ok pol" "run_activity pol name fn w = (w', r)"
  shows "\<exists>k w1. k \<le> nat (max_attempts pol) \<and> failures pol fn k w = Some w1 \<and>
    ends_at pol name fn (nat (max_attempts pol)) 0 k w1 w' r"
proof -
  have "activity_end pol name fn (nat (max_attempts pol)) 0 w w' r"
    using assms(2) by (intro attempt_loop_end) (simp add: run_activity_def)
  then obtain k w1 where f: "failures pol fn k w = Some w1"
    and e: "ends_at pol name fn (nat (max_attempts pol)) 0 k w1 w' r"
    unfolding activity_end_def by blast
  have "k \<le> nat (max_attempts pol)"
    using e by (cases "k < nat (max_attempts pol)") (simp_all add: ends_at_def)
  with f e show ?thesis by blast
qed

theorem run_activity_bounded_witness:
  "\<exists>k w1. k \<le> 4 \<and> failures default_policy (\<lambda>n :: int. (n + 1, Raised_error ''TimeoutError'')) k 0 = Some w1 \<and>
    ends_at default_policy ''poll'' (\<lambda>n. (n + 1, Raised_error ''TimeoutError'')) 4 0 k w1 4
      (Inl (exhausted ''poll'' 4 (Some ''TimeoutError'')))"
proof -
  have "run_activity default_policy ''poll'' (\<lambda>n :: int. (n + 1, Raised_error ''TimeoutError'')) 0 =
      (4, Inl (exhausted ''poll'' 4 (Some ''TimeoutError'')))"
    by (simp add: run_activity_def default_policy_def DEFAULT_MAX_ATTEMPTS_def eval_nat_numeral)
  from run_activity_bounded [OF _ this] show ?thesis
    by (simp add: policy_ok_def default_policy_def DEFAULT_MAX_ATTEMPTS_def)
qed

text \<open>
  C8. Replay is deterministic and free of side effects: when a body has run on a fresh workflow, to a
  result or to an exception, and no hand-off was recorded, executing the same body on the recorded
  history, in any world and with any arguments, has the same outcome, touches nothing of the
  world and adds nothing to the history. A body may catch the exceptions of its commands; one that
  lets them pass and returns has recorded no hand-off.
\<close>

theorem replay_deterministic:
  assumes "execute body args (new_workflow i []) w = (wk, w', r)"
    and "no_event ''WORKFLOW_HANDOFF'' (wf_history wk) \<or> propagates body \<and> (\<exists>v. r = Inr v)"
  shows "\<exists>wk'. execute body args' (new_workflow i' (wf_history wk)) u = (wk', u, r) \<and>
    wf_history wk' = wf_history wk"
proof -
  let ?s = "start args (new_workflow i [])"
  obtain e where s: "wf_history ?s = [e]" "ev_type e = ''WORKFLOW_STARTED''" "at_frontier ?s"
    by (auto simp: start_def new_workflow_def)
  from assms(1) obtain wk1 where b: "run_body body ?s w = (wk1, w', r)"
    and wk: "wk = (case r of Inl s \<Rightarrow> wk1 | Inr v \<Rightarrow>
           if list_ex (\<lambda>e. ev_type e = ''WORKFLOW_COMPLETED'') (wf_history wk1) then wk1
           else record_event wk1 ''WORKFLOW_COMPLETED'' (wf_id wk1) (JObj [(''result'', v)]))"
    by (auto simp: execute_def split: prod.splits sum.splits)
  from run_body_replays [OF b s(3)] s(1) obtain es where es: "wf_history wk1 = e # es" "no_event ''WORKFLOW_COMPLETED'' es"
    "no_event ''WORKFLOW_HANDOFF'' es \<Longrightarrow> replays body [e] es r" by auto
  have "\<not> list_ex (\<lambda>e. ev_type e = ''WORKFLOW_COMPLETED'') (wf_history wk1)"
    using es s(2) by (auto simp: no_event_def list_ex_iff list_all_iff)
  with wk es(1) obtain c where h: "wf_history wk = [e] @ es @ c" "r = Inl x \<Longrightarrow> c = []"
      "r = Inr v \<Longrightarrow> \<exists>e'. c = [e'] \<and> ev_type e' = ''WORKFLOW_COMPLETED''" for x v
    by (cases r) auto
  have "no_event ''WORKFLOW_HANDOFF'' es"
    using assms(2) returned_no_handoff [of body ?s w wk1 w'] b s(1,3) es(1) h(1) by auto
  let ?r = "start args' (new_workflow i' (wf_history wk))"
  have r: "wf_history ?r = [e] @ es @ c" "wf_cursor ?r = length [e]"
    using h(1) s(2) by (simp_all add: start_def new_workflow_def)
  with es(3) \<open>no_event ''WORKFLOW_HANDOFF'' es\<close> have "run_body body ?r u = (?r\<lparr>wf_cursor := length [e] + length es\<rparr>, u, r)"
    unfolding replays_def by blast
  with h r(1) show ?thesis by (cases r) (auto simp: execute_def)
qed

definition sample_body :: "int body" where
  "sample_body = Activity default_policy ''flaky'' (\<lambda>n. (n + 1, if n < 2 then Raised_error ''RuntimeError'' else Returned (JStr ''ok'')))
     (uncaught (\<lambda>a. Timer ''settle'' ''5.0'' False (uncaught (\<lambda>t. Return (JList [a, t])))))"

theorem replay_deterministic_witness:
  "\<exists>v wk wk'. execute sample_body [] (new_workflow ''smoke'' []) 0 = (wk, 3, Inr v) \<and>
     execute sample_body [] (new_workflow ''smoke'' (wf_history wk)) 0 = (wk', 0, Inr v)"
proof -
  obtain wk v where e: "execute sample_body [] (new_workflow ''smoke'' []) 0 = (wk, 3, Inr v)"
    by (simp add: execute_def sample_body_def start_def new_workflow_def activity_command_def timer_command_def
        replay_or_execute_def is_replaying_def to_frontier_def record_event_def run_activity_def default_policy_def
        DEFAULT_MAX_ATTEMPTS_def eval_nat_numeral)
  have "propagates sample_body" by (simp add: sample_body_def)
  then show ?thesis using replay_deterministic [OF e, of "[]" "''smoke''" 0] e by blast
qed

text \<open>
  A recorded hand-off does not replay as one: when a body that catches nothing ends in a hand-off of
  one of its commands on a fresh workflow, executing it again on the recorded history always ends in a non-determinism error instead,
  because the replayed command looks for a completed activity where the hand-off stands.
\<close>

theorem handoff_replay_diverges:
  assumes "execute body args (new_workflow i []) w = (wk, w', Inl (Stop_handoff h))" "propagates body"
  shows "\<exists>wk'. execute body args' (new_workflow i' (wf_history wk)) u = (wk', u, Inl Stop_nondeterminism)"
proof -
  let ?s = "start args (new_workflow i [])"
  obtain e where s: "wf_history ?s = [e]" "ev_type e = ''WORKFLOW_STARTED''" "at_frontier ?s"
    by (auto simp: start_def new_workflow_def)
  from assms(1) have b: "run_body body ?s w = (wk, w', Inl (Stop_handoff h))"
    by (auto simp: execute_def split: prod.splits sum.splits)
  from run_body_handoff_diverges [OF b s(3) assms(2)] s(1) obtain es where h: "wf_history wk = e # es"
    and d: "diverges body [e] es" by auto
  let ?r = "start args' (new_workflow i' (wf_history wk))"
  have "wf_history ?r = [e] @ es @ []" "wf_cursor ?r = length [e]"
    using h s(2) by (simp_all add: start_def new_workflow_def)
  with d obtain wk' where "run_body body ?r u = (wk', u, Inl Stop_nondeterminism)"
    unfolding diverges_def by blast
  then show ?thesis by (simp add: execute_def)
qed

theorem handoff_replay_diverges_witness:
  "\<exists>wk h wk'. execute (Activity default_policy ''a'' (\<lambda>n :: int. (n + 1, Raised_error ''E'')) (uncaught Return)) [] (new_workflow ''x'' []) 0 =
       (wk, 4, Inl (Stop_handoff h)) \<and>
     execute (Activity default_policy ''a'' (\<lambda>n :: int. (n + 1, Raised_error ''E'')) (uncaught Return)) [] (new_workflow ''x'' (wf_history wk)) 0 =
       (wk', 0, Inl Stop_nondeterminism)"
proof -
  let ?b = "Activity default_policy ''a'' (\<lambda>n :: int. (n + 1, Raised_error ''E'')) (uncaught Return)"
  obtain wk h where e: "execute ?b [] (new_workflow ''x'' []) 0 = (wk, 4, Inl (Stop_handoff h))"
    by (simp add: execute_def start_def new_workflow_def activity_command_def
        replay_or_execute_def is_replaying_def to_frontier_def record_event_def run_activity_def default_policy_def
        DEFAULT_MAX_ATTEMPTS_def eval_nat_numeral)
  show ?thesis using handoff_replay_diverges [OF e, of "[]" "''x''" 0] e by auto
qed

text \<open>
  Checkpoint and resume round-trip: a workflow whose payloads are well-formed documents resumes,
  with its integrity hash accepted, to the same id and history, up to the order of the keys
  inside the payloads, which the canonical form sorts.
\<close>

theorem checkpoint_roundtrip:
  assumes "list_all (\<lambda>e. wf_json (ev_payload e)) (wf_history wk)"
  shows "resume (checkpoint wk) = Inr (new_workflow (wf_id wk) (map normal_event (wf_history wk)))"
  using assms by (rule resume_checkpoint)

theorem checkpoint_roundtrip_witness:
  "resume (checkpoint (new_workflow ''x'' [\<lparr>ev_seq = 0, ev_type = ''ACTIVITY_COMPLETED'', ev_name = ''a'',
       ev_payload = JObj [(''b'', JInt 1), (''a'', JInt 2)]\<rparr>])) =
   Inr (new_workflow ''x'' [\<lparr>ev_seq = 0, ev_type = ''ACTIVITY_COMPLETED'', ev_name = ''a'',
       ev_payload = JObj [(''a'', JInt 2), (''b'', JInt 1)]\<rparr>])"
proof -
  have "sort_json (JObj [(''b'', JInt 1), (''a'', JInt 2)]) = JObj [(''a'', JInt 2), (''b'', JInt 1)]"
    by code_simp
  then show ?thesis
    by (subst checkpoint_roundtrip) (simp_all add: new_workflow_def normal_event_def)
qed

end
