(* ===== verification/Store.thy ===== *)
theory Store
  imports Evidence
begin

section \<open>The durable store\<close>

text \<open>
  \<open>tools/store.py\<close>, the reference backend: four of the tables of the schema (requirements,
  coverage items, evidence records, run state), each a list of rows in the order of their ids,
  and the operations of \<open>Store\<close>. An operation returns the store it leaves and its result: every
  statement commits on its own, so one that fails half-way leaves what was committed before.

  SQLite's conversions on storing a value in a typed column and its order on values are the
  parameter \<open>engine\<close>; the constraints of the schema, the binding of Python values and the
  statements are written out. The clock (the text of \<open>_utc_now_iso()\<close>) is an argument.
\<close>

subsection \<open>Errors, the engine and the tables\<close>

datatype store_error =
    StoreError
  | EvidenceIncompleteError
  | StoreTransitionError string string
  | IntegrityError
  | InterfaceError
  | OverflowError

definition COVERAGE_STATUSES :: "string list" where
  "COVERAGE_STATUSES = [''unproven'', ''proven'', ''failed'']"

definition REQUIREMENT_TYPES :: "string list" where
  "REQUIREMENT_TYPES = [''functional'', ''NFR'', ''WIRING'']"

definition RUN_STATE_STATUSES :: "string list" where
  "RUN_STATE_STATUSES = [''running'', ''complete'', ''handoff'', ''blocked'']"

definition STORE_TRANSITIONS :: "(string \<times> string) list" where
  "STORE_TRANSITIONS = [(''unproven'', ''proven''), (''unproven'', ''failed''),
     (''failed'', ''unproven''), (''proven'', ''unproven'')]"

interpretation store_moves: status_moves STORE_TRANSITIONS
  by unfold_locales (auto simp: STORE_TRANSITIONS_def)

record engine =
  en_text :: "json \<Rightarrow> json"
  en_integer :: "json \<Rightarrow> json"
  en_real :: "json \<Rightarrow> json"
  en_le :: "json \<Rightarrow> json \<Rightarrow> bool"

record requirement_row =
  rr_id :: string
  rr_project :: json
  rr_type :: json
  rr_nfr :: json
  rr_priority :: json
  rr_pattern :: json
  rr_stmt :: json
  rr_provenance :: json

record coverage_row =
  cv_req :: string
  cv_status :: string
  cv_subtype :: json
  cv_in_scope :: bool
  cv_slice :: json
  cv_updated :: string

record evidence_row =
  er_req :: string
  er_commit :: json
  er_file :: json
  er_name :: json
  er_hash :: json
  er_collected :: json
  er_actor :: json

record store =
  st_reqs :: "requirement_row list"
  st_cov :: "coverage_row list"
  st_ev :: "evidence_row list"
  st_runs :: "dict list"

definition new_store :: store where
  "new_store = \<lparr>st_reqs = [], st_cov = [], st_ev = [], st_runs = []\<rparr>"

type_synonym 'a store_op = "store \<Rightarrow> store \<times> (store_error + 'a)"

text \<open>The driver binds \<open>None\<close>, booleans, 64-bit integers, floats and texts.\<close>

fun bind_value :: "json \<Rightarrow> store_error + json" where
  "bind_value (JBool b) = Inr (JInt (if b then 1 else 0))"
| "bind_value (JInt i) = (if - (2 ^ 63) \<le> i \<and> i < 2 ^ 63 then Inr (JInt i) else Inl OverflowError)"
| "bind_value (JList xs) = Inl InterfaceError"
| "bind_value (JObj d) = Inl InterfaceError"
| "bind_value v = Inr v"

text \<open>\<open>INSERT \<dots> ON CONFLICT \<dots> DO UPDATE\<close>: the row of the key is replaced in its place.\<close>

definition upsert :: "('r \<Rightarrow> 'k) \<Rightarrow> 'r \<Rightarrow> ('r \<Rightarrow> 'r) \<Rightarrow> 'r list \<Rightarrow> 'r list" where
  "upsert key row update rows = (if list_ex (\<lambda>r. key r = key row) rows
     then map (\<lambda>r. if key r = key row then update r else r) rows else rows @ [row])"

definition one_of :: "string list \<Rightarrow> json \<Rightarrow> bool" where
  "one_of xs v = (v \<in> set (map JStr xs))"

definition null_or :: "string list \<Rightarrow> json \<Rightarrow> bool" where
  "null_or xs v = (v = JNull \<or> one_of xs v)"

definition not_null :: "json list \<Rightarrow> bool" where
  "not_null vs = (JNull \<notin> set vs)"

subsection \<open>Requirements\<close>

record requirement_args =
  ra_project :: json
  ra_type :: json
  ra_priority :: json
  ra_pattern :: json
  ra_stmt :: json
  ra_provenance :: json
  ra_nfr :: json

definition requirement_defaults :: requirement_args where
  "requirement_defaults = \<lparr>ra_project = JStr ''default'', ra_type = JStr ''functional'',
     ra_priority = JInt 1, ra_pattern = JStr ''ubiquitous'', ra_stmt = JStr [],
     ra_provenance = JStr ''stated'', ra_nfr = JNull\<rparr>"

definition requirement_row_of :: "engine \<Rightarrow> string \<Rightarrow> requirement_args \<Rightarrow> store_error + requirement_row" where
  "requirement_row_of en rid a =
     py_bind (bind_value (ra_project a)) (\<lambda>project. py_bind (bind_value (ra_type a)) (\<lambda>type.
     py_bind (bind_value (ra_nfr a)) (\<lambda>nfr. py_bind (bind_value (ra_priority a)) (\<lambda>priority.
     py_bind (bind_value (ra_pattern a)) (\<lambda>pattern. py_bind (bind_value (ra_stmt a)) (\<lambda>stmt.
     py_bind (bind_value (ra_provenance a)) (\<lambda>provenance.
       (let row = \<lparr>rr_id = rid, rr_project = en_text en project, rr_type = en_text en type,
              rr_nfr = en_text en nfr, rr_priority = en_integer en priority,
              rr_pattern = en_text en pattern, rr_stmt = en_text en stmt,
              rr_provenance = en_text en provenance\<rparr> in
        if not_null [rr_project row, rr_priority row, rr_pattern row, rr_stmt row]
          \<and> one_of REQUIREMENT_TYPES (rr_type row)
          \<and> null_or [''performance'', ''accessibility'', ''reliability'', ''security''] (rr_nfr row)
          \<and> one_of [''stated'', ''inferred''] (rr_provenance row)
        then Inr row else Inl IntegrityError))))))))"

definition upsert_requirement :: "engine \<Rightarrow> string \<Rightarrow> requirement_args \<Rightarrow> unit store_op" where
  "upsert_requirement en rid a st =
     (if \<not> one_of REQUIREMENT_TYPES (ra_type a) then (st, Inl StoreError)
      else case requirement_row_of en rid a of
        Inl e \<Rightarrow> (st, Inl e)
      | Inr row \<Rightarrow> (st\<lparr>st_reqs := upsert rr_id row (\<lambda>_. row) (st_reqs st)\<rparr>, Inr ()))"

subsection \<open>Evidence rows\<close>

definition evidence_row_of :: "engine \<Rightarrow> string \<Rightarrow> dict \<Rightarrow> string \<Rightarrow> string \<Rightarrow> store_error + evidence_row" where
  "evidence_row_of en rid d commit_sha actor_agent =
     py_bind (bind_value (py_or (JStr commit_sha) (dget_or d ''commit_sha'' (JStr [])))) (\<lambda>commit.
     py_bind (bind_value (dget d ''test_file'')) (\<lambda>file. py_bind (bind_value (dget d ''test_name'')) (\<lambda>name.
     py_bind (bind_value (dget d ''output_hash'')) (\<lambda>hash.
     py_bind (bind_value (dget d ''collected_at'')) (\<lambda>collected.
     py_bind (bind_value (dget_or d ''actor_agent'' (JStr actor_agent))) (\<lambda>actor.
       (let row = \<lparr>er_req = rid, er_commit = en_text en commit, er_file = en_text en file,
              er_name = en_text en name, er_hash = en_text en hash,
              er_collected = en_text en collected, er_actor = en_text en actor\<rparr> in
        if not_null [er_commit row, er_file row, er_name row, er_hash row, er_collected row, er_actor row]
          \<and> er_file row \<noteq> JStr [] \<and> er_name row \<noteq> JStr [] \<and> er_hash row \<noteq> JStr []
        then Inr row else Inl IntegrityError)))))))"

definition store_evidence_row ::
    "engine \<Rightarrow> string \<Rightarrow> json \<Rightarrow> string \<Rightarrow> string \<Rightarrow> bool \<Rightarrow> unit store_op" where
  "store_evidence_row en rid record commit_sha actor_agent gate_already_checked st =
     (if \<not> gate_already_checked \<and> \<not> validate_evidence_record record
      then (st, Inl EvidenceIncompleteError)
      else then_do (upsert_requirement en rid requirement_defaults) (\<lambda>_ st.
        case evidence_row_of en rid (case record of JObj d \<Rightarrow> d | _ \<Rightarrow> []) commit_sha actor_agent of
          Inl e \<Rightarrow> (st, Inl e)
        | Inr row \<Rightarrow> (st\<lparr>st_ev := st_ev st @ [row]\<rparr>, Inr ())) st)"

subsection \<open>Coverage items\<close>

definition item_requirement_args :: "dict \<Rightarrow> requirement_args" where
  "item_requirement_args d =
     \<lparr>ra_project = dget_or d ''project_id'' (JStr ''default''),
      ra_type = dget_or d ''type'' (JStr ''functional''),
      ra_priority = dget_or d ''priority'' (JInt 1),
      ra_pattern = dget_or d ''ears_pattern'' (JStr ''ubiquitous''),
      ra_stmt = dget_or d ''ears_statement'' (dget_or d ''ears_stmt'' (JStr [])),
      ra_provenance = dget_or d ''provenance'' (JStr ''stated''),
      ra_nfr = dget d ''nfr_subtype''\<rparr>"

definition coverage_row_of :: "engine \<Rightarrow> string \<Rightarrow> string \<Rightarrow> dict \<Rightarrow> string \<Rightarrow> store_error + coverage_row" where
  "coverage_row_of en rid status d now =
     py_bind (bind_value (dget d ''subtype'')) (\<lambda>subtype. py_bind (bind_value (dget d ''slice_id'')) (\<lambda>slice.
       (let row = \<lparr>cv_req = rid, cv_status = status, cv_subtype = en_text en subtype,
              cv_in_scope = truthy (dget_or d ''in_scope'' (JBool True)),
              cv_slice = en_text en slice, cv_updated = now\<rparr> in
        if null_or [''performance'', ''accessibility'', ''ui-screen''] (cv_subtype row)
        then Inr row else Inl IntegrityError)))"

definition coverage_insert :: "engine \<Rightarrow> string \<Rightarrow> string \<Rightarrow> dict \<Rightarrow> string \<Rightarrow> unit store_op" where
  "coverage_insert en rid status d now st =
     (case coverage_row_of en rid status d now of
        Inl e \<Rightarrow> (st, Inl e)
      | Inr row \<Rightarrow> (st\<lparr>st_cov := upsert cv_req row (\<lambda>_. row) (st_cov st)\<rparr>, Inr ()))"

text \<open>The three statements of an upsert that has passed its checks, and the checks.\<close>

definition write_item :: "engine \<Rightarrow> string \<Rightarrow> string \<Rightarrow> string \<Rightarrow> dict \<Rightarrow> unit store_op" where
  "write_item en now rid status d =
     then_do (upsert_requirement en rid (item_requirement_args d)) (\<lambda>_.
     then_do (coverage_insert en rid status d now) (\<lambda>_ st.
       if status = ''proven'' \<and> is_dict (dget d ''evidence'')
       then store_evidence_row en rid (dget d ''evidence'') [] VERIFIER_ROLE True st
       else (st, Inr ())))"

definition upsert_coverage_item :: "engine \<Rightarrow> string \<Rightarrow> json \<Rightarrow> unit store_op" where
  "upsert_coverage_item en now item st =
     (case item of
        JObj d \<Rightarrow>
          (case dget d ''id'' of
             JStr rid \<Rightarrow>
               if rid = [] then (st, Inl StoreError)
               else (case dget_or d ''status'' (JStr ''unproven'') of
                  JStr status \<Rightarrow>
                    if status \<notin> set COVERAGE_STATUSES then (st, Inl StoreError)
                    else if status = ''proven'' \<and> \<not> validate_evidence_record
                      (if is_dict (dget d ''evidence'') then dget d ''evidence'' else JObj [])
                    then (st, Inl EvidenceIncompleteError)
                    else write_item en now rid status d st
                | _ \<Rightarrow> (st, Inl StoreError))
           | _ \<Rightarrow> (st, Inl StoreError))
      | _ \<Rightarrow> (st, Inl StoreError))"

definition current_status :: "store \<Rightarrow> string \<Rightarrow> string option" where
  "current_status st rid = map_option cv_status (find (\<lambda>c. cv_req c = rid) (st_cov st))"

definition flip_row :: "string \<Rightarrow> string \<Rightarrow> store \<Rightarrow> store" where
  "flip_row rid now st = st\<lparr>st_cov := upsert cv_req
     \<lparr>cv_req = rid, cv_status = ''proven'', cv_subtype = JNull, cv_in_scope = True, cv_slice = JNull,
      cv_updated = now\<rparr> (\<lambda>r. r\<lparr>cv_status := ''proven'', cv_updated := now\<rparr>) (st_cov st)\<rparr>"

definition store_evidence ::
    "engine \<Rightarrow> string \<Rightarrow> json \<Rightarrow> json \<Rightarrow> string \<Rightarrow> string \<Rightarrow> bool \<Rightarrow> unit store_op" where
  "store_evidence en now requirement_id record commit_sha actor_agent flip_to_proven st =
     (case requirement_id of
        JStr rid \<Rightarrow>
          (let d = (case record of JObj d \<Rightarrow> d | _ \<Rightarrow> []);
               effective_actor = py_or (dget d ''actor_agent'') (JStr actor_agent);
               origin = (case current_status st rid of None \<Rightarrow> ''unproven'' | Some s \<Rightarrow> s) in
           if rid = [] then (st, Inl StoreError)
           else if effective_actor \<noteq> JStr VERIFIER_ROLE then (st, Inl StoreError)
           else if \<not> validate_evidence_record (JObj d) then (st, Inl EvidenceIncompleteError)
           else if \<not> output_hash_match (py_str (dget_or d ''output_hash'' (JStr [])))
           then (st, Inl EvidenceIncompleteError)
           else if flip_to_proven \<and> (origin, ''proven'') \<notin> set STORE_TRANSITIONS
           then (st, Inl (StoreTransitionError origin ''proven''))
           else then_do (store_evidence_row en rid record commit_sha VERIFIER_ROLE True) (\<lambda>_ st.
             (if flip_to_proven then flip_row rid now st else st, Inr ())) st)
      | _ \<Rightarrow> (st, Inl StoreError))"

subsection \<open>Reading coverage and evidence\<close>

definition evidence_dict :: "evidence_row \<Rightarrow> dict" where
  "evidence_dict e = [(''requirement_id'', JStr (er_req e)), (''commit_sha'', er_commit e),
     (''test_file'', er_file e), (''test_name'', er_name e), (''output_hash'', er_hash e),
     (''collected_at'', er_collected e), (''actor_agent'', er_actor e)]"

definition evidence_of :: "store \<Rightarrow> string \<Rightarrow> evidence_row list" where
  "evidence_of st rid = filter (\<lambda>e. er_req e = rid) (st_ev st)"

definition get_evidence :: "store \<Rightarrow> string \<Rightarrow> dict list" where
  "get_evidence st rid = map evidence_dict (evidence_of st rid)"

definition latest_evidence :: "store \<Rightarrow> string \<Rightarrow> dict option" where
  "latest_evidence st rid = (case rev (evidence_of st rid) of
     [] \<Rightarrow> None
   | e # _ \<Rightarrow> Some [(''test_file'', er_file e), (''test_name'', er_name e), (''output_hash'', er_hash e),
       (''collected_at'', er_collected e), (''actor_agent'', er_actor e)])"

fun insert_by :: "('a \<Rightarrow> 'a \<Rightarrow> bool) \<Rightarrow> 'a \<Rightarrow> 'a list \<Rightarrow> 'a list" where
  "insert_by le x [] = [x]"
| "insert_by le x (y # ys) = (if le x y then x # y # ys else y # insert_by le x ys)"

definition sort_by :: "('a \<Rightarrow> 'a \<Rightarrow> bool) \<Rightarrow> 'a list \<Rightarrow> 'a list" where
  "sort_by le xs = foldr (insert_by le) xs []"

definition joined_rows :: "store \<Rightarrow> (coverage_row \<times> requirement_row) list" where
  "joined_rows st = [(c, r). c \<leftarrow> st_cov st, r \<leftarrow> st_reqs st, rr_id r = cv_req c]"

definition row_order :: "engine \<Rightarrow> coverage_row \<times> requirement_row \<Rightarrow> coverage_row \<times> requirement_row \<Rightarrow> bool" where
  "row_order en a b = (let p = rr_priority (snd a); q = rr_priority (snd b) in
     if en_le en p q \<and> en_le en q p then cv_req (fst a) \<le> cv_req (fst b) else en_le en p q)"

definition coverage_dict :: "store \<Rightarrow> coverage_row \<times> requirement_row \<Rightarrow> dict" where
  "coverage_dict st = (\<lambda>(c, r).
     [(''id'', JStr (cv_req c)), (''status'', JStr (cv_status c)), (''in_scope'', JBool (cv_in_scope c)),
      (''subtype'', cv_subtype c), (''slice_id'', cv_slice c), (''type'', rr_type r),
      (''priority'', rr_priority r)] @
     (case latest_evidence st (cv_req c) of None \<Rightarrow> [] | Some e \<Rightarrow> [(''evidence'', JObj e)]))"

definition get_coverage :: "engine \<Rightarrow> store \<Rightarrow> dict list" where
  "get_coverage en st = map (coverage_dict st) (sort_by (row_order en) (joined_rows st))"

definition query_uncovered :: "engine \<Rightarrow> store \<Rightarrow> dict list" where
  "query_uncovered en st = filter (\<lambda>item. truthy (dget item ''in_scope'') \<and>
     dget item ''status'' \<noteq> JStr ''proven'') (get_coverage en st)"

subsection \<open>Run state\<close>

datatype affinity = TextCol | IntegerCol | RealCol | BoolCol

text \<open>The columns in their order, with type, whether \<open>NOT NULL\<close>, and the default of a save.\<close>

definition RUN_STATE_COLUMNS :: "(string \<times> affinity \<times> bool \<times> json) list" where
  "RUN_STATE_COLUMNS =
     [(''session_id'', TextCol, False, JNull),
      (''project_id'', TextCol, True, JStr ''default''),
      (''current_item_id'', TextCol, False, JNull),
      (''status'', TextCol, True, JStr ''running''),
      (''phase'', TextCol, True, JStr ''spec''),
      (''iteration_count'', IntegerCol, True, JInt 0),
      (''spec_pass_count'', IntegerCol, True, JInt 0),
      (''token_cost_usd'', RealCol, True, JInt 0),
      (''no_progress_n'', IntegerCol, True, JInt 0),
      (''violation_count'', IntegerCol, True, JInt 0),
      (''prev_violation_count'', IntegerCol, False, JNull),
      (''retry_count'', IntegerCol, True, JInt 0),
      (''resume_integrity_ok'', BoolCol, False, JNull),
      (''is_resume'', BoolCol, True, JBool False),
      (''first_write_done'', BoolCol, True, JBool False),
      (''resume_state_hash'', TextCol, False, JNull),
      (''stop_hook_active'', BoolCol, True, JBool False),
      (''last_commit_sha'', TextCol, False, JNull)]"

definition in_column :: "engine \<Rightarrow> affinity \<Rightarrow> json \<Rightarrow> json" where
  "in_column en a v = (case a of TextCol \<Rightarrow> en_text en v | RealCol \<Rightarrow> en_real en v | _ \<Rightarrow> en_integer en v)"

definition save_value :: "dict \<Rightarrow> string \<times> affinity \<times> bool \<times> json \<Rightarrow> json" where
  "save_value state = (\<lambda>(col, a, nn, def). let val = dget_or state col def in
     if a = BoolCol \<and> val \<noteq> JNull then JInt (if truthy val then 1 else 0) else val)"

definition run_row_ok :: "store \<Rightarrow> dict \<Rightarrow> bool" where
  "run_row_ok st row =
     (list_all (\<lambda>(col, a, nn, def). nn \<longrightarrow> dget row col \<noteq> JNull) RUN_STATE_COLUMNS \<and>
      one_of RUN_STATE_STATUSES (dget row ''status'') \<and>
      one_of [''spec'', ''implementation''] (dget row ''phase'') \<and>
      null_or (map rr_id (st_reqs st)) (dget row ''current_item_id''))"

definition save_run_state :: "engine \<Rightarrow> string \<Rightarrow> json \<Rightarrow> unit store_op" where
  "save_run_state en now state st =
     (case state of
        JObj d \<Rightarrow>
          (case dget d ''session_id'' of
             JStr sid \<Rightarrow>
               if sid = [] then (st, Inl StoreError)
               else if \<not> one_of RUN_STATE_STATUSES (dget_or d ''status'' (JStr ''running''))
               then (st, Inl StoreError)
               else (case py_map (\<lambda>c. bind_value (save_value d c)) RUN_STATE_COLUMNS of
                  Inl e \<Rightarrow> (st, Inl e)
                | Inr vs \<Rightarrow>
                    (let row = map2 (\<lambda>(col, a, nn, def) v. (col, in_column en a v)) RUN_STATE_COLUMNS vs
                           @ [(''updated_at'', JStr now)] in
                     if run_row_ok st row
                     then (st\<lparr>st_runs := upsert (\<lambda>r. dget r ''session_id'') row (\<lambda>_. row) (st_runs st)\<rparr>, Inr ())
                     else (st, Inl IntegrityError)))
           | _ \<Rightarrow> (st, Inl StoreError))
      | _ \<Rightarrow> (st, Inl StoreError))"

definition RUN_STATE_BOOL_COLUMNS :: "string list" where
  "RUN_STATE_BOOL_COLUMNS = [''resume_integrity_ok'', ''is_resume'', ''first_write_done'', ''stop_hook_active'']"

definition surface_bools :: "dict \<Rightarrow> dict" where
  "surface_bools row = map (\<lambda>(col, v). (col, if col \<in> set RUN_STATE_BOOL_COLUMNS \<and> v \<noteq> JNull
     then JBool (truthy v) else v)) row"

definition load_run_state :: "store \<Rightarrow> string option \<Rightarrow> store_error + dict option" where
  "load_run_state st session_id =
     (case session_id of
        None \<Rightarrow> (case st_runs st of
            [] \<Rightarrow> Inr None
          | [row] \<Rightarrow> Inr (Some (surface_bools row))
          | _ \<Rightarrow> Inl StoreError)
      | Some sid \<Rightarrow> Inr (map_option surface_bools (find (\<lambda>r. dget r ''session_id'' = JStr sid) (st_runs st))))"

subsection \<open>The backend\<close>

text \<open>The backend that \<open>__init__\<close> selects (true: the reference backend) and its placeholders.\<close>

definition select_backend :: "string option \<Rightarrow> string option \<Rightarrow> store_error + bool" where
  "select_backend backend connection_string =
     (let given = (case connection_string of None \<Rightarrow> False | Some c \<Rightarrow> c \<noteq> []);
          b = (case backend of None \<Rightarrow> (if given then ''postgres'' else ''sqlite'') | Some b \<Rightarrow> casefold_ascii b) in
      if b = ''sqlite'' then Inr True
      else if b \<noteq> ''postgres'' then Inl StoreError
      else if \<not> given then Inl StoreError else Inr False)"

definition placeholders :: "bool \<Rightarrow> nat \<Rightarrow> string" where
  "placeholders qmark n = join '', '' (replicate n (if qmark then ''?'' else ''%s''))"

definition to_paramstyle :: "bool \<Rightarrow> string \<Rightarrow> string" where
  "to_paramstyle qmark sql = (if qmark then sql
     else concat (map (\<lambda>c. if c = CHR ''?'' then ''%s'' else [c]) sql))"

subsection \<open>The engine's documented behaviour\<close>

text \<open>A column stores a value of its own kind, and a null, as it is.\<close>

definition engine_ok :: "engine \<Rightarrow> bool" where
  "engine_ok en = ((\<forall>s. en_text en (JStr s) = JStr s) \<and> en_text en JNull = JNull \<and>
     (\<forall>i. en_integer en (JInt i) = JInt i) \<and> en_integer en JNull = JNull \<and>
     (\<forall>r. en_real en (JFloat r) = JFloat r) \<and> en_real en JNull = JNull)"

lemma engine_simps [simp]:
  assumes "engine_ok en"
  shows "en_text en (JStr s) = JStr s" "en_text en JNull = JNull"
    "en_integer en (JInt i) = JInt i" "en_integer en JNull = JNull" "en_real en (JFloat r) = JFloat r"
    "en_real en JNull = JNull"
  using assms by (simp_all add: engine_ok_def)

subsection \<open>Statements\<close>

lemma upsert_keys:
  assumes "\<And>r. key r = key row \<Longrightarrow> key (update r) = key row"
  shows "map key (upsert key row update rows) =
    (if key row \<in> key ` set rows then map key rows else map key rows @ [key row])"
proof -
  have "map key (map (\<lambda>r. if key r = key row then update r else r) rows) = map key rows"
    by (simp add: assms)
  moreover have "list_ex (\<lambda>r. key r = key row) rows = (key row \<in> key ` set rows)"
    by (induction rows) auto
  ultimately show ?thesis by (simp add: upsert_def)
qed

lemma upsert_distinct:
  assumes "\<And>r. key r = key row \<Longrightarrow> key (update r) = key row" "distinct (map key rows)"
  shows "distinct (map key (upsert key row update rows))"
  using assms(2) by (simp add: upsert_keys assms(1))

lemma upsert_mem:
  assumes "r \<in> set (upsert key row update rows)"
  shows "r = row \<or> (r \<in> set rows \<and> key r \<noteq> key row) \<or> (\<exists>q \<in> set rows. key q = key row \<and> r = update q)"
  using assms by (auto simp: upsert_def list_ex_iff split: if_splits)

lemma upsert_mem_key:
  assumes "key (update r) = key row" "\<And>q. q \<in> set rows \<Longrightarrow> key q = key row \<Longrightarrow> update q = r" "r = row"
  shows "row \<in> set (upsert key row update rows)"
  using assms by (force simp: upsert_def list_ex_iff)

lemma find_upsert:
  assumes "\<And>r. key r = key row \<Longrightarrow> key (update r) = key row"
  shows "find (\<lambda>r. key r = key row) (upsert key row update rows) =
    Some (case find (\<lambda>r. key r = key row) rows of None \<Rightarrow> row | Some q \<Rightarrow> update q)"
proof -
  let ?p = "\<lambda>r. key r = key row"
  have "find ?p (map (\<lambda>r. if ?p r then update r else r) rows) = map_option update (find ?p rows)"
    by (induction rows) (simp_all add: assms)
  moreover have "find ?p (rows @ [row]) = Some row" if "find ?p rows = None"
    using that by (induction rows) (simp_all split: if_splits)
  moreover have "list_ex ?p rows = (find ?p rows \<noteq> None)"
    by (induction rows) simp_all
  ultimately show ?thesis
    by (auto simp: upsert_def split: option.splits)
qed

lemma requirement_row_of_id: "requirement_row_of en rid a = Inr row \<Longrightarrow> rr_id row = rid"
  by (auto simp: requirement_row_of_def py_bind_Inr_iff Let_def split: if_splits)

lemma requirement_defaults_row: "engine_ok en \<Longrightarrow> requirement_row_of en rid requirement_defaults =
    Inr \<lparr>rr_id = rid, rr_project = JStr ''default'', rr_type = JStr ''functional'', rr_nfr = JNull,
      rr_priority = JInt 1, rr_pattern = JStr ''ubiquitous'', rr_stmt = JStr [],
      rr_provenance = JStr ''stated''\<rparr>"
  by (simp add: requirement_row_of_def requirement_defaults_def Let_def not_null_def one_of_def
      null_or_def REQUIREMENT_TYPES_def)

lemma upsert_requirement_result:
  assumes "upsert_requirement en rid a st = (st', r)"
  shows "st_cov st' = st_cov st" "st_ev st' = st_ev st" "st_runs st' = st_runs st"
    and "set (map rr_id (st_reqs st')) = set (map rr_id (st_reqs st)) \<union> (case r of Inl _ \<Rightarrow> {} | Inr _ \<Rightarrow> {rid})"
    and "distinct (map rr_id (st_reqs st)) \<Longrightarrow> distinct (map rr_id (st_reqs st'))"
proof -
  have "(\<exists>e. st' = st \<and> r = Inl e) \<or>
      (\<exists>row. rr_id row = rid \<and> st' = st\<lparr>st_reqs := upsert rr_id row (\<lambda>_. row) (st_reqs st)\<rparr> \<and> r = Inr ())"
    using assms by (auto simp: upsert_requirement_def split: if_splits sum.splits dest: requirement_row_of_id)
  then consider e where "st' = st" "r = Inl e"
    | row where "rr_id row = rid" "st' = st\<lparr>st_reqs := upsert rr_id row (\<lambda>_. row) (st_reqs st)\<rparr>" "r = Inr ()"
    by blast
  then have "st_cov st' = st_cov st \<and> st_ev st' = st_ev st \<and> st_runs st' = st_runs st \<and>
    set (map rr_id (st_reqs st')) = set (map rr_id (st_reqs st)) \<union> (case r of Inl _ \<Rightarrow> {} | Inr _ \<Rightarrow> {rid}) \<and>
    (distinct (map rr_id (st_reqs st)) \<longrightarrow> distinct (map rr_id (st_reqs st')))"
  proof cases
    case (2 row)
    have "map rr_id (upsert rr_id row (\<lambda>_. row) (st_reqs st)) =
        (if rid \<in> rr_id ` set (st_reqs st) then map rr_id (st_reqs st) else map rr_id (st_reqs st) @ [rid])"
      using upsert_keys [of rr_id row "\<lambda>_. row"] 2(1) by simp
    with 2 show ?thesis by (auto simp del: set_map simp: set_map [symmetric])
  qed simp
  then show "st_cov st' = st_cov st" "st_ev st' = st_ev st" "st_runs st' = st_runs st"
    and "set (map rr_id (st_reqs st')) = set (map rr_id (st_reqs st)) \<union> (case r of Inl _ \<Rightarrow> {} | Inr _ \<Rightarrow> {rid})"
    and "distinct (map rr_id (st_reqs st)) \<Longrightarrow> distinct (map rr_id (st_reqs st'))"
    by blast+
qed

lemma upsert_requirement_defaults: "engine_ok en \<Longrightarrow>
    snd (upsert_requirement en rid requirement_defaults st) = Inr ()"
  by (simp add: upsert_requirement_def requirement_defaults_row)
    (simp add: requirement_defaults_def one_of_def REQUIREMENT_TYPES_def)

subsection \<open>Evidence\<close>

definition proof_row :: "evidence_row \<Rightarrow> bool" where
  "proof_row e = validate_evidence_record (JObj [(''test_file'', er_file e), (''test_name'', er_name e),
     (''output_hash'', er_hash e), (''collected_at'', er_collected e)])"

lemma validated_fields:
  assumes "validate_evidence_record (JObj d)" "f \<in> set REQUIRED_FIELDS"
  obtains s where "dget d f = JStr s" "s \<noteq> []"
proof -
  have "nonblank_str (dget d f)"
    using assms by (auto simp: validate_evidence_record_def list_all_iff split: if_splits)
  then obtain s where s: "dget d f = JStr s" "strip s \<noteq> []" by (cases "dget d f") simp_all
  then have "s \<noteq> []" by (auto simp: strip_def)
  with s(1) show thesis by (rule that)
qed

lemma validate_four_fields:
  assumes "\<And>f. f \<in> set REQUIRED_FIELDS \<Longrightarrow> dget d f = dget d' f"
  shows "validate_evidence_record (JObj d) = validate_evidence_record (JObj d')"
  using assms by (simp add: validate_evidence_record_def REQUIRED_FIELDS_def)

text \<open>The row that a validated record becomes: its four fields as they are.\<close>

lemma evidence_row_Inr:
  assumes "engine_ok en" "validate_evidence_record (JObj d)"
    and "evidence_row_of en rid d commit_sha actor_agent = Inr row"
  shows "er_req row = rid" "proof_row row" "er_file row = dget d ''test_file''"
    "er_name row = dget d ''test_name''" "er_hash row = dget d ''output_hash''"
    "er_collected row = dget d ''collected_at''"
proof -
  obtain a b h c where f: "dget d ''test_file'' = JStr a" "dget d ''test_name'' = JStr b"
    "dget d ''output_hash'' = JStr h" "dget d ''collected_at'' = JStr c"
    using validated_fields [OF assms(2)] unfolding REQUIRED_FIELDS_def
    by (metis list.set_intros(1) list.set_intros(2))
  have r: "er_req row = rid" "er_file row = JStr a" "er_name row = JStr b" "er_hash row = JStr h"
    "er_collected row = JStr c"
    using assms(3) by (auto simp: evidence_row_of_def f py_bind_Inr_iff Let_def assms(1) split: if_splits)
  then show "er_req row = rid" "er_file row = dget d ''test_file''" "er_name row = dget d ''test_name''"
    "er_hash row = dget d ''output_hash''" "er_collected row = dget d ''collected_at''" by (simp_all add: f)
  have "validate_evidence_record (JObj [(''test_file'', er_file row), (''test_name'', er_name row),
      (''output_hash'', er_hash row), (''collected_at'', er_collected row)]) = validate_evidence_record (JObj d)"
    by (rule validate_four_fields) (auto simp: REQUIRED_FIELDS_def f r)
  with assms(2) show "proof_row row" by (simp add: proof_row_def)
qed

definition text_provenance :: "dict \<Rightarrow> bool" where
  "text_provenance d = (is_str (dget_or d ''commit_sha'' (JStr [])) \<and> is_str (dget_or d ''actor_agent'' (JStr [])))"

lemma evidence_row_ok:
  assumes "engine_ok en" "validate_evidence_record (JObj d)" "text_provenance d"
  shows "\<exists>row. evidence_row_of en rid d commit_sha actor_agent = Inr row"
proof -
  obtain a b h c where f: "dget d ''test_file'' = JStr a" "dget d ''test_name'' = JStr b"
    "dget d ''output_hash'' = JStr h" "dget d ''collected_at'' = JStr c" "a \<noteq> []" "b \<noteq> []" "h \<noteq> []"
    using validated_fields [OF assms(2)] unfolding REQUIRED_FIELDS_def
    by (metis list.set_intros(1) list.set_intros(2))
  obtain p q where "dget_or d ''commit_sha'' (JStr []) = JStr p" "dget_or d ''actor_agent'' (JStr []) = JStr q"
    using assms(3) by (auto simp: text_provenance_def elim!: is_str.elims)
  moreover from this(2) obtain q' where "dget_or d ''actor_agent'' (JStr actor_agent) = JStr q'"
    by (auto simp: dget_or_def split: option.splits)
  ultimately show ?thesis
    by (simp add: evidence_row_of_def f py_or_def Let_def assms(1) not_null_def)
qed

subsection \<open>The state invariant\<close>

definition requirement_ids :: "store \<Rightarrow> string set" where
  "requirement_ids st = set (map rr_id (st_reqs st))"

text \<open>A proven row has its proof, or an upsert of its item has raised.\<close>

definition backed :: "string list \<Rightarrow> evidence_row list \<Rightarrow> coverage_row \<Rightarrow> bool" where
  "backed raised ev c = (cv_status c = ''proven'' \<longrightarrow> cv_req c \<in> set raised \<or> (\<exists>e \<in> set ev. er_req e = cv_req c \<and> proof_row e))"

definition store_inv :: "string list \<Rightarrow> store \<Rightarrow> bool" where
  "store_inv raised st = (list_all (\<lambda>c. cv_req c \<in> requirement_ids st \<and> backed raised (st_ev st) c) (st_cov st) \<and>
     list_all (\<lambda>e. er_req e \<in> requirement_ids st) (st_ev st) \<and>
     distinct (map cv_req (st_cov st)) \<and> distinct (map rr_id (st_reqs st)))"

text \<open>What an operation may do to the rest of the store: it grows.\<close>

definition extends :: "store \<Rightarrow> store \<Rightarrow> bool" where
  "extends st st' = (requirement_ids st \<subseteq> requirement_ids st' \<and> set (st_ev st) \<subseteq> set (st_ev st') \<and>
     (distinct (map rr_id (st_reqs st)) \<longrightarrow> distinct (map rr_id (st_reqs st'))) \<and>
     (\<forall>e \<in> set (st_ev st') - set (st_ev st). er_req e \<in> requirement_ids st'))"

lemma extends_refl [simp]: "extends st st"
  by (simp add: extends_def)

lemma backed_mono: "backed raised ev c \<Longrightarrow> set ev \<subseteq> set ev' \<Longrightarrow> backed raised ev' c"
  by (auto simp: backed_def)

lemma store_inv_more: "store_inv raised st \<Longrightarrow> store_inv (raised @ fails) st"
  by (auto simp: store_inv_def backed_def list_all_iff)

lemma extends_inv:
  assumes "store_inv raised st" "extends st st'" "st_cov st' = st_cov st"
  shows "store_inv raised st'"
proof -
  have "backed raised (st_ev st') c" if "c \<in> set (st_cov st')" for c
    using that assms by (auto simp: store_inv_def extends_def list_all_iff intro: backed_mono)
  moreover have "er_req e \<in> requirement_ids st'" if "e \<in> set (st_ev st')" for e
    using that assms(1,2) by (cases "e \<in> set (st_ev st)") (auto simp: store_inv_def extends_def list_all_iff)
  ultimately show ?thesis
    using assms by (auto simp: store_inv_def extends_def list_all_iff)
qed

lemma extends_upsert_inv:
  assumes "store_inv raised st" "extends st st'" "st_cov st' = upsert cv_req row update (st_cov st)"
    and "cv_req row \<in> requirement_ids st'" "\<And>r. cv_req r = cv_req row \<Longrightarrow> cv_req (update r) = cv_req row"
    and "backed raised (st_ev st') row" "\<And>r. cv_req r = cv_req row \<Longrightarrow> backed raised (st_ev st') (update r)"
  shows "store_inv raised st'"
proof -
  have "cv_req c \<in> requirement_ids st' \<and> backed raised (st_ev st') c" if "c \<in> set (st_cov st')" for c
    using upsert_mem [OF that [unfolded assms(3)]] assms(1,2,4-7)
    unfolding store_inv_def extends_def list_all_iff by (auto intro: backed_mono)
  moreover have "distinct (map cv_req (st_cov st'))"
    using assms(1) unfolding assms(3) by (intro upsert_distinct assms(5)) (auto simp: store_inv_def)
  moreover have "er_req e \<in> requirement_ids st'" if "e \<in> set (st_ev st')" for e
    using that assms(1,2) by (cases "e \<in> set (st_ev st)") (auto simp: store_inv_def extends_def list_all_iff)
  ultimately show ?thesis
    using assms(1,2) by (auto simp: store_inv_def extends_def list_all_iff)
qed

lemma upsert_requirement_extends:
  assumes "upsert_requirement en rid a st = (st', r)"
  shows "extends st st'" "st_cov st' = st_cov st" "r = Inr () \<Longrightarrow> rid \<in> requirement_ids st'"
  using upsert_requirement_result [OF assms] by (auto simp: extends_def requirement_ids_def split: sum.splits)

lemma coverage_row_of_Inr:
  "coverage_row_of en rid status d now = Inr row \<Longrightarrow> cv_req row = rid \<and> cv_status row = status"
  by (auto simp: coverage_row_of_def py_bind_Inr_iff Let_def split: if_splits)

lemma coverage_insert_result:
  assumes "coverage_insert en rid status d now st = (st', r)"
  obtains e where "st' = st" "r = Inl e"
  | row where "cv_req row = rid" "cv_status row = status" "r = Inr ()"
      "st' = st\<lparr>st_cov := upsert cv_req row (\<lambda>_. row) (st_cov st)\<rparr>"
  using assms coverage_row_of_Inr [of en rid status d now]
  by (cases "coverage_row_of en rid status d now") (auto simp: coverage_insert_def)

text \<open>Storing a validated record: on success the proof is the last row, otherwise none is added.\<close>

lemma store_evidence_row_result:
  assumes "engine_ok en" "validate_evidence_record (JObj d)"
    and "store_evidence_row en rid (JObj d) commit_sha actor_agent gate st = (st', r)"
  shows "extends st st'" "st_cov st' = st_cov st" "st_runs st' = st_runs st" "rid \<in> requirement_ids st'"
    and "r = Inl e \<Longrightarrow> st_ev st' = st_ev st"
    and "r = Inr () \<Longrightarrow> \<exists>row. st_ev st' = st_ev st @ [row] \<and>
      evidence_row_of en rid d commit_sha actor_agent = Inr row"
    and "text_provenance d \<Longrightarrow> r = Inr ()"
proof -
  obtain st1 where u: "upsert_requirement en rid requirement_defaults st = (st1, Inr ())"
    using upsert_requirement_defaults [OF assms(1)] by (metis prod.collapse)
  note q = upsert_requirement_extends [OF u] upsert_requirement_result(2,3) [OF u]
  have s: "store_evidence_row en rid (JObj d) commit_sha actor_agent gate st =
      (case evidence_row_of en rid d commit_sha actor_agent of Inl e \<Rightarrow> (st1, Inl e)
       | Inr row \<Rightarrow> (st1\<lparr>st_ev := st_ev st1 @ [row]\<rparr>, Inr ()))"
    using assms(2) by (simp add: store_evidence_row_def then_do_def u)
  have "er_req row = rid" if "evidence_row_of en rid d commit_sha actor_agent = Inr row" for row
    using evidence_row_Inr(1) [OF assms(1,2) that] .
  then show "extends st st'" "st_cov st' = st_cov st" "st_runs st' = st_runs st" "rid \<in> requirement_ids st'"
    "r = Inl e \<Longrightarrow> st_ev st' = st_ev st"
    "r = Inr () \<Longrightarrow> \<exists>row. st_ev st' = st_ev st @ [row] \<and>
      evidence_row_of en rid d commit_sha actor_agent = Inr row"
    using assms(3) q unfolding s by (auto simp: extends_def requirement_ids_def split: sum.splits)
  show "r = Inr ()" if "text_provenance d"
    using assms(3) evidence_row_ok [OF assms(1,2) that, of rid commit_sha actor_agent]
    unfolding s by auto
qed

subsection \<open>Upserting an item\<close>

lemma validate_needs_fields: "\<not> validate_evidence_record (JObj [])"
  by (simp add: validate_evidence_record_def REQUIRED_FIELDS_def)

lemma upsert_item_cases:
  assumes "upsert_coverage_item en now item st = (st', r)"
  obtains (refused) e where "st' = st" "r = Inl e"
  | (requirement) e rid a where "upsert_requirement en rid a st = (st', Inl e)" "r = Inl e"
  | (row) e rid a d status st1 where "upsert_requirement en rid a st = (st1, Inr ())"
      "coverage_insert en rid status d now st1 = (st', Inl e)" "r = Inl e"
  | (plain) rid a d status st1 where "upsert_requirement en rid a st = (st1, Inr ())"
      "coverage_insert en rid status d now st1 = (st', Inr ())" "r = Inr ()" "status \<noteq> ''proven''"
  | (proved) rid a d ev st1 st2 where "item = JObj d" "dget d ''id'' = JStr rid" "dget d ''evidence'' = JObj ev"
      "upsert_requirement en rid a st = (st1, Inr ())"
      "coverage_insert en rid ''proven'' d now st1 = (st2, Inr ())"
      "validate_evidence_record (JObj ev)"
      "store_evidence_row en rid (JObj ev) [] VERIFIER_ROLE True st2 = (st', r)"
proof -
  consider e where "st' = st" "r = Inl e"
    | d rid status where "item = JObj d" "dget d ''id'' = JStr rid" "write_item en now rid status d st = (st', r)"
      "status = ''proven'' \<Longrightarrow> validate_evidence_record
          (if is_dict (dget d ''evidence'') then dget d ''evidence'' else JObj [])"
    using assms unfolding upsert_coverage_item_def
    by (simp split: json.splits if_splits) metis+
  then show thesis
  proof cases
    case (2 d rid status)
    note 2 = 2 [unfolded write_item_def]
    obtain st1 r1 where u: "upsert_requirement en rid (item_requirement_args d) st = (st1, r1)" by fastforce
    obtain st2 r2 where c: "coverage_insert en rid status d now st1 = (st2, r2)" by fastforce
    show thesis
    proof (cases r1)
      case (Inl e)
      with 2(3) u have "st1 = st'" "r = Inl e" by (simp_all add: then_do_def)
      with u Inl requirement show thesis by blast
    next
      case Inr1: (Inr x)
      have u': "upsert_requirement en rid (item_requirement_args d) st = (st1, Inr ())"
        using u Inr1 by simp
      show thesis
      proof (cases r2)
        case (Inl e)
        with 2(3) u' c have "st2 = st'" "r = Inl e" by (simp_all add: then_do_def)
        with u' c Inl row show thesis by blast
      next
        case (Inr y)
        then have c': "coverage_insert en rid status d now st1 = (st2, Inr ())" using c by simp
        show thesis
        proof (cases "status = ''proven''")
          case True
          then obtain ev where ev: "dget d ''evidence'' = JObj ev"
            using 2(4) validate_needs_fields by (cases "dget d ''evidence''") simp_all
          have "validate_evidence_record (JObj ev)"
            "store_evidence_row en rid (JObj ev) [] VERIFIER_ROLE True st2 = (st', r)"
            using 2(3,4) u' c' True ev by (simp_all add: then_do_def)
          then show thesis using proved [OF 2(1,2) ev u'] c' True by blast
        next
          case False
          then have "st' = st2" "r = Inr ()" using 2(3) u' c' by (simp_all add: then_do_def)
          with False u' c' plain show thesis by blast
        qed
      qed
    qed
  qed (use refused in blast)
qed

text \<open>The identifier of an item whose upsert has raised.\<close>

definition raised_ids :: "json \<Rightarrow> store_error + unit \<Rightarrow> string list" where
  "raised_ids item r = (case (item, r) of
     (JObj d, Inl e) \<Rightarrow> (case dget d ''id'' of JStr i \<Rightarrow> [i] | _ \<Rightarrow> []) | _ \<Rightarrow> [])"

lemma coverage_insert_inv:
  assumes "upsert_requirement en rid a st = (st1, Inr ())"
    and "coverage_insert en rid status d now st1 = (st2, Inr ())"
    and "store_inv raised st" "extends st1 st'" "st_cov st' = st_cov st2"
    and "status = ''proven'' \<Longrightarrow> rid \<in> set raised \<or> (\<exists>e \<in> set (st_ev st'). er_req e = rid \<and> proof_row e)"
  shows "store_inv raised st'"
proof -
  note u = upsert_requirement_extends [OF assms(1)]
  obtain row where r: "cv_req row = rid" "cv_status row = status"
    "st2 = st1\<lparr>st_cov := upsert cv_req row (\<lambda>_. row) (st_cov st1)\<rparr>"
    using assms(2) by (auto elim: coverage_insert_result)
  have "store_inv raised st1" using extends_inv [OF assms(3) u(1,2)] .
  moreover have "st_cov st' = upsert cv_req row (\<lambda>_. row) (st_cov st1)" using assms(5) r by simp
  moreover have "cv_req row \<in> requirement_ids st'" using u(3) assms(4) r by (auto simp: extends_def)
  moreover have "backed raised (st_ev st') row" using assms(6) r by (simp add: backed_def)
  ultimately show ?thesis using assms(4) extends_upsert_inv by metis
qed

lemma upsert_item_inv:
  assumes "engine_ok en" "store_inv raised st" "upsert_coverage_item en now item st = (st', r)"
  shows "store_inv (raised @ raised_ids item r) st'"
  using assms(3)
proof (cases rule: upsert_item_cases)
  case refused
  then show ?thesis using store_inv_more [OF assms(2)] by simp
next
  case requirement
  then show ?thesis using store_inv_more extends_inv [OF assms(2)] upsert_requirement_extends(1,2) by blast
next
  case (row e rid a d status st1)
  then have "st' = st1" by (auto elim: coverage_insert_result)
  then show ?thesis using row(1) store_inv_more extends_inv [OF assms(2)] upsert_requirement_extends(1,2) by blast
next
  case (plain rid a d status st1)
  from plain(2) have "extends st1 st'"
    by (auto elim!: coverage_insert_result simp: extends_def requirement_ids_def)
  with coverage_insert_inv [OF plain(1,2) assms(2)] plain(4) show ?thesis by (simp add: store_inv_more)
next
  case (proved rid a d ev st1 st2)
  note e = store_evidence_row_result [OF assms(1) proved(6,7)]
  from proved(5) have "st_ev st2 = st_ev st1" "st_reqs st2 = st_reqs st1"
    by (auto elim: coverage_insert_result)
  then have x: "extends st1 st'" using e(1) by (simp add: extends_def requirement_ids_def)
  have "rid \<in> set (raised @ raised_ids item r) \<or> (\<exists>e \<in> set (st_ev st'). er_req e = rid \<and> proof_row e)"
  proof (cases r)
    case (Inl err)
    then show ?thesis using proved(1,2) by (simp add: raised_ids_def)
  next
    case (Inr u)
    then obtain row where "st_ev st' = st_ev st2 @ [row]" "evidence_row_of en rid ev [] VERIFIER_ROLE = Inr row"
      using e(6) by auto
    then show ?thesis using evidence_row_Inr(1,2) [OF assms(1) proved(6)] by auto
  qed
  with coverage_insert_inv [OF proved(4,5) store_inv_more [OF assms(2)] x] e(2) show ?thesis by blast
qed

subsection \<open>Storing evidence\<close>

lemma store_evidence_cases:
  assumes "store_evidence en now requirement_id record commit_sha actor_agent flip st = (st', r)"
  obtains (refused) e where "st' = st" "r = Inl e"
  | (stored) rid d st1 r1 where "requirement_id = JStr rid" "record = JObj d" "rid \<noteq> []"
      "py_or (dget d ''actor_agent'') (JStr actor_agent) = JStr VERIFIER_ROLE"
      "validate_evidence_record (JObj d)"
      "flip \<Longrightarrow> current_status st rid \<in> {None, Some ''unproven''}"
      "store_evidence_row en rid (JObj d) commit_sha VERIFIER_ROLE True st = (st1, r1)"
      "st' = (if flip \<and> r1 = Inr () then flip_row rid now st1 else st1)" "r = r1"
proof (cases "\<exists>e. st' = st \<and> r = Inl e")
  case False
  then obtain rid d where h: "requirement_id = JStr rid" "record = JObj d" "rid \<noteq> []"
    "py_or (dget d ''actor_agent'') (JStr actor_agent) = JStr VERIFIER_ROLE" "validate_evidence_record (JObj d)"
    and f: "flip \<longrightarrow> ((case current_status st rid of None \<Rightarrow> ''unproven'' | Some s \<Rightarrow> s), ''proven'') \<in> set STORE_TRANSITIONS"
    and s: "(st', r) = then_do (store_evidence_row en rid record commit_sha VERIFIER_ROLE True) (\<lambda>_ st.
             (if flip then flip_row rid now st else st, Inr ())) st"
    using assms validate_needs_fields
    by (cases requirement_id; cases "record") (auto simp: store_evidence_def Let_def split: if_splits)
  obtain st1 r1 where e: "store_evidence_row en rid (JObj d) commit_sha VERIFIER_ROLE True st = (st1, r1)"
    by fastforce
  have "flip \<Longrightarrow> current_status st rid \<in> {None, Some ''unproven''}"
    using f by (cases "current_status st rid") (auto dest: store_moves.into_proven)
  then show thesis
    using s unfolding h(2) by (intro stored [OF h _ e]) (auto simp: then_do_def e split: sum.splits)
qed (use refused in blast)

lemma store_evidence_inv:
  assumes "engine_ok en" "store_inv raised st"
    and "store_evidence en now requirement_id record commit_sha actor_agent flip st = (st', r)"
  shows "store_inv raised st'"
  using assms(3)
proof (cases rule: store_evidence_cases)
  case (stored rid d st1 r1)
  note e = store_evidence_row_result [OF assms(1) stored(5,7)]
  have inv: "store_inv raised st1" using extends_inv [OF assms(2) e(1,2)] .
  show ?thesis
  proof (cases "flip \<and> r1 = Inr ()")
    case True
    then obtain row where "st_ev st1 = st_ev st @ [row]"
      "evidence_row_of en rid d commit_sha VERIFIER_ROLE = Inr row" using e(6) by blast
    then have p: "row \<in> set (st_ev st1)" "er_req row = rid" "proof_row row"
      using evidence_row_Inr(1,2) [OF assms(1) stored(5)] by auto
    let ?new = "\<lparr>cv_req = rid, cv_status = ''proven'', cv_subtype = JNull, cv_in_scope = True,
      cv_slice = JNull, cv_updated = now\<rparr>"
    have "backed raised (st_ev st1) c" if "cv_req c = rid" for c
      using p that by (auto simp: backed_def)
    then show ?thesis
      using True stored(8) inv e(4)
      by (intro extends_upsert_inv [of raised st1 st' ?new "\<lambda>r. r\<lparr>cv_status := ''proven'', cv_updated := now\<rparr>"])
        (auto simp: flip_row_def extends_def requirement_ids_def)
  next
    case False
    then have "st' = st1" using stored(8) by auto
    with inv show ?thesis by simp
  qed
qed (use assms(2) in simp)

subsection \<open>Reachable stores\<close>

text \<open>A step of the store, whatever its arguments and whether it raises or not, with the identifiers of
  the items whose upsert raised in it; a history collects them.\<close>

inductive store_step :: "engine \<Rightarrow> store \<Rightarrow> string list \<Rightarrow> store \<Rightarrow> bool" for en :: engine where
  requirement: "upsert_requirement en rid a st = (st', r) \<Longrightarrow> store_step en st [] st'"
| item: "upsert_coverage_item en now i st = (st', r) \<Longrightarrow> store_step en st (raised_ids i r) st'"
| evidence: "store_evidence en now rid d commit_sha actor_agent flip st = (st', r) \<Longrightarrow> store_step en st [] st'"
| run: "save_run_state en now state st = (st', r) \<Longrightarrow> store_step en st [] st'"

inductive reachable_store :: "engine \<Rightarrow> string list \<Rightarrow> store \<Rightarrow> bool" for en :: engine where
  fresh: "reachable_store en [] new_store"
| step: "reachable_store en raised st \<Longrightarrow> store_step en st fails st' \<Longrightarrow> reachable_store en (raised @ fails) st'"

lemma save_run_state_frame:
  assumes "save_run_state en now state st = (st', r)"
  shows "st_reqs st' = st_reqs st" "st_cov st' = st_cov st" "st_ev st' = st_ev st"
proof -
  have "\<exists>f. st' = st\<lparr>st_runs := f\<rparr>"
  proof (cases "\<exists>e. st' = st \<and> r = Inl e")
    case True
    then show ?thesis by (metis store.surjective store.update_convs(4))
  next
    case False
    with assms show ?thesis
      by (auto simp: save_run_state_def Let_def split: json.splits if_splits sum.splits)
  qed
  then show "st_reqs st' = st_reqs st" "st_cov st' = st_cov st" "st_ev st' = st_ev st" by auto
qed

lemma store_step_inv:
  assumes "engine_ok en" "store_step en st fails st'" "store_inv raised st"
  shows "store_inv (raised @ fails) st'"
  using assms(2)
proof (cases rule: store_step.cases)
  case (requirement rid a r)
  then show ?thesis using extends_inv [OF assms(3)] upsert_requirement_extends(1,2) by simp
next
  case (item now i r)
  then show ?thesis using upsert_item_inv [OF assms(1,3)] by blast
next
  case (evidence now rid d commit_sha actor_agent flip r)
  then show ?thesis using store_evidence_inv assms(1,3) by simp
next
  case (run now state r)
  note f = save_run_state_frame [OF run(2)]
  show ?thesis
    unfolding run(1) by (rule extends_inv) (use assms(3) in \<open>simp_all add: f extends_def requirement_ids_def\<close>)
qed

lemma reachable_store_inv: "reachable_store en raised st \<Longrightarrow> engine_ok en \<Longrightarrow> store_inv raised st"
proof (induction rule: reachable_store.induct)
  case fresh
  then show ?case by (simp add: store_inv_def new_store_def)
next
  case (step raised st fails st')
  then show ?case using store_step_inv by blast
qed

subsection \<open>Reading back\<close>

lemma set_insert_by [simp]: "set (insert_by le x xs) = insert x (set xs)"
  by (induction xs) auto

lemma set_sort_by [simp]: "set (sort_by le xs) = set xs"
  by (induction xs) (simp_all add: sort_by_def)

lemma coverage_dict_fields [simp]:
  "dget (coverage_dict st (c, r)) ''id'' = JStr (cv_req c)"
  "dget (coverage_dict st (c, r)) ''status'' = JStr (cv_status c)"
  "dget (coverage_dict st (c, r)) ''in_scope'' = JBool (cv_in_scope c)"
  by (simp_all add: coverage_dict_def)

lemma joined_rows_fst:
  assumes "store_inv raised st"
  shows "fst ` set (joined_rows st) = set (st_cov st)"
proof
  show "fst ` set (joined_rows st) \<subseteq> set (st_cov st)" by (auto simp: joined_rows_def)
  show "set (st_cov st) \<subseteq> fst ` set (joined_rows st)"
  proof
    fix c assume c: "c \<in> set (st_cov st)"
    then obtain r where "r \<in> set (st_reqs st)" "rr_id r = cv_req c"
      using assms by (auto simp: store_inv_def list_all_iff requirement_ids_def)
    with c have "(c, r) \<in> set (joined_rows st)" by (auto simp: joined_rows_def)
    then show "c \<in> fst ` set (joined_rows st)" by force
  qed
qed

lemma query_uncovered_ids:
  assumes "store_inv raised st"
  shows "(\<lambda>item. dget item ''id'') ` set (query_uncovered en st) =
    {JStr (cv_req c) | c. c \<in> set (st_cov st) \<and> cv_in_scope c \<and> cv_status c \<noteq> ''proven''}"
proof -
  have "set (query_uncovered en st) = coverage_dict st `
      {x \<in> set (joined_rows st). cv_in_scope (fst x) \<and> cv_status (fst x) \<noteq> ''proven''}"
    by (auto simp: query_uncovered_def get_coverage_def)
  then have "(\<lambda>item. dget item ''id'') ` set (query_uncovered en st) = (\<lambda>c. JStr (cv_req c)) `
      {c \<in> fst ` set (joined_rows st). cv_in_scope c \<and> cv_status c \<noteq> ''proven''}"
    by (force simp: image_iff)
  then show ?thesis unfolding joined_rows_fst [OF assms] by auto
qed

lemma query_uncovered_coverage:
  "has_unproven_in_scope (JObj [(''items'', JList (map JObj (get_coverage en st)))]) =
     Inr (query_uncovered en st \<noteq> [])"
  by (simp add: has_unproven_in_scope_def query_uncovered_def list_ex_iff filter_empty_conv Bex_def)

subsection \<open>A store to run\<close>

definition sample_engine :: engine where
  "sample_engine = \<lparr>en_text = (\<lambda>v. case v of JInt i \<Rightarrow> JStr (int_str i) | JFloat r \<Rightarrow> JStr r | _ \<Rightarrow> v),
     en_integer = (\<lambda>v. v), en_real = (\<lambda>v. case v of JInt i \<Rightarrow> JFloat (int_str i @ ''.0'') | _ \<Rightarrow> v),
     en_le = (\<lambda>a b. case (a, b) of (JInt i, JInt j) \<Rightarrow> i \<le> j | _ \<Rightarrow> True)\<rparr>"

lemma sample_engine_ok [simp]: "engine_ok sample_engine"
  by (simp add: engine_ok_def sample_engine_def)

definition sample_proof :: dict where
  "sample_proof = collect ''t.py'' ''t'' ''1 passed''
     \<lparr>u_year = 2026, u_month = 6, u_day = 22, u_hour = 9, u_minute = 5, u_second = 0, u_micro = 0\<rparr>"

lemma sample_proof_ok: "validate_evidence_record (JObj sample_proof)" "text_provenance sample_proof"
  "dget sample_proof ''actor_agent'' = JNull"
proof -
  show "validate_evidence_record (JObj sample_proof)"
    unfolding sample_proof_def by (rule collect_validates)
      (simp_all add: valid_instant_def valid_date_def days_in_month_def strip_def is_space_def code_def)
qed (simp_all add: sample_proof_def collect_def text_provenance_def)

end
