(* ===== verification/Store_Properties.thy ===== *)
theory Store_Properties
  imports Store
begin

section \<open>What the durable store guarantees\<close>

text \<open>
  The properties of \<open>tools/store.py\<close>: every proven item has its row of proof, storing evidence is
  all or nothing, the uncovered items are the ones the coverage helpers count, the run state
  round-trips; and two places where the code does less than it means to.
\<close>

subsection \<open>Storing evidence\<close>

lemma store_evidence_row_exact:
  assumes "engine_ok en" "validate_evidence_record (JObj d)"
    and "evidence_row_of en rid d commit_sha actor_agent = Inr row"
  shows "map (dget (evidence_dict row)) REQUIRED_FIELDS = map (dget d) REQUIRED_FIELDS"
  using evidence_row_Inr [OF assms] by (simp add: evidence_dict_def REQUIRED_FIELDS_def)

lemma current_status_flip: "current_status (flip_row rid now st) rid = Some ''proven''"
proof -
  let ?new = "\<lparr>cv_req = rid, cv_status = ''proven'', cv_subtype = JNull, cv_in_scope = True,
      cv_slice = JNull, cv_updated = now\<rparr>"
  show ?thesis
    using find_upsert [of cv_req ?new "\<lambda>r. r\<lparr>cv_status := ''proven'', cv_updated := now\<rparr>" "st_cov st"]
    by (simp add: current_status_def flip_row_def split: option.splits)
qed

lemma find_map_other:
  assumes "\<And>r. key (f r) = key r" "k \<noteq> k'"
  shows "find (\<lambda>r. key r = k) (map (\<lambda>r. if key r = k' then f r else r) rows) = find (\<lambda>r. key r = k) rows"
  using assms(2) by (induction rows) (auto simp: assms(1))

lemma current_status_flip_other:
  assumes "other \<noteq> rid"
  shows "current_status (flip_row rid now st) other = current_status st other"
proof -
  have "find p (rows @ [row]) = find p rows" if "\<not> p row" for p rows and row :: coverage_row
    using that by (induction rows) auto
  with assms show ?thesis
    by (simp add: current_status_def flip_row_def upsert_def find_map_other)
qed

definition default_requirement :: "requirement_row \<Rightarrow> bool" where
  "default_requirement r = (rr_type r = JStr ''functional'' \<and> rr_priority r = JInt 1 \<and>
     rr_nfr r = JNull \<and> rr_stmt r = JStr [] \<and> rr_project r = JStr ''default'')"

lemma upsert_self:
  assumes "r \<in> set (upsert key row (\<lambda>_. row) rows)" "key r = key row"
  shows "r = row"
  using upsert_mem [OF assms(1)] assms(2) by auto

lemma store_evidence_row_resets:
  assumes "engine_ok en" "store_evidence_row en rid (JObj d) c a True st = (st', r)"
    and "q \<in> set (st_reqs st')" "rr_id q = rid"
  shows "default_requirement q"
proof -
  obtain row where row: "requirement_row_of en rid requirement_defaults = Inr row"
    "default_requirement row" "rr_id row = rid"
    using requirement_defaults_row [OF assms(1)] by (simp add: default_requirement_def)
  obtain st1 where u: "upsert_requirement en rid requirement_defaults st = (st1, Inr ())"
    using upsert_requirement_defaults [OF assms(1)] by (metis prod.collapse)
  then have "st_reqs st1 = upsert rr_id row (\<lambda>_. row) (st_reqs st)"
    using row by (auto simp: upsert_requirement_def split: if_splits)
  moreover have "st_reqs st' = st_reqs st1"
    using assms(2) by (auto simp: store_evidence_row_def then_do_def u split: sum.splits)
  ultimately show ?thesis using upsert_self [of q rr_id row] assms(3,4) row(2,3) by auto
qed

subsection \<open>Saving and loading the run state\<close>

text \<open>A value of the kind of its column; \<open>None\<close> where the column allows it.\<close>

fun column_typed :: "affinity \<Rightarrow> bool \<Rightarrow> json \<Rightarrow> bool" where
  "column_typed a nn JNull = (\<not> nn)"
| "column_typed TextCol nn v = is_str v"
| "column_typed IntegerCol nn v = (case v of JInt i \<Rightarrow> - (2 ^ 63) \<le> i \<and> i < 2 ^ 63 | _ \<Rightarrow> False)"
| "column_typed RealCol nn v = (case v of JFloat r \<Rightarrow> True | _ \<Rightarrow> False)"
| "column_typed BoolCol nn v = (case v of JBool b \<Rightarrow> True | _ \<Rightarrow> False)"

definition state_typed :: "dict \<Rightarrow> bool" where
  "state_typed d = list_all (\<lambda>(col, a, nn, def). column_typed a nn (dget_or d col def)) RUN_STATE_COLUMNS"

text \<open>What a state looks like when it is loaded: every column, the defaults filled in.\<close>

definition full_state :: "dict \<Rightarrow> string \<Rightarrow> dict" where
  "full_state d now = map (\<lambda>(col, a, nn, def). (col, dget_or d col def)) RUN_STATE_COLUMNS
     @ [(''updated_at'', JStr now)]"

fun as_stored :: "json \<Rightarrow> json" where
  "as_stored (JBool b) = JInt (if b then 1 else 0)"
| "as_stored v = v"

lemma stored_column:
  assumes "engine_ok en" "column_typed a nn (dget_or d col def)"
  shows "bind_value (save_value d (col, a, nn, def)) = Inr (as_stored (dget_or d col def))"
    and "in_column en a (as_stored (dget_or d col def)) = as_stored (dget_or d col def)"
proof -
  have "bind_value (if a = BoolCol \<and> v \<noteq> JNull then JInt (if truthy v then 1 else 0) else v) = Inr (as_stored v) \<and>
      in_column en a (as_stored v) = as_stored v" if "column_typed a nn v" for v
    using that assms(1) by (cases a; cases v) (simp_all add: in_column_def)
  from this [OF assms(2)] show "bind_value (save_value d (col, a, nn, def)) = Inr (as_stored (dget_or d col def))"
    and "in_column en a (as_stored (dget_or d col def)) = as_stored (dget_or d col def)"
    by (simp_all add: save_value_def Let_def)
qed

definition stored_row :: "dict \<Rightarrow> string \<Rightarrow> dict" where
  "stored_row d now = map (\<lambda>(col, a, nn, def). (col, as_stored (dget_or d col def))) RUN_STATE_COLUMNS
     @ [(''updated_at'', JStr now)]"

lemma save_binds:
  assumes "engine_ok en" "state_typed d"
  shows "py_map (\<lambda>c. bind_value (save_value d c)) RUN_STATE_COLUMNS =
    Inr (map (\<lambda>(col, a, nn, def). as_stored (dget_or d col def)) RUN_STATE_COLUMNS)"
proof (rule py_map_total)
  fix c assume c: "c \<in> set RUN_STATE_COLUMNS"
  obtain col a nn def where q: "c = (col, a, nn, def)" by (cases c)
  have "column_typed a nn (dget_or d col def)"
    using assms(2) c unfolding state_typed_def list_all_iff q by blast
  then show "bind_value (save_value d c) = Inr (case c of (col, a, nn, def) \<Rightarrow> as_stored (dget_or d col def))"
    using stored_column(1) [OF assms(1)] by (simp add: q)
qed

lemma save_stores:
  assumes "engine_ok en" "state_typed d"
  shows "map2 (\<lambda>(col, a, nn, def) v. (col, in_column en a v)) RUN_STATE_COLUMNS
      (map (\<lambda>(col, a, nn, def). as_stored (dget_or d col def)) RUN_STATE_COLUMNS) @ [(''updated_at'', JStr now)] =
    stored_row d now"
proof -
  have "map2 (\<lambda>(col, a, nn, def) v. (col, in_column en a v)) cs
      (map (\<lambda>(col, a, nn, def). as_stored (dget_or d col def)) cs) =
    map (\<lambda>(col, a, nn, def). (col, as_stored (dget_or d col def))) cs"
    if "list_all (\<lambda>(col, a, nn, def). column_typed a nn (dget_or d col def)) cs" for cs
    using that by (induction cs) (auto simp: stored_column(2) [OF assms(1)])
  with assms(2) show ?thesis by (simp add: stored_row_def state_typed_def)
qed

lemma as_stored_simps [simp]: "as_stored v = JNull \<longleftrightarrow> v = JNull" "as_stored v = JStr s \<longleftrightarrow> v = JStr s"
  by (cases v; simp)+

lemma loaded_row:
  assumes "state_typed d"
  shows "surface_bools (stored_row d now) = full_state d now"
proof -
  have "(col, if col \<in> set RUN_STATE_BOOL_COLUMNS \<and> as_stored (dget_or d col def) \<noteq> JNull
      then JBool (truthy (as_stored (dget_or d col def))) else as_stored (dget_or d col def)) =
      (col, dget_or d col def)" if c: "(col, a, nn, def) \<in> set RUN_STATE_COLUMNS" for col a nn def
  proof -
    have "column_typed a nn (dget_or d col def)"
      using assms c unfolding state_typed_def list_all_iff by blast
    moreover have "col \<in> set RUN_STATE_BOOL_COLUMNS \<longleftrightarrow> a = BoolCol"
      using c unfolding RUN_STATE_COLUMNS_def RUN_STATE_BOOL_COLUMNS_def by auto
    ultimately show ?thesis by (cases a; cases "dget_or d col def"; simp)
  qed
  then have "map ((\<lambda>(col, v). (col, if col \<in> set RUN_STATE_BOOL_COLUMNS \<and> v \<noteq> JNull then JBool (truthy v) else v)) \<circ>
      (\<lambda>(col, a, nn, def). (col, as_stored (dget_or d col def)))) RUN_STATE_COLUMNS =
    map (\<lambda>(col, a, nn, def). (col, dget_or d col def)) RUN_STATE_COLUMNS"
    by (intro map_cong) auto
  moreover have "''updated_at'' \<notin> set RUN_STATE_BOOL_COLUMNS" by (simp add: RUN_STATE_BOOL_COLUMNS_def)
  ultimately show ?thesis by (simp add: surface_bools_def stored_row_def full_state_def)
qed

lemma stored_row_get:
  assumes "(col, a, nn, def) \<in> set RUN_STATE_COLUMNS"
  shows "dget (stored_row d now) col = as_stored (dget_or d col def)"
proof -
  have get: "dget (map (\<lambda>(col, a, nn, def). (col, g col def)) cs @ rest) col = g col def"
    if "distinct (map fst cs)" "(col, a, nn, def) \<in> set cs"
    for cs :: "(string \<times> affinity \<times> bool \<times> json) list" and g rest
    using that by (induction cs) force+
  have "distinct (map fst RUN_STATE_COLUMNS)" by (simp add: RUN_STATE_COLUMNS_def)
  then show ?thesis
    unfolding stored_row_def by (intro get [of _ "\<lambda>col def. as_stored (dget_or d col def)"] assms)
qed

lemma run_row_stored:
  assumes "state_typed d"
    and "one_of RUN_STATE_STATUSES (dget_or d ''status'' (JStr ''running''))"
    and "one_of [''spec'', ''implementation''] (dget_or d ''phase'' (JStr ''spec''))"
    and "null_or (map rr_id (st_reqs st)) (dget_or d ''current_item_id'' JNull)"
  shows "run_row_ok st (stored_row d now)"
proof -
  have "nn \<longrightarrow> dget (stored_row d now) col \<noteq> JNull" if c: "(col, a, nn, def) \<in> set RUN_STATE_COLUMNS"
    for col a nn def
  proof -
    have "column_typed a nn (dget_or d col def)"
      using assms(1) c unfolding state_typed_def list_all_iff by blast
    then show ?thesis using stored_row_get [OF c] by (cases "dget_or d col def") auto
  qed
  moreover have "dget (stored_row d now) ''status'' = as_stored (dget_or d ''status'' (JStr ''running''))"
    "dget (stored_row d now) ''phase'' = as_stored (dget_or d ''phase'' (JStr ''spec''))"
    "dget (stored_row d now) ''current_item_id'' = as_stored (dget_or d ''current_item_id'' JNull)"
    by (rule stored_row_get [of _ TextCol True], simp add: RUN_STATE_COLUMNS_def,
        rule stored_row_get [of _ TextCol True], simp add: RUN_STATE_COLUMNS_def,
        rule stored_row_get [of _ TextCol False], simp add: RUN_STATE_COLUMNS_def)
  moreover have "one_of xs (as_stored v) = one_of xs v" for xs v
    by (cases v) (auto simp: one_of_def)
  ultimately show ?thesis
    using assms(2-4) by (auto simp: run_row_ok_def list_all_iff null_or_def)
qed

subsection \<open>An item whose proof cannot be inserted\<close>

definition null_commit_dict :: "string \<Rightarrow> dict \<Rightarrow> dict" where
  "null_commit_dict rid ev = [(''id'', JStr rid), (''status'', JStr ''proven''),
     (''evidence'', JObj ((''commit_sha'', JNull) # ev))]"

definition null_commit_item :: "string \<Rightarrow> dict \<Rightarrow> json" where
  "null_commit_item rid ev = JObj (null_commit_dict rid ev)"

lemma null_commit_fields:
  "dget (null_commit_dict rid ev) ''id'' = JStr rid"
  "dget_or (null_commit_dict rid ev) ''status'' x = JStr ''proven''"
  "dget (null_commit_dict rid ev) ''evidence'' = JObj ((''commit_sha'', JNull) # ev)"
  by (simp_all add: null_commit_dict_def)

lemma null_commit_args: "item_requirement_args (null_commit_dict rid ev) = requirement_defaults"
  by (simp add: item_requirement_args_def requirement_defaults_def null_commit_dict_def)

lemma null_commit_valid:
  assumes "validate_evidence_record (JObj ev)"
  shows "validate_evidence_record (JObj ((''commit_sha'', JNull) # ev))"
proof -
  have "validate_evidence_record (JObj ((''commit_sha'', JNull) # ev)) = validate_evidence_record (JObj ev)"
    by (rule validate_four_fields) (auto simp: REQUIRED_FIELDS_def)
  with assms show ?thesis by simp
qed

lemma null_commit_row:
  assumes "engine_ok en" "validate_evidence_record (JObj ev)" "text_provenance ev"
  shows "evidence_row_of en rid ((''commit_sha'', JNull) # ev) [] VERIFIER_ROLE = Inl IntegrityError"
proof -
  obtain a b h c where f: "dget ev ''test_file'' = JStr a" "dget ev ''test_name'' = JStr b"
    "dget ev ''output_hash'' = JStr h" "dget ev ''collected_at'' = JStr c"
    using validated_fields [OF assms(2)] unfolding REQUIRED_FIELDS_def
    by (metis list.set_intros(1) list.set_intros(2))
  obtain q where "dget_or ev ''actor_agent'' (JStr VERIFIER_ROLE) = JStr q"
    using assms(3) by (auto simp: text_provenance_def dget_or_def elim!: is_str.elims split: option.splits)
  with f show ?thesis
    by (simp add: evidence_row_of_def py_or_def Let_def assms(1) not_null_def)
qed

subsection \<open>Stores to run\<close>

lemma sample_evidence_row:
  "\<exists>row. evidence_row_of sample_engine ''A'' sample_proof c a = Inr row"
  by (rule evidence_row_ok) (simp_all add: sample_proof_ok)

lemma new_store_simps [simp]: "current_status new_store rid = None" "get_evidence new_store rid = []"
  by (simp_all add: new_store_def current_status_def get_evidence_def evidence_of_def)

lemma proven_store:
  obtains st where "store_evidence sample_engine ''t'' (JStr ''A'') (JObj sample_proof) [] VERIFIER_ROLE True new_store =
      (st, Inr ())" "reachable_store sample_engine [] st" "st_cov st \<noteq> []" "current_status st ''A'' = Some ''proven''"
proof -
  obtain st1 where e: "store_evidence_row sample_engine ''A'' (JObj sample_proof) [] VERIFIER_ROLE True new_store = (st1, Inr ())"
    using store_evidence_row_result(7) [OF _ sample_proof_ok(1) _ sample_proof_ok(2)]
    by (metis prod.collapse sample_engine_ok)
  obtain h where h: "dget_or sample_proof ''output_hash'' (JStr []) = JStr h" "output_hash_match h"
    using sample_proof_ok(1)
    by (auto simp: sample_proof_def collect_def validate_evidence_record_def split: if_splits)
  have s: "store_evidence sample_engine ''t'' (JStr ''A'') (JObj sample_proof) [] VERIFIER_ROLE True new_store =
      (flip_row ''A'' ''t'' st1, Inr ())"
    using h e by (simp add: store_evidence_def sample_proof_ok py_or_def then_do_def STORE_TRANSITIONS_def VERIFIER_ROLE_def)
  moreover have "reachable_store sample_engine [] (flip_row ''A'' ''t'' st1)"
    using step [OF fresh store_step.evidence [OF s]] by simp
  moreover have "st_cov (flip_row ''A'' ''t'' st1) \<noteq> []"
    using current_status_flip [of "''A''" "''t''" st1] by (auto simp: current_status_def)
  ultimately show thesis using current_status_flip by (rule that)
qed

definition nfr_item :: dict where
  "nfr_item = [(''id'', JStr ''A''), (''status'', JStr ''proven''), (''type'', JStr ''NFR''),
     (''priority'', JInt 5), (''evidence'', JObj sample_proof)]"

lemma nfr_stored:
  obtains st q where "upsert_coverage_item sample_engine ''t'' (JObj nfr_item) new_store = (st, Inr ())"
    "q \<in> set (st_reqs st)" "rr_id q = ''A''"
proof -
  obtain st1 where u: "upsert_requirement sample_engine ''A'' (item_requirement_args nfr_item) new_store = (st1, Inr ())"
    by (simp add: upsert_requirement_def requirement_row_of_def item_requirement_args_def nfr_item_def one_of_def
        REQUIREMENT_TYPES_def sample_engine_def Let_def not_null_def null_or_def)
  obtain st2 where c: "coverage_insert sample_engine ''A'' ''proven'' nfr_item ''t'' st1 = (st2, Inr ())"
    by (simp add: coverage_insert_def coverage_row_of_def nfr_item_def null_or_def sample_engine_def)
  obtain st3 where e: "store_evidence_row sample_engine ''A'' (JObj sample_proof) [] VERIFIER_ROLE True st2 = (st3, Inr ())"
    using store_evidence_row_result(7) [OF _ sample_proof_ok(1) _ sample_proof_ok(2)]
    by (metis prod.collapse sample_engine_ok)
  have "upsert_coverage_item sample_engine ''t'' (JObj nfr_item) new_store =
      write_item sample_engine ''t'' ''A'' ''proven'' nfr_item new_store"
    by (simp add: upsert_coverage_item_def nfr_item_def COVERAGE_STATUSES_def sample_proof_ok)
  also have "\<dots> = (st3, Inr ())"
    using u c e by (simp add: write_item_def then_do_def) (simp add: nfr_item_def)
  finally have "upsert_coverage_item sample_engine ''t'' (JObj nfr_item) new_store = (st3, Inr ())" .
  moreover have "''A'' \<in> requirement_ids st3"
    using store_evidence_row_result(4) [OF _ sample_proof_ok(1) e] by simp
  then obtain q where "q \<in> set (st_reqs st3)" "rr_id q = ''A''" by (auto simp: requirement_ids_def)
  ultimately show thesis by (rule that)
qed

subsection \<open>Properties\<close>

text \<open>
  C21. Every proven item has its proof, unless an upsert of it raised: in every store that the
  operations reach, whatever their arguments and whichever of them fail, the requirement of every
  coverage row exists, and a row with status \<open>proven\<close> has an evidence row of its requirement whose
  four fields validate, or an earlier upsert of the item raised, which may have left the row without
  its proof. SQLite's conversions are a parameter that leaves nulls and the values of a column's own kind
  as they are.
\<close>

theorem store_proven_has_proof:
  assumes "reachable_store en raised st" "engine_ok en"
  shows "\<forall>c \<in> set (st_cov st). cv_req c \<in> requirement_ids st \<and>
    (cv_status c = ''proven'' \<longrightarrow>
      (\<exists>e \<in> set (st_ev st). er_req e = cv_req c \<and> proof_row e) \<or> cv_req c \<in> set raised)"
  using reachable_store_inv [OF assms] by (auto simp: store_inv_def list_all_iff backed_def)

theorem store_proven_has_proof_witness:
  "\<exists>st c e. reachable_store sample_engine [] st \<and> c \<in> set (st_cov st) \<and> cv_req c \<in> requirement_ids st \<and>
    cv_status c = ''proven'' \<and> e \<in> set (st_ev st) \<and> er_req e = cv_req c \<and> proof_row e"
proof -
  obtain st where r: "reachable_store sample_engine [] st" and "current_status st ''A'' = Some ''proven''"
    by (rule proven_store)
  then obtain c where c: "c \<in> set (st_cov st)" "cv_status c = ''proven''"
    by (auto simp: current_status_def find_Some_iff) (use nth_mem in blast)
  with store_proven_has_proof [OF r] obtain e where "e \<in> set (st_ev st)" "er_req e = cv_req c" "proof_row e"
    "cv_req c \<in> requirement_ids st" by auto
  with r c show ?thesis by blast
qed

text \<open>
  C22. Storing evidence is all or nothing. When it succeeds, the item was untracked or unproven, the
  record validates, the item is proven, the evidence of the item has one more row, the last, that
  holds the four fields of the record unchanged, and no other item has changed its status.
  When it fails, on whatever check or constraint, no coverage row and no evidence row has changed.
\<close>

theorem store_evidence_all_or_nothing:
  assumes "engine_ok en"
    and "store_evidence en now (JStr rid) record commit_sha actor_agent True st = (st', r)"
  shows "case r of
      Inl e \<Rightarrow> st_cov st' = st_cov st \<and> st_ev st' = st_ev st
    | Inr _ \<Rightarrow> (\<exists>d row. record = JObj d \<and> validate_evidence_record (JObj d) \<and>
        current_status st rid \<in> {None, Some ''unproven''} \<and> current_status st' rid = Some ''proven'' \<and>
        get_evidence st' rid = get_evidence st rid @ [row] \<and>
        map (dget row) REQUIRED_FIELDS = map (dget d) REQUIRED_FIELDS \<and>
        (\<forall>other. other \<noteq> rid \<longrightarrow> current_status st' other = current_status st other))"
  using assms(2)
proof (cases rule: store_evidence_cases)
  case (stored rid' d st1 r1)
  note e = store_evidence_row_result [OF assms(1) stored(5,7)]
  show ?thesis
  proof (cases r1)
    case (Inl err)
    with e(2) e(5) [OF Inl] stored(8,9) show ?thesis by simp
  next
    case (Inr u)
    then have "r1 = Inr ()" by simp
    with stored(8,9) have st': "st' = flip_row rid now st1" and r: "r = Inr ()" using stored(1) by simp_all
    from e(6) [OF \<open>r1 = Inr ()\<close>] obtain row where row: "st_ev st1 = st_ev st @ [row]"
      "evidence_row_of en rid d commit_sha VERIFIER_ROLE = Inr row" using stored(1) by auto
    have "get_evidence st' rid = get_evidence st rid @ [evidence_dict row]"
      using row(1) evidence_row_Inr(1) [OF assms(1) stored(5) row(2)]
      by (simp add: st' get_evidence_def evidence_of_def flip_row_def)
    moreover have "current_status st' other = current_status st other" if "other \<noteq> rid" for other
      using current_status_flip_other [OF that, of now st1] e(2) by (simp add: st' current_status_def)
    ultimately show ?thesis
      using stored(1,2,5,6) store_evidence_row_exact [OF assms(1) stored(5) row(2)]
      by (auto simp: r st' current_status_flip)
  qed
qed simp

theorem store_evidence_all_or_nothing_witness:
  "\<exists>st' row. get_evidence st' ''A'' = [row] \<and> current_status st' ''A'' = Some ''proven'' \<and>
    map (dget row) REQUIRED_FIELDS = map (dget sample_proof) REQUIRED_FIELDS"
proof -
  obtain st' where "store_evidence sample_engine ''t'' (JStr ''A'') (JObj sample_proof) [] VERIFIER_ROLE True new_store =
      (st', Inr ())" by (rule proven_store)
  from store_evidence_all_or_nothing [OF _ this] obtain d row where "JObj sample_proof = JObj d"
    "current_status st' ''A'' = Some ''proven''" "get_evidence st' ''A'' = get_evidence new_store ''A'' @ [row]"
    "map (dget row) REQUIRED_FIELDS = map (dget d) REQUIRED_FIELDS"
    by auto
  then show ?thesis by (intro exI [of _ st'] exI [of _ row]) simp
qed

text \<open>
  The store and the coverage helpers count the same items. In every reachable store the ids
  that \<open>query_uncovered\<close> returns are those of the in-scope coverage rows that are not proven, so
  no tracked item is lost in the join, and \<open>coverage.has_unproven_in_scope\<close> on the exported
  items answers whether there is one.
\<close>

theorem query_uncovered_exact:
  assumes "reachable_store en raised st" "engine_ok en"
  shows "(\<lambda>item. dget item ''id'') ` set (query_uncovered en st) =
      {JStr (cv_req c) | c. c \<in> set (st_cov st) \<and> cv_in_scope c \<and> cv_status c \<noteq> ''proven''} \<and>
    has_unproven_in_scope (JObj [(''items'', JList (map JObj (get_coverage en st)))]) =
      Inr (query_uncovered en st \<noteq> [])"
  using query_uncovered_ids [OF reachable_store_inv [OF assms]] query_uncovered_coverage by blast

theorem query_uncovered_exact_witness:
  "\<exists>st. reachable_store sample_engine [] st \<and> st_cov st \<noteq> [] \<and>
    has_unproven_in_scope (JObj [(''items'', JList (map JObj (get_coverage sample_engine st)))]) =
      Inr (query_uncovered sample_engine st \<noteq> [])"
proof -
  obtain st where r: "reachable_store sample_engine [] st" and "st_cov st \<noteq> []"
    by (rule proven_store)
  with query_uncovered_exact [OF r] show ?thesis by auto
qed

text \<open>
  The run state round-trips: a state whose values are of the kinds of their columns, with a legal
  status and phase and a current item that exists, is saved over whatever was there, and loading
  its session returns every column of it, with the defaults filled in and the boolean columns
  as booleans again.
\<close>

theorem run_state_roundtrip:
  assumes "engine_ok en" "state_typed d" "dget d ''session_id'' = JStr sid" "sid \<noteq> []"
    and "one_of RUN_STATE_STATUSES (dget_or d ''status'' (JStr ''running''))"
    and "one_of [''spec'', ''implementation''] (dget_or d ''phase'' (JStr ''spec''))"
    and "null_or (map rr_id (st_reqs st)) (dget_or d ''current_item_id'' JNull)"
  shows "\<exists>st'. save_run_state en now (JObj d) st = (st', Inr ()) \<and>
    load_run_state st' (Some sid) = Inr (Some (full_state d now))"
proof -
  let ?row = "stored_row d now"
  let ?st = "st\<lparr>st_runs := upsert (\<lambda>r. dget r ''session_id'') ?row (\<lambda>_. ?row) (st_runs st)\<rparr>"
  have "dget ?row ''session_id'' = as_stored (dget_or d ''session_id'' JNull)"
    by (rule stored_row_get [of _ TextCol False]) (simp add: RUN_STATE_COLUMNS_def)
  then have k: "dget ?row ''session_id'' = JStr sid" using assms(3) by (simp add: dget_def)
  have "save_run_state en now (JObj d) st = (?st, Inr ())"
    using assms(3-5) run_row_stored [OF assms(2,5-7)]
    by (simp add: save_run_state_def save_binds [OF assms(1,2)] save_stores [OF assms(1,2)] Let_def)
  moreover have "load_run_state ?st (Some sid) = Inr (Some (full_state d now))"
    using find_upsert [of "\<lambda>r. dget r ''session_id''" ?row "\<lambda>_. ?row" "st_runs st"] k
    by (simp add: load_run_state_def loaded_row [OF assms(2)] split: option.splits)
  ultimately show ?thesis by blast
qed

theorem run_state_roundtrip_witness:
  "\<exists>st'. save_run_state sample_engine ''t'' (JObj [(''session_id'', JStr ''s1''), (''token_cost_usd'', JFloat ''0.25''),
      (''is_resume'', JBool True)]) new_store = (st', Inr ()) \<and>
    load_run_state st' (Some ''s1'') = Inr (Some (full_state [(''session_id'', JStr ''s1''),
      (''token_cost_usd'', JFloat ''0.25''), (''is_resume'', JBool True)] ''t''))"
  by (rule run_state_roundtrip)
    (simp_all add: state_typed_def RUN_STATE_COLUMNS_def one_of_def null_or_def RUN_STATE_STATUSES_def)

text \<open>
  A proven item without its proof: when the evidence object of a proven item carries a null
  \<open>commit_sha\<close>, the upsert commits the coverage row and only then fails to insert the proof. The
  caller sees an integrity error, and the store holds a proven item and no evidence of it.
\<close>

theorem proven_without_proof:
  assumes "engine_ok en" "validate_evidence_record (JObj ev)" "text_provenance ev" "rid \<noteq> []"
  shows "\<exists>st'. upsert_coverage_item en now (null_commit_item rid ev) new_store = (st', Inl IntegrityError) \<and>
    current_status st' rid = Some ''proven'' \<and> get_evidence st' rid = []"
proof -
  obtain st1 where u1: "upsert_requirement en rid requirement_defaults new_store = (st1, Inr ())"
    using upsert_requirement_defaults [OF assms(1)] by (metis prod.collapse)
  note u = u1 upsert_requirement_result(1,2) [OF u1, unfolded new_store_def store.select_convs]
  let ?row = "\<lparr>cv_req = rid, cv_status = ''proven'', cv_subtype = JNull, cv_in_scope = True,
      cv_slice = JNull, cv_updated = now\<rparr>"
  let ?st2 = "st1\<lparr>st_cov := [?row]\<rparr>"
  have c: "coverage_insert en rid ''proven'' (null_commit_dict rid ev) now st1 = (?st2, Inr ())"
    using assms(1) u(2) by (simp add: coverage_insert_def coverage_row_of_def null_commit_dict_def null_or_def upsert_def)
  obtain st3 where s3: "upsert_requirement en rid requirement_defaults ?st2 = (st3, Inr ())"
    using upsert_requirement_defaults [OF assms(1)] by (metis prod.collapse)
  have u3: "upsert_requirement en rid requirement_defaults ?st2 = (st3, Inr ())"
    "st_cov st3 = [?row]" "st_ev st3 = []"
    using s3 upsert_requirement_result(1,2) [OF s3] u(3) by simp_all
  have "store_evidence_row en rid (JObj ((''commit_sha'', JNull) # ev)) [] VERIFIER_ROLE True ?st2 =
      (st3, Inl IntegrityError)"
    by (simp add: store_evidence_row_def then_do_def u3(1) null_commit_row [OF assms(1-3)])
  then have "upsert_coverage_item en now (null_commit_item rid ev) new_store = (st3, Inl IntegrityError)"
    using u(1) c assms(4) null_commit_valid [OF assms(2)]
    by (simp add: upsert_coverage_item_def null_commit_item_def COVERAGE_STATUSES_def write_item_def
        then_do_def null_commit_args null_commit_fields)
  moreover have "current_status st3 rid = Some ''proven''" "get_evidence st3 rid = []"
    using u3 by (simp_all add: current_status_def get_evidence_def evidence_of_def)
  ultimately show ?thesis by blast
qed

theorem proven_without_proof_witness:
  "\<exists>st'. upsert_coverage_item sample_engine ''t'' (null_commit_item ''A'' sample_proof) new_store = (st', Inl IntegrityError) \<and>
    current_status st' ''A'' = Some ''proven'' \<and> get_evidence st' ''A'' = []"
  by (rule proven_without_proof) (simp_all add: sample_proof_ok)

text \<open>
  Proving an item forgets what it was. When an item with an embedded proof is upserted, the
  requirement row that the upsert writes from the item is written again with the defaults
  when the proof is stored: whatever type, priority, statement or project the item has, the
  store ends with a functional requirement of priority 1 and an empty statement.
\<close>

theorem proof_resets_requirement:
  assumes "engine_ok en" "upsert_coverage_item en now (JObj d) st = (st', Inr ())"
    and "dget d ''status'' = JStr ''proven''" "dget d ''id'' = JStr rid"
  shows "\<forall>q \<in> set (st_reqs st'). rr_id q = rid \<longrightarrow> default_requirement q"
proof -
  have s: "dget_or d ''status'' (JStr ''unproven'') = JStr ''proven''"
    using assms(3) by (auto simp: dget_def dget_or_def split: option.splits)
  obtain ev where ev: "dget d ''evidence'' = JObj ev" and w: "write_item en now rid ''proven'' d st = (st', Inr ())"
    using assms(2,4) s validate_needs_fields
    by (cases "dget d ''evidence''") (auto simp: upsert_coverage_item_def COVERAGE_STATUSES_def split: if_splits)
  obtain st2 where "store_evidence_row en rid (JObj ev) [] VERIFIER_ROLE True st2 = (st', Inr ())"
    using w ev by (auto simp: write_item_def then_do_def split: prod.splits sum.splits)
  with store_evidence_row_resets [OF assms(1)] show ?thesis by blast
qed

theorem proof_resets_requirement_witness:
  "\<exists>st' q. upsert_coverage_item sample_engine ''t'' (JObj nfr_item) new_store = (st', Inr ()) \<and>
    q \<in> set (st_reqs st') \<and> rr_id q = ''A'' \<and> default_requirement q"
proof -
  obtain st' q where u: "upsert_coverage_item sample_engine ''t'' (JObj nfr_item) new_store = (st', Inr ())"
    and "q \<in> set (st_reqs st')" "rr_id q = ''A''" by (rule nfr_stored)
  moreover have "dget nfr_item ''status'' = JStr ''proven''" "dget nfr_item ''id'' = JStr ''A''"
    by (simp_all add: nfr_item_def)
  ultimately show ?thesis using proof_resets_requirement [OF _ u] by (meson sample_engine_ok)
qed

end
