(* ===== verification/Webhook.thy ===== *)
theory Webhook
  imports Sha256 Json_Codec "HOL-Library.Sublist"
begin

section \<open>The webhook receiver\<close>

text \<open>
  \<open>plane-integration/webhook_handler.py\<close>: the signature check, the memory of deliveries, the
  routing of an event and the queue it is appended to. The body of a post is its text (the bytes
  are its UTF-8 encoding); the clock and the wording of an exception are arguments. The queue is
  the list of its jobs, one per line of the file, and writing a file succeeds. \<open>do_POST\<close> is one handler
  from its start to its end; \<open>Webhook_Threads\<close> interleaves the handlers.
\<close>

subsection \<open>State\<close>

definition SEEN_CAP :: nat where
  "SEEN_CAP = 5000"

definition DISPATCH_ON_STATE :: "(string \<times> string) list" where
  "DISPATCH_ON_STATE = [(''Agent-Triaged'', ''initializer''), (''Plan-Approved'', ''implementer''),
     (''Agent-Executing'', ''verifier''), (''In-Verification'', ''verifier'')]"

definition NO_DISPATCH_ON_CREATE :: "string list" where
  "NO_DISPATCH_ON_CREATE = [''Agent-Executing'', ''In-Verification'']"

record webhook =
  wh_seen :: keyed
  wh_dispatched :: keyed
  wh_queue :: "dict list"
  wh_seen_file :: "json option"
  wh_dispatched_file :: "json option"

record receiver =
  rc_secret :: string
  rc_unsigned :: bool
  rc_wording :: "py_exc \<Rightarrow> string"

record post =
  po_signature :: string
  po_delivery :: string
  po_event :: string
  po_body :: string
  po_time :: string
  po_stamp :: string

text \<open>What a start finds in the two files.\<close>

definition seen_entry :: "json \<Rightarrow> json \<times> json" where
  "seen_entry x = (case x of JList [a, b] \<Rightarrow> (a, b) | _ \<Rightarrow> (x, JFloat ''0.0''))"

definition load_seen :: "json option \<Rightarrow> keyed py" where
  "load_seen file = (case file of None \<Rightarrow> Inr []
     | Some v \<Rightarrow> py_bind (py_iter v) (\<lambda>xs.
         if list_ex (\<lambda>x. \<not> hashable (fst (seen_entry x))) xs then Inl TypeError
         else Inr (foldl (\<lambda>d x. pset d (fst (seen_entry x)) (snd (seen_entry x))) [] xs)))"

definition json_key :: "json \<Rightarrow> string" where
  "json_key k = (case k of JStr s \<Rightarrow> s | v \<Rightarrow> dumps True v)"

definition dispatched_json :: "keyed \<Rightarrow> json" where
  "dispatched_json d = JObj (map (\<lambda>(k, v). (json_key k, v)) d)"

definition load_dispatched :: "json option \<Rightarrow> keyed py" where
  "load_dispatched file = (case file of None \<Rightarrow> Inr []
     | Some (JObj d) \<Rightarrow> Inr (map (\<lambda>(k, v). (JStr k, v)) d) | Some _ \<Rightarrow> Inl AttributeError)"

definition evict :: "keyed \<Rightarrow> keyed" where
  "evict l = drop (length l - SEEN_CAP) l"

definition seen_json :: "keyed \<Rightarrow> json" where
  "seen_json l = JList (map (\<lambda>(k, v). JList [k, v]) l)"

definition save_seen :: "webhook \<Rightarrow> webhook" where
  "save_seen wh = (let l = evict (wh_seen wh) in wh\<lparr>wh_seen := l, wh_seen_file := Some (seen_json l)\<rparr>)"

subsection \<open>Handling a post\<close>

definition bare_signature :: "string \<Rightarrow> string" where
  "bare_signature sig = (if startswith sig ''sha256='' then drop 7 sig else sig)"

definition verify :: "receiver \<Rightarrow> string \<Rightarrow> string \<Rightarrow> bool py" where
  "verify rc sig raw =
     (if rc_secret rc = [] then Inr (rc_unsigned rc)
      else if sig = [] then Inr False
      else if \<not> isascii (bare_signature sig) then Inl TypeError
      else Inr (hmac_sha256 (utf8 (rc_secret rc)) (utf8 raw) = bare_signature sig))"

definition enqueue :: "string \<Rightarrow> dict \<Rightarrow> webhook \<Rightarrow> webhook" where
  "enqueue stamp job wh = wh\<lparr>wh_queue := wh_queue wh @ [dset job ''enqueued_at'' (JStr stamp)]\<rparr>"

definition is_state_transition :: "dict \<Rightarrow> bool option py" where
  "is_state_transition payload =
     py_bind (obj_get (py_or (dget payload ''activity'') (JObj [])) ''field'') (\<lambda>field.
       Inr (if field \<noteq> JNull then Some (field = JStr ''state'') else None))"

definition state_name_of :: "dict \<Rightarrow> json" where
  "state_name_of data = (case dget data ''state'' of JObj sv \<Rightarrow> dget sv ''name'' | sv \<Rightarrow> sv)"

definition role_for :: "json \<Rightarrow> string option py" where
  "role_for s = (if \<not> hashable s then Inl TypeError
     else Inr (case s of JStr n \<Rightarrow> map_of DISPATCH_ON_STATE n | _ \<Rightarrow> None))"

definition dispatch_job :: "string \<Rightarrow> json \<Rightarrow> json \<Rightarrow> json \<Rightarrow> string \<Rightarrow> json \<Rightarrow> dict" where
  "dispatch_job role issue_id state action delivery nam =
     [(''kind'', JStr ''agent_dispatch''), (''agent_role'', JStr role), (''issue_id'', issue_id),
      (''state'', state), (''action'', action), (''delivery'', JStr delivery), (''name'', nam)]"

definition dispatch_once :: "string \<Rightarrow> string \<Rightarrow> json \<Rightarrow> json \<Rightarrow> json \<Rightarrow> string \<Rightarrow> json \<Rightarrow> webhook \<Rightarrow> webhook \<times> unit py" where
  "dispatch_once stamp role issue_id state action delivery nam wh =
     (if \<not> hashable issue_id then (wh, Inl TypeError)
      else if py_eq (pget (wh_dispatched wh) issue_id) state then (wh, Inr ())
      else let d = pset (wh_dispatched wh) issue_id state in
        (enqueue stamp (dispatch_job role issue_id state action delivery nam)
          (wh\<lparr>wh_dispatched := d, wh_dispatched_file := Some (dispatched_json d)\<rparr>), Inr ()))"

definition route_issue :: "string \<Rightarrow> dict \<Rightarrow> json \<Rightarrow> dict \<Rightarrow> string \<Rightarrow> webhook \<Rightarrow> webhook \<times> unit py" where
  "route_issue stamp payload action data delivery wh =
     (let issue_id = dget data ''id''; state = state_name_of data in
      case role_for state of
        Inl e \<Rightarrow> (wh, Inl e)
      | Inr None \<Rightarrow> (wh, Inr ())
      | Inr (Some role) \<Rightarrow>
          if \<not> truthy issue_id then (wh, Inr ())
          else (case is_state_transition payload of
              Inl e \<Rightarrow> (wh, Inl e)
            | Inr transition \<Rightarrow>
                if transition = Some False then (wh, Inr ())
                else if action = JStr ''created'' \<and> state \<in> JStr ` set NO_DISPATCH_ON_CREATE then (wh, Inr ())
                else dispatch_once stamp role issue_id state action delivery (dget data ''name'') wh))"

definition route :: "string \<Rightarrow> string \<Rightarrow> json \<Rightarrow> string \<Rightarrow> webhook \<Rightarrow> webhook \<times> unit py" where
  "route stamp event payload delivery wh =
     (case payload of
        JObj p \<Rightarrow>
          (let action = dget p ''action''; data = py_or (dget_or p ''data'' (JObj [])) (JObj []) in
           if event = ''issue'' then
             (case data of JObj d \<Rightarrow> route_issue stamp p action d delivery wh | _ \<Rightarrow> (wh, Inl AttributeError))
           else if event = ''issue_comment'' then
             (case data of
                JObj d \<Rightarrow> (enqueue stamp [(''kind'', JStr ''comment''), (''issue_id'', dget d ''issue''),
                  (''action'', action), (''delivery'', JStr delivery)] wh, Inr ())
              | _ \<Rightarrow> (wh, Inl AttributeError))
           else (enqueue stamp [(''kind'', JStr ''event''), (''event'', JStr event), (''action'', action),
                  (''delivery'', JStr delivery)] wh, Inr ()))
      | _ \<Rightarrow> (wh, Inl AttributeError))"

definition mark_delivery :: "string \<Rightarrow> string \<Rightarrow> webhook \<Rightarrow> webhook" where
  "mark_delivery now delivery wh = (if delivery = [] then wh
     else save_seen (wh\<lparr>wh_seen := pset (wh_seen wh) (JStr delivery) (JFloat now)\<rparr>))"

definition is_seen :: "string \<Rightarrow> webhook \<Rightarrow> bool" where
  "is_seen delivery wh = (delivery \<noteq> [] \<and> list_ex (\<lambda>p. py_eq (JStr delivery) (fst p)) (wh_seen wh))"

type_synonym reply = "nat \<times> string"

definition route_post :: "receiver \<Rightarrow> post \<Rightarrow> json \<Rightarrow> webhook \<Rightarrow> webhook" where
  "route_post rc po payload wh =
     (case route (po_stamp po) (po_event po) payload (po_delivery po) wh of
        (wh', Inr _) \<Rightarrow> wh'
      | (wh', Inl e) \<Rightarrow> enqueue (po_stamp po) [(''kind'', JStr ''route_error''),
          (''error'', JStr (take 200 (rc_wording rc e))), (''delivery'', JStr (po_delivery po))] wh')"

definition do_POST :: "receiver \<Rightarrow> post \<Rightarrow> webhook \<Rightarrow> webhook \<times> reply py" where
  "do_POST rc po wh =
     (case verify rc (po_signature po) (po_body po) of
        Inl e \<Rightarrow> (wh, Inl e)
      | Inr False \<Rightarrow> (wh, Inr (403, ''invalid signature''))
      | Inr True \<Rightarrow>
          if is_seen (po_delivery po) wh then (wh, Inr (200, ''duplicate ignored''))
          else let wh = mark_delivery (po_time po) (po_delivery po) wh in
            (case loads (if po_body po = [] then ''{}'' else po_body po) of
               None \<Rightarrow> (wh, Inr (400, ''bad json''))
             | Some payload \<Rightarrow> (route_post rc po payload wh, Inr (200, ''accepted''))))"

definition do_GET :: "string \<Rightarrow> reply" where
  "do_GET path = (if path = ''/health'' then (200, ''ok'') else (404, ''not found''))"

text \<open>A run of the receiver, from empty files.\<close>

definition fresh_webhook :: webhook where
  "fresh_webhook = \<lparr>wh_seen = [], wh_dispatched = [], wh_queue = [], wh_seen_file = None, wh_dispatched_file = None\<rparr>"

definition serve :: "receiver \<Rightarrow> post list \<Rightarrow> webhook \<Rightarrow> webhook" where
  "serve rc pos wh = foldl (\<lambda>wh po. fst (do_POST rc po wh)) wh pos"

definition queue_text :: "dict list \<Rightarrow> string" where
  "queue_text jobs = concat (map (\<lambda>j. dumps_spaced True (JObj j) @ [CHR 0x0A]) jobs)"

end
