(* ===== verification/Plane_States.thy ===== *)
theory Plane_States
  imports Prelude
begin

section \<open>The board's state machine and its actors\<close>

text \<open>
  The pure logic of \<open>plane-integration/plane_client.py\<close>: the states of a work item, the legal
  edges between them, which role may set which state, and the role secrets. An absent current
  state is Python's \<open>None\<close>; the environment is a map from names to values.
\<close>

definition FORWARD :: "(string \<times> string) list" where
  "FORWARD =
     [(''Backlog'', ''Agent-Triaged''), (''Agent-Triaged'', ''Spec-Compiling''),
      (''Spec-Compiling'', ''Spec-Verified''), (''Spec-Verified'', ''Plan-Approved''),
      (''Plan-Approved'', ''Agent-Executing''), (''Agent-Executing'', ''In-Verification''),
      (''In-Verification'', ''Human-Review''), (''Human-Review'', ''Done'')]"

definition UNIVERSAL :: "string list" where
  "UNIVERSAL = [''Blocked'', ''Failed'', ''HANDOFF'']"

definition TERMINAL :: "string list" where
  "TERMINAL = [''Done'', ''HANDOFF'', ''Failed'']"

definition RECOVERY :: "(string \<times> string) list" where
  "RECOVERY = [(''Blocked'', ''Agent-Executing''), (''Failed'', ''Agent-Executing'')]"

definition EXTRA_EDGES :: "(string \<times> string) list" where
  "EXTRA_EDGES = [(''In-Verification'', ''Done'')]"

definition TRANSITION_AUTH :: "(string \<times> string list) list" where
  "TRANSITION_AUTH =
     [(''Agent-Triaged'', [''initializer'', ''human'']), (''Spec-Compiling'', [''initializer'']),
      (''Spec-Verified'', [''initializer'']), (''Plan-Approved'', [''human'']),
      (''Agent-Executing'', [''implementer'']), (''In-Verification'', [''verifier'']),
      (''Human-Review'', [''verifier'', ''human'']), (''Done'', [''verifier'']),
      (''HANDOFF'', [''initializer'', ''implementer'', ''verifier'']),
      (''Blocked'', [''initializer'', ''implementer'', ''verifier'']), (''Failed'', [''verifier''])]"

definition PRIVILEGED :: "string list" where
  "PRIVILEGED = [''verifier'', ''human'']"

definition ROLE_SECRET_ENV :: "(string \<times> string) list" where
  "ROLE_SECRET_ENV = [(''verifier'', ''ASCP_VERIFIER_SECRET''), (''human'', ''ASCP_HUMAN_SECRET'')]"

lemmas board_tables = FORWARD_def UNIVERSAL_def TERMINAL_def RECOVERY_def EXTRA_EDGES_def
  TRANSITION_AUTH_def PRIVILEGED_def ROLE_SECRET_ENV_def

definition legal_edge :: "string option \<Rightarrow> string \<Rightarrow> bool" where
  "legal_edge cur to =
     (case cur of
        None \<Rightarrow> to \<in> set UNIVERSAL
      | Some c \<Rightarrow>
          if c = to then False
          else if to \<in> set UNIVERSAL then c \<notin> set TERMINAL
          else if c \<in> set TERMINAL then False
          else if map_of RECOVERY c = Some to then True
          else if (c, to) \<in> set EXTRA_EDGES then True
          else map_of FORWARD c = Some to)"

type_synonym environment = "string \<Rightarrow> string option"

datatype board_error = PermissionError | BoardError | StateMissing | BoardExc py_exc | SystemExit int

definition has_secret :: "environment \<Rightarrow> string \<Rightarrow> bool" where
  "has_secret env role = (case map_of ROLE_SECRET_ENV role of
     None \<Rightarrow> False | Some name \<Rightarrow> (case env name of None \<Rightarrow> False | Some v \<Rightarrow> v \<noteq> []))"

definition check_actor :: "environment \<Rightarrow> string \<Rightarrow> string \<Rightarrow> board_error + unit" where
  "check_actor env role to_state =
     (let allowed = (case map_of TRANSITION_AUTH to_state of None \<Rightarrow> [] | Some rs \<Rightarrow> rs) in
      if role \<notin> set allowed then Inl PermissionError
      else if role \<in> set PRIVILEGED \<and> \<not> has_secret env role then Inl PermissionError
      else Inr ())"

text \<open>A move that \<open>transition\<close> permits: who moved the item, and where to.\<close>

definition permitted :: "environment \<Rightarrow> string \<Rightarrow> string \<Rightarrow> string \<Rightarrow> bool" where
  "permitted env role frm to = (check_actor env role to = Inr () \<and> legal_edge (Some frm) to)"

inductive board_run :: "environment \<Rightarrow> string \<Rightarrow> (string \<times> string) list \<Rightarrow> string \<Rightarrow> bool" for env where
  nothing: "board_run env s [] s"
| move: "board_run env s ms t \<Longrightarrow> permitted env role t u \<Longrightarrow> board_run env s (ms @ [(role, u)]) u"

inductive_cases board_run_snoc: "board_run env s (ms @ [m]) t"

lemma check_actor_ok:
  "check_actor env role to = Inr () \<longleftrightarrow>
     (\<exists>rs. map_of TRANSITION_AUTH to = Some rs \<and> role \<in> set rs) \<and>
     (role \<in> set PRIVILEGED \<longrightarrow> has_secret env role)"
  by (cases "map_of TRANSITION_AUTH to") (auto simp: check_actor_def Let_def)

lemma terminal_stuck: "t \<in> set TERMINAL \<Longrightarrow> \<not> legal_edge (Some t) u"
  by (auto simp: legal_edge_def board_tables)

lemma into_Done: "legal_edge (Some s) ''Done'' \<longleftrightarrow> s = ''In-Verification'' \<or> s = ''Human-Review''"
  by (auto simp: legal_edge_def board_tables)

lemma into_Human_Review: "legal_edge (Some s) ''Human-Review'' \<longleftrightarrow> s = ''In-Verification''"
  by (auto simp: legal_edge_def board_tables)

lemma into_In_Verification: "legal_edge (Some s) ''In-Verification'' \<longleftrightarrow> s = ''Agent-Executing''"
  by (auto simp: legal_edge_def board_tables)

lemma verifier_states:
  assumes "check_actor env role to = Inr ()" "to = ''Done'' \<or> to = ''In-Verification''"
  shows "role = ''verifier'' \<and> has_secret env ''verifier''"
  using assms by (auto simp: check_actor_ok board_tables)

text \<open>An item that is past verification was put into verification by the verifier.\<close>

lemma board_run_verified:
  assumes "board_run env s ms t" "t \<in> {''In-Verification'', ''Human-Review'', ''Done''}"
    "s \<notin> {''In-Verification'', ''Human-Review'', ''Done''}"
  shows "(''verifier'', ''In-Verification'') \<in> set ms \<and> has_secret env ''verifier''"
  using assms
proof (induction rule: board_run.induct)
  case (move s ms t role u)
  then have p: "check_actor env role u = Inr ()" "legal_edge (Some t) u" by (simp_all add: permitted_def)
  show ?case
  proof (cases "u = ''In-Verification''")
    case True
    with verifier_states [OF p(1)] show ?thesis by auto
  next
    case False
    with p(2) move.prems have "t \<in> {''In-Verification'', ''Human-Review'', ''Done''}"
      using into_Done into_Human_Review by auto
    with move show ?thesis by auto
  qed
qed simp

subsection \<open>Properties\<close>

text \<open>
  C14. An item gets to Done only through the verifier: in every run of moves that
  \<open>transition\<close> permits, from any state before verification, the item was put into In-Verification by the
  verifier and the last move, into Done, was the verifier's, from In-Verification or
  Human-Review, with the verifier's secret in the environment; and nothing moves the item
  afterwards.
\<close>

theorem done_only_by_verifier:
  assumes "board_run env s ms ''Done''" "s \<notin> {''In-Verification'', ''Human-Review'', ''Done''}"
  shows "(''verifier'', ''In-Verification'') \<in> set ms \<and> last ms = (''verifier'', ''Done'') \<and>
    has_secret env ''verifier'' \<and> (\<nexists>role u. permitted env role ''Done'' u)"
proof -
  have v: "(''verifier'', ''In-Verification'') \<in> set ms" "has_secret env ''verifier''"
    using board_run_verified [OF assms(1) _ assms(2)] by auto
  obtain ms' m where ms: "ms = ms' @ [m]"
    using v(1) by (cases ms rule: rev_cases) auto
  with assms(1) obtain role where "m = (role, ''Done'')" "check_actor env role ''Done'' = Inr ()"
    by (auto elim: board_run_snoc simp: permitted_def)
  with verifier_states ms have "last ms = (''verifier'', ''Done'')" by auto
  moreover have "\<nexists>role u. permitted env role ''Done'' u"
    using terminal_stuck [of "''Done''"] by (auto simp: permitted_def TERMINAL_def)
  ultimately show ?thesis using v by blast
qed

text \<open>
  Plan approval can be walked around: from any state an item can be worked in, and with no secret
  at all, the implementer alone may block the item and take it up again in Agent-Executing, so
  an item that no human has approved is executed.
\<close>

theorem blocked_bypasses_approval:
  assumes "s \<notin> set TERMINAL" "s \<noteq> ''Blocked''"
  shows "board_run (\<lambda>_. None) s [(''implementer'', ''Blocked''), (''implementer'', ''Agent-Executing'')]
    ''Agent-Executing''"
proof -
  have p1: "permitted (\<lambda>_. None) ''implementer'' s ''Blocked''"
    using assms by (simp add: permitted_def check_actor_ok legal_edge_def board_tables)
  have p2: "permitted (\<lambda>_. None) ''implementer'' ''Blocked'' ''Agent-Executing''"
    by (simp add: permitted_def check_actor_ok legal_edge_def board_tables)
  show ?thesis using board_run.move [OF board_run.move [OF board_run.nothing p1] p2] by simp
qed

definition verifier_env :: environment where
  "verifier_env name = (if name = ''ASCP_VERIFIER_SECRET'' then Some ''s'' else None)"

lemma verified_run: "board_run verifier_env ''Agent-Executing''
    [(''verifier'', ''In-Verification''), (''verifier'', ''Done'')] ''Done''"
proof -
  have p1: "permitted verifier_env ''verifier'' ''Agent-Executing'' ''In-Verification''"
    and p2: "permitted verifier_env ''verifier'' ''In-Verification'' ''Done''"
    by (simp_all add: permitted_def check_actor_ok legal_edge_def board_tables has_secret_def verifier_env_def)
  show ?thesis using board_run.move [OF board_run.move [OF board_run.nothing p1] p2] by simp
qed

theorem done_only_by_verifier_witness:
  "has_secret verifier_env ''verifier'' \<and> (\<nexists>role u. permitted verifier_env role ''Done'' u)"
  using done_only_by_verifier [OF verified_run] by simp

theorem blocked_bypasses_approval_witness:
  "board_run (\<lambda>_. None) ''Backlog'' [(''implementer'', ''Blocked''), (''implementer'', ''Agent-Executing'')]
    ''Agent-Executing''"
  by (rule blocked_bypasses_approval) (simp_all add: TERMINAL_def)

end
