(* ===== verification/Webhook_Properties.thy ===== *)
theory Webhook_Properties
  imports Webhook Plane_States
begin

section \<open>What the receiver guarantees\<close>

text \<open>
  Over every run of posts from empty files, each handled before the next: the memory of deliveries is a bounded window of the
  latest ones, a delivery in it is ignored, nothing changes without a signature, and an item is
  dispatched once per state it is known to enter. The counts are over the queue, by item.
\<close>

subsection \<open>What a post does\<close>

text \<open>The dispatches of an item in the queue, in order.\<close>

definition dispatches :: "string \<Rightarrow> dict list \<Rightarrow> json list" where
  "dispatches i q = map (\<lambda>j. dget j ''state'')
     (filter (\<lambda>j. dget j ''kind'' = JStr ''agent_dispatch'' \<and> dget j ''issue_id'' = JStr i) q)"

lemma dispatches_simps [simp]:
  "dispatches i [] = []" "dispatches i (q @ [j]) = dispatches i q @ dispatches i [j]"
  by (simp_all add: dispatches_def)

lemma dispatches_job:
  "dispatches i [dset (dispatch_job role k s a d n) ''enqueued_at'' t] = (if k = JStr i then [s] else [])"
  by (simp add: dispatches_def dispatch_job_def)

lemma dispatches_other:
  "kind \<noteq> ''agent_dispatch'' \<Longrightarrow> dispatches i [dset ((''kind'', JStr kind) # j) ''enqueued_at'' t] = []"
  by (simp add: dispatches_def)

text \<open>An event either leaves the dispatches alone, or adds one for an item that is not known to be
  in that state.\<close>

definition undisturbed :: "webhook \<Rightarrow> webhook \<Rightarrow> bool" where
  "undisturbed wh wh' = (wh_dispatched wh' = wh_dispatched wh \<and> wh_seen wh' = wh_seen wh \<and>
     wh_seen_file wh' = wh_seen_file wh \<and> (\<forall>i. dispatches i (wh_queue wh') = dispatches i (wh_queue wh)))"

definition dispatched :: "webhook \<Rightarrow> webhook \<Rightarrow> bool" where
  "dispatched wh wh' = (\<exists>k s. s \<in> fst ` set DISPATCH_ON_STATE \<and> pget (wh_dispatched wh) k \<noteq> JStr s \<and>
     wh_dispatched wh' = pset (wh_dispatched wh) k (JStr s) \<and> wh_seen wh' = wh_seen wh \<and>
     wh_seen_file wh' = wh_seen_file wh \<and>
     (\<forall>i. dispatches i (wh_queue wh') = dispatches i (wh_queue wh) @ (if k = JStr i then [JStr s] else [])))"

lemma undisturbed_refl [simp]: "undisturbed wh wh"
  by (simp add: undisturbed_def)

lemma undisturbed_enqueue:
  "kind \<noteq> ''agent_dispatch'' \<Longrightarrow> undisturbed wh (enqueue t ((''kind'', JStr kind) # j) wh)"
  by (simp add: undisturbed_def enqueue_def dispatches_other)

lemma dispatch_once_cases:
  assumes "dispatch_once stamp role k (JStr s) a d n wh = (wh', r)" "s \<in> fst ` set DISPATCH_ON_STATE"
  shows "undisturbed wh wh' \<or> dispatched wh wh'"
proof (cases "hashable k \<and> pget (wh_dispatched wh) k \<noteq> JStr s")
  case True
  with assms have "dispatched wh wh'"
    unfolding dispatched_def
    by (intro exI [of _ k] exI [of _ s]) (auto simp: dispatch_once_def Let_def enqueue_def dispatches_job)
  then show ?thesis ..
next
  case False
  with assms(1) have "wh' = wh" by (auto simp: dispatch_once_def split: if_splits)
  then show ?thesis by simp
qed

lemma role_for_Some: "role_for v = Inr (Some role) \<Longrightarrow> \<exists>s. v = JStr s \<and> s \<in> fst ` set DISPATCH_ON_STATE"
  by (cases v) (auto simp: role_for_def dest: map_of_SomeD split: if_splits intro: rev_image_eqI)

lemma route_issue_cases:
  assumes "route_issue stamp p a d delivery wh = (wh', r)"
  shows "undisturbed wh wh' \<or> dispatched wh wh'"
proof (cases "wh' = wh")
  case False
  with assms obtain role where r: "role_for (state_name_of d) = Inr (Some role)"
    and o: "dispatch_once stamp role (dget d ''id'') (state_name_of d) a delivery (dget d ''name'') wh = (wh', r)"
    by (auto simp: route_issue_def Let_def split: sum.splits option.splits if_splits)
  from role_for_Some [OF r] obtain s where "state_name_of d = JStr s" "s \<in> fst ` set DISPATCH_ON_STATE" by blast
  with o dispatch_once_cases show ?thesis by metis
qed simp

lemma route_cases:
  assumes "route stamp ev payload delivery wh = (wh', r)"
  shows "undisturbed wh wh' \<or> dispatched wh wh'"
  using assms undisturbed_enqueue [of _ wh stamp]
  by (auto simp: route_def Let_def split: json.splits if_splits dest: route_issue_cases)

lemma undisturbed_after: "undisturbed wh wh1 \<or> dispatched wh wh1 \<Longrightarrow> undisturbed wh1 wh2 \<Longrightarrow>
    undisturbed wh wh2 \<or> dispatched wh wh2"
  by (auto simp: undisturbed_def dispatched_def)

lemma route_post_cases: "undisturbed wh (route_post rc po payload wh) \<or> dispatched wh (route_post rc po payload wh)"
proof -
  obtain wh1 r where r: "route (po_stamp po) (po_event po) payload (po_delivery po) wh = (wh1, r)" by force
  have "undisturbed wh1 (route_post rc po payload wh)"
    using r undisturbed_enqueue by (auto simp: route_post_def split: sum.splits)
  with route_cases [OF r] show ?thesis by (rule undisturbed_after)
qed

subsection \<open>The window of deliveries\<close>

text \<open>The posts whose delivery is taken as new, in order.\<close>

definition is_new :: "receiver \<Rightarrow> post \<Rightarrow> webhook \<Rightarrow> bool" where
  "is_new rc po wh = (verify rc (po_signature po) (po_body po) = Inr True \<and>
     po_delivery po \<noteq> [] \<and> \<not> is_seen (po_delivery po) wh)"

fun taken :: "receiver \<Rightarrow> post list \<Rightarrow> webhook \<Rightarrow> string list" where
  "taken rc [] wh = []"
| "taken rc (po # pos) wh = (if is_new rc po wh then [po_delivery po] else []) @
     taken rc pos (fst (do_POST rc po wh))"

definition window :: "'a list \<Rightarrow> 'a list" where
  "window xs = drop (length xs - SEEN_CAP) xs"

lemma window_snoc: "window (window xs @ [x]) = window (xs @ [x])"
proof (cases "length xs < SEEN_CAP")
  case False
  then have "length xs - 4999 = Suc (length xs - 5000)" by (simp add: SEEN_CAP_def)
  with False show ?thesis by (simp add: window_def SEEN_CAP_def drop_Suc tl_drop)
qed (simp add: window_def SEEN_CAP_def)

lemma map_window: "map f (window xs) = window (map f xs)"
  by (simp add: window_def drop_map)

lemma distinct_window: "distinct xs \<Longrightarrow> distinct (window xs)"
  by (simp add: window_def)

lemma length_window [simp]: "length (window xs) \<le> SEEN_CAP"
  by (simp add: window_def)

lemma is_seen_mem: "d \<noteq> [] \<Longrightarrow> is_seen d wh \<longleftrightarrow> JStr d \<in> set (map fst (wh_seen wh))"
  by (simp add: is_seen_def list_ex_key)

lemma mark_delivery_new:
  assumes "d \<noteq> []" "\<not> is_seen d wh"
  shows "map fst (wh_seen (mark_delivery now d wh)) = window (map fst (wh_seen wh) @ [JStr d])"
    and "wh_seen_file (mark_delivery now d wh) = Some (seen_json (wh_seen (mark_delivery now d wh)))"
  using assms is_seen_mem [OF assms(1), of wh]
  by (simp_all add: mark_delivery_def save_seen_def Let_def evict_def pset_def list_ex_key window_def drop_map SEEN_CAP_def)

lemma route_post_seen [simp]:
  "wh_seen (route_post rc po payload wh) = wh_seen wh"
  "wh_seen_file (route_post rc po payload wh) = wh_seen_file wh"
  using route_post_cases [of wh rc po payload] by (auto simp: undisturbed_def dispatched_def)

lemma do_POST_cases:
  obtains (unchanged) "\<not> is_new rc po wh" "fst (do_POST rc po wh) = wh"
  | (anonymous) payload where "\<not> is_new rc po wh" "po_delivery po = []"
      "fst (do_POST rc po wh) = route_post rc po payload wh"
  | (bad_json) "is_new rc po wh" "fst (do_POST rc po wh) = mark_delivery (po_time po) (po_delivery po) wh"
  | (routed) payload where "is_new rc po wh"
      "fst (do_POST rc po wh) = route_post rc po payload (mark_delivery (po_time po) (po_delivery po) wh)"
proof (cases "verify rc (po_signature po) (po_body po) = Inr True \<and> \<not> is_seen (po_delivery po) wh")
  case False
  then have "fst (do_POST rc po wh) = wh"
    by (auto simp: do_POST_def Let_def split: sum.splits bool.splits)
  moreover from False have "\<not> is_new rc po wh" by (auto simp: is_new_def)
  ultimately show thesis by (rule unchanged [rotated])
next
  case new: True
  let ?wh = "mark_delivery (po_time po) (po_delivery po) wh"
  have "fst (do_POST rc po wh) = (case loads (if po_body po = [] then ''{}'' else po_body po) of
      None \<Rightarrow> ?wh | Some payload \<Rightarrow> route_post rc po payload ?wh)"
    using new by (simp add: do_POST_def Let_def split: option.splits)
  note post = this
  show thesis
  proof (cases "po_delivery po = []")
    case True
    then have "?wh = wh" "\<not> is_new rc po wh" by (simp_all add: mark_delivery_def is_new_def)
    show thesis
    proof (cases "loads (if po_body po = [] then ''{}'' else po_body po)")
      case None
      with post \<open>?wh = wh\<close> have "fst (do_POST rc po wh) = wh" by simp
      with \<open>\<not> is_new rc po wh\<close> show thesis by (rule unchanged)
    next
      case (Some payload)
      with post \<open>?wh = wh\<close> have "fst (do_POST rc po wh) = route_post rc po payload wh" by simp
      with \<open>\<not> is_new rc po wh\<close> True show thesis by (intro anonymous)
    qed
  next
    case False
    with new have n: "is_new rc po wh" by (simp add: is_new_def)
    show thesis
    proof (cases "loads (if po_body po = [] then ''{}'' else po_body po)")
      case None
      with post have "fst (do_POST rc po wh) = ?wh" by simp
      with n show thesis by (rule bad_json)
    next
      case (Some payload)
      with post have "fst (do_POST rc po wh) = route_post rc po payload ?wh" by simp
      with n show thesis by (rule routed)
    qed
  qed
qed

lemma is_new_mark:
  assumes "is_new rc po wh"
  shows "map fst (wh_seen (mark_delivery now (po_delivery po) wh)) =
      window (map fst (wh_seen wh) @ [JStr (po_delivery po)])"
    and "wh_seen_file (mark_delivery now (po_delivery po) wh) =
      Some (seen_json (wh_seen (mark_delivery now (po_delivery po) wh)))"
  using assms by (simp_all add: is_new_def mark_delivery_new)

lemma do_POST_window:
  shows "map fst (wh_seen (fst (do_POST rc po wh))) =
      (if is_new rc po wh then window (map fst (wh_seen wh) @ [JStr (po_delivery po)]) else map fst (wh_seen wh))"
    and "is_new rc po wh \<Longrightarrow> wh_seen_file (fst (do_POST rc po wh)) = Some (seen_json (wh_seen (fst (do_POST rc po wh))))"
    and "\<not> is_new rc po wh \<Longrightarrow> wh_seen_file (fst (do_POST rc po wh)) = wh_seen_file wh \<and>
      wh_seen (fst (do_POST rc po wh)) = wh_seen wh"
  by (cases rule: do_POST_cases [of rc po wh]; simp add: is_new_mark)+

lemma serve_simps [simp]:
  "serve rc [] wh = wh" "serve rc (po # pos) wh = serve rc pos (fst (do_POST rc po wh))"
  by (simp_all add: serve_def)

lemma taken_window:
  "map fst (wh_seen wh) = map JStr (window ms) \<Longrightarrow>
    map fst (wh_seen (serve rc pos wh)) = map JStr (window (ms @ taken rc pos wh))"
proof (induction pos arbitrary: wh ms)
  case (Cons po pos)
  let ?wh = "fst (do_POST rc po wh)" and ?new = "if is_new rc po wh then [po_delivery po] else []"
  have "map JStr (window (window ms @ [d])) = window (map JStr (window ms) @ [JStr d])" for d
    by (simp add: map_window)
  with Cons.prems have "map fst (wh_seen ?wh) = map JStr (window (ms @ ?new))"
    by (simp add: do_POST_window window_snoc)
  from Cons.IH [OF this] show ?case by simp
qed simp

lemma serve_distinct:
  "distinct (map fst (wh_seen wh)) \<Longrightarrow> distinct (map fst (wh_seen (serve rc pos wh)))"
proof (induction pos arbitrary: wh)
  case (Cons po pos)
  have "distinct (window (map fst (wh_seen wh) @ [JStr (po_delivery po)]))" if "is_new rc po wh"
    using that Cons.prems is_seen_mem [of "po_delivery po" wh]
    by (intro distinct_window) (auto simp: is_new_def)
  with Cons.prems have "distinct (map fst (wh_seen (fst (do_POST rc po wh))))"
    unfolding do_POST_window(1) by simp
  then show ?case using Cons.IH by simp
qed simp

text \<open>
  C16. The memory of deliveries is bounded and recent: after any run of posts it holds, in order, the
  last \<open>SEEN_CAP\<close> deliveries that were taken as new, never more and none twice.
\<close>

theorem deliveries_window:
  "map fst (wh_seen (serve rc pos fresh_webhook)) = map JStr (window (taken rc pos fresh_webhook)) \<and>
   length (wh_seen (serve rc pos fresh_webhook)) \<le> SEEN_CAP \<and>
   distinct (window (taken rc pos fresh_webhook))"
proof -
  have w: "map fst (wh_seen (serve rc pos fresh_webhook)) = map JStr (window (taken rc pos fresh_webhook))"
    using taken_window [of fresh_webhook "[]"] by (simp add: fresh_webhook_def window_def)
  moreover have "length (wh_seen (serve rc pos fresh_webhook)) \<le> SEEN_CAP"
    using arg_cong [OF w, of length] by simp
  moreover have "distinct (map JStr (window (taken rc pos fresh_webhook)))"
    unfolding w [symmetric] by (rule serve_distinct) (simp add: fresh_webhook_def)
  ultimately show ?thesis by (simp add: distinct_map)
qed

text \<open>
  A delivery among the last \<open>SEEN_CAP\<close> that were taken is answered as a duplicate and changes
  nothing, whatever its body and event.
\<close>

theorem redelivery_ignored:
  assumes "d \<in> set (window (taken rc pos fresh_webhook))" "po_delivery po = d"
    and "verify rc (po_signature po) (po_body po) = Inr True"
  shows "do_POST rc po (serve rc pos fresh_webhook) = (serve rc pos fresh_webhook, Inr (200, ''duplicate ignored''))"
proof -
  have "map fst (wh_seen (serve rc pos fresh_webhook)) = map JStr (window (taken rc pos fresh_webhook))"
    using taken_window [of fresh_webhook "[]"] by (simp add: fresh_webhook_def window_def)
  moreover have "d \<noteq> []"
  proof -
    have "[] \<notin> set (taken rc pos wh)" for wh
      by (induction pos arbitrary: wh) (auto simp: is_new_def)
    with assms(1) show ?thesis by (auto simp: window_def dest: in_set_dropD)
  qed
  ultimately have "is_seen d (serve rc pos fresh_webhook)" using assms(1) by (simp add: is_seen_mem)
  with assms(2,3) show ?thesis by (simp add: do_POST_def)
qed

text \<open>
  A post that changes anything was signed: its signature, with or without the prefix, is the HMAC
  of its body under the receiver's secret; without a secret, the operator had allowed unsigned
  posts.
\<close>

theorem unsigned_post_refused:
  assumes "fst (do_POST rc po wh) \<noteq> wh"
  shows "if rc_secret rc = [] then rc_unsigned rc
    else bare_signature (po_signature po) = hmac_sha256 (utf8 (rc_secret rc)) (utf8 (po_body po))"
proof -
  have "verify rc (po_signature po) (po_body po) = Inr True"
    using assms by (auto simp: do_POST_def split: sum.splits bool.splits)
  then show ?thesis by (auto simp: verify_def split: if_splits)
qed

subsection \<open>One dispatch per move\<close>

definition tracked :: "string \<Rightarrow> webhook \<Rightarrow> bool" where
  "tracked i wh = (distinct_adj (dispatches i (wh_queue wh)) \<and>
     pget (wh_dispatched wh) (JStr i) =
       (if dispatches i (wh_queue wh) = [] then JNull else last (dispatches i (wh_queue wh))))"

lemma tracked_step:
  assumes "tracked i wh" "undisturbed wh wh' \<or> dispatched wh wh'"
  shows "tracked i wh'"
  using assms(2)
proof
  assume "undisturbed wh wh'"
  with assms(1) show ?thesis by (simp add: tracked_def undisturbed_def)
next
  assume "dispatched wh wh'"
  then obtain k s where ks: "pget (wh_dispatched wh) k \<noteq> JStr s"
    "wh_dispatched wh' = pset (wh_dispatched wh) k (JStr s)"
    "dispatches i (wh_queue wh') = dispatches i (wh_queue wh) @ (if k = JStr i then [JStr s] else [])"
    by (auto simp: dispatched_def)
  show ?thesis
  proof (cases "k = JStr i")
    case True
    with ks assms(1) show ?thesis
      by (auto simp: tracked_def pget_pset distinct_adj_append_iff)
  next
    case False
    with ks assms(1) show ?thesis by (simp add: tracked_def pget_pset_other)
  qed
qed

lemma mark_delivery_rest [simp]:
  "wh_queue (mark_delivery now d wh) = wh_queue wh"
  "wh_dispatched (mark_delivery now d wh) = wh_dispatched wh"
  by (simp_all add: mark_delivery_def save_seen_def Let_def)

lemma tracked_mark [simp]: "tracked i (mark_delivery now d wh) = tracked i wh"
  by (simp add: tracked_def)

lemma tracked_POST: "tracked i wh \<Longrightarrow> tracked i (fst (do_POST rc po wh))"
  by (cases rule: do_POST_cases [of rc po wh]) (auto intro: tracked_step [OF _ route_post_cases])

lemma tracked_serve: "tracked i wh \<Longrightarrow> tracked i (serve rc pos wh)"
  by (induction pos arbitrary: wh) (simp_all add: tracked_POST)



subsection \<open>A state entered twice\<close>

definition move_payload :: "string \<Rightarrow> string \<Rightarrow> json" where
  "move_payload i s = JObj [(''action'', JStr ''updated''),
     (''data'', JObj [(''id'', JStr i), (''state'', JObj [(''name'', JStr s)])]),
     (''activity'', JObj [(''field'', JStr ''state'')])]"

definition move_post :: "receiver \<Rightarrow> string \<Rightarrow> string \<Rightarrow> string \<Rightarrow> post" where
  "move_post rc d i s = (let body = dumps_spaced True (move_payload i s) in
     \<lparr>po_signature = hmac_sha256 (utf8 (rc_secret rc)) (utf8 body), po_delivery = d, po_event = ''issue'',
       po_body = body, po_time = ''1.0'', po_stamp = ''now''\<rparr>)"

lemma loads_move: "loads (dumps_spaced True (move_payload i s)) = Some (move_payload i s)"
  by (rule loads_dumps_spaced) (simp add: move_payload_def)

lemma move_body: "dumps_spaced True (move_payload i s) \<noteq> []"
  by (simp add: move_payload_def)

lemma hex_safe: "isascii (sha256_bytes m)" "bare_signature (sha256_bytes m) = sha256_bytes m" "sha256_bytes m \<noteq> []"
proof -
  have h: "length (sha256_bytes m) = 64" "list_all is_lower_hex (sha256_bytes m)"
    using is_hex64_sha256_bytes [of m] by (simp_all add: is_hex64_def)
  then show "sha256_bytes m \<noteq> []" by auto
  from h(2) show "isascii (sha256_bytes m)"
    by (auto simp: isascii_def list_all_iff is_lower_hex_def)
  from h obtain c s where "sha256_bytes m = c # s" "is_lower_hex c" by (cases "sha256_bytes m") auto
  then show "bare_signature (sha256_bytes m) = sha256_bytes m"
    by (auto simp: bare_signature_def startswith_def is_lower_hex_def code_def)
qed

lemma verify_signed:
  "rc_secret rc \<noteq> [] \<Longrightarrow> verify rc (hmac_sha256 (utf8 (rc_secret rc)) (utf8 raw)) raw = Inr True"
  by (simp add: verify_def hmac_sha256_def Let_def hex_safe)

definition enters :: "string \<Rightarrow> string \<Rightarrow> webhook \<Rightarrow> bool" where
  "enters i s wh = (s \<in> fst ` set DISPATCH_ON_STATE \<and> pget (wh_dispatched wh) (JStr i) \<noteq> JStr s)"

lemma route_move:
  assumes "i \<noteq> []"
  shows "dispatches i (wh_queue (route_post rc (move_post rc d i s) (move_payload i s) wh)) =
      dispatches i (wh_queue wh) @ (if enters i s wh then [JStr s] else [])"
    and "wh_dispatched (route_post rc (move_post rc d i s) (move_payload i s) wh) =
      (if enters i s wh then pset (wh_dispatched wh) (JStr i) (JStr s) else wh_dispatched wh)"
proof -
  have "map_of DISPATCH_ON_STATE s = None \<longleftrightarrow> s \<notin> fst ` set DISPATCH_ON_STATE" by (rule map_of_eq_None_iff)
  then show "dispatches i (wh_queue (route_post rc (move_post rc d i s) (move_payload i s) wh)) =
      dispatches i (wh_queue wh) @ (if enters i s wh then [JStr s] else [])"
    "wh_dispatched (route_post rc (move_post rc d i s) (move_payload i s) wh) =
      (if enters i s wh then pset (wh_dispatched wh) (JStr i) (JStr s) else wh_dispatched wh)"
    using assms
    by (cases "map_of DISPATCH_ON_STATE s"; simp add: route_post_def route_def move_post_def move_payload_def Let_def
      py_or_def route_issue_def state_name_of_def role_for_def is_state_transition_def dispatch_once_def enters_def
      enqueue_def dispatches_job)+
qed

lemma do_move:
  assumes "rc_secret rc \<noteq> []" "\<not> is_seen d wh"
  shows "do_POST rc (move_post rc d i s) wh =
    (route_post rc (move_post rc d i s) (move_payload i s) (mark_delivery ''1.0'' d wh), Inr (200, ''accepted''))"
  using assms by (simp add: do_POST_def move_post_def Let_def verify_signed loads_move move_body)

lemma move_step:
  assumes "rc_secret rc \<noteq> []" "i \<noteq> []" "\<not> is_seen d wh"
  shows "dispatches i (wh_queue (fst (do_POST rc (move_post rc d i s) wh))) =
      dispatches i (wh_queue wh) @ (if enters i s wh then [JStr s] else [])"
    and "pget (wh_dispatched (fst (do_POST rc (move_post rc d i s) wh))) (JStr i) =
      (if enters i s wh then JStr s else pget (wh_dispatched wh) (JStr i))"
    and "d' \<noteq> d \<Longrightarrow> \<not> is_seen d' wh \<Longrightarrow> \<not> is_seen d' (fst (do_POST rc (move_post rc d i s) wh))"
proof -
  have "enters i s (mark_delivery ''1.0'' d wh) = enters i s wh" by (simp add: enters_def)
  then show "dispatches i (wh_queue (fst (do_POST rc (move_post rc d i s) wh))) =
      dispatches i (wh_queue wh) @ (if enters i s wh then [JStr s] else [])"
    "pget (wh_dispatched (fst (do_POST rc (move_post rc d i s) wh))) (JStr i) =
      (if enters i s wh then JStr s else pget (wh_dispatched wh) (JStr i))"
    using assms by (simp_all add: do_move route_move pget_pset)
  show "\<not> is_seen d' (fst (do_POST rc (move_post rc d i s) wh))" if "d' \<noteq> d" "\<not> is_seen d' wh"
  proof (cases "d' = []")
    case False
    have "JStr d' \<notin> set (window (map fst (wh_seen wh) @ [JStr d]))"
      using that False by (auto simp: is_seen_mem window_def dest!: in_set_dropD)
    with that False show ?thesis
      unfolding is_seen_mem [OF False] do_POST_window(1) by (auto simp: move_post_def Let_def)
  qed (simp add: is_seen_def)
qed

text \<open>
  The memory of dispatches does not see the states that wake no agent: an item that is blocked
  while it executes and then taken up again, both legal moves, is dispatched the first time
  only, so the recovery wakes no verifier.
\<close>

theorem recovery_not_dispatched:
  assumes "rc_secret rc \<noteq> []" "i \<noteq> []" "distinct [d1, d2, d3]"
  shows "dispatches i (wh_queue (serve rc [move_post rc d1 i ''Agent-Executing'', move_post rc d2 i ''Blocked'',
      move_post rc d3 i ''Agent-Executing''] fresh_webhook)) = [JStr ''Agent-Executing''] \<and>
    legal_edge (Some ''Agent-Executing'') ''Blocked'' \<and> legal_edge (Some ''Blocked'') ''Agent-Executing''"
proof -
  note step = move_step [OF assms(1,2)]
  define w1 where "w1 = fst (do_POST rc (move_post rc d1 i ''Agent-Executing'') fresh_webhook)"
  define w2 where "w2 = fst (do_POST rc (move_post rc d2 i ''Blocked'') w1)"
  have s0: "\<not> is_seen d fresh_webhook" for d by (simp add: is_seen_def fresh_webhook_def)
  have e0: "enters i ''Agent-Executing'' fresh_webhook"
    by (simp add: enters_def DISPATCH_ON_STATE_def fresh_webhook_def pget_def)
  have w1: "dispatches i (wh_queue w1) = [JStr ''Agent-Executing'']"
    "pget (wh_dispatched w1) (JStr i) = JStr ''Agent-Executing''"
    using step(1,2) [OF s0] e0 by (simp_all add: w1_def fresh_webhook_def)
  have s1: "\<not> is_seen d2 w1" "\<not> is_seen d3 w1"
    using step(3) [OF s0 _ s0] assms(3) by (auto simp: w1_def)
  have "\<not> enters i ''Blocked'' w1" by (simp add: enters_def DISPATCH_ON_STATE_def)
  then have w2: "dispatches i (wh_queue w2) = [JStr ''Agent-Executing'']" "\<not> enters i ''Agent-Executing'' w2"
    using step(1,2) [OF s1(1), of "''Blocked''"] w1 by (simp_all add: w2_def enters_def)
  have "\<not> is_seen d3 w2" using step(3) [OF s1(1) _ s1(2)] assms(3) by (auto simp: w2_def)
  then have "dispatches i (wh_queue (fst (do_POST rc (move_post rc d3 i ''Agent-Executing'') w2))) = [JStr ''Agent-Executing'']"
    using step(1) w2 by simp
  then show ?thesis by (simp add: w1_def w2_def legal_edge_def board_tables)
qed


subsection \<open>A restart\<close>

lemma load_seen_json:
  assumes "distinct (map fst l)" "set (map fst l) \<subseteq> range JStr"
  shows "load_seen (Some (seen_json l)) = Inr l"
proof -
  have "foldl (\<lambda>d x. pset d (fst (seen_entry x)) (snd (seen_entry x))) acc (map (\<lambda>(k, v). JList [k, v]) l) = acc @ l"
    if "distinct (map fst (acc @ l))" for acc
    using that assms(2)
  proof (induction l arbitrary: acc)
    case (Cons p l)
    obtain k v where p: "p = (JStr k, v)" using Cons.prems(2) by (cases p) auto
    then have "pset acc (JStr k) v = acc @ [p]"
      using Cons.prems(1) by (auto simp: pset_def list_ex_key)
    with Cons p show ?case by (simp add: seen_entry_def)
  qed simp
  moreover have "\<not> list_ex (\<lambda>x. \<not> hashable (fst (seen_entry x))) (map (\<lambda>(k, v). JList [k, v]) l)"
    using assms(2) by (auto simp: list_ex_iff seen_entry_def)
  ultimately show ?thesis using assms(1) by (simp add: load_seen_def seen_json_def)
qed

lemma serve_file:
  assumes "wh_seen_file wh = Some (seen_json (wh_seen wh)) \<or> wh_seen_file wh = None \<and> wh_seen wh = []"
  shows "let wh' = serve rc pos wh in
    wh_seen_file wh' = Some (seen_json (wh_seen wh')) \<or> wh_seen_file wh' = None \<and> wh_seen wh' = []"
  using assms
proof (induction pos arbitrary: wh)
  case (Cons po pos)
  have "wh_seen_file (fst (do_POST rc po wh)) = Some (seen_json (wh_seen (fst (do_POST rc po wh)))) \<or>
      wh_seen_file (fst (do_POST rc po wh)) = None \<and> wh_seen (fst (do_POST rc po wh)) = []"
    using do_POST_window(2,3) [of rc po wh] Cons.prems by (cases "is_new rc po wh") simp_all
  from Cons.IH [OF this] show ?case by simp
qed simp

text \<open>
  A restart forgets no delivery: what any run of posts leaves in the file loads back as the same
  memory.
\<close>

theorem restart_keeps_deliveries:
  "load_seen (wh_seen_file (serve rc pos fresh_webhook)) = Inr (wh_seen (serve rc pos fresh_webhook))"
proof -
  have "map fst (wh_seen (serve rc pos fresh_webhook)) = map JStr (window (taken rc pos fresh_webhook))"
    using taken_window [of fresh_webhook "[]"] by (simp add: fresh_webhook_def window_def)
  then have "set (map fst (wh_seen (serve rc pos fresh_webhook))) \<subseteq> range JStr" by auto
  moreover have "distinct (map fst (wh_seen (serve rc pos fresh_webhook)))"
    by (rule serve_distinct) (simp add: fresh_webhook_def)
  ultimately show ?thesis
    using serve_file [of fresh_webhook rc pos] load_seen_json
    by (auto simp: Let_def fresh_webhook_def load_seen_def)
qed

subsection \<open>Witnesses\<close>

definition sample_receiver :: receiver where
  "sample_receiver = \<lparr>rc_secret = ''k'', rc_unsigned = False, rc_wording = (\<lambda>_. [])\<rparr>"

theorem recovery_not_dispatched_witness:
  "dispatches ''7'' (wh_queue (serve sample_receiver [move_post sample_receiver ''d1'' ''7'' ''Agent-Executing'',
     move_post sample_receiver ''d2'' ''7'' ''Blocked'', move_post sample_receiver ''d3'' ''7'' ''Agent-Executing'']
     fresh_webhook)) = [JStr ''Agent-Executing'']"
  using recovery_not_dispatched [of sample_receiver "''7''" "''d1''" "''d2''" "''d3''"]
  by (simp add: sample_receiver_def)

lemma sample_taken: "taken sample_receiver [move_post sample_receiver ''d1'' ''7'' ''Plan-Approved''] fresh_webhook = [''d1'']"
  using verify_signed [of sample_receiver]
  by (simp add: is_new_def move_post_def Let_def is_seen_def fresh_webhook_def sample_receiver_def)

theorem redelivery_ignored_witness:
  "snd (do_POST sample_receiver (move_post sample_receiver ''d1'' ''8'' ''Blocked'')
     (serve sample_receiver [move_post sample_receiver ''d1'' ''7'' ''Plan-Approved''] fresh_webhook)) =
   Inr (200, ''duplicate ignored'')"
proof -
  have "verify sample_receiver (po_signature (move_post sample_receiver ''d1'' ''8'' ''Blocked''))
      (po_body (move_post sample_receiver ''d1'' ''8'' ''Blocked'')) = Inr True"
    using verify_signed [of sample_receiver] by (simp add: move_post_def Let_def sample_receiver_def)
  note signed = this
  have "''d1'' \<in> set (window (taken sample_receiver
      [move_post sample_receiver ''d1'' ''7'' ''Plan-Approved''] fresh_webhook))"
    unfolding sample_taken by (simp add: window_def SEEN_CAP_def)
  from redelivery_ignored [OF this _ signed] show ?thesis by (simp add: move_post_def Let_def)
qed

theorem unsigned_post_refused_witness:
  "bare_signature (po_signature (move_post sample_receiver ''d1'' ''7'' ''Plan-Approved'')) =
     hmac_sha256 (utf8 ''k'') (utf8 (po_body (move_post sample_receiver ''d1'' ''7'' ''Plan-Approved'')))"
proof -
  have "wh_seen (fst (do_POST sample_receiver (move_post sample_receiver ''d1'' ''7'' ''Plan-Approved'') fresh_webhook)) \<noteq> []"
    using sample_taken do_POST_window(1) [of sample_receiver "move_post sample_receiver ''d1'' ''7'' ''Plan-Approved''" fresh_webhook]
    by (auto simp: window_def SEEN_CAP_def fresh_webhook_def split: if_splits)
  then have "fst (do_POST sample_receiver (move_post sample_receiver ''d1'' ''7'' ''Plan-Approved'') fresh_webhook) \<noteq> fresh_webhook"
    by (auto simp: fresh_webhook_def)
  from unsigned_post_refused [OF this] show ?thesis by (simp add: sample_receiver_def)
qed
end
