(* ===== verification/Webhook_Threads.thy ===== *)
theory Webhook_Threads
  imports Webhook_Properties "HOL-Library.Multiset"
begin

section \<open>The receiver under threads\<close>

text \<open>
  \<open>plane-integration/webhook_handler.py\<close> serves each post in a thread of its own. A handler has three
  turns, and between two of them other handlers may have theirs: under the lock it takes the delivery;
  under the lock again it decides on the job, which updates the memory of dispatches; and it appends
  the job to the queue with no lock held. A schedule is any list of turns.
\<close>

subsection \<open>Turns\<close>

definition take_post :: "receiver \<Rightarrow> post \<Rightarrow> webhook \<Rightarrow> webhook \<times> json option" where
  "take_post rc po wh =
     (case verify rc (po_signature po) (po_body po) of
        Inr True \<Rightarrow>
          if is_seen (po_delivery po) wh then (wh, None)
          else (mark_delivery (po_time po) (po_delivery po) wh, loads (if po_body po = [] then ''{}'' else po_body po))
      | _ \<Rightarrow> (wh, None))"

text \<open>The state after the decision, and the jobs that the handler has yet to append.\<close>

definition decide :: "receiver \<Rightarrow> post \<Rightarrow> json \<Rightarrow> webhook \<Rightarrow> webhook \<times> dict list" where
  "decide rc po payload wh =
     (let wh' = route_post rc po payload (wh\<lparr>wh_queue := []\<rparr>) in (wh'\<lparr>wh_queue := wh_queue wh\<rparr>, wh_queue wh'))"

record server =
  sv_wh :: webhook
  sv_routing :: "(post \<times> json) list"
  sv_pending :: "dict list"

datatype turn = Take post | Decide nat | Append nat

definition drop_at :: "nat \<Rightarrow> 'a list \<Rightarrow> 'a list" where
  "drop_at k xs = take k xs @ drop (Suc k) xs"

fun thread_turn :: "receiver \<Rightarrow> server \<Rightarrow> turn \<Rightarrow> server" where
  "thread_turn rc sv (Take po) =
     (case take_post rc po (sv_wh sv) of
        (wh, None) \<Rightarrow> sv\<lparr>sv_wh := wh\<rparr>
      | (wh, Some payload) \<Rightarrow> sv\<lparr>sv_wh := wh, sv_routing := sv_routing sv @ [(po, payload)]\<rparr>)"
| "thread_turn rc sv (Decide k) =
     (if length (sv_routing sv) \<le> k then sv
      else let (po, payload) = sv_routing sv ! k; (wh, jobs) = decide rc po payload (sv_wh sv) in
        sv\<lparr>sv_wh := wh, sv_routing := drop_at k (sv_routing sv), sv_pending := sv_pending sv @ jobs\<rparr>)"
| "thread_turn rc sv (Append k) =
     (if length (sv_pending sv) \<le> k then sv
      else sv\<lparr>sv_wh := (sv_wh sv)\<lparr>wh_queue := wh_queue (sv_wh sv) @ [sv_pending sv ! k]\<rparr>,
        sv_pending := drop_at k (sv_pending sv)\<rparr>)"

definition run_threads :: "receiver \<Rightarrow> turn list \<Rightarrow> server \<Rightarrow> server" where
  "run_threads rc ts sv = foldl (thread_turn rc) sv ts"

definition server_of :: "webhook \<Rightarrow> server" where
  "server_of wh = \<lparr>sv_wh = wh, sv_routing = [], sv_pending = []\<rparr>"

lemma run_threads_simps [simp]:
  "run_threads rc [] sv = sv"
  "run_threads rc (t # ts) sv = run_threads rc ts (thread_turn rc sv t)"
  by (simp_all add: run_threads_def)

lemma mset_drop_at: "k < length xs \<Longrightarrow> mset xs = add_mset (xs ! k) (mset (drop_at k xs))"
  by (subst id_take_nth_drop [of k xs]) (simp_all add: drop_at_def)


text \<open>The jobs that a handler appends do not depend on the queue.\<close>

lemma dispatches_append [simp]: "dispatches i (q @ q') = dispatches i q @ dispatches i q'"
  by (simp add: dispatches_def)

lemma dispatch_once_queue:
  "dispatch_once stamp role k s a d n wh =
    (let r = dispatch_once stamp role k s a d n (wh\<lparr>wh_queue := []\<rparr>) in
     ((fst r)\<lparr>wh_queue := wh_queue wh @ wh_queue (fst r)\<rparr>, snd r))"
  by (simp add: dispatch_once_def enqueue_def Let_def)

lemma route_issue_queue:
  "route_issue stamp p a d delivery wh =
    (let r = route_issue stamp p a d delivery (wh\<lparr>wh_queue := []\<rparr>) in
     ((fst r)\<lparr>wh_queue := wh_queue wh @ wh_queue (fst r)\<rparr>, snd r))"
  using dispatch_once_queue [of stamp _ "dget d ''id''" "state_name_of d" a delivery "dget d ''name''" wh]
  by (auto simp: route_issue_def Let_def split: sum.split option.split)

lemma route_queue:
  "route stamp ev payload delivery wh =
    (let r = route stamp ev payload delivery (wh\<lparr>wh_queue := []\<rparr>) in
     ((fst r)\<lparr>wh_queue := wh_queue wh @ wh_queue (fst r)\<rparr>, snd r))"
  using route_issue_queue [of stamp _ _ _ delivery wh]
  by (auto simp: route_def enqueue_def Let_def split: json.split)

lemma route_post_queue:
  "route_post rc po payload wh =
    (let wh' = route_post rc po payload (wh\<lparr>wh_queue := []\<rparr>) in wh'\<lparr>wh_queue := wh_queue wh @ wh_queue wh'\<rparr>)"
  using route_queue [of "po_stamp po" "po_event po" payload "po_delivery po" wh]
  by (simp add: route_post_def enqueue_def Let_def split: prod.splits sum.splits)


subsection \<open>One handler alone\<close>

lemma take_post_do_POST:
  "fst (do_POST rc po wh) = (case take_post rc po wh of
     (wh', None) \<Rightarrow> wh' | (wh', Some payload) \<Rightarrow> route_post rc po payload wh')"
  by (auto simp: do_POST_def take_post_def Let_def split: sum.split bool.split option.split)

lemma append_all:
  "run_threads rc (replicate (length jobs) (Append 0)) (sv\<lparr>sv_pending := jobs\<rparr>) =
    sv\<lparr>sv_wh := (sv_wh sv)\<lparr>wh_queue := wh_queue (sv_wh sv) @ jobs\<rparr>, sv_pending := []\<rparr>"
proof (induction jobs arbitrary: sv)
  case (Cons j jobs)
  from Cons.IH [of "sv\<lparr>sv_wh := (sv_wh sv)\<lparr>wh_queue := wh_queue (sv_wh sv) @ [j]\<rparr>\<rparr>"]
  show ?case by (simp add: drop_at_def)
qed simp

text \<open>
  A handler that has its turns one after the other does to the files what \<open>do_POST\<close> says: with enough
  turns to append, nothing is left to do.
\<close>

theorem handler_alone:
  "\<exists>n. run_threads rc (Take po # Decide 0 # replicate n (Append 0)) (server_of wh) = server_of (fst (do_POST rc po wh))"
proof (cases "take_post rc po wh")
  case (Pair wh' payload)
  show ?thesis
  proof (cases payload)
    case None
    with Pair show ?thesis
      by (intro exI [of _ 0]) (simp add: server_of_def take_post_do_POST)
  next
    case (Some v)
    let ?w = "route_post rc po v (wh'\<lparr>wh_queue := []\<rparr>)"
    have "run_threads rc (replicate (length (wh_queue ?w)) (Append 0))
        (server_of (?w\<lparr>wh_queue := wh_queue wh'\<rparr>)\<lparr>sv_pending := wh_queue ?w\<rparr>) = server_of (route_post rc po v wh')"
      unfolding append_all using route_post_queue [of rc po v wh'] by (simp add: server_of_def Let_def)
    with Pair Some show ?thesis
      by (intro exI [of _ "length (wh_queue ?w)"])
        (simp add: server_of_def take_post_do_POST decide_def drop_at_def Let_def)
  qed
qed

subsection \<open>Every schedule\<close>

text \<open>The jobs decided on, whether appended or not, have an order in which the memory tracks them.\<close>

definition decided_in :: "dict list \<Rightarrow> server \<Rightarrow> bool" where
  "decided_in order sv = (mset order = mset (wh_queue (sv_wh sv)) + mset (sv_pending sv) \<and>
     (\<forall>i. tracked i ((sv_wh sv)\<lparr>wh_queue := order\<rparr>)))"

lemma decide_step:
  assumes "\<forall>i. tracked i (wh\<lparr>wh_queue := order\<rparr>)" "decide rc po payload wh = (wh', jobs)"
  shows "(\<forall>i. tracked i (wh'\<lparr>wh_queue := order @ jobs\<rparr>)) \<and> wh_queue wh' = wh_queue wh \<and> wh_seen wh' = wh_seen wh"
proof -
  let ?w = "route_post rc po payload (wh\<lparr>wh_queue := []\<rparr>)"
  have eq: "wh' = ?w\<lparr>wh_queue := wh_queue wh\<rparr>" "jobs = wh_queue ?w"
    using assms(2) by (simp_all add: decide_def Let_def)
  have "undisturbed (wh\<lparr>wh_queue := order\<rparr>) (wh'\<lparr>wh_queue := order @ jobs\<rparr>) \<or>
      dispatched (wh\<lparr>wh_queue := order\<rparr>) (wh'\<lparr>wh_queue := order @ jobs\<rparr>)"
    using route_post_cases [of "wh\<lparr>wh_queue := []\<rparr>" rc po payload]
    by (simp add: undisturbed_def dispatched_def eq)
  with assms(1) show ?thesis by (auto intro: tracked_step simp: eq)
qed

lemma take_post_rest:
  assumes "take_post rc po wh = (wh', r)"
  shows "wh_queue wh' = wh_queue wh \<and> wh_dispatched wh' = wh_dispatched wh \<and>
    (distinct (map fst (wh_seen wh)) \<and> length (wh_seen wh) \<le> SEEN_CAP \<longrightarrow>
     distinct (map fst (wh_seen wh')) \<and> length (wh_seen wh') \<le> SEEN_CAP)"
proof (cases "wh' = wh")
  case False
  with assms have n: "po_delivery po \<noteq> []" "\<not> is_seen (po_delivery po) wh"
    and wh': "wh' = mark_delivery (po_time po) (po_delivery po) wh"
    by (auto simp: take_post_def mark_delivery_def split: sum.splits bool.splits if_splits)
  note w = mark_delivery_new(1) [OF n, of "po_time po", folded wh']
  have "length (wh_seen wh') \<le> SEEN_CAP" using arg_cong [OF w, of length] by simp
  moreover have "distinct (map fst (wh_seen wh'))" if "distinct (map fst (wh_seen wh))"
    unfolding w using that n by (intro distinct_window) (simp add: is_seen_mem)
  ultimately show ?thesis by (simp add: wh')
qed simp

lemma decided_turn:
  assumes "decided_in order sv" "distinct (map fst (wh_seen (sv_wh sv)))" "length (wh_seen (sv_wh sv)) \<le> SEEN_CAP"
  shows "(\<exists>order'. decided_in (order @ order') (thread_turn rc sv t)) \<and>
    distinct (map fst (wh_seen (sv_wh (thread_turn rc sv t)))) \<and> length (wh_seen (sv_wh (thread_turn rc sv t))) \<le> SEEN_CAP"
proof (cases t)
  case (Take po)
  obtain wh' r where "take_post rc po (sv_wh sv) = (wh', r)" by force
  with take_post_rest [OF this] assms Take show ?thesis
    by (cases r) (auto simp: decided_in_def tracked_def intro!: exI [of _ "[]"])
next
  case (Decide k)
  show ?thesis
  proof (cases "length (sv_routing sv) \<le> k")
    case False
    obtain po payload where p: "sv_routing sv ! k = (po, payload)" by force
    obtain wh' jobs where d: "decide rc po payload (sv_wh sv) = (wh', jobs)" by force
    have "\<forall>i. tracked i ((sv_wh sv)\<lparr>wh_queue := order\<rparr>)" using assms(1) by (simp add: decided_in_def)
    from decide_step [OF this d] assms p d False Decide show ?thesis
      by (auto simp: decided_in_def intro!: exI [of _ jobs])
  qed (use assms Decide in \<open>auto intro!: exI [of _ "[]"]\<close>)
next
  case (Append k)
  then show ?thesis
    using assms mset_drop_at [of k "sv_pending sv"]
    by (cases "length (sv_pending sv) \<le> k") (auto simp: decided_in_def intro!: exI [of _ "[]"])
qed

lemma decided_run:
  assumes "decided_in order sv" "distinct (map fst (wh_seen (sv_wh sv)))" "length (wh_seen (sv_wh sv)) \<le> SEEN_CAP"
  shows "\<exists>order'. decided_in order' (run_threads rc ts sv) \<and>
    distinct (map fst (wh_seen (sv_wh (run_threads rc ts sv)))) \<and> length (wh_seen (sv_wh (run_threads rc ts sv))) \<le> SEEN_CAP"
  using assms
proof (induction ts arbitrary: order sv)
  case (Cons t ts)
  from decided_turn [OF Cons.prems, of rc t] obtain order' where
    "decided_in (order @ order') (thread_turn rc sv t)" "distinct (map fst (wh_seen (sv_wh (thread_turn rc sv t))))"
    "length (wh_seen (sv_wh (thread_turn rc sv t))) \<le> SEEN_CAP" by blast
  from Cons.IH [OF this] show ?case by simp
qed auto

text \<open>
  C38. In every schedule of the handlers, the jobs in the queue and those still to be appended are, in some
  order, the jobs of a memory that works: in that order the dispatches of an item never repeat a state in a
  row, and the memory holds the state of the last one. A delivery is remembered once and at most
  \<open>SEEN_CAP\<close> are.
\<close>

theorem threads_keep_dispatches:
  "\<exists>order. mset order = mset (wh_queue (sv_wh (run_threads rc ts (server_of fresh_webhook)))) +
       mset (sv_pending (run_threads rc ts (server_of fresh_webhook))) \<and>
     (\<forall>i. distinct_adj (dispatches i order) \<and>
       pget (wh_dispatched (sv_wh (run_threads rc ts (server_of fresh_webhook)))) (JStr i) =
         (if dispatches i order = [] then JNull else last (dispatches i order))) \<and>
     distinct (map fst (wh_seen (sv_wh (run_threads rc ts (server_of fresh_webhook))))) \<and>
     length (wh_seen (sv_wh (run_threads rc ts (server_of fresh_webhook)))) \<le> SEEN_CAP"
proof -
  have "decided_in [] (server_of fresh_webhook)"
    by (simp add: decided_in_def server_of_def fresh_webhook_def tracked_def pget_def)
  from decided_run [OF this, of rc ts] show ?thesis
    by (auto simp: decided_in_def tracked_def server_of_def fresh_webhook_def)
qed

lemma take_move:
  assumes "rc_secret rc \<noteq> []" "\<not> is_seen d wh"
  shows "take_post rc (move_post rc d i s) wh = (mark_delivery ''1.0'' d wh, Some (move_payload i s))"
  using assms by (simp add: take_post_def move_post_def Let_def verify_signed loads_move move_body)

lemma decide_move:
  assumes "i \<noteq> []" "enters i s wh" "decide rc (move_post rc d i s) (move_payload i s) wh = (wh', jobs)"
  shows "\<exists>j. jobs = [j] \<and> dispatches i [j] = [JStr s]" "wh_queue wh' = wh_queue wh"
    "pget (wh_dispatched wh') (JStr i) = JStr s"
proof -
  from assms(2) obtain role where r: "map_of DISPATCH_ON_STATE s = Some role"
    by (cases "map_of DISPATCH_ON_STATE s") (auto simp: enters_def map_of_eq_None_iff)
  then show "\<exists>j. jobs = [j] \<and> dispatches i [j] = [JStr s]" "wh_queue wh' = wh_queue wh"
    "pget (wh_dispatched wh') (JStr i) = JStr s"
    using assms
    by (auto simp: decide_def route_post_def route_def move_post_def move_payload_def Let_def
      py_or_def route_issue_def state_name_of_def role_for_def is_state_transition_def dispatch_once_def enters_def
      enqueue_def dispatches_job pget_pset)
qed

text \<open>
  The order of the queue is another matter. Of two moves of an item whose handlers decide one after the
  other, the second may be appended first: the last dispatch of the item in the queue is then the older
  state, while the memory holds the newer.
\<close>

theorem threads_reorder_dispatches:
  assumes "rc_secret rc \<noteq> []" "i \<noteq> []" "d1 \<noteq> d2"
    and sv: "sv = run_threads rc [Take (move_post rc d1 i ''Agent-Triaged''), Take (move_post rc d2 i ''Plan-Approved''),
      Decide 0, Decide 0, Append 1, Append 0] (server_of fresh_webhook)"
  shows "dispatches i (wh_queue (sv_wh sv)) = [JStr ''Plan-Approved'', JStr ''Agent-Triaged''] \<and>
    pget (wh_dispatched (sv_wh sv)) (JStr i) = JStr ''Plan-Approved''"
proof -
  let ?p1 = "(move_post rc d1 i ''Agent-Triaged'', move_payload i ''Agent-Triaged'')"
  let ?p2 = "(move_post rc d2 i ''Plan-Approved'', move_payload i ''Plan-Approved'')"
  define w2 where "w2 = mark_delivery ''1.0'' d2 (mark_delivery ''1.0'' d1 fresh_webhook)"
  have s0: "\<not> is_seen d fresh_webhook" for d by (simp add: is_seen_def fresh_webhook_def)
  have s1: "\<not> is_seen d2 (mark_delivery ''1.0'' d1 fresh_webhook)"
    using assms(3) s0 by (auto simp: is_seen_def mark_delivery_def save_seen_def evict_def SEEN_CAP_def pset_def
      fresh_webhook_def Let_def)
  obtain w3 j1s where d1: "decide rc (fst ?p1) (snd ?p1) w2 = (w3, j1s)" by force
  obtain w4 j2s where d2: "decide rc (fst ?p2) (snd ?p2) w3 = (w4, j2s)" by force
  have e1: "enters i ''Agent-Triaged'' w2"
    by (simp add: enters_def w2_def DISPATCH_ON_STATE_def fresh_webhook_def pget_def)
  note m1 = decide_move [OF assms(2) e1 d1 [unfolded fst_conv snd_conv]]
  then have e2: "enters i ''Plan-Approved'' w3" by (simp add: enters_def DISPATCH_ON_STATE_def)
  note m2 = decide_move [OF assms(2) e2 d2 [unfolded fst_conv snd_conv]]
  from m1(1) m2(1) obtain j1 j2 where j: "j1s = [j1]" "j2s = [j2]" "dispatches i [j1] = [JStr ''Agent-Triaged'']"
    "dispatches i [j2] = [JStr ''Plan-Approved'']" by blast
  have empty: "wh_queue w4 = []" using m1(2) m2(2) by (simp add: w2_def fresh_webhook_def)
  have "thread_turn rc (thread_turn rc (server_of fresh_webhook) (Take (fst ?p1))) (Take (fst ?p2)) =
      \<lparr>sv_wh = w2, sv_routing = [?p1, ?p2], sv_pending = []\<rparr>"
    by (simp add: server_of_def take_move [OF assms(1) s0] take_move [OF assms(1) s1] w2_def)
  note s2 = this [unfolded fst_conv]
  have s3: "thread_turn rc \<lparr>sv_wh = w2, sv_routing = [?p1, ?p2], sv_pending = []\<rparr> (Decide 0) =
      \<lparr>sv_wh = w3, sv_routing = [?p2], sv_pending = [j1]\<rparr>"
    using d1 j(1) by (simp add: drop_at_def)
  have s4: "thread_turn rc \<lparr>sv_wh = w3, sv_routing = [?p2], sv_pending = [j1]\<rparr> (Decide 0) =
      \<lparr>sv_wh = w4, sv_routing = [], sv_pending = [j1, j2]\<rparr>"
    using d2 j(2) by (simp add: drop_at_def)
  have s5: "thread_turn rc \<lparr>sv_wh = w, sv_routing = [], sv_pending = [a, b]\<rparr> (Append 1) =
      \<lparr>sv_wh = w\<lparr>wh_queue := wh_queue w @ [b]\<rparr>, sv_routing = [], sv_pending = [a]\<rparr>"
    "thread_turn rc \<lparr>sv_wh = w, sv_routing = [], sv_pending = [a]\<rparr> (Append 0) =
      \<lparr>sv_wh = w\<lparr>wh_queue := wh_queue w @ [a]\<rparr>, sv_routing = [], sv_pending = []\<rparr>" for w a b
    by (simp_all add: drop_at_def)
  have "sv = \<lparr>sv_wh = w4\<lparr>wh_queue := wh_queue w4 @ [j2], wh_queue := wh_queue (w4\<lparr>wh_queue := wh_queue w4 @ [j2]\<rparr>) @ [j1]\<rparr>,
      sv_routing = [], sv_pending = []\<rparr>"
    unfolding sv run_threads_simps s2 s3 s4 s5 ..
  with empty have "sv = \<lparr>sv_wh = w4\<lparr>wh_queue := [j2, j1]\<rparr>, sv_routing = [], sv_pending = []\<rparr>"
    by simp
  then have "wh_queue (sv_wh sv) = [j2] @ [j1]" "wh_dispatched (sv_wh sv) = wh_dispatched w4" by simp_all
  moreover have "dispatches i ([j2] @ [j1]) = [JStr ''Plan-Approved''] @ [JStr ''Agent-Triaged'']"
    unfolding dispatches_append j(3,4) ..
  ultimately show ?thesis using m2(3) by simp
qed

theorem threads_reorder_dispatches_witness:
  "dispatches ''7'' (wh_queue (sv_wh (run_threads sample_receiver
     [Take (move_post sample_receiver ''d1'' ''7'' ''Agent-Triaged''), Take (move_post sample_receiver ''d2'' ''7'' ''Plan-Approved''),
      Decide 0, Decide 0, Append 1, Append 0] (server_of fresh_webhook)))) = [JStr ''Plan-Approved'', JStr ''Agent-Triaged'']"
proof (rule threads_reorder_dispatches [THEN conjunct1, OF _ _ _ refl])
  show "rc_secret sample_receiver \<noteq> []" by (simp add: sample_receiver_def)
qed simp_all

end
