(* ===== verification/Dispatcher.thy ===== *)
theory Dispatcher
  imports Webhook Merge_Gate
begin

section \<open>The dispatcher\<close>

text \<open>
  \<open>plane-integration/dispatcher.py\<close>: the reader of the queue, the state file with the settled
  keys and the attempts, one pass over the queue with its retries and quarantine, the trusted
  baseline it writes, and the default invoker. The invoker acts on a world of its own; the order
  in which Python lists a set and the wording of an exception are arguments. The state file is
  absent or was written by this program; appending to the audit file and writing succeed.

  Besides what the program keeps, a session lists the keys of the jobs handed to the invoker.
\<close>

definition VALID_ROLES :: "string list" where
  "VALID_ROLES = [''initializer'', ''implementer'', ''verifier'']"

definition MAX_ATTEMPTS :: nat where
  "MAX_ATTEMPTS = 3"

definition STATE_CAP :: nat where
  "STATE_CAP = 10000"

subsection \<open>Queue and keys\<close>

definition job_key :: "dict \<Rightarrow> string" where
  "job_key job = take 16 (sha256_hex (join ''|'' (map (\<lambda>k. py_str (dget_or job k (JStr [])))
     [''delivery'', ''issue_id'', ''state'', ''kind''])))"

definition read_line :: "string \<Rightarrow> json list" where
  "read_line l = (let l = strip l in if l = [] then [] else case loads l of None \<Rightarrow> [] | Some v \<Rightarrow> [v])"

definition read_jobs :: "string option \<Rightarrow> json list" where
  "read_jobs q = (case q of None \<Rightarrow> [] | Some t \<Rightarrow> concat (map read_line (split_on line_break t)))"

subsection \<open>State\<close>

record dispatcher_state =
  ds_seen :: "string list"
  ds_attempts :: "(string \<times> nat) list"

record dispatch_audit =
  ar_decision :: string
  ar_reason :: string
  ar_issue :: json

record 'w dispatcher =
  dp_world :: 'w
  dp_state :: "dispatcher_state option"
  dp_audit :: "dispatch_audit list"
  dp_baseline :: "json option"
  dp_calls :: "string list"

record 'w dispatch_env =
  de_invoker :: "dict \<Rightarrow> 'w \<Rightarrow> 'w \<times> (string + json)"
  de_listed :: "string list \<Rightarrow> string list"
  de_wording :: "py_exc \<Rightarrow> string"
  de_limit :: nat

definition load_state :: "dispatcher_state option \<Rightarrow> dispatcher_state" where
  "load_state s = (case s of None \<Rightarrow> \<lparr>ds_seen = [], ds_attempts = []\<rparr> | Some s \<Rightarrow> s)"

definition save_state :: "dispatcher_state \<Rightarrow> dispatcher_state" where
  "save_state s = s\<lparr>ds_seen := drop (length (ds_seen s) - STATE_CAP) (ds_seen s)\<rparr>"

text \<open>The variables of one pass.\<close>

record 'w pass =
  ps_world :: 'w
  ps_seen :: "string list"
  ps_attempts :: "(string \<times> nat) list"
  ps_dispatched :: nat
  ps_ids :: "string list"
  ps_audit :: "dispatch_audit list"
  ps_calls :: "string list"

definition audit :: "string \<Rightarrow> string \<Rightarrow> json \<Rightarrow> 'w pass \<Rightarrow> 'w pass" where
  "audit decision reason issue p =
     p\<lparr>ps_audit := ps_audit p @ [\<lparr>ar_decision = decision, ar_reason = reason, ar_issue = issue\<rparr>]\<rparr>"

definition settle :: "string \<Rightarrow> 'w pass \<Rightarrow> 'w pass" where
  "settle key p = p\<lparr>ps_seen := List.insert key (ps_seen p)\<rparr>"

definition attempts_of :: "(string \<times> nat) list \<Rightarrow> string \<Rightarrow> nat" where
  "attempts_of a key = (case map_of a key of None \<Rightarrow> 0 | Some n \<Rightarrow> n)"

definition job_done :: "string \<Rightarrow> string \<Rightarrow> json \<Rightarrow> dict \<Rightarrow> 'w pass \<Rightarrow> 'w pass" where
  "job_done key role issue result p =
     (let p = settle key (audit ''allow'' (role @ '' <- issue '' @ py_str issue @ '' ('' @ py_str (dget result ''mode'') @
          ''; plane_comment='' @ py_str (dget result ''plane_comment'') @ '')'') issue p)
      in p\<lparr>ps_attempts := AList.delete key (ps_attempts p), ps_dispatched := Suc (ps_dispatched p),
           ps_ids := (if truthy issue then ps_ids p @ [py_str issue] else ps_ids p)\<rparr>)"

definition job_failed :: "nat \<Rightarrow> string \<Rightarrow> json \<Rightarrow> string \<Rightarrow> 'w pass \<Rightarrow> 'w pass" where
  "job_failed limit key issue e p =
     (let n = attempts_of (ps_attempts p) key + 1; p = p\<lparr>ps_attempts := AList.update key n (ps_attempts p)\<rparr> in
      if limit \<le> n then
        (let p = settle key (audit ''block'' (''quarantined after '' @ int_str (int n) @ '' attempts: '' @ e) issue p)
         in p\<lparr>ps_attempts := AList.delete key (ps_attempts p)\<rparr>)
      else audit ''block'' (''retry '' @ int_str (int n) @ ''/'' @ int_str (int limit) @ '': '' @ e) issue p)"

definition invoke_job :: "'w dispatch_env \<Rightarrow> dict \<Rightarrow> string \<Rightarrow> 'w pass \<Rightarrow> 'w pass" where
  "invoke_job env job key p =
     (let issue = dget job ''issue_id''; (w, r) = de_invoker env job (ps_world p);
          p = p\<lparr>ps_world := w, ps_calls := ps_calls p @ [key]\<rparr> in
      case r of
        Inr (JObj result) \<Rightarrow> job_done key (py_str (dget job ''agent_role'')) issue result p
      | Inr _ \<Rightarrow> job_failed (de_limit env) key issue (de_wording env AttributeError) p
      | Inl e \<Rightarrow> job_failed (de_limit env) key issue e p)"

definition drain_job :: "'w dispatch_env \<Rightarrow> json \<Rightarrow> 'w pass \<Rightarrow> 'w pass \<times> unit py" where
  "drain_job env job p =
     (case job of
        JObj d \<Rightarrow>
          if dget d ''kind'' \<noteq> JStr ''agent_dispatch'' then (p, Inr ())
          else if job_key d \<in> set (ps_seen p) then (p, Inr ())
          else (case member_of (dget d ''agent_role'') (map JStr VALID_ROLES) of
              Inl e \<Rightarrow> (p, Inl e)
            | Inr False \<Rightarrow> (settle (job_key d) (audit ''block'' (''unknown agent_role '' @ py_repr (dget d ''agent_role''))
                (dget d ''issue_id'') p), Inr ())
            | Inr True \<Rightarrow> (invoke_job env d (job_key d) p, Inr ()))
      | _ \<Rightarrow> (p, Inl AttributeError))"

fun drain_jobs :: "'w dispatch_env \<Rightarrow> json list \<Rightarrow> 'w pass \<Rightarrow> 'w pass \<times> unit py" where
  "drain_jobs env [] p = (p, Inr ())"
| "drain_jobs env (job # jobs) p = (case drain_job env job p of
     (p, Inl e) \<Rightarrow> (p, Inl e) | (p, Inr _) \<Rightarrow> drain_jobs env jobs p)"

definition start_pass :: "'w dispatcher \<Rightarrow> 'w pass" where
  "start_pass dp = (let st = load_state (dp_state dp) in
     \<lparr>ps_world = dp_world dp, ps_seen = ds_seen st, ps_attempts = ds_attempts st, ps_dispatched = 0, ps_ids = [],
      ps_audit = dp_audit dp, ps_calls = dp_calls dp\<rparr>)"

definition drain :: "'w dispatch_env \<Rightarrow> string option \<Rightarrow> 'w dispatcher \<Rightarrow> 'w dispatcher \<times> nat py" where
  "drain env queue dp =
     (let (p, r) = drain_jobs env (read_jobs queue) (start_pass dp);
          dp = dp\<lparr>dp_world := ps_world p, dp_audit := ps_audit p, dp_calls := ps_calls p\<rparr> in
      case r of
        Inl e \<Rightarrow> (dp, Inl e)
      | Inr _ \<Rightarrow>
          (let dp = dp\<lparr>dp_state := Some (save_state \<lparr>ds_seen = de_listed env (ps_seen p), ds_attempts = ps_attempts p\<rparr>)\<rparr>;
               dp = (if ps_ids p = [] then dp
                     else dp\<lparr>dp_baseline := Some (write_baseline (map JStr (ps_ids p)))\<rparr>)
           in (dp, Inr (ps_dispatched p))))"

text \<open>\<open>watch\<close>, as far as it has polled: an exception of a pass is logged and the next pass follows.\<close>

definition watch :: "'w dispatch_env \<Rightarrow> string option list \<Rightarrow> 'w dispatcher \<Rightarrow> 'w dispatcher" where
  "watch env queues dp = foldl (\<lambda>dp q. fst (drain env q dp)) dp queues"

subsection \<open>The default invoker\<close>

definition governed_cwd_ok :: "string option \<Rightarrow> bool py" where
  "governed_cwd_ok settings = (case settings of None \<Rightarrow> Inr False
     | Some t \<Rightarrow> (case loads t of None \<Rightarrow> Inr False
         | Some v \<Rightarrow> py_bind (obj_get_or v ''enabledPlugins'' (JObj [])) (\<lambda>plugins.
             py_bind (obj_get plugins ''ralph-loop@claude-plugins-official'') (\<lambda>x. Inr (x = JBool False)))))"

datatype claude_result = ClaudeExit int | ClaudeMissing | ClaudeTimeout | ClaudeFailed

record 'w agent_env =
  ae_exec :: bool
  ae_no_plane :: bool
  ae_settings :: "string option"
  ae_comment :: "json \<Rightarrow> string \<Rightarrow> 'w \<Rightarrow> 'w \<times> bool"
  ae_claude :: "string \<Rightarrow> 'w \<Rightarrow> 'w \<times> claude_result"
  ae_wording :: "py_exc \<Rightarrow> string"

definition prompt :: "string \<Rightarrow> dict \<Rightarrow> string" where
  "prompt role job =
     ''You are the '' @ role @ '' agent. Plane work-item '' @ py_str (dget job ''issue_id'') @ '' ('' @
     quoted (py_str (dget job ''name'')) @ '') entered state '' @ quoted (py_str (dget job ''state'')) @
     ''. Perform the '' @ role @
     '' step of the .kiro completion-gate workflow for this item, then record the outcome via '' @
     ''plane-integration/the_loop.py (advance / prove / handoff). Respect actor authority: '' @
     ''only the verifier may set Done; cap/budget/no-progress => handoff, never Done.''"

definition exec_claude :: "'w agent_env \<Rightarrow> string \<Rightarrow> dict \<Rightarrow> 'w \<Rightarrow> 'w \<times> bool py" where
  "exec_claude env role job w =
     (case governed_cwd_ok (ae_settings env) of
        Inl e \<Rightarrow> (w, Inl e)
      | Inr False \<Rightarrow> (w, Inr False)
      | Inr True \<Rightarrow> (let (w, r) = ae_claude env (prompt role job) w in (w, Inr (r = ClaudeExit 0))))"

definition plane_comment :: "'w agent_env \<Rightarrow> json \<Rightarrow> string \<Rightarrow> 'w \<Rightarrow> 'w \<times> bool" where
  "plane_comment env issue body w =
     (if \<not> truthy issue \<or> ae_no_plane env then (w, False) else ae_comment env issue body w)"

definition dispatch_note :: "string \<Rightarrow> json \<Rightarrow> string \<Rightarrow> string" where
  "dispatch_note role state tag = ''<p><b>Dispatcher</b> -> <code>'' @ role @ ''</code> agent for state <code>'' @
     py_str state @ ''</code> ['' @ tag @ '']</p>''"

definition default_invoker :: "'w agent_env \<Rightarrow> dict \<Rightarrow> 'w \<Rightarrow> 'w \<times> (string + json)" where
  "default_invoker env job w =
     (let role = dget job ''agent_role'';
          note_text = dispatch_note (py_str role) (dget job ''state'') (if ae_exec env then ''EXEC'' else ''stage'');
          (w, posted) = plane_comment env (dget job ''issue_id'') note_text w in
      if ae_exec env then
        (case exec_claude env (py_str role) job w of
           (w, Inl e) \<Rightarrow> (w, Inl (ae_wording env e))
         | (w, Inr ok) \<Rightarrow> (w, Inr (JObj [(''mode'', JStr ''exec''), (''role'', role), (''plane_comment'', JBool posted),
              (''exec_ok'', JBool ok)])))
      else (w, Inr (JObj [(''mode'', JStr ''stage''), (''role'', role), (''plane_comment'', JBool posted)])))"

end
