(* ===== verification/Job_Queue.thy ===== *)
theory Job_Queue
  imports Main
begin

section \<open>A queue kept as lines of text\<close>

text \<open>
  The interface between the receiver, which appends a line per job to a file, and the readers of
  that file: reading a line that was written gives the job back and leaves the rest. Its clients
  may then reason on lists of jobs.
\<close>

locale line_queue =
  fixes line :: "'j \<Rightarrow> string" and jobs :: "string \<Rightarrow> 'j list" and good :: "'j \<Rightarrow> bool"
  assumes jobs_empty: "jobs [] = []"
    and jobs_line: "good j \<Longrightarrow> jobs (line j @ t) = j # jobs t"
begin

lemma jobs_append: "list_all good js \<Longrightarrow> jobs (concat (map line js) @ t) = js @ jobs t"
  by (induction js) (simp_all add: jobs_line)

lemma jobs_lines: "list_all good js \<Longrightarrow> jobs (concat (map line js)) = js"
  using jobs_append [of js "[]"] by (simp add: jobs_empty)

text \<open>A queue that has grown still starts with what it held.\<close>

lemma jobs_grown: "list_all good js \<Longrightarrow> take (length js) (jobs (concat (map line js) @ t)) = js"
  by (simp add: jobs_append)

end

end
