(* ===== verification/Dispatcher_Properties.thy ===== *)
theory Dispatcher_Properties
  imports Dispatcher Job_Queue
begin

section \<open>What the dispatcher guarantees\<close>

text \<open>
  Over any number of passes: how often a job is handed to the invoker, that a job which keeps
  failing is settled in the end, what the queue reads back as, and where a job or an id is lost.
  The ledger relates the calls to the attempts that the state file keeps.
\<close>

subsection \<open>The ledger of calls\<close>

text \<open>A key that is not settled has been tried as often as its attempts say, and less often than
  the limit; no key has been tried more often than the limit.\<close>

definition ledger :: "nat \<Rightarrow> string list \<Rightarrow> (string \<times> nat) list \<Rightarrow> string list \<Rightarrow> bool" where
  "ledger limit seen a calls = (\<forall>k. count_list calls k \<le> limit \<and>
     (k \<notin> set seen \<longrightarrow> count_list calls k = attempts_of a k \<and> attempts_of a k < limit))"

lemma attempts_of_simps [simp]:
  "attempts_of (AList.update k n a) k' = (if k' = k then n else attempts_of a k')"
  "attempts_of (AList.delete k a) k' = (if k' = k then 0 else attempts_of a k')"
  by (simp_all add: attempts_of_def update_conv' delete_conv')

lemma settle_simps [simp]:
  "ps_seen (settle k p) = List.insert k (ps_seen p)" "ps_attempts (settle k p) = ps_attempts p"
  "ps_calls (settle k p) = ps_calls p"
  "ps_seen (audit dec why i p) = ps_seen p" "ps_attempts (audit dec why i p) = ps_attempts p"
  "ps_calls (audit dec why i p) = ps_calls p"
  by (simp_all add: settle_def audit_def)

lemma job_done_effect:
  "ps_seen (job_done key role issue res p) = List.insert key (ps_seen p)"
  "ps_attempts (job_done key role issue res p) = AList.delete key (ps_attempts p)"
  "ps_calls (job_done key role issue res p) = ps_calls p"
  by (simp_all add: job_done_def Let_def)

lemma job_failed_effect:
  "ps_seen (job_failed limit key issue e p) =
     (if limit \<le> Suc (attempts_of (ps_attempts p) key) then List.insert key (ps_seen p) else ps_seen p)"
  "ps_attempts (job_failed limit key issue e p) =
     (if limit \<le> Suc (attempts_of (ps_attempts p) key)
      then AList.delete key (AList.update key (Suc (attempts_of (ps_attempts p) key)) (ps_attempts p))
      else AList.update key (Suc (attempts_of (ps_attempts p) key)) (ps_attempts p))"
  "ps_calls (job_failed limit key issue e p) = ps_calls p"
  by (simp_all add: job_failed_def Let_def)

text \<open>A job that is handed to the invoker is called once more, and is settled or counted.\<close>

lemma invoke_job_effect:
  obtains (settled) "set (ps_seen (invoke_job env d key p)) = insert key (set (ps_seen p))"
      "ps_calls (invoke_job env d key p) = ps_calls p @ [key]"
      "\<And>k. k \<noteq> key \<Longrightarrow> attempts_of (ps_attempts (invoke_job env d key p)) k = attempts_of (ps_attempts p) k"
  | (counted) "ps_seen (invoke_job env d key p) = ps_seen p"
      "ps_calls (invoke_job env d key p) = ps_calls p @ [key]"
      "Suc (attempts_of (ps_attempts p) key) < de_limit env"
      "\<And>k. attempts_of (ps_attempts (invoke_job env d key p)) k =
        (if k = key then Suc (attempts_of (ps_attempts p) key) else attempts_of (ps_attempts p) k)"
proof -
  obtain w r where "de_invoker env d (ps_world p) = (w, r)" by force
  then have "(\<exists>role issue res. invoke_job env d key p =
        job_done key role issue res (p\<lparr>ps_world := w, ps_calls := ps_calls p @ [key]\<rparr>)) \<or>
      (\<exists>issue e. invoke_job env d key p =
        job_failed (de_limit env) key issue e (p\<lparr>ps_world := w, ps_calls := ps_calls p @ [key]\<rparr>))"
    by (cases r) (auto simp: invoke_job_def Let_def split: json.splits)
  then show thesis
    using that by (cases "de_limit env \<le> Suc (attempts_of (ps_attempts p) key)")
      (auto simp: job_done_effect job_failed_effect not_le)
qed

lemma invoke_job_distinct: "distinct (ps_seen p) \<Longrightarrow> distinct (ps_seen (invoke_job env d key p))"
  by (auto simp: invoke_job_def Let_def job_done_effect job_failed_effect split: prod.splits sum.splits json.splits)

lemma ledger_invoke:
  assumes "ledger (de_limit env) (ps_seen p) (ps_attempts p) (ps_calls p)" "key \<notin> set (ps_seen p)"
  shows "ledger (de_limit env) (ps_seen (invoke_job env d key p)) (ps_attempts (invoke_job env d key p))
    (ps_calls (invoke_job env d key p))"
proof (cases rule: invoke_job_effect [of env d key p])
  case settled
  then show ?thesis using assms unfolding ledger_def by (auto simp: less_Suc_eq_le Suc_le_eq)
next
  case counted
  then show ?thesis using assms unfolding ledger_def by (auto simp: less_Suc_eq_le Suc_le_eq)
qed

definition clean_job :: "json \<Rightarrow> bool" where
  "clean_job j = (case j of
     JObj d \<Rightarrow> dget d ''kind'' \<noteq> JStr ''agent_dispatch'' \<or> hashable (dget d ''agent_role'') | _ \<Rightarrow> False)"

definition dispatch_keys :: "json list \<Rightarrow> string list" where
  "dispatch_keys js = concat (map (\<lambda>j. case j of
     JObj d \<Rightarrow> if dget d ''kind'' = JStr ''agent_dispatch'' then [job_key d] else [] | _ \<Rightarrow> []) js)"

text \<open>What holds between two jobs of a pass.\<close>

definition pass_ok :: "nat \<Rightarrow> string set \<Rightarrow> 'w pass \<Rightarrow> bool" where
  "pass_ok limit K p = (ledger limit (ps_seen p) (ps_attempts p) (ps_calls p) \<and>
     distinct (ps_seen p) \<and> set (ps_seen p) \<subseteq> K)"

lemma drain_job_cases:
  assumes "clean_job j"
  obtains (skip) "drain_job env j p = (p, Inr ())" "set (dispatch_keys [j]) \<subseteq> set (ps_seen p)"
  | (unknown) key why i where "drain_job env j p = (settle key (audit ''block'' why i p), Inr ())"
      "dispatch_keys [j] = [key]" "key \<notin> set (ps_seen p)"
  | (invoked) d key where "drain_job env j p = (invoke_job env d key p, Inr ())"
      "dispatch_keys [j] = [key]" "key \<notin> set (ps_seen p)"
proof -
  obtain d where d: "j = JObj d" using assms by (auto simp: clean_job_def split: json.splits)
  show thesis
  proof (cases "dget d ''kind'' = JStr ''agent_dispatch'' \<and> job_key d \<notin> set (ps_seen p)")
    case False
    then have "drain_job env j p = (p, Inr ())" "set (dispatch_keys [j]) \<subseteq> set (ps_seen p)"
      using d by (auto simp: drain_job_def dispatch_keys_def)
    then show thesis by (rule skip)
  next
    case True
    with assms d have "member_of (dget d ''agent_role'') (map JStr VALID_ROLES) =
        Inr (list_ex (py_eq (dget d ''agent_role'')) (map JStr VALID_ROLES))"
      by (simp add: clean_job_def member_of_def)
    with True d unknown invoked show thesis
      by (cases "list_ex (py_eq (dget d ''agent_role'')) (map JStr VALID_ROLES)")
        (auto simp: drain_job_def dispatch_keys_def)
  qed
qed

lemma ledger_settle: "ledger l seen a calls \<Longrightarrow> ledger l (k # seen) a calls"
  by (simp add: ledger_def)

text \<open>What a pass over jobs with these keys changes: nothing is unsettled, and each of the keys is
  settled or has been tried once more.\<close>

definition advances :: "string list \<Rightarrow> 'w pass \<Rightarrow> 'w pass \<Rightarrow> bool" where
  "advances keys p p' = (set (ps_seen p) \<subseteq> set (ps_seen p') \<and>
    (\<forall>k. count_list (ps_calls p) k \<le> count_list (ps_calls p') k) \<and>
    (\<forall>k \<in> set keys. k \<in> set (ps_seen p') \<or> count_list (ps_calls p) k < count_list (ps_calls p') k))"

lemma advances_trans:
  assumes "advances ks p p1" "advances ls p1 p2" shows "advances (ks @ ls) p p2"
  unfolding advances_def
proof (intro conjI allI ballI)
  show "set (ps_seen p) \<subseteq> set (ps_seen p2)" using assms by (auto simp: advances_def)
  show "count_list (ps_calls p) k \<le> count_list (ps_calls p2) k" for k
    using assms by (meson advances_def le_trans)
  show "k \<in> set (ps_seen p2) \<or> count_list (ps_calls p) k < count_list (ps_calls p2) k"
    if "k \<in> set (ks @ ls)" for k
  proof -
    have "count_list (ps_calls p) k \<le> count_list (ps_calls p1) k" "count_list (ps_calls p1) k \<le> count_list (ps_calls p2) k"
      using assms by (simp_all add: advances_def)
    moreover have "k \<in> set (ps_seen p2) \<or> count_list (ps_calls p) k < count_list (ps_calls p1) k \<or>
        count_list (ps_calls p1) k < count_list (ps_calls p2) k"
      using that assms by (auto simp: advances_def)
    ultimately show ?thesis by linarith
  qed
qed

lemma drain_job_ok:
  assumes "clean_job j" "pass_ok (de_limit env) K p" "set (dispatch_keys [j]) \<subseteq> K" "drain_job env j p = (p', r)"
  shows "r = Inr () \<and> pass_ok (de_limit env) K p' \<and> advances (dispatch_keys [j]) p p'"
  using assms(1)
proof (cases rule: drain_job_cases [of j env p])
  case skip
  with assms show ?thesis by (auto simp: advances_def)
next
  case (unknown key why i)
  with assms show ?thesis by (auto simp: pass_ok_def ledger_settle advances_def)
next
  case (invoked d key)
  with assms(2) have l: "ledger (de_limit env) (ps_seen (invoke_job env d key p)) (ps_attempts (invoke_job env d key p))
      (ps_calls (invoke_job env d key p))" "distinct (ps_seen (invoke_job env d key p))"
    by (simp_all add: pass_ok_def ledger_invoke invoke_job_distinct)
  show ?thesis
    by (cases rule: invoke_job_effect [of env d key p])
      (use l invoked assms in \<open>auto simp: pass_ok_def advances_def\<close>)
qed

lemma drain_jobs_ok:
  assumes "list_all clean_job js" "pass_ok (de_limit env) K p" "set (dispatch_keys js) \<subseteq> K"
    "drain_jobs env js p = (p', r)"
  shows "r = Inr () \<and> pass_ok (de_limit env) K p' \<and> advances (dispatch_keys js) p p'"
  using assms
proof (induction js arbitrary: p)
  case Nil
  then show ?case by (simp add: dispatch_keys_def advances_def)
next
  case (Cons j js)
  have keys: "dispatch_keys (j # js) = dispatch_keys [j] @ dispatch_keys js" by (simp add: dispatch_keys_def)
  obtain p1 r1 where 1: "drain_job env j p = (p1, r1)" by force
  with Cons.prems keys have one: "r1 = Inr ()" "pass_ok (de_limit env) K p1" "advances (dispatch_keys [j]) p p1"
    using drain_job_ok [OF _ _ _ 1, of K] by simp_all
  with Cons.prems 1 have "drain_jobs env js p1 = (p', r)" by simp
  with Cons.IH [of p1] Cons.prems one keys
  have "r = Inr ()" "pass_ok (de_limit env) K p'" "advances (dispatch_keys js) p1 p'" by simp_all
  with advances_trans [OF one(3)] keys show ?case by simp
qed


subsection \<open>A pass of the dispatcher\<close>

text \<open>The lists of a set are its elements, each once.\<close>

definition lists_sets :: "(string list \<Rightarrow> string list) \<Rightarrow> bool" where
  "lists_sets f = (\<forall>xs. distinct xs \<longrightarrow> distinct (f xs) \<and> set (f xs) = set xs)"

definition clean_queue :: "string option \<Rightarrow> bool" where
  "clean_queue q = list_all clean_job (read_jobs q)"

definition queue_keys :: "string option \<Rightarrow> string list" where
  "queue_keys q = dispatch_keys (read_jobs q)"

lemma pass_ok_cong:
  assumes "pass_ok l K p" "set (ps_seen p') = set (ps_seen p)" "distinct (ps_seen p')"
    "ps_attempts p' = ps_attempts p" "ps_calls p' = ps_calls p"
  shows "pass_ok l K p'"
  using assms by (simp add: pass_ok_def ledger_def)

lemma drain_ok:
  assumes "lists_sets (de_listed env)" "clean_queue q" "set (queue_keys q) \<subseteq> K" "finite K" "card K \<le> STATE_CAP"
    and "pass_ok (de_limit env) K (start_pass dp)"
  shows "(\<exists>n. snd (drain env q dp) = Inr n) \<and> pass_ok (de_limit env) K (start_pass (fst (drain env q dp))) \<and>
    advances (queue_keys q) (start_pass dp) (start_pass (fst (drain env q dp)))"
proof -
  obtain p r where p: "drain_jobs env (read_jobs q) (start_pass dp) = (p, r)" by force
  with assms have ok: "r = Inr ()" "pass_ok (de_limit env) K p" "advances (queue_keys q) (start_pass dp) p"
    using drain_jobs_ok [OF _ _ _ p, of K] by (simp_all add: clean_queue_def queue_keys_def)
  let ?dp = "fst (drain env q dp)"
  have listed: "distinct (de_listed env (ps_seen p))" "set (de_listed env (ps_seen p)) = set (ps_seen p)"
    using assms(1) ok(2) by (simp_all add: lists_sets_def pass_ok_def)
  have "length (de_listed env (ps_seen p)) \<le> STATE_CAP"
    using listed ok(2) assms(4,5) card_mono [of K "set (ps_seen p)"] distinct_card [OF listed(1)]
    by (simp add: pass_ok_def)
  then have "dp_state ?dp = Some \<lparr>ds_seen = de_listed env (ps_seen p), ds_attempts = ps_attempts p\<rparr>"
    and c: "dp_calls ?dp = ps_calls p" and n: "snd (drain env q dp) = Inr (ps_dispatched p)"
    using p ok(1) by (simp_all add: drain_def Let_def save_state_def)
  then have s: "set (ps_seen (start_pass ?dp)) = set (ps_seen p)" "distinct (ps_seen (start_pass ?dp))"
    "ps_attempts (start_pass ?dp) = ps_attempts p" "ps_calls (start_pass ?dp) = ps_calls p"
    using listed by (simp_all add: start_pass_def load_state_def)
  with ok(3) have "advances (queue_keys q) (start_pass dp) (start_pass ?dp)"
    by (simp add: advances_def)
  with pass_ok_cong [OF ok(2) s] n show ?thesis by blast
qed

definition fresh_dispatcher :: "'w \<Rightarrow> 'w dispatcher" where
  "fresh_dispatcher w = \<lparr>dp_world = w, dp_state = None, dp_audit = [], dp_baseline = None, dp_calls = []\<rparr>"

lemma pass_ok_fresh: "1 \<le> limit \<Longrightarrow> pass_ok limit K (start_pass (fresh_dispatcher w))"
  by (simp add: pass_ok_def ledger_def start_pass_def load_state_def fresh_dispatcher_def attempts_of_def)

definition all_keys :: "string option list \<Rightarrow> string set" where
  "all_keys qs = set (concat (map queue_keys qs))"

lemma watch_snoc: "watch env (qs @ [q]) dp = fst (drain env q (watch env qs dp))"
  by (simp add: watch_def)

lemma watch_ok:
  assumes "1 \<le> de_limit env" "lists_sets (de_listed env)" "list_all clean_queue qs" "card (all_keys qs) \<le> STATE_CAP"
    "all_keys qs' \<subseteq> all_keys qs" "set qs' \<subseteq> set qs"
  shows "pass_ok (de_limit env) (all_keys qs) (start_pass (watch env qs' (fresh_dispatcher w)))"
  using assms(5,6)
proof (induction qs' rule: rev_induct)
  case Nil
  then show ?case using pass_ok_fresh [OF assms(1)] by (simp add: watch_def)
next
  case (snoc q qs')
  then have "pass_ok (de_limit env) (all_keys qs) (start_pass (watch env qs' (fresh_dispatcher w)))"
    by (simp add: all_keys_def)
  then show ?case
    unfolding watch_snoc using snoc.prems assms
    by (intro conjunct1 [OF conjunct2 [OF drain_ok]]) (auto simp: all_keys_def list_all_iff)
qed

lemma count_all_calls: "ps_calls (start_pass dp) = dp_calls dp"
  by (simp add: start_pass_def Let_def)

text \<open>
  C18. However often the queue is polled, no job is handed to the invoker more than
  \<open>max_attempts\<close> times, if \<open>max_attempts\<close> is at least 1, the order in which a set is listed lists each
  of its elements, every line of the queue is a job whose role is hashable, and the queue has had at
  most \<open>STATE_CAP\<close> keys.
\<close>

theorem calls_bounded:
  assumes "1 \<le> de_limit env" "lists_sets (de_listed env)" "list_all clean_queue qs" "card (all_keys qs) \<le> STATE_CAP"
  shows "count_list (dp_calls (watch env qs (fresh_dispatcher w))) key \<le> de_limit env"
  using watch_ok [OF assms, of qs w] by (simp add: pass_ok_def ledger_def count_all_calls)

lemma watch_settles:
  assumes "1 \<le> de_limit env" "lists_sets (de_listed env)" "list_all clean_queue qs" "card (all_keys qs) \<le> STATE_CAP"
    "all_keys qs' \<subseteq> all_keys qs" "set qs' \<subseteq> set qs" "\<And>q. q \<in> set qs' \<Longrightarrow> key \<in> set (queue_keys q)"
  shows "key \<in> set (ps_seen (start_pass (watch env qs' (fresh_dispatcher w)))) \<or>
    length qs' \<le> count_list (dp_calls (watch env qs' (fresh_dispatcher w))) key"
  using assms(5-7)
proof (induction qs' rule: rev_induct)
  case (snoc q qs')
  let ?dp = "watch env qs' (fresh_dispatcher w)"
  have "pass_ok (de_limit env) (all_keys qs) (start_pass ?dp)"
    using snoc.prems by (intro watch_ok [OF assms(1-4)]) (simp_all add: all_keys_def)
  then have "advances (queue_keys q) (start_pass ?dp) (start_pass (fst (drain env q ?dp)))"
    using snoc.prems assms
    by (intro conjunct2 [OF conjunct2 [OF drain_ok]]) (auto simp: all_keys_def list_all_iff)
  moreover have "key \<in> set (queue_keys q)" using snoc.prems by simp
  moreover have "key \<in> set (ps_seen (start_pass ?dp)) \<or> length qs' \<le> count_list (dp_calls ?dp) key"
    using snoc.prems by (intro snoc.IH) (simp_all add: all_keys_def)
  ultimately show ?case
    unfolding watch_snoc advances_def count_all_calls by fastforce
qed simp

text \<open>
  A job in the queue does not wedge it: after as many passes as there are attempts, its key is
  settled, whether the invoker succeeded, raised every time or was never called.
\<close>

theorem poison_job_settles:
  assumes "1 \<le> de_limit env" "lists_sets (de_listed env)" "list_all clean_queue qs" "card (all_keys qs) \<le> STATE_CAP"
    and "list_all (\<lambda>q. key \<in> set (queue_keys q)) qs" "de_limit env \<le> length qs"
  shows "key \<in> set (ds_seen (load_state (dp_state (watch env qs (fresh_dispatcher w)))))"
proof -
  let ?p = "start_pass (watch env qs (fresh_dispatcher w))"
  have "pass_ok (de_limit env) (all_keys qs) ?p" using assms by (intro watch_ok) auto
  then have "key \<in> set (ps_seen ?p) \<or> count_list (ps_calls ?p) key < de_limit env"
    by (auto simp: pass_ok_def ledger_def)
  moreover have "key \<in> set (ps_seen ?p) \<or> length qs \<le> count_list (ps_calls ?p) key"
    unfolding count_all_calls using assms by (intro watch_settles) (auto simp: list_all_iff)
  ultimately show ?thesis using assms(6) by (auto simp: start_pass_def Let_def)
qed

subsection \<open>One job\<close>

definition good_dispatch :: "dict \<Rightarrow> bool" where
  "good_dispatch d = (dget d ''kind'' = JStr ''agent_dispatch'' \<and> dget d ''agent_role'' \<in> JStr ` set VALID_ROLES)"

lemma good_member: "good_dispatch d \<Longrightarrow> member_of (dget d ''agent_role'') (map JStr VALID_ROLES) = Inr True"
  by (auto simp: good_dispatch_def member_of_def VALID_ROLES_def)

definition succeeds :: "'w dispatch_env \<Rightarrow> bool" where
  "succeeds env = (\<forall>d w. \<exists>w' res. de_invoker env d w = (w', Inr (JObj res)))"

lemma drain_job_success:
  assumes "good_dispatch d" "job_key d \<notin> set (ps_seen p)" "succeeds env"
  shows "\<exists>p'. drain_job env (JObj d) p = (p', Inr ()) \<and> ps_seen p' = job_key d # ps_seen p \<and>
    ps_calls p' = ps_calls p @ [job_key d] \<and>
    ps_ids p' = ps_ids p @ (if truthy (dget d ''issue_id'') then [py_str (dget d ''issue_id'')] else []) \<and>
    ps_dispatched p' = Suc (ps_dispatched p) \<and>
    map ar_decision (ps_audit p') = map ar_decision (ps_audit p) @ [''allow'']"
proof -
  obtain w res where "de_invoker env d (ps_world p) = (w, Inr (JObj res))"
    using assms(3) unfolding succeeds_def by blast
  moreover have "dget d ''kind'' = JStr ''agent_dispatch''" using assms(1) by (simp add: good_dispatch_def)
  ultimately show ?thesis
    using assms(2) good_member [OF assms(1)]
    by (simp add: drain_job_def invoke_job_def job_done_def Let_def settle_def audit_def)
qed

text \<open>
  One line that is JSON but not an object undoes the ledger: the pass raises before it saves its
  state, so a job that was dispatched before that line is dispatched again by every later pass,
  without bound.
\<close>

theorem bad_line_redispatches:
  assumes "read_jobs q = [JObj d, JList []]" "good_dispatch d" "succeeds env"
  shows "dp_calls (watch env (replicate n q) (fresh_dispatcher w)) = replicate n (job_key d) \<and>
    dp_state (watch env (replicate n q) (fresh_dispatcher w)) = None"
proof (induction n)
  case 0
  then show ?case by (simp add: watch_def fresh_dispatcher_def)
next
  case (Suc n)
  let ?dp = "watch env (replicate n q) (fresh_dispatcher w)"
  have rep: "replicate (Suc n) x = replicate n x @ [x]" for x :: 'b by (simp add: replicate_append_same)
  have "ps_seen (start_pass ?dp) = []" using Suc.IH by (simp add: start_pass_def load_state_def)
  then obtain p where "drain_job env (JObj d) (start_pass ?dp) = (p, Inr ())"
    "ps_calls p = ps_calls (start_pass ?dp) @ [job_key d]"
    using drain_job_success [OF assms(2) _ assms(3), of "start_pass ?dp"] by auto
  then show ?case
    using Suc.IH assms(1) unfolding rep watch_snoc
    by (simp add: drain_def drain_job_def count_all_calls)
qed

lemma listed_length: "lists_sets f \<Longrightarrow> distinct xs \<Longrightarrow> length (f xs) = length xs"
  by (metis distinct_card lists_sets_def)

lemma listed_single: "lists_sets f \<Longrightarrow> f [x] = [x]"
proof -
  assume f: "lists_sets f"
  then have "set (f [x]) = {x}" by (simp add: lists_sets_def)
  moreover have "length (f [x]) = 1" using listed_length [OF f, of "[x]"] by simp
  ultimately show ?thesis by (cases "f [x]") auto
qed

text \<open>A queue whose only job succeeds: what one pass leaves, and that the next pass skips it.\<close>

lemma drain_success:
  assumes "drain_jobs env (read_jobs q) (start_pass dp) = (p, Inr ())" "length (de_listed env (ps_seen p)) \<le> STATE_CAP"
  shows "dp_state (fst (drain env q dp)) = Some \<lparr>ds_seen = de_listed env (ps_seen p), ds_attempts = ps_attempts p\<rparr>"
    and "ps_ids p \<noteq> [] \<Longrightarrow> dp_baseline (fst (drain env q dp)) = Some (write_baseline (map JStr (ps_ids p)))"
    and "dp_calls (fst (drain env q dp)) = ps_calls p"
  using assms by (simp_all add: drain_def Let_def save_state_def)

lemma first_pass:
  fixes w :: 'w
  assumes "lists_sets (de_listed env)" "succeeds env" "read_jobs q = [JObj d]" "good_dispatch d"
  defines "dp \<equiv> fst (drain env q (fresh_dispatcher w))"
  shows "ps_seen (start_pass dp) = [job_key d]"
    and "dp_calls dp = [job_key d]" and "snd (drain env q (fresh_dispatcher w)) = Inr 1"
    and "map ar_decision (dp_audit dp) = [''allow'']"
    and "truthy (dget d ''issue_id'') \<Longrightarrow> dp_baseline dp = Some (write_baseline [JStr (py_str (dget d ''issue_id''))])"
proof -
  let ?dp = "fresh_dispatcher w"
  have s: "ps_seen (start_pass ?dp) = []" "ps_ids (start_pass ?dp) = []" "ps_calls (start_pass ?dp) = []"
    "ps_dispatched (start_pass ?dp) = 0" "ps_audit (start_pass ?dp) = []"
    by (simp_all add: start_pass_def load_state_def fresh_dispatcher_def)
  then obtain p where p: "drain_job env (JObj d) (start_pass ?dp) = (p, Inr ())" "ps_seen p = [job_key d]"
    "ps_calls p = [job_key d]" "ps_dispatched p = 1" "map ar_decision (ps_audit p) = [''allow'']"
    "ps_ids p = (if truthy (dget d ''issue_id'') then [py_str (dget d ''issue_id'')] else [])"
    using drain_job_success [OF assms(4) _ assms(2), of "start_pass ?dp"] by auto
  then have j: "drain_jobs env (read_jobs q) (start_pass ?dp) = (p, Inr ())" using assms(3) by simp
  have c: "length (de_listed env (ps_seen p)) \<le> STATE_CAP"
    by (simp add: p(2) listed_single [OF assms(1)] STATE_CAP_def)
  note d = drain_success [OF j c, folded dp_def]
  show "ps_seen (start_pass dp) = [job_key d]"
    using d(1) by (simp add: p(2) listed_single [OF assms(1)] start_pass_def load_state_def)
  show "dp_calls dp = [job_key d]" using d(3) p(3) by simp
  show "snd (drain env q (fresh_dispatcher w)) = Inr 1" "map ar_decision (dp_audit dp) = [''allow'']"
    using j p by (simp_all add: drain_def Let_def dp_def)
  show "truthy (dget d ''issue_id'') \<Longrightarrow> dp_baseline dp = Some (write_baseline [JStr (py_str (dget d ''issue_id''))])"
    using d(2) p(6) by simp
qed

text \<open>
  The baseline of a pass replaces the one before: an item dispatched by an earlier pass is no
  longer required once a later pass dispatches another.
\<close>

theorem baseline_forgets:
  assumes "lists_sets (de_listed env)" "succeeds env" "read_jobs q1 = [JObj d1]" "read_jobs q2 = [JObj d1, JObj d2]"
    and "good_dispatch d1" "good_dispatch d2" "job_key d1 \<noteq> job_key d2"
    and "dget d1 ''issue_id'' = JStr i1" "dget d2 ''issue_id'' = JStr i2" "i1 \<noteq> []" "i2 \<noteq> []"
  shows "dp_baseline (watch env [q1] (fresh_dispatcher w)) = Some (write_baseline [JStr i1]) \<and>
    dp_baseline (watch env [q1, q2] (fresh_dispatcher w)) = Some (write_baseline [JStr i2])"
proof -
  let ?dp = "fst (drain env q1 (fresh_dispatcher w))"
  have one: "ps_seen (start_pass ?dp) = [job_key d1]" "dp_baseline ?dp = Some (write_baseline [JStr i1])"
    using first_pass [OF assms(1-3,5)] assms(8,10) by simp_all
  have "drain_job env (JObj d1) (start_pass ?dp) = (start_pass ?dp, Inr ())"
    using one(1) assms(5) by (simp add: drain_job_def good_dispatch_def)
  moreover obtain p where p: "drain_job env (JObj d2) (start_pass ?dp) = (p, Inr ())"
    "ps_seen p = [job_key d2, job_key d1]" "ps_ids p = [i2]"
    using drain_job_success [OF assms(6) _ assms(2), of "start_pass ?dp"] one(1) assms(7,9,11)
    by (auto simp: start_pass_def Let_def)
  ultimately have j: "drain_jobs env (read_jobs q2) (start_pass ?dp) = (p, Inr ())" using assms(4) by simp
  have "length (de_listed env (ps_seen p)) \<le> STATE_CAP"
    using p(2) assms(1,7) by (simp add: listed_length STATE_CAP_def)
  from drain_success(2) [OF j this] p(3) one(2) show ?thesis by (simp add: watch_def)
qed

lemma ungoverned_invoker:
  assumes "ae_exec ae" "governed_cwd_ok (ae_settings ae) = Inr False"
  shows "\<exists>w' res. default_invoker ae d w = (w', Inr (JObj res))"
  using assms by (simp add: default_invoker_def exec_claude_def Let_def split: prod.splits)

text \<open>
  With execution on and a checkout that is not governed, no agent runs, yet the job counts as
  dispatched: the pass returns 1, audits it as allowed and no later pass tries it again.
\<close>

theorem refused_exec_settles:
  assumes "read_jobs q = [JObj d]" "good_dispatch d" "de_invoker env = default_invoker ae" "ae_exec ae"
    and "governed_cwd_ok (ae_settings ae) = Inr False" "lists_sets (de_listed env)"
  shows "snd (drain env q (fresh_dispatcher w)) = Inr 1 \<and>
    map ar_decision (dp_audit (fst (drain env q (fresh_dispatcher w)))) = [''allow''] \<and>
    dp_calls (watch env [q, q] (fresh_dispatcher w)) = [job_key d]"
proof -
  let ?dp = "fst (drain env q (fresh_dispatcher w))"
  have "succeeds env" using ungoverned_invoker [OF assms(4,5)] assms(3) by (simp add: succeeds_def)
  note f = first_pass [OF assms(6) this assms(1,2), of w]
  from f(1) have "drain_jobs env (read_jobs q) (start_pass ?dp) = (start_pass ?dp, Inr ())"
    using assms(1,2) by (simp add: drain_job_def good_dispatch_def)
  then have "dp_calls (fst (drain env q ?dp)) = [job_key d]"
    using f(2) by (simp add: drain_def Let_def count_all_calls) (simp add: start_pass_def Let_def)
  with f show ?thesis by (simp add: watch_def)
qed

text \<open>
  Without the switch for execution, or in a checkout that is not governed, the default invoker
  runs no agent: what the agent would have done makes no difference.
\<close>

theorem agents_need_governance:
  assumes "\<not> ae_exec ae \<or> governed_cwd_ok (ae_settings ae) \<noteq> Inr True"
  shows "default_invoker (ae\<lparr>ae_claude := spawn\<rparr>) = default_invoker ae"
  using assms by (auto simp: default_invoker_def exec_claude_def plane_comment_def Let_def fun_eq_iff
      split: prod.splits sum.splits bool.splits)


subsection \<open>The queue that the receiver writes\<close>

definition good_job :: "json \<Rightarrow> bool" where
  "good_job j = (is_dict j \<and> wf_json j \<and> float_free j)"

definition job_line :: "json \<Rightarrow> string" where
  "job_line j = dumps_spaced True j @ [CHR 0x0A]"

lemma read_jobs_Some: "read_jobs (Some t) = concat (map read_line (split_on line_break t))"
  by (simp add: read_jobs_def)

lemma written_line:
  assumes "good_job j"
  shows "list_all (\<lambda>c. \<not> line_break c) (dumps_spaced True j)" and "read_line (dumps_spaced True j) = [j]"
proof -
  show "list_all (\<lambda>c. \<not> line_break c) (dumps_spaced True j)"
    using dumps_spaced_printable [of j] printable_no_break assms by (auto simp: good_job_def list_all_iff)
  have "trimmed (dumps_spaced True j)" using assms by (simp add: good_job_def dumps_dict_trimmed)
  then show "read_line (dumps_spaced True j) = [j]"
    using assms loads_dumps_spaced [of j True]
    by (simp add: read_line_def Let_def strip_trimmed good_job_def) (simp add: trimmed_def)
qed

lemma read_written_line:
  assumes "good_job j"
  shows "read_jobs (Some (job_line j @ t)) = j # read_jobs (Some t)"
proof -
  have "line_break CHR 0x0A" by (simp add: line_break_def code_def)
  with written_line(1) [OF assms]
  have "split_on line_break (dumps_spaced True j @ CHR 0x0A # t) = dumps_spaced True j # split_on line_break t"
    by (rule split_on_line(2))
  with written_line(2) [OF assms] show ?thesis by (simp add: read_jobs_Some job_line_def)
qed

interpretation job_file: line_queue job_line "\<lambda>t. read_jobs (Some t)" good_job
proof
  show "read_jobs (Some []) = []"
    by (simp add: read_jobs_Some split_on_simps read_line_def strip_def)
qed (rule read_written_line)

lemma queue_text_lines: "queue_text jobs = concat (map job_line (map JObj jobs))"
  by (simp add: queue_text_def job_line_def comp_def)

lemma good_jobs_list: "list_all (\<lambda>j. good_job (JObj j)) jobs \<Longrightarrow> list_all good_job (map JObj jobs)"
  by (simp add: list_all_iff)

lemma read_queue_text: "list_all (\<lambda>j. good_job (JObj j)) jobs \<Longrightarrow> read_jobs (Some (queue_text jobs)) = map JObj jobs"
  unfolding queue_text_lines by (intro job_file.jobs_lines good_jobs_list)

text \<open>
  The queue that the receiver appends to reads back, in the dispatcher, as the jobs that were
  written, and what was there before an append stays at its front.
\<close>

theorem queue_roundtrip:
  assumes "list_all (\<lambda>j. good_job (JObj j)) (jobs @ later)"
  shows "read_jobs (Some (queue_text (jobs @ later))) = map JObj jobs @ map JObj later \<and>
    take (length jobs) (read_jobs (Some (queue_text jobs @ t))) = map JObj jobs"
proof -
  have "take (length (map JObj jobs)) (read_jobs (Some (concat (map job_line (map JObj jobs)) @ t))) = map JObj jobs"
    using assms by (intro job_file.jobs_grown good_jobs_list) simp
  with read_queue_text [OF assms] show ?thesis by (simp add: queue_text_lines)
qed

subsection \<open>Witnesses\<close>

definition sample_job :: "string \<Rightarrow> dict" where
  "sample_job i = dispatch_job ''verifier'' (JStr i) (JStr ''In-Verification'') JNull ''d'' JNull"

lemma sample_job_good: "good_job (JObj (sample_job i))" "good_dispatch (sample_job i)"
  by (simp_all add: sample_job_def dispatch_job_def good_job_def good_dispatch_def VALID_ROLES_def)

definition sample_queue :: "string list \<Rightarrow> string option" where
  "sample_queue is = Some (queue_text (map sample_job is))"

lemma read_sample: "read_jobs (sample_queue is) = map (\<lambda>i. JObj (sample_job i)) is"
  unfolding sample_queue_def using read_queue_text [of "map sample_job is"]
  by (simp add: list_all_iff sample_job_good comp_def)

definition sample_dispatch :: "(string + json) \<Rightarrow> unit dispatch_env" where
  "sample_dispatch r = \<lparr>de_invoker = (\<lambda>d w. (w, r)), de_listed = (\<lambda>xs. xs), de_wording = (\<lambda>_. []), de_limit = MAX_ATTEMPTS\<rparr>"

lemma sample_dispatch_simps: "de_limit (sample_dispatch r) = 3" "lists_sets (de_listed (sample_dispatch r))"
  "succeeds (sample_dispatch (Inr (JObj [])))"
  by (simp_all add: sample_dispatch_def MAX_ATTEMPTS_def lists_sets_def succeeds_def)

lemma sample_keys: "queue_keys (sample_queue is) = map (\<lambda>i. job_key (sample_job i)) is"
proof -
  have "dispatch_keys [JObj (sample_job i)] = [job_key (sample_job i)]" for i
    using sample_job_good(2) [of i] by (simp add: dispatch_keys_def good_dispatch_def)
  then show ?thesis by (simp add: queue_keys_def read_sample dispatch_keys_def comp_def)
qed

lemma sample_clean: "clean_queue (sample_queue is)"
  by (simp add: clean_queue_def read_sample clean_job_def list_all_iff sample_job_def dispatch_job_def)

lemma sample_all_keys: "card (all_keys (replicate n (sample_queue [''7'']))) \<le> STATE_CAP"
proof -
  have "all_keys (replicate n (sample_queue [''7''])) \<subseteq> {job_key (sample_job ''7'')}"
    by (auto simp: all_keys_def sample_keys)
  from card_mono [OF _ this] show ?thesis by (simp add: STATE_CAP_def)
qed

theorem calls_bounded_witness:
  "count_list (dp_calls (watch (sample_dispatch (Inl ''boom'')) (replicate 5 (sample_queue [''7'']))
     (fresh_dispatcher ()))) (job_key (sample_job ''7'')) \<le> 3"
  using calls_bounded [of "sample_dispatch (Inl ''boom'')" "replicate 5 (sample_queue [''7''])"
      "()" "job_key (sample_job ''7'')"] sample_all_keys [of 5]
  by (simp add: sample_dispatch_simps sample_clean list_all_iff)

theorem poison_job_settles_witness:
  "job_key (sample_job ''7'') \<in> set (ds_seen (load_state (dp_state (watch (sample_dispatch (Inl ''boom''))
     (replicate 5 (sample_queue [''7''])) (fresh_dispatcher ())))))"
  using poison_job_settles [of "sample_dispatch (Inl ''boom'')" "replicate 5 (sample_queue [''7''])"
      "job_key (sample_job ''7'')" "()"] sample_all_keys [of 5]
  by (simp add: sample_dispatch_simps sample_clean sample_keys list_all_iff)

theorem queue_roundtrip_witness:
  "read_jobs (Some (queue_text ([sample_job ''7''] @ [sample_job ''8'']))) = [JObj (sample_job ''7''), JObj (sample_job ''8'')]"
  using queue_roundtrip [of "[sample_job ''7'']" "[sample_job ''8'']"] by (simp add: sample_job_good)

theorem bad_line_redispatches_witness:
  "dp_calls (watch (sample_dispatch (Inr (JObj []))) (replicate 9 (Some (queue_text [sample_job ''7''] @ ''[]'' @ [CHR 0x0A])))
     (fresh_dispatcher ())) = replicate 9 (job_key (sample_job ''7''))"
proof -
  have "read_jobs (Some (''[]'' @ [CHR 0x0A])) = [JList []]"
    by code_simp
  then have "read_jobs (Some (queue_text [sample_job ''7''] @ ''[]'' @ [CHR 0x0A])) = [JObj (sample_job ''7''), JList []]"
    using job_file.jobs_append [of "[JObj (sample_job ''7'')]" "''[]'' @ [CHR 0x0A]"] sample_job_good
    by (simp add: queue_text_lines)
  from bad_line_redispatches [OF this sample_job_good(2) sample_dispatch_simps(3)] show ?thesis by simp
qed

definition sample_agent :: "string option \<Rightarrow> unit agent_env" where
  "sample_agent settings = \<lparr>ae_exec = True, ae_no_plane = True, ae_settings = settings,
     ae_comment = (\<lambda>i b w. (w, True)), ae_claude = (\<lambda>t w. (w, ClaudeExit 0)), ae_wording = (\<lambda>_. [])\<rparr>"

theorem refused_exec_settles_witness:
  "dp_calls (watch (sample_dispatch (Inl [])\<lparr>de_invoker := default_invoker (sample_agent None)\<rparr>)
     [sample_queue [''7''], sample_queue [''7'']] (fresh_dispatcher ())) = [job_key (sample_job ''7'')]"
  using refused_exec_settles [of "sample_queue [''7'']" "sample_job ''7''"
      "sample_dispatch (Inl [])\<lparr>de_invoker := default_invoker (sample_agent None)\<rparr>" "sample_agent None" "()"]
  by (simp add: read_sample sample_job_good sample_agent_def governed_cwd_ok_def) (simp add: sample_dispatch_def lists_sets_def)

theorem agents_need_governance_witness:
  "default_invoker ((sample_agent None)\<lparr>ae_claude := \<lambda>t w. (w, ClaudeTimeout)\<rparr>) (sample_job ''7'') () =
     default_invoker (sample_agent None) (sample_job ''7'') ()"
proof -
  have "governed_cwd_ok (ae_settings (sample_agent None)) \<noteq> Inr True"
    by (simp add: sample_agent_def governed_cwd_ok_def)
  from agents_need_governance [OF disjI2 [OF this]] show ?thesis by simp
qed
end
