(* ===== verification/Dispatcher_Vectors.thy ===== *)
theory Dispatcher_Vectors
  imports Dispatcher_Properties
begin

section \<open>Two keys\<close>

text \<open>The keys of two sample jobs, evaluated, and the loss of an item from the baseline with them.\<close>

lemma sample_key_7: "job_key (sample_job ''7'') = ''ed689f8df48ce488''"
  by code_simp

lemma sample_key_8: "job_key (sample_job ''8'') = ''0e94f3615548ed1a''"
  by code_simp

lemma sample_keys_differ: "job_key (sample_job ''7'') \<noteq> job_key (sample_job ''8'')"
  by (simp add: sample_key_7 sample_key_8)

theorem baseline_forgets_witness:
  "dp_baseline (watch (sample_dispatch (Inr (JObj []))) [sample_queue [''7''], sample_queue [''7'', ''8'']]
     (fresh_dispatcher ())) = Some (write_baseline [JStr ''8''])"
  using baseline_forgets [OF sample_dispatch_simps(2,3) _ _ sample_job_good(2) sample_job_good(2) sample_keys_differ,
      of "sample_queue [''7'']" "sample_queue [''7'', ''8'']" "''7''" "''8''" "()"]
  by (simp add: read_sample) (simp add: sample_job_def dispatch_job_def)

end
