(* ===== verification/Plane_Loop.thy ===== *)
theory Plane_Loop
  imports Plane_States Run_Loop
begin

section \<open>The loop that drives the board\<close>

text \<open>
  The board operations of \<open>plane-integration/plane_client.py\<close> and the commands of
  \<open>plane-integration/the_loop.py\<close>. The Plane server is a parameter: what it answers to a read, an
  update and a comment, on a world of its own, and the states it has. A session keeps, beside
  that world, the list of the requests sent, in order; a request that fails has been sent.

  Python's dash in the texts of the comments is written as a hyphen, because the model's
  characters are 8-bit.
\<close>

subsection \<open>Requests\<close>

datatype request = GetIssue string | PatchState string string | PostComment string string

record 'w plane =
  pl_states :: "(string \<times> string) list"
  pl_get :: "string \<Rightarrow> 'w \<Rightarrow> 'w \<times> (board_error + json)"
  pl_patch :: "string \<Rightarrow> string \<Rightarrow> 'w \<Rightarrow> 'w \<times> (board_error + json)"
  pl_post :: "string \<Rightarrow> string \<Rightarrow> 'w \<Rightarrow> 'w \<times> (board_error + json)"

record 'w board =
  bd_world :: 'w
  bd_sent :: "request list"

type_synonym ('w, 'a) board_op = "'w board \<Rightarrow> 'w board \<times> (board_error + 'a)"

definition send :: "request \<Rightarrow> ('w \<Rightarrow> 'w \<times> (board_error + json)) \<Rightarrow> ('w, json) board_op" where
  "send q f b = (case f (bd_world b) of (w, r) \<Rightarrow> (\<lparr>bd_world = w, bd_sent = bd_sent b @ [q]\<rparr>, r))"

definition pure_op :: "board_error + 'a \<Rightarrow> ('w, 'a) board_op" where
  "pure_op r b = (b, r)"

definition lift_py :: "'a py \<Rightarrow> board_error + 'a" where
  "lift_py r = (case r of Inl e \<Rightarrow> Inl (BoardExc e) | Inr a \<Rightarrow> Inr a)"

definition get_issue :: "'w plane \<Rightarrow> string \<Rightarrow> ('w, json) board_op" where
  "get_issue pl i = send (GetIssue i) (pl_get pl i)"

text \<open>The two dictionaries built from the states of the board: a later row wins.\<close>

definition id2state :: "'w plane \<Rightarrow> json \<Rightarrow> string option py" where
  "id2state pl v = (if \<not> hashable v then Inl TypeError
     else case v of JStr u \<Rightarrow> Inr (map_of (rev (map (\<lambda>(n, i). (i, n)) (pl_states pl))) u) | _ \<Rightarrow> Inr None)"

definition state_id :: "'w plane \<Rightarrow> string \<Rightarrow> board_error + string" where
  "state_id pl name = (case map_of (rev (pl_states pl)) name of
     None \<Rightarrow> Inl StateMissing | Some i \<Rightarrow> if i = [] then Inl StateMissing else Inr i)"

definition current_state :: "'w plane \<Rightarrow> string \<Rightarrow> ('w, string option) board_op" where
  "current_state pl i = then_do (get_issue pl i)
     (\<lambda>r. pure_op (lift_py (py_bind (obj_get r ''state'') (id2state pl))))"

definition read_back :: "'w plane \<Rightarrow> string \<Rightarrow> json \<Rightarrow> board_error + json" where
  "read_back pl to r = (case r of
     JObj d \<Rightarrow> if truthy (dget d ''state'')
       then (case id2state pl (dget d ''state'') of
           Inl e \<Rightarrow> Inl (BoardExc e)
         | Inr s \<Rightarrow> if s \<noteq> Some to then Inl BoardError else Inr r)
       else Inr r
   | _ \<Rightarrow> Inr r)"

definition transition :: "'w plane \<Rightarrow> environment \<Rightarrow> string \<Rightarrow> string \<Rightarrow> string \<Rightarrow> ('w, json) board_op" where
  "transition pl env i to role =
     then_do (pure_op (check_actor env role to)) (\<lambda>_.
     then_do (current_state pl i) (\<lambda>cur.
       if cur = None then pure_op (Inl BoardError)
       else if \<not> legal_edge cur to then pure_op (Inl PermissionError)
       else then_do (pure_op (state_id pl to)) (\<lambda>sid.
            then_do (send (PatchState i sid) (pl_patch pl i sid)) (\<lambda>r. pure_op (read_back pl to r)))))"

subsection \<open>Comments\<close>

definition escape_char :: "char \<Rightarrow> string" where
  "escape_char c = (if c = CHR ''&'' then ''&amp;'' else if c = CHR ''<'' then ''&lt;''
     else if c = CHR ''>'' then ''&gt;'' else if c = CHR 0x22 then ''&quot;''
     else if c = CHR 0x27 then ''&#x27;'' else [c])"

definition html_escape :: "string \<Rightarrow> string" where
  "html_escape s = concat (map escape_char s)"

definition comment :: "'w plane \<Rightarrow> string \<Rightarrow> string \<Rightarrow> bool \<Rightarrow> ('w, json) board_op" where
  "comment pl i body escape = (let payload = (if escape then html_escape body else body) in
     send (PostComment i payload) (pl_post pl i payload))"

definition evidence_html :: "string \<Rightarrow> json \<Rightarrow> json \<Rightarrow> json \<Rightarrow> json \<Rightarrow> string" where
  "evidence_html role tf tn h at =
     ''<p><b>Evidence_Record</b> (actor: '' @ html_escape role @ '')</p><ul>'' @
     ''<li><code>test_file</code>: '' @ html_escape (py_str tf) @ ''</li><li><code>test_name</code>: '' @
     html_escape (py_str tn) @ ''</li>'' @
     ''<li><code>output_hash</code>: '' @ html_escape (py_str h) @ ''</li><li><code>collected_at</code>: '' @
     html_escape (py_str at) @ ''</li></ul>''"

definition post_evidence ::
    "'w plane \<Rightarrow> string \<Rightarrow> json \<Rightarrow> json \<Rightarrow> json \<Rightarrow> json \<Rightarrow> string \<Rightarrow> ('w, json) board_op" where
  "post_evidence pl i tf tn h at role =
     (let body = evidence_html role tf tn h at in send (PostComment i body) (pl_post pl i body))"

subsection \<open>The commands\<close>

definition gate :: "'w plane \<Rightarrow> environment \<Rightarrow> string \<Rightarrow> string \<Rightarrow> string \<Rightarrow> ('w, string option) board_op" where
  "gate pl env i to role =
     then_do (pure_op (check_actor env role to)) (\<lambda>_.
     then_do (current_state pl i) (\<lambda>cur.
       pure_op (if \<not> legal_edge cur to then Inl PermissionError else Inr cur)))"

definition advance_item :: "'w plane \<Rightarrow> environment \<Rightarrow> string \<Rightarrow> string \<Rightarrow> string \<Rightarrow> ('w, json) board_op" where
  "advance_item pl env i to role = transition pl env i to role"

definition note_and_move ::
    "'w plane \<Rightarrow> environment \<Rightarrow> string \<Rightarrow> string \<Rightarrow> string \<Rightarrow> ('w, json) board_op \<Rightarrow> ('w, json) board_op" where
  "note_and_move pl env i to role note =
     then_do (gate pl env i to role) (\<lambda>_. then_do note (\<lambda>_. transition pl env i to role))"

definition prove ::
    "'w plane \<Rightarrow> environment \<Rightarrow> utc_instant \<Rightarrow> string \<Rightarrow> string \<Rightarrow> string \<Rightarrow> string \<Rightarrow> ('w, json) board_op" where
  "prove pl env now i tf tn h =
     (let record = [(''test_file'', JStr tf), (''test_name'', JStr tn), (''output_hash'', JStr h),
            (''collected_at'', JStr (isoformat now))] in
      if \<not> validate_evidence_record (JObj record) then pure_op (Inl (SystemExit 2))
      else note_and_move pl env i ''Done'' ''verifier''
        (post_evidence pl i (JStr tf) (JStr tn) (JStr h) (JStr (isoformat now)) ''verifier''))"

definition handoff_text :: "string \<Rightarrow> string" where
  "handoff_text reason = ''HANDOFF - reason: '' @ reason @ '' (a human picks this up; not Done)''"

definition blocked_text :: "string \<Rightarrow> string" where
  "blocked_text reason = ''BLOCKED - reason: '' @ reason"

definition failed_text :: "string \<Rightarrow> string" where
  "failed_text reason = ''FAILED verification - reason: '' @ reason"

definition gate_text :: "string \<Rightarrow> string" where
  "gate_text reason = ''<p><b>HANDOFF</b> - evidence gate: '' @ reason @ ''</p>''"

definition handoff_item :: "'w plane \<Rightarrow> environment \<Rightarrow> string \<Rightarrow> string \<Rightarrow> string \<Rightarrow> ('w, json) board_op" where
  "handoff_item pl env i reason role = note_and_move pl env i ''HANDOFF'' role
     (comment pl i (handoff_text reason) True)"

definition block_item :: "'w plane \<Rightarrow> environment \<Rightarrow> string \<Rightarrow> string \<Rightarrow> string \<Rightarrow> ('w, json) board_op" where
  "block_item pl env i reason role = note_and_move pl env i ''Blocked'' role
     (comment pl i (blocked_text reason) True)"

definition fail_item :: "'w plane \<Rightarrow> environment \<Rightarrow> string \<Rightarrow> string \<Rightarrow> string \<Rightarrow> ('w, json) board_op" where
  "fail_item pl env i reason role = note_and_move pl env i ''Failed'' role
     (comment pl i (failed_text reason) True)"

text \<open>\<open>evidence[k]\<close>, and the programmatic gate. The wording of a decision is an argument.\<close>

definition index_key :: "json \<Rightarrow> string \<Rightarrow> json py" where
  "index_key v k = (case v of
     JObj d \<Rightarrow> (case map_of d k of None \<Rightarrow> Inl KeyError | Some x \<Rightarrow> Inr x) | _ \<Rightarrow> Inl TypeError)"

definition post_record :: "'w plane \<Rightarrow> string \<Rightarrow> json \<Rightarrow> ('w, json) board_op" where
  "post_record pl i evidence =
     then_do (pure_op (lift_py (py_map (index_key evidence)
         [''test_file'', ''test_name'', ''output_hash'', ''collected_at'']))) (\<lambda>vs.
       post_evidence pl i (vs ! 0) (vs ! 1) (vs ! 2) (vs ! 3) ''verifier'')"

definition gated_prove ::
    "'w plane \<Rightarrow> environment \<Rightarrow> loop_env \<Rightarrow> (advance \<Rightarrow> string) \<Rightarrow> string \<Rightarrow> advance_request \<Rightarrow> state_file \<Rightarrow>
      'w board \<Rightarrow> ('w board \<times> state_file) \<times> (board_error + advance)" where
  "gated_prove pl env lenv wording i q file b =
     (case gated_advance lenv None file q of
        Inl e \<Rightarrow> ((b, file), Inl (BoardExc e))
      | Inr (decision, file') \<Rightarrow>
          (case (case la_action decision of
               Advance \<Rightarrow> note_and_move pl env i ''Done'' ''verifier'' (post_record pl i (rq_evidence q)) b
             | HandOff \<Rightarrow> note_and_move pl env i ''HANDOFF'' ''verifier''
                 (comment pl i (gate_text (wording decision)) True) b
             | SelfHeal \<Rightarrow> (b, Inr JNull)) of
            (b', Inl e) \<Rightarrow> ((b', file'), Inl e)
          | (b', Inr _) \<Rightarrow> ((b', file'), Inr decision)))"

subsection \<open>The next item\<close>

definition ACTIONABLE_ORDER :: "string list" where
  "ACTIONABLE_ORDER = [''Agent-Triaged'', ''Spec-Compiling'', ''Plan-Approved'', ''Agent-Executing'',
     ''In-Verification'']"

definition NEXT_STEP :: "(string \<times> string \<times> string) list" where
  "NEXT_STEP =
     [(''Backlog'', ''Agent-Triaged'', ''initializer''),
      (''Agent-Triaged'', ''Spec-Compiling'', ''initializer''),
      (''Spec-Compiling'', ''Spec-Verified'', ''initializer''),
      (''Spec-Verified'', ''Plan-Approved'', ''human''),
      (''Plan-Approved'', ''Agent-Executing'', ''implementer''),
      (''Agent-Executing'', ''In-Verification'', ''verifier''),
      (''In-Verification'', ''Human-Review'', ''verifier''),
      (''Human-Review'', ''Done'', ''verifier'')]"

definition item_state :: "'w plane \<Rightarrow> json \<Rightarrow> (string option \<times> dict) py" where
  "item_state pl i = (case i of
     JObj d \<Rightarrow> py_bind (id2state pl (dget d ''state'')) (\<lambda>s. Inr (s, d)) | _ \<Rightarrow> Inl AttributeError)"

text \<open>The order is by the index of the state and then by the sequence id; items of one state
  are compared by their sequence ids, so a state whose ids do not compare raises.\<close>

definition ranked :: "(string option \<times> dict) list \<Rightarrow> (string \<times> dict) list py" where
  "ranked its = py_bind (py_map (\<lambda>st. py_bind
       (py_sort_by (\<lambda>(s, d). dget_or d ''sequence_id'' (JInt 0)) (map (\<lambda>(s, d). (st, d)) (filter (\<lambda>(s, d). s = Some st) its)))
       Inr) ACTIONABLE_ORDER) (\<lambda>gs. Inr (concat gs))"

definition next_item :: "'w plane \<Rightarrow> json list \<Rightarrow> json py" where
  "next_item pl items =
     py_bind (py_map (item_state pl) items) (\<lambda>its. py_bind (ranked its) (\<lambda>cand. case cand of
        [] \<Rightarrow> Inr (JObj [(''actionable'', JNull)])
      | (st, d) # _ \<Rightarrow> (case map_of d ''id'' of
            None \<Rightarrow> Inl KeyError
          | Some v \<Rightarrow> (case map_of NEXT_STEP st of
                None \<Rightarrow> Inr (JObj [(''issue_id'', v), (''name'', dget d ''name''), (''state'', JStr st),
                  (''next_state'', JNull), (''next_role'', JNull)])
              | Some (nxt, role) \<Rightarrow> Inr (JObj ([(''issue_id'', v), (''name'', dget d ''name''), (''state'', JStr st),
                  (''next_state'', JStr nxt), (''next_role'', JStr role)] @
                  (if role = ''human'' then [(''awaiting'', JStr ''human'')] else [])))))))"

end
