(* ===== verification/Agent_Consumer.thy ===== *)
theory Agent_Consumer
  imports Plane_Loop Dispatcher_Properties
begin

section \<open>The consumer with a committed offset\<close>

text \<open>
  \<open>plane-integration/agent_consumer.py\<close>: the other reader of the queue. It keeps the number of
  lines that are settled, reads the board before it acts and starts a command whose environment
  carries the secret of its own role only. The board is that of \<open>Plane_Loop\<close>; the command is an
  argument that acts on the board's world. The offset file is absent or was written by the
  consumer; a missing file is offset 0.

  Besides what the program keeps, a session lists the settled jobs with their line numbers and
  the environments of the commands that were started.
\<close>

text \<open>The lines that end in a newline.\<close>

definition complete_lines :: "string \<Rightarrow> string list" where
  "complete_lines raw = (let lines = splitlines raw in
     take (if endswith raw [CHR 0x0A] then length lines else length lines - 1) lines)"

record 'w consumer =
  cn_board :: "'w board"
  cn_offset :: nat
  cn_settled :: "(nat \<times> dict) list"
  cn_runs :: "environment list"

record 'w consumer_env =
  ce_plane :: "'w plane"
  ce_environ :: environment
  ce_command :: "(environment \<Rightarrow> 'w \<Rightarrow> 'w) option"

definition commit_offset :: "'w consumer \<Rightarrow> 'w consumer" where
  "commit_offset cn = cn\<lparr>cn_offset := Suc (cn_offset cn)\<rparr>"

text \<open>The environment of the command. Only strings may be values, and a role must be hashable.\<close>

definition str_or_empty :: "json \<Rightarrow> string py" where
  "str_or_empty v = (if \<not> truthy v then Inr [] else case v of JStr s \<Rightarrow> Inr s | _ \<Rightarrow> Inl TypeError)"

definition without_secrets :: "environment \<Rightarrow> environment" where
  "without_secrets env k = (if k \<in> snd ` set ROLE_SECRET_ENV then None else env k)"

definition own_secret :: "environment \<Rightarrow> json \<Rightarrow> environment py" where
  "own_secret env role =
     (if \<not> hashable role then Inl TypeError
      else Inr (case role of
          JStr r \<Rightarrow> (case map_of ROLE_SECRET_ENV r of
              None \<Rightarrow> without_secrets env
            | Some senv \<Rightarrow> (case env senv of
                  None \<Rightarrow> without_secrets env
                | Some v \<Rightarrow> if v = [] then without_secrets env else (without_secrets env)(senv := Some v)))
        | _ \<Rightarrow> without_secrets env))"

definition child_env :: "environment \<Rightarrow> json \<Rightarrow> json \<Rightarrow> string option \<Rightarrow> json \<Rightarrow> environment py" where
  "child_env env role iid live nam =
     py_bind (own_secret env role) (\<lambda>e.
     py_bind (py_map str_or_empty [role, iid, JStr (case live of None \<Rightarrow> [] | Some s \<Rightarrow> s), nam]) (\<lambda>vs.
       Inr (e(''ASCP_ROLE'' := Some (vs ! 0), ''ASCP_ISSUE_ID'' := Some (vs ! 1),
         ''ASCP_STATE'' := Some (vs ! 2), ''ASCP_ISSUE_NAME'' := Some (vs ! 3)))))"

definition state_json :: "string option \<Rightarrow> json" where
  "state_json s = (case s of None \<Rightarrow> JNull | Some n \<Rightarrow> JStr n)"

definition consumer_dispatch :: "'w consumer_env \<Rightarrow> dict \<Rightarrow> 'w consumer \<Rightarrow> 'w consumer \<times> bool py" where
  "consumer_dispatch ce job cn =
     (let iid = dget job ''issue_id''; (b, r) = current_state (ce_plane ce) (py_str iid) (cn_board cn);
          cn = cn\<lparr>cn_board := b\<rparr> in
      case r of
        Inl _ \<Rightarrow> (cn, Inr False)
      | Inr live \<Rightarrow>
          if \<not> py_eq (state_json live) (dget job ''state'') then (cn, Inr True)
          else (case ce_command ce of
              None \<Rightarrow> (cn, Inr True)
            | Some cmd \<Rightarrow>
                (case child_env (ce_environ ce) (dget job ''agent_role'') iid live (dget_or job ''name'' (JStr [])) of
                   Inl e \<Rightarrow> (cn, Inl e)
                 | Inr env \<Rightarrow> (cn\<lparr>cn_board := (cn_board cn)\<lparr>bd_world := cmd env (bd_world (cn_board cn))\<rparr>,
                     cn_runs := cn_runs cn @ [env]\<rparr>, Inr True))))"

definition settled :: "dict \<Rightarrow> 'w consumer \<Rightarrow> 'w consumer" where
  "settled job cn = cn\<lparr>cn_settled := cn_settled cn @ [(cn_offset cn, job)]\<rparr>"

fun consume_lines :: "'w consumer_env \<Rightarrow> string list \<Rightarrow> nat \<Rightarrow> 'w consumer \<Rightarrow> 'w consumer \<times> nat py" where
  "consume_lines ce [] n cn = (cn, Inr n)"
| "consume_lines ce (l # ls) n cn =
     (let t = strip l in
      if t = [] then consume_lines ce ls n (commit_offset cn)
      else case loads t of
          None \<Rightarrow> consume_lines ce ls n (commit_offset cn)
        | Some (JObj job) \<Rightarrow>
            if dget job ''kind'' = JStr ''agent_dispatch'' then
              (case consumer_dispatch ce job cn of
                 (cn, Inl e) \<Rightarrow> (cn, Inl e)
               | (cn, Inr False) \<Rightarrow> (cn, Inr n)
               | (cn, Inr True) \<Rightarrow> consume_lines ce ls (Suc n) (commit_offset (settled job cn)))
            else consume_lines ce ls (Suc n) (commit_offset cn)
        | Some _ \<Rightarrow> (cn, Inl AttributeError))"

definition consume :: "'w consumer_env \<Rightarrow> string option \<Rightarrow> 'w consumer \<Rightarrow> 'w consumer \<times> nat py" where
  "consume ce queue cn = (case queue of None \<Rightarrow> (cn, Inr 0)
     | Some raw \<Rightarrow> consume_lines ce (drop (cn_offset cn) (complete_lines raw)) 0 cn)"

subsection \<open>The same queue\<close>

lemma complete_lines_line:
  assumes "list_all (\<lambda>c. \<not> line_break c) l"
  shows "complete_lines (l @ CHR 0x0A # t) = l # complete_lines t"
proof -
  have "splitlines t = [] \<longleftrightarrow> t = []" by (cases t) (auto split: list.splits)
  moreover have "endswith (l @ CHR 0x0A # t) [CHR 0x0A] \<longleftrightarrow> t = [] \<or> endswith t [CHR 0x0A]"
    by (cases t rule: rev_cases) (auto simp: endswith_def)
  ultimately show ?thesis
    by (cases "splitlines t") (auto simp: complete_lines_def splitlines_line [OF assms] Let_def)
qed

end
