(* ===== verification/Plane_Properties.thy ===== *)
theory Plane_Properties
  imports Plane_Loop
begin

section \<open>What the board is asked\<close>

text \<open>
  The requests that the commands of \<open>the_loop.py\<close> send to the board, in order: the evidence is
  posted before the item is moved, nothing is sent before the role is checked, and the
  programmatic gate moves an item to Done only for an accepted slice.
\<close>

subsection \<open>What a command sends\<close>

lemma send_sent: "send q f b = (b', r) \<Longrightarrow> bd_sent b' = bd_sent b @ [q]"
  by (auto simp: send_def split: prod.splits)

lemma pure_op_iff [simp]: "pure_op r b = (b', s) \<longleftrightarrow> b' = b \<and> s = r"
  by (auto simp: pure_op_def)

lemma current_state_sent: "current_state pl i b = (b', r) \<Longrightarrow> bd_sent b' = bd_sent b @ [GetIssue i]"
  unfolding current_state_def get_issue_def by (auto elim!: then_do_cases dest: send_sent)

text \<open>A move asks for the item only when the role may set the state, and updates the item only
  when the state that it has read has a legal edge to the new one.\<close>

lemma transition_sent:
  assumes "transition pl env i to role b = (b', r)"
  shows "\<exists>k sid. bd_sent b' = bd_sent b @ take k [GetIssue i, PatchState i sid] \<and> k \<le> 2 \<and>
    (0 < k \<longrightarrow> check_actor env role to = Inr ()) \<and> (k = 2 \<longrightarrow> state_id pl to = Inr sid) \<and>
    ((\<exists>v. r = Inr v) \<longrightarrow> k = 2)"
  using assms unfolding transition_def
proof (cases rule: then_do_cases)
  case (stopped e)
  then show ?thesis by (intro exI [of _ 0]) simp
next
  case (went_on b1 u)
  then have a: "b1 = b" "check_actor env role to = Inr ()" by simp_all
  from went_on(2) show ?thesis unfolding a(1)
  proof (cases rule: then_do_cases)
    case (stopped e)
    with a show ?thesis by (intro exI [of _ 1]) (simp add: current_state_sent)
  next
    case read: (went_on b2 cur)
    then have s: "bd_sent b2 = bd_sent b @ [GetIssue i]" by (simp add: current_state_sent)
    show ?thesis
    proof (cases "cur = None \<or> \<not> legal_edge cur to")
      case True
      with read(2) s a show ?thesis by (intro exI [of _ 1]) (auto split: if_splits)
    next
      case False
      with read(2) have "then_do (pure_op (state_id pl to)) (\<lambda>sid.
          then_do (send (PatchState i sid) (pl_patch pl i sid)) (\<lambda>r. pure_op (read_back pl to r))) b2 = (b', r)"
        by (cases cur) auto
      then show ?thesis
      proof (cases rule: then_do_cases)
        case (stopped e)
        with s a show ?thesis by (intro exI [of _ 1]) auto
      next
        case (went_on b3 sid)
        then have "b3 = b2" "state_id pl to = Inr sid" by simp_all
        moreover from went_on(2) have "bd_sent b' = bd_sent b3 @ [PatchState i sid]"
          by (auto elim!: then_do_cases dest: send_sent)
        ultimately show ?thesis using s a by (intro exI [of _ 2] exI [of _ sid]) simp
      qed
    qed
  qed
qed

lemma gate_sent:
  assumes "gate pl env i to role b = (b', r)"
  shows "(bd_sent b' = bd_sent b \<and> (\<exists>e. r = Inl e)) \<or>
    (bd_sent b' = bd_sent b @ [GetIssue i] \<and> check_actor env role to = Inr () \<and>
     (\<forall>cur. r = Inr cur \<longrightarrow> legal_edge cur to))"
  using assms unfolding gate_def
  by (auto elim!: then_do_cases dest!: current_state_sent split: if_splits)

text \<open>The four requests of a command that attaches a comment and moves the item.\<close>

definition visit :: "string \<Rightarrow> string \<Rightarrow> string \<Rightarrow> request list" where
  "visit i body sid = [GetIssue i, PostComment i body, GetIssue i, PatchState i sid]"

text \<open>A command's trace: the first of these requests, none before the role is checked, the last one
  to the new state's id, and all of them when the command returns.\<close>

definition visited :: "'w plane \<Rightarrow> environment \<Rightarrow> string \<Rightarrow> string \<Rightarrow> string \<Rightarrow> string \<Rightarrow> request list \<Rightarrow>
    request list \<Rightarrow> bool \<Rightarrow> bool" where
  "visited pl env i to role body sent sent' returned = (\<exists>k sid. k \<le> 4 \<and> sent' = sent @ take k (visit i body sid) \<and>
    (0 < k \<longrightarrow> check_actor env role to = Inr ()) \<and> (k = 4 \<longrightarrow> state_id pl to = Inr sid) \<and>
    (returned \<longrightarrow> k = 4))"

lemma note_and_move_sent:
  assumes "note_and_move pl env i to role note b = (b', r)"
    and says: "\<And>c c' s. note c = (c', s) \<Longrightarrow> bd_sent c' = bd_sent c @ [PostComment i body]"
  shows "visited pl env i to role body (bd_sent b) (bd_sent b') (\<exists>v. r = Inr v)"
  using assms(1) unfolding note_and_move_def
proof (cases rule: then_do_cases)
  case (stopped e)
  with gate_sent [OF stopped(1)] show ?thesis
    by (auto simp: visited_def visit_def intro: exI [of _ 0] exI [of _ 1])
next
  case (went_on b1 cur)
  with gate_sent [OF went_on(1)]
  have b1: "bd_sent b1 = bd_sent b @ [GetIssue i]" "check_actor env role to = Inr ()" by auto
  from went_on(2) show ?thesis
  proof (cases rule: then_do_cases)
    case (stopped e)
    with b1 says [OF stopped(1)] show ?thesis unfolding visited_def by (intro exI [of _ 2]) (simp add: visit_def)
  next
    case (went_on b2 x)
    with says [OF went_on(1)] b1 have b2: "bd_sent b2 = bd_sent b @ [GetIssue i, PostComment i body]" by simp
    from transition_sent [OF went_on(2)] obtain k sid
      where k: "bd_sent b' = bd_sent b2 @ take k [GetIssue i, PatchState i sid]" "k \<le> 2"
        "k = 2 \<longrightarrow> state_id pl to = Inr sid" "(\<exists>v. r = Inr v) \<longrightarrow> k = 2" by blast
    with b1 b2 show ?thesis
      unfolding visited_def by (intro exI [of _ "k + 2"] exI [of _ sid]) (auto simp: visit_def numeral_2_eq_2)
  qed
qed

lemma post_evidence_sent:
  "post_evidence pl i tf tn h at role b = (b', r) \<Longrightarrow>
     bd_sent b' = bd_sent b @ [PostComment i (evidence_html role tf tn h at)]"
  by (simp add: post_evidence_def Let_def send_sent)

lemma comment_sent:
  "comment pl i s True b = (b', r) \<Longrightarrow>
     bd_sent b' = bd_sent b @ [PostComment i (html_escape s)]"
  by (simp add: comment_def Let_def send_sent)

lemma visit_4 [simp]: "take 4 (visit i body sid) = visit i body sid"
  by (simp add: visit_def)

lemma visit_posts: "PostComment i body \<in> set (take k (visit i body sid)) \<Longrightarrow> 0 < k"
  by (cases k) simp_all

lemma visit_patches: "PatchState i s \<in> set (take k (visit i body sid)) \<Longrightarrow> k \<le> 4 \<Longrightarrow> k = 4 \<and> s = sid"
  by (auto simp: visit_def take_Cons' split: if_splits)

text \<open>The evidence comment of \<open>prove\<close>, and that of a state's record.\<close>

lemma visited_returned:
  assumes "visited pl env i to role body sent sent' True"
  obtains sid where "state_id pl to = Inr sid" "check_actor env role to = Inr ()" "sent' = sent @ visit i body sid"
  using assms by (auto simp: visited_def)

text \<open>
  When \<open>prove\<close> returns, the record validates, the verifier's secret is in the environment, and
  the board was asked for exactly four things, in this order: the item, the comment with the
  escaped evidence, the item again, and its move to the state that the board calls Done.
\<close>

theorem prove_posts_then_moves:
  assumes "prove pl env now i tf tn h b = (b', Inr r)"
  shows "\<exists>sid. state_id pl ''Done'' = Inr sid \<and> has_secret env ''verifier'' \<and>
    validate_evidence_record (JObj [(''test_file'', JStr tf), (''test_name'', JStr tn), (''output_hash'', JStr h),
      (''collected_at'', JStr (isoformat now))]) \<and>
    bd_sent b' = bd_sent b @ [GetIssue i,
      PostComment i (evidence_html ''verifier'' (JStr tf) (JStr tn) (JStr h) (JStr (isoformat now))),
      GetIssue i, PatchState i sid]"
proof -
  from assms have v: "validate_evidence_record (JObj [(''test_file'', JStr tf), (''test_name'', JStr tn),
      (''output_hash'', JStr h), (''collected_at'', JStr (isoformat now))])"
    and m: "note_and_move pl env i ''Done'' ''verifier''
      (post_evidence pl i (JStr tf) (JStr tn) (JStr h) (JStr (isoformat now)) ''verifier'') b = (b', Inr r)"
    by (auto simp: prove_def Let_def split: if_splits)
  have "visited pl env i ''Done'' ''verifier'' (evidence_html ''verifier'' (JStr tf) (JStr tn) (JStr h)
      (JStr (isoformat now))) (bd_sent b) (bd_sent b') True"
    using note_and_move_sent [OF m] by (simp add: post_evidence_sent)
  then obtain sid where sid: "state_id pl ''Done'' = Inr sid" and c: "check_actor env ''verifier'' ''Done'' = Inr ()"
      and sent: "bd_sent b' = bd_sent b @ visit i
         (evidence_html ''verifier'' (JStr tf) (JStr tn) (JStr h) (JStr (isoformat now))) sid"
    by (rule visited_returned)
  have "has_secret env ''verifier''" using verifier_states [OF c] by simp
  with v sid sent show ?thesis by (intro exI [of _ sid]) (simp add: visit_def)
qed

lemma escape_char_safe: "set (escape_char c) \<inter> {CHR ''<'', CHR ''>'', CHR 0x22, CHR 0x27} = {}"
  by (simp add: escape_char_def)

lemma escape_char_eqD:
  assumes "escape_char c @ s = escape_char d @ t" shows "c = d \<and> s = t"
  using assms unfolding escape_char_def by (simp split: if_splits)

lemma html_escape_eqD: "html_escape s = html_escape t \<Longrightarrow> s = t"
proof (induction s arbitrary: t)
  case Nil
  then show ?case by (cases t) (auto simp: html_escape_def escape_char_def split: if_splits)
next
  case (Cons c s)
  then obtain d u where "t = d # u" by (cases t) (auto simp: html_escape_def escape_char_def split: if_splits)
  with Cons show ?case using escape_char_eqD [of c "html_escape s" d "html_escape u"] by (auto simp: html_escape_def)
qed

text \<open>On a record that validates, the four look-ups find its fields.\<close>

lemma index_key_str: "nonblank_str (dget d k) \<Longrightarrow> index_key (JObj d) k = Inr (dget d k)"
  by (cases "map_of d k") (simp_all add: index_key_def dget_def dget_or_def)

lemma post_record_valid:
  assumes "validate_evidence_record (JObj d)"
  shows "post_record pl i (JObj d) = post_evidence pl i (dget d ''test_file'') (dget d ''test_name'')
    (dget d ''output_hash'') (dget d ''collected_at'') ''verifier''"
proof -
  have "list_all (\<lambda>f. nonblank_str (dget d f)) REQUIRED_FIELDS"
    using assms by (auto simp: validate_evidence_record_def split: if_splits)
  then show ?thesis
    by (simp add: post_record_def index_key_str REQUIRED_FIELDS_def lift_py_def then_do_def pure_op_def fun_eq_iff
        eval_nat_numeral)
qed

text \<open>What each decision of the gate does to the board, when the call returns.\<close>

lemma gated_prove_Inr:
  assumes "gated_prove pl env lenv wording i q file b = ((b', file'), Inr decision)"
  shows "gated_advance lenv None file q = Inr (decision, file')"
    and "la_action decision = SelfHeal \<Longrightarrow> b' = b"
    and "la_action decision = Advance \<Longrightarrow>
      \<exists>v. note_and_move pl env i ''Done'' ''verifier'' (post_record pl i (rq_evidence q)) b = (b', Inr v)"
    and "la_action decision = HandOff \<Longrightarrow>
      \<exists>v. note_and_move pl env i ''HANDOFF'' ''verifier''
        (comment pl i (gate_text (wording decision)) True) b = (b', Inr v)"
  using assms unfolding gated_prove_def
  by (auto split: sum.splits prod.splits gate_action.splits)

text \<open>
  C15. When \<open>gated_prove\<close> returns, its decision says what the board was asked. On an advance the
  evidence gate had accepted the slice and every depth pillar that ran had passed, and the
  evidence was posted before the move to Done; on a self-heal nothing was sent; on a hand-off
  the item was noted and moved to HANDOFF.
\<close>

theorem gated_prove_board:
  assumes "gated_prove pl env lenv wording i q file b = ((b', file'), Inr decision)"
  shows "case la_action decision of
      Advance \<Rightarrow> accepted (check_slice (rq_evidence q) (rq_artifact q) (rq_ledger q)) \<and>
        depth_rejections lenv q = Inr [] \<and> has_secret env ''verifier'' \<and>
        (\<exists>d sid. rq_evidence q = JObj d \<and> state_id pl ''Done'' = Inr sid \<and>
           bd_sent b' = bd_sent b @ [GetIssue i,
             PostComment i (evidence_html ''verifier'' (dget d ''test_file'') (dget d ''test_name'')
               (dget d ''output_hash'') (dget d ''collected_at'')), GetIssue i, PatchState i sid])
    | SelfHeal \<Rightarrow> b' = b
    | HandOff \<Rightarrow> (\<exists>sid. state_id pl ''HANDOFF'' = Inr sid \<and>
        bd_sent b' = bd_sent b @ [GetIssue i,
          PostComment i (html_escape (gate_text (wording decision))),
          GetIssue i, PatchState i sid])"
proof (cases "la_action decision")
  case Advance
  with gated_advance_cases [OF gated_prove_Inr(1) [OF assms]]
  have acc: "accepted (check_slice (rq_evidence q) (rq_artifact q) (rq_ledger q))"
    and deep: "depth_rejections lenv q = Inr []" by auto
  from acc obtain d where d: "rq_evidence q = JObj d" "validate_evidence_record (JObj d)"
    by (auto simp: check_slice_accepts)
  obtain v where v: "note_and_move pl env i ''Done'' ''verifier''
      (post_evidence pl i (dget d ''test_file'') (dget d ''test_name'')
        (dget d ''output_hash'') (dget d ''collected_at'') ''verifier'') b = (b', Inr v)"
    using gated_prove_Inr(3) [OF assms Advance] d by (auto simp: post_record_valid)
  have "visited pl env i ''Done'' ''verifier'' (evidence_html ''verifier'' (dget d ''test_file'')
      (dget d ''test_name'') (dget d ''output_hash'') (dget d ''collected_at'')) (bd_sent b) (bd_sent b') True"
    using note_and_move_sent [OF v] by (simp add: post_evidence_sent)
  then obtain sid where sid: "state_id pl ''Done'' = Inr sid" and c: "check_actor env ''verifier'' ''Done'' = Inr ()"
    and sent: "bd_sent b' = bd_sent b @ visit i (evidence_html ''verifier'' (dget d ''test_file'')
      (dget d ''test_name'') (dget d ''output_hash'') (dget d ''collected_at'')) sid"
    by (rule visited_returned)
  have "has_secret env ''verifier''" using verifier_states [OF c] by simp
  with Advance acc deep d sid sent show ?thesis by (simp add: visit_def)
next
  case SelfHeal
  with gated_prove_Inr(2) [OF assms] show ?thesis by simp
next
  case HandOff
  obtain v where v: "note_and_move pl env i ''HANDOFF'' ''verifier''
      (comment pl i (gate_text (wording decision)) True) b = (b', Inr v)"
    using gated_prove_Inr(4) [OF assms HandOff] by blast
  have "visited pl env i ''HANDOFF'' ''verifier''
      (html_escape (gate_text (wording decision))) (bd_sent b) (bd_sent b') True"
    using note_and_move_sent [OF v] by (simp add: comment_sent)
  then obtain sid where "state_id pl ''HANDOFF'' = Inr sid" "check_actor env ''verifier'' ''HANDOFF'' = Inr ()"
    "bd_sent b' = bd_sent b @ visit i
      (html_escape (gate_text (wording decision))) sid"
    by (rule visited_returned)
  with HandOff show ?thesis by (simp add: visit_def)
qed

text \<open>An item whose state the board does not know.\<close>

lemma unknown_state:
  assumes "pl_get pl i = (\<lambda>w. (w, Inr (JObj d)))" "id2state pl (dget d ''state'') = Inr None"
  shows "current_state pl i b = (\<lparr>bd_world = bd_world b, bd_sent = bd_sent b @ [GetIssue i]\<rparr>, Inr None)"
  using assms by (simp add: current_state_def then_do_def get_issue_def send_def pure_op_def lift_py_def)

text \<open>
  The gate that runs before a comment lets an item through whose state the board does not know:
  the comment is posted and the move then raises, so a note is left on an item that did not
  move, which the gate is there to prevent.
\<close>

theorem unresolved_state_orphans_note:
  assumes "pl_get pl i = (\<lambda>w. (w, Inr (JObj d)))" "id2state pl (dget d ''state'') = Inr None"
    and "pl_post pl i (html_escape (blocked_text reason)) = (\<lambda>w. (w, Inr JNull))"
  shows "block_item pl env i reason ''implementer'' b = (\<lparr>bd_world = bd_world b, bd_sent = bd_sent b @
    [GetIssue i, PostComment i (html_escape (blocked_text reason)), GetIssue i]\<rparr>, Inl BoardError)"
proof -
  have c: "check_actor env ''implementer'' ''Blocked'' = Inr ()"
    by (simp add: check_actor_ok board_tables)
  have "legal_edge None ''Blocked''" by (simp add: legal_edge_def UNIVERSAL_def)
  then have "gate pl env i ''Blocked'' ''implementer'' b =
      (\<lparr>bd_world = bd_world b, bd_sent = bd_sent b @ [GetIssue i]\<rparr>, Inr None)"
    by (simp add: gate_def then_do_def c pure_op_def unknown_state [OF assms(1,2)])
  then show ?thesis
    by (simp add: block_item_def note_and_move_def then_do_def comment_def Let_def send_def assms(3)
        transition_def c pure_op_def unknown_state [OF assms(1,2)])
qed

text \<open>
  The command \<open>advance\<close> is a second way to Done: with the verifier's secret, an item in
  In-Verification is moved to Done with no record checked and no evidence posted.
\<close>

theorem advance_needs_no_evidence:
  assumes "has_secret env ''verifier''" "state_id pl ''Done'' = Inr sid"
    and "pl_get pl i = (\<lambda>w. (w, Inr (JObj d)))" "id2state pl (dget d ''state'') = Inr (Some ''In-Verification'')"
    and "pl_patch pl i sid = (\<lambda>w. (w, Inr JNull))"
  shows "advance_item pl env i ''Done'' ''verifier'' b =
    (\<lparr>bd_world = bd_world b, bd_sent = bd_sent b @ [GetIssue i, PatchState i sid]\<rparr>, Inr JNull)"
proof -
  have "check_actor env ''verifier'' ''Done'' = Inr ()" using assms(1) by (simp add: check_actor_ok board_tables)
  moreover have "legal_edge (Some ''In-Verification'') ''Done''" by (simp add: into_Done)
  ultimately show ?thesis using assms(2-)
    by (simp add: advance_item_def transition_def current_state_def then_do_def get_issue_def send_def
        pure_op_def lift_py_def read_back_def)
qed

text \<open>
  The escaping of comments leaves no character that opens a tag or ends an attribute, and loses
  nothing: different texts stay different.
\<close>

theorem html_escape_safe:
  "set (html_escape s) \<inter> {CHR ''<'', CHR ''>'', CHR 0x22, CHR 0x27} = {} \<and>
   (html_escape s = html_escape t \<longleftrightarrow> s = t)"
  using escape_char_safe html_escape_eqD by (auto simp: html_escape_def)

subsection \<open>Witnesses\<close>

definition sample_plane :: "unit plane" where
  "sample_plane = \<lparr>pl_states = [(''In-Verification'', ''u1''), (''Done'', ''u2'')],
     pl_get = (\<lambda>i w. (w, Inr (JObj [(''state'', JStr (if i = ''7'' then ''u1'' else ''u9''))]))),
     pl_patch = (\<lambda>i s w. (w, Inr JNull)), pl_post = (\<lambda>i s w. (w, Inr JNull))\<rparr>"

definition sample_board :: "unit board" where
  "sample_board = \<lparr>bd_world = (), bd_sent = []\<rparr>"

definition sample_instant :: utc_instant where
  "sample_instant = \<lparr>u_year = 2026, u_month = 6, u_day = 22, u_hour = 9, u_minute = 5, u_second = 0, u_micro = 0\<rparr>"

lemma sample_read: "current_state sample_plane ''7'' b =
    (\<lparr>bd_world = bd_world b, bd_sent = bd_sent b @ [GetIssue ''7'']\<rparr>, Inr (Some ''In-Verification''))"
  by (simp add: current_state_def then_do_def get_issue_def send_def pure_op_def lift_py_def sample_plane_def id2state_def)

lemma sample_note_and_move:
  "\<exists>b'. note_and_move sample_plane verifier_env ''7'' ''Done'' ''verifier''
     (post_evidence sample_plane ''7'' tf tn h at ''verifier'') sample_board = (b', Inr JNull)"
proof -
  have c: "check_actor verifier_env ''verifier'' ''Done'' = Inr ()"
    by (simp add: check_actor_ok board_tables has_secret_def verifier_env_def)
  moreover have "legal_edge (Some ''In-Verification'') ''Done''" by (simp add: into_Done)
  moreover have "state_id sample_plane ''Done'' = Inr ''u2''" by (simp add: state_id_def sample_plane_def)
  ultimately show ?thesis
    by (simp add: note_and_move_def gate_def transition_def then_do_def pure_op_def sample_read post_evidence_def
        Let_def send_def read_back_def sample_plane_def [THEN arg_cong [of _ _ pl_post], simplified]
        sample_plane_def [THEN arg_cong [of _ _ pl_patch], simplified])
qed

theorem prove_posts_then_moves_witness:
  "has_secret verifier_env ''verifier''"
proof -
  let ?h = "''sha256:'' @ sha256_hex ''ok''"
  have "valid_instant sample_instant"
    by (simp add: sample_instant_def valid_instant_def valid_date_def days_in_month_def)
  then have "validate_evidence_record (JObj (collect ''t.py'' ''t'' ''ok'' sample_instant))"
    by (intro collect_validates) (simp_all add: strip_def is_space_def code_def)
  then have "\<exists>b'. prove sample_plane verifier_env sample_instant ''7'' ''t.py'' ''t'' ?h sample_board = (b', Inr JNull)"
    using sample_note_and_move by (simp add: prove_def Let_def collect_def)
  then show ?thesis using prove_posts_then_moves by blast
qed

theorem unresolved_state_orphans_note_witness:
  "bd_sent (fst (block_item sample_plane (\<lambda>_. None) ''8'' ''r'' ''implementer'' sample_board)) =
     [GetIssue ''8'', PostComment ''8'' (html_escape (blocked_text ''r'')), GetIssue ''8'']"
  using unresolved_state_orphans_note [of sample_plane "''8''" "[(''state'', JStr ''u9'')]" "''r''" "\<lambda>_. None" sample_board]
  by (simp add: sample_plane_def id2state_def sample_board_def)

theorem advance_needs_no_evidence_witness:
  "advance_item sample_plane verifier_env ''7'' ''Done'' ''verifier'' sample_board =
    (\<lparr>bd_world = (), bd_sent = [GetIssue ''7'', PatchState ''7'' ''u2'']\<rparr>, Inr JNull)"
  using advance_needs_no_evidence [of verifier_env sample_plane "''u2''" "''7''" "[(''state'', JStr ''u1'')]" sample_board]
  by (simp add: sample_plane_def id2state_def sample_board_def has_secret_def board_tables verifier_env_def state_id_def)

lemma proven_request_advances:
  "\<exists>r f'. gated_advance sample_env None Missing proven_request = Inr (r, f') \<and> la_action r = Advance"
proof -
  have "depth_rejections sample_env proven_request = Inr []"
    by (simp add: depth_rejections_def proven_request_def empty_request_def changed_list_def)
  then show ?thesis
    by (simp add: gated_advance_def Let_def proven_request_accepted tick_def tick_counters_def read_row_def
        init_row_def progress_tick_def)
qed

theorem gated_prove_board_witness:
  "depth_rejections sample_env proven_request = Inr [] \<and> has_secret verifier_env ''verifier''"
proof -
  obtain r f' where r: "gated_advance sample_env None Missing proven_request = Inr (r, f')" "la_action r = Advance"
    using proven_request_advances by blast
  obtain d where d: "rq_evidence proven_request = JObj d" "validate_evidence_record (JObj d)"
    using proven_request_accepted by (auto simp: check_slice_accepts)
  obtain b' where n: "note_and_move sample_plane verifier_env ''7'' ''Done'' ''verifier''
      (post_evidence sample_plane ''7'' (dget d ''test_file'') (dget d ''test_name'') (dget d ''output_hash'')
        (dget d ''collected_at'') ''verifier'') sample_board = (b', Inr JNull)"
    using sample_note_and_move by blast
  have "gated_prove sample_plane verifier_env sample_env (\<lambda>_. []) ''7'' proven_request Missing sample_board =
      ((b', f'), Inr r)"
    using r d n by (simp add: gated_prove_def post_record_valid)
  from gated_prove_board [OF this] r(2) show ?thesis by simp
qed
end
