(* ===== verification/Consumer_Properties.thy ===== *)
theory Consumer_Properties
  imports Agent_Consumer Plane_Properties "HOL-Library.Sublist"
begin

section \<open>What the consumer guarantees\<close>

text \<open>
  Over a run of polls of a file that only grows: the settled jobs are those of the lines below the
  committed offset, in order and once each; a pass that returns stops only where the board could
  not be read; a line that is still being written is left alone; the command of one role cannot
  act as another.
\<close>


definition line_job :: "string \<Rightarrow> json option" where
  "line_job l = (let t = strip l in if t = [] then None else loads t)"

definition job_at :: "string list \<Rightarrow> nat \<Rightarrow> (nat \<times> dict) list" where
  "job_at ls i = (case line_job (ls ! i) of
     Some (JObj d) \<Rightarrow> if dget d ''kind'' = JStr ''agent_dispatch'' then [(i, d)] else [] | _ \<Rightarrow> [])"

text \<open>The dispatch jobs of the lines from one number to another, with their numbers.\<close>

definition jobs_between :: "string list \<Rightarrow> nat \<Rightarrow> nat \<Rightarrow> (nat \<times> dict) list" where
  "jobs_between ls a b = concat (map (job_at ls) [a..<b])"

lemma jobs_between_same [simp]: "jobs_between ls a a = []"
  by (simp add: jobs_between_def)

lemma jobs_between_Suc: "a < b \<Longrightarrow> jobs_between ls a b = job_at ls a @ jobs_between ls (Suc a) b"
  by (simp add: jobs_between_def upt_conv_Cons)

lemma jobs_between_append: "a \<le> b \<Longrightarrow> b \<le> c \<Longrightarrow> jobs_between ls a b @ jobs_between ls b c = jobs_between ls a c"
proof -
  assume "a \<le> b" "b \<le> c"
  then have "[a..<c] = [a..<b] @ [b..<c]" using upt_add_eq_append [of a b "c - b"] by simp
  then show ?thesis by (simp add: jobs_between_def)
qed

lemma jobs_between_prefix:
  assumes "prefix ls ls'" "b \<le> length ls" shows "jobs_between ls a b = jobs_between ls' a b"
proof -
  have "job_at ls i = job_at ls' i" if "i < b" for i
    using assms that by (auto simp: job_at_def prefix_def nth_append)
  then have "map (job_at ls) [a..<b] = map (job_at ls') [a..<b]" by simp
  then show ?thesis unfolding jobs_between_def by (rule arg_cong)
qed

lemma commit_simps [simp]:
  "cn_offset (commit_offset cn) = Suc (cn_offset cn)" "cn_settled (commit_offset cn) = cn_settled cn"
  "cn_offset (settled d cn) = cn_offset cn" "cn_settled (settled d cn) = cn_settled cn @ [(cn_offset cn, d)]"
  by (simp_all add: commit_offset_def settled_def)

lemma consumer_dispatch_frame:
  assumes "consumer_dispatch ce d cn = (cn', r)"
  shows "cn_offset cn' = cn_offset cn" "cn_settled cn' = cn_settled cn"
    and "r = Inr False \<Longrightarrow> \<exists>b e b'. current_state (ce_plane ce) (py_str (dget d ''issue_id'')) b = (b', Inl e)"
  using assms
  by (auto simp: consumer_dispatch_def Let_def split: prod.splits sum.splits if_splits option.splits)

text \<open>What one line does: it is committed and settled, or the pass ends there.\<close>

lemma consume_line:
  assumes "ls ! cn_offset cn = l"
  obtains (passed) cn1 n1 where "consume_lines ce (l # rest) n cn = consume_lines ce rest n1 cn1"
      "cn_offset cn1 = Suc (cn_offset cn)" "cn_settled cn1 = cn_settled cn @ job_at ls (cn_offset cn)"
  | (waiting) cn1 d b e b' where "consume_lines ce (l # rest) n cn = (cn1, Inr n)" "cn_offset cn1 = cn_offset cn"
      "cn_settled cn1 = cn_settled cn" "job_at ls (cn_offset cn) = [(cn_offset cn, d)]"
      "current_state (ce_plane ce) (py_str (dget d ''issue_id'')) b = (b', Inl e)"
  | (raised) cn1 x where "consume_lines ce (l # rest) n cn = (cn1, Inl x)" "cn_offset cn1 = cn_offset cn"
      "cn_settled cn1 = cn_settled cn"
proof (cases "line_job l")
  case None
  then have "consume_lines ce (l # rest) n cn = consume_lines ce rest n (commit_offset cn)"
    by (auto simp: line_job_def Let_def split: if_splits)
  with None assms show thesis by (intro passed [of n "commit_offset cn"]) (simp_all add: job_at_def)
next
  case (Some v)
  then have v: "strip l \<noteq> []" "loads (strip l) = Some v" by (auto simp: line_job_def Let_def split: if_splits)
  show thesis
  proof (cases "\<exists>d. v = JObj d \<and> dget d ''kind'' = JStr ''agent_dispatch''")
    case True
    then obtain d where d: "v = JObj d" "dget d ''kind'' = JStr ''agent_dispatch''" by blast
    obtain cn1 r where r: "consumer_dispatch ce d cn = (cn1, r)" by force
    have j: "job_at ls (cn_offset cn) = [(cn_offset cn, d)]" using Some d assms by (simp add: job_at_def)
    note f = consumer_dispatch_frame [OF r]
    show thesis
    proof (cases r)
      case (Inl e)
      with v d r f show thesis by (intro raised [of cn1 e]) simp_all
    next
      case (Inr ok)
      show thesis
      proof (cases ok)
        case True
        with Inr v d r f j show thesis by (intro passed [of "Suc n" "commit_offset (settled d cn1)"]) simp_all
      next
        case False
        with Inr f(3) obtain b e b' where "current_state (ce_plane ce) (py_str (dget d ''issue_id'')) b = (b', Inl e)"
          by blast
        with False Inr v d r f j show thesis by (intro waiting [of cn1 d b b' e]) simp_all
      qed
    qed
  next
    case False
    with v have "consume_lines ce (l # rest) n cn = (if is_dict v
        then consume_lines ce rest (Suc n) (commit_offset cn) else (cn, Inl AttributeError))"
      by (cases v) simp_all
    moreover have "job_at ls (cn_offset cn) = []" using Some False assms
      by (auto simp: job_at_def split: json.splits)
    ultimately show thesis using passed [of "Suc n" "commit_offset cn"] raised by (cases "is_dict v") simp_all
  qed
qed

lemma consume_lines_settles:
  assumes "consume_lines ce (drop (cn_offset cn) ls) n cn = (cn', r)" "cn_offset cn \<le> length ls"
  shows "cn_offset cn \<le> cn_offset cn' \<and> cn_offset cn' \<le> length ls \<and>
    cn_settled cn' = cn_settled cn @ jobs_between ls (cn_offset cn) (cn_offset cn')"
  using assms
proof (induction "length ls - cn_offset cn" arbitrary: cn n)
  case 0
  then show ?case by simp
next
  case (Suc m)
  then have o: "cn_offset cn < length ls" by simp
  then have d: "drop (cn_offset cn) ls = ls ! cn_offset cn # drop (Suc (cn_offset cn)) ls" by (simp add: Cons_nth_drop_Suc)
  have "ls ! cn_offset cn = ls ! cn_offset cn" ..
  then show ?case
  proof (cases rule: consume_line [where ls = ls and cn = cn and ce = ce and rest = "drop (Suc (cn_offset cn)) ls" and n = n])
    case (passed cn1 n1)
    with Suc.prems d have "consume_lines ce (drop (cn_offset cn1) ls) n1 cn1 = (cn', r)" by simp
    moreover have "m = length ls - cn_offset cn1" using Suc.hyps(2) passed by simp
    ultimately have "cn_offset cn1 \<le> cn_offset cn' \<and> cn_offset cn' \<le> length ls \<and>
        cn_settled cn' = cn_settled cn1 @ jobs_between ls (cn_offset cn1) (cn_offset cn')"
      using o passed(2) by (intro Suc.hyps(1)) simp_all
    with passed show ?thesis by (simp add: jobs_between_Suc)
  qed (use Suc.prems d o in simp_all)
qed


lemma consume_settles:
  assumes "consume ce (Some raw) cn = (cn', r)" "cn_offset cn \<le> length (complete_lines raw)"
  shows "cn_offset cn \<le> cn_offset cn' \<and> cn_offset cn' \<le> length (complete_lines raw) \<and>
    cn_settled cn' = cn_settled cn @ jobs_between (complete_lines raw) (cn_offset cn) (cn_offset cn')"
  using assms consume_lines_settles by (simp add: consume_def)

text \<open>A run of polls, each over what the file then holds.\<close>

definition polls :: "'w consumer_env \<Rightarrow> string list \<Rightarrow> 'w consumer \<Rightarrow> 'w consumer" where
  "polls ce raws cn = foldl (\<lambda>cn raw. fst (consume ce (Some raw) cn)) cn raws"

lemma polls_settle:
  assumes "sorted_wrt (\<lambda>x y. prefix (complete_lines x) (complete_lines y)) (raw # raws)"
    "cn_offset cn \<le> length (complete_lines raw)"
    "cn_settled cn = jobs_between (complete_lines raw) 0 (cn_offset cn)"
  shows "cn_offset (polls ce raws cn) \<le> length (complete_lines (last (raw # raws))) \<and>
    cn_settled (polls ce raws cn) =
      jobs_between (complete_lines (last (raw # raws))) 0 (cn_offset (polls ce raws cn))"
  using assms
proof (induction raws arbitrary: raw cn)
  case Nil
  then show ?case by (simp add: polls_def)
next
  case (Cons raw' raws)
  obtain cn1 r where r: "consume ce (Some raw') cn = (cn1, r)" by force
  have p: "prefix (complete_lines raw) (complete_lines raw')" using Cons.prems(1) by simp
  then have l: "cn_offset cn \<le> length (complete_lines raw')" using Cons.prems(2) prefix_length_le by fastforce
  have c: "cn_offset cn \<le> cn_offset cn1" "cn_offset cn1 \<le> length (complete_lines raw')"
    "cn_settled cn1 = cn_settled cn @ jobs_between (complete_lines raw') (cn_offset cn) (cn_offset cn1)"
    using consume_settles [OF r l] by simp_all
  have "cn_settled cn1 = jobs_between (complete_lines raw') 0 (cn_offset cn1)"
    using c Cons.prems(2,3) jobs_between_prefix [OF p] jobs_between_append [of 0 "cn_offset cn" "cn_offset cn1"] by simp
  with c(2) Cons.prems(1) have "cn_offset (polls ce raws cn1) \<le> length (complete_lines (last (raw' # raws))) \<and>
    cn_settled (polls ce raws cn1) = jobs_between (complete_lines (last (raw' # raws))) 0 (cn_offset (polls ce raws cn1))"
    by (intro Cons.IH) simp_all
  then show ?case using r by (simp add: polls_def)
qed

definition fresh_consumer :: "'w board \<Rightarrow> 'w consumer" where
  "fresh_consumer b = \<lparr>cn_board = b, cn_offset = 0, cn_settled = [], cn_runs = []\<rparr>"

text \<open>
  C19. Over any run of polls of a growing file, the jobs that have been settled are exactly the
  dispatch jobs of the lines below the committed offset, in the order of the file and each once:
  the offset never passes a job that is not settled.
\<close>

theorem settled_exactly_once:
  assumes "sorted_wrt (\<lambda>x y. prefix (complete_lines x) (complete_lines y)) (raws @ [raw])"
  shows "cn_settled (polls ce (raws @ [raw]) (fresh_consumer b)) =
    jobs_between (complete_lines raw) 0 (cn_offset (polls ce (raws @ [raw]) (fresh_consumer b)))"
proof -
  have "sorted_wrt (\<lambda>x y. prefix (complete_lines x) (complete_lines y)) ([] # raws @ [raw])"
    using assms by (simp add: complete_lines_def)
  then show ?thesis
    using polls_settle [of "[]" "raws @ [raw]" "fresh_consumer b" ce] by (simp add: fresh_consumer_def)
qed

text \<open>
  A pass that returns before the last complete line has stopped at a dispatch job for which the
  board could not be read; so while the board answers, every complete line is consumed.
\<close>

theorem stops_at_unreachable:
  assumes "consume ce (Some raw) cn = (cn', Inr n)" "cn_offset cn' < length (complete_lines raw)"
  shows "\<exists>d b e b'. job_at (complete_lines raw) (cn_offset cn') = [(cn_offset cn', d)] \<and>
    current_state (ce_plane ce) (py_str (dget d ''issue_id'')) b = (b', Inl e)"
proof -
  have "consume_lines ce (drop (cn_offset cn) ls) m cn = (cn', Inr n) \<Longrightarrow> cn_offset cn' < length ls \<Longrightarrow>
      \<exists>d b e b'. job_at ls (cn_offset cn') = [(cn_offset cn', d)] \<and>
        current_state (ce_plane ce) (py_str (dget d ''issue_id'')) b = (b', Inl e)" for ls m
  proof (induction "length ls - cn_offset cn" arbitrary: cn m)
    case 0
    then show ?case by simp
  next
    case (Suc k)
    then have o: "cn_offset cn < length ls" by simp
    then have d: "drop (cn_offset cn) ls = ls ! cn_offset cn # drop (Suc (cn_offset cn)) ls" by (simp add: Cons_nth_drop_Suc)
    have "ls ! cn_offset cn = ls ! cn_offset cn" ..
    then show ?case
    proof (cases rule: consume_line [where ls = ls and cn = cn and ce = ce and rest = "drop (Suc (cn_offset cn)) ls" and n = m])
      case (passed cn1 n1)
      with Suc.prems d have "consume_lines ce (drop (cn_offset cn1) ls) n1 cn1 = (cn', Inr n)" by simp
      moreover have "k = length ls - cn_offset cn1" using Suc.hyps(2) passed by simp
      ultimately show ?thesis using Suc.prems(2) by (intro Suc.hyps(1))
    next
      case (waiting cn1 dd b b' e)
      with Suc.prems d show ?thesis by auto
    next
      case (raised cn1 x)
      with Suc.prems d show ?thesis by simp
    qed
  qed
  from this [of "complete_lines raw" 0] assms show ?thesis by (simp add: consume_def)
qed

text \<open>
  A complete line that is JSON but not an object ends every later pass with an exception at that
  line: the offset never moves again and nothing behind the line is consumed.
\<close>

theorem consumer_wedged:
  assumes "cn_offset cn < length (complete_lines raw)"
    and "line_job (complete_lines raw ! cn_offset cn) = Some v" "\<not> is_dict v"
  shows "snd (consume ce (Some raw) cn) = Inl AttributeError \<and> polls ce (replicate n raw) cn = cn"
proof -
  have "drop (cn_offset cn) (complete_lines raw) =
      complete_lines raw ! cn_offset cn # drop (Suc (cn_offset cn)) (complete_lines raw)"
    using assms(1) by (simp add: Cons_nth_drop_Suc)
  moreover have "strip (complete_lines raw ! cn_offset cn) \<noteq> []" "loads (strip (complete_lines raw ! cn_offset cn)) = Some v"
    using assms(2) by (auto simp: line_job_def Let_def split: if_splits)
  ultimately have c: "consume ce (Some raw) cn = (cn, Inl AttributeError)"
    using assms(3) by (cases v) (simp_all add: consume_def)
  have "polls ce (replicate n raw) cn = cn"
    by (induction n) (simp_all add: polls_def c)
  with c show ?thesis by simp
qed

subsection \<open>The secrets of a command\<close>

lemma own_secret_only:
  assumes "own_secret env role = Inr e" "(r, name) \<in> set ROLE_SECRET_ENV" "role \<noteq> JStr r"
  shows "e name = None"
  using assms
  by (auto simp: own_secret_def without_secrets_def ROLE_SECRET_ENV_def split: json.splits if_splits option.splits)

lemma child_env_secret:
  assumes "child_env env role iid live nam = Inr e" "(r, name) \<in> set ROLE_SECRET_ENV"
  shows "\<exists>e0. own_secret env role = Inr e0 \<and> e name = e0 name"
proof -
  obtain e0 vs where e: "own_secret env role = Inr e0"
    "e = e0(''ASCP_ROLE'' := Some (vs ! 0), ''ASCP_ISSUE_ID'' := Some (vs ! 1),
       ''ASCP_STATE'' := Some (vs ! 2), ''ASCP_ISSUE_NAME'' := Some (vs ! 3))"
    using assms(1) unfolding child_env_def py_bind_Inr_iff by blast
  moreover have "name \<notin> {''ASCP_ROLE'', ''ASCP_ISSUE_ID'', ''ASCP_STATE'', ''ASCP_ISSUE_NAME''}"
    using assms(2) by (auto simp: ROLE_SECRET_ENV_def)
  ultimately show ?thesis by simp
qed

text \<open>
  C20. The command that is started for one role carries no other role's secret, so with its
  environment it can set no state as a privileged role that is not its own.
\<close>

theorem child_cannot_impersonate:
  assumes "child_env env role iid live nam = Inr e" "r \<in> set PRIVILEGED" "role \<noteq> JStr r"
  shows "check_actor e r to \<noteq> Inr ()"
proof -
  obtain name where name: "map_of ROLE_SECRET_ENV r = Some name" "(r, name) \<in> set ROLE_SECRET_ENV"
    using assms(2) by (auto simp: PRIVILEGED_def ROLE_SECRET_ENV_def)
  with child_env_secret [OF assms(1) name(2)] own_secret_only [OF _ name(2) assms(3)]
  have "e name = None" by auto
  with name(1) assms(2) show ?thesis by (simp add: check_actor_ok has_secret_def)
qed

subsection \<open>The same queue, read by lines\<close>

definition consumer_jobs :: "string \<Rightarrow> json list" where
  "consumer_jobs t = concat (map read_line (complete_lines t))"

lemma complete_written:
  "good_job j \<Longrightarrow> complete_lines (job_line j @ t) = dumps_spaced True j # complete_lines t"
  by (simp add: job_line_def complete_lines_line written_line(1))

interpretation consumer_file: line_queue job_line consumer_jobs good_job
proof
  show "consumer_jobs [] = []" by (simp add: consumer_jobs_def complete_lines_def)
qed (simp add: consumer_jobs_def complete_written written_line(2))

lemma complete_lines_queue:
  "list_all good_job js \<Longrightarrow> complete_lines (concat (map job_line js) @ p) = map (dumps_spaced True) js @ complete_lines p"
  by (induction js) (simp_all add: complete_written)

lemma complete_lines_partial:
  assumes "list_all (\<lambda>c. \<not> line_break c) p" shows "complete_lines p = []"
proof -
  have "splitlines p = (if p = [] then [] else [p])"
    using assms by (induction p) (auto simp: line_break_def code_def)
  moreover have "\<not> endswith p [CHR 0x0A]" if "p \<noteq> []"
    using assms that by (cases p rule: rev_cases) (auto simp: endswith_def line_break_def code_def)
  ultimately show ?thesis by (simp add: complete_lines_def)
qed

text \<open>
  A line without its newline is not consumed, and does not change what a pass does; the complete
  lines before it are the jobs that the receiver wrote.
\<close>

theorem partial_line_waits:
  assumes "list_all (\<lambda>j. good_job (JObj j)) jobs" "list_all (\<lambda>c. \<not> line_break c) partial"
  shows "consume ce (Some (queue_text jobs @ partial)) cn = consume ce (Some (queue_text jobs)) cn \<and>
    consumer_jobs (queue_text jobs @ partial) = map JObj jobs"
proof -
  have "complete_lines (queue_text jobs @ partial) = complete_lines (queue_text jobs)"
    using complete_lines_queue [OF good_jobs_list [OF assms(1)]] complete_lines_partial [OF assms(2)]
      complete_lines_queue [OF good_jobs_list [OF assms(1)], of "[]"]
    by (simp add: queue_text_lines) (simp add: complete_lines_def)
  moreover have "consumer_jobs (queue_text jobs) = map JObj jobs"
    using consumer_file.jobs_lines [OF good_jobs_list [OF assms(1)]] by (simp add: queue_text_lines)
  ultimately show ?thesis by (simp add: consume_def consumer_jobs_def)
qed

subsection \<open>Witnesses\<close>

definition sample_consumer_env :: "(environment \<Rightarrow> unit \<Rightarrow> unit) option \<Rightarrow> unit consumer_env" where
  "sample_consumer_env cmd = \<lparr>ce_plane = sample_plane, ce_environ = verifier_env, ce_command = cmd\<rparr>"


lemma sample_two_polls:
  "sorted_wrt (\<lambda>x y. prefix (complete_lines x) (complete_lines y))
    ([queue_text [sample_job ''7'']] @ [queue_text [sample_job ''7'', sample_job ''8'']])"
proof -
  have "complete_lines (queue_text (map sample_job is)) = map (\<lambda>i. dumps_spaced True (JObj (sample_job i))) is" for "is"
    using complete_lines_queue [OF good_jobs_list, of "map sample_job is" "[]"]
    by (simp add: queue_text_lines list_all_iff sample_job_good comp_def complete_lines_def)
  from this [of "[''7'']"] this [of "[''7'', ''8'']"] show ?thesis by simp
qed

theorem settled_exactly_once_witness:
  "cn_settled (polls (sample_consumer_env None) [queue_text [sample_job ''7''], queue_text [sample_job ''7'', sample_job ''8'']]
      (fresh_consumer sample_board)) =
    jobs_between (complete_lines (queue_text [sample_job ''7'', sample_job ''8''])) 0
      (cn_offset (polls (sample_consumer_env None) [queue_text [sample_job ''7''],
        queue_text [sample_job ''7'', sample_job ''8'']] (fresh_consumer sample_board)))"
  using settled_exactly_once [OF sample_two_polls] by simp

definition dead_plane :: "unit plane" where
  "dead_plane = sample_plane\<lparr>pl_get := \<lambda>i w. (w, Inl BoardError)\<rparr>"

lemma sample_line_job: "line_job (dumps_spaced True (JObj (sample_job i))) = Some (JObj (sample_job i))"
proof -
  have "trimmed (dumps_spaced True (JObj (sample_job i)))" by (rule dumps_dict_trimmed) simp
  then show ?thesis
    using loads_dumps_spaced [of "JObj (sample_job i)" True] sample_job_good(1) [of i]
    by (simp add: line_job_def Let_def strip_trimmed good_job_def trimmed_def)
qed

lemma sample_lines: "complete_lines (queue_text [sample_job i]) = [dumps_spaced True (JObj (sample_job i))]"
  using complete_lines_queue [of "[JObj (sample_job i)]" "[]"] sample_job_good
  by (simp add: queue_text_lines complete_lines_def)

theorem stops_at_unreachable_witness:
  "\<exists>d. job_at (complete_lines (queue_text [sample_job ''7''])) 0 = [(0, d)]"
proof -
  let ?ce = "(sample_consumer_env None)\<lparr>ce_plane := dead_plane\<rparr>"
  have "strip (dumps_spaced True (JObj (sample_job ''7''))) \<noteq> []"
    "loads (strip (dumps_spaced True (JObj (sample_job ''7'')))) = Some (JObj (sample_job ''7''))"
    using sample_line_job [of "''7''"] by (auto simp: line_job_def Let_def split: if_splits)
  moreover have "dget (sample_job ''7'') ''kind'' = JStr ''agent_dispatch''"
    using sample_job_good(2) by (simp add: good_dispatch_def)
  ultimately obtain cn' where cn: "consume ?ce (Some (queue_text [sample_job ''7''])) (fresh_consumer sample_board) = (cn', Inr 0)"
    "cn_offset cn' = 0"
    by (simp add: consume_def sample_lines fresh_consumer_def consumer_dispatch_def current_state_def then_do_def
        get_issue_def send_def dead_plane_def)
  from stops_at_unreachable [OF cn(1)] cn(2) show ?thesis by (auto simp: sample_lines)
qed

theorem consumer_wedged_witness:
  "polls (sample_consumer_env None) (replicate 9 (''[]'' @ [CHR 0x0A])) (fresh_consumer sample_board) = fresh_consumer sample_board"
proof -
  have "complete_lines (''[]'' @ [CHR 0x0A]) = [''[]'']" by code_simp
  moreover have "line_job ''[]'' = Some (JList [])" by code_simp
  ultimately show ?thesis
    using consumer_wedged [of "fresh_consumer sample_board" "''[]'' @ [CHR 0x0A]" "JList []"]
    by (simp add: fresh_consumer_def)
qed

theorem child_cannot_impersonate_witness:
  "\<exists>e. child_env verifier_env (JStr ''implementer'') (JStr ''7'') (Some ''Plan-Approved'') JNull = Inr e \<and>
     (check_actor e ''verifier'' ''Done'' = Inr ()) = False"
proof -
  obtain e where e: "child_env verifier_env (JStr ''implementer'') (JStr ''7'') (Some ''Plan-Approved'') JNull = Inr e"
    by (simp add: child_env_def own_secret_def str_or_empty_def ROLE_SECRET_ENV_def)
  from child_cannot_impersonate [OF e, of "''verifier''" "''Done''"] e show ?thesis by (simp add: PRIVILEGED_def)
qed

theorem partial_line_waits_witness:
  "consumer_jobs (queue_text [sample_job ''7''] @ ''{'') = [JObj (sample_job ''7'')]"
  using partial_line_waits [of "[sample_job ''7'']" "''{''" "sample_consumer_env None" "fresh_consumer sample_board"]
  by (simp add: sample_job_good line_break_def code_def)

end
