(* ===== verification/Kill_Switch.thy ===== *)
theory Kill_Switch
  imports Json_Codec
begin

section \<open>The kill switch\<close>

text \<open>
  \<open>tools/kill_switch.py\<close>: the capabilities that can be switched off, what counts as a set flag,
  and the reading of \<open>flagd/flags.json\<close>. The file is its text, absent when it does not exist; the
  resolved flags are a dictionary, \<open>None\<close> an unreachable source. Lower case is that of ASCII, as
  no other character of the model has an ASCII lower case.
\<close>

definition GLOBAL_KILL_FLAG :: string where
  "GLOBAL_KILL_FLAG = ''kill.all''"

definition KILL_FLAG_PREFIX :: string where
  "KILL_FLAG_PREFIX = ''kill.''"

definition GATED_CAPABILITIES :: "string list" where
  "GATED_CAPABILITIES = [''initializer'', ''implementer'', ''verifier'', ''research'']"

definition coerce_flag :: "json \<Rightarrow> bool option" where
  "coerce_flag v = (case v of
     JBool b \<Rightarrow> Some b
   | JStr s \<Rightarrow> (let norm = casefold_ascii (strip s) in
       if norm \<in> {''true'', ''on''} then Some True
       else if norm \<in> {''false'', ''off''} then Some False else None)
   | _ \<Rightarrow> None)"

definition flag_is_set :: "dict \<Rightarrow> string \<Rightarrow> bool option" where
  "flag_is_set flags key = (case map_of flags key of None \<Rightarrow> None | Some v \<Rightarrow> coerce_flag v)"

definition is_capability_enabled :: "string \<Rightarrow> json \<Rightarrow> bool" where
  "is_capability_enabled capability flags = (case flags of
     JObj d \<Rightarrow>
       (if capability \<notin> set GATED_CAPABILITIES then False
        else let global_kill = flag_is_set d GLOBAL_KILL_FLAG; cap_key = KILL_FLAG_PREFIX @ capability;
               cap_kill = flag_is_set d cap_key in
          if global_kill = Some True then False
          else if GLOBAL_KILL_FLAG \<in> fst ` set d \<and> global_kill = None then False
          else if cap_kill = Some True then False
          else if cap_key \<in> fst ` set d \<and> cap_kill = None then False
          else True)
   | _ \<Rightarrow> False)"

definition resolve_default_value :: "json \<Rightarrow> bool option py" where
  "resolve_default_value flag_def = (case flag_def of
     JObj d \<Rightarrow>
       (if dget d ''state'' \<notin> {JNull, JStr ''ENABLED''} then Inr None
        else case dget d ''variants'' of
            JObj variants \<Rightarrow>
              (let default_variant = dget d ''defaultVariant'' in
               if \<not> hashable default_variant then Inl TypeError
               else Inr (case default_variant of
                   JStr k \<Rightarrow> (case map_of variants k of None \<Rightarrow> None | Some v \<Rightarrow> coerce_flag v) | _ \<Rightarrow> None))
          | _ \<Rightarrow> Inr None)
   | _ \<Rightarrow> Inr None)"

definition resolved_flags :: "dict \<Rightarrow> dict py" where
  "resolved_flags flags_obj =
     py_bind (py_map (\<lambda>(key, flag_def). py_bind (resolve_default_value flag_def) (\<lambda>v. Inr (key, v))) flags_obj)
       (\<lambda>kvs. Inr (foldl (\<lambda>d (key, v). case v of None \<Rightarrow> d | Some b \<Rightarrow> dset d key (JBool b)) [] kvs))"

definition load_flags :: "string option \<Rightarrow> dict py" where
  "load_flags file = (case file of
     None \<Rightarrow> Inl OSError
   | Some t \<Rightarrow> (case loads t of
         None \<Rightarrow> Inl ValueError
       | Some (JObj doc) \<Rightarrow> (case dget doc ''flags'' of JObj flags_obj \<Rightarrow> resolved_flags flags_obj | _ \<Rightarrow> Inr [])
       | Some _ \<Rightarrow> Inr []))"

subsection \<open>Lookups in the resolved flags\<close>

lemma flag_absent: "flag_is_set d k = None \<and> k \<in> fst ` set d \<longleftrightarrow> (\<exists>v. map_of d k = Some v \<and> coerce_flag v = None)"
  using map_of_eq_None_iff [of d k] by (auto simp: flag_is_set_def split: option.splits)

text \<open>A capability runs if nothing about it or about the global switch can be read as set.\<close>

definition reads_off :: "json option \<Rightarrow> bool" where
  "reads_off v = (case v of None \<Rightarrow> True | Some w \<Rightarrow> coerce_flag w = Some False)"

lemma enabled_iff:
  "is_capability_enabled cap flags \<longleftrightarrow>
     (\<exists>d. flags = JObj d \<and> cap \<in> set GATED_CAPABILITIES \<and> reads_off (map_of d GLOBAL_KILL_FLAG) \<and>
        reads_off (map_of d (KILL_FLAG_PREFIX @ cap)))"
proof -
  have off: "reads_off (map_of d k) \<longleftrightarrow> flag_is_set d k \<noteq> Some True \<and> \<not> (k \<in> fst ` set d \<and> flag_is_set d k = None)"
    for d :: dict and k
    using flag_absent [of d k]
    by (cases "map_of d k") (auto simp: reads_off_def flag_is_set_def)
  show ?thesis by (cases flags) (auto simp: is_capability_enabled_def Let_def off)
qed

lemma fold_resolved:
  assumes "distinct (map fst kvs)"
  shows "map_of (foldl (\<lambda>d (key, v). case v of None \<Rightarrow> d | Some b \<Rightarrow> dset d key (JBool b)) acc kvs) k =
    (case map_of kvs k of Some (Some b) \<Rightarrow> Some (JBool b) | _ \<Rightarrow> map_of acc k)"
  using assms
proof (induction kvs arbitrary: acc)
  case (Cons kv kvs)
  obtain k' v where kv: "kv = (k', v)" by force
  have "map_of kvs k' = None" using Cons.prems kv by (simp add: map_of_eq_None_iff)
  with Cons kv show ?case by (auto simp: dset_def update_conv' split: option.splits)
qed simp

lemma resolved_flags_lookup:
  assumes "resolved_flags flags_obj = Inr d" "distinct (map fst flags_obj)"
  shows "map_of d k = (case map_of flags_obj k of None \<Rightarrow> None
    | Some f \<Rightarrow> (case resolve_default_value f of Inr (Some b) \<Rightarrow> Some (JBool b) | _ \<Rightarrow> None))"
proof -
  obtain kvs where m: "py_map (\<lambda>(key, flag_def). py_bind (resolve_default_value flag_def) (\<lambda>v. Inr (key, v))) flags_obj = Inr kvs"
    and d: "d = foldl (\<lambda>d (key, v). case v of None \<Rightarrow> d | Some b \<Rightarrow> dset d key (JBool b)) [] kvs"
    using assms(1) by (auto simp: resolved_flags_def py_bind_Inr_iff)
  from m have a: "map fst kvs = map fst flags_obj \<and> (\<forall>k. map_of kvs k =
      (case map_of flags_obj k of None \<Rightarrow> None | Some f \<Rightarrow> (case resolve_default_value f of Inl _ \<Rightarrow> None | Inr v \<Rightarrow> Some v)))"
  proof (induction flags_obj arbitrary: kvs)
    case (Cons f fs)
    obtain k' g where f: "f = (k', g)" by force
    with Cons.prems obtain v kvs' where "resolve_default_value g = Inr v" "kvs = (k', v) # kvs'"
      "py_map (\<lambda>(key, flag_def). py_bind (resolve_default_value flag_def) (\<lambda>v. Inr (key, v))) fs = Inr kvs'"
      by (auto simp: py_bind_Inr_iff)
    with Cons.IH f show ?case by simp
  qed simp
  with assms(2) have "distinct (map fst kvs)" by simp
  from fold_resolved [OF this] a d show ?thesis by (auto split: option.splits sum.splits)
qed

subsection \<open>Properties\<close>

text \<open>
  The switch over a file: with what \<open>load_flags\<close> returns, a capability runs exactly if it is one of
  the four and neither flag of the file resolves to true. A flag that cannot be resolved, because
  its state, its variants or its default are malformed, counts as off.
\<close>

theorem loaded_switch:
  assumes "loads t = Some (JObj doc)" "dget doc ''flags'' = JObj flags_obj" "distinct (map fst flags_obj)"
    and "load_flags (Some t) = Inr d"
  shows "is_capability_enabled cap (JObj d) \<longleftrightarrow> cap \<in> set GATED_CAPABILITIES \<and>
    (\<nexists>k f. k \<in> {GLOBAL_KILL_FLAG, KILL_FLAG_PREFIX @ cap} \<and> map_of flags_obj k = Some f \<and>
      resolve_default_value f = Inr (Some True))"
proof -
  have r: "resolved_flags flags_obj = Inr d" using assms by (simp add: load_flags_def)
  have "reads_off (map_of d k) \<longleftrightarrow> (\<nexists>f. map_of flags_obj k = Some f \<and> resolve_default_value f = Inr (Some True))" for k
    unfolding resolved_flags_lookup [OF r assms(3)]
    by (auto simp: reads_off_def coerce_flag_def split: option.splits sum.splits)
  then show ?thesis by (auto simp: enabled_iff)
qed

text \<open>
  The switch fails open on a flag it cannot read: a file whose global switch names a variant that
  does not exist loads without an error and enables every capability, as do a file that is not an
  object and the empty dictionary that the docstring offers to callers who want it closed.
\<close>

theorem malformed_switch_enables:
  assumes "cap \<in> set GATED_CAPABILITIES" "k \<noteq> ''true''"
  shows "\<exists>d. load_flags (Some (dumps True (JObj [(''flags'', JObj [(GLOBAL_KILL_FLAG,
      JObj [(''state'', JStr ''ENABLED''), (''variants'', JObj [(''true'', JBool True)]),
            (''defaultVariant'', JStr k)])])]))) = Inr d \<and>
      is_capability_enabled cap (JObj d)"
    and "load_flags (Some ''[]'') = Inr []" and "is_capability_enabled cap (JObj [])"
proof -
  let ?doc = "JObj [(''flags'', JObj [(GLOBAL_KILL_FLAG,
      JObj [(''state'', JStr ''ENABLED''), (''variants'', JObj [(''true'', JBool True)]), (''defaultVariant'', JStr k)])])]"
  have "loads (dumps True ?doc) = Some ?doc" by (rule loads_dumps) simp
  then have "load_flags (Some (dumps True ?doc)) = Inr []"
    using assms(2) by (simp add: load_flags_def resolved_flags_def resolve_default_value_def del: dumps.simps)
  moreover show "is_capability_enabled cap (JObj [])" using assms(1) by (simp add: enabled_iff reads_off_def)
  ultimately show "\<exists>d. load_flags (Some (dumps True ?doc)) = Inr d \<and> is_capability_enabled cap (JObj d)" by blast
  have "loads ''[]'' = Some (JList [])" by code_simp
  then show "load_flags (Some ''[]'') = Inr []" by (simp add: load_flags_def)
qed

theorem malformed_switch_enables_witness:
  "is_capability_enabled ''verifier'' (JObj []) \<and> load_flags (Some ''[]'') = Inr []"
  using malformed_switch_enables(2,3) [of "''verifier''" "''on''"] by (simp add: GATED_CAPABILITIES_def)

definition sample_flags :: json where
  "sample_flags = JObj [(''flags'', JObj [(''kill.verifier'', JObj [(''variants'', JObj [(''on'', JBool True)]),
     (''defaultVariant'', JStr ''on'')])])]"

theorem loaded_switch_witness:
  "\<exists>d. load_flags (Some (dumps True sample_flags)) = Inr d \<and> \<not> is_capability_enabled ''verifier'' (JObj d) \<and>
     is_capability_enabled ''research'' (JObj d)"
proof -
  let ?fs = "[(''kill.verifier'', JObj [(''variants'', JObj [(''on'', JBool True)]), (''defaultVariant'', JStr ''on'')])]"
  have l: "loads (dumps True sample_flags) = Some (JObj [(''flags'', JObj ?fs)])"
    unfolding sample_flags_def by (rule loads_dumps) simp
  obtain d where d: "load_flags (Some (dumps True sample_flags)) = Inr d"
    using l by (simp add: load_flags_def resolved_flags_def resolve_default_value_def)
  note s = loaded_switch [OF l _ _ d, of ?fs]
  have "\<not> is_capability_enabled ''verifier'' (JObj d)"
    by (subst s) (simp_all add: KILL_FLAG_PREFIX_def resolve_default_value_def coerce_flag_def)
  moreover have "is_capability_enabled ''research'' (JObj d)"
    by (subst s) (auto simp: KILL_FLAG_PREFIX_def GLOBAL_KILL_FLAG_def GATED_CAPABILITIES_def)
  ultimately show ?thesis using d by blast
qed

end
