(* ===== verification/Feature_List.thy ===== *)
theory Feature_List
  imports Evidence
begin

section \<open>The feature list and its schema\<close>

text \<open>
  \<open>schema/feature_list.schema.json\<close> as a predicate on documents, the way \<open>jsonschema\<close> reads a
  draft-07 schema (a \<open>pattern\<close> is searched, \<open>$\<close> also matches before a final newline, a float with
  an integer value is an integer, \<open>format\<close> is not checked by default), and
  \<open>tools/feature_list_init.py\<close>: the defaults of an item, the empty model, the validated write. The
  model's file is absent, unreadable or a document.
\<close>

subsection \<open>The schema\<close>

definition upper_char :: "char \<Rightarrow> bool" where
  "upper_char c = (65 \<le> code c \<and> code c \<le> 90)"

text \<open>\<open>^[A-Z]+-[A-Z]+-[0-9]{3}$\<close>\<close>

definition id_pattern :: "string \<Rightarrow> bool" where
  "id_pattern s = (let a = takeWhile upper_char s; r = dropWhile upper_char s;
     b = takeWhile upper_char (tl r); r' = dropWhile upper_char (tl r); n = tl r' in
     a \<noteq> [] \<and> take 1 r = ''-'' \<and> b \<noteq> [] \<and> take 1 r' = ''-'' \<and>
     length (take 3 n) = 3 \<and> list_all digit_char (take 3 n) \<and> (drop 3 n = [] \<or> drop 3 n = [CHR 0x0A]))"

definition optional :: "dict \<Rightarrow> string \<Rightarrow> (json \<Rightarrow> bool) \<Rightarrow> bool" where
  "optional d k p = (case map_of d k of None \<Rightarrow> True | Some v \<Rightarrow> p v)"

definition required :: "dict \<Rightarrow> string list \<Rightarrow> bool" where
  "required d ks = list_all (\<lambda>k. k \<in> fst ` set d) ks"

fun enum :: "string list \<Rightarrow> json \<Rightarrow> bool" where
  "enum xs (JStr s) = (s \<in> set xs)"
| "enum xs _ = False"

fun string_such :: "(string \<Rightarrow> bool) \<Rightarrow> json \<Rightarrow> bool" where
  "string_such p (JStr s) = p s"
| "string_such p _ = False"

fun array_of :: "(json \<Rightarrow> bool) \<Rightarrow> json \<Rightarrow> bool" where
  "array_of p (JList xs) = list_all p xs"
| "array_of p _ = False"

definition positive_integer :: "json \<Rightarrow> bool" where
  "positive_integer v = (case v of JBool b \<Rightarrow> False
     | _ \<Rightarrow> (case py_num v of Some i \<Rightarrow> 1 \<le> i | None \<Rightarrow> False))"

definition evidence_kinds :: "string list" where
  "evidence_kinds = [''unit'', ''integration'', ''behavioral'', ''perf'', ''a11y'']"

definition evidence_valid :: "json \<Rightarrow> bool" where
  "evidence_valid v = (case v of JObj d \<Rightarrow>
     required d [''test_file'', ''test_name'', ''output_hash'', ''collected_at''] \<and>
     fst ` set d \<subseteq> set [''test_file'', ''test_name'', ''output_hash'', ''collected_at'', ''actor_agent'',
       ''verifier_session_id'', ''implementer_session_id'', ''evidence_kind''] \<and>
     optional d ''output_hash'' (string_such output_hash_match) \<and>
     optional d ''evidence_kind'' (enum evidence_kinds) \<and>
     list_all (\<lambda>k. optional d k (string_such (\<lambda>s. s \<noteq> []))) [''test_file'', ''test_name'', ''collected_at'',
       ''actor_agent'', ''verifier_session_id'', ''implementer_session_id'']
   | _ \<Rightarrow> False)"

definition item_fields_valid :: "dict \<Rightarrow> bool" where
  "item_fields_valid d = (
     optional d ''id'' (string_such id_pattern) \<and>
     optional d ''type'' (enum [''functional'', ''NFR'', ''WIRING'']) \<and>
     optional d ''nfr_subtype'' (enum [''performance'', ''accessibility'', ''reliability'', ''security'']) \<and>
     optional d ''subtype'' (enum [''performance'', ''accessibility'', ''ui-screen'']) \<and>
     optional d ''declared_states'' (array_of is_str) \<and>
     optional d ''priority'' positive_integer \<and>
     optional d ''title'' is_str \<and>
     optional d ''ears_pattern'' (enum [''ubiquitous'', ''event-driven'', ''state-driven'', ''unwanted'', ''optional'']) \<and>
     optional d ''ears_statement'' is_str \<and>
     optional d ''dependencies'' (array_of (string_such id_pattern)) \<and>
     optional d ''acceptance_criteria'' (\<lambda>v. array_of is_str v \<and> v \<noteq> JList []) \<and>
     optional d ''provenance'' (enum [''stated'', ''inferred'']) \<and>
     optional d ''status'' (enum [''unproven'', ''proven'', ''failed'']) \<and>
     optional d ''in_scope'' (\<lambda>v. v = JBool True \<or> v = JBool False) \<and>
     optional d ''evidence'' evidence_valid)"

text \<open>The three conditional rules: proof of a proven item, subtype of an NFR, kind of a wiring proof.\<close>

definition item_rules_valid :: "dict \<Rightarrow> bool" where
  "item_rules_valid d = (
     (map_of d ''status'' = Some (JStr ''proven'') \<longrightarrow> required d [''evidence'']) \<and>
     (map_of d ''type'' = Some (JStr ''NFR'') \<longrightarrow> required d [''nfr_subtype'']) \<and>
     (map_of d ''type'' = Some (JStr ''WIRING'') \<and> map_of d ''status'' = Some (JStr ''proven'') \<longrightarrow>
        required d [''evidence''] \<and>
        optional d ''evidence'' (\<lambda>e. case e of JObj r \<Rightarrow> map_of r ''evidence_kind'' = Some (JStr ''integration'')
          | _ \<Rightarrow> True)))"

definition coverage_item_valid :: "json \<Rightarrow> bool" where
  "coverage_item_valid v = (case v of JObj d \<Rightarrow>
     required d [''id'', ''type'', ''priority'', ''dependencies'', ''acceptance_criteria'', ''status'', ''in_scope''] \<and>
     item_fields_valid d \<and> item_rules_valid d
   | _ \<Rightarrow> False)"

definition checklist_ref_valid :: "json \<Rightarrow> bool" where
  "checklist_ref_valid v = (case v of JObj d \<Rightarrow> required d [''path'', ''version'', ''sha''] \<and>
     list_all (\<lambda>k. optional d k is_str) [''path'', ''version'', ''sha''] | _ \<Rightarrow> False)"

definition feature_list_valid :: "json \<Rightarrow> bool" where
  "feature_list_valid v = (case v of JObj d \<Rightarrow>
     required d [''schema_version'', ''product_class'', ''checklist_ref'', ''items''] \<and>
     optional d ''schema_version'' is_str \<and> optional d ''product_class'' is_str \<and>
     optional d ''checklist_ref'' checklist_ref_valid \<and> optional d ''items'' (array_of coverage_item_valid)
   | _ \<Rightarrow> False)"

subsection \<open>The initializer\<close>

definition setdefault :: "dict \<Rightarrow> string \<Rightarrow> json \<Rightarrow> dict" where
  "setdefault d k v = (if k \<in> fst ` set d then d else d @ [(k, v)])"

definition normalize_item :: "json \<Rightarrow> json py" where
  "normalize_item item = (case item of
     JObj d \<Rightarrow> Inr (JObj (setdefault (setdefault (setdefault (setdefault (setdefault d
       ''status'' (JStr ''unproven'')) ''in_scope'' (JBool True)) ''dependencies'' (JList []))
       ''acceptance_criteria'' (JList [])) ''priority'' (JInt 999)))
   | _ \<Rightarrow> Inl AttributeError)"

definition DEFAULT_CHECKLIST_REF :: json where
  "DEFAULT_CHECKLIST_REF = JObj [(''path'', JStr []), (''version'', JStr ''0.0.0''), (''sha'', JStr [])]"

definition init_feature_list :: "json list option \<Rightarrow> string \<Rightarrow> json option \<Rightarrow> string \<Rightarrow> json py" where
  "init_feature_list items product_class checklist_ref schema_version =
     py_bind (py_map normalize_item (case items of None \<Rightarrow> [] | Some xs \<Rightarrow> xs)) (\<lambda>normalized.
       Inr (JObj [(''schema_version'', JStr schema_version), (''product_class'', JStr product_class),
         (''checklist_ref'', case checklist_ref of None \<Rightarrow> DEFAULT_CHECKLIST_REF | Some r \<Rightarrow> r),
         (''items'', JList normalized)]))"

subsection \<open>Reading and writing the model\<close>

datatype model_file = NoFile | Unreadable | Parsed json

datatype schema_library = Absent | Present

datatype write_error = ValidationError | WriteError

text \<open>Without the schema library, or without a readable schema, every document passes.\<close>

definition validate_against_schema :: "schema_library \<Rightarrow> json \<Rightarrow> write_error + unit" where
  "validate_against_schema lib obj = (case lib of Absent \<Rightarrow> Inr ()
     | Present \<Rightarrow> if feature_list_valid obj then Inr () else Inl ValidationError)"

definition write_feature_list ::
    "schema_library \<Rightarrow> bool \<Rightarrow> json \<Rightarrow> model_file \<Rightarrow> model_file \<times> (write_error + unit)" where
  "write_feature_list lib writes obj file = (case validate_against_schema lib obj of
     Inl e \<Rightarrow> (file, Inl e)
   | Inr _ \<Rightarrow> if writes then (Parsed obj, Inr ()) else (file, Inl WriteError))"

end
