(* ===== verification/Wiring.thy ===== *)
theory Wiring
  imports Sha256 Coverage Feature_List
begin

section \<open>Wiring candidates\<close>

text \<open>
  From the candidates of the wiring checks to items of the coverage model:
  \<open>tools/wiring_dedup.py\<close> (one finding per symbol) and \<open>tools/wiring_ingest.py\<close> (appending the new
  ones, and the verifier's flip to failed). A flag says whether the atomic write succeeds. Two
  names with one text come in the order of the sources.
\<close>

subsection \<open>One finding per symbol\<close>

definition candidate_qualname :: "json \<Rightarrow> json py" where
  "candidate_qualname item = (case item of
     JObj d \<Rightarrow> Inr (if dget d ''qualname'' \<noteq> JNull then dget d ''qualname''
       else case dget d ''wiring'' of JObj w \<Rightarrow> dget w ''qualname'' | _ \<Rightarrow> JNull)
   | _ \<Rightarrow> Inl AttributeError)"

definition ast_is_orphan :: "dict \<Rightarrow> bool" where
  "ast_is_orphan item = (case dget item ''wiring'' of JObj w \<Rightarrow> dget w ''reachable'' = JBool False | _ \<Rightarrow> False)"

definition semgrep_is_finding :: "dict \<Rightarrow> bool" where
  "semgrep_is_finding item = (case dget item ''status'' of
     JStr s \<Rightarrow> casefold_ascii (strip s) \<notin> {[], ''clean''} | _ \<Rightarrow> False)"

definition copy_key :: "dict \<Rightarrow> string \<Rightarrow> string \<Rightarrow> dict \<Rightarrow> dict" where
  "copy_key sg k k' merged = (case map_of sg k of None \<Rightarrow> merged | Some v \<Rightarrow> dset merged k' v)"

definition enrich_with_semgrep :: "dict \<Rightarrow> dict \<Rightarrow> dict" where
  "enrich_with_semgrep merged sg = copy_key sg ''reason'' ''reason'' (copy_key sg ''callback'' ''callback''
     (copy_key sg ''decorator'' ''decorator'' (copy_key sg ''status'' ''semgrep_status'' merged)))"

definition hex_number :: "string \<Rightarrow> nat" where
  "hex_number s = foldl (\<lambda>n c. 16 * n + hex_digit_val c) 0 s"

definition three_digits :: "nat \<Rightarrow> string" where
  "three_digits n = [dig (n div 100 mod 10), dig (n div 10 mod 10), dig (n mod 10)]"

definition synthesize_item :: "dict \<Rightarrow> dict" where
  "synthesize_item sg =
     (let qn = py_str (dget sg ''qualname''); digits = hex_number (sha256_hex qn) mod 1000 in
      enrich_with_semgrep
        [(''id'', JStr (''REQ-WIRE-'' @ three_digits digits)), (''type'', JStr ''WIRING''), (''priority'', JInt 999),
         (''dependencies'', JList []),
         (''acceptance_criteria'', JList [JStr (''Symbol '' @ repr_str qn @ '' must be reachable from a real execution path.'')]),
         (''status'', JStr ''unproven''), (''in_scope'', JBool True), (''qualname'', JStr qn),
         (''wiring'', JObj [(''symbol'', JStr qn), (''qualname'', JStr qn),
            (''file'', dget_or sg ''file'' (JStr ''<semgrep>'')), (''line'', dget_or sg ''line'' (JInt 0)),
            (''reachable'', JBool False), (''source'', JStr ''semgrep_custom_rule'')]),
         (''reachable'', JBool False)] sg)"

text \<open>A dictionary by qualname: a later candidate with the same name replaces an earlier one.\<close>

definition by_qualname :: "json list \<Rightarrow> keyed py" where
  "by_qualname items = py_bind (py_map (\<lambda>i. py_bind (candidate_qualname i) (\<lambda>q. Inr (q, i))) items) (\<lambda>qis.
     let named = filter (\<lambda>(q, i). q \<noteq> JNull) qis in
     if list_ex (\<lambda>(q, i). \<not> hashable q) named then Inl TypeError
     else Inr (foldl (\<lambda>d (q, i). pset d q i) [] named))"

definition as_dict :: "json \<Rightarrow> dict" where
  "as_dict v = (case v of JObj d \<Rightarrow> d | _ \<Rightarrow> [])"

definition merge_one :: "keyed \<Rightarrow> keyed \<Rightarrow> json \<Rightarrow> json list" where
  "merge_one ast sg qualname =
     (let ast_item = pget ast qualname; sg_item = pget sg qualname;
          ast_orphan = (ast_item \<noteq> JNull \<and> ast_is_orphan (as_dict ast_item));
          sg_finding = (sg_item \<noteq> JNull \<and> semgrep_is_finding (as_dict sg_item)) in
      if \<not> ast_orphan \<and> \<not> sg_finding then []
      else if ast_item \<noteq> JNull then
        (let merged = dset (as_dict ast_item) ''qualname'' qualname;
             merged = (case dget (as_dict ast_item) ''wiring'' of
                JObj w \<Rightarrow> dset merged ''reachable'' (dget w ''reachable'') | _ \<Rightarrow> merged)
         in [JObj (if sg_item \<noteq> JNull then enrich_with_semgrep merged (as_dict sg_item) else merged)])
      else [JObj (synthesize_item (as_dict sg_item))])"

definition merge :: "json list \<Rightarrow> json list \<Rightarrow> json list py" where
  "merge ast_candidates semgrep_candidates =
     py_bind (by_qualname ast_candidates) (\<lambda>ast. py_bind (by_qualname semgrep_candidates) (\<lambda>sg.
       let names = map fst ast @ filter (\<lambda>q. \<not> list_ex (\<lambda>p. py_eq q (fst p)) ast) (map fst sg)
       in Inr (concat (map (merge_one ast sg) (sort_key py_str names)))))"

subsection \<open>Appending candidates to the model\<close>

definition load_model :: "model_file \<Rightarrow> (dict \<times> json list) option" where
  "load_model file = (case file of
     Parsed (JObj d) \<Rightarrow> (case dget d ''items'' of JList xs \<Rightarrow> Some (d, xs) | _ \<Rightarrow> None) | _ \<Rightarrow> None)"

definition item_qualname :: "json \<Rightarrow> json py" where
  "item_qualname item = (case item of
     JObj d \<Rightarrow> obj_get (py_or (dget d ''wiring'') (JObj [])) ''qualname'' | _ \<Rightarrow> Inr JNull)"

definition hash_set :: "json list \<Rightarrow> json list py" where
  "hash_set vs = (if list_all hashable vs then Inr vs else Inl TypeError)"

definition existing_quals :: "json list \<Rightarrow> json list py" where
  "existing_quals items = py_bind (py_map item_qualname items) (\<lambda>qs. hash_set (filter (\<lambda>q. q \<noteq> JNull) qs))"

definition item_ids :: "json \<Rightarrow> json list" where
  "item_ids i = (case i of JObj d \<Rightarrow> (case map_of d ''id'' of None \<Rightarrow> [] | Some v \<Rightarrow> [v]) | _ \<Rightarrow> [])"

definition existing_ids :: "json list \<Rightarrow> json list py" where
  "existing_ids items = hash_set (concat (map item_ids items))"

definition already_there :: "json list \<Rightarrow> json list \<Rightarrow> json \<Rightarrow> json \<Rightarrow> bool py" where
  "already_there quals ids qual cand_id =
     (if qual \<noteq> JNull then member_of qual quals
      else if cand_id = JNull then Inr True else member_of cand_id ids)"

definition add_known :: "json \<Rightarrow> json list \<Rightarrow> json list py" where
  "add_known v vs = (if v = JNull then Inr vs else if hashable v then Inr (vs @ [v]) else Inl TypeError)"

fun select_new :: "json list \<Rightarrow> json list \<Rightarrow> json list \<Rightarrow> json list py" where
  "select_new quals ids [] = Inr []"
| "select_new quals ids (c # cs) =
     py_bind (item_qualname c) (\<lambda>qual. py_bind (obj_get c ''id'') (\<lambda>cand_id.
     py_bind (already_there quals ids qual cand_id) (\<lambda>there.
       if there then select_new quals ids cs
       else py_bind (normalize_item c) (\<lambda>norm. py_bind (add_known qual quals) (\<lambda>quals'.
         py_bind (add_known cand_id ids) (\<lambda>ids'. py_bind (select_new quals' ids' cs) (\<lambda>rest.
           Inr (norm # rest))))))))"

definition select_new_candidates :: "json list \<Rightarrow> json list \<Rightarrow> json list py" where
  "select_new_candidates candidates items =
     py_bind (existing_quals items) (\<lambda>quals. py_bind (existing_ids items) (\<lambda>ids. select_new quals ids candidates))"

definition with_items :: "dict \<Rightarrow> json list \<Rightarrow> json" where
  "with_items d xs = JObj (dset d ''items'' (JList xs))"

definition ingest_wiring_candidates ::
    "schema_library \<Rightarrow> bool \<Rightarrow> json list \<Rightarrow> model_file \<Rightarrow> model_file \<times> nat py" where
  "ingest_wiring_candidates lib writes candidates file =
     (if candidates = [] then (file, Inr 0)
      else case load_model file of
        None \<Rightarrow> (file, Inr 0)
      | Some (d, items) \<Rightarrow> (case select_new_candidates candidates items of
            Inl e \<Rightarrow> (file, Inl e)
          | Inr appended \<Rightarrow>
              if appended = [] then (file, Inr 0)
              else if validate_against_schema lib (with_items d (items @ appended)) \<noteq> Inr () then (file, Inr 0)
              else if writes then (Parsed (with_items d (items @ appended)), Inr (length appended))
              else (file, Inr 0)))"

subsection \<open>The verifier's flip\<close>

definition flips :: "json list \<Rightarrow> json \<Rightarrow> bool py" where
  "flips unreachable item = (case item of
     JObj d \<Rightarrow>
       (if dget d ''type'' \<noteq> JStr ''WIRING'' then Inr False
        else if dget d ''status'' \<noteq> JStr ''unproven'' then Inr False
        else case py_or (dget d ''wiring'') (JObj []) of
            JObj w \<Rightarrow> if dget w ''reachable'' \<noteq> JBool False then Inr False
              else member_of (dget w ''qualname'') unreachable
          | _ \<Rightarrow> Inl AttributeError)
   | _ \<Rightarrow> Inr False)"

definition fail_item_of :: "json \<Rightarrow> json" where
  "fail_item_of item = JObj (dset (as_dict item) ''status'' (JStr ''failed''))"

definition mark_wiring_failed :: "bool \<Rightarrow> json list \<Rightarrow> model_file \<Rightarrow> model_file \<times> nat py" where
  "mark_wiring_failed writes unreachable file =
     (if unreachable = [] then (file, Inr 0)
      else case load_model file of
        None \<Rightarrow> (file, Inr 0)
      | Some (d, items) \<Rightarrow> (case py_map (flips unreachable) items of
            Inl e \<Rightarrow> (file, Inl e)
          | Inr bs \<Rightarrow>
              (let flipped = length (filter id bs) in
               if flipped = 0 then (file, Inr 0)
               else if writes then (Parsed (with_items d (map (\<lambda>(i, b). if b then fail_item_of i else i) (zip items bs))),
                 Inr flipped)
               else (file, Inr 0))))"

end
