(* ===== verification/Wiring_Properties.thy ===== *)
theory Wiring_Properties
  imports Wiring
begin

section \<open>One finding per symbol, once in the model\<close>

text \<open>
  What the merge of the two candidate lists contains, that its findings pass the schema, and that
  ingestion appends, never rewrites, and is idempotent; what the verifier's flip changes.
\<close>

subsection \<open>The merge\<close>

definition string_named :: "json list \<Rightarrow> bool" where
  "string_named cs = list_all (\<lambda>c. case candidate_qualname c of
     Inr q \<Rightarrow> is_str q \<or> q = JNull | Inl e \<Rightarrow> False) cs"

definition str_name :: "json \<Rightarrow> string option" where
  "str_name c = (case candidate_qualname c of Inr (JStr s) \<Rightarrow> Some s | _ \<Rightarrow> None)"

lemma str_name_Some: "str_name c = Some s \<longleftrightarrow> candidate_qualname c = Inr (JStr s)"
  by (auto simp: str_name_def split: sum.splits json.splits)

definition names_of :: "json list \<Rightarrow> string list" where
  "names_of cs = concat (map (\<lambda>c. case str_name c of Some s \<Rightarrow> [s] | None \<Rightarrow> []) cs)"

text \<open>The candidate that speaks for a name is the last one with it.\<close>

definition last_named :: "json list \<Rightarrow> string \<Rightarrow> json option" where
  "last_named cs s = find (\<lambda>c. str_name c = Some s) (rev cs)"

definition flagged :: "json list \<Rightarrow> json list \<Rightarrow> string \<Rightarrow> bool" where
  "flagged ast sg s = ((case last_named ast s of Some c \<Rightarrow> ast_is_orphan (as_dict c) | None \<Rightarrow> False) \<or>
     (case last_named sg s of Some c \<Rightarrow> semgrep_is_finding (as_dict c) | None \<Rightarrow> False))"

definition json_of :: "json option \<Rightarrow> json" where
  "json_of c = (case c of Some v \<Rightarrow> v | None \<Rightarrow> JNull)"

lemma candidate_is_dict: "candidate_qualname c = Inr q \<Longrightarrow> \<exists>d. c = JObj d"
  by (auto simp: candidate_qualname_def split: json.splits)

lemma pset_keys:
  "map fst (pset d (JStr s) v) = (if JStr s \<in> set (map fst d) then map fst d else map fst d @ [JStr s])"
proof -
  have "map (\<lambda>p. fst (if JStr s = fst p then (fst p, v) else p)) d = map fst d" by (induction d) auto
  then show ?thesis by (simp add: pset_def list_ex_key comp_def del: set_map)
qed

text \<open>The candidates, as pairs with their names, put into a dictionary one by one.\<close>

definition add_named :: "keyed \<Rightarrow> json \<Rightarrow> keyed" where
  "add_named d c = (case str_name c of Some s \<Rightarrow> pset d (JStr s) c | None \<Rightarrow> d)"

lemma by_qualname_add:
  assumes "string_named cs"
  shows "by_qualname cs = Inr (foldl add_named [] cs)"
proof -
  define name where "name c = projr (candidate_qualname c)" for c
  have named: "candidate_qualname c = Inr (name c) \<and> (is_str (name c) \<or> name c = JNull)" if "c \<in> set cs" for c
    using assms that by (cases "candidate_qualname c") (auto simp: string_named_def list_all_iff name_def)
  have m: "py_map (\<lambda>i. py_bind (candidate_qualname i) (\<lambda>q. Inr (q, i))) cs = Inr (map (\<lambda>c. (name c, c)) cs)"
    using named by (intro py_map_total) simp
  have h: "\<not> list_ex (\<lambda>(q, i). \<not> hashable q) (filter (\<lambda>(q, i). q \<noteq> JNull) (map (\<lambda>c. (name c, c)) cs))"
    using named by (fastforce simp: list_ex_iff elim: is_str.elims)
  have "foldl (\<lambda>d (q, i). pset d q i) acc (filter (\<lambda>(q, i). q \<noteq> JNull) (map (\<lambda>c. (name c, c)) xs)) =
      foldl add_named acc xs" if "set xs \<subseteq> set cs" for acc xs
    using that
  proof (induction xs arbitrary: acc)
    case (Cons x xs)
    then have "add_named acc x = (if name x = JNull then acc else pset acc (name x) x)"
      using named [of x] by (cases "name x") (auto simp: add_named_def str_name_def)
    with Cons show ?case by simp
  qed simp
  with m h show ?thesis by (simp add: by_qualname_def)
qed

lemma add_named_step:
  "pget (add_named d c) (JStr s) = (if str_name c = Some s then c else pget d (JStr s))"
  "set (map fst (add_named d c)) = set (map fst d) \<union> JStr ` set (names_of [c])"
  "distinct (map fst d) \<Longrightarrow> distinct (map fst (add_named d c))"
  by (cases "str_name c"; auto simp: add_named_def names_of_def pget_pset pget_pset_other pset_keys simp del: set_map)+

lemma last_named_snoc: "last_named (cs @ [c]) s = (if str_name c = Some s then Some c else last_named cs s)"
  by (simp add: last_named_def)

lemma add_named_dict:
  shows "pget (foldl add_named [] cs) (JStr s) = json_of (last_named cs s)"
    and "set (map fst (foldl add_named [] cs)) = JStr ` set (names_of cs)"
    and "distinct (map fst (foldl add_named [] cs))"
proof (induction cs rule: rev_induct)
  case Nil
  show "pget (foldl add_named [] []) (JStr s) = json_of (last_named [] s)"
    and "set (map fst (foldl add_named [] [])) = JStr ` set (names_of [])"
    and "distinct (map fst (foldl add_named [] []))"
    by (simp_all add: pget_def json_of_def last_named_def names_of_def)
next
  case (snoc c cs)
  have step: "foldl add_named [] (cs @ [c]) = add_named (foldl add_named [] cs) c" by simp
  have names: "set (names_of (cs @ [c])) = set (names_of cs) \<union> set (names_of [c])"
    by (simp add: names_of_def)
  show "pget (foldl add_named [] (cs @ [c])) (JStr s) = json_of (last_named (cs @ [c]) s)"
    unfolding step add_named_step last_named_snoc using snoc.IH(1) by (simp add: json_of_def)
  show "set (map fst (foldl add_named [] (cs @ [c]))) = JStr ` set (names_of (cs @ [c]))"
    unfolding step add_named_step names snoc.IH(2) by (simp only: image_Un)
  show "distinct (map fst (foldl add_named [] (cs @ [c])))"
    unfolding step using snoc.IH(3) by (rule add_named_step)
qed

lemma sort_strings:
  assumes "distinct qs" "set qs = JStr ` S"
  shows "sort_key py_str qs = map JStr (sorted_list_of_set S)"
proof (rule map_sorted_distinct_set_unique [of py_str])
  have fin: "finite S"
    using assms(2) finite_imageD [of JStr S] by (metis List.finite_set inj_onI json.inject(4))
  then show "set (sort_key py_str qs) = set (map JStr (sorted_list_of_set S))"
    using assms(2) by simp
  have comp: "map py_str (map JStr (sorted_list_of_set S)) = sorted_list_of_set S" by (simp add: comp_def)
  show "sorted (map py_str (map JStr (sorted_list_of_set S)))" "distinct (map py_str (map JStr (sorted_list_of_set S)))"
    unfolding comp by simp_all
  have "inj_on py_str (JStr ` S)" by (auto simp: inj_on_def)
  then show "distinct (map py_str (sort_key py_str qs))" using assms by (simp add: distinct_map)
  show "inj_on py_str (set (sort_key py_str qs) \<union> set (map JStr (sorted_list_of_set S)))"
    using assms fin by (auto simp: inj_on_def)
qed simp

definition finding_names :: "json list \<Rightarrow> json list \<Rightarrow> string list" where
  "finding_names ast sg = filter (flagged ast sg) (sort (remdups (names_of ast @ names_of sg)))"

text \<open>What the merge writes for one flagged name.\<close>

definition finding_for :: "json list \<Rightarrow> json list \<Rightarrow> string \<Rightarrow> dict" where
  "finding_for ast sg s =
     (case last_named ast s of
        Some c \<Rightarrow>
          (let merged = dset (as_dict c) ''qualname'' (JStr s);
               merged = (case dget (as_dict c) ''wiring'' of
                 JObj w \<Rightarrow> dset merged ''reachable'' (dget w ''reachable'') | _ \<Rightarrow> merged)
           in (case last_named sg s of Some g \<Rightarrow> enrich_with_semgrep merged (as_dict g) | None \<Rightarrow> merged))
      | None \<Rightarrow> synthesize_item (as_dict (json_of (last_named sg s))))"

lemma last_named_Some: "last_named cs s = Some c \<Longrightarrow> c \<in> set cs \<and> (\<exists>d. c = JObj d) \<and> candidate_qualname c = Inr (JStr s)"
proof -
  assume "last_named cs s = Some c"
  then have c: "candidate_qualname c = Inr (JStr s)" and "c \<in> set (rev cs)"
    unfolding last_named_def by (auto simp: find_Some_iff str_name_Some simp del: set_rev intro: nth_mem)
  with candidate_is_dict [OF c] show ?thesis by simp
qed

lemma json_of_last_named: "json_of (last_named cs s) = JNull \<longleftrightarrow> last_named cs s = None"
  using last_named_Some [of cs s] by (cases "last_named cs s") (auto simp: json_of_def)

lemma merge_string_named:
  assumes "string_named ast" "string_named sg"
  shows "merge ast sg = Inr (map (\<lambda>s. JObj (finding_for ast sg s)) (finding_names ast sg))"
proof -
  let ?a = "foldl add_named [] ast" and ?g = "foldl add_named [] sg"
  let ?qs = "map fst ?a @ filter (\<lambda>q. \<not> list_ex (\<lambda>p. py_eq q (fst p)) ?a) (map fst ?g)"
  have old: "list_ex (\<lambda>p. py_eq q (fst p)) ?a \<longleftrightarrow> q \<in> set (map fst ?a)" if "q \<in> set (map fst ?g)" for q
  proof -
    from that obtain s where "q = JStr s" using add_named_dict(2) [of sg] by auto
    then show ?thesis by (auto simp: list_ex_iff)
  qed
  have fl: "filter (\<lambda>q. \<not> list_ex (\<lambda>p. py_eq q (fst p)) ?a) (map fst ?g) =
      filter (\<lambda>q. q \<notin> set (map fst ?a)) (map fst ?g)"
    by (intro filter_cong refl) (simp only: old)
  have "distinct ?qs" unfolding fl using add_named_dict(3) by (auto simp del: set_map)
  moreover have "set ?qs = JStr ` set (names_of ast @ names_of sg)"
    unfolding fl using add_named_dict(2) by (auto simp del: set_map)
  ultimately have "sort_key py_str ?qs = map JStr (sorted_list_of_set (set (names_of ast @ names_of sg)))"
    by (rule sort_strings)
  then have sorted: "sort_key py_str ?qs = map JStr (sort (remdups (names_of ast @ names_of sg)))"
    by (simp only: sorted_list_of_set_sort_remdups)
  have one: "merge_one ?a ?g (JStr s) = (if flagged ast sg s then [JObj (finding_for ast sg s)] else [])" for s
  proof (cases "last_named ast s")
    case None
    then show ?thesis
      unfolding merge_one_def add_named_dict(1) Let_def json_of_last_named flagged_def finding_for_def
      by (cases "last_named sg s") (simp_all add: json_of_def)
  next
    case (Some c)
    have j: "json_of (Some c) = c" by (simp add: json_of_def)
    have "c \<noteq> JNull" using last_named_Some [OF Some] by auto
    then show ?thesis
      unfolding merge_one_def add_named_dict(1) Let_def json_of_last_named flagged_def finding_for_def Some j
      by (cases "last_named sg s") (simp_all add: json_of_def)
  qed
  have "concat (map (merge_one ?a ?g) (map JStr ss)) =
      map (\<lambda>s. JObj (finding_for ast sg s)) (filter (flagged ast sg) ss)" for ss
    by (induction ss) (simp_all add: one)
  with sorted show ?thesis
    unfolding merge_def by_qualname_add [OF assms(1)] by_qualname_add [OF assms(2)] finding_names_def
    by (simp add: Let_def)
qed

text \<open>Fields that the schema says nothing about.\<close>

definition schema_fields :: "string list" where
  "schema_fields = [''id'', ''type'', ''nfr_subtype'', ''subtype'', ''declared_states'', ''priority'', ''title'',
     ''ears_pattern'', ''ears_statement'', ''dependencies'', ''acceptance_criteria'', ''provenance'', ''status'',
     ''in_scope'', ''evidence'']"

definition agree :: "dict \<Rightarrow> dict \<Rightarrow> bool" where
  "agree d d' = (\<forall>k. k \<in> set schema_fields \<longrightarrow> map_of d k = map_of d' k)"

lemma required_map_of: "required d ks \<longleftrightarrow> list_all (\<lambda>k. (map_of d k = None) = False) ks"
  by (simp add: required_def list_all_iff map_of_eq_None_iff)

lemma agree_valid:
  assumes "agree d d'"
  shows "coverage_item_valid (JObj d) = coverage_item_valid (JObj d')"
proof -
  have "map_of d k = map_of d' k" if "k \<in> set schema_fields" for k
    using assms that by (simp add: agree_def)
  then show ?thesis
    by (simp add: coverage_item_valid_def item_fields_valid_def item_rules_valid_def optional_def required_map_of
        schema_fields_def)
qed

lemma agree_dset: "k \<notin> set schema_fields \<Longrightarrow> agree (dset d k v) d"
  by (auto simp: agree_def dset_def update_conv')

lemma agree_trans: "agree d d' \<Longrightarrow> agree d' d'' \<Longrightarrow> agree d d''" and agree_refl: "agree d d"
  by (simp_all add: agree_def)

lemma agree_copy_key: "k' \<notin> set schema_fields \<Longrightarrow> agree (copy_key sg k k' d) d"
  by (simp add: copy_key_def agree_dset agree_refl split: option.split)

lemma agree_enrich: "agree (enrich_with_semgrep d sg) d"
proof -
  have free: "''semgrep_status'' \<notin> set schema_fields" "''decorator'' \<notin> set schema_fields"
      "''callback'' \<notin> set schema_fields" "''reason'' \<notin> set schema_fields"
    by (simp_all add: schema_fields_def)
  show ?thesis
    unfolding enrich_with_semgrep_def by (meson agree_trans agree_copy_key free)
qed

lemma enrich_other:
  "k \<notin> {''semgrep_status'', ''decorator'', ''callback'', ''reason''} \<Longrightarrow>
     dget (enrich_with_semgrep d sg) k = dget d k"
  by (simp add: enrich_with_semgrep_def copy_key_def split: option.split)

lemma three_digits: "length (three_digits n) = 3" "list_all digit_char (three_digits n)"
  by (simp_all add: three_digits_def)

lemma id_pattern_wire: "id_pattern (''REQ-WIRE-'' @ three_digits n)"
  using three_digits [of n] by (simp add: id_pattern_def upper_char_def code_def Let_def)

lemma synthesized_valid: "coverage_item_valid (JObj (synthesize_item sg))"
  unfolding synthesize_item_def Let_def agree_valid [OF agree_enrich]
  using id_pattern_wire
  by (simp add: coverage_item_valid_def item_fields_valid_def item_rules_valid_def optional_def required_def
      positive_integer_def)

lemma finding_agrees:
  assumes "last_named ast s = Some c"
  shows "agree (finding_for ast sg s) (as_dict c)"
proof -
  have free: "''qualname'' \<notin> set schema_fields" "''reachable'' \<notin> set schema_fields"
    by (simp_all add: schema_fields_def)
  let ?m = "dset (as_dict c) ''qualname'' (JStr s)"
  have m: "agree (case dget (as_dict c) ''wiring'' of JObj w \<Rightarrow> dset ?m ''reachable'' (dget w ''reachable'') | _ \<Rightarrow> ?m)
      (as_dict c)"
    using agree_dset [OF free(1)] agree_trans [OF agree_dset [OF free(2)] agree_dset [OF free(1)]]
    by (simp split: json.split)
  then show ?thesis
    using agree_trans [OF agree_enrich m] by (simp add: finding_for_def assms Let_def split: option.split)
qed

lemma finding_valid:
  assumes "\<And>c. last_named ast s = Some c \<Longrightarrow> coverage_item_valid c"
  shows "coverage_item_valid (JObj (finding_for ast sg s))"
proof (cases "last_named ast s")
  case None
  then show ?thesis by (simp add: finding_for_def synthesized_valid)
next
  case (Some c)
  with last_named_Some [OF Some] have "c = JObj (as_dict c)" by (auto simp: as_dict_def)
  with assms [OF Some] show ?thesis using agree_valid [OF finding_agrees [OF Some]] by simp
qed

text \<open>Semgrep rows carry their name at the top level.\<close>

definition top_named :: "json list \<Rightarrow> bool" where
  "top_named cs = list_all (\<lambda>c. is_dict c \<and> is_str (dget (as_dict c) ''qualname'')) cs"

lemma top_named_name:
  assumes "top_named cs" "c \<in> set cs"
  shows "candidate_qualname c = Inr (dget (as_dict c) ''qualname'')" "is_str (dget (as_dict c) ''qualname'')"
proof -
  have c: "is_dict c" "is_str (dget (as_dict c) ''qualname'')"
    using assms by (auto simp: top_named_def list_all_iff)
  then show "candidate_qualname c = Inr (dget (as_dict c) ''qualname'')"
    by (cases c; cases "dget (as_dict c) ''qualname''") (simp_all add: candidate_qualname_def as_dict_def)
  show "is_str (dget (as_dict c) ''qualname'')" by (rule c)
qed

lemma top_named_string_named: "top_named cs \<Longrightarrow> string_named cs"
  using top_named_name by (auto simp: string_named_def list_all_iff)

lemma finding_name:
  assumes "top_named sg" "flagged ast sg s"
  shows "dget (finding_for ast sg s) ''qualname'' = JStr s"
proof (cases "last_named ast s")
  case None
  with assms(2) obtain g where g: "last_named sg s = Some g"
    by (auto simp: flagged_def split: option.splits)
  from last_named_Some [OF g] top_named_name [OF assms(1), of g]
  have "dget (as_dict g) ''qualname'' = JStr s" by auto
  then show ?thesis
    by (simp add: finding_for_def None g json_of_def synthesize_item_def Let_def enrich_other dget_Cons)
next
  case (Some c)
  then show ?thesis
    by (simp add: finding_for_def Let_def enrich_other split: option.split json.split)
qed

lemma finding_status:
  "dget (finding_for ast sg s) ''status'' =
     (case last_named ast s of Some c \<Rightarrow> dget (as_dict c) ''status'' | None \<Rightarrow> JStr ''unproven'')"
proof (cases "last_named ast s")
  case None
  then show ?thesis
    by (simp add: finding_for_def synthesize_item_def Let_def enrich_other dget_Cons)
next
  case (Some c)
  from finding_agrees [OF Some, of sg] have "map_of (finding_for ast sg s) ''status'' = map_of (as_dict c) ''status''"
    by (simp add: agree_def schema_fields_def)
  with Some show ?thesis by (simp add: dget_def dget_or_def)
qed

lemma finding_names_flagged: "s \<in> set (finding_names ast sg) \<Longrightarrow> flagged ast sg s"
  by (simp add: finding_names_def)

text \<open>
  For candidates with text names, Semgrep's at the top level, the merge returns one finding for
  each name that the analysis marks unreachable or that Semgrep flags (its last candidate with
  that name decides), in the order of the names, and no other; a finding that the analysis knows
  keeps its status, and one of Semgrep alone is unproven.
\<close>

theorem merge_union:
  assumes "string_named ast" "top_named sg"
  shows "\<exists>out. merge ast sg = Inr out \<and>
    map (\<lambda>f. dget (as_dict f) ''qualname'') out = map JStr (finding_names ast sg) \<and>
    map (\<lambda>f. dget (as_dict f) ''status'') out =
      map (\<lambda>s. case last_named ast s of Some c \<Rightarrow> dget (as_dict c) ''status'' | None \<Rightarrow> JStr ''unproven'')
        (finding_names ast sg) \<and>
    sorted (finding_names ast sg) \<and> distinct (finding_names ast sg) \<and>
    set (finding_names ast sg) = {s \<in> set (names_of ast @ names_of sg). flagged ast sg s}"
proof -
  have "map (\<lambda>s. dget (finding_for ast sg s) ''qualname'') (finding_names ast sg) = map JStr (finding_names ast sg)"
    using finding_name [OF assms(2)] finding_names_flagged by simp
  then have "map (\<lambda>f. dget (as_dict f) ''qualname'') (map (\<lambda>s. JObj (finding_for ast sg s)) (finding_names ast sg)) =
      map JStr (finding_names ast sg)"
    by (simp add: as_dict_def comp_def)
  moreover have "sorted (finding_names ast sg)" "distinct (finding_names ast sg)"
      "set (finding_names ast sg) = {s \<in> set (names_of ast @ names_of sg). flagged ast sg s}"
    by (auto simp: finding_names_def sorted_wrt_filter)
  ultimately show ?thesis
    unfolding merge_string_named [OF assms(1) top_named_string_named [OF assms(2)]]
    by (simp add: as_dict_def comp_def finding_status)
qed

definition ast_sample :: "json list" where
  "ast_sample =
     [JObj [(''qualname'', JStr ''b''), (''status'', JStr ''unproven''), (''wiring'', JObj [(''reachable'', JBool False)])],
      JObj [(''qualname'', JStr ''a''), (''wiring'', JObj [(''reachable'', JBool True)])]]"

definition semgrep_sample :: "json list" where
  "semgrep_sample = [JObj [(''qualname'', JStr ''b''), (''status'', JStr ''clean'')]]"

theorem merge_union_witness:
  "\<exists>out. merge ast_sample semgrep_sample = Inr out \<and>
    map (\<lambda>f. dget (as_dict f) ''qualname'') out = [JStr ''b''] \<and> map (\<lambda>f. dget (as_dict f) ''status'') out = [JStr ''unproven'']"
proof -
  have named: "string_named ast_sample" "top_named semgrep_sample"
    and names: "names_of ast_sample @ names_of semgrep_sample = [''b'', ''a'', ''b'']"
    and fl: "flagged ast_sample semgrep_sample ''b''" "\<not> flagged ast_sample semgrep_sample ''a''"
    and st: "(case last_named ast_sample ''b'' of Some c \<Rightarrow> dget (as_dict c) ''status'' | None \<Rightarrow> JStr ''unproven'') =
      JStr ''unproven''"
    by code_simp+
  from merge_union [OF named] obtain out where
    out: "merge ast_sample semgrep_sample = Inr out"
      "map (\<lambda>f. dget (as_dict f) ''qualname'') out = map JStr (finding_names ast_sample semgrep_sample)"
      "map (\<lambda>f. dget (as_dict f) ''status'') out =
        map (\<lambda>s. case last_named ast_sample s of Some c \<Rightarrow> dget (as_dict c) ''status'' | None \<Rightarrow> JStr ''unproven'')
          (finding_names ast_sample semgrep_sample)"
    and d: "distinct (finding_names ast_sample semgrep_sample)"
    and s: "set (finding_names ast_sample semgrep_sample) = {s \<in> set [''b'', ''a'', ''b'']. flagged ast_sample semgrep_sample s}"
    unfolding names by blast
  from s fl have "set (finding_names ast_sample semgrep_sample) = {''b''}" by auto
  with d have "finding_names ast_sample semgrep_sample = [''b'']"
    by (cases "finding_names ast_sample semgrep_sample"; cases "tl (finding_names ast_sample semgrep_sample)") auto
  with out st show ?thesis by simp
qed

text \<open>
  C23. When the names of the candidates are texts or absent and the analysis' own candidates pass the
  schema of a coverage item (its ordinals are below 1000), then the merge returns and every finding
  passes the schema: Semgrep's verdict never lands in a field that the schema constrains, and an
  item made from a Semgrep row alone is well-formed whatever else the row holds.
\<close>

theorem merged_findings_valid:
  assumes "string_named ast" "string_named sg" "list_all coverage_item_valid ast"
  shows "\<exists>out. merge ast sg = Inr out \<and> list_all coverage_item_valid out"
  unfolding merge_string_named [OF assms(1,2)]
  using assms(3) finding_valid last_named_Some by (auto simp: list_all_iff)

definition orphan_candidate :: "string \<Rightarrow> string \<Rightarrow> json" where
  "orphan_candidate ident qualname = JObj [(''id'', JStr ident), (''type'', JStr ''WIRING''), (''priority'', JInt 1),
     (''dependencies'', JList []), (''acceptance_criteria'', JList [JStr ''reachable'']), (''status'', JStr ''unproven''),
     (''in_scope'', JBool True), (''wiring'', JObj [(''qualname'', JStr qualname), (''reachable'', JBool False)])]"

definition unused_row :: "string \<Rightarrow> json" where
  "unused_row qualname = JObj [(''qualname'', JStr qualname), (''status'', JStr ''dead''), (''reason'', JStr ''unused'')]"

theorem merged_findings_valid_witness:
  "\<exists>f g. merge [orphan_candidate ''REQ-WIRE-001'' ''app.f''] [unused_row ''app.f'', unused_row ''app.g''] = Inr [f, g] \<and>
    coverage_item_valid f \<and> coverage_item_valid g \<and>
    dget (as_dict f) ''semgrep_status'' = JStr ''dead'' \<and> dget (as_dict g) ''qualname'' = JStr ''app.g''"
proof -
  let ?ast = "[orphan_candidate ''REQ-WIRE-001'' ''app.f'']" and ?sg = "[unused_row ''app.f'', unused_row ''app.g'']"
  have named: "string_named ?ast" "string_named ?sg" and valid: "list_all coverage_item_valid ?ast"
    and names: "finding_names ?ast ?sg = [''app.f'', ''app.g'']"
    and f: "dget (finding_for ?ast ?sg ''app.f'') ''semgrep_status'' = JStr ''dead''"
    by code_simp+
  have g: "dget (finding_for ?ast ?sg ''app.g'') ''qualname'' = JStr ''app.g''"
  proof -
    have "last_named ?ast ''app.g'' = None" "last_named ?sg ''app.g'' = Some (unused_row ''app.g'')" by code_simp+
    then show ?thesis
      by (simp add: finding_for_def json_of_def synthesize_item_def unused_row_def as_dict_def Let_def enrich_with_semgrep_def
          copy_key_def)
  qed
  from merged_findings_valid [OF named valid] merge_string_named [OF named] names f g show ?thesis
    by (auto simp: as_dict_def)
qed

end
