(* ===== verification/Ingest_Properties.thy ===== *)
theory Ingest_Properties
  imports Wiring_Properties "HOL-Library.Sublist"
begin

section \<open>Ingestion appends, once\<close>

text \<open>
  What \<open>tools/wiring_ingest.py\<close> leaves in the model: the old items as they were, then the new
  ones; a second ingestion of the same candidates adds nothing; the verifier's flip touches exactly
  the unproven wiring items of unreachable symbols; a finding of the merge reaches the model.
\<close>

subsection \<open>What is known of the model's items\<close>

definition item_quals :: "json \<Rightarrow> json list" where
  "item_quals x = (case item_qualname x of Inr q \<Rightarrow> (if q = JNull then [] else [q]) | Inl e \<Rightarrow> [])"

definition quals_ok :: "json \<Rightarrow> bool" where
  "quals_ok x = (case item_qualname x of Inr q \<Rightarrow> hashable q | Inl e \<Rightarrow> False)"

lemma existing_quals_iff:
  "existing_quals items = Inr qs \<longleftrightarrow> list_all quals_ok items \<and> qs = concat (map item_quals items)"
proof -
  have null: "hashable JNull" by simp
  have "existing_quals items = Inr qs" if "list_all quals_ok items" "qs = concat (map item_quals items)"
  proof -
    have m: "py_map item_qualname items = Inr (map (\<lambda>x. projr (item_qualname x)) items)"
    proof (rule py_map_total)
      fix x assume "x \<in> set items"
      with that(1) have "quals_ok x" by (simp add: list_all_iff)
      then show "item_qualname x = Inr (projr (item_qualname x))"
        by (cases "item_qualname x") (simp_all add: quals_ok_def)
    qed
    have c: "filter (\<lambda>q. q \<noteq> JNull) (map (\<lambda>x. projr (item_qualname x)) xs) = concat (map item_quals xs) \<and>
        list_all hashable (concat (map item_quals xs))" if "list_all quals_ok xs" for xs
      using that by (induction xs) (auto simp: quals_ok_def item_quals_def split: sum.splits)
    show ?thesis using m c [OF that(1)] that(2) by (simp add: existing_quals_def hash_set_def)
  qed
  moreover have "list_all quals_ok items \<and> qs = concat (map item_quals items)" if ex: "existing_quals items = Inr qs"
  proof -
    from ex obtain rs where m: "py_map item_qualname items = Inr rs"
      and h: "list_all hashable (filter (\<lambda>q. q \<noteq> JNull) rs)" and qs: "qs = filter (\<lambda>q. q \<noteq> JNull) rs"
      by (auto simp: existing_quals_def hash_set_def py_bind_Inr_iff split: if_splits)
    from m h have "list_all quals_ok items \<and> filter (\<lambda>q. q \<noteq> JNull) rs = concat (map item_quals items)"
      unfolding py_map_Inr_iff
    proof (induction items rs rule: list_all2_induct)
      case (Cons x xs y ys)
      then show ?case by (auto simp: quals_ok_def item_quals_def split: if_splits)
    qed simp
    with qs show ?thesis by simp
  qed
  ultimately show ?thesis by blast
qed

lemma existing_ids_iff:
  "existing_ids items = Inr ids \<longleftrightarrow> list_all (\<lambda>x. list_all hashable (item_ids x)) items \<and> ids = concat (map item_ids items)"
  by (auto simp: existing_ids_def hash_set_def list_all_iff)

text \<open>A candidate is known when ingestion skips it.\<close>

definition known :: "json list \<Rightarrow> json list \<Rightarrow> json \<Rightarrow> bool" where
  "known quals ids c = (py_bind (item_qualname c) (\<lambda>q. py_bind (obj_get c ''id'') (\<lambda>i.
     already_there quals ids q i)) = Inr True)"

lemma known_mono:
  assumes "known quals ids c" "set quals \<subseteq> set quals'" "set ids \<subseteq> set ids'"
  shows "known quals' ids' c"
proof -
  from assms(1) obtain q i where r: "item_qualname c = Inr q" "obj_get c ''id'' = Inr i"
    and "already_there quals ids q i = Inr True"
    by (auto simp: known_def py_bind_Inr_iff)
  then have "already_there quals' ids' q i = Inr True"
    using assms(2,3) by (auto simp: already_there_def member_of_def list_ex_iff split: if_splits)
  with r show ?thesis by (simp add: known_def)
qed

lemma select_new_known: "list_all (known quals ids) cs \<Longrightarrow> select_new quals ids cs = Inr []"
proof (induction cs)
  case (Cons c cs)
  then obtain q i where "item_qualname c = Inr q" "obj_get c ''id'' = Inr i" "already_there quals ids q i = Inr True"
    by (auto simp: known_def py_bind_Inr_iff)
  with Cons show ?case by simp
qed simp

lemma normalize_keeps:
  assumes "normalize_item c = Inr x"
  shows "item_qualname x = item_qualname c" "obj_get x ''id'' = obj_get c ''id''" "item_ids x = item_ids c"
proof -
  from assms obtain d where c: "c = JObj d" by (auto simp: normalize_item_def split: json.splits)
  have sd: "map_of (setdefault d k v) k' = map_of d k'" if "k \<noteq> k'" for d k k' v
    using that by (auto simp: setdefault_def map_add_def map_of_append split: option.splits)
  from assms c obtain d' where x: "x = JObj d'" and m: "map_of d' ''wiring'' = map_of d ''wiring''" "map_of d' ''id'' = map_of d ''id''"
    by (auto simp: normalize_item_def sd)
  show "item_qualname x = item_qualname c" "obj_get x ''id'' = obj_get c ''id''" "item_ids x = item_ids c"
    using c x m by (simp_all add: item_qualname_def item_ids_def dget_def dget_or_def)
qed

lemma select_new_step:
  assumes "select_new quals ids (c # cs) = Inr out"
  obtains (known) "known quals ids c" "select_new quals ids cs = Inr out"
  | (fresh) x rest q i quals' ids' where "item_qualname c = Inr q" "obj_get c ''id'' = Inr i"
      "already_there quals ids q i = Inr False" "normalize_item c = Inr x"
      "add_known q quals = Inr quals'" "add_known i ids = Inr ids'"
      "select_new quals' ids' cs = Inr rest" "out = x # rest"
proof -
  from assms obtain q i there where r: "item_qualname c = Inr q" "obj_get c ''id'' = Inr i"
    and there: "already_there quals ids q i = Inr there"
    and go: "(if there then select_new quals ids cs
       else py_bind (normalize_item c) (\<lambda>norm. py_bind (add_known q quals) (\<lambda>quals'.
         py_bind (add_known i ids) (\<lambda>ids'. py_bind (select_new quals' ids' cs) (\<lambda>rest. Inr (norm # rest)))))) = Inr out"
    by (auto simp: py_bind_Inr_iff)
  show thesis
  proof (cases there)
    case True
    with r there go show thesis by (intro known) (simp_all add: known_def)
  next
    case False
    with go obtain x quals' ids' rest where "normalize_item c = Inr x" "add_known q quals = Inr quals'"
      "add_known i ids = Inr ids'" "select_new quals' ids' cs = Inr rest" "out = x # rest"
      by (auto simp: py_bind_Inr_iff)
    with r there False show thesis by (intro fresh) simp_all
  qed
qed

lemma add_known_iff:
  "add_known v vs = Inr vs' \<longleftrightarrow> hashable v \<and> vs' = (if v = JNull then vs else vs @ [v])"
  by (auto simp: add_known_def)

lemma select_new_appends:
  assumes "select_new quals ids cs = Inr out"
  shows "(\<exists>cs'. subseq cs' cs \<and> py_map normalize_item cs' = Inr out) \<and>
    list_all quals_ok out \<and> list_all (\<lambda>x. list_all hashable (item_ids x)) out \<and>
    list_all (known (quals @ concat (map item_quals out)) (ids @ concat (map item_ids out))) cs"
  using assms
proof (induction cs arbitrary: quals ids out)
  case Nil
  then show ?case by (auto intro!: exI [of _ "[]"])
next
  case (Cons c cs)
  from Cons.prems show ?case
  proof (cases rule: select_new_step)
    case known
    from Cons.IH [OF known(2)] obtain cs' where cs': "subseq cs' cs" "py_map normalize_item cs' = Inr out"
      and rest: "list_all quals_ok out" "list_all (\<lambda>x. list_all hashable (item_ids x)) out"
        "list_all (known (quals @ concat (map item_quals out)) (ids @ concat (map item_ids out))) cs"
      by blast
    have "subseq cs' (c # cs)" using cs'(1) by (rule list_emb_Cons)
    moreover have "known (quals @ concat (map item_quals out)) (ids @ concat (map item_ids out)) c"
      using known_mono [OF known(1)] by simp
    ultimately show ?thesis using cs'(2) rest by auto
  next
    case (fresh x rest q i quals' ids')
    from Cons.IH [OF fresh(7)] obtain cs' where cs': "subseq cs' cs" "py_map normalize_item cs' = Inr rest"
      and r: "list_all quals_ok rest" "list_all (\<lambda>x. list_all hashable (item_ids x)) rest"
        "list_all (known (quals' @ concat (map item_quals rest)) (ids' @ concat (map item_ids rest))) cs"
      by blast
    from fresh(5,6) have h: "hashable q" "hashable i"
      and q': "quals' = (if q = JNull then quals else quals @ [q])" and i': "ids' = (if i = JNull then ids else ids @ [i])"
      by (auto simp: add_known_iff)
    note keep = normalize_keeps [OF fresh(4)]
    have iq: "item_quals x = (if q = JNull then [] else [q])" "quals_ok x"
      using keep(1) fresh(1) h by (simp_all add: item_quals_def quals_ok_def)
    from fresh(2) obtain d where c: "c = JObj d" and i: "i = dget d ''id''"
      by (cases c) auto
    have ii: "list_all hashable (item_ids x)" "i \<noteq> JNull \<Longrightarrow> item_ids x = [i]"
      using keep(3) h c i by (auto simp: item_ids_def dget_def dget_or_def split: option.splits)
    have incl: "set (quals' @ concat (map item_quals rest)) \<subseteq> set (quals @ concat (map item_quals out))"
      "set (ids' @ concat (map item_ids rest)) \<subseteq> set (ids @ concat (map item_ids out))"
      using q' i' iq ii(2) fresh(8) by auto
    have "known (quals' @ concat (map item_quals rest)) (ids' @ concat (map item_ids rest)) c"
    proof (cases "q = JNull")
      case False
      with q' h(1) show ?thesis
        using fresh(1,2) py_eq_refl_hashable by (auto simp: known_def already_there_def member_of_def)
    next
      case True
      with fresh(3) have "i \<noteq> JNull" by (auto simp: already_there_def)
      with True i' h(2) show ?thesis
        using fresh(1,2) py_eq_refl_hashable by (auto simp: known_def already_there_def member_of_def)
    qed
    with r(3) have "list_all (known (quals @ concat (map item_quals out)) (ids @ concat (map item_ids out))) (c # cs)"
      using known_mono [OF _ incl] by (auto simp: list_all_iff)
    moreover have "subseq (c # cs') (c # cs)" using cs'(1) by simp
    moreover have "py_map normalize_item (c # cs') = Inr out" using fresh(4,8) cs'(2) by simp
    ultimately show ?thesis using r(1,2) iq(2) ii(1) fresh(8) by auto
  qed
qed

subsection \<open>Ingestion\<close>

lemma load_model_with_items: "load_model (Parsed (with_items d xs)) = Some (dset d ''items'' (JList xs), xs)"
  by (simp add: load_model_def with_items_def)

lemma load_model_Some: "load_model file = Some (d, xs) \<Longrightarrow> file = Parsed (JObj d) \<and> map_of d ''items'' = Some (JList xs)"
  by (auto simp: load_model_def dget_def dget_or_def split: model_file.splits json.splits option.splits)

lemma ingest_wrote:
  assumes "ingest_wiring_candidates lib writes cs file = (file', Inr n)" "0 < n"
  obtains d items new where "load_model file = Some (d, items)" "select_new_candidates cs items = Inr new"
    "file' = Parsed (with_items d (items @ new))" "n = length new"
    "validate_against_schema lib (with_items d (items @ new)) = Inr ()" writes
  using assms by (auto simp: ingest_wiring_candidates_def split: if_splits option.splits sum.splits)

lemma select_again:
  assumes "select_new_candidates cs items = Inr new"
  shows "select_new_candidates cs (items @ new) = Inr []"
proof -
  from assms obtain quals ids where q: "existing_quals items = Inr quals" and i: "existing_ids items = Inr ids"
    and s: "select_new quals ids cs = Inr new"
    by (auto simp: select_new_candidates_def py_bind_Inr_iff)
  note a = select_new_appends [OF s]
  have "existing_quals (items @ new) = Inr (quals @ concat (map item_quals new))"
    using q a by (simp add: existing_quals_iff)
  moreover have "existing_ids (items @ new) = Inr (ids @ concat (map item_ids new))"
    using i a by (simp add: existing_ids_iff)
  ultimately show ?thesis using a by (simp add: select_new_candidates_def select_new_known)
qed

text \<open>
  When ingestion reports that it wrote, the model holds the old items, unchanged and in their
  order, followed by that many new ones, each a candidate with its defaults filled, in the order of
  the candidates; the whole passes the schema, and ingesting the same candidates again writes
  nothing, whatever the schema library and the disk then do.
\<close>

theorem ingest_appends_once:
  assumes "ingest_wiring_candidates lib writes cs file = (file', Inr n)" "0 < n"
  shows "\<exists>d items cs' new. load_model file = Some (d, items) \<and> subseq cs' cs \<and> py_map normalize_item cs' = Inr new \<and>
    file' = Parsed (with_items d (items @ new)) \<and> n = length new \<and>
    validate_against_schema lib (with_items d (items @ new)) = Inr () \<and>
    (\<forall>lib' writes'. ingest_wiring_candidates lib' writes' cs file' = (file', Inr 0))"
proof -
  from ingest_wrote [OF assms] obtain d items new where
    r: "load_model file = Some (d, items)" "select_new_candidates cs items = Inr new"
      "file' = Parsed (with_items d (items @ new))" "n = length new"
      "validate_against_schema lib (with_items d (items @ new)) = Inr ()"
    by metis
  from r(2) obtain quals ids where "select_new quals ids cs = Inr new"
    by (auto simp: select_new_candidates_def py_bind_Inr_iff)
  from select_new_appends [OF this] obtain cs' where "subseq cs' cs" "py_map normalize_item cs' = Inr new"
    by blast
  moreover have "ingest_wiring_candidates lib' writes' cs file' = (file', Inr 0)" for lib' writes'
    by (simp add: ingest_wiring_candidates_def r(3) load_model_with_items select_again [OF r(2)])
  ultimately show ?thesis using r by blast
qed

definition empty_model :: json where
  "empty_model = JObj [(''schema_version'', JStr ''1.0.0''), (''product_class'', JStr ''undetermined''),
     (''checklist_ref'', DEFAULT_CHECKLIST_REF), (''items'', JList [])]"

definition wiring_candidate :: "string \<Rightarrow> string \<Rightarrow> dict \<Rightarrow> json" where
  "wiring_candidate ident qualname rest = JObj ([(''id'', JStr ident), (''type'', JStr ''WIRING''), (''priority'', JInt 1),
     (''dependencies'', JList []), (''acceptance_criteria'', JList [JStr ''reachable'']),
     (''wiring'', JObj [(''qualname'', JStr qualname), (''reachable'', JBool False)])] @ rest)"

definition sample_candidate :: json where
  "sample_candidate = wiring_candidate ''REQ-WIRE-001'' ''app.f'' []"

lemma ingest_sample:
  "snd (ingest_wiring_candidates Present True [sample_candidate] (Parsed empty_model)) = Inr 1"
  by code_simp

theorem ingest_appends_once_witness:
  "\<exists>file'. ingest_wiring_candidates Present True [sample_candidate] (Parsed empty_model) = (file', Inr 1) \<and>
    ingest_wiring_candidates Absent False [sample_candidate] file' = (file', Inr 0)"
proof -
  obtain file' where run: "ingest_wiring_candidates Present True [sample_candidate] (Parsed empty_model) = (file', Inr 1)"
    using ingest_sample by (metis prod.collapse)
  from ingest_appends_once [OF run] run show ?thesis by auto
qed

subsection \<open>The verifier's flip\<close>

lemma flips_iff:
  "flips un i = Inr True \<longleftrightarrow> (\<exists>d w. i = JObj d \<and> dget d ''type'' = JStr ''WIRING'' \<and> dget d ''status'' = JStr ''unproven'' \<and>
     py_or (dget d ''wiring'') (JObj []) = JObj w \<and> dget w ''reachable'' = JBool False \<and>
     member_of (dget w ''qualname'') un = Inr True)"
  by (auto simp: flips_def split: json.splits if_splits)

lemma flips_failed: "flips un i = Inr True \<Longrightarrow> flips un' (fail_item_of i) = Inr False"
  by (auto simp: flips_iff) (auto simp: flips_def fail_item_of_def as_dict_def)

text \<open>
  When the verifier's flip reports that it wrote, every item of the model is as it was except
  that the unproven wiring items that the analysis found unreachable and whose symbol is among the
  named ones are failed; as many as reported; and the same flip again changes nothing.
\<close>

theorem mark_failed_exact:
  assumes "mark_wiring_failed writes un file = (file', Inr n)" "0 < n"
  shows "\<exists>d items. load_model file = Some (d, items) \<and>
    file' = Parsed (with_items d (map (\<lambda>i. if flips un i = Inr True then fail_item_of i else i) items)) \<and>
    n = length (filter (\<lambda>i. flips un i = Inr True) items) \<and>
    (\<forall>writes'. mark_wiring_failed writes' un file' = (file', Inr 0))"
proof -
  from assms obtain d items bs where l: "load_model file = Some (d, items)" and m: "py_map (flips un) items = Inr bs"
    and n: "n = length (filter id bs)"
    and f: "file' = Parsed (with_items d (map (\<lambda>(i, b). if b then fail_item_of i else i) (zip items bs)))"
    by (auto simp: mark_wiring_failed_def Let_def split: if_splits option.splits sum.splits)
  let ?new = "map (\<lambda>i. if flips un i = Inr True then fail_item_of i else i) items"
  from m have two: "map (\<lambda>(i, b). if b then fail_item_of i else i) (zip items bs) = ?new \<and>
      length (filter id bs) = length (filter (\<lambda>i. flips un i = Inr True) items) \<and>
      py_map (flips un) ?new = Inr (map (\<lambda>i. False) items)"
    unfolding py_map_Inr_iff [of _ items]
    by (induction items bs rule: list_all2_induct) (auto simp: flips_failed)
  have "mark_wiring_failed writes' un file' = (file', Inr 0)" for writes'
    unfolding mark_wiring_failed_def f load_model_with_items using two
    by (simp add: filter_empty_conv)
  with l n f two show ?thesis by auto
qed

theorem mark_failed_exact_witness:
  "\<exists>file'. mark_wiring_failed True [JStr ''app.f'']
      (Parsed (with_items [] [wiring_candidate ''REQ-WIRE-001'' ''app.f'' [(''status'', JStr ''unproven'')]])) = (file', Inr 1) \<and>
    mark_wiring_failed True [JStr ''app.f''] file' = (file', Inr 0)"
proof -
  let ?m = "mark_wiring_failed True [JStr ''app.f'']
      (Parsed (with_items [] [wiring_candidate ''REQ-WIRE-001'' ''app.f'' [(''status'', JStr ''unproven'')]]))"
  have "snd ?m = Inr 1" by code_simp
  then obtain file' where run: "?m = (file', Inr 1)" by (metis prod.collapse)
  from mark_failed_exact [OF run] run show ?thesis by auto
qed

subsection \<open>From the checks to the model\<close>

text \<open>The candidates of the reachability analysis name their symbol inside the wiring object.\<close>

definition nested_named :: "json list \<Rightarrow> bool" where
  "nested_named cs = list_all (\<lambda>c. case item_qualname c of Inr (JStr s) \<Rightarrow> candidate_qualname c = Inr (JStr s) | _ \<Rightarrow> False) cs"

lemma normalize_valid: "coverage_item_valid c \<Longrightarrow> normalize_item c = Inr c"
  by (auto simp: coverage_item_valid_def normalize_item_def setdefault_def required_def split: json.splits)

lemma valid_id_string: "coverage_item_valid c \<Longrightarrow> \<exists>i. obj_get c ''id'' = Inr (JStr i) \<and> item_ids c = [JStr i]"
proof -
  assume v: "coverage_item_valid c"
  then obtain d where c: "c = JObj d" by (auto simp: coverage_item_valid_def split: json.splits)
  with v obtain i where "map_of d ''id'' = Some i" "string_such id_pattern i"
    by (auto simp: coverage_item_valid_def item_fields_valid_def required_map_of optional_def)
  with c show ?thesis by (cases i) (simp_all add: dget_def dget_or_def item_ids_def)
qed

lemma valid_with_items:
  assumes "feature_list_valid (JObj d)" "list_all coverage_item_valid xs"
  shows "feature_list_valid (with_items d xs)"
  using assms by (simp add: feature_list_valid_def with_items_def optional_def required_map_of dset_def update_conv')

definition well_named :: "json \<Rightarrow> bool" where
  "well_named c = (coverage_item_valid c \<and> (case item_qualname c of Inr q \<Rightarrow> is_str q | Inl e \<Rightarrow> False))"

lemma select_new_total: "list_all well_named cs \<Longrightarrow> \<exists>out. select_new quals ids cs = Inr out"
proof (induction cs arbitrary: quals ids)
  case (Cons c cs)
  then have c: "coverage_item_valid c" and "\<exists>s. item_qualname c = Inr (JStr s)"
    by (auto simp: well_named_def split: sum.splits elim: is_str.elims)
  then obtain s i where "item_qualname c = Inr (JStr s)" "obj_get c ''id'' = Inr (JStr i)" "normalize_item c = Inr c"
    using valid_id_string normalize_valid by blast
  moreover obtain rest where "select_new (quals @ [JStr s]) (ids @ [JStr i]) cs = Inr rest"
    using Cons by auto
  ultimately show ?case using Cons by (simp add: already_there_def member_of_def add_known_def)
qed simp

lemma known_string:
  assumes "known quals ids c" "item_qualname c = Inr (JStr s)"
  shows "JStr s \<in> set quals"
  using assms by (auto simp: known_def already_there_def member_of_def py_bind_Inr_iff list_ex_iff)

lemma item_quals_mem: "q \<in> set (item_quals x) \<longleftrightarrow> item_qualname x = Inr q \<and> (q = JNull) = False"
  by (cases "item_qualname x") (auto simp: item_quals_def)

lemma ingest_covers:
  assumes model: "feature_list_valid (JObj d)" "map_of d ''items'' = Some (JList items)" "list_all quals_ok items"
    and cs: "list_all well_named cs"
  shows "\<exists>new. ingest_wiring_candidates Present True cs (Parsed (JObj d)) = (Parsed (with_items d (items @ new)), Inr (length new)) \<and>
    feature_list_valid (with_items d (items @ new)) \<and>
    (\<forall>c s. c \<in> set cs \<and> item_qualname c = Inr (JStr s) \<longrightarrow> (\<exists>i. i \<in> set (items @ new) \<and> item_qualname i = Inr (JStr s)))"
proof -
  have load: "load_model (Parsed (JObj d)) = Some (d, items)"
    using model(2) by (simp add: load_model_def dget_def dget_or_def)
  have items: "list_all coverage_item_valid items"
    using model(1,2) by (simp add: feature_list_valid_def optional_def)
  have "list_all (\<lambda>x. list_all hashable (item_ids x)) items"
    using items valid_id_string by (fastforce simp: list_all_iff)
  then have i: "existing_ids items = Inr (concat (map item_ids items))" by (simp add: existing_ids_iff)
  have q: "existing_quals items = Inr (concat (map item_quals items))"
    using model(3) by (simp add: existing_quals_iff)
  from select_new_total [OF cs] obtain new where
    s: "select_new (concat (map item_quals items)) (concat (map item_ids items)) cs = Inr new" by blast
  then have sel: "select_new_candidates cs items = Inr new" by (simp add: select_new_candidates_def q i)
  from select_new_appends [OF s] obtain cs' where cs': "subseq cs' cs" "py_map normalize_item cs' = Inr new"
    and kn: "list_all (known (concat (map item_quals items) @ concat (map item_quals new))
      (concat (map item_ids items) @ concat (map item_ids new))) cs"
    by blast
  from cs'(1) have sub: "set cs' \<subseteq> set cs" by (auto dest: list_emb_set)
  have valid: "coverage_item_valid c" if "c \<in> set cs'" for c
    using cs sub that by (auto simp: well_named_def list_all_iff)
  have "py_map normalize_item cs' = Inr (map (\<lambda>x. x) cs')"
    by (rule py_map_total) (rule normalize_valid, rule valid)
  with cs'(2) valid have new: "list_all coverage_item_valid new" by (simp add: list_all_iff)
  have v: "feature_list_valid (with_items d (items @ new))"
    using valid_with_items [OF model(1)] items new by simp
  have same: "with_items d items = JObj d"
    using model(2) unfolding with_items_def dset_def by (induction d) (auto split: if_splits)
  have "ingest_wiring_candidates Present True cs (Parsed (JObj d)) =
      (Parsed (with_items d (items @ new)), Inr (length new))"
  proof (cases "new = []")
    case True
    then show ?thesis by (simp add: ingest_wiring_candidates_def load sel same)
  next
    case False
    moreover have "cs \<noteq> []" using False s by (cases cs) simp_all
    ultimately show ?thesis
      using v by (simp add: ingest_wiring_candidates_def load sel validate_against_schema_def)
  qed
  moreover have "\<exists>i. i \<in> set (items @ new) \<and> item_qualname i = Inr (JStr s)"
    if "c \<in> set cs" "item_qualname c = Inr (JStr s)" for c s
  proof -
    from kn that(1) have "known (concat (map item_quals items) @ concat (map item_quals new))
      (concat (map item_ids items) @ concat (map item_ids new)) c" by (auto simp: list_all_iff)
    from known_string [OF this that(2)] show ?thesis by (auto simp: item_quals_mem)
  qed
  ultimately show ?thesis using v by blast
qed

lemma nested_named_names:
  assumes "nested_named cs" "c \<in> set cs"
  obtains s where "item_qualname c = Inr (JStr s)" "candidate_qualname c = Inr (JStr s)"
proof -
  from assms have "case item_qualname c of Inr (JStr s) \<Rightarrow> candidate_qualname c = Inr (JStr s) | _ \<Rightarrow> False"
    by (simp add: nested_named_def list_all_iff)
  then show thesis using that by (cases "item_qualname c"; cases "projr (item_qualname c)") simp_all
qed

lemma nested_string_named: "nested_named cs \<Longrightarrow> string_named cs"
  unfolding string_named_def list_all_iff by (auto elim: nested_named_names)

lemma finding_wiring:
  "dget (finding_for ast sg s) ''wiring'' = (case last_named ast s of Some c \<Rightarrow> dget (as_dict c) ''wiring''
     | None \<Rightarrow> dget (synthesize_item (as_dict (json_of (last_named sg s)))) ''wiring'')"
  by (simp add: finding_for_def Let_def enrich_other split: option.split json.split)

lemma finding_symbol:
  assumes "nested_named ast" "top_named sg" "flagged ast sg s"
  shows "item_qualname (JObj (finding_for ast sg s)) = Inr (JStr s)"
proof (cases "last_named ast s")
  case None
  with assms(3) obtain g where g: "last_named sg s = Some g"
    by (auto simp: flagged_def split: option.splits)
  from last_named_Some [OF g] top_named_name [OF assms(2), of g]
  have "dget (as_dict g) ''qualname'' = JStr s" by auto
  then show ?thesis
    by (simp add: item_qualname_def finding_wiring None g json_of_def synthesize_item_def Let_def enrich_other py_or_def)
next
  case (Some c)
  from last_named_Some [OF Some] obtain d where c: "c \<in> set ast" "c = JObj d" "candidate_qualname c = Inr (JStr s)"
    by blast
  from nested_named_names [OF assms(1) c(1)] c(3) have "item_qualname c = Inr (JStr s)" by auto
  then show ?thesis
    using c(2) by (simp add: item_qualname_def finding_wiring Some as_dict_def)
qed

text \<open>
  C24. From the two checks to the model: when the candidates of the analysis pass the schema (their
  ordinals are below 1000) and carry their symbol, Semgrep's rows are named, the model is valid and
  the symbols of its items can be collected, the schema library is there and the file can be written,
  then merging and ingesting succeed, the model stays valid and keeps its items as a prefix, and
  every symbol that either check flags is the symbol of an item of the model.
\<close>

theorem findings_reach_model:
  assumes "list_all coverage_item_valid ast" "nested_named ast" "top_named sg"
    and "feature_list_valid (JObj d)" "map_of d ''items'' = Some (JList items)" "list_all quals_ok items"
  shows "\<exists>out new. merge ast sg = Inr out \<and>
    ingest_wiring_candidates Present True out (Parsed (JObj d)) = (Parsed (with_items d (items @ new)), Inr (length new)) \<and>
    feature_list_valid (with_items d (items @ new)) \<and>
    set (finding_names ast sg) \<subseteq> {s. \<exists>i. i \<in> set (items @ new) \<and> item_qualname i = Inr (JStr s)}"
proof -
  note named = nested_string_named [OF assms(2)] top_named_string_named [OF assms(3)]
  let ?out = "map (\<lambda>s. JObj (finding_for ast sg s)) (finding_names ast sg)"
  have m: "merge ast sg = Inr ?out" by (rule merge_string_named [OF named])
  have sym: "item_qualname (JObj (finding_for ast sg s)) = Inr (JStr s)" if "s \<in> set (finding_names ast sg)" for s
    using finding_symbol [OF assms(2,3)] finding_names_flagged [OF that] by blast
  have "coverage_item_valid (JObj (finding_for ast sg s))" for s
    using finding_valid last_named_Some assms(1) by (auto simp: list_all_iff)
  then have "list_all well_named ?out" using sym by (auto simp: list_all_iff well_named_def)
  from ingest_covers [OF assms(4-6) this] obtain new where
    run: "ingest_wiring_candidates Present True ?out (Parsed (JObj d)) = (Parsed (with_items d (items @ new)), Inr (length new))"
      "feature_list_valid (with_items d (items @ new))"
    and cov: "\<And>c s. c \<in> set ?out \<Longrightarrow> item_qualname c = Inr (JStr s) \<Longrightarrow> \<exists>i. i \<in> set (items @ new) \<and> item_qualname i = Inr (JStr s)"
    by blast
  have "\<exists>i. i \<in> set (items @ new) \<and> item_qualname i = Inr (JStr s)" if "s \<in> set (finding_names ast sg)" for s
    using cov [of "JObj (finding_for ast sg s)" s] sym [OF that] that by auto
  with m run show ?thesis by blast
qed

definition tracked_model :: dict where
  "tracked_model = [(''schema_version'', JStr ''1.0.0''), (''product_class'', JStr ''undetermined''),
     (''checklist_ref'', DEFAULT_CHECKLIST_REF), (''items'', JList [orphan_candidate ''REQ-WIRE-007'' ''app.f''])]"

theorem findings_reach_model_witness:
  "\<exists>out new i j. merge [orphan_candidate ''REQ-WIRE-001'' ''app.e''] [unused_row ''app.f'', unused_row ''app.g''] = Inr out \<and>
    ingest_wiring_candidates Present True out (Parsed (JObj tracked_model)) =
      (Parsed (with_items tracked_model (orphan_candidate ''REQ-WIRE-007'' ''app.f'' # new)), Inr (length new)) \<and>
    i \<in> set new \<and> item_qualname i = Inr (JStr ''app.e'') \<and> j \<in> set new \<and> item_qualname j = Inr (JStr ''app.g'')"
proof -
  let ?ast = "[orphan_candidate ''REQ-WIRE-001'' ''app.e'']" and ?sg = "[unused_row ''app.f'', unused_row ''app.g'']"
  let ?item = "orphan_candidate ''REQ-WIRE-007'' ''app.f''"
  have ast: "list_all coverage_item_valid ?ast" "nested_named ?ast" and sg: "top_named ?sg"
    and model: "feature_list_valid (JObj tracked_model)" "list_all quals_ok [?item]"
    and names: "finding_names ?ast ?sg = [''app.e'', ''app.f'', ''app.g'']" and old: "item_qualname ?item = Inr (JStr ''app.f'')"
    by code_simp+
  have items: "map_of tracked_model ''items'' = Some (JList [?item])" by (simp add: tracked_model_def)
  from findings_reach_model [OF ast sg model(1) items model(2)] obtain out new where
    r: "merge ?ast ?sg = Inr out"
      "ingest_wiring_candidates Present True out (Parsed (JObj tracked_model)) = (Parsed (with_items tracked_model ([?item] @ new)), Inr (length new))"
      and reach: "set (finding_names ?ast ?sg) \<subseteq> {s. \<exists>i. i \<in> set ([?item] @ new) \<and> item_qualname i = Inr (JStr s)}"
    by blast
  have "\<exists>i. i \<in> set new \<and> item_qualname i = Inr (JStr s)" if "s \<in> {''app.e'', ''app.g''}" for s
    using reach that old by (auto simp: names)
  then have "\<exists>i. i \<in> set new \<and> item_qualname i = Inr (JStr ''app.e'')" "\<exists>j. j \<in> set new \<and> item_qualname j = Inr (JStr ''app.g'')"
    by blast+
  with r show ?thesis by auto
qed

subsection \<open>Where names and statuses come from\<close>

definition nested_row :: "string \<Rightarrow> json" where
  "nested_row s = JObj [(''wiring'', JObj [(''qualname'', JStr s)]), (''status'', JStr ''dead'')]"

lemma nested_row_name: "candidate_qualname (nested_row s) = Inr (JStr s)"
  by (simp add: nested_row_def candidate_qualname_def)

text \<open>
  A Semgrep row that names its symbol only inside a wiring object is merged under that name, and
  the item made from it is about a symbol called None.
\<close>

theorem nested_semgrep_name_lost:
  "\<exists>f. candidate_qualname (nested_row s) = Inr (JStr s) \<and> merge [] [nested_row s] = Inr [JObj f] \<and>
    dget f ''qualname'' = JStr ''None'' \<and> item_qualname (JObj f) = Inr (JStr ''None'')"
proof -
  have named: "string_named []" "string_named [nested_row s]"
    by (simp_all add: string_named_def nested_row_name)
  have last: "last_named [] s = None" "last_named [nested_row s] s = Some (nested_row s)"
    by (simp_all add: last_named_def str_name_Some nested_row_name)
  have names: "names_of [] = []" "names_of [nested_row s] = [s]"
    by (simp_all add: names_of_def str_name_def nested_row_name)
  have dead: "semgrep_is_finding (as_dict (nested_row s))"
    unfolding nested_row_def as_dict_def semgrep_is_finding_def by code_simp
  let ?f = "synthesize_item (as_dict (nested_row s))"
  have "finding_names [] [nested_row s] = [s]"
    using dead by (simp add: finding_names_def names flagged_def last)
  then have "merge [] [nested_row s] = Inr [JObj ?f]"
    using merge_string_named [OF named] by (simp add: finding_for_def last json_of_def)
  moreover have "dget (as_dict (nested_row s)) ''qualname'' = JNull"
    by (simp add: nested_row_def as_dict_def)
  then have "dget ?f ''qualname'' = JStr ''None'' \<and> item_qualname (JObj ?f) = Inr (JStr ''None'')"
    by (simp add: synthesize_item_def Let_def enrich_other item_qualname_def py_or_def)
  ultimately show ?thesis using nested_row_name by blast
qed

definition proof_record :: json where
  "proof_record = JObj [(''test_file'', JStr ''t.py''), (''test_name'', JStr ''t''),
     (''output_hash'', JStr (''sha256:'' @ replicate 64 CHR ''0'')), (''collected_at'', JStr ''2026-01-01T00:00:00''),
     (''evidence_kind'', JStr ''integration'')]"

definition proven_candidate :: json where
  "proven_candidate = wiring_candidate ''REQ-WIRE-001'' ''app.f'' [(''status'', JStr ''proven''), (''evidence'', proof_record)]"

definition same_id_candidate :: json where
  "same_id_candidate = wiring_candidate ''REQ-WIRE-001'' ''app.g'' []"

text \<open>
  Ingestion takes the status and the identifier of a candidate as they are: a candidate that
  says it is proven enters the model as proven, and a candidate whose identifier the model already
  has enters it when its symbol is new.
\<close>

theorem ingest_takes_status_and_id:
  "\<exists>new d items. ingest_wiring_candidates Present True [proven_candidate, same_id_candidate] (Parsed empty_model) =
      (Parsed new, Inr 2) \<and> load_model (Parsed new) = Some (d, items) \<and>
    map (\<lambda>i. dget (as_dict i) ''status'') items = [JStr ''proven'', JStr ''unproven''] \<and>
    map (\<lambda>i. dget (as_dict i) ''id'') items = [JStr ''REQ-WIRE-001'', JStr ''REQ-WIRE-001'']"
proof -
  let ?run = "ingest_wiring_candidates Present True [proven_candidate, same_id_candidate] (Parsed empty_model)"
  have r: "snd ?run = Inr 2" "map_option (\<lambda>(d, items). (map (\<lambda>i. dget (as_dict i) ''status'') items,
      map (\<lambda>i. dget (as_dict i) ''id'') items)) (load_model (fst ?run)) =
    Some ([JStr ''proven'', JStr ''unproven''], [JStr ''REQ-WIRE-001'', JStr ''REQ-WIRE-001''])"
    by code_simp+
  then obtain d items where l: "load_model (fst ?run) = Some (d, items)" by auto
  from load_model_Some [OF l] have "?run = (Parsed (JObj d), Inr 2)" using r(1) by (simp add: prod_eq_iff)
  with l r(2) show ?thesis by (intro exI [of _ "JObj d"] exI [of _ d] exI [of _ items]) simp
qed

end
