(* ===== verification/Paths.thy ===== *)
theory Paths
  imports Prelude
begin

section \<open>Paths and symbolic links\<close>

text \<open>
  \<open>os.path.realpath\<close> and \<open>Path.resolve\<close> of the standard library on POSIX, as the tools use them on
  paths they do not trust. A location is the list of its names from the root; the symbolic links
  of the file system are a table from locations to their texts. The resolver follows the library:
  names one after the other, a link by resolving its text, a link under resolution that is met
  again ends the walk.
\<close>

type_synonym loc = "string list"
type_synonym links = "(loc \<times> string) list"
type_synonym seen = "(loc \<times> loc option) list"

definition path_names :: "string \<Rightarrow> string list" where
  "path_names p = split_on (\<lambda>c. c = CHR ''/'') p"

definition absolute :: "string \<Rightarrow> bool" where
  "absolute p = startswith p ''/''"

definition nothing_name :: "string \<Rightarrow> bool" where
  "nothing_name c = (c = [] \<or> c = ''.'')"

text \<open>Lexical normalisation, as \<open>abspath\<close> does it.\<close>

fun normalised :: "loc \<Rightarrow> string list \<Rightarrow> loc" where
  "normalised p [] = p"
| "normalised p (c # cs) = (if nothing_name c then normalised p cs
     else if c = ''..'' then normalised (butlast p) cs else normalised (p @ [c]) cs)"

text \<open>\<open>join(path, rest)\<close> of a rest that starts with a second slash starts again at the root.\<close>

definition rejoin :: "loc \<Rightarrow> string list \<Rightarrow> string list" where
  "rejoin p cs = (if take 1 cs = [[]] \<and> 1 < length cs then cs else p @ cs)"

text \<open>The fuel bounds the links under resolution at once; the number of links is enough.\<close>

fun joinrealpath :: "nat \<Rightarrow> links \<Rightarrow> seen \<Rightarrow> loc \<Rightarrow> string list \<Rightarrow> string list \<times> seen \<times> bool" where
  "joinrealpath n links seen p [] = (p, seen, True)"
| "joinrealpath n links seen p (c # cs) =
     (if nothing_name c then joinrealpath n links seen p cs
      else if c = ''..'' then joinrealpath n links seen (butlast p) cs
      else case map_of links (p @ [c]) of
        None \<Rightarrow> joinrealpath n links seen (p @ [c]) cs
      | Some target \<Rightarrow> (case map_of seen (p @ [c]) of
          Some (Some r) \<Rightarrow> joinrealpath n links seen r cs
        | Some None \<Rightarrow> (rejoin (p @ [c]) cs, seen, False)
        | None \<Rightarrow> (case n of
            0 \<Rightarrow> (rejoin (p @ [c]) cs, seen, False)
          | Suc m \<Rightarrow> (case joinrealpath m links ((p @ [c], None) # seen) (if absolute target then [] else p)
                (path_names target) of
              (r, seen', ok) \<Rightarrow> if ok then joinrealpath n links ((p @ [c], Some r) # seen') r cs
                else (rejoin r cs, seen', False)))))"

definition is_nul :: "string \<Rightarrow> bool" where
  "is_nul p = (CHR 0x00 \<in> set p)"

definition resolution :: "links \<Rightarrow> loc \<Rightarrow> string \<Rightarrow> string list \<times> seen \<times> bool" where
  "resolution links cwd p = joinrealpath (length links) links [] (if absolute p then [] else cwd) (path_names p)"

definition realpath :: "links \<Rightarrow> loc \<Rightarrow> string \<Rightarrow> loc py" where
  "realpath links cwd p = (if is_nul p then Inl ValueError else Inr (normalised [] (fst (resolution links cwd p))))"

text \<open>\<open>Path.resolve\<close> raises when a link leads back to itself.\<close>

definition path_resolve :: "links \<Rightarrow> loc \<Rightarrow> string \<Rightarrow> loc py" where
  "path_resolve links cwd p = (if is_nul p then Inl ValueError
     else case resolution links cwd p of (r, seen, ok) \<Rightarrow> if ok then Inr r else Inl RuntimeError)"

subsection \<open>A resolved location is canonical\<close>

definition canonical :: "links \<Rightarrow> loc \<Rightarrow> bool" where
  "canonical links p = (list_all (\<lambda>c. \<not> nothing_name c \<and> c \<noteq> ''..'') p \<and>
     (\<forall>k. map_of links (take k p) = None \<or> take k p = []))"

lemma canonical_Nil: "canonical links []"
  by (simp add: canonical_def)

lemma canonical_butlast: "canonical links p \<Longrightarrow> canonical links (butlast p)"
  by (auto simp: canonical_def butlast_conv_take list_all_iff dest: in_set_takeD)

lemma canonical_snoc:
  assumes "canonical links p" "map_of links (p @ [c]) = None" "\<not> nothing_name c" "c \<noteq> ''..''"
  shows "canonical links (p @ [c])"
proof -
  have "map_of links (take k (p @ [c])) = None \<or> take k (p @ [c]) = []" for k
    using assms(1,2) by (cases "k \<le> length p") (auto simp: canonical_def)
  with assms show ?thesis by (simp add: canonical_def)
qed

definition seen_canonical :: "links \<Rightarrow> seen \<Rightarrow> bool" where
  "seen_canonical links seen = (\<forall>l r. map_of seen l = Some (Some r) \<longrightarrow> canonical links r)"

lemma seen_canonical_Cons:
  "seen_canonical links seen \<Longrightarrow> (\<And>r. x = Some r \<Longrightarrow> canonical links r) \<Longrightarrow> seen_canonical links ((l, x) # seen)"
  by (auto simp: seen_canonical_def)

lemma joinrealpath_canonical:
  assumes "canonical links p" "seen_canonical links seen"
  shows "case joinrealpath n links seen p cs of (r, seen', ok) \<Rightarrow> seen_canonical links seen' \<and> (ok \<longrightarrow> canonical links r)"
  using assms
proof (induction n links seen p cs rule: joinrealpath.induct)
  case (2 n links seen p c cs)
  show ?case
  proof (cases "nothing_name c \<or> c = ''..''")
    case True
    with 2 show ?thesis by (auto simp: canonical_butlast)
  next
    case plain: False
    show ?thesis
    proof (cases "map_of links (p @ [c])")
      case None
      with plain 2 show ?thesis by (simp add: canonical_snoc)
    next
      case (Some target)
      note link = Some
      show ?thesis
      proof (cases "map_of seen (p @ [c])")
        case fresh: None
        show ?thesis
        proof (cases n)
          case (Suc m)
          obtain r seen' ok where sub: "joinrealpath m links ((p @ [c], None) # seen) (if absolute target then [] else p)
              (path_names target) = (r, seen', ok)"
            by (metis prod.exhaust)
          have "case joinrealpath m links ((p @ [c], None) # seen) (if absolute target then [] else p)
              (path_names target) of (r, seen', ok) \<Rightarrow> seen_canonical links seen' \<and> (ok \<longrightarrow> canonical links r)"
            using plain link fresh Suc "2.prems"
            by (intro "2.IH"(4)) (auto simp: canonical_Nil seen_canonical_def)
          then have s: "seen_canonical links seen'" "ok \<Longrightarrow> canonical links r" by (simp_all add: sub)
          show ?thesis
          proof (cases ok)
            case True
            with s have "canonical links r" "seen_canonical links ((p @ [c], Some r) # seen')"
              by (auto intro: seen_canonical_Cons)
            from "2.IH"(5) [OF _ _ link fresh Suc sub [symmetric] refl True this] plain show ?thesis
              using link fresh Suc sub True by simp
          next
            case False
            then show ?thesis using plain link fresh Suc sub s(1) by simp
          qed
        next
          case 0
          with plain link fresh "2.prems" show ?thesis by simp
        qed
      next
        case (Some entry)
        then show ?thesis
        proof (cases entry)
          case (Some r)
          then have "canonical links r" using "2.prems"(2) \<open>map_of seen (p @ [c]) = Some entry\<close>
            by (auto simp: seen_canonical_def)
          with plain link \<open>map_of seen (p @ [c]) = Some entry\<close> Some 2 show ?thesis by simp
        next
          case None
          with plain link \<open>map_of seen (p @ [c]) = Some entry\<close> "2.prems" show ?thesis by simp
        qed
      qed
    qed
  qed
qed simp

lemma path_resolve_canonical:
  assumes "path_resolve links cwd p = Inr r" "canonical links cwd"
  shows "canonical links r"
proof -
  from assms(1) obtain seen where run: "resolution links cwd p = (r, seen, True)"
    by (auto simp: path_resolve_def split: if_splits prod.splits)
  have "canonical links (if absolute p then [] else cwd)" "seen_canonical links []"
    using assms(2) by (simp_all add: canonical_Nil seen_canonical_def)
  from joinrealpath_canonical [OF this, of "length links" "path_names p"] show ?thesis
    using run by (simp add: resolution_def)
qed

subsection \<open>The fuel is enough\<close>

definition unseen :: "links \<Rightarrow> seen \<Rightarrow> loc set" where
  "unseen links seen = fst ` set links - fst ` set seen"

lemma unseen_Cons: "unseen links ((l, x) # seen) = unseen links seen - {l}"
  by (auto simp: unseen_def)

lemma card_unseen_mono: "fst ` set seen \<subseteq> fst ` set seen' \<Longrightarrow> card (unseen links seen') \<le> card (unseen links seen)"
  by (intro card_mono) (auto simp: unseen_def)

lemma joinrealpath_fuel:
  assumes "card (unseen links seen) \<le> n"
  shows "joinrealpath (Suc n) links seen p cs = joinrealpath n links seen p cs \<and>
    fst ` set seen \<subseteq> fst ` set (fst (snd (joinrealpath n links seen p cs)))"
  using assms
proof (induction n links seen p cs rule: joinrealpath.induct)
  case (2 n links seen p c cs)
  show ?case
  proof (cases "nothing_name c \<or> c = ''..''")
    case True
    with 2 show ?thesis by auto
  next
    case plain: False
    show ?thesis
    proof (cases "map_of links (p @ [c])")
      case None
      with plain 2 show ?thesis by simp
    next
      case link: (Some target)
      show ?thesis
      proof (cases "map_of seen (p @ [c])")
        case (Some entry)
        with plain link 2 show ?thesis by (cases entry) auto
      next
        case fresh: None
        have "p @ [c] \<in> unseen links seen"
          using link fresh by (force simp: unseen_def map_of_eq_None_iff dest: map_of_SomeD)
        then have less: "card (unseen links ((p @ [c], None) # seen)) < card (unseen links seen)"
          unfolding unseen_Cons by (intro card_Diff1_less) (auto simp: unseen_def)
        with "2.prems" obtain m where n: "n = Suc m" by (cases n) auto
        let ?sub = "joinrealpath m links ((p @ [c], None) # seen) (if absolute target then [] else p) (path_names target)"
        obtain r seen' ok where sub: "?sub = (r, seen', ok)" by (metis prod.exhaust)
        have IH: "joinrealpath (Suc m) links ((p @ [c], None) # seen) (if absolute target then [] else p) (path_names target) = ?sub"
            "fst ` set ((p @ [c], None) # seen) \<subseteq> fst ` set seen'"
          using "2.IH"(4) [of target m] plain link fresh n less "2.prems" sub by auto
        show ?thesis
        proof (cases ok)
          case True
          have grow: "fst ` set seen \<subseteq> fst ` set ((p @ [c], Some r) # seen')" using IH(2) by auto
          have "card (unseen links ((p @ [c], Some r) # seen')) \<le> n"
            using card_unseen_mono [OF grow, of links] "2.prems" by simp
          from "2.IH"(5) [OF _ _ link fresh n sub [symmetric] refl True this] plain
          have rest: "joinrealpath (Suc n) links ((p @ [c], Some r) # seen') r cs = joinrealpath n links ((p @ [c], Some r) # seen') r cs"
              "fst ` set ((p @ [c], Some r) # seen') \<subseteq>
                fst ` set (fst (snd (joinrealpath n links ((p @ [c], Some r) # seen') r cs)))"
            by blast+
          from subset_trans [OF grow rest(2)] rest(1) show ?thesis
            using plain link fresh n sub True IH(1) by simp
        next
          case False
          then show ?thesis using plain link fresh n sub IH by auto
        qed
      qed
    qed
  qed
qed simp

lemma resolution_fuel:
  "joinrealpath (length links + k) links [] (if absolute p then [] else cwd) (path_names p) = resolution links cwd p"
proof (induction k)
  case 0
  then show ?case by (simp add: resolution_def)
next
  case (Suc k)
  have "card (unseen links []) \<le> length links + k"
    using card_length [of "map fst links"] by (simp add: unseen_def)
  from joinrealpath_fuel [OF this] Suc show ?case by simp
qed

end
