(* ===== verification/Ci_Check.thy ===== *)
theory Ci_Check
  imports Paths Merge_Gate Json_Codec
begin

section \<open>The evidence check of the merge pipeline\<close>

text \<open>
  \<open>tools/ci_evidence_check.py\<close>: the protected baseline first, then the skips for absent inputs, then
  the artifacts of the items, each read only from below the artifacts directory, and the evidence
  gate over the model. The world gives the text of a file at a path the operator names, the files
  at resolved locations, the symbolic links, the working directory and two environment variables.
  The line that is printed is a constructor of the outcome.
\<close>

datatype file_text = Missing | Undecodable | Contents string

record ci_world =
  named_file :: "string \<Rightarrow> file_text"
  file_at :: "loc \<Rightarrow> file_text"
  ci_links :: links
  ci_cwd :: loc
  GITHUB_WORKSPACE :: string
  RUNNER_TEMP :: string

definition load_text :: "file_text \<Rightarrow> json py" where
  "load_text f = (case f of Missing \<Rightarrow> Inr JNull | Undecodable \<Rightarrow> Inl ValueError
     | Contents t \<Rightarrow> (case loads t of Some v \<Rightarrow> Inr v | None \<Rightarrow> Inl ValueError))"

definition within :: "loc \<Rightarrow> loc \<Rightarrow> bool" where
  "within base l = (take (length base) l = base)"

text \<open>False when the baseline lies in the checkout.\<close>

definition baseline_out_of_band :: "ci_world \<Rightarrow> string \<Rightarrow> bool py" where
  "baseline_out_of_band w baseline_path =
     (if GITHUB_WORKSPACE w = [] then Inr True
      else py_bind (path_resolve (ci_links w) (ci_cwd w) (GITHUB_WORKSPACE w)) (\<lambda>ws.
        py_bind (path_resolve (ci_links w) (ci_cwd w) baseline_path) (\<lambda>resolved.
          Inr (\<not> within ws resolved))))"

definition safe_read_artifact :: "ci_world \<Rightarrow> string \<Rightarrow> json \<Rightarrow> json py" where
  "safe_read_artifact w artifacts_dir test_file =
     (if \<not> truthy test_file then Inr JNull
      else py_bind (path_resolve (ci_links w) (ci_cwd w) artifacts_dir) (\<lambda>base.
        case test_file of
          JStr tf \<Rightarrow> py_bind (path_resolve (ci_links w) base tf) (\<lambda>candidate.
            if \<not> within base candidate then Inr JNull
            else case file_at w candidate of Missing \<Rightarrow> Inr JNull | Undecodable \<Rightarrow> Inl ValueError
              | Contents t \<Rightarrow> Inr (JStr t))
        | _ \<Rightarrow> Inl TypeError))"

definition item_artifact :: "ci_world \<Rightarrow> string \<Rightarrow> json \<Rightarrow> (json \<times> json) py" where
  "item_artifact w artifacts_dir item =
     py_bind (obj_get item ''evidence'') (\<lambda>e. py_bind (obj_get (py_or e (JObj [])) ''test_file'') (\<lambda>tf.
       py_bind (if truthy tf then safe_read_artifact w artifacts_dir tf else Inr JNull) (\<lambda>text.
         py_bind (obj_get item ''id'') (\<lambda>i. if hashable i then Inr (i, text) else Inl TypeError))))"

text \<open>A later item with the same identifier overwrites the artifact of an earlier one.\<close>

definition collect_artifacts :: "ci_world \<Rightarrow> string \<Rightarrow> json list \<Rightarrow> keyed py" where
  "collect_artifacts w artifacts_dir items =
     py_bind (py_map (item_artifact w artifacts_dir) items) (\<lambda>ps. Inr (foldl (\<lambda>d (i, t). pset d i t) [] ps))"

datatype ci_outcome =
    BaselineUntrusted
  | BaselineDenied "baseline_reason list"
  | NoModel
  | NoLedger
  | ItemsDenied "rejection list"
  | Verified

fun exit_code :: "ci_outcome \<Rightarrow> int" where
  "exit_code NoModel = 0"
| "exit_code NoLedger = 0"
| "exit_code Verified = 0"
| "exit_code _ = 1"

definition trusted_baseline :: "ci_world \<Rightarrow> string option \<Rightarrow> json option py" where
  "trusted_baseline w baseline_path = (case baseline_path of
     None \<Rightarrow> Inr (Some JNull)
   | Some p \<Rightarrow> py_bind (baseline_out_of_band w p) (\<lambda>ok.
       if \<not> ok then Inr None else py_bind (load_text (named_file w p)) (\<lambda>b. Inr (Some b))))"

definition verify_items :: "ci_world \<Rightarrow> string \<Rightarrow> json \<Rightarrow> json \<Rightarrow> ci_outcome py" where
  "verify_items w artifacts_dir model ledger =
     py_bind (obj_get_or model ''items'' (JList [])) (\<lambda>its. py_bind (py_iter its) (\<lambda>items.
       py_bind (collect_artifacts w artifacts_dir items) (\<lambda>artifacts.
         let res = check_model model ledger artifacts in
         Inr (if m_accepted res then Verified else ItemsDenied (m_rejections res)))))"

definition ci_run :: "ci_world \<Rightarrow> string \<Rightarrow> string \<Rightarrow> string \<Rightarrow> string option \<Rightarrow> ci_outcome py" where
  "ci_run w feature_list_path artifacts_dir ledger_path baseline_path =
     py_bind (trusted_baseline w baseline_path) (\<lambda>trusted. case trusted of
       None \<Rightarrow> Inr BaselineUntrusted
     | Some baseline \<Rightarrow> py_bind (load_text (named_file w feature_list_path)) (\<lambda>model.
         let bg = baseline_gate baseline model in
         if deny bg then Inr (BaselineDenied (reasons bg))
         else if model = JNull then Inr NoModel
         else if named_file w ledger_path = Missing then Inr NoLedger
         else py_bind (load_text (named_file w ledger_path)) (verify_items w artifacts_dir model)))"

definition default_baseline_path :: "ci_world \<Rightarrow> string" where
  "default_baseline_path w = (if RUNNER_TEMP w \<noteq> [] then RUNNER_TEMP w @ ''/trusted-baseline/coverage_baseline.json''
     else ''coverage_baseline.json'')"

definition ci_args :: "ci_world \<Rightarrow> string list \<Rightarrow> string list" where
  "ci_args w argv = take 4 (argv @ [''feature_list.json'', ''artifacts'', ''dispatch_ledger.json'', default_baseline_path w])"

definition ci_main :: "ci_world \<Rightarrow> string list \<Rightarrow> int py" where
  "ci_main w argv = (case ci_args w argv of
     [fl, arts, led, baseline] \<Rightarrow> py_bind (ci_run w fl arts led (Some baseline)) (\<lambda>r. Inr (exit_code r))
   | _ \<Rightarrow> Inl ValueError)"

subsection \<open>What a pass means\<close>

lemma pget_stored:
  "pget (foldl (\<lambda>d (i, t). pset d i t) acc ps) (JStr i) = v \<Longrightarrow> (JStr i, v) \<in> set ps \<or> pget acc (JStr i) = v"
proof (induction ps arbitrary: acc)
  case (Cons p ps)
  obtain k t where p: "p = (k, t)" by (cases p)
  with Cons.IH [of "pset acc k t"] Cons.prems show ?case
    by (cases "k = JStr i") (auto simp: pget_pset pget_pset_other)
qed simp

text \<open>The artifact that is looked up for an identifier was read for an item with that identifier.\<close>

lemma collect_lookup:
  assumes "collect_artifacts w arts (map JObj ds) = Inr artifacts" "artifact_of artifacts (JStr i) = Inr (JStr text)"
  shows "\<exists>d \<in> set ds. dget d ''id'' = JStr i \<and> item_artifact w arts (JObj d) = Inr (JStr i, JStr text)"
proof -
  from assms(1) obtain ps where ps: "py_map (item_artifact w arts) (map JObj ds) = Inr ps"
    and "artifacts = foldl (\<lambda>d (i, t). pset d i t) [] ps"
    by (auto simp: collect_artifacts_def py_bind_Inr_iff)
  with assms(2) pget_stored [of "[]" ps i "JStr text"] have "(JStr i, JStr text) \<in> set ps"
    by (auto simp: artifact_of_def pget_def split: if_splits)
  then obtain d where "d \<in> set ds" "item_artifact w arts (JObj d) = Inr (JStr i, JStr text)"
    using py_map_Inr_mem(2) [OF ps] by auto
  then show ?thesis by (auto simp: item_artifact_def py_bind_Inr_iff split: if_splits)
qed

text \<open>Where the text of an artifact was read.\<close>

definition read_below :: "ci_world \<Rightarrow> string \<Rightarrow> string \<Rightarrow> string \<Rightarrow> bool" where
  "read_below w arts tf text = (\<exists>base l. path_resolve (ci_links w) (ci_cwd w) arts = Inr base \<and>
     path_resolve (ci_links w) base tf = Inr l \<and> take (length base) l = base \<and> canonical (ci_links w) l \<and>
     file_at w l = Contents text)"

lemma safe_read_below:
  assumes "safe_read_artifact w arts v = Inr (JStr text)" "canonical (ci_links w) (ci_cwd w)"
  shows "\<exists>tf. v = JStr tf \<and> read_below w arts tf text"
proof -
  from assms(1) obtain base where base: "path_resolve (ci_links w) (ci_cwd w) arts = Inr base"
    and rest: "(case v of JStr tf \<Rightarrow> py_bind (path_resolve (ci_links w) base tf) (\<lambda>candidate.
            if \<not> within base candidate then Inr JNull
            else case file_at w candidate of Missing \<Rightarrow> Inr JNull | Undecodable \<Rightarrow> Inl ValueError
              | Contents t \<Rightarrow> Inr (JStr t)) | _ \<Rightarrow> Inl TypeError) = Inr (JStr text)"
    by (auto simp: safe_read_artifact_def py_bind_Inr_iff split: if_splits)
  then obtain tf l where v: "v = JStr tf" and l: "path_resolve (ci_links w) base tf = Inr l" "within base l"
    and f: "file_at w l = Contents text"
    by (auto simp: py_bind_Inr_iff split: json.splits if_splits file_text.splits)
  have "canonical (ci_links w) l"
    using path_resolve_canonical [OF l(1)] path_resolve_canonical [OF base assms(2)] by blast
  with v l f base show ?thesis by (auto simp: read_below_def within_def)
qed

lemma verified_model:
  assumes "ci_run w fl arts led bl = Inr Verified" "load_text (named_file w fl) = Inr model" "lists_items model ds"
  obtains ledger artifacts where "load_text (named_file w led) = Inr ledger"
    "collect_artifacts w arts (map JObj ds) = Inr artifacts" "m_accepted (check_model model ledger artifacts)"
proof -
  from assms(1,2) obtain ledger where l: "load_text (named_file w led) = Inr ledger"
    and v: "verify_items w arts model ledger = Inr Verified"
    by (auto simp: ci_run_def py_bind_Inr_iff Let_def split: if_splits option.splits)
  from assms(3) have "obj_get_or model ''items'' (JList []) = Inr (JList (map JObj ds))"
    by (auto simp: lists_items_iff dget_or_def)
  with v obtain artifacts where "collect_artifacts w arts (map JObj ds) = Inr artifacts"
    "m_accepted (check_model model ledger artifacts)"
    by (auto simp: verify_items_def py_bind_Inr_iff Let_def split: if_splits)
  with l show thesis by (rule that)
qed

text \<open>
  C25. When the merge pipeline reports that everything was verified, for a model that lists its items
  under \<open>items\<close> and from a working directory that is free of links, then every in-scope item with a
  text for its identifier is proven, its record's hash is that of a text, its two sessions are
  separated and dispatched in the ledger that was read, and that text was read from a file that
  resolves, links followed, to a place below the artifacts directory. The file is named by the record
  of an item with the same identifier: of the item itself, where no other item bears its identifier.
\<close>

theorem ci_verified_sound:
  assumes "ci_run w fl arts led bl = Inr Verified" "load_text (named_file w fl) = Inr model" "lists_items model ds"
    and "canonical (ci_links w) (ci_cwd w)" "d \<in> set ds" "item_in_scope d" "dget d ''id'' = JStr i"
  shows "\<exists>e text ledger same named tf. dget d ''status'' = JStr ''proven'' \<and> dget d ''evidence'' = JObj e \<and>
    dget e ''output_hash'' = JStr (''sha256:'' @ sha256_hex text) \<and>
    load_text (named_file w led) = Inr ledger \<and> separated e ledger \<and>
    same \<in> set ds \<and> dget same ''id'' = JStr i \<and> dget same ''evidence'' = JObj named \<and>
    dget named ''test_file'' = JStr tf \<and> read_below w arts tf text"
proof -
  from verified_model [OF assms(1-3)] obtain ledger artifacts where
    led: "load_text (named_file w led) = Inr ledger" and c: "collect_artifacts w arts (map JObj ds) = Inr artifacts"
    and acc: "m_accepted (check_model model ledger artifacts)"
    by blast
  from acc assms(5,6) have "item_evidenced ledger artifacts d"
    by (auto simp: accepts_listed [OF assms(3)])
  then obtain a where st: "dget d ''status'' = JStr ''proven''" and a: "artifact_of artifacts (JStr i) = Inr a"
    and "accepted (check_slice (dget d ''evidence'') a ledger)"
    by (auto simp: item_evidenced_def assms(7) split: sum.splits)
  then obtain e art where e: "dget d ''evidence'' = JObj e" "a = JStr art"
    "dget e ''output_hash'' = JStr (''sha256:'' @ sha256_hex art)" "separated e ledger"
    by (auto simp: check_slice_accepts)
  from collect_lookup [OF c] a e(2) obtain same where same: "same \<in> set ds" "dget same ''id'' = JStr i"
    "item_artifact w arts (JObj same) = Inr (JStr i, JStr art)" by blast
  from same(3) obtain named where n: "dget same ''evidence'' = JObj named"
    "safe_read_artifact w arts (dget named ''test_file'') = Inr (JStr art)"
    by (cases "dget same ''evidence''") (auto simp: item_artifact_def py_bind_Inr_iff py_or_def split: if_splits)
  from safe_read_below [OF n(2) assms(4)] e st led same n(1) show ?thesis by blast
qed

subsection \<open>A delivery that passes\<close>

definition saved :: "json \<Rightarrow> file_text" where
  "saved v = Contents (dumps_spaced True v)"

lemma load_saved: "wf_json v \<Longrightarrow> load_text (saved v) = Inr v"
  by (simp add: load_text_def saved_def loads_dumps_spaced)

definition sample_ledger :: json where
  "sample_ledger = JObj [(''sessions'', JList [JStr ''v1'', JStr ''i1''])]"

definition sample_world :: "file_text \<Rightarrow> file_text \<Rightarrow> ci_world" where
  "sample_world model ledger = \<lparr>named_file = (\<lambda>p. if p = ''m'' then model else if p = ''l'' then ledger
       else if p = ''coverage_baseline.json'' then saved (write_baseline [JStr ''A'']) else Missing),
     file_at = (\<lambda>l. if l = [''w'', ''artifacts'', ''t.py''] then Contents ''1 passed'' else Missing),
     ci_links = [], ci_cwd = [''w''], GITHUB_WORKSPACE = [], RUNNER_TEMP = []\<rparr>"

definition delivered_world :: ci_world where
  "delivered_world = sample_world (saved delivered_list) (saved sample_ledger)"

lemma sample_loads:
  "load_text (saved delivered_list) = Inr delivered_list"
  "load_text (saved sample_ledger) = Inr sample_ledger"
  "load_text (saved (write_baseline [JStr ''A''])) = Inr (write_baseline [JStr ''A''])"
  by (intro load_saved; simp add: delivered_list_def delivered_item_def deliver_def collect_def sample_ledger_def write_baseline_def dset_def)+

lemma sample_paths:
  "path_resolve [] [''w''] ''artifacts'' = Inr [''w'', ''artifacts'']"
  "path_resolve [] [''w'', ''artifacts''] ''t.py'' = Inr [''w'', ''artifacts'', ''t.py'']"
  by code_simp+

lemma delivered_artifact:
  "item_artifact delivered_world ''artifacts'' (JObj delivered_item) = Inr (JStr ''A'', JStr ''1 passed'')"
  by (simp add: item_artifact_def delivered_item_def deliver_def collect_def py_or_def safe_read_artifact_def
      delivered_world_def sample_world_def sample_paths within_def)

lemma delivered_verified:
  "ci_run delivered_world ''m'' ''artifacts'' ''l'' (Some ''coverage_baseline.json'') = Inr Verified"
proof -
  have arts: "collect_artifacts delivered_world ''artifacts'' [JObj delivered_item] = Inr [(JStr ''A'', JStr ''1 passed'')]"
    by (simp add: collect_artifacts_def delivered_artifact pset_def)
  have "obj_get_or delivered_list ''items'' (JList []) = Inr (JList [JObj delivered_item])"
    by (simp add: delivered_list_def)
  then have "verify_items delivered_world ''artifacts'' delivered_list sample_ledger = Inr Verified"
    using delivered_list_accepted arts by (simp add: verify_items_def sample_ledger_def)
  moreover have "(saved sample_ledger = Missing) = False" "(delivered_list = JNull) = False"
    by (simp_all add: saved_def delivered_list_def)
  ultimately show ?thesis
    using delivered_list_gates(1)
    by (simp add: ci_run_def trusted_baseline_def baseline_out_of_band_def delivered_world_def sample_world_def sample_loads)
qed

lemma delivered_world_facts:
  "load_text (named_file delivered_world ''m'') = Inr delivered_list" "canonical (ci_links delivered_world) (ci_cwd delivered_world)"
  by (simp_all add: delivered_world_def sample_world_def sample_loads canonical_def nothing_name_def)

theorem ci_verified_sound_witness: "\<exists>tf text. read_below delivered_world ''artifacts'' tf text"
proof -
  have "item_in_scope delivered_item" "dget delivered_item ''id'' = JStr ''A''"
    by (simp_all add: delivered_item_def item_in_scope_def)
  with ci_verified_sound [OF delivered_verified delivered_world_facts(1) delivered_list_items delivered_world_facts(2),
      of delivered_item] show ?thesis by auto
qed

text \<open>
  Whatever it skips, the check lets a delivery through only when the trusted baseline is
  satisfied: on exit code 0 every required identifier has an item, and its first item is in scope.
\<close>

theorem ci_exit0_baseline:
  assumes "ci_run w fl arts led (Some p) = Inr r" "exit_code r = 0"
    and "load_text (named_file w p) = Inr (write_baseline required)" "load_text (named_file w fl) = Inr model"
    and "lists_items model ds" "q \<in> set required"
  shows "required_ok ds (py_str q)"
proof -
  have "deny (baseline_gate (write_baseline required) model) = False"
    using assms(1-4) by (auto simp: ci_run_def trusted_baseline_def py_bind_Inr_iff Let_def split: if_splits option.splits)
  with assms(6) show ?thesis by (auto simp: baseline_denies_listed [OF assms(5)] list_ex_iff)
qed

theorem ci_exit0_baseline_witness: "required_ok [delivered_item] ''A''"
  using ci_exit0_baseline [OF delivered_verified _ _ delivered_world_facts(1) delivered_list_items, of "[JStr ''A'']" "JStr ''A''"]
  by (simp add: delivered_world_def sample_world_def sample_loads)

text \<open>
  The skip for an absent ledger survives a baseline that expects a delivery: with every required
  item in scope and the ledger missing, the check exits with 0 and looks at no status, no record
  and no artifact.
\<close>

theorem ci_missing_ledger_passes:
  assumes "trusted_baseline w bl = Inr (Some (write_baseline required))" "load_text (named_file w fl) = Inr (model_of ds)"
    and "list_all (\<lambda>q. required_ok ds (py_str q)) required" "named_file w led = Missing"
  shows "ci_run w fl arts led bl = Inr NoLedger \<and> exit_code NoLedger = 0"
proof
  have "deny (baseline_gate (write_baseline required) (model_of ds)) = False"
    using assms(3) by (auto simp: baseline_gate_denies list_ex_iff list_all_iff)
  then show "ci_run w fl arts led bl = Inr NoLedger"
    using assms(1,2,4) by (simp add: ci_run_def) (simp add: model_of_def)
qed simp

definition unproven_required :: dict where
  "unproven_required = [(''id'', JStr ''A''), (''in_scope'', JBool True), (''status'', JStr ''unproven'')]"

theorem ci_missing_ledger_passes_witness:
  "ci_run (sample_world (saved (model_of [unproven_required])) Missing) ''m'' ''artifacts'' ''l''
     (Some ''coverage_baseline.json'') = Inr NoLedger \<and> dget unproven_required ''status'' = JStr ''unproven''"
proof -
  let ?w = "sample_world (saved (model_of [unproven_required])) Missing"
  have t: "trusted_baseline ?w (Some ''coverage_baseline.json'') = Inr (Some (write_baseline [JStr ''A'']))"
    by (simp add: trusted_baseline_def baseline_out_of_band_def sample_world_def sample_loads)
  have m: "load_text (named_file ?w ''m'') = Inr (model_of [unproven_required])"
    by (simp add: sample_world_def load_saved model_of_def unproven_required_def)
  have r: "list_all (\<lambda>q. required_ok [unproven_required] (py_str q)) [JStr ''A'']"
    by (simp add: required_ok_def first_of_def unproven_required_def item_in_scope_def)
  have "named_file ?w ''l'' = Missing" by (simp add: sample_world_def)
  from ci_missing_ledger_passes [OF t m r this] show ?thesis by (simp add: unproven_required_def)
qed

text \<open>
  Three arguments move the others: the baseline is then looked for in \<open>feature_list.json\<close>. Off the
  runner, with no model delivered, the check passes, although the baseline at its default place
  requires items and naming that place as the fourth argument denies.
\<close>

theorem ci_three_arguments_lose_baseline:
  assumes "GITHUB_WORKSPACE w = []" "named_file w fl = Missing" "named_file w ''feature_list.json'' = Missing"
    and "load_text (named_file w (default_baseline_path w)) = Inr (write_baseline required)" "required \<noteq> []"
  shows "ci_main w [fl, arts, led] = Inr 0 \<and> ci_main w [fl, arts, led, default_baseline_path w] = Inr 1"
proof
  show "ci_main w [fl, arts, led] = Inr 0"
    using assms by (simp add: ci_main_def ci_args_def ci_run_def trusted_baseline_def baseline_out_of_band_def
        load_text_def baseline_gate_def)
  have "deny (baseline_gate (write_baseline required) JNull)"
    using assms(5) by (simp add: baseline_gate_def write_baseline_def required_check_def Let_def)
  then show "ci_main w [fl, arts, led, default_baseline_path w] = Inr 1"
    using assms(1,2,4) by (simp add: ci_main_def ci_args_def ci_run_def trusted_baseline_def baseline_out_of_band_def
        load_text_def)
qed

theorem ci_three_arguments_lose_baseline_witness:
  "ci_main (sample_world Missing Missing) [''m'', ''artifacts'', ''l''] = Inr 0 \<and>
    ci_main (sample_world Missing Missing) [''m'', ''artifacts'', ''l'', ''coverage_baseline.json''] = Inr 1"
proof -
  let ?w = "sample_world Missing Missing"
  have d: "default_baseline_path ?w = ''coverage_baseline.json''" by (simp add: default_baseline_path_def sample_world_def)
  have "GITHUB_WORKSPACE ?w = []" "named_file ?w ''m'' = Missing" "named_file ?w ''feature_list.json'' = Missing"
    "load_text (named_file ?w (default_baseline_path ?w)) = Inr (write_baseline [JStr ''A''])"
    unfolding d by (simp_all add: sample_world_def sample_loads)
  from ci_three_arguments_lose_baseline [OF this, of "''artifacts''" "''l''"] show ?thesis unfolding d by simp
qed

end
