(* ===== verification/Sandbox.thy ===== *)
theory Sandbox
  imports Paths
begin

section \<open>The sandbox guard\<close>

text \<open>
  \<open>tools/sandbox_guard.py\<close>: which hosts an agent may reach and where it may write. \<open>urlsplit\<close> is the
  one of the standard library, on 8-bit characters; its check of an address in brackets, which
  changed between releases, is a parameter. Paths resolve as in \<open>Paths\<close>.
\<close>

subsection \<open>The host of a URL\<close>

definition rstrip_dots :: "string \<Rightarrow> string" where
  "rstrip_dots s = rev (dropWhile (\<lambda>c. c = CHR ''.'') (rev s))"

definition normal_host :: "string \<Rightarrow> string" where
  "normal_host h = lower_latin (rstrip_dots h)"

definition before :: "char \<Rightarrow> string \<Rightarrow> string" where
  "before x s = takeWhile (\<lambda>c. c \<noteq> x) s"

definition after :: "char \<Rightarrow> string \<Rightarrow> string" where
  "after x s = tl (dropWhile (\<lambda>c. c \<noteq> x) s)"

definition after_last :: "char \<Rightarrow> string \<Rightarrow> string" where
  "after_last x s = rev (takeWhile (\<lambda>c. c \<noteq> x) (rev s))"

definition alpha_char :: "char \<Rightarrow> bool" where
  "alpha_char c = ((65 \<le> code c \<and> code c \<le> 90) \<or> (97 \<le> code c \<and> code c \<le> 122))"

definition scheme_char :: "char \<Rightarrow> bool" where
  "scheme_char c = (alpha_char c \<or> digit_char c \<or> c = CHR ''+'' \<or> c = CHR ''-'' \<or> c = CHR ''.'')"

definition without_scheme :: "string \<Rightarrow> string" where
  "without_scheme url = (let s = before CHR '':'' url in
     if CHR '':'' \<in> set url \<and> s \<noteq> [] \<and> alpha_char (hd s) \<and> list_all scheme_char s then after CHR '':'' url else url)"

definition cleaned_url :: "string \<Rightarrow> string" where
  "cleaned_url url = filter (\<lambda>c. code c \<notin> {9, 10, 13}) (dropWhile (\<lambda>c. code c \<le> 32) url)"

definition netloc :: "string \<Rightarrow> string" where
  "netloc url = (let rest = without_scheme (cleaned_url url) in
     if take 2 rest = ''//'' then takeWhile (\<lambda>c. c \<notin> {CHR ''/'', CHR ''?'', CHR ''#''}) (drop 2 rest) else [])"

text \<open>\<open>urlsplit(url).hostname\<close>; unbalanced or refused brackets raise.\<close>

definition hostname :: "(string \<Rightarrow> bool) \<Rightarrow> string \<Rightarrow> string option py" where
  "hostname bracket_ok url =
     (let n = netloc url; open_br = CHR ''['' \<in> set n; close_br = CHR '']'' \<in> set n in
      if open_br \<noteq> close_br then Inl ValueError
      else if open_br \<and> \<not> bracket_ok n then Inl ValueError
      else (let hostinfo = after_last CHR ''@'' n;
                h = (if CHR ''['' \<in> set hostinfo then before CHR '']'' (after CHR ''['' hostinfo) else before CHR '':'' hostinfo)
            in Inr (if h = [] then None
                 else Some (lower_latin (before CHR ''%'' h) @ dropWhile (\<lambda>c. c \<noteq> CHR ''%'') h))))"

definition host_of :: "(string \<Rightarrow> bool) \<Rightarrow> string \<Rightarrow> string option" where
  "host_of bracket_ok url = (case hostname bracket_ok url of
     Inl e \<Rightarrow> None | Inr None \<Rightarrow> None | Inr (Some h) \<Rightarrow> Some (normal_host h))"

subsection \<open>Egress\<close>

definition host_entries :: "json list \<Rightarrow> string list" where
  "host_entries hs = concat (map (\<lambda>h. case h of JStr s \<Rightarrow> (if strip s \<noteq> [] then [normal_host s] else []) | _ \<Rightarrow> []) hs)"

definition egress_allowed :: "(string \<Rightarrow> bool) \<Rightarrow> json \<Rightarrow> json \<Rightarrow> bool py" where
  "egress_allowed bracket_ok url allowlist = (case url of
     JStr u \<Rightarrow> if u = [] then Inr False
       else if \<not> truthy allowlist then Inr False
       else (case host_of bracket_ok u of None \<Rightarrow> Inr False
         | Some h \<Rightarrow> py_bind (py_iter allowlist) (\<lambda>hs. Inr (h \<in> set (host_entries hs))))
   | _ \<Rightarrow> Inr False)"

subsection \<open>Confinement\<close>

definition path_text :: "loc \<Rightarrow> string" where
  "path_text l = ''/'' @ join ''/'' l"

definition check_worktree_confinement :: "links \<Rightarrow> loc \<Rightarrow> json \<Rightarrow> json \<Rightarrow> bool" where
  "check_worktree_confinement links cwd path allowed_root = (case (path, allowed_root) of
     (JStr p, JStr r) \<Rightarrow> p \<noteq> [] \<and> r \<noteq> [] \<and>
       (case (realpath links cwd p, realpath links cwd r) of
          (Inr real_path, Inr real_root) \<Rightarrow> path_text real_path = path_text real_root \<or>
            startswith (path_text real_path) (path_text real_root @ ''/'')
        | _ \<Rightarrow> False)
   | _ \<Rightarrow> False)"

subsection \<open>The policy document\<close>

definition build_sandbox_policy :: "links \<Rightarrow> loc \<Rightarrow> json \<Rightarrow> json \<Rightarrow> json py" where
  "build_sandbox_policy links cwd allowed_hosts worktree_root =
     py_bind (if truthy allowed_hosts then py_iter allowed_hosts else Inr []) (\<lambda>hs.
     py_bind (case worktree_root of
         JStr r \<Rightarrow> if r = [] then Inr JNull else py_bind (realpath links cwd r) (\<lambda>l. Inr (JStr (path_text l)))
       | _ \<Rightarrow> Inr JNull) (\<lambda>root.
       Inr (JObj [(''version'', JInt 1), (''requirement'', JStr ''REQ-17.4''),
         (''egress'', JObj [(''default'', JStr ''deny''), (''allowlist'', JList (map JStr (sort (remdups (host_entries hs)))))]),
         (''filesystem'', JObj [(''default'', JStr ''confine''), (''writable_root'', root), (''host_fs'', JStr ''read-only'')])])))"

subsection \<open>Only the listed host is reached\<close>

text \<open>Text that a part of a URL may hold: printing characters, none of the given ones.\<close>

definition plain :: "string \<Rightarrow> string \<Rightarrow> bool" where
  "plain bad s = list_all (\<lambda>c. 32 < code c \<and> c \<notin> set bad) s"

lemma plain_append: "plain bad (s @ t) \<longleftrightarrow> plain bad s \<and> plain bad t"
  by (simp add: plain_def)

lemma before_after:
  assumes "list_all (\<lambda>c. c \<noteq> x) s"
  shows "before x (s @ x # t) = s" "after x (s @ x # t) = t" "before x s = s" "dropWhile (\<lambda>c. c \<noteq> x) s = []"
  using takeWhile_plain [of "\<lambda>c. c \<noteq> x" s "x # t"] takeWhile_plain [of "\<lambda>c. c \<noteq> x" s "[]"] assms
  by (simp_all add: before_def after_def)

lemma after_last_plain:
  assumes "list_all (\<lambda>c. c \<noteq> x) s" "u = [] \<or> last u = x"
  shows "after_last x (u @ s) = s"
proof -
  have "takeWhile (\<lambda>c. c \<noteq> x) (rev s @ rev u) = rev s"
    using assms by (intro takeWhile_plain(1)) (auto simp: list_all_iff hd_rev)
  then show ?thesis by (simp add: after_last_def)
qed

lemma rstrip_dots_lower: "rstrip_dots (lower_latin s) = lower_latin (rstrip_dots s)"
proof -
  have dot: "((if (65 \<le> code c \<and> code c \<le> 90) \<or> (192 \<le> code c \<and> code c \<le> 222 \<and> code c \<noteq> 215)
     then char_of (code c + 32) else c) = CHR ''.'') = (c = CHR ''.'')" for c
    by (auto simp: code_def dest: arg_cong [where f = "of_char :: char \<Rightarrow> nat"])
  show ?thesis by (simp add: rstrip_dots_def lower_latin_def rev_map dropWhile_map comp_def dot)
qed

lemma normal_host_lower: "normal_host (lower_latin h) = normal_host h"
  by (simp add: normal_host_def rstrip_dots_lower lower_latin_idem)

definition url_of :: "string \<Rightarrow> string \<Rightarrow> string \<Rightarrow> string \<Rightarrow> string \<Rightarrow> string" where
  "url_of scheme userinfo host port path = scheme @ ''://'' @ userinfo @ host @ port @ path"

definition url_parts :: "string \<Rightarrow> string \<Rightarrow> string \<Rightarrow> string \<Rightarrow> string \<Rightarrow> bool" where
  "url_parts scheme userinfo host port path =
     (scheme \<noteq> [] \<and> alpha_char (hd scheme) \<and> list_all scheme_char scheme \<and>
      (userinfo = [] \<or> last userinfo = CHR ''@'') \<and> plain ''/?#[]'' userinfo \<and>
      host \<noteq> [] \<and> plain ''/?#@:[]%'' host \<and>
      (port = [] \<or> hd port = CHR '':'') \<and> plain ''/?#@[]'' port \<and>
      (path = [] \<or> hd path \<in> {CHR ''/'', CHR ''?'', CHR ''#''}))"

lemma plain_clean: "plain bad s \<Longrightarrow> filter (\<lambda>c. code c \<notin> {9, 10, 13}) s = s"
  by (auto simp: plain_def list_all_iff filter_id_conv)

lemma scheme_plain: "list_all scheme_char s \<Longrightarrow> plain '':'' s"
  by (auto simp: plain_def scheme_char_def alpha_char_def digit_char_def list_all_iff code_def)

lemma url_parts_plain:
  assumes "url_parts scheme userinfo host port path"
  shows "plain ''/?#[]'' userinfo" "plain ''/?#@:[]%'' host" "plain ''/?#@[]'' port"
  using assms by (simp_all add: url_parts_def)

lemma plain_avoids:
  assumes "plain bad s" "x \<in> set bad"
  shows "list_all (\<lambda>c. c \<noteq> x) s" "x \<notin> set s"
  using assms by (auto simp: plain_def list_all_iff)

lemma plain_subset: "plain bad s \<Longrightarrow> set bad' \<subseteq> set bad \<Longrightarrow> plain bad' s"
  by (auto simp: plain_def list_all_iff)

lemma netloc_url:
  assumes "url_parts scheme userinfo host port path"
  shows "netloc (url_of scheme userinfo host port path) = userinfo @ host @ port"
proof -
  let ?keep = "\<lambda>c. code c \<notin> {9, 10, 13}"
  have sch: "scheme \<noteq> []" "alpha_char (hd scheme)" "list_all scheme_char scheme" "plain '':'' scheme"
    using assms scheme_plain by (auto simp: url_parts_def)
  have parts: "filter ?keep userinfo = userinfo" "filter ?keep host = host" "filter ?keep port = port"
    by (rule plain_clean [OF url_parts_plain(1) [OF assms]] plain_clean [OF url_parts_plain(2) [OF assms]]
      plain_clean [OF url_parts_plain(3) [OF assms]])+
  have "\<not> code (hd scheme) \<le> 32" using sch(1,4) by (cases scheme) (auto simp: plain_def)
  then have "dropWhile (\<lambda>c. code c \<le> 32) (url_of scheme userinfo host port path) = url_of scheme userinfo host port path"
    using sch(1) by (cases scheme) (auto simp: url_of_def)
  then have clean: "cleaned_url (url_of scheme userinfo host port path) =
      scheme @ CHR '':'' # ''//'' @ userinfo @ host @ port @ filter ?keep path"
    using parts plain_clean [OF sch(4)] by (simp add: cleaned_url_def url_of_def code_def)
  have colon: "list_all (\<lambda>c. c \<noteq> CHR '':'') scheme" using sch(4) by (rule plain_avoids) simp
  have rest: "without_scheme (cleaned_url (url_of scheme userinfo host port path)) =
      ''//'' @ userinfo @ host @ port @ filter ?keep path"
    unfolding clean without_scheme_def Let_def before_after(1,2) [OF colon] using sch by simp
  have "plain ''/?#'' (userinfo @ host @ port)"
    unfolding plain_append using url_parts_plain [OF assms] by (auto elim: plain_subset)
  then have "list_all (\<lambda>c. c \<notin> {CHR ''/'', CHR ''?'', CHR ''#''}) (userinfo @ host @ port)"
    by (simp add: plain_def list_all_iff)
  moreover have "filter ?keep path = [] \<or> \<not> hd (filter ?keep path) \<notin> {CHR ''/'', CHR ''?'', CHR ''#''}"
    using assms by (cases path) (auto simp: url_parts_def code_def)
  ultimately have "takeWhile (\<lambda>c. c \<notin> {CHR ''/'', CHR ''?'', CHR ''#''}) ((userinfo @ host @ port) @ filter ?keep path) =
      userinfo @ host @ port"
    by (rule takeWhile_plain)
  then show ?thesis by (simp add: netloc_def rest Let_def)
qed

lemma host_of_url:
  assumes "url_parts scheme userinfo host port path"
  shows "host_of bracket_ok (url_of scheme userinfo host port path) = Some (normal_host host)"
proof -
  have no_br: "CHR ''['' \<notin> set (userinfo @ host @ port)" "CHR '']'' \<notin> set (userinfo @ host @ port)"
    using url_parts_plain [OF assms, THEN plain_avoids(2)] by simp_all
  have host: "host \<noteq> []" "list_all (\<lambda>c. c \<noteq> CHR '':'') host" "list_all (\<lambda>c. c \<noteq> CHR ''%'') host"
    using assms url_parts_plain(2) [OF assms, THEN plain_avoids(1)] by (simp_all add: url_parts_def)
  have "list_all (\<lambda>c. c \<noteq> CHR ''@'') (host @ port)"
    using url_parts_plain(2,3) [OF assms, THEN plain_avoids(1)] by simp
  moreover have "userinfo = [] \<or> last userinfo = CHR ''@''" using assms by (simp add: url_parts_def)
  ultimately have info: "after_last CHR ''@'' (userinfo @ host @ port) = host @ port"
    by (rule after_last_plain)
  have "before CHR '':'' (host @ port) = host"
  proof (cases port)
    case (Cons c p)
    with assms have "c = CHR '':''" by (simp add: url_parts_def)
    with Cons show ?thesis using before_after(1) [OF host(2)] by simp
  qed (simp add: before_after(3) [OF host(2)])
  then have "hostname bracket_ok (url_of scheme userinfo host port path) = Inr (Some (lower_latin host))"
    using no_br host(1) before_after(3,4) [OF host(3)] by (simp add: hostname_def netloc_url [OF assms] Let_def info)
  then show ?thesis by (simp add: host_of_def normal_host_lower)
qed

text \<open>
  A URL with a scheme, user information, host, port and path is let through exactly when its host,
  in lower case and without a final dot, is one of the listed hosts: nothing that user information,
  port, path or query spell can stand for a listed host.
\<close>

theorem egress_by_host_only:
  assumes "url_parts scheme userinfo host port path" "hosts \<noteq> []"
  shows "egress_allowed bracket_ok (JStr (url_of scheme userinfo host port path)) (JList hosts) =
    Inr (normal_host host \<in> set (host_entries hosts))"
proof -
  have "url_of scheme userinfo host port path \<noteq> []" by (simp add: url_of_def)
  with assms(2) show ?thesis by (simp add: egress_allowed_def host_of_url [OF assms(1)])
qed

theorem egress_by_host_only_witness:
  "egress_allowed (\<lambda>n. False) (JStr ''https://trusted.example@evil.test/trusted.example'') (JList [JStr ''trusted.example'']) = Inr False"
proof -
  have p: "url_parts ''https'' ''trusted.example@'' ''evil.test'' [] ''/trusted.example''" by code_simp
  have n: "(normal_host ''evil.test'' \<in> set (host_entries [JStr ''trusted.example''])) = False"
    and u: "url_of ''https'' ''trusted.example@'' ''evil.test'' [] ''/trusted.example'' =
      ''https://trusted.example@evil.test/trusted.example''"
    by code_simp+
  from egress_by_host_only [OF p, of "[JStr ''trusted.example'']"] show ?thesis unfolding u n by simp
qed

subsection \<open>Confinement is by whole names\<close>

definition slash_free :: "string list \<Rightarrow> bool" where
  "slash_free l = list_all (\<lambda>c. CHR ''/'' \<notin> set c) l"

lemma slash_free_simps [simp]:
  "slash_free []" "slash_free (c # l) \<longleftrightarrow> CHR ''/'' \<notin> set c \<and> slash_free l"
  "slash_free (l @ m) \<longleftrightarrow> slash_free l \<and> slash_free m"
  by (simp_all add: slash_free_def)

lemma slash_free_butlast: "slash_free l \<Longrightarrow> slash_free (butlast l)"
  by (auto simp: slash_free_def list_all_iff dest: in_set_butlastD)

lemma slash_free_names: "slash_free (path_names p)"
proof -
  have "list_all (\<lambda>c. CHR ''/'' \<notin> set c) (split_on (\<lambda>c. c = CHR ''/'') s)" for s
    by (induction s) (auto simp: split_on_simps split: list.splits)
  then show ?thesis by (simp add: path_names_def slash_free_def)
qed

definition seen_slash_free :: "seen \<Rightarrow> bool" where
  "seen_slash_free seen = (\<forall>l r. map_of seen l = Some (Some r) \<longrightarrow> slash_free r)"

lemma rejoin_slash_free: "slash_free p \<Longrightarrow> slash_free cs \<Longrightarrow> slash_free (rejoin p cs)"
  by (simp add: rejoin_def)

lemma joinrealpath_slash_free:
  assumes "slash_free p" "slash_free cs" "seen_slash_free seen"
  shows "case joinrealpath n links seen p cs of (r, seen', ok) \<Rightarrow> slash_free r \<and> seen_slash_free seen'"
  using assms
proof (induction n links seen p cs rule: joinrealpath.induct)
  case (2 n links seen p c cs)
  show ?case
  proof (cases "nothing_name c \<or> c = ''..''")
    case True
    with 2 show ?thesis by (auto simp: slash_free_butlast)
  next
    case plain: False
    show ?thesis
    proof (cases "map_of links (p @ [c])")
      case None
      with plain 2 show ?thesis by simp
    next
      case link: (Some target)
      show ?thesis
      proof (cases "map_of seen (p @ [c])")
        case entry: (Some e)
        then have "slash_free r" if "e = Some r" for r
          using "2.prems"(3) that by (auto simp: seen_slash_free_def)
        with plain link entry 2 show ?thesis by (cases e) (auto intro: rejoin_slash_free)
      next
        case fresh: None
        show ?thesis
        proof (cases n)
          case 0
          with plain link fresh "2.prems" show ?thesis by (simp add: rejoin_slash_free)
        next
          case (Suc m)
          let ?sub = "joinrealpath m links ((p @ [c], None) # seen) (if absolute target then [] else p) (path_names target)"
          obtain r seen' ok where sub: "?sub = (r, seen', ok)" by (metis prod.exhaust)
          have "case ?sub of (r, seen', ok) \<Rightarrow> slash_free r \<and> seen_slash_free seen'"
            using plain link fresh Suc "2.prems" slash_free_names
            by (intro "2.IH"(4)) (auto simp: seen_slash_free_def)
          then have s: "slash_free r" "seen_slash_free seen'" by (simp_all add: sub)
          show ?thesis
          proof (cases ok)
            case True
            have "seen_slash_free ((p @ [c], Some r) # seen')" using s by (auto simp: seen_slash_free_def)
            from "2.IH"(5) [OF _ _ link fresh Suc sub [symmetric] refl True s(1) _ this] plain "2.prems" show ?thesis
              using link fresh Suc sub True by simp
          next
            case False
            then show ?thesis using plain link fresh Suc sub s "2.prems" by (simp add: rejoin_slash_free)
          qed
        qed
      qed
    qed
  qed
qed simp

lemma normalised_slash_free: "slash_free p \<Longrightarrow> slash_free cs \<Longrightarrow> slash_free (normalised p cs)"
  by (induction p cs rule: normalised.induct) (auto simp: slash_free_butlast)

lemma realpath_slash_free:
  assumes "slash_free cwd" "realpath links cwd p = Inr l"
  shows "slash_free l"
proof -
  have "case resolution links cwd p of (r, seen', ok) \<Rightarrow> slash_free r \<and> seen_slash_free seen'"
    unfolding resolution_def using assms(1) slash_free_names
    by (intro joinrealpath_slash_free) (auto simp: seen_slash_free_def)
  then have "slash_free (fst (resolution links cwd p))" by (simp split: prod.splits)
  with assms(2) show ?thesis by (auto simp: realpath_def normalised_slash_free split: if_splits)
qed

lemma normalised_names:
  "[] \<notin> set p \<Longrightarrow> [] \<notin> set (normalised p cs)"
  by (induction p cs rule: normalised.induct) (auto simp: nothing_name_def dest: in_set_butlastD)

lemma realpath_names: "realpath links cwd p = Inr l \<Longrightarrow> [] \<notin> set l"
  using normalised_names by (auto simp: realpath_def split: if_splits)

lemma path_names_append: "path_names (s @ CHR ''/'' # t) = path_names s @ path_names t"
proof -
  have ne: "split_on p u \<noteq> []" for p and u :: string
    by (induction u) (auto simp: split_on_simps split: list.splits)
  show ?thesis
    unfolding path_names_def
  proof (induction s)
    case (Cons c s)
    then show ?case using ne [of "\<lambda>c. c = CHR ''/''" s] by (auto simp: split_on_simps split: list.splits)
  qed (simp add: split_on_simps)
qed

lemma path_names_text: "slash_free l \<Longrightarrow> l \<noteq> [] \<Longrightarrow> path_names (path_text l) = [] # l"
proof -
  assume l: "slash_free l" "l \<noteq> []"
  then have "list_all (list_all (\<lambda>c. \<not> c = CHR ''/'')) l"
    by (auto simp: slash_free_def list_all_iff)
  from split_on_join [OF this l(2)] show ?thesis by (simp add: path_text_def path_names_def split_on_simps)
qed

lemma path_text_below:
  assumes "slash_free l" "slash_free root" "root \<noteq> []" "[] \<notin> set root"
  shows "path_text l = path_text root \<or> startswith (path_text l) (path_text root @ ''/'') \<longleftrightarrow>
    take (length root) l = root"
proof
  assume "path_text l = path_text root \<or> startswith (path_text l) (path_text root @ ''/'')"
  then show "take (length root) l = root"
  proof
    assume eq: "path_text l = path_text root"
    have "path_names (path_text []) = [[], []]" by (simp add: path_text_def path_names_def split_on_simps)
    with eq path_names_text [OF assms(2,3)] assms(4) have "l \<noteq> []" by auto
    have "[] # l = path_names (path_text l)" using path_names_text [OF assms(1) \<open>l \<noteq> []\<close>] by (rule sym)
    also have "\<dots> = [] # root" unfolding eq by (rule path_names_text [OF assms(2,3)])
    finally show ?thesis by simp
  next
    assume "startswith (path_text l) (path_text root @ ''/'')"
    then have "path_text l = (path_text root @ ''/'') @ drop (length (path_text root @ ''/'')) (path_text l)"
      by (metis startswith_def append_take_drop_id)
    then obtain t where t: "path_text l = path_text root @ CHR ''/'' # t" by auto
    have "path_text root \<noteq> []" "path_text [] = ''/''" by (simp_all add: path_text_def)
    with t have "l \<noteq> []" by (cases "path_text root") auto
    have "[] # l = path_names (path_text l)" using path_names_text [OF assms(1) \<open>l \<noteq> []\<close>] by (rule sym)
    also have "\<dots> = ([] # root) @ path_names t"
      unfolding t path_names_append path_names_text [OF assms(2,3)] by (rule refl)
    finally have "[] # l = ([] # root) @ path_names t" .
    then show ?thesis by simp
  qed
next
  assume "take (length root) l = root"
  then obtain m where l: "l = root @ m" by (metis append_take_drop_id)
  show "path_text l = path_text root \<or> startswith (path_text l) (path_text root @ ''/'')"
  proof (cases "m = []")
    case False
    with l assms(3) show ?thesis by (simp add: path_text_def startswith_def join_append)
  qed (simp add: l)
qed

lemma root_text:
  assumes "slash_free l" "[] \<notin> set l" "path_text l = ''/'' \<or> startswith (path_text l) ''//''"
  shows "l = []"
proof (rule ccontr)
  assume "l \<noteq> []"
  then obtain c m where l: "l = c # m" by (cases l) auto
  with assms(1,2) obtain x c' where "c = x # c'" "x \<noteq> CHR ''/''" by (cases c) auto
  with l assms(3) show False by (auto simp: path_text_def join_def startswith_def)
qed

text \<open>
  A write is confined exactly when the path, resolved with its links, is the resolved root or lies
  below it name by name; a sibling whose name merely starts like the root's never counts. The root
  directory of the file system confines itself only.
\<close>

theorem confinement_by_names:
  assumes "slash_free cwd"
  shows "check_worktree_confinement links cwd (JStr p) (JStr r) \<longleftrightarrow>
    (\<exists>l root. (p = []) = False \<and> (r = []) = False \<and> realpath links cwd p = Inr l \<and> realpath links cwd r = Inr root \<and>
      take (length root) l = root \<and> (l = root \<or> (root = []) = False))"
proof -
  have names: "path_text l = path_text root \<or> startswith (path_text l) (path_text root @ ''/'') \<longleftrightarrow>
      take (length root) l = root \<and> (l = root \<or> root \<noteq> [])"
    if "realpath links cwd p = Inr l" "realpath links cwd r = Inr root" for l root
  proof (cases "root = []")
    case True
    have "slash_free l" "[] \<notin> set l"
      using realpath_slash_free [OF assms that(1)] realpath_names [OF that(1)] by blast+
    note root_text [OF this]
    then show ?thesis using True by (auto simp: path_text_def)
  next
    case False
    then show ?thesis
      using path_text_below [OF realpath_slash_free [OF assms that(1)] realpath_slash_free [OF assms that(2)]]
        realpath_names [OF that(2)] by auto
  qed
  then show ?thesis by (auto simp: check_worktree_confinement_def split: sum.splits)
qed

theorem confinement_by_names_witness:
  "check_worktree_confinement [] [''wt''] (JStr ''/wt/slice-evil/f'') (JStr ''/wt/slice'') = False"
proof -
  have "slash_free [''wt'']" by simp
  moreover have "realpath [] [''wt''] ''/wt/slice-evil/f'' = Inr [''wt'', ''slice-evil'', ''f'']"
    "realpath [] [''wt''] ''/wt/slice'' = Inr [''wt'', ''slice'']"
    by code_simp+
  ultimately show ?thesis using confinement_by_names [of "[''wt'']" "[]" "''/wt/slice-evil/f''" "''/wt/slice''"] by simp
qed

end
