(* ===== verification/Traceability.thy ===== *)
theory Traceability
  imports Req_Scan "HOL-Library.Product_Lexorder"
begin

section \<open>Traceability links\<close>

text \<open>
  \<open>tools/traceability_writer.py\<close>: the requirement identifiers of a commit message, the gate that
  demands one, and the rows that join a commit and a test over a requirement. Rows are compared
  column by column; a column holds texts or whole numbers, a mixture does not compare.
\<close>

datatype trace_error = TraceabilityError | TraceExc py_exc

definition scan_value :: "json \<Rightarrow> string list py" where
  "scan_value v = (if \<not> truthy v then Inr [] else case v of JStr s \<Rightarrow> Inr (scan_req_ids s) | _ \<Rightarrow> Inl TypeError)"

definition parse_commit_trailers :: "json \<Rightarrow> string list py" where
  "parse_commit_trailers message = scan_value message"

definition assert_commit_has_req_id :: "json \<Rightarrow> trace_error + bool" where
  "assert_commit_has_req_id message = (case parse_commit_trailers message of
     Inl e \<Rightarrow> Inl (TraceExc e)
   | Inr ids \<Rightarrow> if ids = [] then Inl TraceabilityError else Inr True)"

definition strings_of :: "json list \<Rightarrow> string list" where
  "strings_of xs = concat (map (\<lambda>x. case x of JStr s \<Rightarrow> [s] | _ \<Rightarrow> []) xs)"

definition commit_req_ids :: "dict \<Rightarrow> string list py" where
  "commit_req_ids commit = (case py_or (dget commit ''requirement_ids'') (dget commit ''req_ids'') of
     JList xs \<Rightarrow> Inr (strings_of xs)
   | _ \<Rightarrow> parse_commit_trailers (dget_or commit ''message'' (JStr [])))"

definition test_req_ids :: "dict \<Rightarrow> string list py" where
  "test_req_ids t = (case dget t ''requirement_id'' of
     JStr (c # s) \<Rightarrow> Inr [c # s]
   | _ \<Rightarrow> (case py_or (dget t ''requirement_ids'') (dget t ''req_ids'') of
       JList xs \<Rightarrow> Inr (strings_of xs)
     | _ \<Rightarrow> scan_value (JStr (join '' '' (map (\<lambda>k. py_str (dget_or t k (JStr [])))
         [''test_file'', ''test_name'', ''file'', ''path''])))))"

definition test_file_of :: "dict \<Rightarrow> json" where
  "test_file_of t = py_or (dget t ''test_file'') (py_or (dget t ''file'') (py_or (dget t ''path'') (JStr [])))"

definition commit_sha_of :: "dict \<Rightarrow> json" where
  "commit_sha_of c = py_or (dget c ''sha'') (py_or (dget c ''commit_sha'') (JStr []))"

text \<open>One pair for each requirement of each entry; entries that are not objects, or name no file
  or commit, are skipped.\<close>

fun pairs_of :: "(dict \<Rightarrow> json) \<Rightarrow> (dict \<Rightarrow> string list py) \<Rightarrow> json list \<Rightarrow> (string \<times> json) list py" where
  "pairs_of name ids [] = Inr []"
| "pairs_of name ids (e # es) = (case e of
     JObj d \<Rightarrow> if \<not> truthy (name d) then pairs_of name ids es
       else py_bind (ids d) (\<lambda>rs. py_bind (pairs_of name ids es) (\<lambda>ps. Inr (map (\<lambda>r. (r, name d)) rs @ ps)))
   | _ \<Rightarrow> pairs_of name ids es)"

text \<open>What goes into a set must be hashable.\<close>

definition hashed :: "('a \<Rightarrow> json) \<Rightarrow> 'a list \<Rightarrow> 'a list py" where
  "hashed f xs = (if list_all (\<lambda>x. hashable (f x)) xs then Inr xs else Inl TypeError)"

type_synonym row = "string \<times> json \<times> json"

definition row_eq :: "row \<Rightarrow> row \<Rightarrow> bool" where
  "row_eq a b = (fst a = fst b \<and> py_eq (fst (snd a)) (fst (snd b)) \<and> py_eq (snd (snd a)) (snd (snd b)))"

definition add_row :: "row list \<Rightarrow> row \<Rightarrow> row list" where
  "add_row rows r = (if list_ex (row_eq r) rows then rows else rows @ [r])"

definition joined :: "(string \<times> json) list \<Rightarrow> (string \<times> json) list \<Rightarrow> row list" where
  "joined commits tests = concat (map (\<lambda>(r, c). concat (map (\<lambda>(r', t). if r = r' then [(r, c, t)] else []) tests)) commits)"

definition column_key :: "json \<Rightarrow> int \<times> string" where
  "column_key v = (case v of JStr s \<Rightarrow> (0, s) | _ \<Rightarrow> (the (py_num v), []))"

definition comparable :: "json list \<Rightarrow> bool" where
  "comparable vs = (list_all is_str vs \<or> list_all (\<lambda>v. py_num v \<noteq> None) vs)"

definition sort_rows :: "row list \<Rightarrow> row list py" where
  "sort_rows rows = (if length rows \<le> 1 then Inr rows
     else if comparable (map (\<lambda>r. fst (snd r)) rows) \<and> comparable (map (\<lambda>r. snd (snd r)) rows)
     then Inr (sort_key (\<lambda>(r, c, t). (r, column_key c, column_key t)) rows)
     else Inl TypeError)"

definition row_dict :: "row \<Rightarrow> json" where
  "row_dict row = (case row of (r, c, t) \<Rightarrow>
     JObj [(''requirement_id'', JStr r), (''commit_sha'', c), (''test_file'', t)])"

definition build_links :: "json \<Rightarrow> json \<Rightarrow> json list py" where
  "build_links commits tests =
     py_bind (py_iter (py_or tests (JList []))) (\<lambda>ts.
     py_bind (pairs_of test_file_of test_req_ids ts) (\<lambda>ps. py_bind (hashed snd ps) (\<lambda>tps.
     py_bind (py_iter (py_or commits (JList []))) (\<lambda>cs. py_bind (pairs_of commit_sha_of commit_req_ids cs) (\<lambda>cps.
     py_bind (hashed (\<lambda>row. fst (snd row)) (joined cps tps)) (\<lambda>rows.
       py_bind (sort_rows (foldl add_row [] rows)) (\<lambda>sorted_rows. Inr (map row_dict sorted_rows))))))))"

subsection \<open>The gate on commit messages\<close>

text \<open>
  The commit gate passes exactly the messages in which some requirement identifier stands as a
  word of its own, and raises its own error on every other text.
\<close>

theorem commit_gate_exact:
  "assert_commit_has_req_id (JStr m) =
     (if \<exists>i pre post. is_req_id i \<and> m = pre @ i @ post \<and> ends_word False pre = False \<and> boundary post
      then Inr True else Inl TraceabilityError)"
proof -
  have parse: "parse_commit_trailers (JStr m) = Inr (scan_req_ids m)"
    by (auto simp: parse_commit_trailers_def scan_value_def scan_req_ids_def find_req_ids.simps)
  have "scan_req_ids m = [] \<longleftrightarrow> {i. occurs False m i} = {}"
    unfolding scan_req_ids_occurs [symmetric] by simp
  then show ?thesis by (auto simp: assert_commit_has_req_id_def parse occurs_def)
qed

subsection \<open>The rows, exactly\<close>

text \<open>The requirement and name pairs that a list of entries states.\<close>

definition stated :: "(dict \<Rightarrow> json) \<Rightarrow> (dict \<Rightarrow> string list py) \<Rightarrow> json list \<Rightarrow> (string \<times> json) set" where
  "stated name ids es = {(r, n). \<exists>d rs. JObj d \<in> set es \<and> n = name d \<and> truthy n \<and> ids d = Inr rs \<and> r \<in> set rs}"

text \<open>Entries whose names are texts and whose identifiers can be read.\<close>

definition readable :: "(dict \<Rightarrow> json) \<Rightarrow> (dict \<Rightarrow> string list py) \<Rightarrow> json list \<Rightarrow> bool" where
  "readable name ids es = list_all (\<lambda>e. case e of JObj d \<Rightarrow> truthy (name d) \<longrightarrow> is_str (name d) \<and> \<not> isl (ids d) | _ \<Rightarrow> True) es"

lemma pairs_of_readable:
  assumes "readable name ids es"
  shows "\<exists>ps. pairs_of name ids es = Inr ps \<and> set ps = stated name ids es \<and> list_all (\<lambda>p. is_str (snd p)) ps"
  using assms
proof (induction es)
  case (Cons e es)
  then obtain ps where ps: "pairs_of name ids es = Inr ps" "set ps = stated name ids es" "list_all (\<lambda>p. is_str (snd p)) ps"
    by (auto simp: readable_def)
  show ?case
  proof (cases "\<exists>d. e = JObj d \<and> truthy (name d)")
    case True
    then obtain d where d: "e = JObj d" "truthy (name d)" by blast
    with Cons.prems obtain rs where rs: "ids d = Inr rs" "is_str (name d)"
      by (cases "ids d") (auto simp: readable_def)
    have "stated name ids (e # es) = (\<lambda>r. (r, name d)) ` set rs \<union> stated name ids es"
      using d rs by (auto simp: stated_def)
    with ps d rs show ?thesis by (auto simp: list_all_iff)
  next
    case False
    then have "stated name ids (e # es) = stated name ids es" by (auto simp: stated_def)
    with ps False show ?thesis by (cases e) auto
  qed
qed (simp add: stated_def)

lemma set_joined: "set (joined cs ts) = {(r, c, t). (r, c) \<in> set cs \<and> (r, t) \<in> set ts}"
  by (auto simp: joined_def split: if_splits)

definition text_row :: "row \<Rightarrow> bool" where
  "text_row row = (is_str (fst (snd row)) \<and> is_str (snd (snd row)))"

lemma row_eq_text: "text_row a \<Longrightarrow> row_eq a b \<longleftrightarrow> a = b"
  by (cases a; cases b) (auto simp: text_row_def row_eq_def elim!: is_str.elims)

lemma add_rows_text:
  assumes "list_all text_row rows"
  shows "set (foldl add_row acc rows) = set acc \<union> set rows" "distinct acc \<Longrightarrow> distinct (foldl add_row acc rows)"
  using assms by (induction rows arbitrary: acc) (auto simp: add_row_def row_eq_text list_ex_iff)

definition row_texts :: "row \<Rightarrow> string \<times> string \<times> string" where
  "row_texts row = (fst row, py_str (fst (snd row)), py_str (snd (snd row)))"

definition text_dict :: "string \<times> string \<times> string \<Rightarrow> json" where
  "text_dict x = row_dict (fst x, JStr (fst (snd x)), JStr (snd (snd x)))"

lemma text_dict: "text_row row \<Longrightarrow> text_dict (row_texts row) = row_dict row"
  by (cases row) (auto simp: text_row_def text_dict_def row_texts_def elim!: is_str.elims)

lemma row_texts_inject: "text_row a \<Longrightarrow> text_row b \<Longrightarrow> row_texts a = row_texts b \<longleftrightarrow> a = b"
  by (cases a; cases b) (auto simp: text_row_def row_texts_def elim!: is_str.elims)

lemma row_order:
  assumes "text_row a" "text_row b"
  shows "(case a of (r, c, t) \<Rightarrow> (r, column_key c, column_key t)) \<le> (case b of (r, c, t) \<Rightarrow> (r, column_key c, column_key t)) \<longleftrightarrow>
    row_texts a \<le> row_texts b"
  using assms by (cases a; cases b) (auto simp: text_row_def row_texts_def column_key_def less_eq_prod_def less_prod_def elim!: is_str.elims)

lemma sort_rows_text:
  assumes "list_all text_row rows"
  shows "\<exists>out. sort_rows rows = Inr out \<and> set out = set rows \<and> length out = length rows \<and> sorted (map row_texts out)"
proof (cases "length rows \<le> 1")
  case True
  then have "sorted (map row_texts rows)" by (cases rows; cases "tl rows") auto
  with True show ?thesis by (simp add: sort_rows_def)
next
  case False
  let ?k = "\<lambda>(r, c, t). (r, column_key c, column_key t)"
  let ?out = "sort_key ?k rows"
  have "comparable (map (\<lambda>r. fst (snd r)) rows)" "comparable (map (\<lambda>r. snd (snd r)) rows)"
    using assms by (auto simp: comparable_def text_row_def list_all_iff)
  with False have "sort_rows rows = Inr ?out" by (simp add: sort_rows_def)
  moreover have "sorted_wrt (\<lambda>a b. row_texts a \<le> row_texts b) ?out"
  proof (rule sorted_wrt_mono_rel)
    show "sorted_wrt (\<lambda>a b. ?k a \<le> ?k b) ?out" using sorted_sort_key [of ?k rows] by (simp add: sorted_map)
    fix a b assume "a \<in> set ?out" "b \<in> set ?out" "?k a \<le> ?k b"
    with assms show "row_texts a \<le> row_texts b" using row_order [of a b] by (simp add: list_all_iff)
  qed
  ultimately show ?thesis by (simp add: sorted_map)
qed

text \<open>
  For commits and tests whose names are texts, the rows are exactly the triples of a requirement,
  a commit that references it and a test that exercises it, each once and in order, so they do not
  depend on the order of the inputs.
\<close>

theorem build_links_exact:
  assumes "readable commit_sha_of commit_req_ids cs" "readable test_file_of test_req_ids ts"
  shows "\<exists>rows. build_links (JList cs) (JList ts) = Inr (map text_dict rows) \<and> sorted rows \<and> distinct rows \<and>
    set rows = {(r, c, t). (r, JStr c) \<in> stated commit_sha_of commit_req_ids cs \<and>
      (r, JStr t) \<in> stated test_file_of test_req_ids ts}"
proof -
  from pairs_of_readable [OF assms(1)] obtain cps where
    cps: "pairs_of commit_sha_of commit_req_ids cs = Inr cps" "set cps = stated commit_sha_of commit_req_ids cs"
      "list_all (\<lambda>p. is_str (snd p)) cps" by blast
  from pairs_of_readable [OF assms(2)] obtain tps where
    tps: "pairs_of test_file_of test_req_ids ts = Inr tps" "set tps = stated test_file_of test_req_ids ts"
      "list_all (\<lambda>p. is_str (snd p)) tps" by blast
  have str: "is_str v \<Longrightarrow> hashable v" for v by (cases v) simp_all
  have h: "hashed snd tps = Inr tps" using tps(3) str by (auto simp: hashed_def list_all_iff)
  let ?j = "joined cps tps"
  let ?rows = "foldl add_row [] (joined cps tps)"
  have jtext: "list_all text_row ?j" using cps(3) tps(3) by (auto simp: list_all_iff set_joined text_row_def)
  have hj: "hashed (\<lambda>row. fst (snd row)) ?j = Inr ?j" using jtext str by (auto simp: hashed_def list_all_iff text_row_def)
  have set_rows: "set ?rows = set ?j" "distinct ?rows" using add_rows_text [OF jtext, of "[]"] by simp_all
  have trows: "list_all text_row ?rows" using jtext set_rows(1) by (simp add: list_all_iff)
  from sort_rows_text [OF trows] obtain out where
    out: "sort_rows ?rows = Inr out" "set out = set ?j" "length out = length ?rows" "sorted (map row_texts out)"
    unfolding set_rows(1) by blast
  have dout: "distinct out" using set_rows out(2,3) by (metis card_distinct distinct_card)
  have tout: "text_row a" if "a \<in> set out" for a using that out(2) jtext by (simp add: list_all_iff)
  have "build_links (JList cs) (JList ts) = Inr (map row_dict out)"
    using cps(1) tps(1) h hj out(1) by (simp add: build_links_def py_or_def split: if_splits) (auto simp: py_or_def)
  moreover have "map row_dict out = map text_dict (map row_texts out)" using text_dict tout by simp
  moreover have "distinct (map row_texts out)"
    using dout row_texts_inject tout by (auto simp: distinct_map inj_on_def)
  moreover have "set (map row_texts out) = {(r, c, t). (r, JStr c) \<in> set cps \<and> (r, JStr t) \<in> set tps}"
  proof -
    have "set out = {(r, c, t). (r, c) \<in> set cps \<and> (r, t) \<in> set tps}" unfolding out(2) set_joined ..
    then show ?thesis using cps(3) tps(3)
      by (force simp: row_texts_def list_all_iff image_iff elim!: is_str.elims)
  qed
  ultimately show ?thesis using out(4) cps(2) tps(2) by metis
qed

definition sample_commit :: dict where
  "sample_commit = [(''sha'', JStr ''c0ffee''), (''req_ids'', JList [JStr ''REQ-A-001''])]"

definition sample_test :: dict where
  "sample_test = [(''test_file'', JStr ''t.py''), (''requirement_id'', JStr ''REQ-A-001'')]"

theorem build_links_exact_witness:
  "build_links (JList [JObj sample_commit]) (JList [JObj sample_test]) =
    Inr [text_dict (''REQ-A-001'', ''c0ffee'', ''t.py'')]"
proof -
  have ids: "commit_req_ids sample_commit = Inr [''REQ-A-001'']" "commit_sha_of sample_commit = JStr ''c0ffee''"
    "test_req_ids sample_test = Inr [''REQ-A-001'']" "test_file_of sample_test = JStr ''t.py''"
    by (simp_all add: sample_commit_def sample_test_def commit_req_ids_def commit_sha_of_def test_req_ids_def
        test_file_of_def strings_of_def py_or_def)
  have "readable commit_sha_of commit_req_ids [JObj sample_commit]" "readable test_file_of test_req_ids [JObj sample_test]"
    by (simp_all add: readable_def ids)
  from build_links_exact [OF this] obtain rows where
    run: "build_links (JList [JObj sample_commit]) (JList [JObj sample_test]) = Inr (map text_dict rows)" "distinct rows"
    and "set rows = {(r, c, t). (r, JStr c) \<in> stated commit_sha_of commit_req_ids [JObj sample_commit] \<and>
      (r, JStr t) \<in> stated test_file_of test_req_ids [JObj sample_test]}"
    by blast
  then have "set rows = {(''REQ-A-001'', ''c0ffee'', ''t.py'')}" by (auto simp: stated_def ids)
  with run(2) have "rows = [(''REQ-A-001'', ''c0ffee'', ''t.py'')]" by (cases rows; cases "tl rows") auto
  with run(1) show ?thesis by simp
qed

end
