(* ===== verification/Spec_Validator.thy ===== *)
theory Spec_Validator
  imports Req_Scan
begin

section \<open>The specification validator\<close>

text \<open>
  \<open>tools/spec_validator.py\<close>: the structural checks of a specification. A requirement has exactly
  one pattern of a closed list, no vague adjective, the baseline is covered, and one identifier has
  one outcome. An outcome that is absent is \<open>None\<close> and differs from every value.
\<close>

definition VALID_EARS_PATTERNS :: "string list" where
  "VALID_EARS_PATTERNS = [''ubiquitous'', ''event-driven'', ''state-driven'', ''unwanted'', ''optional'']"

definition VAGUE_ADJECTIVES :: "string list" where
  "VAGUE_ADJECTIVES = [''efficient'', ''fast'', ''robust'', ''scalable'', ''secure'', ''slow'', ''user-friendly'']"

definition requirement_text :: "dict \<Rightarrow> string" where
  "requirement_text req = join '' '' (concat (map (\<lambda>k. if truthy (dget req k) then [py_str (dget req k)] else [])
     [''text'', ''ears_statement'', ''ears_stmt'', ''statement'', ''description'']))"

definition ears_patterns_of :: "dict \<Rightarrow> string list" where
  "ears_patterns_of req =
     (case dget req ''ears_pattern'' of
        JStr s \<Rightarrow> (if strip s \<noteq> [] then [strip s] else [])
      | JNull \<Rightarrow> []
      | v \<Rightarrow> [py_str v]) @
     (case dget req ''ears_patterns'' of
        JList ps \<Rightarrow> filter (\<lambda>s. s \<noteq> []) (map (\<lambda>p. strip (py_str p)) ps)
      | _ \<Rightarrow> [])"

definition joins_word :: "char \<Rightarrow> bool" where
  "joins_word c = (word_char c \<or> c = CHR ''-'')"

text \<open>A whole-word search: \<open>free\<close> says that the position is not inside a word.\<close>

fun has_word :: "string \<Rightarrow> bool \<Rightarrow> string \<Rightarrow> bool" where
  "has_word w free [] = False"
| "has_word w free (c # cs) =
     ((free \<and> startswith (c # cs) w \<and> (case drop (length w) (c # cs) of [] \<Rightarrow> True | x # _ \<Rightarrow> \<not> joins_word x)) \<or>
      has_word w (\<not> joins_word c) cs)"

definition find_vague_adjectives :: "string \<Rightarrow> string list" where
  "find_vague_adjectives s = filter (\<lambda>adj. has_word adj True (lower_latin s)) VAGUE_ADJECTIVES"

definition ears_reason :: "string list \<Rightarrow> string option" where
  "ears_reason patterns =
     (if length patterns \<noteq> 1 \<or> length (filter (\<lambda>p. p \<in> set VALID_EARS_PATTERNS) patterns) \<noteq> 1
      then Some (if patterns = [] then ''missing ears_pattern''
        else if 1 < length patterns then ''multiple ears_pattern tags''
        else ''ears_pattern not in valid enum'')
      else None)"

definition ambiguities_of :: "nat \<times> json \<Rightarrow> json list" where
  "ambiguities_of x = (case x of (index, req) \<Rightarrow> case req of
     JObj d \<Rightarrow>
       (case ears_reason (ears_patterns_of d) of None \<Rightarrow> []
        | Some reason \<Rightarrow> [JObj [(''index'', JInt (int index)), (''id'', dget d ''id''), (''kind'', JStr ''ears_pattern''),
            (''reason'', JStr reason), (''patterns'', JList (map JStr (ears_patterns_of d)))]]) @
       (case find_vague_adjectives (requirement_text d) of [] \<Rightarrow> []
        | hits \<Rightarrow> [JObj [(''index'', JInt (int index)), (''id'', dget d ''id''), (''kind'', JStr ''vague_adjective''),
            (''reason'', JStr ''vague adjective(s) without quantification''), (''adjectives'', JList (map JStr hits))]])
   | _ \<Rightarrow> [JObj [(''index'', JInt (int index)), (''id'', JNull), (''kind'', JStr ''ears_pattern''),
       (''reason'', JStr ''requirement is not an object''), (''patterns'', JList [])]])"

definition covered_by :: "json list \<Rightarrow> string list" where
  "covered_by reqs = concat (map (\<lambda>req. case req of
     JObj d \<Rightarrow> (case dget d ''covers'' of JList cs \<Rightarrow> map py_str cs | _ \<Rightarrow> []) | _ \<Rightarrow> []) reqs)"

definition uncovered_items :: "json list \<Rightarrow> json list \<Rightarrow> json list" where
  "uncovered_items reqs baseline =
     map (\<lambda>item. JObj [(''baseline_item'', item), (''reason'', JStr ''UNMAPPED'')])
       (filter (\<lambda>item. py_str item \<notin> set (covered_by reqs)) baseline)"

type_synonym outcomes = "(json \<times> json option) list"

definition same_outcome :: "json option \<Rightarrow> json option \<Rightarrow> bool" where
  "same_outcome a b = (case (a, b) of (None, None) \<Rightarrow> True | (Some u, Some v) \<Rightarrow> py_eq u v | _ \<Rightarrow> False)"

definition or_none :: "json option \<Rightarrow> json" where
  "or_none v = (case v of None \<Rightarrow> JNull | Some w \<Rightarrow> w)"

fun contradictions_in :: "outcomes \<Rightarrow> json list \<Rightarrow> json list py" where
  "contradictions_in seen [] = Inr []"
| "contradictions_in seen (req # reqs) = (case req of
     JObj d \<Rightarrow>
       (let req_id = dget d ''id''; outcome = map_of d ''outcome'' in
        if req_id = JNull then contradictions_in seen reqs
        else if \<not> hashable req_id then Inl TypeError
        else case find (\<lambda>p. py_eq req_id (fst p)) seen of
          None \<Rightarrow> contradictions_in (seen @ [(req_id, outcome)]) reqs
        | Some (k, first) \<Rightarrow>
            if same_outcome first outcome then contradictions_in seen reqs
            else py_bind (contradictions_in seen reqs) (\<lambda>rest. Inr
              (JObj [(''id'', req_id), (''kind'', JStr ''outcome_conflict''), (''reason'', JStr ''same id with conflicting outcome''),
                 (''outcomes'', JList [or_none first, or_none outcome])] # rest)))
   | _ \<Rightarrow> contradictions_in seen reqs)"

record spec_report =
  contradictions :: "json list"
  ambiguities :: "json list"
  uncovered :: "json list"
  violation_count :: nat

definition validate_spec :: "json \<Rightarrow> json \<Rightarrow> spec_report py" where
  "validate_spec requirements baseline_items =
     py_bind (py_iter (py_or requirements (JList []))) (\<lambda>reqs.
     py_bind (py_iter (py_or baseline_items (JList []))) (\<lambda>baseline.
       let amb = concat (map ambiguities_of (enumerate 0 reqs)); unc = uncovered_items reqs baseline in
       py_bind (contradictions_in [] reqs) (\<lambda>con. Inr
         \<lparr>contradictions = con, ambiguities = amb, uncovered = unc,
          violation_count = length con + length amb + length unc\<rparr>)))"

subsection \<open>The search for an adjective\<close>

text \<open>The word stands in the text with no letter, digit, underscore or hyphen next to it.\<close>

definition stands :: "string \<Rightarrow> bool \<Rightarrow> string \<Rightarrow> bool" where
  "stands w free s = (\<exists>pre post. s = pre @ w @ post \<and> (if pre = [] then free else \<not> joins_word (last pre)) \<and>
     (post = [] \<or> \<not> joins_word (hd post)))"

lemma has_word_stands:
  assumes "w \<noteq> []"
  shows "has_word w free s \<longleftrightarrow> stands w free s"
proof (induction s arbitrary: free)
  case Nil
  then show ?case using assms by (simp add: stands_def)
next
  case (Cons c cs)
  have here: "(\<exists>post. c # cs = w @ post \<and> (post = [] \<or> \<not> joins_word (hd post))) \<longleftrightarrow>
      startswith (c # cs) w \<and> (case drop (length w) (c # cs) of [] \<Rightarrow> True | x # _ \<Rightarrow> \<not> joins_word x)"
  proof
    assume "\<exists>post. c # cs = w @ post \<and> (post = [] \<or> \<not> joins_word (hd post))"
    then obtain post where "c # cs = w @ post" "post = [] \<or> \<not> joins_word (hd post)" by blast
    then show "startswith (c # cs) w \<and> (case drop (length w) (c # cs) of [] \<Rightarrow> True | x # _ \<Rightarrow> \<not> joins_word x)"
      by (cases post) (simp_all add: startswith_def)
  next
    assume r: "startswith (c # cs) w \<and> (case drop (length w) (c # cs) of [] \<Rightarrow> True | x # _ \<Rightarrow> \<not> joins_word x)"
    define rest where "rest = drop (length w) (c # cs)"
    from r have "take (length w) (c # cs) = w" by (simp add: startswith_def)
    then have eq: "c # cs = w @ rest" unfolding rest_def by (metis append_take_drop_id)
    from r have "rest = [] \<or> \<not> joins_word (hd rest)"
      unfolding rest_def [symmetric] by (cases rest) simp_all
    with eq show "\<exists>post. c # cs = w @ post \<and> (post = [] \<or> \<not> joins_word (hd post))" by blast
  qed
  have later: "stands w (\<not> joins_word c) cs \<longleftrightarrow> (\<exists>pre post. c # cs = (c # pre) @ w @ post \<and>
      \<not> joins_word (last (c # pre)) \<and> (post = [] \<or> \<not> joins_word (hd post)))"
    unfolding stands_def by (auto split: if_splits)
  have "stands w free (c # cs) \<longleftrightarrow> (free \<and> (\<exists>post. c # cs = w @ post \<and> (post = [] \<or> \<not> joins_word (hd post)))) \<or>
      stands w (\<not> joins_word c) cs"
  proof
    assume "stands w free (c # cs)"
    then obtain pre post where p: "c # cs = pre @ w @ post" "if pre = [] then free else \<not> joins_word (last pre)"
      "post = [] \<or> \<not> joins_word (hd post)"
      unfolding stands_def by blast
    show "(free \<and> (\<exists>post. c # cs = w @ post \<and> (post = [] \<or> \<not> joins_word (hd post)))) \<or>
      stands w (\<not> joins_word c) cs"
    proof (cases pre)
      case Nil
      with p show ?thesis by (intro disjI1) (simp add: exI [of _ post])
    next
      case (Cons x xs)
      with p(1) have "x = c" by simp
      with Cons p show ?thesis
        unfolding later by (intro disjI2 exI [of _ xs] exI [of _ post]) simp
    qed
  next
    assume "(free \<and> (\<exists>post. c # cs = w @ post \<and> (post = [] \<or> \<not> joins_word (hd post)))) \<or>
      stands w (\<not> joins_word c) cs"
    then show "stands w free (c # cs)"
    proof
      assume "free \<and> (\<exists>post. c # cs = w @ post \<and> (post = [] \<or> \<not> joins_word (hd post)))"
      then obtain post where "free" "c # cs = w @ post" "post = [] \<or> \<not> joins_word (hd post)" by blast
      then show ?thesis unfolding stands_def by (intro exI [of _ "[]"] exI [of _ post]) simp
    next
      assume "stands w (\<not> joins_word c) cs"
      then obtain pre post where "c # cs = (c # pre) @ w @ post" "\<not> joins_word (last (c # pre))"
        "post = [] \<or> \<not> joins_word (hd post)" unfolding later by blast
      then show ?thesis unfolding stands_def by (intro exI [of _ "c # pre"] exI [of _ post]) simp
    qed
  qed
  then show ?case by (simp add: here Cons)
qed

lemma find_vague_stands:
  "set (find_vague_adjectives s) = {adj \<in> set VAGUE_ADJECTIVES. stands adj True (lower_latin s)}"
proof -
  have "adj \<noteq> []" if "adj \<in> set VAGUE_ADJECTIVES" for adj
    using that by (auto simp: VAGUE_ADJECTIVES_def)
  then show ?thesis by (auto simp: find_vague_adjectives_def has_word_stands)
qed

subsection \<open>A clean report, exactly\<close>

text \<open>What a requirement without an ambiguity is.\<close>

definition unambiguous :: "json \<Rightarrow> bool" where
  "unambiguous req = (case req of
     JObj d \<Rightarrow> (\<exists>p. ears_patterns_of d = [p] \<and> p \<in> set VALID_EARS_PATTERNS) \<and>
       (\<forall>adj. adj \<in> set VAGUE_ADJECTIVES \<longrightarrow> \<not> stands adj True (lower_latin (requirement_text d)))
   | _ \<Rightarrow> False)"

lemma ears_reason_None: "ears_reason ps = None \<longleftrightarrow> (\<exists>p. ps = [p] \<and> p \<in> set VALID_EARS_PATTERNS)"
  by (cases ps; cases "tl ps") (auto simp: ears_reason_def)

lemma ambiguities_of_Nil: "ambiguities_of (n, req) = [] \<longleftrightarrow> unambiguous req"
proof (cases req)
  case (JObj d)
  have "find_vague_adjectives (requirement_text d) = [] \<longleftrightarrow>
      (\<forall>adj. adj \<in> set VAGUE_ADJECTIVES \<longrightarrow> \<not> stands adj True (lower_latin (requirement_text d)))"
    using find_vague_stands [of "requirement_text d"] by (auto simp: set_empty [symmetric] simp del: set_empty)
  then show ?thesis
    using JObj by (auto simp: ambiguities_of_def unambiguous_def ears_reason_None [symmetric] split: option.splits list.splits)
qed (simp_all add: ambiguities_of_def unambiguous_def)

text \<open>For text identifiers: the requirements that carry one, with their outcomes.\<close>

definition claims_of :: "json list \<Rightarrow> (json \<times> json option) list" where
  "claims_of reqs = concat (map (\<lambda>req. case req of
     JObj d \<Rightarrow> (if dget d ''id'' = JNull then [] else [(dget d ''id'', map_of d ''outcome'')]) | _ \<Rightarrow> []) reqs)"

definition text_ids :: "json list \<Rightarrow> bool" where
  "text_ids reqs = list_all (\<lambda>c. is_str (fst c)) (claims_of reqs)"

text \<open>Every later outcome of an identifier equals its first one.\<close>

definition consistent :: "outcomes \<Rightarrow> (json \<times> json option) list \<Rightarrow> bool" where
  "consistent seen cs = (\<forall>pre k v post. cs = pre @ (k, v) # post \<longrightarrow>
     (case map_of (seen @ pre) k of None \<Rightarrow> True | Some first \<Rightarrow> same_outcome first v))"

lemma consistent_Nil: "consistent seen []"
  by (simp add: consistent_def)

lemma consistent_Cons:
  "consistent seen ((k, v) # cs) \<longleftrightarrow>
     (case map_of seen k of None \<Rightarrow> True | Some first \<Rightarrow> same_outcome first v) \<and> consistent (seen @ [(k, v)]) cs"
proof
  assume a: "consistent seen ((k, v) # cs)"
  show "(case map_of seen k of None \<Rightarrow> True | Some first \<Rightarrow> same_outcome first v) \<and> consistent (seen @ [(k, v)]) cs"
  proof
    show "case map_of seen k of None \<Rightarrow> True | Some first \<Rightarrow> same_outcome first v"
      using a unfolding consistent_def by (auto dest!: spec [of _ "[]"])
    show "consistent (seen @ [(k, v)]) cs"
      unfolding consistent_def
    proof (intro allI impI)
      fix pre k' v' post assume "cs = pre @ (k', v') # post"
      then have "(k, v) # cs = ((k, v) # pre) @ (k', v') # post" by simp
      with a have "case map_of (seen @ (k, v) # pre) k' of None \<Rightarrow> True | Some first \<Rightarrow> same_outcome first v'"
        unfolding consistent_def by blast
      then show "case map_of ((seen @ [(k, v)]) @ pre) k' of None \<Rightarrow> True | Some first \<Rightarrow> same_outcome first v'" by simp
    qed
  qed
next
  assume a: "(case map_of seen k of None \<Rightarrow> True | Some first \<Rightarrow> same_outcome first v) \<and> consistent (seen @ [(k, v)]) cs"
  show "consistent seen ((k, v) # cs)"
    unfolding consistent_def
  proof (intro allI impI)
    fix pre k' v' post assume eq: "(k, v) # cs = pre @ (k', v') # post"
    show "case map_of (seen @ pre) k' of None \<Rightarrow> True | Some first \<Rightarrow> same_outcome first v'"
    proof (cases pre)
      case Nil
      with eq have "k' = k" "v' = v" by simp_all
      with a show ?thesis unfolding Nil by (simp cong: option.case_cong)
    next
      case (Cons x pre')
      with eq have x: "x = (k, v)" and "cs = pre' @ (k', v') # post" by auto
      with a have "case map_of ((seen @ [(k, v)]) @ pre') k' of None \<Rightarrow> True | Some first \<Rightarrow> same_outcome first v'"
        unfolding consistent_def by blast
      then show ?thesis by (simp add: Cons x)
    qed
  qed
qed

lemma consistent_known:
  assumes "map_of seen k = Some first"
  shows "consistent (seen @ [(k, v)]) cs \<longleftrightarrow> consistent seen cs"
proof -
  have "map_of ((seen @ [(k, v)]) @ pre) k' = map_of (seen @ pre) k'" for pre k'
    using assms by (cases "map_of seen k'") (auto simp: map_of_append map_add_def)
  then show ?thesis unfolding consistent_def by simp
qed

lemma find_text_key: "is_str k \<Longrightarrow> map_of seen k = map_option snd (find (\<lambda>p. py_eq k (fst p)) seen)"
  by (cases k; simp) (induction seen, auto)

lemma contradictions_in_text:
  assumes "text_ids reqs"
  shows "\<exists>con. contradictions_in seen reqs = Inr con \<and> (con = [] \<longleftrightarrow> consistent seen (claims_of reqs))"
  using assms
proof (induction reqs arbitrary: seen)
  case Nil
  then show ?case by (simp add: claims_of_def consistent_Nil)
next
  case (Cons req reqs)
  have tail: "text_ids reqs" using Cons.prems by (simp add: text_ids_def claims_of_def)
  show ?case
  proof (cases "\<exists>d. req = JObj d \<and> dget d ''id'' \<noteq> JNull")
    case False
    then have "claims_of (req # reqs) = claims_of reqs" "contradictions_in seen (req # reqs) = contradictions_in seen reqs"
      by (cases req; simp add: claims_of_def Let_def)+
    with Cons.IH [OF tail] show ?thesis by simp
  next
    case True
    then obtain d where d: "req = JObj d" "dget d ''id'' \<noteq> JNull" by blast
    let ?k = "dget d ''id''" and ?v = "map_of d ''outcome''"
    have claims: "claims_of (req # reqs) = (?k, ?v) # claims_of reqs" using d by (simp add: claims_of_def)
    have k: "is_str ?k" using Cons.prems unfolding text_ids_def claims by simp
    then have h: "hashable ?k" by (cases ?k) simp_all
    show ?thesis
    proof (cases "find (\<lambda>p. py_eq ?k (fst p)) seen")
      case None
      then have "contradictions_in seen (req # reqs) = contradictions_in (seen @ [(?k, ?v)]) reqs"
        using d h by (simp add: Let_def)
      moreover have "map_of seen ?k = None" by (simp only: find_text_key [OF k] None option.map)
      ultimately show ?thesis
        using Cons.IH [OF tail, of "seen @ [(?k, ?v)]"] by (simp only: claims consistent_Cons option.case simp_thms)
    next
      case (Some p)
      obtain k' first where p: "p = (k', first)" by (cases p)
      have m: "map_of seen ?k = Some first" by (simp only: find_text_key [OF k] Some p option.map snd_conv)
      from Cons.IH [OF tail] obtain con where con: "contradictions_in seen reqs = Inr con"
        "con = [] \<longleftrightarrow> consistent seen (claims_of reqs)" by blast
      show ?thesis
        using d h Some p con m unfolding claims consistent_Cons consistent_known [OF m] by (simp add: Let_def)
    qed
  qed
qed

text \<open>
  For requirements whose identifiers are texts, the validator returns a report, and counts no
  violation exactly when every requirement is an object with exactly one valid pattern and no
  vague adjective standing as a word of its text, every baseline item is covered by name, and
  every later outcome of an identifier equals its first.
\<close>

theorem validate_spec_clean_iff:
  assumes "text_ids reqs"
  shows "\<exists>r. validate_spec (JList reqs) (JList baseline) = Inr r \<and>
    violation_count r = length (contradictions r) + length (ambiguities r) + length (uncovered r) \<and>
    (violation_count r = 0 \<longleftrightarrow> list_all unambiguous reqs \<and> list_all (\<lambda>i. py_str i \<in> set (covered_by reqs)) baseline \<and>
       consistent [] (claims_of reqs))"
proof -
  have iter: "py_iter (py_or (JList xs) (JList [])) = Inr xs" for xs by (cases xs) (simp_all add: py_or_def)
  from contradictions_in_text [OF assms, of "[]"] obtain con where
    con: "contradictions_in [] reqs = Inr con" "con = [] \<longleftrightarrow> consistent [] (claims_of reqs)" by blast
  have "concat (map ambiguities_of (enumerate n reqs)) = [] \<longleftrightarrow> list_all unambiguous reqs" for n
    by (induction reqs arbitrary: n) (simp_all add: ambiguities_of_Nil)
  moreover have "uncovered_items reqs baseline = [] \<longleftrightarrow> list_all (\<lambda>i. py_str i \<in> set (covered_by reqs)) baseline"
    by (auto simp: uncovered_items_def filter_empty_conv list_all_iff)
  ultimately show ?thesis
    using con by (auto simp: validate_spec_def iter Let_def simp del: concat_eq_Nil_conv)
qed

theorem validate_spec_clean_iff_witness:
  "\<exists>r. validate_spec (JList [JObj [(''id'', JStr ''R1''), (''ears_pattern'', JStr ''unwanted''), (''text'', JStr ''Be Fast.'')]])
     (JList []) = Inr r \<and> (violation_count r = 0) = False"
proof -
  let ?d = "[(''id'', JStr ''R1''), (''ears_pattern'', JStr ''unwanted''), (''text'', JStr ''Be Fast.'')]"
  have t: "text_ids [JObj ?d]" by (simp add: text_ids_def claims_of_def)
  have "find_vague_adjectives (requirement_text ?d) = [''fast'']" by code_simp
  then have "\<not> unambiguous (JObj ?d)" using find_vague_stands [of "requirement_text ?d"] by (auto simp: unambiguous_def)
  with validate_spec_clean_iff [OF t, of "[]"] show ?thesis by auto
qed

end
