(* ===== verification/Structured_Output.thy ===== *)
theory Structured_Output
  imports Json_Codec
begin

section \<open>The tool-call codec\<close>

text \<open>
  \<open>tools/structured_output.py\<close>: a call's parameters as one JSON record a line, scalars first, and
  back. The schema validator is a library: a parameter that lists the problems of an object under a
  schema, in order.
\<close>

definition wire_record :: "string \<Rightarrow> string \<times> json \<Rightarrow> json" where
  "wire_record kind p = JObj [(''name'', JStr (fst p)), (''kind'', JStr kind), (''value'', snd p)]"

definition ordered_records :: "dict \<Rightarrow> json list" where
  "ordered_records params =
     map (wire_record ''scalar'') (filter (\<lambda>p. \<not> is_list (snd p)) params) @
     map (wire_record ''array'') (filter (\<lambda>p. is_list (snd p)) params)"

definition encode_tool_input :: "dict \<Rightarrow> string" where
  "encode_tool_input params = join [CHR 0x0A] (map (dumps_spaced False) (ordered_records params))"

definition record_item :: "json \<Rightarrow> (json \<times> json) py" where
  "record_item r = (case r of
     JObj d \<Rightarrow> (case (map_of d ''value'', map_of d ''name'') of
         (Some v, Some n) \<Rightarrow> if hashable n then Inr (n, v) else Inl TypeError
       | _ \<Rightarrow> Inl KeyError)
   | _ \<Rightarrow> Inl TypeError)"

text \<open>A line that is no JSON text raises a decoding error, which is a value error.\<close>

fun decode_lines :: "keyed \<Rightarrow> string list \<Rightarrow> keyed py" where
  "decode_lines out [] = Inr out"
| "decode_lines out (l # ls) =
     (if strip l = [] then decode_lines out ls
      else case loads (strip l) of
        None \<Rightarrow> Inl ValueError
      | Some r \<Rightarrow> py_bind (record_item r) (\<lambda>(n, v). decode_lines (pset out n v) ls))"

definition decode_tool_input :: "string \<Rightarrow> keyed py" where
  "decode_tool_input wire = decode_lines [] (split_on line_break wire)"

datatype output_error = StructuredOutputError "string list" keyed | OutputExc py_exc

definition parse_structured_output :: "(keyed \<Rightarrow> string list) \<Rightarrow> string \<Rightarrow> output_error + keyed" where
  "parse_structured_output problems wire = (case decode_tool_input wire of
     Inl e \<Rightarrow> Inl (OutputExc e)
   | Inr obj \<Rightarrow> if problems obj = [] then Inr obj else Inl (StructuredOutputError (problems obj) obj))"

subsection \<open>A record is one line\<close>

text \<open>No text of the value holds the one line break that JSON leaves as it is.\<close>

definition nel_free :: "string \<Rightarrow> bool" where
  "nel_free s = list_all (\<lambda>c. code c \<noteq> 133) s"

fun texts_nel_free :: "json \<Rightarrow> bool" where
  "texts_nel_free (JFloat r) = list_all (\<lambda>c. \<not> line_break c) r"
| "texts_nel_free (JStr s) = nel_free s"
| "texts_nel_free (JList xs) = list_all texts_nel_free xs"
| "texts_nel_free (JObj d) = list_all (\<lambda>kv. nel_free (fst kv) \<and> texts_nel_free (snd kv)) d"
| "texts_nel_free v = True"

abbreviation one_line :: "string \<Rightarrow> bool" where
  "one_line s \<equiv> list_all (\<lambda>c. \<not> line_break c) s"

lemma printable_one_line: "list_all printable s \<Longrightarrow> one_line s"
  by (auto simp: list_all_iff printable_def line_break_def Let_def)

lemma one_line_esc: "code c \<noteq> 133 \<Longrightarrow> one_line (esc_char False c)"
proof (cases "line_break c")
  case True
  moreover assume "code c \<noteq> 133"
  ultimately have "esc_char False c = esc_char True c" by (auto simp: line_break_def esc_char_def Let_def)
  then show ?thesis using printable_one_line [OF printable_esc] by simp
next
  case False
  have "one_line (esc_char True c)" by (rule printable_one_line) (rule printable_esc)
  with False show ?thesis by (auto simp: esc_char_def Let_def split: if_splits)
qed

lemma one_line_str: "nel_free s \<Longrightarrow> one_line (dumps_str False s)"
  using one_line_esc by (auto simp: dumps_str_def nel_free_def list_all_iff line_break_def code_def)

lemma one_line_join: "one_line sep \<Longrightarrow> list_all one_line ss \<Longrightarrow> one_line (join sep ss)"
  by (cases ss) (auto simp: join_def list_all_iff)

lemma one_line_literals: "one_line ''null''" "one_line ''true''" "one_line ''false''" "one_line '', ''" "one_line '': ''"
  "one_line ''[''" "one_line '']''" "one_line ''{''" "one_line ''}''"
  by (simp_all add: line_break_def code_def)

lemma one_line_dumps: "texts_nel_free v \<Longrightarrow> one_line (dumps_spaced False v)"
proof (induction v rule: json_induct)
  case (JList xs)
  then have "list_all one_line (map (dumps_spaced False) xs)" by (simp add: list_all_iff)
  from one_line_join [OF one_line_literals(4) this] show ?case using one_line_literals by simp
next
  case (JObj d)
  have "list_all one_line (map (\<lambda>(k, v). dumps_str False k @ '': '' @ dumps_spaced False v) d)"
    using JObj one_line_str one_line_literals(5) by (fastforce simp: list_all_iff)
  from one_line_join [OF one_line_literals(4) this] show ?case using one_line_literals by simp
next
  case (JInt i)
  then show ?case using printable_one_line [OF printable_int] by simp
qed (use one_line_literals one_line_str in auto)

lemma trimmed_record: "trimmed (dumps_spaced False (JObj d))"
  by (simp add: trimmed_def is_space_def code_def)

subsection \<open>The round trip\<close>

definition good_params :: "dict \<Rightarrow> bool" where
  "good_params params = (distinct (map fst params) \<and>
     list_all (\<lambda>p. wf_json (snd p) \<and> nel_free (fst p) \<and> texts_nel_free (snd p)) params)"

lemma record_roundtrip:
  assumes "wf_json (snd p)"
  shows "loads (dumps_spaced False (wire_record kind p)) = Some (wire_record kind p)"
    "record_item (wire_record kind p) = Inr (JStr (fst p), snd p)"
  using assms by (simp_all add: wire_record_def loads_dumps_spaced record_item_def del: dumps_spaced.simps)

lemma decode_records:
  assumes "list_all (\<lambda>x. wf_json (snd (snd x))) xs"
  shows "decode_lines out (map (\<lambda>(kind, p). dumps_spaced False (wire_record kind p)) xs) =
    Inr (foldl (\<lambda>d (kind, p). pset d (JStr (fst p)) (snd p)) out xs)"
  using assms
proof (induction xs arbitrary: out)
  case (Cons x xs)
  obtain kind p where x: "x = (kind, p)" by (cases x)
  have t: "strip (dumps_spaced False (wire_record kind p)) = dumps_spaced False (wire_record kind p)"
    "dumps_spaced False (wire_record kind p) \<noteq> []"
    using trimmed_record unfolding wire_record_def by (simp_all only: strip_trimmed) (simp add: trimmed_def)
  show ?case
    using Cons x t record_roundtrip [of p kind] by simp
qed simp

lemma pset_fresh:
  assumes "distinct (map fst xs)" "fst ` set acc \<inter> (JStr ` fst ` set xs) = {}"
  shows "foldl (\<lambda>d p. pset d (JStr (fst p)) (snd p)) acc xs = acc @ map (\<lambda>p. (JStr (fst p), snd p)) xs"
  using assms
proof (induction xs arbitrary: acc)
  case (Cons x xs)
  from Cons.prems(2) have new: "JStr (fst x) \<notin> set (map fst acc)" by auto
  then have "pset acc (JStr (fst x)) (snd x) = acc @ [(JStr (fst x), snd x)]" by (simp add: pset_def list_ex_key)
  moreover have "fst ` set (acc @ [(JStr (fst x), snd x)]) \<inter> JStr ` fst ` set xs = {}"
    using Cons.prems by auto
  ultimately show ?case using Cons by simp
qed simp

text \<open>
  Decoding what was encoded gives back every parameter with its value, arrays included, however
  many there are and wherever they stand: the scalars in their order, then the arrays in theirs.
\<close>

theorem tool_input_roundtrip:
  assumes "good_params params"
  shows "decode_tool_input (encode_tool_input params) =
    Inr (map (\<lambda>p. (JStr (fst p), snd p))
      (filter (\<lambda>p. \<not> is_list (snd p)) params @ filter (\<lambda>p. is_list (snd p)) params))"
proof -
  let ?s = "filter (\<lambda>p. \<not> is_list (snd p)) params" and ?a = "filter (\<lambda>p. is_list (snd p)) params"
  let ?xs = "map (\<lambda>p. (''scalar'', p)) ?s @ map (\<lambda>p. (''array'', p)) ?a"
  let ?ls = "map (\<lambda>(kind, p). dumps_spaced False (wire_record kind p)) ?xs"
  have enc: "encode_tool_input params = join [CHR 0x0A] ?ls"
    by (simp add: encode_tool_input_def ordered_records_def comp_def)
  have line: "one_line (dumps_spaced False (wire_record kind p))"
    if "p \<in> set params" "kind \<in> {''scalar'', ''array''}" for kind p
  proof (rule one_line_dumps)
    have "nel_free kind" "nel_free ''name''" "nel_free ''kind''" "nel_free ''value''"
      using that(2) by (auto simp: nel_free_def code_def)
    with assms that(1) show "texts_nel_free (wire_record kind p)"
      by (auto simp: good_params_def wire_record_def list_all_iff)
  qed
  have one: "list_all one_line ?ls"
  proof -
    have "list_all (\<lambda>(kind, p). one_line (dumps_spaced False (wire_record kind p))) ?xs"
      using line by (auto simp: list_all_iff)
    then show ?thesis by (simp add: list.pred_map comp_def case_prod_beta)
  qed
  have wf: "list_all (\<lambda>x. wf_json (snd (snd x))) ?xs" using assms by (auto simp: good_params_def list_all_iff)
  have "decode_tool_input (encode_tool_input params) = decode_lines [] ?ls"
  proof (cases "?ls = []")
    case True
    then show ?thesis unfolding enc True by (simp add: decode_tool_input_def split_on_simps strip_def)
  next
    case False
    have "line_break CHR 0x0A" by (simp add: line_break_def code_def)
    from split_on_join [OF one False this] show ?thesis unfolding enc decode_tool_input_def by simp
  qed
  also have "\<dots> = Inr (foldl (\<lambda>d (kind, p). pset d (JStr (fst p)) (snd p)) [] ?xs)"
    by (rule decode_records [OF wf])
  also have "foldl (\<lambda>d (kind, p). pset d (JStr (fst p)) (snd p)) [] ?xs = foldl (\<lambda>d p. pset d (JStr (fst p)) (snd p)) [] (?s @ ?a)"
    by (simp add: foldl_map)
  also have "\<dots> = map (\<lambda>p. (JStr (fst p), snd p)) (?s @ ?a)"
  proof -
    have "distinct (map fst (?s @ ?a))"
    proof -
      have "fst p \<noteq> fst q" if "p \<in> set ?s" "q \<in> set ?a" for p q
      proof
        assume "fst p = fst q"
        moreover have "p \<in> set params" "q \<in> set params" using that by auto
        moreover have "inj_on fst (set params)" using assms by (simp add: good_params_def distinct_map)
        ultimately have "p = q" by (simp add: inj_on_eq_iff)
        with that show False by simp
      qed
      moreover have "distinct (map fst ?s)" "distinct (map fst ?a)"
        using assms by (simp_all add: good_params_def distinct_map_filter)
      ultimately show ?thesis by fastforce
    qed
    from pset_fresh [OF this, of "[]"] show ?thesis by simp
  qed
  finally show ?thesis .
qed

theorem tool_input_roundtrip_witness:
  "decode_tool_input (encode_tool_input [(''key_findings'', JList [JStr ''f'']), (''n'', JInt 2), (''recommendations'', JList [])]) =
    Inr [(JStr ''n'', JInt 2), (JStr ''key_findings'', JList [JStr ''f'']), (JStr ''recommendations'', JList [])]"
proof -
  have "good_params [(''key_findings'', JList [JStr ''f'']), (''n'', JInt 2), (''recommendations'', JList [])]"
    by (simp add: good_params_def nel_free_def code_def)
  from tool_input_roundtrip [OF this] show ?thesis by simp
qed

text \<open>
  A parameter whose text holds the next-line character, code point 133, is encoded but not decoded:
  the encoder leaves the character as it is, the decoder splits the record there and raises.
\<close>

theorem next_line_breaks_decoding:
  "decode_tool_input (encode_tool_input [(''note'', JStr [CHR 0x85])]) = Inl ValueError"
  by code_simp

end
