(* ===== verification/Wiring_Checker.thy ===== *)
theory Wiring_Checker
  imports Paths Req_Scan Ingest_Properties
begin

section \<open>The wiring checker\<close>

text \<open>
  \<open>tools/wiring_checker.py\<close> on the syntax trees that \<open>ast.parse\<close> returns: the definitions and the
  names of each file, merged into one pool, and the rows and coverage items made from them. A tree
  has the nodes the visitor tells apart; every other node is \<open>Other\<close> with its children in order.
  Reading and parsing a file is an argument.
\<close>

subsection \<open>Syntax trees\<close>

datatype node =
    Name string bool
  | Attribute node string
  | Call node "node list"
  | FunctionDef string int "node list" "node list" "node list"
  | ClassDef string int "node list" "node list" "node list"
  | Import
  | Other "node list"

text \<open>The flag of a name says that it is loaded. A function has its arguments and body, its decorators
  and what follows them; a class its bases, its keywords and body, and its decorators.\<close>

definition HANDLER_DECORATOR_HINTS :: "string list" where
  "HANDLER_DECORATOR_HINTS = [''route'', ''get'', ''post'', ''put'', ''patch'', ''delete'', ''head'', ''options'',
     ''websocket'', ''command'', ''callback'', ''handler'', ''on_event'', ''task'', ''listen'', ''subscribe'', ''hook'', ''fixture'']"

subsection \<open>Test files\<close>

definition is_test_path :: "string \<Rightarrow> bool" where
  "is_test_path path = (let parts = path_names (map (\<lambda>c. if c = CHR 0x5C then CHR ''/'' else c) path); base = last parts in
     list_ex (\<lambda>seg. seg = ''tests'' \<or> seg = ''test'') (butlast (filter (\<lambda>p. p \<noteq> []) parts)) \<or>
     base = ''conftest.py'' \<or> (startswith base ''test_'' \<and> endswith base ''.py'') \<or> endswith base ''_test.py'')"

subsection \<open>One file\<close>

record symdef =
  d_name :: string
  d_qualname :: string
  d_kind :: string
  d_path :: string
  d_line :: int
  d_decorated :: bool

record filemodel =
  f_path :: string
  f_test :: bool
  f_defs :: "(string \<times> symdef) list"
  f_refs :: "string list"
  f_entries :: "string list"
  f_error :: "string option"

fun dotted_tail :: "node \<Rightarrow> string" where
  "dotted_tail (Call f args) = (case f of Attribute v a \<Rightarrow> a | Name n l \<Rightarrow> n | _ \<Rightarrow> [])"
| "dotted_tail (Attribute v a) = a"
| "dotted_tail (Name n l) = n"
| "dotted_tail _ = []"

definition is_handler_decorator :: "string \<Rightarrow> bool" where
  "is_handler_decorator dec_name = list_ex (\<lambda>hint. contains hint (lower_latin dec_name)) HANDLER_DECORATOR_HINTS"

definition add_refs :: "string list \<Rightarrow> filemodel \<Rightarrow> filemodel" where
  "add_refs ns m = m\<lparr>f_refs := f_refs m @ ns\<rparr>"

definition record_def :: "string list \<Rightarrow> bool \<Rightarrow> string \<Rightarrow> string \<Rightarrow> int \<Rightarrow> node list \<Rightarrow> filemodel \<Rightarrow> filemodel" where
  "record_def scope in_class kind name line decorators m =
     (let qual = join ''.'' (scope @ [name]); decs = map dotted_tail decorators;
          handler = list_ex is_handler_decorator decs;
          d = \<lparr>d_name = name, d_qualname = qual, d_kind = (if kind = ''function'' \<and> in_class then ''method'' else kind),
               d_path = f_path m, d_line = line, d_decorated = handler\<rparr>
      in m\<lparr>f_defs := AList.update qual d (f_defs m),
           f_entries := (if handler \<and> \<not> f_test m then f_entries m @ [qual] else f_entries m),
           f_refs := f_refs m @ filter (\<lambda>n. n \<noteq> []) decs\<rparr>)"

definition root_names :: "node \<Rightarrow> string list" where
  "root_names v = (case v of Name n l \<Rightarrow> [n] | _ \<Rightarrow> [])"

definition target_names :: "node \<Rightarrow> string list" where
  "target_names f = (case f of Name n l \<Rightarrow> [n] | Attribute v a \<Rightarrow> [a] | _ \<Rightarrow> [])"

fun visit :: "string list \<Rightarrow> bool \<Rightarrow> node \<Rightarrow> filemodel \<Rightarrow> filemodel"
  and visit_all :: "string list \<Rightarrow> bool \<Rightarrow> node list \<Rightarrow> filemodel \<Rightarrow> filemodel" where
  "visit scope in_class (Name n loaded) m = (if loaded then add_refs [n] m else m)"
| "visit scope in_class (Attribute v a) m = visit scope in_class v (add_refs (a # root_names v) m)"
| "visit scope in_class (Call f args) m = visit_all scope in_class args (visit scope in_class f (add_refs (target_names f) m))"
| "visit scope in_class (FunctionDef name line inner decorators others) m =
     visit_all (scope @ [name]) in_class others (visit_all (scope @ [name]) in_class decorators
       (visit_all (scope @ [name]) in_class inner (record_def scope in_class ''function'' name line decorators m)))"
| "visit scope in_class (ClassDef name line bases inner decorators) m =
     visit_all (scope @ [name]) True decorators (visit_all (scope @ [name]) True inner
       (visit_all (scope @ [name]) True bases
         (add_refs (map dotted_tail bases) (record_def scope in_class ''class'' name line decorators m))))"
| "visit scope in_class Import m = m"
| "visit scope in_class (Other ns) m = visit_all scope in_class ns m"
| "visit_all scope in_class [] m = m"
| "visit_all scope in_class (n # ns) m = visit_all scope in_class ns (visit scope in_class n m)"

text \<open>The names that \<open>ast.walk\<close> meets below a statement, loaded, as an attribute or as a target.\<close>

fun walked :: "node \<Rightarrow> string list" and walked_all :: "node list \<Rightarrow> string list" where
  "walked (Name n loaded) = (if loaded then [n] else [])"
| "walked (Attribute v a) = a # walked v"
| "walked (Call f args) = target_names f @ walked f @ walked_all args"
| "walked (FunctionDef name line inner decorators others) = walked_all inner @ walked_all decorators @ walked_all others"
| "walked (ClassDef name line bases inner decorators) = walked_all bases @ walked_all inner @ walked_all decorators"
| "walked Import = []"
| "walked (Other ns) = walked_all ns"
| "walked_all [] = []"
| "walked_all (n # ns) = walked n @ walked_all ns"

definition is_statement :: "node \<Rightarrow> bool" where
  "is_statement n = (case n of FunctionDef _ _ _ _ _ \<Rightarrow> False | ClassDef _ _ _ _ _ \<Rightarrow> False | Import \<Rightarrow> False | _ \<Rightarrow> True)"

definition seed_module_level_entrypoints :: "node list \<Rightarrow> filemodel \<Rightarrow> filemodel" where
  "seed_module_level_entrypoints body m =
     (if f_test m then m
      else (let refs = walked_all (filter is_statement body) in
        m\<lparr>f_entries := f_entries m @
            map d_qualname (filter (\<lambda>d. d_name d \<in> set refs) (map snd (f_defs m)))\<rparr>))"

datatype parsed_file = Tree "node list" | SyntaxFault string | ReadFault string | BadEncoding

definition parse_file :: "(string \<Rightarrow> parsed_file) \<Rightarrow> string \<Rightarrow> filemodel py" where
  "parse_file parse path =
     (let m = \<lparr>f_path = path, f_test = is_test_path path, f_defs = [], f_refs = [], f_entries = [], f_error = None\<rparr>
      in case parse path of
        ReadFault e \<Rightarrow> Inr (m\<lparr>f_error := Some (''read-error: '' @ e)\<rparr>)
      | SyntaxFault e \<Rightarrow> Inr (m\<lparr>f_error := Some (''syntax-error: '' @ e)\<rparr>)
      | BadEncoding \<Rightarrow> Inl ValueError
      | Tree body \<Rightarrow> Inr (seed_module_level_entrypoints body (visit_all [] False body m)))"

subsection \<open>The merged analysis\<close>

definition defs_of :: "filemodel \<Rightarrow> symdef list" where
  "defs_of m = map snd (f_defs m)"

definition repo_referenced :: "filemodel list \<Rightarrow> string list" where
  "repo_referenced ms = concat (map f_refs ms)"

definition repo_entry_names :: "filemodel list \<Rightarrow> string list" where
  "repo_entry_names ms = concat (map (\<lambda>m. map d_name (filter (\<lambda>d. d_qualname d \<in> set (concat (map f_entries ms))) (defs_of m))) ms)"

definition is_entry :: "filemodel \<Rightarrow> symdef \<Rightarrow> bool" where
  "is_entry m d = (d_qualname d \<in> set (f_entries m))"

definition reached :: "filemodel list \<Rightarrow> filemodel \<Rightarrow> symdef \<Rightarrow> bool" where
  "reached ms m d = (is_entry m d \<or> d_decorated d \<or> d_name d \<in> set (repo_referenced ms) \<or> d_name d \<in> set (repo_entry_names ms))"

definition dead_reason :: "symdef \<Rightarrow> string" where
  "dead_reason d = d_kind d @ '' '' @ quoted (d_qualname d) @
     '' is defined but never referenced from any real execution path in the analyzed set''"

definition wiring_row :: "filemodel list \<Rightarrow> filemodel \<Rightarrow> symdef \<Rightarrow> json" where
  "wiring_row ms m d = JObj [(''symbol'', JStr (d_name d)), (''qualname'', JStr (d_qualname d)), (''kind'', JStr (d_kind d)),
     (''file'', JStr (d_path d)), (''line'', JInt (d_line d)), (''reachable'', JBool (reached ms m d)),
     (''entry_point'', JBool (reached ms m d \<and> (is_entry m d \<or> d_decorated d))),
     (''reason'', JStr (if reached ms m d then ''reachable from a real execution path'' else dead_reason d))]"

definition dead_row :: "symdef \<Rightarrow> json" where
  "dead_row d = JObj [(''symbol'', JStr (d_name d)), (''qualname'', JStr (d_qualname d)), (''kind'', JStr (d_kind d)),
     (''file'', JStr (d_path d)), (''line'', JInt (d_line d)), (''reason'', JStr (dead_reason d))]"

definition error_row :: "filemodel \<Rightarrow> string \<Rightarrow> json" where
  "error_row m e = JObj [(''symbol'', JNull), (''qualname'', JNull), (''kind'', JStr ''parse-error''), (''file'', JStr (f_path m)),
     (''line'', JInt 0), (''reachable'', JNull), (''entry_point'', JBool False), (''reason'', JStr e)]"

definition file_rows :: "filemodel list \<Rightarrow> filemodel \<Rightarrow> json list" where
  "file_rows ms m = (case f_error m of Some e \<Rightarrow> [error_row m e]
     | None \<Rightarrow> if f_test m then [] else map (wiring_row ms m) (defs_of m))"

definition dead_rows :: "filemodel list \<Rightarrow> filemodel \<Rightarrow> json list" where
  "dead_rows ms m = (if f_error m \<noteq> None \<or> f_test m then []
     else map dead_row (filter (\<lambda>d. \<not> reached ms m d) (defs_of m)))"

definition analyze :: "(string \<Rightarrow> parsed_file) \<Rightarrow> string list \<Rightarrow> json py" where
  "analyze parse source_paths = py_bind (py_map (parse_file parse) (first_seen source_paths)) (\<lambda>ms.
     Inr (JObj [(''wiring_items'', JList (concat (map (file_rows ms) ms))),
                (''dead_code'', JList (concat (map (dead_rows ms) ms)))]))"

subsection \<open>Coverage items\<close>

definition WIRING_REQ_PREFIX :: string where
  "WIRING_REQ_PREFIX = ''REQ-WIRE''"

text \<open>A number with at least three digits.\<close>

definition ordinal_digits :: "nat \<Rightarrow> string" where
  "ordinal_digits n = replicate (3 - length (dec_digits n)) CHR ''0'' @ dec_digits n"

definition is_obligation :: "json \<Rightarrow> bool py" where
  "is_obligation w = py_bind (obj_get w ''symbol'') (\<lambda>s.
     if \<not> truthy s then Inr False else py_bind (obj_get w ''kind'') (\<lambda>k. Inr (k \<noteq> JStr ''parse-error'')))"

definition emit_item :: "nat \<Rightarrow> dict \<Rightarrow> json" where
  "emit_item ordinal w = (let symbol = dget w ''symbol''; qualname = py_or (dget w ''qualname'') symbol;
       file_path = py_or (dget w ''file'') (JStr ''<unknown>'') in
     JObj [(''id'', JStr (WIRING_REQ_PREFIX @ ''-'' @ ordinal_digits ordinal)), (''type'', JStr ''WIRING''), (''priority'', JInt 1),
       (''dependencies'', JList []),
       (''acceptance_criteria'', JList [JStr (''Symbol '' @ quoted (py_str qualname) @ '' in '' @ py_str file_path @
          '' is reachable from a real execution path and exercised by an integration test (evidence_kind == '' @
          quoted ''integration'' @ '').'')]),
       (''status'', JStr ''unproven''), (''in_scope'', JBool True),
       (''title'', JStr (''Wire '' @ quoted (py_str qualname) @ '' into a real execution path'')),
       (''ears_statement'', JStr (''WHILE the system is running, THE platform SHALL reach '' @ quoted (py_str qualname) @
          '' (defined in '' @ py_str file_path @ '') from a real execution path proven by an integration test.'')),
       (''wiring'', JObj [(''symbol'', symbol), (''qualname'', qualname), (''file'', file_path),
          (''line'', dget_or w ''line'' (JInt 0)), (''reachable'', dget w ''reachable''), (''source'', JStr ''wiring_checker.py'')])])"

definition emit_wiring_items :: "json \<Rightarrow> json list py" where
  "emit_wiring_items analysis =
     py_bind (obj_get_or analysis ''wiring_items'' (JList [])) (\<lambda>its. py_bind (py_iter its) (\<lambda>ws.
       py_bind (py_map is_obligation ws) (\<lambda>flags.
         Inr (map (\<lambda>(n, w). emit_item n (as_dict w)) (enumerate 1 (map fst (filter snd (zip ws flags))))))))"

text \<open>The command line: the analysis and its candidates; findings never fail it.\<close>

definition checker_main :: "(string \<Rightarrow> parsed_file) \<Rightarrow> string list \<Rightarrow> json py" where
  "checker_main parse argv = py_bind (analyze parse argv) (\<lambda>result. py_bind (emit_wiring_items result) (\<lambda>candidates.
     Inr (JObj [(''wiring_items'', dget (as_dict result) ''wiring_items''), (''dead_code'', dget (as_dict result) ''dead_code''),
       (''wiring_candidates'', JList candidates)])))"

end
