(* ===== verification/Checker_Properties.thy ===== *)
theory Checker_Properties
  imports Wiring_Checker
begin

section \<open>What the wiring checker reports\<close>

text \<open>
  The names that a file mentions decide every verdict: seeding entry points from module-level code
  changes none. The candidates fit the schema and the ingestion below a thousand of them, and no
  batch of more gets in.
\<close>

subsection \<open>What a visit keeps and records\<close>

definition kept :: "filemodel \<Rightarrow> filemodel \<Rightarrow> bool" where
  "kept m m' = (f_path m' = f_path m \<and> f_test m' = f_test m \<and> f_error m' = f_error m \<and> set (f_refs m) \<subseteq> set (f_refs m'))"

lemma kept_refl: "kept m m" and kept_trans: "kept m m' \<Longrightarrow> kept m' m'' \<Longrightarrow> kept m m''"
  by (auto simp: kept_def)

lemma kept_add_refs: "kept m (add_refs ns m)"
  by (simp add: kept_def add_refs_def)

lemma kept_record: "kept m (record_def scope in_class kind name line decorators m)"
  by (auto simp: kept_def record_def_def Let_def)

text \<open>What every recording step keeps, a visit keeps.\<close>

lemma visit_rel:
  assumes refl: "\<And>m. R m m" and trans: "\<And>m m' m''. R m m' \<Longrightarrow> R m' m'' \<Longrightarrow> R m m''"
    and refs: "\<And>ns m. R m (add_refs ns m)"
    and defs: "\<And>scope in_class kind name line decorators m. R m (record_def scope in_class kind name line decorators m)"
  shows "R m (visit scope in_class n m)" "R m (visit_all scope in_class ns m)"
proof (induction scope in_class n m and scope in_class ns m rule: visit_visit_all.induct)
  case (4 scope in_class name line inner decorators others m)
  then show ?case using trans [OF defs trans [OF 4(1) trans [OF 4(2,3)]]] by simp
next
  case (5 scope in_class name line bases inner decorators m)
  then show ?case using trans [OF defs trans [OF refs trans [OF 5(1) trans [OF 5(2,3)]]]] by simp
next
  case (2 scope in_class v a m)
  then show ?case using trans [OF refs 2] by simp
next
  case (3 scope in_class f args m)
  then show ?case using trans [OF refs trans [OF 3]] by simp
next
  case (9 scope in_class n ns m)
  then show ?case using trans [OF 9] by simp
qed (simp_all add: refl refs)

lemma visit_kept: "kept m (visit scope in_class n m)" "kept m (visit_all scope in_class ns m)"
  by (rule visit_rel; (rule kept_refl kept_add_refs kept_record | erule kept_trans; assumption))+

text \<open>Keys are qualified names that end in the definition's own name, and handlers are entries.\<close>

definition defs_ok :: "filemodel \<Rightarrow> bool" where
  "defs_ok m = (distinct (map fst (f_defs m)) \<and>
     list_all (\<lambda>(q, d). d_qualname d = q \<and> d_path d = f_path m \<and> (\<exists>scope. q = join ''.'' (scope @ [d_name d])) \<and>
       (d_decorated d \<longrightarrow> f_test m \<or> q \<in> set (f_entries m))) (f_defs m))"

lemma record_def_ok:
  assumes "defs_ok m"
  shows "defs_ok (record_def scope in_class kind name line decorators m)"
proof -
  let ?q = "join ''.'' (scope @ [name])"
  let ?m = "record_def scope in_class kind name line decorators m"
  have "distinct (map fst (f_defs ?m))"
    using assms by (simp add: defs_ok_def record_def_def Let_def distinct_update)
  moreover have "d_qualname d = q \<and> d_path d = f_path ?m \<and> (\<exists>scope. q = join ''.'' (scope @ [d_name d])) \<and>
      (d_decorated d \<longrightarrow> f_test ?m \<or> q \<in> set (f_entries ?m))" if "(q, d) \<in> set (f_defs ?m)" for q d
  proof (cases "q = ?q")
    case True
    have "map_of (f_defs ?m) q = Some d"
      using that \<open>distinct (map fst (f_defs ?m))\<close> by simp
    then have "d = \<lparr>d_name = name, d_qualname = ?q, d_kind = (if kind = ''function'' \<and> in_class then ''method'' else kind),
        d_path = f_path m, d_line = line, d_decorated = list_ex is_handler_decorator (map dotted_tail decorators)\<rparr>"
      by (simp add: True record_def_def Let_def update_conv')
    then show ?thesis using True by (auto simp: record_def_def Let_def)
  next
    case False
    have "map_of (f_defs ?m) q = Some d"
      using that \<open>distinct (map fst (f_defs ?m))\<close> by simp
    with False have "(q, d) \<in> set (f_defs m)"
      by (simp add: record_def_def Let_def update_conv' map_of_SomeD)
    with assms show ?thesis by (auto simp: defs_ok_def list_all_iff record_def_def Let_def)
  qed
  ultimately show ?thesis by (auto simp: defs_ok_def list_all_iff)
qed

lemma visit_defs_ok: "defs_ok m \<Longrightarrow> defs_ok (visit_all scope in_class ns m)"
proof -
  have "defs_ok m \<longrightarrow> defs_ok (visit_all scope in_class ns m)"
    by (rule visit_rel(2) [of "\<lambda>m m'. defs_ok m \<longrightarrow> defs_ok m'"])
       (auto simp: add_refs_def record_def_ok, simp add: defs_ok_def)
  then show "defs_ok m \<Longrightarrow> defs_ok (visit_all scope in_class ns m)" by blast
qed

lemma refs_mono: "kept m m' \<Longrightarrow> set ns \<subseteq> set (f_refs m) \<Longrightarrow> set ns \<subseteq> set (f_refs m')"
  by (auto simp: kept_def)

lemma visit_walked:
  "set (walked n) \<subseteq> set (f_refs (visit scope in_class n m))"
  "set (walked_all ns) \<subseteq> set (f_refs (visit_all scope in_class ns m))"
proof (induction scope in_class n m and scope in_class ns m rule: visit_visit_all.induct)
  case (2 scope in_class v a m)
  have "a \<in> set (f_refs (visit scope in_class v (add_refs (a # root_names v) m)))"
    using visit_kept(1) [of "add_refs (a # root_names v) m" scope in_class v] by (auto simp: kept_def add_refs_def)
  with 2 show ?case by simp
next
  case (3 scope in_class f args m)
  let ?m1 = "add_refs (target_names f) m"
  let ?m2 = "visit scope in_class f ?m1"
  have "set (target_names f) \<subseteq> set (f_refs ?m1)" by (simp add: add_refs_def)
  then have "set (target_names f) \<subseteq> set (f_refs ?m2)" by (rule refs_mono [OF visit_kept(1)])
  with 3 show ?case using refs_mono [OF visit_kept(2) [of ?m2]] by simp
next
  case (4 scope in_class name line inner decorators others m)
  then show ?case using refs_mono [OF visit_kept(2)] by simp
next
  case (5 scope in_class name line bases inner decorators m)
  then show ?case using refs_mono [OF visit_kept(2)] by simp
next
  case (9 scope in_class n ns m)
  then show ?case using refs_mono [OF visit_kept(2)] by simp
qed (simp_all add: add_refs_def)

subsection \<open>Seeding changes no verdict\<close>

text \<open>A file without the entry points of its module-level code.\<close>

definition unseeded :: "(string \<Rightarrow> parsed_file) \<Rightarrow> string \<Rightarrow> filemodel py" where
  "unseeded parse path =
     (let m = \<lparr>f_path = path, f_test = is_test_path path, f_defs = [], f_refs = [], f_entries = [], f_error = None\<rparr>
      in case parse path of
        ReadFault e \<Rightarrow> Inr (m\<lparr>f_error := Some (''read-error: '' @ e)\<rparr>)
      | SyntaxFault e \<Rightarrow> Inr (m\<lparr>f_error := Some (''syntax-error: '' @ e)\<rparr>)
      | BadEncoding \<Rightarrow> Inl ValueError
      | Tree body \<Rightarrow> Inr (visit_all [] False body m))"

definition adds_mentioned :: "filemodel \<Rightarrow> filemodel \<Rightarrow> bool" where
  "adds_mentioned m0 m = (defs_ok m0 \<and> f_defs m = f_defs m0 \<and> f_refs m = f_refs m0 \<and> f_test m = f_test m0 \<and>
     f_error m = f_error m0 \<and> set (f_entries m0) \<subseteq> set (f_entries m) \<and>
     (\<forall>q. q \<in> set (f_entries m) \<longrightarrow> q \<in> set (f_entries m0) \<or>
        (\<exists>d. d \<in> set (defs_of m0) \<and> d_qualname d = q \<and> d_name d \<in> set (f_refs m0))))"

lemma seed_adds_mentioned:
  assumes "parse_file parse path = Inr m"
  obtains m0 where "unseeded parse path = Inr m0" "adds_mentioned m0 m"
proof (cases "parse path")
  case (Tree body)
  let ?e = "\<lparr>f_path = path, f_test = is_test_path path, f_defs = [], f_refs = [], f_entries = [], f_error = None\<rparr>"
  let ?m0 = "visit_all [] False body ?e"
  have ok: "defs_ok ?m0" by (rule visit_defs_ok) (simp add: defs_ok_def)
  have "set (walked_all (filter is_statement body)) \<subseteq> set (walked_all body)"
    by (induction body) auto
  then have sub: "set (walked_all (filter is_statement body)) \<subseteq> set (f_refs ?m0)"
    using visit_walked(2) [of body "[]" False ?e] by blast
  have m: "m = seed_module_level_entrypoints body ?m0"
    using assms Tree by (simp add: parse_file_def)
  have "adds_mentioned ?m0 m"
    using ok sub unfolding m seed_module_level_entrypoints_def adds_mentioned_def defs_of_def
    by (auto simp: Let_def)
  then show thesis using Tree by (intro that) (simp_all add: unseeded_def)
next
  case (SyntaxFault e)
  with assms show thesis by (intro that) (auto simp: unseeded_def parse_file_def adds_mentioned_def defs_ok_def)
next
  case (ReadFault e)
  with assms show thesis by (intro that) (auto simp: unseeded_def parse_file_def adds_mentioned_def defs_ok_def)
next
  case BadEncoding
  with assms show thesis by (simp add: parse_file_def)
qed

lemma seed_all:
  assumes "py_map (parse_file parse) paths = Inr ms"
  shows "\<exists>ms0. py_map (unseeded parse) paths = Inr ms0 \<and> list_all2 adds_mentioned ms0 ms"
  using assms
proof (induction paths arbitrary: ms)
  case (Cons p paths)
  then obtain m ms' where m: "parse_file parse p = Inr m" "py_map (parse_file parse) paths = Inr ms'" "ms = m # ms'"
    by (auto simp: py_bind_Inr_iff)
  from seed_adds_mentioned [OF m(1)] obtain m0 where m0: "unseeded parse p = Inr m0" "adds_mentioned m0 m" .
  from Cons.IH [OF m(2)] obtain ms0 where "py_map (unseeded parse) paths = Inr ms0" "list_all2 adds_mentioned ms0 ms'"
    by blast
  with m0 m(3) show ?case by simp
qed simp

text \<open>Names are identifiers, so a qualified name determines the last of its parts.\<close>

definition dotless :: "filemodel list \<Rightarrow> bool" where
  "dotless ms = list_all (\<lambda>m. list_all (\<lambda>d. CHR ''.'' \<notin> set (d_name d)) (defs_of m)) ms"

lemma last_part:
  assumes "CHR ''.'' \<notin> set n"
  shows "rev (takeWhile (\<lambda>c. c \<noteq> CHR ''.'') (rev (join ''.'' (scope @ [n])))) = n"
proof -
  have "list_all (\<lambda>c. c \<noteq> CHR ''.'') (rev n)" using assms by (auto simp: list_all_iff)
  note whole = takeWhile_plain(1) [OF this, of "[]"] and cut = takeWhile_plain(1) [OF this, of "CHR ''.'' # t" for t]
  have "takeWhile (\<lambda>c. c \<noteq> CHR ''.'') (rev (join ''.'' (scope @ [n]))) = rev n"
  proof (cases "scope = []")
    case True
    then show ?thesis using whole by simp
  next
    case False
    then show ?thesis using cut [of "rev (join ''.'' scope)"] by (simp add: join_append)
  qed
  then show ?thesis by simp
qed

lemma qualname_name:
  assumes "defs_ok m" "defs_ok m'" "d \<in> set (defs_of m)" "d' \<in> set (defs_of m')" "d_qualname d = d_qualname d'"
    and "CHR ''.'' \<notin> set (d_name d)" "CHR ''.'' \<notin> set (d_name d')"
  shows "d_name d = d_name d'"
proof -
  have "\<exists>scope. d_qualname e = join ''.'' (scope @ [d_name e])" if "defs_ok n" "e \<in> set (defs_of n)" for n e
    using that by (auto simp: defs_ok_def defs_of_def list_all_iff)
  then obtain s s' where "d_qualname d = join ''.'' (s @ [d_name d])" "d_qualname d' = join ''.'' (s' @ [d_name d'])"
    using assms(1-4) by blast
  then show ?thesis using last_part [OF assms(6), of s] last_part [OF assms(7), of s'] assms(5) by simp
qed

lemma repo_entry_names_iff:
  "x \<in> set (repo_entry_names ms) \<longleftrightarrow> (\<exists>k n e. k \<in> set ms \<and> e \<in> set (defs_of k) \<and> d_name e = x \<and> n \<in> set ms \<and>
     d_qualname e \<in> set (f_entries n))"
  unfolding repo_entry_names_def by auto

text \<open>The pairs of a file before and after the seeding.\<close>

definition seeded_pairs :: "filemodel list \<Rightarrow> filemodel list \<Rightarrow> (filemodel \<times> filemodel) set" where
  "seeded_pairs ms0 ms = set (zip ms0 ms)"

lemma seeded_pairD:
  assumes "list_all2 adds_mentioned ms0 ms" "(n0, n) \<in> seeded_pairs ms0 ms"
  shows "adds_mentioned n0 n" "n0 \<in> set ms0" "n \<in> set ms" "defs_of n = defs_of n0"
    "set (f_entries n0) \<subseteq> set (f_entries n)" "set (f_refs n0) \<subseteq> set (repo_referenced ms0)"
proof -
  show a: "adds_mentioned n0 n" using assms by (auto simp: list_all2_iff seeded_pairs_def)
  show "n0 \<in> set ms0" "n \<in> set ms"
    using assms(2) set_zip_leftD set_zip_rightD unfolding seeded_pairs_def by fast+
  then show "set (f_refs n0) \<subseteq> set (repo_referenced ms0)" by (auto simp: repo_referenced_def)
  show "defs_of n = defs_of n0" "set (f_entries n0) \<subseteq> set (f_entries n)"
    using a by (simp_all add: adds_mentioned_def defs_of_def)
qed

lemma seeded_partner:
  assumes "list_all2 adds_mentioned ms0 ms"
  shows "n \<in> set ms \<Longrightarrow> \<exists>n0. (n0, n) \<in> seeded_pairs ms0 ms" "n0 \<in> set ms0 \<Longrightarrow> \<exists>n. (n0, n) \<in> seeded_pairs ms0 ms"
  using list_all2_lengthD [OF assms] in_set_impl_in_set_zip2 [of ms0 ms n] in_set_impl_in_set_zip1 [of ms0 ms n0]
  unfolding seeded_pairs_def by metis+

lemma seeded_refs: "list_all2 adds_mentioned ms0 ms \<Longrightarrow> repo_referenced ms = repo_referenced ms0"
proof -
  assume "list_all2 adds_mentioned ms0 ms"
  then have "map f_refs ms = map f_refs ms0"
    by (induction ms0 ms rule: list_all2_induct) (simp_all add: adds_mentioned_def)
  then show ?thesis by (simp add: repo_referenced_def)
qed

text \<open>An entry that the seeding added belongs to a definition whose name the file mentions.\<close>

lemma seeded_entry:
  assumes l: "list_all2 adds_mentioned ms0 ms" and dot: "dotless ms" and n: "(n0, n) \<in> seeded_pairs ms0 ms"
    and k: "(k0, k) \<in> seeded_pairs ms0 ms" "e \<in> set (defs_of k)" and q: "d_qualname e \<in> set (f_entries n)"
  shows "d_qualname e \<in> set (f_entries n0) \<or> d_name e \<in> set (repo_referenced ms0)"
proof -
  have plain: "CHR ''.'' \<notin> set (d_name e')" if "(m0, m) \<in> seeded_pairs ms0 ms" "e' \<in> set (defs_of m)" for m0 m e'
    using dot that(2) seeded_pairD(3) [OF l that(1)] by (auto simp: dotless_def list_all_iff)
  from seeded_pairD(1) [OF l n] q consider "d_qualname e \<in> set (f_entries n0)"
    | e' where "e' \<in> set (defs_of n0)" "d_qualname e' = d_qualname e" "d_name e' \<in> set (f_refs n0)"
    unfolding adds_mentioned_def by blast
  then show ?thesis
  proof cases
    case 2
    have "d_name e = d_name e'"
      using seeded_pairD(1,4) [OF l n] seeded_pairD(1,4) [OF l k(1)] 2(1,2) k(2) plain [OF k] plain [OF n]
      by (intro qualname_name [of k0 n0]) (simp_all add: adds_mentioned_def)
    then show ?thesis using 2(3) seeded_pairD(6) [OF l n] by auto
  qed simp
qed

lemma reached_iff:
  "reached ms m d \<longleftrightarrow> d_qualname d \<in> set (f_entries m) \<or> d_decorated d \<or> d_name d \<in> set (repo_referenced ms) \<or>
     (\<exists>k n e. k \<in> set ms \<and> e \<in> set (defs_of k) \<and> d_name e = d_name d \<and> n \<in> set ms \<and> d_qualname e \<in> set (f_entries n))"
  unfolding reached_def is_entry_def repo_entry_names_iff by blast

lemma seeded_reached:
  assumes l: "list_all2 adds_mentioned ms0 ms" and dot: "dotless ms"
    and m: "(m0, m) \<in> seeded_pairs ms0 ms" "d \<in> set (defs_of m)"
  shows "reached ms m d \<longleftrightarrow> reached ms0 m0 d"
proof
  assume "reached ms0 m0 d"
  then consider "d_qualname d \<in> set (f_entries m0)" | "d_decorated d \<or> d_name d \<in> set (repo_referenced ms0)"
    | k0 n0 e where "k0 \<in> set ms0" "e \<in> set (defs_of k0)" "d_name e = d_name d" "n0 \<in> set ms0" "d_qualname e \<in> set (f_entries n0)"
    unfolding reached_iff by blast
  then show "reached ms m d"
  proof cases
    case 1
    then show ?thesis using seeded_pairD(5) [OF l m(1)] unfolding reached_iff by blast
  next
    case 3
    from seeded_partner(2) [OF l 3(1)] seeded_partner(2) [OF l 3(4)] obtain k n where
      p: "(k0, k) \<in> seeded_pairs ms0 ms" "(n0, n) \<in> seeded_pairs ms0 ms" by blast
    have "e \<in> set (defs_of k)" "d_qualname e \<in> set (f_entries n)"
      using seeded_pairD(4) [OF l p(1)] seeded_pairD(5) [OF l p(2)] 3(2,5) by auto
    then show ?thesis
      using seeded_pairD(3) [OF l p(1)] seeded_pairD(3) [OF l p(2)] 3(3) unfolding reached_iff by metis
  qed (auto simp: reached_iff seeded_refs [OF l])
next
  assume "reached ms m d"
  then consider "d_qualname d \<in> set (f_entries m)" | "d_decorated d \<or> d_name d \<in> set (repo_referenced ms0)"
    | k n e where "k \<in> set ms" "e \<in> set (defs_of k)" "d_name e = d_name d" "n \<in> set ms" "d_qualname e \<in> set (f_entries n)"
    unfolding reached_iff seeded_refs [OF l] by blast
  then show "reached ms0 m0 d"
  proof cases
    case 1
    then show ?thesis using seeded_entry [OF l dot m(1) m] unfolding reached_iff by blast
  next
    case 3
    from seeded_partner(1) [OF l 3(1)] seeded_partner(1) [OF l 3(4)] obtain k0 n0 where
      p: "(k0, k) \<in> seeded_pairs ms0 ms" "(n0, n) \<in> seeded_pairs ms0 ms" by blast
    from seeded_entry [OF l dot p(2,1) 3(2,5)] show ?thesis
      using seeded_pairD(2,4) [OF l p(1)] seeded_pairD(2) [OF l p(2)] 3(2,3) unfolding reached_iff by metis
  qed (auto simp: reached_iff)
qed

text \<open>
  C26. Reachability is not computed from the entry points: leaving out the seeding from module-level
  code altogether, the checker reports the same dead code. What decides is whether some file of
  the set mentions the name at all.
\<close>

theorem seeding_changes_no_verdict:
  assumes "py_map (parse_file parse) paths = Inr ms" "dotless ms"
  shows "\<exists>ms0. py_map (unseeded parse) paths = Inr ms0 \<and>
    concat (map (dead_rows ms) ms) = concat (map (dead_rows ms0) ms0)"
proof -
  from seed_all [OF assms(1)] obtain ms0 where ms0: "py_map (unseeded parse) paths = Inr ms0" "list_all2 adds_mentioned ms0 ms"
    by blast
  have rows: "dead_rows ms m = dead_rows ms0 m0" if z: "(m0, m) \<in> seeded_pairs ms0 ms" for m0 m
  proof -
    have "filter (\<lambda>d. \<not> reached ms m d) (defs_of m) = filter (\<lambda>d. \<not> reached ms0 m0 d) (defs_of m)"
      using seeded_reached [OF ms0(2) assms(2) z] by (intro filter_cong) simp_all
    with seeded_pairD(1) [OF ms0(2) z] show ?thesis by (simp add: dead_rows_def adds_mentioned_def defs_of_def)
  qed
  have "map (dead_rows ms) ms = map (dead_rows ms0) ms0"
    using list_all2_lengthD [OF ms0(2)]
    unfolding list_eq_iff_nth_eq [of "map _ _"] by (auto intro!: rows simp: seeded_pairs_def in_set_zip)
  with ms0(1) show ?thesis by auto
qed

definition sample_parse :: "string \<Rightarrow> parsed_file" where
  "sample_parse path =
     (if path = ''app.py'' then Tree [FunctionDef ''f'' 1 [] [] [], Other [Call (Name ''f'' True) []]]
      else if path = ''lib.py'' then Tree [FunctionDef ''g'' 1 [] [] []]
      else if path = ''loop.py'' then Tree [FunctionDef ''h'' 1 [Other [Call (Name ''h'' True) []]] [] []]
      else if path = ''tests/test_lib.py'' then Tree [FunctionDef ''test_g'' 1 [Other [Call (Name ''g'' True) []]] [] []]
      else ReadFault ''no such file'')"

theorem seeding_changes_no_verdict_witness:
  "\<exists>ms ms0. py_map (parse_file sample_parse) [''app.py'', ''lib.py''] = Inr ms \<and>
    py_map (unseeded sample_parse) [''app.py'', ''lib.py''] = Inr ms0 \<and>
    concat (map (dead_rows ms) ms) = concat (map (dead_rows ms0) ms0)"
proof -
  have "case py_map (parse_file sample_parse) [''app.py'', ''lib.py''] of Inr ms \<Rightarrow> dotless ms | Inl e \<Rightarrow> False"
    by code_simp
  then obtain ms where ms: "py_map (parse_file sample_parse) [''app.py'', ''lib.py''] = Inr ms" "dotless ms"
    by (auto split: sum.splits)
  from seeding_changes_no_verdict [OF this] ms(1) show ?thesis by blast
qed

definition dead_symbols :: "json py \<Rightarrow> json list" where
  "dead_symbols a = (case a of Inr (JObj d) \<Rightarrow> (case dget d ''dead_code'' of
     JList rows \<Rightarrow> map (\<lambda>r. dget (as_dict r) ''symbol'') rows | _ \<Rightarrow> []) | _ \<Rightarrow> [])"

text \<open>
  A function that nothing mentions is reported; with a test file in the set that calls it, it is
  not, although a test is no execution path; and a function that only calls itself is not reported
  either.
\<close>

theorem test_mention_hides_dead_code:
  "dead_symbols (analyze sample_parse [''lib.py'']) = [JStr ''g''] \<and>
   dead_symbols (analyze sample_parse [''lib.py'', ''tests/test_lib.py'']) = [] \<and>
   dead_symbols (analyze sample_parse [''loop.py'']) = []"
  by code_simp

subsection \<open>The candidates\<close>

lemma id_pattern_digits:
  assumes "list_all digit_char ds"
  shows "id_pattern (''REQ-WIRE-'' @ ds) \<longleftrightarrow> length ds = 3"
proof -
  have "id_pattern (''REQ-WIRE-'' @ ds) \<longleftrightarrow> length (take 3 ds) = 3 \<and> list_all digit_char (take 3 ds) \<and>
      (drop 3 ds = [] \<or> drop 3 ds = [CHR 0x0A])"
    by (simp add: id_pattern_def upper_char_def code_def Let_def)
  moreover have "list_all digit_char (take 3 ds)" using assms by (auto simp: list_all_iff dest: in_set_takeD)
  moreover have "drop 3 ds \<noteq> [CHR 0x0A]"
  proof
    assume "drop 3 ds = [CHR 0x0A]"
    then have "CHR 0x0A \<in> set ds" by (metis in_set_dropD list.set_intros(1))
    with assms show False by (auto simp: list_all_iff digit_char_def code_def)
  qed
  ultimately show ?thesis by auto
qed

lemma dec_digits_chars: "list_all digit_char (dec_digits n)"
proof (induction n rule: dec_digits.induct)
  case (1 n)
  have "digit_char (char_of (48 + k mod 10))" for k :: nat by (simp add: digit_char_def code_def)
  from this [of n] 1 show ?case by (subst dec_digits.simps) auto
qed

lemma length_dec_digits: "length (dec_digits n) \<le> k \<longleftrightarrow> n < 10 ^ k" if "0 < k"
  using that
proof (induction k arbitrary: n)
  case (Suc k)
  show ?case
  proof (cases "n < 10")
    case True
    have "(10::nat) \<le> 10 ^ Suc k" by simp
    with True have "n < 10 ^ Suc k" by linarith
    with True show ?thesis by (simp add: dec_digits.simps [of n])
  next
    case False
    have "dec_digits (n div 10) \<noteq> []" by (subst dec_digits.simps) simp
    then show ?thesis
      using False Suc by (cases "k = 0") (auto simp: dec_digits.simps [of n] less_mult_imp_div_less div_less_iff_less_mult mult.commute)
  qed
qed simp

lemma ordinal_digits: "list_all digit_char (ordinal_digits n)" "length (ordinal_digits n) = 3 \<longleftrightarrow> n < 1000"
proof -
  show "list_all digit_char (ordinal_digits n)"
    using dec_digits_chars [of n] by (auto simp: ordinal_digits_def list_all_iff) (simp add: digit_char_def code_def)
  have "length (ordinal_digits n) = max 3 (length (dec_digits n))" by (simp add: ordinal_digits_def)
  then show "length (ordinal_digits n) = 3 \<longleftrightarrow> n < 1000" using length_dec_digits [of 3 n] by auto
qed

lemma emit_item_valid: "coverage_item_valid (emit_item n w) \<longleftrightarrow> n < 1000"
proof -
  have "id_pattern (WIRING_REQ_PREFIX @ ''-'' @ ordinal_digits n) \<longleftrightarrow> n < 1000"
    using id_pattern_digits [OF ordinal_digits(1)] ordinal_digits(2) by (simp add: WIRING_REQ_PREFIX_def)
  then show ?thesis
    by (simp add: emit_item_def Let_def coverage_item_valid_def item_fields_valid_def item_rules_valid_def optional_def
        required_def positive_integer_def)
qed

lemma emit_wiring_items_iff:
  "emit_wiring_items analysis = Inr cs \<Longrightarrow> \<exists>ws. cs = map (\<lambda>(n, w). emit_item n w) (enumerate 1 ws)"
proof -
  assume "emit_wiring_items analysis = Inr cs"
  then obtain xs :: "json list" where cs: "cs = map (\<lambda>(n, w). emit_item n (as_dict w)) (enumerate 1 xs)"
    by (auto simp: emit_wiring_items_def py_bind_Inr_iff)
  have "map (\<lambda>(n, w). emit_item n (as_dict w)) (enumerate k xs) = map (\<lambda>(n, w). emit_item n w) (enumerate k (map as_dict xs))" for k
    by (induction xs arbitrary: k) simp_all
  with cs show ?thesis by blast
qed

lemma emitted_valid:
  "list_all coverage_item_valid (map (\<lambda>(n, w). emit_item n w) (enumerate k ws)) \<longleftrightarrow> ws = [] \<or> k + length ws \<le> 1000"
  by (induction ws arbitrary: k) (auto simp: emit_item_valid Suc_le_eq)

lemma emit_item_keeps: "normalize_item (emit_item n w) = Inr (emit_item n w)"
  "obj_get (emit_item n w) ''id'' = Inr (JStr (WIRING_REQ_PREFIX @ ''-'' @ ordinal_digits n))"
  by (simp_all add: emit_item_def Let_def normalize_item_def setdefault_def dget_def dget_or_def)

definition named :: "json \<Rightarrow> bool" where
  "named c = (case item_qualname c of Inr q \<Rightarrow> is_str q | Inl e \<Rightarrow> False)"

lemma namedE: "named c \<Longrightarrow> \<exists>s. item_qualname c = Inr (JStr s)"
  by (auto simp: named_def split: sum.splits elim: is_str.elims)

text \<open>Candidates with names of their own are all new.\<close>

lemma select_new_all:
  assumes "list_all named cs" "distinct (map item_qualname cs)"
    and "\<And>q. q \<in> set quals \<Longrightarrow> is_str q \<and> Inr q \<notin> set (map item_qualname cs)"
    and "\<And>c. c \<in> set cs \<Longrightarrow> normalize_item c = Inr c \<and> (\<exists>i. obj_get c ''id'' = Inr (JStr i))"
  shows "select_new quals ids cs = Inr cs"
  using assms
proof (induction cs arbitrary: quals ids)
  case (Cons c cs)
  from Cons.prems(1) obtain s where s: "item_qualname c = Inr (JStr s)" using namedE [of c] by auto
  from Cons.prems(4) [of c] s obtain i where
    c: "item_qualname c = Inr (JStr s)" "obj_get c ''id'' = Inr (JStr i)" "normalize_item c = Inr c" by auto
  have "\<not> list_ex (py_eq (JStr s)) quals"
  proof
    assume "list_ex (py_eq (JStr s)) quals"
    then obtain q where q: "q \<in> set quals" "py_eq (JStr s) q" by (auto simp: list_ex_iff)
    with Cons.prems(3) obtain t where "q = JStr t" by (auto elim: is_str.elims)
    with q c(1) Cons.prems(3) [OF q(1)] show False by simp
  qed
  moreover have "select_new (quals @ [JStr s]) (ids @ [JStr i]) cs = Inr cs"
    using Cons.prems c(1) by (intro Cons.IH) auto
  ultimately show ?case using c by (simp add: already_there_def member_of_def add_known_def)
qed simp

text \<open>
  The candidates of an analysis whose symbols have different names enter an empty model together,
  each as it is, as long as there are fewer than a thousand: the ordinal of the thousandth has a
  digit more than the schema's id pattern allows, and then ingestion writes none of the batch and
  reports zero.
\<close>

theorem thousandth_candidate_blocks_all:
  assumes "emit_wiring_items analysis = Inr cs" "list_all named cs" "distinct (map item_qualname cs)"
  shows "ingest_wiring_candidates Present True cs (Parsed empty_model) =
    (if length cs < 1000 then (Parsed (with_items (as_dict empty_model) cs), Inr (length cs)) else (Parsed empty_model, Inr 0))"
proof -
  from emit_wiring_items_iff [OF assms(1)] obtain ws where cs: "cs = map (\<lambda>(n, w). emit_item n w) (enumerate 1 ws)" by blast
  have load: "load_model (Parsed empty_model) = Some (as_dict empty_model, [])"
    by (simp add: load_model_def empty_model_def dget_def dget_or_def as_dict_def)
  have "normalize_item c = Inr c \<and> (\<exists>i. obj_get c ''id'' = Inr (JStr i))" if "c \<in> set cs" for c
    using that emit_item_keeps by (auto simp: cs)
  then have "select_new [] [] cs = Inr cs" using assms(2,3) by (intro select_new_all) auto
  then have sel: "select_new_candidates cs [] = Inr cs"
    by (simp add: select_new_candidates_def existing_quals_def existing_ids_def hash_set_def)
  have "feature_list_valid (with_items (as_dict empty_model) cs) \<longleftrightarrow> list_all coverage_item_valid cs"
    by (simp add: feature_list_valid_def with_items_def optional_def required_map_of dset_def update_conv' empty_model_def
        as_dict_def DEFAULT_CHECKLIST_REF_def checklist_ref_valid_def)
  also have "\<dots> \<longleftrightarrow> length cs < 1000" unfolding cs emitted_valid by (cases ws) auto
  finally have "validate_against_schema Present (with_items (as_dict empty_model) cs) =
      (if length cs < 1000 then Inr () else Inl ValidationError)"
    by (simp add: validate_against_schema_def)
  moreover have "with_items (as_dict empty_model) [] = empty_model" by code_simp
  ultimately show ?thesis by (cases "cs = []") (simp_all add: ingest_wiring_candidates_def load sel)
qed

definition sample_row :: "nat \<Rightarrow> json" where
  "sample_row n = JObj [(''symbol'', JStr (replicate n CHR ''a'')), (''kind'', JStr ''function'')]"

lemma emitted_rows:
  assumes "list_all (\<lambda>n. 0 < n) ns"
  shows "emit_wiring_items (JObj [(''wiring_items'', JList (map sample_row ns))]) =
    Inr (map (\<lambda>(n, w). emit_item n (as_dict w)) (enumerate 1 (map sample_row ns)))"
proof -
  have "is_obligation (sample_row n) = Inr True" if "0 < n" for n
    using that by (simp add: is_obligation_def sample_row_def dget_def dget_or_def)
  then have "py_map is_obligation (map sample_row ns) = Inr (map (\<lambda>n. True) ns)"
    using assms by (induction ns) simp_all
  moreover have "map fst (filter snd (zip (map sample_row ns) (map (\<lambda>n. True) ns))) = map sample_row ns"
    by (induction ns) simp_all
  ultimately show ?thesis by (simp add: emit_wiring_items_def dget_or_def)
qed

lemma emitted_row_name: "0 < n \<Longrightarrow> item_qualname (emit_item k (as_dict (sample_row n))) = Inr (JStr (replicate n CHR ''a''))"
  by (simp add: emit_item_def Let_def sample_row_def as_dict_def item_qualname_def dget_def dget_or_def py_or_def)

theorem thousandth_candidate_blocks_all_witness:
  "\<exists>cs. emit_wiring_items (JObj [(''wiring_items'', JList (map sample_row [1..<1001]))]) = Inr cs \<and>
    ingest_wiring_candidates Present True cs (Parsed empty_model) = (Parsed empty_model, Inr 0)"
proof -
  let ?cs = "map (\<lambda>(n, w). emit_item n (as_dict w)) (enumerate 1 (map sample_row [1..<1001]))"
  have run: "emit_wiring_items (JObj [(''wiring_items'', JList (map sample_row [1..<1001]))]) = Inr ?cs"
    by (rule emitted_rows) (simp add: list_all_iff)
  have names: "map item_qualname (map (\<lambda>(n, w). emit_item n (as_dict w)) (enumerate k (map sample_row ns))) =
      map (\<lambda>n. Inr (JStr (replicate n CHR ''a''))) ns \<and>
      list_all named (map (\<lambda>(n, w). emit_item n (as_dict w)) (enumerate k (map sample_row ns)))"
    if "list_all (\<lambda>n. 0 < n) ns" for k ns
    using that by (induction ns arbitrary: k) (simp_all add: emitted_row_name named_def)
  have pos: "list_all (\<lambda>n. 0 < n) [1..<1001::nat]" by (simp add: list_all_iff)
  have "distinct (map item_qualname ?cs)"
    unfolding conjunct1 [OF names [OF pos]] by (simp add: distinct_map inj_on_def)
  from thousandth_candidate_blocks_all [OF run conjunct2 [OF names [OF pos]] this] run show ?thesis by auto
qed

end
