(* ===== verification/Mcp_Server.thy ===== *)
theory Mcp_Server
  imports Plane_Loop
begin

section \<open>The board as an MCP server\<close>

text \<open>
  \<open>plane-integration/plane_mcp_server.py\<close>: the connection settings, the requests with their retries,
  the tools, and the JSON-RPC loop over standard input. What the network answers to a request is a
  parameter, on a world of its own; a session keeps, beside that world, the requests sent, in order,
  and the cached states. The wording of an exception and the truncation of a float are arguments.
  Waiting between requests and the diagnostics are left out; a character outside the model's range
  is written as dots.
\<close>

subsection \<open>Settings\<close>

definition env_pair :: "string \<Rightarrow> (string \<times> string) list" where
  "env_pair line = (let ln = strip line in
     if ln = [] \<or> startswith ln ''#'' \<or> CHR ''='' \<notin> set ln then []
     else [(takeWhile (\<lambda>c. c \<noteq> CHR ''='') ln, tl (dropWhile (\<lambda>c. c \<noteq> CHR ''='') ln))])"

definition load_env_file :: "string \<Rightarrow> (string \<times> string) list" where
  "load_env_file contents = concat (map env_pair (splitlines contents))"

record mcp_config =
  cf_api_base :: string
  cf_ws :: string
  cf_proj :: "string option"
  cf_key :: "string option"
  cf_creds_path :: string

text \<open>A later line of the file wins; an empty variable counts as absent.\<close>

definition setting :: "environment \<Rightarrow> (string \<times> string) list \<Rightarrow> string \<Rightarrow> string option" where
  "setting env file k = (case env k of
     Some v \<Rightarrow> if v \<noteq> [] then Some v else map_of (rev file) k
   | None \<Rightarrow> map_of (rev file) k)"

definition or_text :: "string option \<Rightarrow> string \<Rightarrow> string" where
  "or_text v d = (case v of None \<Rightarrow> d | Some s \<Rightarrow> if s = [] then d else s)"

definition mcp_config_of :: "environment \<Rightarrow> string \<Rightarrow> (string \<times> string) list \<Rightarrow> mcp_config" where
  "mcp_config_of env creds_path file = \<lparr>
     cf_api_base = rev (dropWhile (\<lambda>c. c = CHR ''/'')
       (rev (or_text (setting env file ''PLANE_API_BASE'') ''http://localhost:8090/api/v1''))),
     cf_ws = or_text (setting env file ''PLANE_WORKSPACE_SLUG'') ''ascp'',
     cf_proj = setting env file ''PLANE_PROJECT_ID'', cf_key = setting env file ''PLANE_API_KEY'',
     cf_creds_path = creds_path\<rparr>"

definition text_or_None :: "string option \<Rightarrow> string" where
  "text_or_None v = (case v of None \<Rightarrow> ''None'' | Some s \<Rightarrow> s)"

definition pbase :: "mcp_config \<Rightarrow> string" where
  "pbase c = ''/workspaces/'' @ cf_ws c @ ''/projects/'' @ text_or_None (cf_proj c)"

subsection \<open>Requests\<close>

datatype http_answer = HttpOk string int | HttpFault int | Unreachable | Broken py_exc

type_synonym http_request = "string \<times> string \<times> json option"
type_synonym 'w net = "http_request \<Rightarrow> 'w \<Rightarrow> 'w \<times> http_answer"

record 'w mcp =
  mc_world :: 'w
  mc_sent :: "http_request list"
  mc_states :: "keyed option"

type_synonym ('w, 'a) mcp_op = "'w mcp \<Rightarrow> 'w mcp \<times> (board_error + 'a)"

definition pure_tool :: "'a py \<Rightarrow> ('w, 'a) mcp_op" where
  "pure_tool r st = (st, lift_py r)"

definition refuse :: "board_error \<Rightarrow> ('w, 'a) mcp_op" where
  "refuse e st = (st, Inl e)"

definition urlopen :: "'w net \<Rightarrow> http_request \<Rightarrow> 'w mcp \<Rightarrow> 'w mcp \<times> http_answer" where
  "urlopen net q st = (case net q (mc_world st) of (w, a) \<Rightarrow> (st\<lparr>mc_world := w, mc_sent := mc_sent st @ [q]\<rparr>, a))"

fun answer_of :: "string \<Rightarrow> int \<Rightarrow> board_error + json" where
  "answer_of raw status = (if raw = [] then Inr (JObj [(''ok'', JBool True), (''status'', JInt status)])
     else case loads raw of Some v \<Rightarrow> Inr v | None \<Rightarrow> Inl (BoardExc ValueError))"

fun api_attempts :: "'w net \<Rightarrow> nat \<Rightarrow> http_request \<Rightarrow> ('w, json) mcp_op" where
  "api_attempts net 0 q st = (st, Inl (BoardExc RuntimeError))"
| "api_attempts net (Suc k) q st = (case urlopen net q st of (st', a) \<Rightarrow> (case a of
     HttpOk raw status \<Rightarrow> (st', answer_of raw status)
   | HttpFault c \<Rightarrow> if c = 429 \<or> (500 \<le> c \<and> c < 600) then api_attempts net k q st'
       else (st', Inl (BoardExc RuntimeError))
   | Unreachable \<Rightarrow> api_attempts net k q st'
   | Broken e \<Rightarrow> (st', Inl (BoardExc e))))"

definition api_retries :: nat where
  "api_retries = 6"

definition api :: "'w net \<Rightarrow> string \<Rightarrow> string \<Rightarrow> json option \<Rightarrow> ('w, json) mcp_op" where
  "api net m path body = api_attempts net api_retries (m, path, body)"

definition results_of :: "json \<Rightarrow> json" where
  "results_of v = (case v of JObj d \<Rightarrow> (case map_of d ''results'' of Some r \<Rightarrow> r | None \<Rightarrow> v) | _ \<Rightarrow> v)"

definition list_at :: "'w net \<Rightarrow> string \<Rightarrow> ('w, json) mcp_op" where
  "list_at net path = then_do (api net ''GET'' path None) (\<lambda>v. pure_tool (Inr (results_of v)))"

definition add_state :: "json \<Rightarrow> keyed \<Rightarrow> keyed py" where
  "add_state s d = py_bind (index_key s ''name'') (\<lambda>n. py_bind (index_key s ''id'') (\<lambda>i.
     if hashable n then Inr (pset d n i) else Inl TypeError))"

fun add_states :: "json list \<Rightarrow> keyed \<Rightarrow> keyed py" where
  "add_states [] d = Inr d"
| "add_states (s # ss) d = py_bind (add_state s d) (add_states ss)"

definition states_map :: "'w net \<Rightarrow> mcp_config \<Rightarrow> ('w, keyed) mcp_op" where
  "states_map net c st = (case mc_states st of
     Some m \<Rightarrow> (st, Inr m)
   | None \<Rightarrow> then_do (list_at net (pbase c @ ''/states/'')) (\<lambda>rows.
       then_do (pure_tool (py_bind (py_iter rows) (\<lambda>ss. add_states ss []))) (\<lambda>m st'.
         (st'\<lparr>mc_states := Some m\<rparr>, Inr m))) st)"

text \<open>A name that the board does not know is taken for an identifier.\<close>

definition resolve_state :: "'w net \<Rightarrow> mcp_config \<Rightarrow> json \<Rightarrow> ('w, json) mcp_op" where
  "resolve_state net c v = (if \<not> truthy v then pure_tool (Inr JNull)
     else then_do (states_map net c) (\<lambda>m. pure_tool (py_bind (member_of v (map fst m)) (\<lambda>b.
       Inr (if b then pget m v else v)))))"

definition MCP_TRANSITION_AUTH :: "(string \<times> string list) list" where
  "MCP_TRANSITION_AUTH =
     [(''Agent-Triaged'', [''initializer'', ''human'']), (''Spec-Compiling'', [''initializer'']),
      (''Spec-Verified'', [''initializer'']), (''Plan-Approved'', [''human'']),
      (''Agent-Executing'', [''implementer'']), (''In-Verification'', [''verifier'']),
      (''Human-Review'', [''verifier'', ''human'']), (''Done'', [''verifier'']),
      (''HANDOFF'', [''initializer'', ''implementer'', ''verifier'']),
      (''Blocked'', [''initializer'', ''implementer'', ''verifier'']), (''Failed'', [''verifier''])]"

subsection \<open>The tools\<close>

definition arg :: "json \<Rightarrow> string \<Rightarrow> ('w, json) mcp_op" where
  "arg a k = pure_tool (index_key a k)"

definition aget :: "json \<Rightarrow> string \<Rightarrow> ('w, json) mcp_op" where
  "aget a k = pure_tool (obj_get a k)"

definition work_item :: "mcp_config \<Rightarrow> json \<Rightarrow> string" where
  "work_item c i = pbase c @ ''/work-items/'' @ py_str i @ ''/''"

definition redacted :: "mcp_config \<Rightarrow> json" where
  "redacted c = (case cf_key c of None \<Rightarrow> JNull | Some k \<Rightarrow> if k = [] then JNull else JStr (take 10 k @ ''...redacted''))"

definition t_context :: "'w net \<Rightarrow> mcp_config \<Rightarrow> json \<Rightarrow> ('w, json) mcp_op" where
  "t_context net c a = then_do (states_map net c) (\<lambda>m. pure_tool (Inr (JObj
     [(''api_base'', JStr (cf_api_base c)), (''workspace'', JStr (cf_ws c)),
      (''project_id'', case cf_proj c of None \<Rightarrow> JNull | Some p \<Rightarrow> JStr p), (''token'', redacted c),
      (''creds_file'', JStr (cf_creds_path c)), (''states'', JList (map fst m)),
      (''note'', JStr ''agent->board MCP surface; writes are real. Transition authority enforced.'')])))"

definition t_list_states :: "'w net \<Rightarrow> mcp_config \<Rightarrow> json \<Rightarrow> ('w, json) mcp_op" where
  "t_list_states net c a = list_at net (pbase c @ ''/states/'')"

text \<open>\<open>s.lower()\<close> and \<open>xs[:n]\<close>.\<close>

definition lower_of :: "json \<Rightarrow> string py" where
  "lower_of v = (case v of JStr s \<Rightarrow> Inr (lower_latin s) | _ \<Rightarrow> Inl AttributeError)"

definition take_int :: "int \<Rightarrow> 'a list \<Rightarrow> 'a list" where
  "take_int n xs = (if 0 \<le> n then take (nat n) xs else take (length xs - nat (- n)) xs)"

definition issue_query :: "(string \<Rightarrow> int py) \<Rightarrow> json \<Rightarrow> string py" where
  "issue_query trunc a = py_bind (obj_get a ''limit'') (\<lambda>l.
     py_bind (if truthy l then py_bind (int_of_json trunc l) (\<lambda>n. Inr [''per_page='' @ int_str n]) else Inr []) (\<lambda>q1.
     py_bind (obj_get a ''cursor'') (\<lambda>cur. let q = q1 @ (if truthy cur then [''cursor='' @ py_str cur] else []) in
       Inr (if q = [] then [] else ''?'' @ join ''&'' q))))"

text \<open>Whether a row is kept, for an identifier of a state (or none) and a search text.\<close>

definition keeps_row :: "json \<Rightarrow> string \<Rightarrow> json \<Rightarrow> bool py" where
  "keeps_row sid search row =
     py_bind (if truthy sid then py_bind (obj_get row ''state'') (\<lambda>s. Inr (py_eq s sid)) else Inr True) (\<lambda>here.
     if \<not> here then Inr False
     else if search = [] then Inr True
     else py_bind (obj_get_or row ''name'' (JStr [])) (\<lambda>n. py_bind (lower_of n) (\<lambda>t. Inr (contains search t))))"

definition row_of :: "json \<Rightarrow> json py" where
  "row_of row = py_bind (py_map (obj_get row) [''id'', ''name'', ''state'', ''priority'', ''sequence_id'']) (\<lambda>vs.
     Inr (JObj (zip [''id'', ''name'', ''state'', ''priority'', ''sequence_id''] vs)))"

fun kept_rows :: "json \<Rightarrow> string \<Rightarrow> json list \<Rightarrow> json list py" where
  "kept_rows sid search [] = Inr []"
| "kept_rows sid search (row # rows) = py_bind (keeps_row sid search row) (\<lambda>k.
     py_bind (if k then py_bind (row_of row) (\<lambda>r. Inr [r]) else Inr []) (\<lambda>r.
       py_bind (kept_rows sid search rows) (\<lambda>rs. Inr (r @ rs))))"

definition t_list_issues :: "(string \<Rightarrow> int py) \<Rightarrow> 'w net \<Rightarrow> mcp_config \<Rightarrow> json \<Rightarrow> ('w, json) mcp_op" where
  "t_list_issues trunc net c a =
     then_do (pure_tool (issue_query trunc a)) (\<lambda>qs.
     then_do (list_at net (pbase c @ ''/work-items/'' @ qs)) (\<lambda>rows.
     then_do (aget a ''state'') (\<lambda>want.
     then_do (pure_tool (py_bind (obj_get a ''search'') (\<lambda>s. lower_of (py_or s (JStr []))))) (\<lambda>search.
     then_do (resolve_state net c want) (\<lambda>sid.
     then_do (pure_tool (py_bind (py_iter rows) (kept_rows sid search))) (\<lambda>out.
     pure_tool (py_bind (obj_get_or a ''limit'' (JInt 50)) (\<lambda>l. py_bind (int_of_json trunc l) (\<lambda>n.
       Inr (JObj [(''count'', JInt (int (length out))), (''items'', JList (take_int n out))]))))))))))"

definition t_get_issue :: "'w net \<Rightarrow> mcp_config \<Rightarrow> json \<Rightarrow> ('w, json) mcp_op" where
  "t_get_issue net c a = then_do (arg a ''issue_id'') (\<lambda>i. api net ''GET'' (work_item c i) None)"

definition truthy_field :: "json \<Rightarrow> string \<Rightarrow> string \<Rightarrow> dict py" where
  "truthy_field a k k' = py_bind (obj_get a k) (\<lambda>v. Inr (if truthy v then [(k', v)] else []))"

definition state_field :: "'w net \<Rightarrow> mcp_config \<Rightarrow> json \<Rightarrow> ('w, dict) mcp_op" where
  "state_field net c a = then_do (aget a ''state'') (\<lambda>s. if \<not> truthy s then pure_tool (Inr [])
     else then_do (resolve_state net c s) (\<lambda>i. pure_tool (Inr [(''state'', i)])))"

definition t_create_issue :: "'w net \<Rightarrow> mcp_config \<Rightarrow> json \<Rightarrow> ('w, json) mcp_op" where
  "t_create_issue net c a =
     then_do (arg a ''name'') (\<lambda>n.
     then_do (pure_tool (truthy_field a ''description_html'' ''description_html'')) (\<lambda>d.
     then_do (pure_tool (truthy_field a ''priority'' ''priority'')) (\<lambda>p.
     then_do (state_field net c a) (\<lambda>s.
     then_do (pure_tool (truthy_field a ''assignee_ids'' ''assignees'')) (\<lambda>as.
     api net ''POST'' (pbase c @ ''/work-items/'') (Some (JObj ([(''name'', n)] @ d @ p @ s @ as))))))))"

definition present_field :: "json \<Rightarrow> string \<Rightarrow> dict py" where
  "present_field a k = py_bind (obj_get a k) (\<lambda>v. Inr (if v \<noteq> JNull then [(k, v)] else []))"

definition t_update_issue :: "'w net \<Rightarrow> mcp_config \<Rightarrow> json \<Rightarrow> ('w, json) mcp_op" where
  "t_update_issue net c a =
     then_do (pure_tool (py_map (present_field a) [''name'', ''description_html'', ''priority''])) (\<lambda>fs.
     then_do (state_field net c a) (\<lambda>s.
       if concat fs @ s = [] then pure_tool (Inl ValueError)
       else then_do (arg a ''issue_id'') (\<lambda>i. api net ''PATCH'' (work_item c i) (Some (JObj (concat fs @ s))))))"

text \<open>\<open>TRANSITION_AUTH.get(to_state)\<close> and the membership in the set found.\<close>

definition allowed_roles :: "json \<Rightarrow> string list option py" where
  "allowed_roles to = (if \<not> hashable to then Inl TypeError
     else Inr (case to of JStr s \<Rightarrow> map_of MCP_TRANSITION_AUTH s | _ \<Rightarrow> None))"

definition t_transition :: "'w net \<Rightarrow> mcp_config \<Rightarrow> json \<Rightarrow> ('w, json) mcp_op" where
  "t_transition net c a =
     then_do (arg a ''to_state'') (\<lambda>to.
     then_do (arg a ''actor_role'') (\<lambda>role.
     then_do (pure_tool (allowed_roles to)) (\<lambda>allowed. case allowed of
       None \<Rightarrow> pure_tool (Inl ValueError)
     | Some rs \<Rightarrow> then_do (pure_tool (member_of role (map JStr rs))) (\<lambda>ok.
         if \<not> ok then refuse PermissionError
         else then_do (resolve_state net c to) (\<lambda>sid.
           if \<not> truthy sid then pure_tool (Inl KeyError)
           else then_do (arg a ''issue_id'') (\<lambda>i.
             api net ''PATCH'' (work_item c i) (Some (JObj [(''state'', sid)]))))))))"

definition t_add_comment :: "'w net \<Rightarrow> mcp_config \<Rightarrow> json \<Rightarrow> ('w, json) mcp_op" where
  "t_add_comment net c a = then_do (arg a ''issue_id'') (\<lambda>i. then_do (arg a ''comment_html'') (\<lambda>h.
     api net ''POST'' (work_item c i @ ''comments/'') (Some (JObj [(''comment_html'', h)]))))"

definition mcp_evidence_html :: "json \<Rightarrow> json list \<Rightarrow> string" where
  "mcp_evidence_html role vs =
     ''<p><b>Evidence_Record</b> (actor: '' @ py_str role @ '')</p><ul>'' @
     ''<li><code>test_file</code>: '' @ py_str (vs ! 0) @ ''</li><li><code>test_name</code>: '' @ py_str (vs ! 1) @ ''</li>'' @
     ''<li><code>output_hash</code>: '' @ py_str (vs ! 2) @ ''</li><li><code>collected_at</code>: '' @ py_str (vs ! 3) @ ''</li></ul>''"

definition t_post_evidence :: "'w net \<Rightarrow> mcp_config \<Rightarrow> json \<Rightarrow> ('w, json) mcp_op" where
  "t_post_evidence net c a =
     then_do (pure_tool (obj_get_or a ''actor_role'' (JStr ''verifier''))) (\<lambda>role.
     then_do (pure_tool (py_map (index_key a) [''test_file'', ''test_name'', ''output_hash'', ''collected_at''])) (\<lambda>vs.
     then_do (arg a ''issue_id'') (\<lambda>i.
     api net ''POST'' (work_item c i @ ''comments/'') (Some (JObj [(''comment_html'', JStr (mcp_evidence_html role vs))])))))"

definition t_list_cycles :: "'w net \<Rightarrow> mcp_config \<Rightarrow> json \<Rightarrow> ('w, json) mcp_op" where
  "t_list_cycles net c a = list_at net (pbase c @ ''/cycles/'')"

definition t_list_modules :: "'w net \<Rightarrow> mcp_config \<Rightarrow> json \<Rightarrow> ('w, json) mcp_op" where
  "t_list_modules net c a = list_at net (pbase c @ ''/modules/'')"

definition assign_to :: "'w net \<Rightarrow> mcp_config \<Rightarrow> string \<Rightarrow> string \<Rightarrow> string \<Rightarrow> json \<Rightarrow> ('w, json) mcp_op" where
  "assign_to net c place key issues a = then_do (arg a key) (\<lambda>g. then_do (arg a ''issue_ids'') (\<lambda>is.
     api net ''POST'' (pbase c @ place @ py_str g @ issues) (Some (JObj [(''issues'', is)]))))"

definition t_assign_cycle :: "'w net \<Rightarrow> mcp_config \<Rightarrow> json \<Rightarrow> ('w, json) mcp_op" where
  "t_assign_cycle net c = assign_to net c ''/cycles/'' ''cycle_id'' ''/cycle-issues/''"

definition t_assign_module :: "'w net \<Rightarrow> mcp_config \<Rightarrow> json \<Rightarrow> ('w, json) mcp_op" where
  "t_assign_module net c = assign_to net c ''/modules/'' ''module_id'' ''/module-issues/''"

text \<open>\<open>s.upper()\<close> on ASCII.\<close>

definition upper_ascii :: "string \<Rightarrow> string" where
  "upper_ascii s = map (\<lambda>c. if 97 \<le> code c \<and> code c \<le> 122 then char_of (code c - 32) else c) s"

definition request_path :: "mcp_config \<Rightarrow> string \<Rightarrow> string" where
  "request_path c path = (let p = replace_all ''{workspace}'' (cf_ws c) (replace_all ''{project}'' (or_text (cf_proj c) []) path) in
     if startswith p ''/'' then p else ''/'' @ p)"

definition t_request :: "'w net \<Rightarrow> mcp_config \<Rightarrow> json \<Rightarrow> ('w, json) mcp_op" where
  "t_request net c a =
     then_do (arg a ''path'') (\<lambda>p. case p of
       JStr path \<Rightarrow> then_do (arg a ''method'') (\<lambda>m. case m of
         JStr verb \<Rightarrow> then_do (aget a ''body'') (\<lambda>b.
           api net (upper_ascii verb) (request_path c path) (if b = JNull then None else Some b))
       | _ \<Rightarrow> pure_tool (Inl AttributeError))
     | _ \<Rightarrow> pure_tool (Inl AttributeError))"

subsection \<open>The table of tools\<close>

definition string_prop :: json where
  "string_prop = JObj [(''type'', JStr ''string'')]"

definition described :: "string \<Rightarrow> string \<Rightarrow> json" where
  "described t d = JObj [(''type'', JStr t), (''description'', JStr d)]"

definition strings_prop :: json where
  "strings_prop = JObj [(''type'', JStr ''array''), (''items'', string_prop)]"

definition choice_prop :: "string list \<Rightarrow> json" where
  "choice_prop cs = JObj [(''type'', JStr ''string''), (''enum'', JList (map JStr cs))]"

definition priority_prop :: json where
  "priority_prop = choice_prop [''urgent'', ''high'', ''medium'', ''low'', ''none'']"

definition object_schema :: "string list \<Rightarrow> dict \<Rightarrow> json" where
  "object_schema req props = JObj ([(''type'', JStr ''object'')] @
     (if req = [] then [] else [(''required'', JList (map JStr req))]) @ [(''properties'', JObj props)])"

definition TOOLS :: "(string \<times> json \<times> string) list" where
  "TOOLS =
    [(''plane_context'', object_schema [] [],
      ''Show the connected workspace/project, redacted token, and the 12 state names.''),
     (''plane_list_states'', object_schema [] [], ''List the project''@ [CHR 0x27] @''s workflow states (name + id).''),
     (''plane_list_issues'', object_schema []
        [(''state'', described ''string'' ''filter by state name or id''),
         (''search'', described ''string'' ''case-insensitive substring of the title''),
         (''limit'', JObj [(''type'', JStr ''integer''), (''default'', JInt 50)]),
         (''cursor'', described ''string'' ''pagination cursor'')],
      ''List work-items (optionally filtered by state/search).''),
     (''plane_get_issue'', object_schema [''issue_id''] [(''issue_id'', string_prop)], ''Get one work-item by id.''),
     (''plane_create_issue'', object_schema [''name'']
        [(''name'', string_prop), (''description_html'', string_prop), (''priority'', priority_prop),
         (''state'', described ''string'' ''state name or id''), (''assignee_ids'', strings_prop)],
      ''Create a new work-item.''),
     (''plane_update_issue'', object_schema [''issue_id'']
        [(''issue_id'', string_prop), (''name'', string_prop), (''description_html'', string_prop),
         (''priority'', priority_prop), (''state'', described ''string'' ''state name or id'')],
      ''Update fields on a work-item (name/description/priority/state).''),
     (''plane_transition'', object_schema [''issue_id'', ''to_state'', ''actor_role'']
        [(''issue_id'', string_prop), (''to_state'', described ''string'' ''target state name''),
         (''actor_role'', choice_prop [''initializer'', ''implementer'', ''verifier'', ''human''])],
      ''Move a work-item through the 12-state agent workflow. ENFORCES actor authority (only verifier->Done; loops->HANDOFF).''),
     (''plane_add_comment'', object_schema [''issue_id'', ''comment_html'']
        [(''issue_id'', string_prop), (''comment_html'', string_prop)], ''Add an HTML comment to a work-item.''),
     (''plane_post_evidence'', object_schema [''issue_id'', ''test_file'', ''test_name'', ''output_hash'', ''collected_at'']
        [(''issue_id'', string_prop), (''test_file'', string_prop), (''test_name'', string_prop),
         (''output_hash'', string_prop), (''collected_at'', string_prop),
         (''actor_role'', JObj [(''type'', JStr ''string''), (''default'', JStr ''verifier'')])],
      ''Attach a 4-field Evidence_Record (the proof trail) as a comment.''),
     (''plane_list_cycles'', object_schema [] [], ''List cycles (sprints/phases).''),
     (''plane_list_modules'', object_schema [] [], ''List modules (epics/feature groups).''),
     (''plane_assign_cycle'', object_schema [''cycle_id'', ''issue_ids'']
        [(''cycle_id'', string_prop), (''issue_ids'', strings_prop)], ''Assign work-items to a cycle.''),
     (''plane_assign_module'', object_schema [''module_id'', ''issue_ids'']
        [(''module_id'', string_prop), (''issue_ids'', strings_prop)], ''Assign work-items to a module.''),
     (''plane_request'', object_schema [''method'', ''path'']
        [(''method'', choice_prop [''GET'', ''POST'', ''PATCH'', ''PUT'', ''DELETE'']),
         (''path'', described ''string'' (''API path relative to base, e.g. '' @
            [CHR 0x27] @ ''/workspaces/{workspace}/projects/{project}/members/'' @ [CHR 0x27] @
            ''. Supports {project}/{workspace}.'')),
         (''body'', JObj [(''type'', JStr ''object'')])],
      ''Escape hatch: call ANY Plane REST endpoint (settings, members, views, pages). Full read/write coverage. Use deliberately.'')]"

definition tool_op :: "(string \<Rightarrow> int py) \<Rightarrow> 'w net \<Rightarrow> mcp_config \<Rightarrow> string \<Rightarrow> (json \<Rightarrow> ('w, json) mcp_op) option" where
  "tool_op trunc net c name = map_of
     [(''plane_context'', t_context net c), (''plane_list_states'', t_list_states net c),
      (''plane_list_issues'', t_list_issues trunc net c), (''plane_get_issue'', t_get_issue net c),
      (''plane_create_issue'', t_create_issue net c), (''plane_update_issue'', t_update_issue net c),
      (''plane_transition'', t_transition net c), (''plane_add_comment'', t_add_comment net c),
      (''plane_post_evidence'', t_post_evidence net c), (''plane_list_cycles'', t_list_cycles net c),
      (''plane_list_modules'', t_list_modules net c), (''plane_assign_cycle'', t_assign_cycle net c),
      (''plane_assign_module'', t_assign_module net c), (''plane_request'', t_request net c)] name"

subsection \<open>JSON-RPC\<close>

text \<open>\<open>json.dumps(v, indent=2)\<close> inside \<open>n\<close> levels of two blanks.\<close>

fun dumps_indent :: "nat \<Rightarrow> json \<Rightarrow> string" where
  "dumps_indent n (JList xs) = (if xs = [] then ''[]'' else
     let pad = CHR 0x0A # replicate (2 * Suc n) CHR '' '' in
     ''['' @ pad @ join ('','' @ pad) (map (dumps_indent (Suc n)) xs) @ [CHR 0x0A] @ replicate (2 * n) CHR '' '' @ '']'')"
| "dumps_indent n (JObj d) = (if d = [] then ''{}'' else
     let pad = CHR 0x0A # replicate (2 * Suc n) CHR '' '' in
     ''{'' @ pad @ join ('','' @ pad) (map (\<lambda>(k, v). dumps_str True k @ '': '' @ dumps_indent (Suc n) v) d) @
       [CHR 0x0A] @ replicate (2 * n) CHR '' '' @ ''}'')"
| "dumps_indent n v = dumps True v"

definition reply :: "json \<Rightarrow> json \<Rightarrow> json" where
  "reply mid result = JObj [(''jsonrpc'', JStr ''2.0''), (''id'', mid), (''result'', result)]"

definition reply_error :: "json \<Rightarrow> int \<Rightarrow> string \<Rightarrow> json" where
  "reply_error mid n message = JObj [(''jsonrpc'', JStr ''2.0''), (''id'', mid),
     (''error'', JObj [(''code'', JInt n), (''message'', JStr message)])]"

definition tool_text :: "string \<Rightarrow> dict" where
  "tool_text t = [(''content'', JList [JObj [(''type'', JStr ''text''), (''text'', JStr t)]])]"

definition tools_listed :: json where
  "tools_listed = JObj [(''tools'', JList (map (\<lambda>(n, s, d).
     JObj [(''name'', JStr n), (''description'', JStr d), (''inputSchema'', s)]) TOOLS))]"

definition initialized :: "json \<Rightarrow> json py" where
  "initialized params = py_bind (obj_get params ''protocolVersion'') (\<lambda>p. Inr (JObj
     [(''protocolVersion'', py_or p (JStr ''2024-11-05'')), (''capabilities'', JObj [(''tools'', JObj [])]),
      (''serverInfo'', JObj [(''name'', JStr ''plane-ascp''), (''version'', JStr ''1.0.0'')])]))"

text \<open>The tool that a call names, if there is one, with its arguments.\<close>

definition called :: "(string \<Rightarrow> int py) \<Rightarrow> 'w net \<Rightarrow> mcp_config \<Rightarrow> json \<Rightarrow> (json \<times> json \<times> (json \<Rightarrow> ('w, json) mcp_op) option) py" where
  "called trunc net c params = py_bind (obj_get params ''name'') (\<lambda>name. py_bind (obj_get params ''arguments'') (\<lambda>args.
     if \<not> hashable name then Inl TypeError
     else Inr (name, py_or args (JObj []), case name of JStr n \<Rightarrow> tool_op trunc net c n | _ \<Rightarrow> None)))"

type_synonym wording = "board_error \<Rightarrow> string"

definition handle_call ::
    "wording \<Rightarrow> (string \<Rightarrow> int py) \<Rightarrow> 'w net \<Rightarrow> mcp_config \<Rightarrow> json \<Rightarrow> json \<Rightarrow> ('w, json list) mcp_op" where
  "handle_call wd trunc net c mid params =
     then_do (pure_tool (called trunc net c params)) (\<lambda>(name, args, op) st. case op of
       None \<Rightarrow> (st, Inr [reply_error mid (- 32602) (''unknown tool '' @ [CHR 0x27] @ py_str name @ [CHR 0x27])])
     | Some f \<Rightarrow> (case f args st of
           (st', Inr out) \<Rightarrow> (st', Inr [reply mid (JObj (tool_text (dumps_indent 0 out)))])
         | (st', Inl e) \<Rightarrow> (st', Inr [reply mid (JObj (tool_text (''ERROR: '' @ wd e) @ [(''isError'', JBool True)]))])))"

definition handle ::
    "wording \<Rightarrow> (string \<Rightarrow> int py) \<Rightarrow> 'w net \<Rightarrow> mcp_config \<Rightarrow> json \<Rightarrow> ('w, json list) mcp_op" where
  "handle wd trunc net c msg = (case msg of
     JObj d \<Rightarrow> (let m = dget d ''method''; mid = dget d ''id''; params = py_or (dget d ''params'') (JObj []) in
       if m = JStr ''initialize'' then pure_tool (py_bind (initialized params) (\<lambda>r. Inr [reply mid r]))
       else if m = JStr ''notifications/initialized'' \<or> m = JStr ''initialized'' then pure_tool (Inr [])
       else if m = JStr ''ping'' then pure_tool (Inr [reply mid (JObj [])])
       else if m = JStr ''tools/list'' then pure_tool (Inr [reply mid tools_listed])
       else if m = JStr ''tools/call'' then handle_call wd trunc net c mid params
       else if ''id'' \<in> fst ` set d then pure_tool (Inr [reply_error mid (- 32601) (''method not found: '' @ py_str m)])
       else pure_tool (Inr []))
   | _ \<Rightarrow> pure_tool (Inl AttributeError))"

text \<open>\<open>"id" in msg\<close>, and the reply to a crash of the handler; \<open>Inl\<close> when that raises too.\<close>

definition has_id :: "json \<Rightarrow> bool py" where
  "has_id msg = (case msg of JObj d \<Rightarrow> Inr (''id'' \<in> fst ` set d) | JList xs \<Rightarrow> Inr (list_ex (py_eq (JStr ''id'')) xs)
     | JStr s \<Rightarrow> Inr (contains ''id'' s) | _ \<Rightarrow> Inl TypeError)"

definition crash_reply :: "wording \<Rightarrow> json \<Rightarrow> board_error \<Rightarrow> json list py" where
  "crash_reply wd msg e = py_bind (has_id msg) (\<lambda>b. if \<not> b then Inr []
     else py_bind (index_key msg ''id'') (\<lambda>i. Inr [reply_error i (- 32603) (''internal error: '' @ wd e)]))"

definition serve_line ::
    "wording \<Rightarrow> (string \<Rightarrow> int py) \<Rightarrow> 'w net \<Rightarrow> mcp_config \<Rightarrow> string \<Rightarrow> 'w mcp \<Rightarrow> 'w mcp \<times> json list py" where
  "serve_line wd trunc net c line st = (let l = strip line in
     if l = [] then (st, Inr [])
     else case loads l of None \<Rightarrow> (st, Inr [])
       | Some msg \<Rightarrow> (case handle wd trunc net c msg st of
           (st', Inr rs) \<Rightarrow> (st', Inr rs)
         | (st', Inl e) \<Rightarrow> (st', crash_reply wd msg e)))"

text \<open>The loop ends with the input, or with the first exception that no handler takes.\<close>

fun serve ::
    "wording \<Rightarrow> (string \<Rightarrow> int py) \<Rightarrow> 'w net \<Rightarrow> mcp_config \<Rightarrow> string list \<Rightarrow> 'w mcp \<Rightarrow> 'w mcp \<times> string list" where
  "serve wd trunc net c [] st = (st, [])"
| "serve wd trunc net c (line # lines) st = (case serve_line wd trunc net c line st of
     (st', Inl e) \<Rightarrow> (st', [])
   | (st', Inr rs) \<Rightarrow> (case serve wd trunc net c lines st' of
       (st'', out) \<Rightarrow> (st'', map (\<lambda>r. dumps_spaced True r @ [CHR 0x0A]) rs @ out)))"

end
