(* ===== verification/Mcp_Properties.thy ===== *)
theory Mcp_Properties
  imports Mcp_Server
begin

section \<open>What the MCP server guarantees\<close>

text \<open>
  A request is sent at most six times, every request of a client that is an object gets one reply
  with its identifier, a line that is a bare number ends the server, and the update tool makes any
  move that the transition tool reserves for a role.
\<close>

lemma MCP_TRANSITION_AUTH_board: "MCP_TRANSITION_AUTH = TRANSITION_AUTH"
  by (simp add: MCP_TRANSITION_AUTH_def TRANSITION_AUTH_def)

lemma mcp_steps [simp]:
  "then_do (pure_tool (Inr a)) f st = f a st"
  "then_do (pure_tool (Inl e)) f st = (st, Inl (BoardExc e))"
  "pure_tool (Inr a) st = (st, Inr a)"
  "pure_tool (Inl e) st = (st, Inl (BoardExc e))"
  by (simp_all add: then_do_def pure_tool_def lift_py_def)

lemma then_do_Inr: "m st = (st', Inr a) \<Longrightarrow> then_do m f st = f a st'"
  by (simp add: then_do_def)

subsection \<open>Requests\<close>

lemma api_attempts_sent:
  assumes "api_attempts net k q st = (st', r)"
  shows "\<exists>n. n \<le> k \<and> (n = 0 \<longrightarrow> k = 0) \<and> mc_sent st' = mc_sent st @ replicate n q \<and> mc_states st' = mc_states st"
  using assms
proof (induction k arbitrary: st)
  case (Suc k)
  obtain w a where u: "net q (mc_world st) = (w, a)" by (cases "net q (mc_world st)")
  let ?st = "st\<lparr>mc_world := w, mc_sent := mc_sent st @ [q]\<rparr>"
  have step: "urlopen net q st = (?st, a)" by (simp add: urlopen_def u)
  show ?case
  proof (cases "st' = ?st")
    case True
    then show ?thesis by (intro exI [of _ 1]) simp
  next
    case False
    with Suc.prems step have "api_attempts net k q ?st = (st', r)"
      by (auto split: http_answer.splits if_splits)
    from Suc.IH [OF this] obtain n where "n \<le> k" "mc_sent st' = mc_sent ?st @ replicate n q" "mc_states st' = mc_states ?st"
      by blast
    then show ?thesis by (intro exI [of _ "Suc n"]) simp
  qed
qed simp

lemma api_sends:
  assumes "api net m path body st = (st', r)"
  shows "\<exists>n. 0 < n \<and> n \<le> 6 \<and> mc_sent st' = mc_sent st @ replicate n (m, path, body)"
proof -
  from api_attempts_sent [OF assms [unfolded api_def]] obtain n where
    "n \<le> api_retries" "n = 0 \<longrightarrow> api_retries = 0" "mc_sent st' = mc_sent st @ replicate n (m, path, body)" by blast
  then show ?thesis by (intro exI [of _ n]) (auto simp: api_retries_def)
qed

text \<open>
  Whatever the network answers, a request is sent at least once and at most six times, each time as it is,
  and nothing else is sent.
\<close>

theorem api_sends_at_most_six:
  assumes "api net m path body st = (st', r)"
  shows "\<exists>n. 0 < n \<and> n \<le> 6 \<and> mc_sent st' = mc_sent st @ replicate n (m, path, body)"
  using assms by (rule api_sends)

text \<open>A network that takes every comment, and loses its first answer.\<close>

definition lossy :: "(http_request list) net" where
  "lossy q w = (w @ [q], if w = [] then Unreachable else HttpOk [] 201)"

definition empty_session :: "'w \<Rightarrow> 'w mcp" where
  "empty_session w = \<lparr>mc_world = w, mc_sent = [], mc_states = None\<rparr>"

lemma empty_session_simps [simp]: "mc_sent (empty_session w) = []"
  by (simp add: empty_session_def)

definition sample_config :: mcp_config where
  "sample_config = mcp_config_of (\<lambda>_. None) ''creds'' (load_env_file ''PLANE_PROJECT_ID=p'')"

theorem api_sends_at_most_six_witness:
  "\<exists>n. 0 < n \<and> n \<le> 6 \<and> mc_sent (fst (api lossy ''GET'' ''/x/'' None (empty_session []))) = replicate n (''GET'', ''/x/'', None)"
proof -
  obtain st' r where run: "api lossy ''GET'' ''/x/'' None (empty_session []) = (st', r)"
    by (cases "api lossy ''GET'' ''/x/'' None (empty_session [])")
  from api_sends_at_most_six [OF run] show ?thesis by (simp add: run)
qed

text \<open>
  A comment whose answer is lost is posted again: the board gets it twice.
\<close>

theorem lost_answer_posts_twice:
  "let q = (''POST'', ''/workspaces/ascp/projects/p/work-items/i/comments/'', Some (JObj [(''comment_html'', JStr ''hi'')])) in
    mc_world (fst (t_add_comment lossy sample_config (JObj [(''issue_id'', JStr ''i''), (''comment_html'', JStr ''hi'')])
      (empty_session []))) = [q, q]"
  by code_simp

subsection \<open>States without authority\<close>

lemma state_field_named:
  assumes "s \<noteq> []" "resolve_state net c (JStr s) st = (st', Inr sid)"
  shows "state_field net c (JObj d) st = (if dget d ''state'' = JStr s then (st', Inr [(''state'', sid)]) else state_field net c (JObj d) st)"
  using assms by (simp add: state_field_def aget_def then_do_Inr)

text \<open>
  C34. The update tool takes no role: for every state of the authority table, whatever identifier it resolves
  to, it sends the request that the transition tool sends for an authorised role, while the
  transition tool refuses every other role before it sends anything.
\<close>

theorem update_bypasses_authority:
  assumes "map_of MCP_TRANSITION_AUTH s = Some rs" "role \<in> set rs" "other \<notin> set rs"
    and "resolve_state net c (JStr s) st = (st', Inr (JStr (x # sid)))"
  shows "t_update_issue net c (JObj [(''issue_id'', i), (''state'', JStr s)]) st =
      t_transition net c (JObj [(''issue_id'', i), (''to_state'', JStr s), (''actor_role'', JStr role)]) st \<and>
    t_transition net c (JObj [(''issue_id'', i), (''to_state'', JStr s), (''actor_role'', JStr other)]) st =
      (st, Inl PermissionError)"
proof -
  have s: "s \<noteq> []" using assms(1) by (auto simp: MCP_TRANSITION_AUTH_def split: if_splits)
  have roles: "member_of (JStr r) (map JStr rs) = Inr (r \<in> set rs)" for r
    by (auto simp: member_of_def list_ex_iff)
  let ?patch = "api net ''PATCH'' (work_item c i) (Some (JObj [(''state'', JStr (x # sid))])) st'"
  have "t_update_issue net c (JObj [(''issue_id'', i), (''state'', JStr s)]) st = ?patch"
    using s assms(4) by (simp add: t_update_issue_def present_field_def state_field_def aget_def arg_def index_key_def then_do_Inr)
  moreover have "t_transition net c (JObj [(''issue_id'', i), (''to_state'', JStr s), (''actor_role'', JStr role)]) st = ?patch"
    using assms(1,2,4) by (simp add: t_transition_def arg_def index_key_def allowed_roles_def roles then_do_Inr)
  moreover have "t_transition net c (JObj [(''issue_id'', i), (''to_state'', JStr s), (''actor_role'', JStr other)]) st =
      (st, Inl PermissionError)"
    using assms(1,3) by (simp add: t_transition_def arg_def index_key_def allowed_roles_def roles refuse_def)
  ultimately show ?thesis by simp
qed

definition known_states :: "'w \<Rightarrow> 'w mcp" where
  "known_states w = \<lparr>mc_world = w, mc_sent = [], mc_states = Some [(JStr ''Done'', JStr ''d1'')]\<rparr>"

lemma known_states_simps [simp]: "mc_sent (known_states w) = []" "mc_states (known_states w) = Some [(JStr ''Done'', JStr ''d1'')]"
  by (simp_all add: known_states_def)

lemma resolve_done: "resolve_state net c (JStr ''Done'') (known_states w) = (known_states w, Inr (JStr ''d1''))"
  by (simp add: resolve_state_def states_map_def known_states_def then_do_def member_of_def pget_def)

theorem update_bypasses_authority_witness:
  "t_update_issue lossy sample_config (JObj [(''issue_id'', JStr ''i''), (''state'', JStr ''Done'')]) (known_states []) =
      t_transition lossy sample_config (JObj [(''issue_id'', JStr ''i''), (''to_state'', JStr ''Done''), (''actor_role'', JStr ''verifier'')])
        (known_states []) \<and>
    t_transition lossy sample_config (JObj [(''issue_id'', JStr ''i''), (''to_state'', JStr ''Done''), (''actor_role'', JStr ''implementer'')])
        (known_states []) = (known_states [], Inl PermissionError)"
  by (rule update_bypasses_authority [of _ "[''verifier'']", OF _ _ _ resolve_done]) (simp_all add: MCP_TRANSITION_AUTH_def)

text \<open>
  The transition tool believes the role it is told and does not look where the item is: with the
  states known, a call with an authorised role sends the move and nothing else, from whatever state
  and with no secret, although the board client refuses such a role without its secret.
\<close>

theorem claimed_role_is_enough:
  assumes "map_of MCP_TRANSITION_AUTH s = Some rs" "role \<in> set rs" "role \<in> set PRIVILEGED"
    and "mc_states st = Some m" "resolve_state net c (JStr s) st = (st', Inr (JStr (x # sid)))"
    and "t_transition net c (JObj [(''issue_id'', i), (''to_state'', JStr s), (''actor_role'', JStr role)]) st = (st'', r)"
  shows "(\<exists>n. 0 < n \<and> n \<le> 6 \<and> mc_sent st'' = mc_sent st @
      replicate n (''PATCH'', work_item c i, Some (JObj [(''state'', JStr (x # sid))]))) \<and>
    check_actor (\<lambda>_. None) role s = Inl PermissionError"
proof
  have roles: "member_of (JStr r) (map JStr rs) = Inr (r \<in> set rs)" for r
    by (auto simp: member_of_def list_ex_iff)
  have "st' = st" using assms(4,5)
    by (auto simp: resolve_state_def states_map_def then_do_def pure_tool_def split: prod.splits sum.splits if_splits)
  then have "api net ''PATCH'' (work_item c i) (Some (JObj [(''state'', JStr (x # sid))])) st = (st'', r)"
    using assms(1,2,5,6) by (simp add: t_transition_def arg_def index_key_def allowed_roles_def roles then_do_Inr)
  from api_sends [OF this]
  show "\<exists>n. 0 < n \<and> n \<le> 6 \<and> mc_sent st'' = mc_sent st @
      replicate n (''PATCH'', work_item c i, Some (JObj [(''state'', JStr (x # sid))]))" .
  show "check_actor (\<lambda>_. None) role s = Inl PermissionError"
    using assms(1,3) by (auto simp: check_actor_def has_secret_def board_tables split: if_splits option.splits)
qed

theorem claimed_role_is_enough_witness:
  "\<exists>st'' n. fst (t_transition lossy sample_config (JObj [(''issue_id'', JStr ''i''), (''to_state'', JStr ''Done''),
      (''actor_role'', JStr ''verifier'')]) (known_states [])) = st'' \<and> 0 < n \<and>
    mc_sent st'' = replicate n (''PATCH'', work_item sample_config (JStr ''i''), Some (JObj [(''state'', JStr ''d1'')]))"
proof -
  let ?t = "t_transition lossy sample_config (JObj [(''issue_id'', JStr ''i''), (''to_state'', JStr ''Done''),
      (''actor_role'', JStr ''verifier'')]) (known_states [])"
  obtain st'' r where run: "?t = (st'', r)" by (cases ?t)
  have "map_of MCP_TRANSITION_AUTH ''Done'' = Some [''verifier'']" by (simp add: MCP_TRANSITION_AUTH_def)
  from claimed_role_is_enough [OF this _ _ _ resolve_done run] show ?thesis
    by (auto simp: run PRIVILEGED_def)
qed

text \<open>
  The values of an evidence record are not escaped on this way to the board: two different records
  are the same comment.
\<close>

theorem mcp_evidence_not_escaped:
  "mcp_evidence_html (JStr ''verifier'') [JStr ''t'', JStr ''n'', JStr ''h</li><li><code>collected_at</code>: c'', JStr ''x''] =
     mcp_evidence_html (JStr ''verifier'') [JStr ''t'', JStr ''n'', JStr ''h'', JStr ''c</li><li><code>collected_at</code>: x'']"
  by (simp add: mcp_evidence_html_def)

subsection \<open>Replies\<close>

lemma map_of_key: "map_of d k = Some v \<Longrightarrow> k \<in> fst ` set d"
  using map_of_SomeD by force

lemma handle_call_reply:
  assumes "handle_call wd trunc net c mid params st = (st', Inr rs)"
  shows "\<exists>d. rs = [JObj d] \<and> dget d ''id'' = mid"
  using assms unfolding handle_call_def
  by (elim then_do_cases) (auto simp: reply_def reply_error_def split: prod.splits sum.splits option.splits)

lemma handle_reply:
  assumes "handle wd trunc net c (JObj d) st = (st', Inr rs)" "map_of d ''id'' = Some i"
    and "dget d ''method'' \<notin> {JStr ''notifications/initialized'', JStr ''initialized''}"
  shows "\<exists>r. rs = [JObj r] \<and> dget r ''id'' = i"
proof -
  have i: "dget d ''id'' = i" "''id'' \<in> fst ` set d"
    using assms(2) map_of_key [OF assms(2)] by (simp_all add: dget_def dget_or_def)
  from assms(1,3) i show ?thesis
    by (auto simp: handle_def Let_def reply_def reply_error_def pure_tool_def lift_py_def py_bind_Inr_iff
        split: if_splits sum.splits dest!: handle_call_reply)
qed

text \<open>
  C35. Every request of the client, an object with an identifier, other than the notification that
  follows the handshake, gets exactly one reply, and it carries the identifier, whatever the tool,
  the board or a malformed argument does.
\<close>

theorem one_reply_per_request:
  assumes "loads (strip line) = Some (JObj d)" "map_of d ''id'' = Some i"
    and "dget d ''method'' \<notin> {JStr ''notifications/initialized'', JStr ''initialized''}"
  shows "\<exists>st' r. serve_line wd trunc net c line st = (st', Inr [JObj r]) \<and> dget r ''id'' = i"
proof -
  have ne: "strip line \<noteq> []" using assms(1) by (auto simp: loads_def)
  obtain st' res where run: "handle wd trunc net c (JObj d) st = (st', res)" by (cases "handle wd trunc net c (JObj d) st")
  show ?thesis
  proof (cases res)
    case (Inr rs)
    with handle_reply [OF run [unfolded Inr] assms(2,3)] show ?thesis
      using ne assms(1) run by (auto simp: serve_line_def)
  next
    case (Inl e)
    from map_of_key [OF assms(2)] show ?thesis
      using ne assms(1,2) run Inl by (simp add: serve_line_def crash_reply_def has_id_def index_key_def reply_error_def)
  qed
qed

definition ping_line :: string where
  "ping_line = dumps_spaced True (JObj [(''method'', JStr ''ping''), (''id'', JInt 7)])"

theorem one_reply_per_request_witness:
  "\<exists>st' r. serve_line (\<lambda>e. []) (\<lambda>r. Inl ValueError) lossy sample_config ping_line (empty_session []) = (st', Inr [JObj r]) \<and>
    dget r ''id'' = JInt 7"
proof -
  have "loads (strip ping_line) = Some (JObj [(''method'', JStr ''ping''), (''id'', JInt 7)])" by code_simp
  then show ?thesis by (rule one_reply_per_request) simp_all
qed

text \<open>
  One line that is a JSON number, truth value or null ends the server: it and the lines after it get no
  answer and send nothing.
\<close>

theorem scalar_line_ends_server:
  assumes "loads (strip line) = Some v" "(is_dict v \<or> is_list v \<or> is_str v) = False"
  shows "serve wd trunc net c (line # lines) st = (st, [])"
proof -
  have "strip line \<noteq> []" using assms(1) by (auto simp: loads_def)
  then have "serve_line wd trunc net c line st = (st, Inl TypeError)"
    using assms by (cases v) (simp_all add: serve_line_def handle_def pure_tool_def lift_py_def crash_reply_def has_id_def)
  then show ?thesis by simp
qed

theorem scalar_line_ends_server_witness:
  "serve (\<lambda>e. []) (\<lambda>r. Inl ValueError) lossy sample_config [''5'', ping_line] (empty_session []) = (empty_session [], [])"
proof -
  have "loads (strip ''5'') = Some (JInt 5)" by code_simp
  then show ?thesis by (rule scalar_line_ends_server) simp
qed

end
