(* ===== verification/Observability.thy ===== *)
theory Observability
  imports Json_Codec
begin

section \<open>Spans, forwarded decisions and reasoning loops\<close>

text \<open>
  \<open>tools/observability.py\<close> without the optional SDK: the span of a model call, the span of a gate's
  decision, the signature of a tool call and the detector of repeated calls. A span is the
  dictionary of the code as a record; the flag \<open>forwarded\<close> is absent on a plain span. Arguments are
  JSON values, so the fallback of the encoder for other objects does not occur.
\<close>

subsection \<open>Spans\<close>

definition REASONING_LOOP_K :: int where
  "REASONING_LOOP_K = 3"

definition REQUIREMENT_ID_BAGGAGE_KEY :: string where
  "REQUIREMENT_ID_BAGGAGE_KEY = ''requirement.id''"

definition GATE_MAKING_EVENTS :: "string list" where
  "GATE_MAKING_EVENTS = [''Stop'', ''PreToolUse'', ''SubagentStop'']"

definition GATE_DECISION_VALUES :: "string list" where
  "GATE_DECISION_VALUES = [''allow'', ''block'']"

record span =
  sp_name :: string
  sp_kind :: string
  sp_attributes :: dict
  sp_baggage :: dict
  sp_forwarded :: "bool option"

definition has_requirement :: "json \<Rightarrow> bool" where
  "has_requirement rid = (rid \<noteq> JNull \<and> strip (py_str rid) \<noteq> [])"

definition build_span :: "string \<Rightarrow> json \<Rightarrow> dict \<Rightarrow> span" where
  "build_span name rid attrs =
     (let sp = \<lparr>sp_name = name, sp_kind = ''INTERNAL'', sp_attributes = attrs, sp_baggage = [], sp_forwarded = None\<rparr> in
      if has_requirement rid
      then sp\<lparr>sp_baggage := [(REQUIREMENT_ID_BAGGAGE_KEY, JStr (py_str rid))],
              sp_attributes := dset attrs REQUIREMENT_ID_BAGGAGE_KEY (JStr (py_str rid))\<rparr>
      else sp)"

definition build_reasoning_span :: "string \<Rightarrow> json \<Rightarrow> dict \<Rightarrow> span" where
  "build_reasoning_span name rid attrs = (let sp = build_span name rid attrs in
     sp\<lparr>sp_attributes := dset (sp_attributes sp) ''claude.span.kind'' (JStr ''reasoning'')\<rparr>)"

definition decision_of :: "json \<Rightarrow> string" where
  "decision_of d = lower_latin (strip (py_str d))"

definition or_empty :: "json \<Rightarrow> json" where
  "or_empty v = (if v = JNull then JStr [] else v)"

definition forward_hook_decision :: "string \<Rightarrow> json \<Rightarrow> json \<Rightarrow> json \<Rightarrow> json \<Rightarrow> span" where
  "forward_hook_decision event tool decision reason rid =
     (if \<not> (event \<in> set GATE_MAKING_EVENTS \<and> decision_of decision \<in> set GATE_DECISION_VALUES)
      then (let sp = build_span ''hook.non_decision'' rid [] in
        sp\<lparr>sp_attributes := dset (sp_attributes sp) ''hook.event'' (JStr event), sp_forwarded := Some False\<rparr>)
      else (let sp = build_span ''hook.decision'' rid [] in
        sp\<lparr>sp_attributes := dset (dset (dset (dset (sp_attributes sp) ''hook.event'' (JStr event)) ''tool.name'' (or_empty tool))
              ''decision'' (JStr (decision_of decision))) ''reason'' (or_empty reason),
           sp_forwarded := Some True\<rparr>))"

text \<open>The requirement of a span is never blank, and its baggage and attribute agree.\<close>

lemma build_span_requirement:
  "map_of (sp_baggage (build_span name rid attrs)) REQUIREMENT_ID_BAGGAGE_KEY =
     (if has_requirement rid then Some (JStr (py_str rid)) else None)"
  by (simp add: build_span_def Let_def)

text \<open>
  A decision is forwarded exactly for a gate-making event with a decision that reads allow or block;
  only then does the span carry a decision, which is that word, and with a requirement the span
  names it in its baggage and its attributes alike.
\<close>

theorem forwarded_iff:
  "(sp_forwarded (forward_hook_decision event tool decision reason rid) = Some True \<longleftrightarrow>
      event \<in> set GATE_MAKING_EVENTS \<and> decision_of decision \<in> set GATE_DECISION_VALUES) \<and>
   dget (sp_attributes (forward_hook_decision event tool decision reason rid)) ''decision'' =
      (if event \<in> set GATE_MAKING_EVENTS \<and> decision_of decision \<in> set GATE_DECISION_VALUES
       then JStr (decision_of decision) else JNull) \<and>
   dget (sp_attributes (forward_hook_decision event tool decision reason rid)) REQUIREMENT_ID_BAGGAGE_KEY =
      dget (sp_baggage (forward_hook_decision event tool decision reason rid)) REQUIREMENT_ID_BAGGAGE_KEY"
  by (simp add: forward_hook_decision_def build_span_def Let_def REQUIREMENT_ID_BAGGAGE_KEY_def)

subsection \<open>Signatures\<close>

definition reasoning_loop_signature :: "string \<Rightarrow> json \<Rightarrow> string" where
  "reasoning_loop_signature tool args =
     tool @ ''::'' @ dumps_sorted False (if args = JNull then JObj [] else args)"

function detect_runs :: "nat \<Rightarrow> string list \<Rightarrow> bool \<times> string option \<times> nat" where
  "detect_runs threshold [] = (False, None, 0)"
| "detect_runs threshold (s # rest) =
     (let run = Suc (length (takeWhile (\<lambda>t. t = s) rest)) in
      if threshold \<le> run then (True, Some s, run) else detect_runs threshold (dropWhile (\<lambda>t. t = s) rest))"
  by pat_completeness auto
termination by (relation "measure (\<lambda>(k, xs). length xs)") (auto simp: le_imp_less_Suc length_dropWhile_le)

definition detect_reasoning_loop :: "string list \<Rightarrow> int \<Rightarrow> bool \<times> string option \<times> nat" where
  "detect_reasoning_loop signatures k = detect_runs (nat (max 1 k)) signatures"

subsection \<open>What the detector finds\<close>

text \<open>Some signature occurs that many times in a row.\<close>

definition repeats :: "nat \<Rightarrow> 'a list \<Rightarrow> bool" where
  "repeats n xs = (\<exists>pre s post. xs = pre @ replicate n s @ post)"

lemma repeats_run:
  assumes "n \<le> length (takeWhile (\<lambda>t. t = s) xs)"
  shows "repeats n xs"
proof -
  let ?m = "length (takeWhile (\<lambda>t. t = s) xs)"
  have "takeWhile (\<lambda>t. t = s) xs = replicate ?m s" by (induction xs) auto
  then have "xs = replicate ?m s @ dropWhile (\<lambda>t. t = s) xs" using takeWhile_dropWhile_id [of "\<lambda>t. t = s" xs] by simp
  moreover have "replicate ?m s = replicate n s @ replicate (?m - n) s"
    using assms by (simp add: replicate_add [symmetric])
  ultimately have "xs = [] @ replicate n s @ (replicate (?m - n) s @ dropWhile (\<lambda>t. t = s) xs)" by simp
  then show ?thesis unfolding repeats_def by blast
qed

text \<open>A run shorter than the threshold takes no part in a repetition.\<close>

lemma repeats_skip:
  assumes "repeats n xs" "length (takeWhile (\<lambda>t. t = hd xs) xs) < n"
  shows "repeats n (dropWhile (\<lambda>t. t = hd xs) xs)"
  using assms
proof -
  from assms(1) obtain pre s post where xs: "xs = pre @ replicate n s @ post" by (auto simp: repeats_def)
  have n: "0 < n" using assms(2) by simp
  let ?p = "\<lambda>t. t = hd xs"
  show ?thesis
  proof (cases "list_all ?p pre")
    case True
    have "\<not> ?p s"
    proof
      assume "?p s"
      with True have "list_all ?p (pre @ replicate n s)" by (auto simp: list_all_iff)
      then have "takeWhile ?p xs = (pre @ replicate n s) @ takeWhile ?p post"
        unfolding xs append_assoc [symmetric] by (intro takeWhile_append2) (auto simp: list_all_iff)
      with assms(2) show False by simp
    qed
    with n have "dropWhile ?p (replicate n s @ post) = replicate n s @ post" by (cases n) simp_all
    moreover have "dropWhile ?p (pre @ (replicate n s @ post)) = dropWhile ?p (replicate n s @ post)"
      using True by (intro dropWhile_append2) (auto simp: list_all_iff)
    then have "dropWhile ?p xs = dropWhile ?p (replicate n s @ post)"
      using arg_cong [OF xs, of "dropWhile ?p"] by (rule trans [rotated])
    ultimately show ?thesis unfolding repeats_def by (metis append_Nil)
  next
    case False
    then obtain x where "x \<in> set pre" "\<not> ?p x" by (auto simp: list_all_iff)
    then have "dropWhile ?p (pre @ (replicate n s @ post)) = dropWhile ?p pre @ replicate n s @ post"
      by (rule dropWhile_append1)
    then have "dropWhile ?p xs = dropWhile ?p pre @ replicate n s @ post"
      using arg_cong [OF xs, of "dropWhile ?p"] by (rule trans [rotated])
    then show ?thesis unfolding repeats_def by blast
  qed
qed

lemma repeats_dropWhile: "repeats n (dropWhile p xs) \<Longrightarrow> repeats n xs"
  unfolding repeats_def by (metis append.assoc takeWhile_dropWhile_id)

lemma detect_runs_iff: "0 < k \<Longrightarrow> fst (detect_runs k xs) \<longleftrightarrow> repeats k xs"
proof (induction k xs rule: detect_runs.induct)
  case (1 k)
  then show ?case by (simp add: repeats_def)
next
  case (2 k s rest)
  let ?run = "Suc (length (takeWhile (\<lambda>t. t = s) rest))"
  show ?case
  proof (cases "k \<le> ?run")
    case True
    then show ?thesis using repeats_run [of k s "s # rest"] by (simp add: Let_def)
  next
    case False
    then have "repeats k (s # rest) \<longleftrightarrow> repeats k (dropWhile (\<lambda>t. t = s) rest)"
      using repeats_skip [of k "s # rest"] repeats_dropWhile [of k "\<lambda>t. t = s" "s # rest"] by auto
    then show ?thesis using False 2 by (simp add: Let_def)
  qed
qed

text \<open>Two calls have one signature when the tool is the same and the arguments agree up to the order of
  keys.\<close>

definition same_call :: "string \<times> json \<Rightarrow> string \<times> json \<Rightarrow> bool" where
  "same_call c c' = (fst c = fst c' \<and> sort_json (snd c) = sort_json (snd c'))"

definition good_call :: "string \<times> json \<Rightarrow> bool" where
  "good_call c = (CHR '':'' \<notin> set (fst c) \<and> is_dict (snd c) \<and> wf_json (snd c))"

lemma split_at_colon:
  assumes "CHR '':'' \<notin> set t" "CHR '':'' \<notin> set u" "t @ '':'' @ a = u @ '':'' @ b"
  shows "t = u \<and> a = b"
proof -
  have plain: "takeWhile (\<lambda>c. c \<noteq> CHR '':'') (v @ '':'' @ w) = v" if "CHR '':'' \<notin> set v" for v w
  proof -
    have "list_all (\<lambda>c. c \<noteq> CHR '':'') v" using that by (auto simp: list_all_iff)
    from takeWhile_plain(1) [OF this, of "'':'' @ w"] show ?thesis by simp
  qed
  have "takeWhile (\<lambda>c. c \<noteq> CHR '':'') (t @ '':'' @ a) = t" "takeWhile (\<lambda>c. c \<noteq> CHR '':'') (u @ '':'' @ b) = u"
    by (rule plain [OF assms(1)], rule plain [OF assms(2)])
  with assms(3) show ?thesis by simp
qed

lemma signature_eq:
  assumes "good_call c" "good_call c'"
  shows "reasoning_loop_signature (fst c) (snd c) = reasoning_loop_signature (fst c') (snd c') \<longleftrightarrow> same_call c c'"
proof -
  have d: "snd c \<noteq> JNull" "snd c' \<noteq> JNull" using assms by (auto simp: good_call_def)
  show ?thesis
    using assms split_at_colon [of "fst c" "fst c'" "'':'' @ dumps_sorted False (snd c)" "'':'' @ dumps_sorted False (snd c')"]
    by (auto simp: reasoning_loop_signature_def d same_call_def good_call_def dumps_sorted_inject)
qed

text \<open>
  C36. For tool calls with JSON arguments and ordinary tool names, the detector fires exactly when, some
  time, as many calls in a row as the threshold (three by default, never less than one) were the
  same call up to the order of keys in their arguments.
\<close>

theorem loop_detected_iff:
  assumes "list_all good_call calls"
  shows "fst (detect_reasoning_loop (map (\<lambda>c. reasoning_loop_signature (fst c) (snd c)) calls) k) \<longleftrightarrow>
    (\<exists>pre run post. calls = pre @ run @ post \<and> length run = nat (max 1 k) \<and> (\<forall>c c'. {c, c'} \<subseteq> set run \<longrightarrow> same_call c c'))"
proof -
  let ?sig = "\<lambda>c. reasoning_loop_signature (fst c) (snd c)"
  let ?n = "nat (max 1 k)"
  have n: "0 < ?n" by simp
  have eq: "?sig c = ?sig c' \<longleftrightarrow> same_call c c'" if "c \<in> set calls" "c' \<in> set calls" for c c'
    using that assms signature_eq by (simp add: list_all_iff)
  have "repeats ?n (map ?sig calls) \<longleftrightarrow> (\<exists>pre run post. calls = pre @ run @ post \<and> length run = ?n \<and>
      (\<forall>c c'. {c, c'} \<subseteq> set run \<longrightarrow> same_call c c'))"
  proof
    assume "repeats ?n (map ?sig calls)"
    then obtain a s b where "map ?sig calls = a @ (replicate ?n s @ b)" by (auto simp: repeats_def)
    from iffD1 [OF map_eq_append_conv this] obtain pre rest where p: "calls = pre @ rest" "map ?sig rest = replicate ?n s @ b"
      by (elim exE conjE) (rule that, assumption, erule sym)
    from iffD1 [OF map_eq_append_conv p(2)] obtain run post where "rest = run @ post" and r: "map ?sig run = replicate ?n s"
      by (elim exE conjE) (rule that, assumption, erule sym)
    with p(1) have c: "calls = pre @ run @ post" by simp
    have "same_call c c'" if "{c, c'} \<subseteq> set run" for c c'
    proof -
      have "?sig ` set run \<subseteq> {s}" using arg_cong [OF r, of set] by (auto simp: set_replicate_conv_if)
      with that eq [of c c'] c show ?thesis by auto
    qed
    moreover have "length run = ?n" using arg_cong [OF r, of length] by simp
    ultimately show "\<exists>pre run post. calls = pre @ run @ post \<and> length run = ?n \<and>
        (\<forall>c c'. {c, c'} \<subseteq> set run \<longrightarrow> same_call c c')" using c by blast
  next
    assume "\<exists>pre run post. calls = pre @ run @ post \<and> length run = ?n \<and> (\<forall>c c'. {c, c'} \<subseteq> set run \<longrightarrow> same_call c c')"
    then obtain pre run post where c: "calls = pre @ run @ post" "length run = ?n"
      and same: "\<And>c c'. {c, c'} \<subseteq> set run \<Longrightarrow> same_call c c'" by blast
    have "?sig x = ?sig (hd run)" if x: "x \<in> set run" for x
    proof -
      have h: "hd run \<in> set run" using x by (cases run) auto
      with x same [of x "hd run"] eq [of x "hd run"] c(1) show ?thesis by simp
    qed
    then have "map ?sig run = map (\<lambda>x. ?sig (hd run)) run" by (intro map_cong) simp_all
    then have "map ?sig run = replicate ?n (?sig (hd run))" by (simp add: map_replicate_const c(2))
    with c(1) show "repeats ?n (map ?sig calls)" unfolding repeats_def by auto
  qed
  then show ?thesis by (simp add: detect_reasoning_loop_def detect_runs_iff [OF n])
qed

definition sample_calls :: "(string \<times> json) list" where
  "sample_calls = [(''Bash'', JObj [(''a'', JInt 1), (''b'', JNull)]), (''Bash'', JObj [(''b'', JNull), (''a'', JInt 1)]),
     (''Bash'', JObj [(''a'', JInt 1), (''b'', JNull)])]"

theorem loop_detected_iff_witness:
  "fst (detect_reasoning_loop (map (\<lambda>c. reasoning_loop_signature (fst c) (snd c)) sample_calls) REASONING_LOOP_K)"
proof -
  have good: "list_all good_call sample_calls" by (simp add: sample_calls_def good_call_def)
  have same: "{c, c'} \<subseteq> set sample_calls \<Longrightarrow> same_call c c'" for c c'
    by (auto simp: sample_calls_def same_call_def)
  have "sample_calls = [] @ sample_calls @ []" "length sample_calls = nat (max 1 REASONING_LOOP_K)"
    by (simp_all add: sample_calls_def REASONING_LOOP_K_def)
  with loop_detected_iff [OF good, of REASONING_LOOP_K] same show ?thesis by blast
qed

end
