(* ===== verification/Fifth_Layer.thy ===== *)
theory Fifth_Layer
  imports Req_Scan
begin

section \<open>The verifier's fifth layer\<close>

text \<open>
  \<open>tools/perf_a11y_verifier.py\<close>: measured metrics against budgets, an accessibility report, the
  render evidence of a screen's states, and the dispatch on the subtype of an item. Verdicts are the
  dictionaries that the code returns. How a float compares is an argument; integers compare as such.
\<close>

definition REQUIRED_DECLARED_STATES :: "string list" where
  "REQUIRED_DECLARED_STATES = [''empty'', ''error'', ''loading'', ''ready'']"

definition RENDER_ASSERTION_EVIDENCE_KINDS :: "string list" where
  "RENDER_ASSERTION_EVIDENCE_KINDS = [''behavioral'', ''integration'']"

subsection \<open>Performance\<close>

fun is_real_number :: "json \<Rightarrow> bool" where
  "is_real_number (JInt i) = True"
| "is_real_number (JFloat r) = True"
| "is_real_number _ = False"

type_synonym float_order = "json \<Rightarrow> json \<Rightarrow> bool"

definition exceeds :: "float_order \<Rightarrow> json \<Rightarrow> json \<Rightarrow> bool" where
  "exceeds gt m b = (case (m, b) of (JInt i, JInt j) \<Rightarrow> j < i | _ \<Rightarrow> gt m b)"

definition budget_violation :: "string \<Rightarrow> json \<Rightarrow> json \<Rightarrow> string \<Rightarrow> json" where
  "budget_violation metric measured budget reason = JObj [(''metric'', JStr metric), (''measured'', measured),
     (''budget'', budget), (''reason'', JStr reason)]"

definition check_budget :: "float_order \<Rightarrow> dict \<Rightarrow> string \<times> json \<Rightarrow> json list" where
  "check_budget gt metrics mb = (case mb of (metric, budget) \<Rightarrow>
     (let measured = dget metrics metric in
      if \<not> is_real_number budget then [budget_violation metric measured budget ''budget value is not numeric'']
      else if metric \<notin> fst ` set metrics
      then [budget_violation metric JNull budget ''metric has a budget but no measured value'']
      else if \<not> is_real_number measured
      then [budget_violation metric measured budget ''measured value is not numeric'']
      else if exceeds gt measured budget
      then [budget_violation metric measured budget ''measured value exceeds budget'']
      else []))"

definition verify_performance :: "float_order \<Rightarrow> json \<Rightarrow> json \<Rightarrow> dict" where
  "verify_performance gt metrics budgets = (case budgets of
     JObj bs \<Rightarrow> (let vs = concat (map (check_budget gt (case metrics of JObj d \<Rightarrow> d | _ \<Rightarrow> [])) bs) in
       [(''passed'', JBool (vs = [])), (''violations'', JList vs)])
   | _ \<Rightarrow> [(''passed'', JBool False), (''violations'', JList [JObj [(''metric'', JNull), (''measured'', JNull), (''budget'', JNull),
       (''reason'', JStr ''budgets is not a mapping; cannot evaluate perf budgets'')]])])"

subsection \<open>Accessibility\<close>

definition texts_of :: "json \<Rightarrow> string list" where
  "texts_of v = (case v of JList xs \<Rightarrow> map py_str (filter is_str xs) | _ \<Rightarrow> [])"

definition wcag_level_from_tags :: "json \<Rightarrow> json" where
  "wcag_level_from_tags tags =
     (if list_ex (\<lambda>t. t \<in> {''wcag2aa'', ''wcag21aa'', ''wcag22aa''}) (texts_of tags) then JStr ''AA''
      else if list_ex (\<lambda>t. t \<in> {''wcag2a'', ''wcag21a'', ''wcag22a''}) (texts_of tags) then JStr ''A''
      else JNull)"

definition summarize_axe_violation :: "json \<Rightarrow> dict" where
  "summarize_axe_violation entry = (case entry of
     JObj d \<Rightarrow> [(''id'', dget d ''id''), (''impact'', dget d ''impact''),
       (''wcag_level'', wcag_level_from_tags (dget_or d ''tags'' (JList []))),
       (''tags'', JList (map JStr (texts_of (dget_or d ''tags'' (JList []))))),
       (''node_count'', JInt (case dget_or d ''nodes'' (JList []) of JList ns \<Rightarrow> int (length ns) | _ \<Rightarrow> 0))]
   | _ \<Rightarrow> [(''id'', JNull), (''impact'', JNull), (''wcag_level'', JNull), (''tags'', JList []), (''node_count'', JInt 0)])"

definition gating :: "dict \<Rightarrow> bool" where
  "gating s = (dget s ''wcag_level'' = JStr ''A'' \<or> dget s ''wcag_level'' = JStr ''AA'')"

definition unreadable_report :: "string \<Rightarrow> dict" where
  "unreadable_report reason = [(''passed'', JBool False), (''violations'', JList []), (''non_gating'', JList []),
     (''reason'', JStr reason)]"

definition verify_accessibility :: "json \<Rightarrow> dict" where
  "verify_accessibility axe_results = (case axe_results of
     JObj d \<Rightarrow> (case dget_or d ''violations'' (JList []) of
         JList raw \<Rightarrow> (let ss = map summarize_axe_violation raw in
           [(''passed'', JBool (filter gating ss = [])), (''violations'', JList (map JObj (filter gating ss))),
            (''non_gating'', JList (map JObj (filter (\<lambda>s. \<not> gating s) ss)))])
       | _ \<Rightarrow> unreadable_report ''axe_results.violations is not a list; malformed axe report'')
   | _ \<Rightarrow> unreadable_report ''axe_results is not a mapping; cannot evaluate accessibility'')"

subsection \<open>Screens\<close>

definition state_name :: "dict \<Rightarrow> string option" where
  "state_name d = (let s = (case dget d ''state'' of JStr s \<Rightarrow> if s = [] then dget d ''test_name'' else JStr s
       | _ \<Rightarrow> dget d ''test_name'') in
     case s of JStr t \<Rightarrow> (if t = [] then None else Some t) | _ \<Rightarrow> None)"

text \<open>The kinds of evidence for each state, in the order of the records.\<close>

definition index_render_evidence_by_state :: "json \<Rightarrow> string \<Rightarrow> json list" where
  "index_render_evidence_by_state evidence state = (case evidence of
     JList rs \<Rightarrow> concat (map (\<lambda>r. case r of JObj d \<Rightarrow> (if state_name d = Some state then [dget d ''evidence_kind''] else [])
       | _ \<Rightarrow> []) rs)
   | _ \<Rightarrow> [])"

text \<open>\<open>any(k in KINDS for k in kinds)\<close>: a kind that cannot be hashed raises unless an earlier one decides.\<close>

fun any_render_kind :: "json list \<Rightarrow> bool py" where
  "any_render_kind [] = Inr False"
| "any_render_kind (k # ks) = py_bind (member_of k (map JStr RENDER_ASSERTION_EVIDENCE_KINDS)) (\<lambda>b.
     if b then Inr True else any_render_kind ks)"

definition state_violation :: "string \<Rightarrow> string \<Rightarrow> string \<Rightarrow> json" where
  "state_violation state kind reason = JObj [(''state'', JStr state), (''kind'', JStr kind), (''reason'', JStr reason)]"

definition check_state :: "string list \<Rightarrow> json \<Rightarrow> string \<Rightarrow> json list py" where
  "check_state declared evidence state =
     (let missing = (if state \<in> set REQUIRED_DECLARED_STATES \<and> state \<notin> set declared
           then [state_violation state ''missing_required_state'' ''required ui-screen state is not present in declared_states'']
           else []);
          kinds = index_render_evidence_by_state evidence state in
      if kinds = []
      then Inr (missing @ [state_violation state ''missing_render_evidence''
        ''declared state has no attached render-assertion Evidence_Record''])
      else py_bind (any_render_kind kinds) (\<lambda>b. Inr (missing @ (if b then [] else
        [state_violation state ''wrong_evidence_kind''
          (''render evidence_kind must be behavioral/integration (Playwright render assertion), not perf/a11y/unit; got '' @
           join '', '' (sort (remdups (map py_str kinds))))]))))"

definition verify_ui_screen :: "json \<Rightarrow> dict py" where
  "verify_ui_screen item = (case item of
     JObj d \<Rightarrow> (let declared = texts_of (dget_or d ''declared_states'' (JList []));
          states = first_seen (declared @ REQUIRED_DECLARED_STATES) in
       py_bind (py_map (check_state declared (dget_or d ''evidence'' (JList []))) states) (\<lambda>vs.
         Inr [(''passed'', JBool (concat vs = [])), (''violations'', JList (concat vs)),
              (''states'', JObj (zip states (map (\<lambda>v. JBool (v = [])) vs)))]))
   | _ \<Rightarrow> Inr [(''passed'', JBool False), (''violations'', JList [JObj [(''state'', JNull), (''kind'', JStr ''malformed_item''),
         (''reason'', JStr ''item is not a mapping; cannot evaluate ui-screen'')]]), (''states'', JObj [])])"

subsection \<open>Dispatch\<close>

definition unknown_subtype :: "json \<Rightarrow> dict" where
  "unknown_subtype subtype = [(''passed'', JBool False), (''violations'', JList []), (''subtype'', subtype),
     (''reason'', JStr (''unknown_subtype: expected one of '' @ repr_str ''performance'' @ ''/'' @ repr_str ''accessibility'' @
       ''/'' @ repr_str ''ui-screen''))]"

definition verify_item :: "float_order \<Rightarrow> json \<Rightarrow> json \<Rightarrow> dict py" where
  "verify_item gt item budgets = (case item of
     JObj d \<Rightarrow> (let subtype = dget d ''subtype'' in
       if subtype = JStr ''performance''
       then Inr (dset (verify_performance gt (dget_or d ''metrics'' (JObj []))
         (if budgets \<noteq> JNull then budgets else dget_or d ''budgets'' (JObj []))) ''subtype'' subtype)
       else if subtype = JStr ''accessibility''
       then Inr (dset (verify_accessibility (dget_or d ''axe_results'' (JObj []))) ''subtype'' subtype)
       else if subtype = JStr ''ui-screen''
       then py_bind (verify_ui_screen item) (\<lambda>r. Inr (dset r ''subtype'' subtype))
       else Inr (unknown_subtype subtype))
   | _ \<Rightarrow> Inr (unknown_subtype JNull))"

subsection \<open>What a pass proves\<close>

lemma check_budget_Nil:
  "check_budget gt metrics (metric, budget) = [] \<longleftrightarrow>
     is_real_number budget \<and> (\<exists>m. map_of metrics metric = Some m \<and> is_real_number m \<and> \<not> exceeds gt m budget)"
proof -
  have "metric \<in> fst ` set metrics \<longleftrightarrow> map_of metrics metric \<noteq> None" by (simp add: map_of_eq_None_iff)
  then show ?thesis by (auto simp: check_budget_def Let_def dget_def dget_or_def)
qed

text \<open>
  With integer measurements and budgets, a performance item passes exactly when every budgeted
  metric was measured and is within its budget, whatever else was measured.
\<close>

theorem performance_pass_iff:
  assumes "list_all (\<lambda>(k, b). \<exists>j. b = JInt j) budgets" "list_all (\<lambda>(k, m). \<exists>i. m = JInt i) metrics"
  shows "dget (verify_performance gt (JObj metrics) (JObj budgets)) ''passed'' = JBool True \<longleftrightarrow>
    {(k, j). (k, JInt j) \<in> set budgets} \<subseteq> {(k, j). \<exists>i. map_of metrics k = Some (JInt i) \<and> i \<le> j}"
proof -
  have int: "\<exists>i. m = JInt i" if "map_of metrics k = Some m" for k m
    using map_of_SomeD [OF that] assms(2) by (auto simp: list_all_iff)
  have "check_budget gt metrics (k, JInt j) = [] \<longleftrightarrow> (\<exists>i. map_of metrics k = Some (JInt i) \<and> i \<le> j)" for k j
    unfolding check_budget_Nil using int [of k] by (cases "map_of metrics k") (auto simp: exceeds_def)
  moreover have "dget (verify_performance gt (JObj metrics) (JObj budgets)) ''passed'' = JBool True \<longleftrightarrow>
      (\<forall>x \<in> set budgets. check_budget gt metrics x = [])"
    by (simp add: verify_performance_def Let_def)
  moreover have "x \<in> set budgets \<Longrightarrow> \<exists>k j. x = (k, JInt j)" for x
    using assms(1) by (auto simp: list_all_iff)
  ultimately show ?thesis by fastforce
qed

theorem performance_pass_iff_witness:
  "dget (verify_performance (\<lambda>_ _. True) (JObj [(''p95_ms'', JInt 180)]) (JObj [(''p95_ms'', JInt 200)])) ''passed'' = JBool True"
  using performance_pass_iff [of "[(''p95_ms'', JInt 200)]" "[(''p95_ms'', JInt 180)]" "\<lambda>_ _. True"] by auto

text \<open>
  A measurement that is not a number passes every budget: the comparison with NaN is false, and the
  check only asks whether the budget is exceeded.
\<close>

theorem nan_within_budget:
  assumes "\<And>b. gt (JFloat ''nan'') b = False" "is_real_number budget"
  shows "dget (verify_performance gt (JObj [(metric, JFloat ''nan'')]) (JObj [(metric, budget)])) ''passed'' = JBool True"
  using assms by (simp add: verify_performance_def check_budget_def exceeds_def Let_def split: json.splits)

theorem nan_within_budget_witness:
  "dget (verify_performance (\<lambda>m b. m \<noteq> JFloat ''nan'') (JObj [(''LCP'', JFloat ''nan'')]) (JObj [(''LCP'', JInt 2500)])) ''passed'' = JBool True"
  by (rule nan_within_budget) simp_all

text \<open>A rule that gates: its entry is an object whose tags are a list with a gating tag.\<close>

definition gating_entry :: "json \<Rightarrow> bool" where
  "gating_entry e = (\<exists>d tags t. e = JObj d \<and> map_of d ''tags'' = Some (JList tags) \<and> JStr t \<in> set tags \<and>
     t \<in> {''wcag2a'', ''wcag21a'', ''wcag22a'', ''wcag2aa'', ''wcag21aa'', ''wcag22aa''})"

lemma texts_of_mem: "t \<in> set (texts_of v) \<longleftrightarrow> (\<exists>xs. v = JList xs \<and> JStr t \<in> set xs)"
proof (cases v)
  case (JList xs)
  have "t \<in> py_str ` {x \<in> set xs. is_str x} \<longleftrightarrow> JStr t \<in> set xs"
    by (force elim!: is_str.elims)
  with JList show ?thesis by (simp add: texts_of_def)
qed (simp_all add: texts_of_def)

lemma gating_level:
  "wcag_level_from_tags tags \<in> {JStr ''A'', JStr ''AA''} \<longleftrightarrow>
     list_ex (\<lambda>t. t \<in> {''wcag2a'', ''wcag21a'', ''wcag22a'', ''wcag2aa'', ''wcag21aa'', ''wcag22aa''}) (texts_of tags)"
  unfolding wcag_level_from_tags_def list_ex_iff by auto

lemma gating_summary: "gating (summarize_axe_violation e) \<longleftrightarrow> gating_entry e"
proof (cases e)
  case (JObj d)
  have "gating (summarize_axe_violation e) \<longleftrightarrow> wcag_level_from_tags (dget_or d ''tags'' (JList [])) \<in> {JStr ''A'', JStr ''AA''}"
    by (simp add: JObj gating_def summarize_axe_violation_def)
  also have "\<dots> \<longleftrightarrow> gating_entry e"
    unfolding gating_level list_ex_iff Bex_def texts_of_mem gating_entry_def JObj
    by (cases "map_of d ''tags''") (auto simp: dget_or_def)
  finally show ?thesis .
qed (simp_all add: gating_def summarize_axe_violation_def gating_entry_def)

text \<open>
  An accessibility item passes exactly when its report has a list of violations, or none at all,
  and no entry of the list is an object with a WCAG A or AA tag; an entry that cannot be read never
  fails it.
\<close>

theorem accessibility_pass_iff:
  "dget (verify_accessibility v) ''passed'' = JBool True \<longleftrightarrow>
     (\<exists>d raw. v = JObj d \<and> dget_or d ''violations'' (JList []) = JList raw \<and> filter gating_entry raw = [])"
proof -
  have "filter gating (map summarize_axe_violation raw) = map summarize_axe_violation (filter gating_entry raw)" for raw
    by (simp add: filter_map comp_def gating_summary)
  then show ?thesis by (auto simp: verify_accessibility_def unreadable_report_def Let_def split: json.splits)
qed

subsection \<open>Screens that render\<close>

definition rendered :: "json list \<Rightarrow> string \<Rightarrow> bool" where
  "rendered records state = (\<exists>d k. JObj d \<in> set records \<and> state_name d = Some state \<and>
     dget d ''evidence_kind'' = JStr k \<and> k \<in> set RENDER_ASSERTION_EVIDENCE_KINDS)"

lemma any_render_kind_hashable:
  "list_all hashable ks \<Longrightarrow> any_render_kind ks = Inr (\<exists>k. JStr k \<in> set ks \<and> k \<in> set RENDER_ASSERTION_EVIDENCE_KINDS)"
proof (induction ks)
  case (Cons k ks)
  have "member_of k (map JStr RENDER_ASSERTION_EVIDENCE_KINDS) = Inr (\<exists>t. k = JStr t \<and> t \<in> set RENDER_ASSERTION_EVIDENCE_KINDS)"
    using Cons.prems by (auto simp: member_of_def list_ex_iff)
  with Cons show ?case by auto
qed simp

lemma kinds_of_state:
  "set (index_render_evidence_by_state (JList records) state) =
     {dget d ''evidence_kind'' | d. JObj d \<in> set records \<and> state_name d = Some state}"
  by (force simp: index_render_evidence_by_state_def split: json.splits if_splits)

text \<open>Kinds are texts or at least plain values.\<close>

definition plain_kinds :: "json list \<Rightarrow> bool" where
  "plain_kinds records = list_all (\<lambda>r. case r of JObj d \<Rightarrow> hashable (dget d ''evidence_kind'') | _ \<Rightarrow> True) records"

lemma check_state_Nil:
  assumes "plain_kinds records"
  shows "\<exists>vs. check_state declared (JList records) state = Inr vs \<and>
    (vs = [] \<longleftrightarrow> rendered records state \<and> (state \<in> set REQUIRED_DECLARED_STATES \<longrightarrow> state \<in> set declared))"
proof -
  let ?ks = "index_render_evidence_by_state (JList records) state"
  have h: "list_all hashable ?ks"
    unfolding list_all_iff kinds_of_state using assms by (force simp: plain_kinds_def list_all_iff)
  have r: "(\<exists>k. JStr k \<in> set ?ks \<and> k \<in> set RENDER_ASSERTION_EVIDENCE_KINDS) \<longleftrightarrow> rendered records state"
    unfolding kinds_of_state rendered_def by (auto simp: eq_commute)
  show ?thesis
  proof (cases "?ks = []")
    case True
    with r have "\<not> rendered records state" by auto
    with True show ?thesis by (simp add: check_state_def Let_def)
  next
    case False
    then show ?thesis
      using any_render_kind_hashable [OF h] r by (simp add: check_state_def Let_def)
  qed
qed

text \<open>
  When the kinds of the records are plain values, a screen passes exactly when it declares the
  four required states and each state it declares has a record of a behavioural or integration
  test; evidence of another kind never counts.
\<close>

theorem ui_screen_pass_iff:
  assumes "map_of d ''evidence'' = Some (JList records)" "plain_kinds records"
  shows "\<exists>verdict. verify_ui_screen (JObj d) = Inr verdict \<and>
    (dget verdict ''passed'' = JBool True \<longleftrightarrow>
      set REQUIRED_DECLARED_STATES \<subseteq> set (texts_of (dget d ''declared_states'')) \<and>
      set (texts_of (dget d ''declared_states'')) \<subseteq> {s. rendered records s})"
proof -
  let ?declared = "texts_of (dget_or d ''declared_states'' (JList []))"
  let ?states = "first_seen (?declared @ REQUIRED_DECLARED_STATES)"
  have same: "?declared = texts_of (dget d ''declared_states'')"
    by (simp add: texts_of_def dget_def dget_or_def split: option.splits)
  have ev: "dget_or d ''evidence'' (JList []) = JList records" using assms(1) by (simp add: dget_or_def)
  define vs where "vs s = projr (check_state ?declared (JList records) s)" for s
  have c: "check_state ?declared (JList records) s = Inr (vs s)"
    "vs s = [] \<longleftrightarrow> rendered records s \<and> (s \<in> set REQUIRED_DECLARED_STATES \<longrightarrow> s \<in> set ?declared)" for s
    using check_state_Nil [OF assms(2), of ?declared s] by (auto simp: vs_def)
  have "py_map (check_state ?declared (JList records)) ?states = Inr (map vs ?states)"
    by (rule py_map_total) (rule c(1))
  moreover have "concat (map vs ?states) = [] \<longleftrightarrow>
      set REQUIRED_DECLARED_STATES \<subseteq> set ?declared \<and> set ?declared \<subseteq> {s. rendered records s}"
    using c(2) by (auto simp: concat_map_Nil_iff)
  ultimately show ?thesis by (simp add: verify_ui_screen_def Let_def ev same [symmetric])
qed

definition render_record :: "string \<Rightarrow> json" where
  "render_record s = JObj [(''state'', JStr s), (''evidence_kind'', JStr ''behavioral'')]"

definition sample_screen :: dict where
  "sample_screen = [(''declared_states'', JList (map JStr REQUIRED_DECLARED_STATES)),
     (''evidence'', JList (map render_record REQUIRED_DECLARED_STATES))]"

theorem ui_screen_pass_iff_witness:
  "\<exists>verdict. verify_ui_screen (JObj sample_screen) = Inr verdict \<and> dget verdict ''passed'' = JBool True"
proof -
  have "map_of sample_screen ''evidence'' = Some (JList (map render_record REQUIRED_DECLARED_STATES))"
    "plain_kinds (map render_record REQUIRED_DECLARED_STATES)"
    by (simp_all add: sample_screen_def plain_kinds_def REQUIRED_DECLARED_STATES_def render_record_def)
  from ui_screen_pass_iff [OF this] obtain verdict where v: "verify_ui_screen (JObj sample_screen) = Inr verdict"
    "dget verdict ''passed'' = JBool True \<longleftrightarrow>
      set REQUIRED_DECLARED_STATES \<subseteq> set (texts_of (dget sample_screen ''declared_states'')) \<and>
      set (texts_of (dget sample_screen ''declared_states'')) \<subseteq> {s. rendered (map render_record REQUIRED_DECLARED_STATES) s}"
    by blast
  have "texts_of (dget sample_screen ''declared_states'') = REQUIRED_DECLARED_STATES"
    by (simp add: sample_screen_def texts_of_def comp_def)
  moreover have "rendered (map render_record REQUIRED_DECLARED_STATES) s" if "s \<in> set REQUIRED_DECLARED_STATES" for s
    using that by (auto simp: rendered_def render_record_def state_name_def REQUIRED_DECLARED_STATES_def
        RENDER_ASSERTION_EVIDENCE_KINDS_def intro!: exI [of _ "[(''state'', JStr s), (''evidence_kind'', JStr ''behavioral'')]"])
  ultimately show ?thesis using v by auto
qed

text \<open>
  An item whose subtype is none of the three, or that is no object, never passes, and says so.
\<close>

theorem unroutable_never_passes:
  assumes "item_subtype \<notin> {JStr ''performance'', JStr ''accessibility'', JStr ''ui-screen''}"
    and "item = JObj d \<and> dget d ''subtype'' = item_subtype"
  shows "\<exists>verdict. verify_item gt item budgets = Inr verdict \<and> dget verdict ''passed'' = JBool False"
  using assms by (auto simp: verify_item_def unknown_subtype_def)

end
