(* ===== verification/Depth_Feed.thy ===== *)
theory Depth_Feed
  imports Run_Loop Feature_List
begin

section \<open>The feed of the depth pillars\<close>

text \<open>
  \<open>tools/depth_feed.py\<close> and its use in \<open>gated_prove\<close> of \<open>plane-integration/the_loop.py\<close>: the commit to
  compare with, the changed files and the identifiers of the model, computed from \<open>git\<close> and the
  model's file. A \<open>git\<close> command that fails, times out or cannot be run gives no output.
\<close>

record depth_feed =
  fd_baseline :: "string option"
  fd_changed :: "string list"
  fd_known :: "json list"

definition id_of :: "json \<Rightarrow> json list" where
  "id_of i = (case i of JObj d \<Rightarrow> (case map_of d ''id'' of Some v \<Rightarrow> [v] | None \<Rightarrow> []) | _ \<Rightarrow> [])"

definition known_ids :: "model_file \<Rightarrow> json list py" where
  "known_ids file = (case file of
     Parsed model \<Rightarrow> py_bind (obj_get_or model ''items'' (JList [])) (\<lambda>its. py_bind (py_iter its) (\<lambda>xs.
       let ids = concat (map id_of xs) in if list_all hashable ids then Inr ids else Inl TypeError))
   | _ \<Rightarrow> Inr [])"

definition changed_since :: "git_process \<Rightarrow> string \<Rightarrow> string option \<times> string list" where
  "changed_since git ref = (case git [''merge-base'', ref, ''HEAD''] of
     None \<Rightarrow> (None, [])
   | Some out \<Rightarrow> (let base = strip out in
       if base = [] then (None, [])
       else case git [''diff'', ''--name-only'', base] of
         None \<Rightarrow> (Some base, [])
       | Some files \<Rightarrow> (Some base, filter (\<lambda>f. strip f \<noteq> []) (splitlines files))))"

definition compute_depth_feed :: "git_process \<Rightarrow> model_file \<Rightarrow> exec_bounds \<Rightarrow> string option \<Rightarrow> depth_feed py" where
  "compute_depth_feed git file bounds baseline_ref =
     (let ref = (case baseline_ref of None \<Rightarrow> ORPHAN_DETECTOR_BASELINE bounds | Some r \<Rightarrow> r) in
      py_bind (known_ids file) (\<lambda>ids. let change = changed_since git ref in
        Inr \<lparr>fd_baseline = fst change, fd_changed = snd change, fd_known = ids\<rparr>))"

text \<open>What \<open>gated_prove\<close> hands to the loop gate when it computes the feed: nothing when the feed raised.\<close>

definition fed_request :: "depth_feed py \<Rightarrow> advance_request \<Rightarrow> advance_request" where
  "fed_request feed q = (case feed of
     Inl e \<Rightarrow> q\<lparr>rq_changed := NoChange, rq_baseline := None, rq_known := []\<rparr>
   | Inr f \<Rightarrow> q\<lparr>rq_changed := Paths (fd_changed f), rq_baseline := fd_baseline f, rq_known := fd_known f\<rparr>)"

definition fed_env :: "depth_feed py \<Rightarrow> workspace \<Rightarrow> loop_env \<Rightarrow> loop_env" where
  "fed_env feed ws env = env\<lparr>le_workspace := (case feed of Inl e \<Rightarrow> None | Inr f \<Rightarrow> Some ws)\<rparr>"

definition fed_advance ::
    "depth_feed py \<Rightarrow> workspace \<Rightarrow> loop_env \<Rightarrow> state_file \<Rightarrow> advance_request \<Rightarrow> (advance \<times> state_file) py" where
  "fed_advance feed ws env file q = gated_advance (fed_env feed ws env) None file (fed_request feed q)"

subsection \<open>When the pillars run\<close>

text \<open>A model's file that the feed can take the identifiers from, or that is not there.\<close>

definition readable_model :: "model_file \<Rightarrow> bool" where
  "readable_model file = (case file of
     Parsed model \<Rightarrow> (case model of JObj d \<Rightarrow> (case py_iter (dget_or d ''items'' (JList [])) of
         Inr xs \<Rightarrow> list_all hashable (concat (map id_of xs)) | Inl e \<Rightarrow> False)
       | _ \<Rightarrow> False)
   | _ \<Rightarrow> True)"

lemma known_ids_readable: "(\<exists>ids. known_ids file = Inr ids) \<longleftrightarrow> readable_model file"
  by (auto simp: known_ids_def readable_model_def Let_def split: model_file.splits json.splits sum.splits)

lemma feed_returns_iff: "(\<exists>f. compute_depth_feed git file bounds r = Inr f) \<longleftrightarrow> readable_model file"
  unfolding known_ids_readable [symmetric] by (simp add: compute_depth_feed_def py_bind_Inr_iff Let_def)

text \<open>The baseline resolves, and the comparison with it succeeds and names a file.\<close>

definition diff_available :: "git_process \<Rightarrow> string \<Rightarrow> bool" where
  "diff_available git ref = (\<exists>out files l. git [''merge-base'', ref, ''HEAD''] = Some out \<and> strip out \<noteq> [] \<and>
     git [''diff'', ''--name-only'', strip out] = Some files \<and> l \<in> set (splitlines files) \<and> strip l \<noteq> [])"

lemma changed_since_iff: "snd (changed_since git ref) \<noteq> [] \<longleftrightarrow> diff_available git ref"
  by (auto simp: changed_since_def diff_available_def Let_def filter_empty_conv split: option.splits)

lemma feed_changed_iff:
  "(\<exists>f. compute_depth_feed git file bounds (Some ref) = Inr f \<and> fd_changed f \<noteq> []) \<longleftrightarrow>
     readable_model file \<and> diff_available git ref"
  unfolding known_ids_readable [symmetric] changed_since_iff [symmetric]
  by (auto simp: compute_depth_feed_def py_bind_Inr_iff Let_def)

lemma no_changes_no_depth:
  "fd_changed f = [] \<Longrightarrow> depth_rejections env (fed_request (Inr f) q) = Inr []"
  "depth_rejections env (fed_request (Inl e) q) = Inr []"
  by (simp_all add: depth_rejections_def fed_request_def changed_list_def)

text \<open>
  C37. The depth pillars see a change only when the model's file is absent or an object with a list of
  items whose identifiers can be collected, the baseline resolves and the comparison names a file.
  Otherwise the loop advances an accepted slice whatever semgrep and the orphan detector would say;
  a coverage model that is a JSON list is enough, since the feed, which promises never to raise,
  raises on it and its caller goes on without one.
\<close>

theorem no_feed_no_pillars:
  assumes "(readable_model file \<and> diff_available git ref) = False"
    and "accepted (check_slice (rq_evidence q) (rq_artifact q) (rq_ledger q))"
    and "tick (le_floats env) state progress_tick = Inr (row, state')"
  shows "\<exists>r. fed_advance (compute_depth_feed git file bounds (Some ref)) ws env state q = Inr (r, state') \<and> la_action r = Advance"
proof -
  let ?feed = "compute_depth_feed git file bounds (Some ref)"
  have "depth_rejections (fed_env ?feed ws env) (fed_request ?feed q) = Inr []"
    using assms(1) feed_changed_iff [of "git" "file" "bounds" "ref"] no_changes_no_depth by (cases ?feed) auto
  moreover have "check_slice (rq_evidence (fed_request ?feed q)) (rq_artifact (fed_request ?feed q)) (rq_ledger (fed_request ?feed q)) =
      check_slice (rq_evidence q) (rq_artifact q) (rq_ledger q)" "le_floats (fed_env ?feed ws env) = le_floats env"
    by (simp_all add: fed_request_def fed_env_def split: sum.split)
  ultimately show ?thesis using assms(2,3) by (simp add: fed_advance_def gated_advance_def Let_def)
qed

definition working_git :: git_process where
  "working_git args = Some (if hd args = ''diff'' then ''app.py'' else ''c0ffee'')"

definition bare_workspace :: workspace where
  "bare_workspace = \<lparr>ws_read = \<lambda>_. read_outcome.Absent, ws_model_path = ''feature_list.json'', ws_model = Contents ''[]'', ws_git = working_git,
     ws_rematch = \<lambda>_ _. None, ws_pattern = []\<rparr>"

theorem no_feed_no_pillars_witness:
  "\<exists>r state'. fed_advance (compute_depth_feed working_git (Parsed (JList [])) (exec_bounds_of (\<lambda>_. None)) (Some ''origin/main''))
      bare_workspace sample_env Missing proven_request = Inr (r, state') \<and> la_action r = Advance \<and> diff_available working_git ''origin/main''"
proof -
  have "diff_available working_git ''origin/main''"
    unfolding changed_since_iff [symmetric] by code_simp
  moreover obtain row state' where t: "tick (le_floats sample_env) Missing progress_tick = Inr (row, state')"
    by (simp add: tick_def tick_counters_def read_row_def init_row_def progress_tick_def Let_def)
  moreover have "(readable_model (Parsed (JList [])) \<and> diff_available working_git ''origin/main'') = False"
    by (simp add: readable_model_def)
  ultimately show ?thesis using no_feed_no_pillars [OF _ proven_request_accepted t] by blast
qed

end
