(* ===== verification/Router.thy ===== *)
theory Router
  imports Coverage
begin

section \<open>The predictive router\<close>

text \<open>
  \<open>tools/predictive_router.py\<close>: the advice, from the outcomes of earlier routes, which candidate to take,
  and the check that a gate does not depend on such advice. Arithmetic on floats and their formatting
  are arguments; a history is a list of values, a record counts when it is an object. A gate is a
  function of the state and of a prediction, if it gets one; \<open>None\<close> stands for the call without one.
\<close>

subsection \<open>Signatures and outcomes\<close>

definition SIGNATURE_FIELDS :: "string list" where
  "SIGNATURE_FIELDS = [''type'', ''nfr_subtype'', ''priority'', ''phase'', ''baseline'']"

definition signature_of :: "dict \<Rightarrow> json list" where
  "signature_of features = (if features = [] then [] else map (dget features) SIGNATURE_FIELDS)"

definition record_signature :: "dict \<Rightarrow> json list" where
  "record_signature rc = (case dget rc ''features'' of JObj feats \<Rightarrow> signature_of feats | _ \<Rightarrow> signature_of rc)"

definition success_words :: "string list" where
  "success_words = [''proven'', ''success'', ''pass'', ''passed'', ''allow'', ''complete'']"

definition is_success :: "dict \<Rightarrow> bool" where
  "is_success rc = (case map_of rc ''success'' of Some v \<Rightarrow> truthy v
     | None \<Rightarrow> lower_latin (py_str (dget_or rc ''outcome'' (JStr []))) \<in> set success_words)"

fun first_present :: "dict \<Rightarrow> string list \<Rightarrow> json" where
  "first_present rc [] = JNull"
| "first_present rc (k # ks) = (case map_of rc k of Some v \<Rightarrow> v | None \<Rightarrow> first_present rc ks)"

definition record_choice :: "dict \<Rightarrow> json" where
  "record_choice rc = first_present rc [''choice'', ''candidate'', ''agent'', ''model'', ''route'']"

subsection \<open>The advice\<close>

record 'f floats_of =
  fl_div :: "nat \<Rightarrow> nat \<Rightarrow> 'f"
  fl_mul :: "'f \<Rightarrow> 'f \<Rightarrow> 'f"
  fl_less :: "'f \<Rightarrow> 'f \<Rightarrow> bool"
  fl_zero :: 'f
  fl_round6 :: "'f \<Rightarrow> 'f"
  fl_percent :: "'f \<Rightarrow> string"

text \<open>For each choice, its successes and its routes.\<close>

type_synonym tally = "(json \<times> nat \<times> nat) list"

definition counted :: "tally \<Rightarrow> json \<Rightarrow> nat \<times> nat" where
  "counted t c = (case find (\<lambda>p. py_eq c (fst p)) t of None \<Rightarrow> (0, 0) | Some p \<Rightarrow> snd p)"

definition add_route :: "json \<Rightarrow> bool \<Rightarrow> tally \<Rightarrow> tally" where
  "add_route c ok t = (let n = (if ok then 1 else 0) in
     if list_ex (\<lambda>p. py_eq c (fst p)) t
     then map (\<lambda>p. if py_eq c (fst p) then (fst p, fst (snd p) + n, Suc (snd (snd p))) else p) t
     else t @ [(c, n, 1)])"

definition tally_one :: "json list \<Rightarrow> json \<Rightarrow> tally \<times> tally \<Rightarrow> (tally \<times> tally) py" where
  "tally_one sig v st = (case v of
     JObj rc \<Rightarrow> (let c = record_choice rc; ok = is_success rc in
       if c = JNull then Inr st
       else if \<not> hashable c then Inl TypeError
       else Inr (if sig \<noteq> [] \<and> list_all2 py_eq (record_signature rc) sig then add_route c ok (fst st) else fst st,
                 add_route c ok (snd st)))
   | _ \<Rightarrow> Inr st)"

fun tally_all :: "json list \<Rightarrow> json list \<Rightarrow> tally \<times> tally \<Rightarrow> (tally \<times> tally) py" where
  "tally_all sig [] st = Inr st"
| "tally_all sig (v # vs) st = py_bind (tally_one sig v st) (tally_all sig vs)"

record 'f rated =
  rt_candidate :: json
  rt_confidence :: 'f
  rt_rate :: 'f
  rt_total :: nat
  rt_matched :: bool

definition rate_of :: "'f floats_of \<Rightarrow> tally \<Rightarrow> json \<Rightarrow> 'f \<times> nat" where
  "rate_of fl t c = (case counted t c of (succ, routes) \<Rightarrow>
     if routes = 0 then (fl_zero fl, 0) else (fl_div fl succ routes, routes))"

definition rate_candidate :: "'f floats_of \<Rightarrow> tally \<times> tally \<Rightarrow> json \<Rightarrow> 'f rated py" where
  "rate_candidate fl st c = (if \<not> hashable c then Inl TypeError
     else (let here = rate_of fl (fst st) c;
               chosen = (if snd here = 0 then rate_of fl (snd st) c else here);
               routes = snd chosen in
       Inr \<lparr>rt_candidate = c,
         rt_confidence = (if routes = 0 then fl_zero fl else fl_mul fl (fst chosen) (fl_div fl routes (Suc routes))),
         rt_rate = fst chosen, rt_total = routes, rt_matched = (snd here \<noteq> 0)\<rparr>))"

text \<open>Tuples compare first by confidence, then by the number of routes; an earlier candidate keeps a tie.\<close>

definition better :: "'f floats_of \<Rightarrow> 'f rated \<Rightarrow> 'f rated \<Rightarrow> bool" where
  "better fl a b = (if rt_confidence a = rt_confidence b then rt_total b < rt_total a
     else fl_less fl (rt_confidence b) (rt_confidence a))"

fun best_of :: "'f floats_of \<Rightarrow> 'f rated \<Rightarrow> 'f rated list \<Rightarrow> 'f rated" where
  "best_of fl b [] = b"
| "best_of fl b (a # as) = best_of fl (if better fl a b then a else b) as"

definition repr_signature :: "json list \<Rightarrow> string" where
  "repr_signature sig = ''('' @ join '', '' (map (\<lambda>(k, v). ''('' @ repr_str k @ '', '' @ py_repr v @ '')'') (zip SIGNATURE_FIELDS sig)) @ '')''"

record 'f advice =
  ad_choice :: string
  ad_confidence :: 'f
  ad_rationale :: string

definition advice_text :: "'f floats_of \<Rightarrow> json list \<Rightarrow> 'f rated \<Rightarrow> string" where
  "advice_text fl sig b = ''advisory: '' @ py_repr (rt_candidate b) @ '' has the best '' @
     (if rt_matched b then ''signature'' else ''global'') @ '' success rate '' @ fl_percent fl (rt_rate b) @ '' over '' @
     dec_digits (rt_total b) @ '' prior route(s)'' @ (if rt_matched b then '' matching signature '' @ repr_signature sig else []) @
     ''; advisory only, never gates (Property 4 / REQ-19.2)''"

definition default_text :: "json list \<Rightarrow> json \<Rightarrow> string" where
  "default_text sig c = ''advisory: no historical outcomes for these candidates'' @
     (if sig \<noteq> [] then '' at signature '' @ repr_signature sig else []) @ ''; defaulting to first candidate '' @
     py_repr c @ '' (advisory only, off-gate)''"

definition predict_route :: "'f floats_of \<Rightarrow> json list \<Rightarrow> json list \<Rightarrow> dict \<Rightarrow> 'f advice py" where
  "predict_route fl history candidates features = (case candidates of
     [] \<Rightarrow> Inr \<lparr>ad_choice = [], ad_confidence = fl_zero fl, ad_rationale = ''no candidates supplied; nothing to advise''\<rparr>
   | c # cs \<Rightarrow> (let sig = signature_of features in
       py_bind (tally_all sig history ([], [])) (\<lambda>st. py_bind (py_map (rate_candidate fl st) (c # cs)) (\<lambda>rs.
         let b = best_of fl (hd rs) (tl rs) in
         Inr (if rt_total b = 0
           then \<lparr>ad_choice = py_str c, ad_confidence = fl_zero fl, ad_rationale = default_text sig c\<rparr>
           else \<lparr>ad_choice = py_str (rt_candidate b), ad_confidence = fl_round6 fl (rt_confidence b),
                 ad_rationale = advice_text fl sig b\<rparr>)))))"

subsection \<open>The independence check\<close>

text \<open>The confidence that \<open>float(conf) > 0.5\<close> flips is an argument: true, false, or no number.\<close>

definition flipped :: "(json \<Rightarrow> bool option) \<Rightarrow> dict \<Rightarrow> dict" where
  "flipped high d = dset (dset (dset d ''choice'' (JStr (''__NOT__'' @ py_str (dget_or d ''choice'' (JStr [])))))
     ''confidence'' (JFloat (if high (dget_or d ''confidence'' (JFloat ''0.0'')) = Some False then ''1.0'' else ''0.0'')))
     ''rationale'' (JStr ''ADVERSARIAL PERTURBATION'')"

definition perturbations :: "(json \<Rightarrow> bool option) \<Rightarrow> json \<Rightarrow> json option list" where
  "perturbations high prediction =
     [Some prediction, None, Some JNull, Some (JBool True), Some (JBool False), Some (JInt 0), Some (JInt 1), Some (JStr []),
      Some (JStr ''ROUTE_X''), Some (JList []), Some (JObj [])] @
     (case prediction of JObj d \<Rightarrow> [Some (JObj (flipped high d)),
        Some (JObj (dset (dset d ''choice'' (JStr [])) ''confidence'' (JFloat ''0.0''))),
        Some (JObj (dset d ''confidence'' (JFloat ''1.0'')))]
      | _ \<Rightarrow> [])"

type_synonym gate_fn = "json \<Rightarrow> json option \<Rightarrow> json py"

definition verdict_with :: "gate_fn \<Rightarrow> json \<Rightarrow> json option \<Rightarrow> json py" where
  "verdict_with g state prediction = (case prediction of
     None \<Rightarrow> g state None
   | Some p \<Rightarrow> (case g state (Some p) of Inl TypeError \<Rightarrow> g state None | r \<Rightarrow> r))"

fun all_equal :: "gate_fn \<Rightarrow> json \<Rightarrow> json \<Rightarrow> json option list \<Rightarrow> bool py" where
  "all_equal g state base [] = Inr True"
| "all_equal g state base (v # vs) = py_bind (verdict_with g state v) (\<lambda>r.
     if py_eq r base then all_equal g state base vs else Inr False)"

definition gate_decision_is_prediction_independent :: "(json \<Rightarrow> bool option) \<Rightarrow> gate_fn \<Rightarrow> json \<Rightarrow> json \<Rightarrow> bool py" where
  "gate_decision_is_prediction_independent high g state prediction =
     py_bind (verdict_with g state None) (\<lambda>base. all_equal g state base (perturbations high prediction))"

subsection \<open>What the advice is\<close>

text \<open>The comparison is a strict order when the comparison of floats is one.\<close>

lemma better_iff:
  fixes fl :: "('f :: linorder) floats_of"
  assumes "fl_less fl = (<)"
  shows "better fl a b \<longleftrightarrow> rt_confidence b < rt_confidence a \<or>
    (rt_confidence a = rt_confidence b \<and> rt_total b < rt_total a)"
  using assms by (auto simp: better_def)

lemma better_trans:
  fixes fl :: "('f :: linorder) floats_of"
  assumes "fl_less fl = (<)" "better fl a b" "\<not> better fl c b"
  shows "better fl a c"
  using assms(2,3) unfolding better_iff [OF assms(1)] by auto

lemma better_asym:
  fixes fl :: "('f :: linorder) floats_of"
  assumes "fl_less fl = (<)" "better fl a b"
  shows "\<not> better fl b a"
  using assms(2) unfolding better_iff [OF assms(1)] by auto

lemma better_irrefl: "\<not> better fl a a"
  by (simp add: better_def)

lemma best_of_first:
  fixes fl :: "('f :: linorder) floats_of"
  assumes "fl_less fl = (<)"
  shows "\<exists>pre post. b # as = pre @ best_of fl b as # post \<and>
    list_all (better fl (best_of fl b as)) pre \<and> list_all (\<lambda>a. \<not> better fl a (best_of fl b as)) (b # as)"
proof (induction as arbitrary: b)
  case Nil
  then show ?case by (auto simp: better_irrefl intro: exI [of _ "[]"])
next
  case (Cons a as)
  let ?b = "if better fl a b then a else b"
  let ?r = "best_of fl ?b as"
  have r': "best_of fl b (a # as) = ?r" by simp
  from Cons [of ?b] obtain pre post where r: "?b # as = pre @ ?r # post" "list_all (better fl ?r) pre"
    "list_all (\<lambda>x. \<not> better fl x ?r) (?b # as)" by blast
  show ?case
  proof (cases "better fl a b")
    case True
    have "\<not> better fl a ?r" using r(3) True by simp
    then have rb: "better fl ?r b" using better_trans [OF assms True] better_trans [OF assms True, of ?r]
      better_asym [OF assms] by blast
    have "\<not> better fl b ?r" by (rule better_asym [OF assms rb])
    then have "b # a # as = (b # pre) @ ?r # post" "list_all (better fl ?r) (b # pre)"
      "list_all (\<lambda>x. \<not> better fl x ?r) (b # a # as)" using r rb True by simp_all
    then show ?thesis unfolding r' by blast
  next
    case False
    show ?thesis
    proof (cases pre)
      case Nil
      have "?r = b" using r(1) unfolding Nil if_not_P [OF False] by (metis append_Nil list.inject)
      then have "b # a # as = [] @ ?r # (a # as)" "list_all (\<lambda>x. \<not> better fl x ?r) (b # a # as)"
        using r(3) False by simp_all
      then show ?thesis unfolding r' by (metis list.pred_inject(1))
    next
      case (Cons x pre')
      with r(1,2) False have rb: "better fl ?r b" and as: "as = pre' @ ?r # post" by auto
      have ra: "better fl ?r a" using better_trans [OF assms rb False] .
      have "b # a # as = (b # a # pre') @ ?r # post" using as by simp
      moreover have "list_all (better fl ?r) (b # a # pre')" using r(2) Cons ra rb by simp
      moreover have "list_all (\<lambda>x. \<not> better fl x ?r) (b # a # as)"
        using r(3) False better_asym [OF assms ra] by simp
      ultimately show ?thesis unfolding r' by blast
    qed
  qed
qed

lemma py_map_append_Inr:
  "py_map f xs = Inr (as @ b # bs) \<Longrightarrow> \<exists>us v vs. xs = us @ v # vs \<and> py_map f us = Inr as \<and> f v = Inr b"
proof (induction as arbitrary: xs)
  case Nil
  then show ?case by (cases xs) (auto simp: py_bind_Inr_iff intro: exI [of _ "[]"])
next
  case (Cons a as)
  then obtain x xs' where x: "xs = x # xs'" "f x = Inr a" "py_map f xs' = Inr (as @ b # bs)"
    by (cases xs) (auto simp: py_bind_Inr_iff)
  from Cons.IH [OF x(3)] obtain us v vs where u: "xs' = us @ v # vs" "py_map f us = Inr as" "f v = Inr b" by blast
  then have "py_map f (x # us) = Inr (a # as)" using x(2) by simp
  then show ?case using x(1) u by (metis append_Cons)
qed

lemma rate_candidate_names: "rate_candidate fl st c = Inr r \<Longrightarrow> rt_candidate r = c"
  by (auto simp: rate_candidate_def Let_def split: if_splits)

text \<open>
  With some history, the advice names the first of the best candidates: every earlier one is worse and no
  candidate is better, by confidence and then by the number of routes.
\<close>

theorem advice_is_first_best:
  fixes fl :: "('f :: linorder) floats_of"
  assumes "fl_less fl = (<)" "tally_all (signature_of features) history ([], []) = Inr st"
    and "py_map (rate_candidate fl st) (c # cs) = Inr rs" "rt_total (best_of fl (hd rs) (tl rs)) \<noteq> 0"
  shows "\<exists>ad pre d post r. predict_route fl history (c # cs) features = Inr ad \<and> c # cs = pre @ d # post \<and>
    rate_candidate fl st d = Inr r \<and> ad_choice ad = py_str d \<and> ad_confidence ad = fl_round6 fl (rt_confidence r) \<and>
    (\<forall>x y. x \<in> set pre \<longrightarrow> rate_candidate fl st x = Inr y \<longrightarrow> better fl r y) \<and>
    (\<forall>x y. x \<in> set (c # cs) \<longrightarrow> rate_candidate fl st x = Inr y \<longrightarrow> \<not> better fl y r)"
proof -
  obtain a as where rs: "rs = a # as" using assms(3) by (auto simp: py_bind_Inr_iff)
  let ?r = "best_of fl a as"
  from best_of_first [OF assms(1), of a as] obtain pre post where b: "rs = pre @ ?r # post"
    "list_all (better fl ?r) pre" "list_all (\<lambda>x. \<not> better fl x ?r) rs" unfolding rs by blast
  from py_map_append_Inr [OF assms(3) [unfolded b(1)]] obtain us d vs where
    d: "c # cs = us @ d # vs" "py_map (rate_candidate fl st) us = Inr pre" "rate_candidate fl st d = Inr ?r"
    by (metis b(1) rs)
  have "rt_candidate ?r = d" by (rule rate_candidate_names [OF d(3)])
  moreover have "predict_route fl history (c # cs) features = Inr \<lparr>ad_choice = py_str (rt_candidate ?r),
      ad_confidence = fl_round6 fl (rt_confidence ?r), ad_rationale = advice_text fl (signature_of features) ?r\<rparr>"
    using assms(2-4) unfolding rs by (simp add: predict_route_def Let_def del: py_map.simps)
  moreover have "better fl ?r y" if "x \<in> set us" "rate_candidate fl st x = Inr y" for x y
    using py_map_Inr_mem(1) [OF d(2) that(1)] that(2) b(2) by (auto simp: list_all_iff)
  moreover have "\<not> better fl y ?r" if "x \<in> set (c # cs)" "rate_candidate fl st x = Inr y" for x y
    using py_map_Inr_mem(1) [OF assms(3) that(1)] that(2) b(3) by (auto simp: list_all_iff)
  ultimately show ?thesis using d(1,3) by (intro exI [of _ us] exI conjI) auto
qed

subsection \<open>What the check shows\<close>

text \<open>\<open>coverage.is_complete\<close> as the check calls it: it takes the state and no prediction.\<close>

definition complete_gate :: gate_fn where
  "complete_gate state prediction = (case prediction of
     Some p \<Rightarrow> Inl TypeError | None \<Rightarrow> py_bind (is_complete state) (\<lambda>b. Inr (JBool b)))"

lemma all_equal_constant:
  assumes "\<And>v. v \<in> set vs \<Longrightarrow> verdict_with g state v = Inr base" "py_eq base base"
  shows "all_equal g state base vs = Inr True"
  using assms by (induction vs) simp_all

lemma refusing_gate:
  assumes "g state None = Inr base" "py_eq base base" "\<And>p. g state (Some p) = Inr base \<or> g state (Some p) = Inl TypeError"
  shows "gate_decision_is_prediction_independent high g state prediction = Inr True"
proof -
  have "verdict_with g state v = Inr base" for v
  proof (cases v)
    case (Some p)
    from assms(3) [of p] show ?thesis by (elim disjE) (simp_all add: verdict_with_def Some assms(1))
  qed (simp add: verdict_with_def assms(1))
  with all_equal_constant assms(2) show ?thesis by (simp add: gate_decision_is_prediction_independent_def)
qed

text \<open>
  The check of the completion gate succeeds for every state on which the gate gives a verdict, whatever the
  prediction, and raises what the gate raises on the others.
\<close>

theorem complete_gate_passes_check:
  "gate_decision_is_prediction_independent high complete_gate state prediction = py_bind (is_complete state) (\<lambda>_. Inr True)"
proof (cases "is_complete state")
  case (Inl e)
  then show ?thesis by (simp add: gate_decision_is_prediction_independent_def verdict_with_def complete_gate_def)
next
  case (Inr b)
  then show ?thesis by (simp, intro refusing_gate [where base = "JBool b"]) (simp_all add: complete_gate_def)
qed

text \<open>
  The battery is finite: a gate that lets one prediction decide passes the check with every other
  prediction, although its verdict moves.
\<close>

definition leaky_gate :: gate_fn where
  "leaky_gate state prediction = Inr (JBool (prediction = Some (JStr ''agent-a'')))"

theorem leaky_gate_passes_check:
  "gate_decision_is_prediction_independent (\<lambda>_. None) leaky_gate (JObj []) (JStr ''agent-b'') = Inr True \<and>
   leaky_gate (JObj []) (Some (JStr ''agent-a'')) = Inr (JBool True) \<and> leaky_gate (JObj []) None = Inr (JBool False)"
  by code_simp

text \<open>Quarters in place of floats.\<close>

definition whole_floats :: "nat floats_of" where
  "whole_floats = \<lparr>fl_div = (\<lambda>a b. 4 * a div b), fl_mul = (\<lambda>a b. a * b div 4), fl_less = (<), fl_zero = 0,
     fl_round6 = (\<lambda>a. a), fl_percent = (\<lambda>a. dec_digits a @ ''%'')\<rparr>"

definition sample_history :: "json list" where
  "sample_history = [JObj [(''choice'', JStr ''a''), (''success'', JBool True)], JObj [(''agent'', JStr ''b''), (''outcome'', JStr ''FAIL'')]]"

definition sample_tally :: "tally \<times> tally" where
  "sample_tally = ([], [(JStr ''a'', 1, 1), (JStr ''b'', 0, 1)])"

definition rated_a :: "nat rated" where
  "rated_a = \<lparr>rt_candidate = JStr ''a'', rt_confidence = 2, rt_rate = 4, rt_total = 1, rt_matched = False\<rparr>"

definition rated_b :: "nat rated" where
  "rated_b = \<lparr>rt_candidate = JStr ''b'', rt_confidence = 0, rt_rate = 0, rt_total = 1, rt_matched = False\<rparr>"

lemma sample_rates: "rate_candidate whole_floats sample_tally (JStr ''a'') = Inr rated_a"
  "rate_candidate whole_floats sample_tally (JStr ''b'') = Inr rated_b" "better whole_floats rated_a rated_b"
  "rt_total (best_of whole_floats rated_b [rated_a]) = 1" "tally_all (signature_of []) sample_history ([], []) = Inr sample_tally"
  by code_simp+

theorem advice_is_first_best_witness:
  "\<exists>ad. predict_route whole_floats sample_history [JStr ''b'', JStr ''a''] [] = Inr ad \<and> ad_choice ad = ''a''"
proof -
  have fl: "fl_less whole_floats = (<)" by (simp add: whole_floats_def)
  have rs: "py_map (rate_candidate whole_floats sample_tally) [JStr ''b'', JStr ''a''] = Inr [rated_b, rated_a]"
    by (simp add: sample_rates)
  have routes: "rt_total (best_of whole_floats (hd [rated_b, rated_a]) (tl [rated_b, rated_a])) \<noteq> 0"
    using sample_rates(4) by (simp del: best_of.simps)
  from advice_is_first_best [OF fl sample_rates(5) rs routes] obtain ad pre d post r where
    ad: "predict_route whole_floats sample_history [JStr ''b'', JStr ''a''] [] = Inr ad" "ad_choice ad = py_str d"
    and d: "[JStr ''b'', JStr ''a''] = pre @ d # post" "rate_candidate whole_floats sample_tally d = Inr r"
    and best: "\<And>x y. x \<in> set [JStr ''b'', JStr ''a''] \<Longrightarrow> rate_candidate whole_floats sample_tally x = Inr y \<Longrightarrow> \<not> better whole_floats y r"
    by blast
  have "d \<in> set [JStr ''b'', JStr ''a'']" unfolding d(1) by simp
  moreover have "d \<noteq> JStr ''b''" using best [of "JStr ''a''" rated_a] d(2) sample_rates(1-3) by auto
  ultimately show ?thesis using ad by auto
qed

end
