(* ===== verification/Deepeval_Gate.thy ===== *)
theory Deepeval_Gate
  imports Json_Codec
begin

section \<open>The evaluation gate\<close>

text \<open>
  \<open>tools/deepeval_gate.py\<close>: measured scores against thresholds. Floats are a type with operations as an
  argument: the conversion of an integer (which may overflow), of a text (which may not be a number) and
  of a float's own text, which values are finite, their order and their text.
\<close>

record 'f score_ops =
  sc_int :: "int \<Rightarrow> 'f option"
  sc_text :: "string \<Rightarrow> 'f option"
  sc_literal :: "string \<Rightarrow> 'f"
  sc_finite :: "'f \<Rightarrow> bool"
  sc_less :: "'f \<Rightarrow> 'f \<Rightarrow> bool"
  sc_repr :: "'f \<Rightarrow> string"

definition DEFAULT_THRESHOLDS :: dict where
  "DEFAULT_THRESHOLDS = [(''faithfulness'', JFloat ''0.8''), (''answer_relevancy'', JFloat ''0.7'')]"

text \<open>An integer that is too large raises; any other value is a finite score or none.\<close>

datatype overflow = OverflowError

definition finite_score :: "'f score_ops \<Rightarrow> 'f \<Rightarrow> 'f option" where
  "finite_score ops x = (if sc_finite ops x then Some x else None)"

fun coerce_score :: "'f score_ops \<Rightarrow> json \<Rightarrow> overflow + 'f option" where
  "coerce_score ops (JInt i) = (case sc_int ops i of None \<Rightarrow> Inl OverflowError | Some x \<Rightarrow> Inr (finite_score ops x))"
| "coerce_score ops (JFloat r) = Inr (finite_score ops (sc_literal ops r))"
| "coerce_score ops (JStr s) = Inr (case sc_text ops (strip s) of None \<Rightarrow> None | Some x \<Rightarrow> finite_score ops x)"
| "coerce_score ops _ = Inr None"

definition gate_failure :: "string \<Rightarrow> json \<Rightarrow> json \<Rightarrow> string \<Rightarrow> json" where
  "gate_failure metric score threshold reason = JObj [(''metric'', JStr metric), (''score'', score),
     (''threshold'', threshold), (''reason'', JStr reason)]"

definition check_score :: "'f score_ops \<Rightarrow> dict \<Rightarrow> string \<Rightarrow> 'f \<Rightarrow> overflow + json list" where
  "check_score ops metrics metric t = (let threshold = JFloat (sc_repr ops t) in
     case map_of metrics metric of
       None \<Rightarrow> Inr [gate_failure metric JNull threshold
         (''no score produced for required metric '' @ repr_str metric @ ''. Fail closed.'')]
     | Some v \<Rightarrow> py_bind (coerce_score ops v) (\<lambda>s. Inr (case s of
         None \<Rightarrow> [gate_failure metric v threshold
           (''metric '' @ repr_str metric @ '' did not produce a finite score ('' @ py_repr v @ ''). Fail closed.'')]
       | Some x \<Rightarrow> if sc_less ops x t
           then [gate_failure metric (JFloat (sc_repr ops x)) threshold
             (metric @ '' score '' @ sc_repr ops x @ '' is below threshold '' @ sc_repr ops t @ ''.'')]
           else [])))"

definition check_metric :: "'f score_ops \<Rightarrow> dict \<Rightarrow> string \<times> json \<Rightarrow> overflow + json list" where
  "check_metric ops metrics mt = (case mt of (metric, threshold) \<Rightarrow>
     py_bind (coerce_score ops threshold) (\<lambda>t. case t of
       None \<Rightarrow> Inr [gate_failure metric JNull threshold
         (''threshold for '' @ repr_str metric @ '' is not a finite number ('' @ py_repr threshold @ ''). Fail closed.'')]
     | Some x \<Rightarrow> check_score ops metrics metric x))"

fun type_name :: "json \<Rightarrow> string" where
  "type_name JNull = ''NoneType''"
| "type_name (JBool b) = ''bool''"
| "type_name (JInt i) = ''int''"
| "type_name (JFloat r) = ''float''"
| "type_name (JStr s) = ''str''"
| "type_name (JList xs) = ''list''"
| "type_name (JObj d) = ''dict''"

definition gate_result :: "json list \<Rightarrow> dict" where
  "gate_result fs = [(''passed'', JBool (fs = [])), (''failures'', JList fs)]"

definition not_mapping :: "string \<Rightarrow> json \<Rightarrow> json" where
  "not_mapping what v = gate_failure (''<'' @ what @ ''>'') JNull JNull
     (what @ '' is not a mapping (got '' @ type_name v @ ''). Fail closed.'')"

text \<open>No thresholds stand for the default ones. The metrics are visited in the order of their names.\<close>

definition evaluate_gate :: "'f score_ops \<Rightarrow> json \<Rightarrow> json \<Rightarrow> dict" where
  "evaluate_gate ops metrics thresholds = (case (if thresholds = JNull then JObj DEFAULT_THRESHOLDS else thresholds) of
     JObj active \<Rightarrow> (case metrics of
       JObj ms \<Rightarrow> (case py_map (check_metric ops ms) (sort_key fst active) of
           Inr fss \<Rightarrow> gate_result (concat fss)
         | Inl OverflowError \<Rightarrow> gate_result [gate_failure ''<error>'' JNull JNull
             ''evaluate_gate raised OverflowError: int too large to convert to float. Fail closed.''])
     | _ \<Rightarrow> gate_result [not_mapping ''metrics'' metrics])
   | v \<Rightarrow> gate_result [not_mapping ''thresholds'' v])"

text \<open>The command: the text of a file (\<open>None\<close> if it cannot be opened) or of standard input; \<open>wording\<close> is the exception.\<close>

definition load_metrics :: "bool \<Rightarrow> string option \<Rightarrow> json option" where
  "load_metrics from_file contents = (case contents of None \<Rightarrow> None
     | Some t \<Rightarrow> if \<not> from_file \<and> strip t = [] then Some (JObj []) else loads t)"

definition deepeval_main :: "'f score_ops \<Rightarrow> string \<Rightarrow> bool \<Rightarrow> string option \<Rightarrow> dict \<times> int" where
  "deepeval_main ops wording from_file contents = (case load_metrics from_file contents of
     None \<Rightarrow> (gate_result [gate_failure ''<input>'' JNull JNull (''could not load metrics: '' @ wording @ ''. Fail closed.'')], 1)
   | Some m \<Rightarrow> (let r = evaluate_gate ops m JNull in (r, if truthy (dget r ''passed'') then 0 else 1)))"

subsection \<open>When the gate passes\<close>

definition meets :: "'f score_ops \<Rightarrow> dict \<Rightarrow> string \<Rightarrow> json \<Rightarrow> bool" where
  "meets ops ms metric threshold \<longleftrightarrow> (\<exists>t v x. coerce_score ops threshold = Inr (Some t) \<and>
     map_of ms metric = Some v \<and> coerce_score ops v = Inr (Some x) \<and> \<not> sc_less ops x t)"

lemma check_score_Nil: "check_score ops ms m t = Inr [] \<longleftrightarrow>
    (\<exists>v x. map_of ms m = Some v \<and> coerce_score ops v = Inr (Some x) \<and> \<not> sc_less ops x t)"
proof (cases "map_of ms m")
  case (Some v)
  consider e where "coerce_score ops v = Inl e" | "coerce_score ops v = Inr None" | x where "coerce_score ops v = Inr (Some x)"
    by (metis sum.exhaust option.exhaust)
  then show ?thesis by cases (simp_all add: check_score_def Some Let_def)
qed (simp add: check_score_def Let_def)

lemma check_metric_Nil: "check_metric ops ms (m, t) = Inr [] \<longleftrightarrow> meets ops ms m t"
proof -
  consider e where "coerce_score ops t = Inl e" | "coerce_score ops t = Inr None" | x where "coerce_score ops t = Inr (Some x)"
    by (metis sum.exhaust option.exhaust)
  then show ?thesis by cases (simp_all add: check_metric_def meets_def check_score_Nil)
qed

lemma passed_result: "dget (gate_result fs) ''passed'' = JBool (fs = [])"
  by (simp add: gate_result_def)

lemma py_map_concat_Nil_iff: "(\<exists>fss. py_map f xs = Inr fss \<and> concat fss = []) \<longleftrightarrow> (\<forall>x \<in> set xs. f x = Inr [])"
  by (induction xs) (auto simp: py_bind_Inr_iff)

text \<open>
  The gate passes exactly when the thresholds and the metrics are objects and every threshold is a finite
  number that the score of its metric, present and finite, is not below.
\<close>

theorem evaluate_gate_passes_iff:
  "dget (evaluate_gate ops metrics thresholds) ''passed'' = JBool True \<longleftrightarrow>
    (\<exists>active ms. (if thresholds = JNull then JObj DEFAULT_THRESHOLDS else thresholds) = JObj active \<and>
       metrics = JObj ms \<and> list_all (\<lambda>(m, t). meets ops ms m t) active)"
proof -
  have body: "dget (case py_map (check_metric ops ms) (sort_key fst active) of
           Inr fss \<Rightarrow> gate_result (concat fss) | Inl OverflowError \<Rightarrow> gate_result [f]) ''passed'' = JBool True \<longleftrightarrow>
      list_all (\<lambda>(m, t). meets ops ms m t) active" for ms active f
  proof -
    have "dget (case py_map (check_metric ops ms) (sort_key fst active) of
           Inr fss \<Rightarrow> gate_result (concat fss) | Inl OverflowError \<Rightarrow> gate_result [f]) ''passed'' = JBool True \<longleftrightarrow>
        (\<exists>fss. py_map (check_metric ops ms) (sort_key fst active) = Inr fss \<and> concat fss = [])"
      by (auto simp: passed_result split: sum.split overflow.split)
    also have "\<dots> \<longleftrightarrow> (\<forall>x \<in> set active. check_metric ops ms x = Inr [])" unfolding py_map_concat_Nil_iff by simp
    also have "\<dots> \<longleftrightarrow> list_all (\<lambda>(m, t). meets ops ms m t) active" by (auto simp: list_all_iff check_metric_Nil)
    finally show ?thesis .
  qed
  show ?thesis
  proof (cases "if thresholds = JNull then JObj DEFAULT_THRESHOLDS else thresholds")
    case (JObj active)
    then show ?thesis by (cases metrics) (simp_all only: evaluate_gate_def json.case passed_result body, simp_all)
  qed (simp_all add: evaluate_gate_def passed_result)
qed

text \<open>The command succeeds only with the two default metrics, and never on unreadable input.\<close>

theorem deepeval_main_exit0:
  "snd (deepeval_main ops wording from_file contents) = 0 \<longleftrightarrow> (\<exists>ms. load_metrics from_file contents = Some (JObj ms) \<and>
     meets ops ms ''faithfulness'' (JFloat ''0.8'') \<and> meets ops ms ''answer_relevancy'' (JFloat ''0.7''))"
proof -
  have "truthy (dget (evaluate_gate ops m JNull) ''passed'') \<longleftrightarrow> dget (evaluate_gate ops m JNull) ''passed'' = JBool True" for m
    by (auto simp: evaluate_gate_def passed_result split: json.split sum.split overflow.split)
  then show ?thesis
    by (cases "load_metrics from_file contents") (auto simp: deepeval_main_def Let_def evaluate_gate_passes_iff DEFAULT_THRESHOLDS_def)
qed

text \<open>Tenths in place of floats: a score of eight tenths meets the threshold, one below does not.\<close>

definition tenths :: "int score_ops" where
  "tenths = \<lparr>sc_int = (\<lambda>i. Some (10 * i)), sc_text = (\<lambda>s. None), sc_literal = (\<lambda>r. if r = ''0.8'' then 8 else if r = ''0.7'' then 7 else 0),
     sc_finite = (\<lambda>x. True), sc_less = (<), sc_repr = (\<lambda>x. int_str x)\<rparr>"

theorem evaluate_gate_passes_iff_witness:
  "dget (evaluate_gate tenths (JObj [(''answer_relevancy'', JInt 1), (''faithfulness'', JFloat ''0.8'')]) JNull) ''passed'' = JBool True \<and>
   dget (evaluate_gate tenths (JObj [(''answer_relevancy'', JInt 1), (''faithfulness'', JFloat ''0.7'')]) JNull) ''passed'' = JBool False"
proof
  show "dget (evaluate_gate tenths (JObj [(''answer_relevancy'', JInt 1), (''faithfulness'', JFloat ''0.8'')]) JNull) ''passed'' = JBool True"
    unfolding evaluate_gate_passes_iff by (simp add: DEFAULT_THRESHOLDS_def meets_def tenths_def finite_score_def)
  show "dget (evaluate_gate tenths (JObj [(''answer_relevancy'', JInt 1), (''faithfulness'', JFloat ''0.7'')]) JNull) ''passed'' = JBool False"
    by code_simp
qed

end
