(* ===== verification/Canary.thy ===== *)
theory Canary
  imports Json_Codec Sha256
begin

section \<open>The spine canary\<close>

text \<open>
  \<open>tools/run_spine_canary.py\<close>: the assertions over a transcript and the fires of the hooks, and the run
  that reports them beside the negative controls. The hooks and the live session are arguments: the exit
  status of each forced violation, and the texts of the files the session leaves. How the quotient of two
  sizes compares with the bound is an argument; the wording of a failed assertion is left out.
\<close>

datatype canary_error = AssertionError | Raised py_exc

type_synonym 'a canary = "canary_error + 'a"

definition raised :: "'a py \<Rightarrow> 'a canary" where
  "raised r = (case r of Inl e \<Rightarrow> Inl (Raised e) | Inr a \<Rightarrow> Inr a)"

definition require :: "bool \<Rightarrow> unit canary" where
  "require b = (if b then Inr () else Inl AssertionError)"

definition REQUIRED_HOOKS :: "string list" where
  "REQUIRED_HOOKS = [''SessionStart'', ''PreToolUse'', ''PostToolUse'', ''SubagentStop'', ''Stop'', ''PreCompact'']"

subsection \<open>Normalisation\<close>

definition eat_digits :: "nat \<Rightarrow> string \<Rightarrow> string option" where
  "eat_digits n s = (if length (take n s) = n \<and> list_all digit_char (take n s) then Some (drop n s) else None)"

definition eat_one :: "(char \<Rightarrow> bool) \<Rightarrow> string \<Rightarrow> string option" where
  "eat_one p s = (case s of [] \<Rightarrow> None | c # cs \<Rightarrow> if p c then Some cs else None)"

definition eat_some_digits :: "string \<Rightarrow> string option" where
  "eat_some_digits s = (if takeWhile digit_char s = [] then None else Some (dropWhile digit_char s))"

definition optional :: "(string \<Rightarrow> string option) \<Rightarrow> string \<Rightarrow> string option" where
  "optional f s = (case f s of None \<Rightarrow> Some s | r \<Rightarrow> r)"

definition followed :: "(string \<Rightarrow> string option) \<Rightarrow> (string \<Rightarrow> string option) \<Rightarrow> string \<Rightarrow> string option" where
  "followed f g s = (case f s of None \<Rightarrow> None | Some r \<Rightarrow> g r)"

text \<open>The timestamp pattern; no optional part of it can begin with what follows, so that nothing is retried.\<close>

definition offset :: "string \<Rightarrow> string option" where
  "offset = followed (eat_one (\<lambda>c. c = CHR ''+'' \<or> c = CHR ''-'')) (followed (eat_digits 2)
     (followed (optional (eat_one (\<lambda>c. c = CHR '':''))) (eat_digits 2)))"

definition zone :: "string \<Rightarrow> string option" where
  "zone s = (case eat_one (\<lambda>c. c = CHR ''z'') s of None \<Rightarrow> offset s | r \<Rightarrow> r)"

definition timestamp :: "string \<Rightarrow> string option" where
  "timestamp = foldr followed
     [eat_digits 4, eat_one (\<lambda>c. c = CHR ''-''), eat_digits 2, eat_one (\<lambda>c. c = CHR ''-''), eat_digits 2,
      optional (eat_one (\<lambda>c. c = CHR ''t'' \<or> c = CHR '' '')),
      eat_digits 2, eat_one (\<lambda>c. c = CHR '':''), eat_digits 2,
      optional (followed (eat_one (\<lambda>c. c = CHR '':'')) (eat_digits 2)),
      optional (followed (eat_one (\<lambda>c. c = CHR ''.'')) eat_some_digits),
      optional zone] Some"

text \<open>\<open>re.sub(pattern, ' ', s)\<close> for a pattern that consumes something, by fuel, the length of the text.\<close>

fun blank_matches :: "(string \<Rightarrow> string option) \<Rightarrow> nat \<Rightarrow> string \<Rightarrow> string" where
  "blank_matches f 0 s = s"
| "blank_matches f (Suc n) [] = []"
| "blank_matches f (Suc n) (c # cs) = (case f (c # cs) of
     Some r \<Rightarrow> CHR '' '' # blank_matches f n r
   | None \<Rightarrow> c # blank_matches f n cs)"

fun blank_runs :: "(char \<Rightarrow> bool) \<Rightarrow> bool \<Rightarrow> string \<Rightarrow> string" where
  "blank_runs p inside [] = []"
| "blank_runs p inside (c # cs) = (if \<not> p c then c # blank_runs p False cs
     else if inside then blank_runs p True cs else CHR '' '' # blank_runs p True cs)"

definition normalize_text :: "string \<Rightarrow> string" where
  "normalize_text s = (let t = lower_latin s in
     strip (blank_runs is_space False (blank_runs digit_char False (blank_matches timestamp (length t) t))))"

definition tokens :: "string \<Rightarrow> string set" where
  "tokens s = set (filter (\<lambda>w. w \<noteq> []) (split_on is_space (normalize_text s)))"

text \<open>The two sizes whose quotient is the similarity; two empty sets are alike.\<close>

definition overlap :: "string set \<Rightarrow> string set \<Rightarrow> nat \<times> nat" where
  "overlap a b = (if a = {} \<and> b = {} then (1, 1) else (card (a \<inter> b), card (a \<union> b)))"

definition block_text :: "json \<Rightarrow> string" where
  "block_text b = (case b of
     JObj d \<Rightarrow> py_str (dget_or d ''text'' (dget_or d ''content'' (JStr [])))
   | _ \<Rightarrow> py_str b)"

definition row_text :: "json \<Rightarrow> string" where
  "row_text row = (case row of
     JObj d \<Rightarrow> (let content = (if dget d ''content'' = JNull
           then (case dget d ''message'' of JObj m \<Rightarrow> dget m ''content'' | _ \<Rightarrow> JNull) else dget d ''content'') in
       case content of
         JStr s \<Rightarrow> s
       | JList bs \<Rightarrow> join '' '' (map block_text bs)
       | JNull \<Rightarrow> []
       | v \<Rightarrow> py_str v)
   | _ \<Rightarrow> py_str row)"

subsection \<open>The assertions\<close>

text \<open>\<open>near a b\<close> stands for \<open>a / b >= jaccard\<close>.\<close>

definition injected :: "json \<Rightarrow> bool" where
  "injected r = (case r of JObj d \<Rightarrow> dget d ''role'' = JStr ''user'' \<or> dget d ''role'' = JStr ''system'' | _ \<Rightarrow> False)"

fun no_repeat :: "(nat \<Rightarrow> nat \<Rightarrow> bool) \<Rightarrow> string set option \<Rightarrow> json list \<Rightarrow> unit canary" where
  "no_repeat near prev [] = Inr ()"
| "no_repeat near prev (r # rs) = (let toks = tokens (row_text r) in
     py_bind (case prev of None \<Rightarrow> Inr ()
       | Some p \<Rightarrow> require (\<not> (case overlap p toks of (a, b) \<Rightarrow> near a b))) (\<lambda>_. no_repeat near (Some toks) rs))"

definition assert_no_reinjection :: "(nat \<Rightarrow> nat \<Rightarrow> bool) \<Rightarrow> json list \<Rightarrow> unit canary" where
  "assert_no_reinjection near rows = no_repeat near None (filter injected rows)"

definition dict_rows :: "json list \<Rightarrow> dict list" where
  "dict_rows rows = concat (map (\<lambda>r. case r of JObj d \<Rightarrow> [d] | _ \<Rightarrow> []) rows)"

text \<open>The message of the failure sorts the events that were seen, which may raise in its place.\<close>

definition assert_all_hooks_fired :: "json list \<Rightarrow> string list \<Rightarrow> unit canary" where
  "assert_all_hooks_fired fires required = (let seen = map (\<lambda>d. dget d ''hook_event'') (dict_rows fires) in
     if \<not> list_all hashable seen then Inl (Raised TypeError)
     else if list_all (\<lambda>h. JStr h \<in> set seen) required then Inr ()
     else (case py_sort_by id (remdups (filter truthy seen)) of Inl e \<Rightarrow> Inl (Raised e) | Inr _ \<Rightarrow> Inl AssertionError))"

definition assert_ralph_absent :: "json list \<Rightarrow> unit canary" where
  "assert_ralph_absent fires = require (list_all (\<lambda>d.
     \<not> contains ''stop-hook.sh'' (py_str (py_or (dget_or d ''command_path'' (JStr [])) (JStr [])))) (dict_rows fires))"

definition inner_evidence :: "dict \<Rightarrow> string \<Rightarrow> dict option" where
  "inner_evidence fire k = (case dget fire k of
     JObj inner \<Rightarrow> (case dget inner ''evidence'' of JObj e \<Rightarrow> Some e | _ \<Rightarrow> None) | _ \<Rightarrow> None)"

definition fire_evidence :: "dict \<Rightarrow> dict" where
  "fire_evidence fire = (case dget fire ''evidence'' of
     JObj e \<Rightarrow> e
   | _ \<Rightarrow> (case List.map_filter (inner_evidence fire) [''tool_input'', ''payload'', ''input''] of e # _ \<Rightarrow> e | [] \<Rightarrow> []))"

definition qualifying_fire :: "dict \<Rightarrow> bool" where
  "qualifying_fire fire = (let ev = fire_evidence fire; v = dget ev ''verifier_session_id''; i = dget ev ''implementer_session_id'' in
     py_str (py_or (dget fire ''agent_type'') (py_or (dget fire ''actor_agent'') (dget_or ev ''actor_agent'' (JStr [])))) = ''verifier'' \<and>
     truthy v \<and> truthy i \<and> \<not> py_eq v i)"

definition proven_item :: "string option \<Rightarrow> json \<Rightarrow> bool" where
  "proven_item target item = (case item of
     JObj d \<Rightarrow> dget d ''status'' = JStr ''proven'' \<and> truthy (dget_or d ''in_scope'' (JBool True)) \<and>
       (case target of None \<Rightarrow> True | Some s \<Rightarrow> dget d ''id'' = JStr s)
   | _ \<Rightarrow> False)"

definition model_items :: "json \<Rightarrow> json list py" where
  "model_items model = (case model of JObj d \<Rightarrow> py_iter (dget_or d ''items'' (JList [])) | _ \<Rightarrow> Inr [])"

definition assert_positive_path :: "json list \<Rightarrow> json \<Rightarrow> string option \<Rightarrow> unit canary" where
  "assert_positive_path fires model target = py_bind (raised (model_items model)) (\<lambda>items.
     if filter (proven_item target) items = [] then require (target = None)
     else require (list_ex qualifying_fire (dict_rows fires)))"

definition terminal_statuses :: "string list" where
  "terminal_statuses = [''complete'', ''handoff'']"

definition assert_governance_terminal :: "(string \<Rightarrow> int py) \<Rightarrow> json \<Rightarrow> int option \<Rightarrow> unit canary" where
  "assert_governance_terminal trunc run_state max_turns = (case run_state of
     JObj d \<Rightarrow>
       (let turns = (if dget d ''iteration_count'' = JNull then dget d ''turn_count'' else dget d ''iteration_count'') in
       py_bind (require (d \<noteq> [])) (\<lambda>_.
       py_bind (require (lower_latin (strip (py_str (dget_or d ''status'' (JStr [])))) \<in> set terminal_statuses)) (\<lambda>_.
       py_bind (require (dget d ''terminated_by'' \<in> {JNull, JStr ''governance_stop_hook''})) (\<lambda>_.
       py_bind (require (\<not> truthy (dget d ''watchdog_kill''))) (\<lambda>_.
       py_bind (require (\<not> truthy (dget d ''manual_stop''))) (\<lambda>_.
       case max_turns of
         None \<Rightarrow> Inr ()
       | Some m \<Rightarrow> if turns = JNull then Inr ()
           else py_bind (raised (int_of_json trunc turns)) (\<lambda>n. require (n < m))))))))
   | _ \<Rightarrow> Inl AssertionError)"

subsection \<open>The run\<close>

text \<open>Lines that are no JSON are dropped; a missing file has no rows.\<close>

definition load_rows :: "string option \<Rightarrow> json list" where
  "load_rows contents = (case contents of None \<Rightarrow> []
     | Some t \<Rightarrow> List.map_filter loads (filter (\<lambda>l. l \<noteq> []) (map strip (splitlines t))))"

definition load_object :: "string option \<Rightarrow> json" where
  "load_object contents = (case contents of None \<Rightarrow> JObj []
     | Some t \<Rightarrow> (case loads t of Some (JObj d) \<Rightarrow> JObj d | _ \<Rightarrow> JObj []))"

text \<open>
  The negative controls in their order: a name, the hook that runs, the event on its standard input, and whether
  the control passes an environment without \<open>HUMAN_SIGNED\<close>. \<open>_run_hook\<close> merges what it is passed into its own
  environment, so nothing is taken out of it.
\<close>

definition canary_item :: "bool \<Rightarrow> string \<Rightarrow> json" where
  "canary_item scope status = JObj [(''id'', JStr ''CANARY-001''), (''in_scope'', JBool scope), (''status'', JStr status)]"

definition canary_model :: "bool \<Rightarrow> string \<Rightarrow> json" where
  "canary_model scope status = JObj [(''items'', JList [canary_item scope status])]"

definition FL_UNPROVEN :: string where "FL_UNPROVEN = dumps False (canary_model True ''unproven'')"

definition FL_PROVEN :: string where "FL_PROVEN = dumps False (canary_model True ''proven'')"

definition FL_OUT :: string where "FL_OUT = dumps False (canary_model False ''unproven'')"

definition tool_event :: "string \<Rightarrow> dict \<Rightarrow> json" where
  "tool_event tool tool_input = JObj [(''session_id'', JStr ''neg''), (''agent_type'', JStr ''implementer''),
     (''tool_name'', JStr tool), (''tool_input'', JObj tool_input)]"

definition edit_event :: "string \<Rightarrow> string \<Rightarrow> string \<Rightarrow> dict \<Rightarrow> json" where
  "edit_event path old new extra = tool_event ''Edit''
     ([(''file_path'', JStr path), (''old_string'', JStr old), (''new_string'', JStr new)] @ extra)"

definition self_grade_event :: json where
  "self_grade_event = (let artifact = ''canary verifier artifact'' in
     JObj [(''session_id'', JStr ''selfgrade''), (''agent_type'', JStr ''verifier''),
       (''tool_input'', JObj [
          (''evidence'', JObj [(''actor_agent'', JStr ''verifier''), (''verifier_session_id'', JStr ''same''),
             (''implementer_session_id'', JStr ''same''), (''test_file'', JStr ''tests/spine/test_canary_runner.py''),
             (''test_name'', JStr ''test_self_grade''), (''output_hash'', JStr (''sha256:'' @ sha256_hex artifact)),
             (''collected_at'', JStr ''2026-06-22T00:00:00Z'')]),
          (''output'', JStr artifact), (''omission_declaration'', JStr ''none'')])])"

definition stop_event :: json where
  "stop_event = JObj [(''session_id'', JStr ''stopneg''),
     (''run_state'', JObj [(''iteration_count'', JInt 1), (''no_progress_n'', JInt 0), (''block_streak'', JInt 0),
        (''violation_count'', JInt 0), (''budget_exceeded'', JBool False), (''external_blocker'', JNull),
        (''status'', JStr ''running'')]),
     (''feature_list'', canary_model True ''unproven'')]"

definition negative_controls :: "(string \<times> string \<times> json \<times> bool) list" where
  "negative_controls =
     [(''protected-path Edit blocks'', ''pre_tool_use_hook.py'', edit_event ''tests/spine/x.py'' ''a'' ''b'' [], False),
      (''Bash redirect to protected path blocks'', ''pre_tool_use_hook.py'',
         tool_event ''Bash'' [(''command'', JStr ''echo x > tests/spine/x.py'')], False),
      (''implementer status-flip blocks'', ''pre_tool_use_hook.py'',
         edit_event ''feature_list.json'' FL_UNPROVEN FL_PROVEN [], False),
      (''in_scope-flip without HUMAN_SIGNED blocks'', ''pre_tool_use_hook.py'',
         edit_event ''feature_list.json'' FL_OUT FL_UNPROVEN [(''human_signed'', JBool True)], True),
      (''same-session self-grade blocks'', ''subagent_stop_hook.py'', self_grade_event, False),
      (''unproven-at-Stop blocks'', ''stop_hook.py'', stop_event, False)]"

text \<open>\<open>run hook event unsigned\<close> is the exit status of the hook.\<close>

type_synonym hook_run = "string \<Rightarrow> json \<Rightarrow> bool \<Rightarrow> int"

text \<open>
  \<open>tools/hook_telemetry.py\<close>: a fire appends one line to the sink, if one is named and can be written; whatever
  goes wrong there is swallowed. The values of a record are JSON values here.
\<close>

definition fire_record :: "string \<Rightarrow> string \<Rightarrow> string \<Rightarrow> dict \<Rightarrow> dict" where
  "fire_record event session program extra =
     foldl (\<lambda>d (k, v). dset d k v) [(''hook_event'', JStr event), (''session_id'', JStr session), (''command_path'', JStr program)] extra"

definition append_line :: "string option \<Rightarrow> string \<Rightarrow> string option" where
  "append_line contents line = Some ((case contents of None \<Rightarrow> [] | Some t \<Rightarrow> t) @ line @ [CHR 0x0A])"

definition record_fire :: "string option \<Rightarrow> bool \<Rightarrow> string \<Rightarrow> string \<Rightarrow> string \<Rightarrow> dict \<Rightarrow> string option \<Rightarrow> string option" where
  "record_fire sink writable event session program extra contents =
     (if sink = None \<or> sink = Some [] \<or> \<not> writable then contents
      else append_line contents (dumps_spaced True (JObj (fire_record event session program extra))))"

record canary_files =
  cf_sink :: "string option"
  cf_transcript :: "string option"
  cf_model :: "string option"
  cf_run_state :: "string option"

definition checked :: "string \<Rightarrow> unit canary \<Rightarrow> string \<times> bool option" where
  "checked name r = (name, Some (case r of Inl _ \<Rightarrow> False | Inr _ \<Rightarrow> True))"

definition live_names :: "string list" where
  "live_names = [''all six hooks fired'', ''ralph absent'', ''no re-injection'', ''positive path (verifier-proven)'', ''governance terminal'']"

definition live_checks :: "(nat \<Rightarrow> nat \<Rightarrow> bool) \<Rightarrow> (string \<Rightarrow> int py) \<Rightarrow> string \<Rightarrow> int \<Rightarrow> canary_files \<Rightarrow> (string \<times> bool option) list" where
  "live_checks near trunc target max_turns fs = (let fires = load_rows (cf_sink fs) in
     [checked (live_names ! 0) (assert_all_hooks_fired fires REQUIRED_HOOKS),
      checked (live_names ! 1) (assert_ralph_absent fires),
      checked (live_names ! 2) (assert_no_reinjection near (load_rows (cf_transcript fs))),
      checked (live_names ! 3) (assert_positive_path fires (load_object (cf_model fs)) (Some target)),
      checked (live_names ! 4) (assert_governance_terminal trunc (load_object (cf_run_state fs)) (Some max_turns))])"

text \<open>Without \<open>--live\<close> the checks of the session are skipped.\<close>

definition canary_results ::
    "(nat \<Rightarrow> nat \<Rightarrow> bool) \<Rightarrow> (string \<Rightarrow> int py) \<Rightarrow> hook_run \<Rightarrow> bool \<Rightarrow> string \<Rightarrow> int \<Rightarrow> canary_files \<Rightarrow> (string \<times> bool option) list" where
  "canary_results near trunc run live target max_turns fs =
     map (\<lambda>(name, hook, event, unsigned). (name, Some (run hook event unsigned = 2))) negative_controls @
     (if live then live_checks near trunc target max_turns fs else map (\<lambda>n. (n, None)) live_names)"

definition canary_main ::
    "(nat \<Rightarrow> nat \<Rightarrow> bool) \<Rightarrow> (string \<Rightarrow> int py) \<Rightarrow> hook_run \<Rightarrow> bool \<Rightarrow> string \<Rightarrow> int \<Rightarrow> canary_files \<Rightarrow> int" where
  "canary_main near trunc run live target max_turns fs =
     (if list_all (\<lambda>(_, ok). ok \<noteq> Some False) (canary_results near trunc run live target max_turns fs) then 0 else 1)"

subsection \<open>What a green canary means\<close>

definition alike :: "(nat \<Rightarrow> nat \<Rightarrow> bool) \<Rightarrow> string set \<Rightarrow> string set \<Rightarrow> bool" where
  "alike near p q \<longleftrightarrow> (case overlap p q of (a, b) \<Rightarrow> near a b)"

lemma require_Inr [simp]: "require b = Inr u \<longleftrightarrow> b"
  by (simp add: require_def)

lemma no_repeat_iff:
  "no_repeat near prev rows = Inr () \<longleftrightarrow>
    successively (\<lambda>p q. \<not> alike near p q) ((case prev of None \<Rightarrow> [] | Some p \<Rightarrow> [p]) @ map (\<lambda>r. tokens (row_text r)) rows)"
proof (induction rows arbitrary: prev)
  case (Cons r rows)
  then show ?case
    by (cases prev) (auto simp: Let_def py_bind_Inr_iff alike_def successively_Cons hd_append split: option.split)
qed (simp split: option.split)

text \<open>
  A transcript passes exactly when no two consecutive rows of the steering channel are alike, after timestamps,
  digits and letter case are taken away.
\<close>

theorem no_reinjection_iff:
  "assert_no_reinjection near rows = Inr () \<longleftrightarrow>
    successively (\<lambda>p q. \<not> alike near p q) (map (\<lambda>r. tokens (row_text r)) (filter injected rows))"
  by (simp add: assert_no_reinjection_def no_repeat_iff)

text \<open>
  The role is read at the top of a row only, although the text is also read inside \<open>message\<close>: a transcript whose
  rows carry the role there passes, whatever it repeats.
\<close>

theorem nested_role_unseen:
  assumes "list_all (\<lambda>r. \<not> is_dict r \<or> obj_get r ''role'' = Inr JNull) rows"
  shows "assert_no_reinjection near rows = Inr ()"
proof -
  have "filter injected rows = []"
    using assms by (induction rows) (auto simp: injected_def split: json.splits)
  then show ?thesis by (simp add: assert_no_reinjection_def)
qed

definition steering :: "string \<Rightarrow> json" where
  "steering t = JObj [(''role'', JStr ''user''), (''content'', JStr t)]"

definition wrapped :: "string \<Rightarrow> json" where
  "wrapped t = JObj [(''type'', JStr ''user''), (''message'', steering t)]"

theorem nested_role_unseen_witness:
  "assert_no_reinjection (\<lambda>a b. 9 * b \<le> 10 * a) [wrapped ''continue'', wrapped ''continue''] = Inr ()"
  by (rule nested_role_unseen) (simp add: wrapped_def)

text \<open>The fires of the verifier, and the items they are taken to prove, are not compared.\<close>

lemma positive_path_Inr:
  "assert_positive_path fires model target = Inr () \<longleftrightarrow> (\<exists>items. model_items model = Inr items \<and>
     (if filter (proven_item target) items = [] then target = None else list_ex qualifying_fire (dict_rows fires)))"
  by (cases "model_items model") (simp_all add: assert_positive_path_def raised_def)

text \<open>
  One fire of the verifier is enough for any model: if a run passes for the proven items of one model, the same
  fires pass for those of any other.
\<close>

theorem one_fire_backs_every_item:
  assumes "assert_positive_path fires (JObj [(''items'', JList items)]) target = Inr ()" "filter (proven_item target) items \<noteq> []"
  shows "assert_positive_path fires (JObj [(''items'', JList others)]) None = Inr ()"
  using assms by (simp add: positive_path_Inr model_items_def split: if_splits)

definition verifier_fire :: json where
  "verifier_fire = JObj [(''agent_type'', JStr ''verifier''), (''evidence'', JObj [(''item'', JStr ''A''),
     (''verifier_session_id'', JStr ''v''), (''implementer_session_id'', JStr ''i'')])]"

definition proven_row :: "string \<Rightarrow> json" where
  "proven_row i = JObj [(''id'', JStr i), (''status'', JStr ''proven'')]"

theorem one_fire_backs_every_item_witness:
  "assert_positive_path [verifier_fire] (JObj [(''items'', JList [proven_row ''A'', proven_row ''B''])]) None = Inr ()"
proof (rule one_fire_backs_every_item)
  show "assert_positive_path [verifier_fire] (JObj [(''items'', JList [proven_row ''A''])]) (Some ''A'') = Inr ()" by code_simp
  show "filter (proven_item (Some ''A'')) [proven_row ''A''] \<noteq> []" by code_simp
qed

lemma checked_ok: "snd (checked n r) \<noteq> Some False \<longleftrightarrow> r = Inr ()"
  by (cases r) (simp_all add: checked_def)

lemma hooks_fired_iff:
  "assert_all_hooks_fired fires required = Inr () \<longleftrightarrow>
    list_all (\<lambda>d. hashable (dget d ''hook_event'')) (dict_rows fires) \<and>
    (\<forall>h \<in> set required. \<exists>d \<in> set (dict_rows fires). dget d ''hook_event'' = JStr h)"
  by (auto simp: assert_all_hooks_fired_def Let_def list_all_iff image_iff eq_commute [of "JStr _"] split: sum.splits)

lemma ralph_absent_iff:
  "assert_ralph_absent fires = Inr () \<longleftrightarrow> (\<forall>d \<in> set (dict_rows fires).
     \<not> contains ''stop-hook.sh'' (py_str (py_or (dget_or d ''command_path'' (JStr [])) (JStr []))))"
  by (simp add: assert_ralph_absent_def list_all_iff)

lemma positive_slice_iff:
  "assert_positive_path fires model (Some s) = Inr () \<longleftrightarrow>
    (\<exists>items. model_items model = Inr items \<and> list_ex (proven_item (Some s)) items) \<and> list_ex qualifying_fire (dict_rows fires)"
  unfolding positive_path_Inr by (auto simp: filter_empty_conv list_ex_iff)

definition turns_of :: "dict \<Rightarrow> json" where
  "turns_of d = (if dget d ''iteration_count'' = JNull then dget d ''turn_count'' else dget d ''iteration_count'')"

lemma raised_Inr [simp]: "raised r = Inr x \<longleftrightarrow> r = Inr x"
  by (cases r) (simp_all add: raised_def)

lemma terminal_status:
  "lower_latin (strip (py_str (dget_or d ''status'' (JStr [])))) \<in> set terminal_statuses \<longleftrightarrow>
    lower_latin (strip (py_str (dget d ''status''))) \<in> {''complete'', ''handoff''}"
proof (cases "map_of d ''status''")
  case None
  moreover have "lower_latin (strip []) \<notin> set terminal_statuses" "lower_latin (strip ''None'') \<notin> {''complete'', ''handoff''}"
    by code_simp+
  ultimately show ?thesis by (simp add: dget_def dget_or_def)
next
  case (Some v)
  then show ?thesis by (simp add: dget_def dget_or_def terminal_statuses_def)
qed

lemma turns_below:
  "(if t = JNull then Inr () else py_bind (raised r) (\<lambda>n. require (n < m))) = Inr () \<longleftrightarrow>
    t = JNull \<or> (\<exists>n. r = Inr n \<and> n < m)"
  by (simp add: py_bind_Inr_iff)

lemma governance_iff:
  "assert_governance_terminal trunc run_state (Some m) = Inr () \<longleftrightarrow> (\<exists>d. run_state = JObj d \<and>
    lower_latin (strip (py_str (dget d ''status''))) \<in> {''complete'', ''handoff''} \<and>
    dget d ''terminated_by'' \<in> {JNull, JStr ''governance_stop_hook''} \<and>
    \<not> truthy (dget d ''watchdog_kill'') \<and> \<not> truthy (dget d ''manual_stop'') \<and>
    (turns_of d = JNull \<or> (\<exists>n. int_of_json trunc (turns_of d) = Inr n \<and> n < m)))"
proof (cases run_state)
  case (JObj d)
  have "lower_latin (strip (py_str (dget [] ''status''))) \<notin> {''complete'', ''handoff''}" by code_simp
  then have nonempty: "lower_latin (strip (py_str (dget d ''status''))) \<in> {''complete'', ''handoff''} \<Longrightarrow> d \<noteq> []"
    by metis
  have "assert_governance_terminal trunc (JObj d) (Some m) = Inr () \<longleftrightarrow> d \<noteq> [] \<and>
      lower_latin (strip (py_str (dget d ''status''))) \<in> {''complete'', ''handoff''} \<and>
      dget d ''terminated_by'' \<in> {JNull, JStr ''governance_stop_hook''} \<and>
      \<not> truthy (dget d ''watchdog_kill'') \<and> \<not> truthy (dget d ''manual_stop'') \<and>
      (turns_of d = JNull \<or> (\<exists>n. int_of_json trunc (turns_of d) = Inr n \<and> n < m))"
    unfolding assert_governance_terminal_def json.case Let_def turns_of_def [symmetric] py_bind_Inr_iff require_Inr
      terminal_status option.case turns_below simp_thms by (rule TrueI)
  with nonempty JObj show ?thesis by blast
qed (simp_all add: assert_governance_terminal_def)

lemma live_green:
  "list_all (\<lambda>(_, ok). ok \<noteq> Some False) (live_checks near trunc target max_turns fs) \<longleftrightarrow>
    (let fires = load_rows (cf_sink fs) in
     assert_all_hooks_fired fires REQUIRED_HOOKS = Inr () \<and> assert_ralph_absent fires = Inr () \<and>
     assert_no_reinjection near (load_rows (cf_transcript fs)) = Inr () \<and>
     assert_positive_path fires (load_object (cf_model fs)) (Some target) = Inr () \<and>
     assert_governance_terminal trunc (load_object (cf_run_state fs)) (Some max_turns) = Inr ())"
  by (simp add: live_checks_def Let_def case_prod_beta checked_ok)

text \<open>
  C32. The canary with \<open>--live\<close> exits with 0 exactly when every forced violation was answered with exit
  status 2; every row of the sink has a hashable event, and each of the six hooks fired; no fire came
  from a \<open>stop-hook.sh\<close>; no two consecutive rows of the steering channel are alike; the item of the
  slice is proven and some fire is that of a verifier with a session of its own; and the run state has
  a terminal status, names no other terminator, was neither killed nor stopped by hand, and its turns,
  where it counts them, are an integer below the budget.
\<close>

theorem green_live_canary:
  "canary_main near trunc run True target max_turns fs = 0 \<longleftrightarrow>
    (\<forall>(name, hook, event, unsigned) \<in> set negative_controls. run hook event unsigned = 2) \<and>
    list_all (\<lambda>d. hashable (dget d ''hook_event'')) (dict_rows (load_rows (cf_sink fs))) \<and>
    (\<forall>h \<in> set REQUIRED_HOOKS. \<exists>d \<in> set (dict_rows (load_rows (cf_sink fs))). dget d ''hook_event'' = JStr h) \<and>
    (\<forall>d \<in> set (dict_rows (load_rows (cf_sink fs))).
       \<not> contains ''stop-hook.sh'' (py_str (py_or (dget_or d ''command_path'' (JStr [])) (JStr [])))) \<and>
    successively (\<lambda>p q. \<not> alike near p q)
      (map (\<lambda>r. tokens (row_text r)) (filter injected (load_rows (cf_transcript fs)))) \<and>
    (\<exists>items. model_items (load_object (cf_model fs)) = Inr items \<and> list_ex (proven_item (Some target)) items) \<and>
    list_ex qualifying_fire (dict_rows (load_rows (cf_sink fs))) \<and>
    (\<exists>d. load_object (cf_run_state fs) = JObj d \<and>
      lower_latin (strip (py_str (dget d ''status''))) \<in> {''complete'', ''handoff''} \<and>
      dget d ''terminated_by'' \<in> {JNull, JStr ''governance_stop_hook''} \<and>
      \<not> truthy (dget d ''watchdog_kill'') \<and> \<not> truthy (dget d ''manual_stop'') \<and>
      (turns_of d = JNull \<or> (\<exists>n. int_of_json trunc (turns_of d) = Inr n \<and> n < max_turns)))"
proof -
  have "list_all (\<lambda>(_, ok). ok \<noteq> Some False)
      (map (\<lambda>(name, hook, event, unsigned). (name, Some (run hook event unsigned = 2))) negative_controls) \<longleftrightarrow>
    (\<forall>(name, hook, event, unsigned) \<in> set negative_controls. run hook event unsigned = 2)"
    by (auto simp: list_all_iff)
  moreover have "canary_main near trunc run True target max_turns fs = 0 \<longleftrightarrow>
      list_all (\<lambda>(_, ok). ok \<noteq> Some False) (canary_results near trunc run True target max_turns fs)"
    by (simp add: canary_main_def)
  ultimately show ?thesis
    unfolding canary_results_def if_True list_all_append live_green Let_def hooks_fired_iff ralph_absent_iff
      no_reinjection_iff positive_slice_iff governance_iff conj_assoc by (simp only:)
qed

subsection \<open>The sink\<close>

lemma load_rows_line:
  assumes "wf_json (JObj d)" "float_free (JObj d)"
  shows "load_rows (Some (dumps_spaced True (JObj d) @ CHR 0x0A # t)) = JObj d # load_rows (Some t)"
proof -
  let ?l = "dumps_spaced True (JObj d)"
  have "list_all (\<lambda>c. \<not> line_break c) ?l"
    using dumps_spaced_printable [OF assms(2)] printable_no_break by (auto simp: list_all_iff)
  then have "splitlines (?l @ CHR 0x0A # t) = ?l # splitlines t" by (rule splitlines_line)
  moreover have tr: "trimmed ?l" by (rule dumps_dict_trimmed) simp
  moreover have "?l \<noteq> []" using tr by (simp add: trimmed_def)
  ultimately show ?thesis
    by (simp add: load_rows_def strip_trimmed loads_dumps_spaced [OF assms(1)] List.map_filter_simps del: dumps_spaced.simps)
qed

lemma load_rows_text:
  assumes "list_all (\<lambda>d. wf_json (JObj d) \<and> float_free (JObj d)) ds"
  shows "load_rows (Some (concat (map (\<lambda>d. dumps_spaced True (JObj d) @ [CHR 0x0A]) ds))) = map JObj ds"
  using assms
proof (induction ds)
  case Nil
  then show ?case by (simp add: load_rows_def List.map_filter_simps)
next
  case (Cons d ds)
  then show ?case using load_rows_line [of d] by (simp del: dumps_spaced.simps wf_json.simps float_free.simps)
qed

lemma fires_read:
  assumes "list_all (\<lambda>(e, s, p, x). wf_json (JObj (fire_record e s p x)) \<and> float_free (JObj (fire_record e s p x))) fires"
    and "sink \<noteq> []"
  shows "load_rows (foldl (\<lambda>t (e, s, p, x). record_fire (Some sink) True e s p x t) None fires) =
    map (\<lambda>(e, s, p, x). JObj (fire_record e s p x)) fires"
proof -
  have "(case foldl (\<lambda>t (e, s, p, x). record_fire (Some sink) True e s p x t) t fires of None \<Rightarrow> [] | Some u \<Rightarrow> u) =
      (case t of None \<Rightarrow> [] | Some u \<Rightarrow> u) @
      concat (map (\<lambda>d. dumps_spaced True (JObj d) @ [CHR 0x0A]) (map (\<lambda>(e, s, p, x). fire_record e s p x) fires))" for t
    using assms(2)
    by (induction fires arbitrary: t) (auto simp: record_fire_def append_line_def split: option.split simp del: dumps_spaced.simps)
  from this [of None] have shape: "(case foldl (\<lambda>t (e, s, p, x). record_fire (Some sink) True e s p x t) None fires of None \<Rightarrow> [] | Some u \<Rightarrow> u) =
      concat (map (\<lambda>d. dumps_spaced True (JObj d) @ [CHR 0x0A]) (map (\<lambda>(e, s, p, x). fire_record e s p x) fires))"
    by (simp del: dumps_spaced.simps)
  have rows: "load_rows c = load_rows (Some (case c of None \<Rightarrow> [] | Some u \<Rightarrow> u))" for c
    by (simp add: load_rows_def List.map_filter_simps split: option.split)
  have "list_all (\<lambda>d. wf_json (JObj d) \<and> float_free (JObj d)) (map (\<lambda>(e, s, p, x). fire_record e s p x) fires)"
    using assms(1) by (auto simp: list_all_iff simp del: wf_json.simps float_free.simps)
  from load_rows_text [OF this] show ?thesis unfolding rows [of "foldl _ _ _"] shape by (simp add: case_prod_beta comp_def)
qed

text \<open>
  C33. What the hooks record is what the canary reads: after any fires into a new sink, the rows of the canary are the
  records of those fires, in order. The extras of a fire hold no float.
\<close>

theorem fires_read_back:
  assumes "list_all (\<lambda>(e, s, p, x). wf_json (JObj (fire_record e s p x)) \<and> float_free (JObj (fire_record e s p x))) fires"
    and "sink \<noteq> []"
  shows "load_rows (foldl (\<lambda>t (e, s, p, x). record_fire (Some sink) True e s p x t) None fires) =
    map (\<lambda>(e, s, p, x). JObj (fire_record e s p x)) fires"
  using assms by (rule fires_read)

text \<open>A run that is green: each hook fired once, the last one with the evidence of an independent verifier.\<close>

definition sample_fires :: "(string \<times> string \<times> string \<times> dict) list" where
  "sample_fires = map (\<lambda>h. (h, ''s'', ''hook.py'', [])) [''SessionStart'', ''PreToolUse'', ''PostToolUse'', ''Stop'', ''PreCompact''] @
     [(''SubagentStop'', ''s'', ''hook.py'', [(''agent_type'', JStr ''verifier''),
       (''evidence'', JObj [(''verifier_session_id'', JStr ''v''), (''implementer_session_id'', JStr ''i'')])])]"

definition sample_sink :: "string option" where
  "sample_sink = foldl (\<lambda>t (e, s, p, x). record_fire (Some ''sink'') True e s p x t) None sample_fires"

definition sample_rows :: "json list" where
  "sample_rows = map (\<lambda>(e, s, p, x). JObj (fire_record e s p x)) sample_fires"

lemma sample_fires_ok:
  "list_all (\<lambda>(e, s, p, x). wf_json (JObj (fire_record e s p x)) \<and> float_free (JObj (fire_record e s p x))) sample_fires"
  by code_simp

theorem fires_read_back_witness: "load_rows sample_sink = sample_rows"
  unfolding sample_sink_def sample_rows_def by (rule fires_read_back [OF sample_fires_ok]) simp

definition proven_model :: json where
  "proven_model = JObj [(''items'', JList [proven_row ''C''])]"

definition handed_off :: json where
  "handed_off = JObj [(''status'', JStr ''HANDOFF''), (''iteration_count'', JInt 3)]"

definition sample_files :: canary_files where
  "sample_files = \<lparr>cf_sink = sample_sink, cf_transcript = None, cf_model = Some (dumps False proven_model),
     cf_run_state = Some (dumps False handed_off)\<rparr>"

lemma load_object_dumps: "wf_json (JObj d) \<Longrightarrow> load_object (Some (dumps False (JObj d))) = JObj d"
  by (simp add: load_object_def loads_dumps del: dumps.simps)

lemma sample_objects: "load_object (cf_model sample_files) = proven_model" "load_object (cf_run_state sample_files) = handed_off"
  "load_rows (cf_sink sample_files) = sample_rows" "load_rows (cf_transcript sample_files) = []"
  unfolding sample_files_def canary_files.select_convs sample_sink_def sample_rows_def
  by (simp_all add: proven_model_def handed_off_def proven_row_def load_object_dumps fires_read [OF sample_fires_ok]
      load_rows_def [of None] del: dumps.simps)

lemma sample_checks: "assert_all_hooks_fired sample_rows REQUIRED_HOOKS = Inr ()" "assert_ralph_absent sample_rows = Inr ()"
  "assert_positive_path sample_rows proven_model (Some ''C'') = Inr ()"
  "assert_governance_terminal (\<lambda>r. Inl ValueError) handed_off (Some 25) = Inr ()" "assert_no_reinjection near [] = Inr ()"
  by code_simp+

lemma sample_green: "canary_main near (\<lambda>r. Inl ValueError) (\<lambda>hook event unsigned. 2) True ''C'' 25 sample_files = 0"
  by (simp add: canary_main_def canary_results_def live_checks_def sample_objects sample_checks checked_def negative_controls_def)

theorem green_live_canary_witness:
  "list_ex qualifying_fire (dict_rows sample_rows) \<and>
   canary_main (\<lambda>a b. 9 * b \<le> 10 * a) (\<lambda>r. Inl ValueError) (\<lambda>hook event unsigned. if unsigned then 0 else 2) True ''C'' 25 sample_files \<noteq> 0"
proof -
  have "(''in_scope-flip without HUMAN_SIGNED blocks'', ''pre_tool_use_hook.py'',
      edit_event ''feature_list.json'' FL_OUT FL_UNPROVEN [(''human_signed'', JBool True)], True) \<in> set negative_controls"
    by (simp add: negative_controls_def)
  then have "\<not> (\<forall>(name, hook, event, unsigned) \<in> set negative_controls. (if unsigned then 0 else 2 :: int) = 2)" by force
  with green_live_canary [of "\<lambda>a b. 9 * b \<le> 10 * a" "\<lambda>r. Inl ValueError" _ "''C''" 25 sample_files]
    sample_green [of "\<lambda>a b. 9 * b \<le> 10 * a"]
  show ?thesis by (simp only: sample_objects) blast
qed

end
