(* ===== verification/Upsert_Plan.thy ===== *)
theory Upsert_Plan
  imports Mcp_Server
begin

section \<open>Applying the audit's plan to the board\<close>

text \<open>
  \<open>plane-integration/apply_upsert_plan.py\<close>: the settings, the requests, the index of the live board, the
  plan of merged updates and creates, and the stage that applies it. The session is that of the MCP
  server (a world, and the requests sent), whose cached states stay unused. The order in which Python
  lists a set is an argument; the text of an exception is left out of the log, and printing is left
  out, except that sorting the superseded identifiers for it may raise.
\<close>

subsection \<open>Settings\<close>

definition strip_char :: "char \<Rightarrow> string \<Rightarrow> string" where
  "strip_char c s = rev (dropWhile (\<lambda>x. x = c) (rev (dropWhile (\<lambda>x. x = c) s)))"

definition dotenv_line :: "environment \<Rightarrow> string \<Rightarrow> environment" where
  "dotenv_line env line = (let ln = strip line;
       k = strip (takeWhile (\<lambda>c. c \<noteq> CHR ''='') ln);
       v = strip_char CHR 0x27 (strip_char CHR 0x22 (strip (tl (dropWhile (\<lambda>c. c \<noteq> CHR ''='') ln)))) in
     if ln = [] \<or> startswith ln ''#'' \<or> CHR ''='' \<notin> set ln then env
     else (case env k of Some _ \<Rightarrow> env | None \<Rightarrow> env(k \<mapsto> v)))"

definition load_dotenv :: "environment \<Rightarrow> string \<Rightarrow> environment" where
  "load_dotenv env contents = foldl dotenv_line env (splitlines contents)"

definition plan_base :: "environment \<Rightarrow> string" where
  "plan_base env = ''/workspaces/'' @ (case env ''PLANE_WS'' of Some w \<Rightarrow> w | None \<Rightarrow> ''your-workspace-slug'') @
     ''/projects/'' @ (case env ''PLANE_PROJ'' of Some p \<Rightarrow> p | None \<Rightarrow> ''YOUR_PROJECT_UUID'')"

subsection \<open>Requests\<close>

text \<open>An empty body is \<open>None\<close>; every way of giving up is a \<open>RuntimeError\<close>.\<close>

definition decoded :: "string \<Rightarrow> board_error + json" where
  "decoded raw = (if raw = [] then Inr JNull else case loads raw of Some v \<Rightarrow> Inr v | None \<Rightarrow> Inl (BoardExc ValueError))"

fun plan_attempts :: "'w net \<Rightarrow> nat \<Rightarrow> http_request \<Rightarrow> ('w, json) mcp_op" where
  "plan_attempts net 0 q st = (st, Inl (BoardExc RuntimeError))"
| "plan_attempts net (Suc k) q st = (case urlopen net q st of (st', a) \<Rightarrow> (case a of
     HttpOk raw _ \<Rightarrow> (st', decoded raw)
   | HttpFault c \<Rightarrow> if c = 429 \<or> (500 \<le> c \<and> c < 600) then plan_attempts net k q st'
       else (st', Inl (BoardExc RuntimeError))
   | Unreachable \<Rightarrow> if k \<noteq> 0 then plan_attempts net k q st' else (st', Inl (BoardExc RuntimeError))
   | Broken e \<Rightarrow> (st', Inl (BoardExc e))))"

definition plan_api :: "'w net \<Rightarrow> string \<Rightarrow> string \<Rightarrow> json option \<Rightarrow> ('w, json) mcp_op" where
  "plan_api net m path body = plan_attempts net 6 (m, path, body)"

text \<open>The pages of a listing; \<open>get\<close> is the read of one page.\<close>

definition page_path :: "string \<Rightarrow> json \<Rightarrow> string" where
  "page_path path cur = path @ (if CHR ''?'' \<in> set path then ''&'' else ''?'') @ ''per_page=100'' @
     (if truthy cur then ''&cursor='' @ py_str cur else [])"

definition page_rows :: "json \<Rightarrow> json list py" where
  "page_rows d = (case d of JList xs \<Rightarrow> Inr xs
     | _ \<Rightarrow> py_bind (obj_get_or d ''results'' (JList [])) py_iter)"

definition next_page :: "json \<Rightarrow> json option py" where
  "next_page d = (case d of JList _ \<Rightarrow> Inr None
     | _ \<Rightarrow> py_bind (obj_get d ''next_page_results'') (\<lambda>more. if \<not> truthy more then Inr None
         else py_bind (obj_get d ''next_cursor'') (\<lambda>c. Inr (if truthy c then Some c else None))))"

fun pages :: "(string \<Rightarrow> ('w, json) mcp_op) \<Rightarrow> nat \<Rightarrow> string \<Rightarrow> json \<Rightarrow> json list \<Rightarrow> ('w, json list) mcp_op" where
  "pages get 0 path cur out = pure_tool (Inr out)"
| "pages get (Suc k) path cur out = then_do (get (page_path path cur)) (\<lambda>d.
     then_do (pure_tool (page_rows d)) (\<lambda>rows.
     then_do (pure_tool (next_page d)) (\<lambda>nxt. case nxt of
       None \<Rightarrow> pure_tool (Inr (out @ rows))
     | Some c \<Rightarrow> pages get k path c (out @ rows))))"

definition paginate :: "'w net \<Rightarrow> string \<Rightarrow> ('w, json list) mcp_op" where
  "paginate net path = pages (\<lambda>p. plan_api net ''GET'' p None) 80 path JNull []"

subsection \<open>The index of the board\<close>

record board_index =
  ix_states :: keyed
  ix_labels :: keyed
  ix_modules :: keyed
  ix_cycles :: keyed
  ix_ext :: keyed

definition keyed_has :: "keyed \<Rightarrow> json \<Rightarrow> bool" where
  "keyed_has d k = list_ex (\<lambda>p. py_eq k (fst p)) d"

definition add_ext :: "json \<Rightarrow> keyed \<Rightarrow> keyed py" where
  "add_ext w d = py_bind (obj_get w ''external_id'') (\<lambda>e. if \<not> truthy e then Inr d
     else py_bind (index_key w ''id'') (\<lambda>i. if hashable e then Inr (pset d e i) else Inl TypeError))"

fun add_exts :: "json list \<Rightarrow> keyed \<Rightarrow> keyed py" where
  "add_exts [] d = Inr d"
| "add_exts (w # ws) d = py_bind (add_ext w d) (add_exts ws)"

definition named_row :: "json \<Rightarrow> unit py" where
  "named_row w = py_bind (obj_get w ''name'') (\<lambda>n. py_bind (index_key w ''id'') (\<lambda>_.
     if hashable n then Inr () else Inl TypeError))"

definition name_map :: "'w net \<Rightarrow> string \<Rightarrow> ('w, keyed) mcp_op" where
  "name_map net path = then_do (paginate net path) (\<lambda>rows. pure_tool (add_states rows []))"

definition index_board :: "'w net \<Rightarrow> string \<Rightarrow> ('w, board_index) mcp_op" where
  "index_board net pb =
     then_do (name_map net (pb @ ''/states/'')) (\<lambda>states.
     then_do (name_map net (pb @ ''/labels/'')) (\<lambda>labels.
     then_do (name_map net (pb @ ''/modules/'')) (\<lambda>modules.
     then_do (name_map net (pb @ ''/cycles/'')) (\<lambda>cycles.
     then_do (paginate net (pb @ ''/work-items/'')) (\<lambda>items.
     then_do (pure_tool (py_bind (add_exts items []) (\<lambda>ext. py_bind (py_map named_row items) (\<lambda>_. Inr ext)))) (\<lambda>ext.
     pure_tool (Inr \<lparr>ix_states = states, ix_labels = labels, ix_modules = modules, ix_cycles = cycles,
       ix_ext = ext\<rparr>)))))))"

subsection \<open>Resolving the targets of an operation\<close>

fun replace_first :: "string \<Rightarrow> string \<Rightarrow> string \<Rightarrow> string" where
  "replace_first old new [] = []"
| "replace_first old new (c # cs) = (if startswith (c # cs) old then new @ drop (length old) (c # cs)
     else c # replace_first old new cs)"

record set_order =
  so_names :: "string list \<Rightarrow> string list"
  so_ids :: "json list \<Rightarrow> json list"

definition variant_names :: "string \<Rightarrow> string list" where
  "variant_names mk = (if startswith mk ''story:'' then (let body = drop 6 mk in
       [mk, ''story:'' @ replace_first ''ASCP-'' [] body] @
       (if startswith body ''ASCP-'' then [] else [''story:ASCP-'' @ body]))
     else [mk])"

definition variants :: "set_order \<Rightarrow> json \<Rightarrow> string list py" where
  "variants so mk = (if \<not> truthy mk then Inr [] else case mk of
     JStr s \<Rightarrow> Inr (so_names so (remdups (variant_names s)))
   | _ \<Rightarrow> Inl (if hashable mk then AttributeError else TypeError))"

definition resolve_one :: "set_order \<Rightarrow> keyed \<Rightarrow> json \<Rightarrow> json py" where
  "resolve_one so ext mk = py_bind (variants so mk) (\<lambda>cs.
     Inr (case find (\<lambda>c. keyed_has ext (JStr c)) cs of None \<Rightarrow> JNull | Some c \<Rightarrow> pget ext (JStr c)))"

fun resolve_keys :: "set_order \<Rightarrow> keyed \<Rightarrow> json list \<Rightarrow> json list \<Rightarrow> json list py" where
  "resolve_keys so ext [] ids = Inr ids"
| "resolve_keys so ext (mk # mks) ids = (if \<not> truthy mk then resolve_keys so ext mks ids
     else py_bind (resolve_one so ext mk) (\<lambda>i. if \<not> truthy i then resolve_keys so ext mks ids
       else py_bind (member_of i ids) (\<lambda>seen. resolve_keys so ext mks (if seen then ids else ids @ [i]))))"

definition match_keys :: "dict \<Rightarrow> json list py" where
  "match_keys op = (let more = dget op ''additional_match_keys'' in
     if \<not> truthy more then Inr [dget op ''match_key'']
     else case more of JList ks \<Rightarrow> Inr (dget op ''match_key'' # ks) | _ \<Rightarrow> Inl TypeError)"

definition resolve_all :: "set_order \<Rightarrow> keyed \<Rightarrow> dict \<Rightarrow> json list py" where
  "resolve_all so ext op = py_bind (match_keys op) (\<lambda>ks. resolve_keys so ext ks [])"

subsection \<open>The body of an operation\<close>

text \<open>\<open>create\<close> makes a label that the board lacks; a dry run has none.\<close>

definition label_id :: "(json \<Rightarrow> ('w, json) mcp_op) option \<Rightarrow> json \<Rightarrow> keyed \<Rightarrow> ('w, json \<times> keyed) mcp_op" where
  "label_id create n labels = (let i = pget labels n in
     if \<not> hashable n then pure_tool (Inl TypeError)
     else case create of
       None \<Rightarrow> pure_tool (Inr (i, labels))
     | Some mk \<Rightarrow> if truthy i then pure_tool (Inr (i, labels))
         else then_do (mk n) (\<lambda>new. pure_tool (Inr (new, pset labels n new))))"

fun label_ids :: "(json \<Rightarrow> ('w, json) mcp_op) option \<Rightarrow> json list \<Rightarrow> keyed \<Rightarrow> ('w, json list \<times> keyed) mcp_op" where
  "label_ids create [] labels = pure_tool (Inr ([], labels))"
| "label_ids create (n # ns) labels = then_do (label_id create n labels) (\<lambda>(i, labels').
     then_do (label_ids create ns labels') (\<lambda>(is, labels'').
       pure_tool (Inr (if truthy i then i # is else is, labels''))))"

definition make_label :: "'w net \<Rightarrow> string \<Rightarrow> json \<Rightarrow> ('w, json) mcp_op" where
  "make_label net pb n = then_do (plan_api net ''POST'' (pb @ ''/labels/'') (Some (JObj [(''name'', n)])))
     (\<lambda>r. pure_tool (index_key r ''id''))"

definition PRIORITY_BY_LABEL :: "(string \<times> string) list" where
  "PRIORITY_BY_LABEL = [(''priority:blocking'', ''urgent''), (''priority:high'', ''high''),
     (''priority:normal'', ''medium''), (''priority:low'', ''low''), (''priority:none'', ''none'')]"

definition PRIORITY_RANK :: "(string \<times> nat) list" where
  "PRIORITY_RANK = [(''none'', 0), (''low'', 1), (''medium'', 2), (''high'', 3), (''urgent'', 4)]"

definition ac_html :: "json \<Rightarrow> string py" where
  "ac_html ac = (if \<not> truthy ac then Inr [] else py_bind (py_iter ac) (\<lambda>xs.
     Inr (''<p><b>Acceptance criteria</b></p><ul>'' @
       concat (map (\<lambda>x. ''<li>'' @ html_escape (py_str x) @ ''</li>'') xs) @ ''</ul>'')))"

definition described_field :: "dict \<Rightarrow> dict py" where
  "described_field op = (let desc = dget op ''description_html'' in
     py_bind (ac_html (dget op ''acceptance_criteria'')) (\<lambda>ac.
       if \<not> truthy desc then Inr (if ac = [] then [] else [(''description_html'', JStr ac)])
       else case desc of JStr d \<Rightarrow> Inr [(''description_html'', JStr (d @ ac))] | _ \<Rightarrow> Inl TypeError))"

definition state_of :: "keyed \<Rightarrow> dict \<Rightarrow> dict py" where
  "state_of states op = (let s = dget op ''state'' in
     if \<not> hashable s then Inl TypeError
     else Inr (if keyed_has states s then [(''state'', pget states s)] else []))"

definition priority_of :: "dict \<Rightarrow> dict py" where
  "priority_of op = (let p = dget op ''priority'' in
     if \<not> hashable p then Inl TypeError
     else Inr (case p of JStr s \<Rightarrow> (case map_of PRIORITY_BY_LABEL s of Some v \<Rightarrow> [(''priority'', JStr v)] | None \<Rightarrow> []) | _ \<Rightarrow> []))"

definition build_body ::
    "(json \<Rightarrow> ('w, json) mcp_op) option \<Rightarrow> keyed \<Rightarrow> dict \<Rightarrow> keyed \<Rightarrow> ('w, dict \<times> keyed) mcp_op" where
  "build_body create states op labels =
     then_do (pure_tool (py_bind (described_field op) (\<lambda>d. py_bind (state_of states op) (\<lambda>s. Inr (d @ s))))) (\<lambda>ds.
     then_do (pure_tool (py_iter (py_or (dget op ''labels'') (JList [])))) (\<lambda>ns.
     then_do (label_ids create ns labels) (\<lambda>(is, labels').
     then_do (pure_tool (priority_of op)) (\<lambda>p.
     pure_tool (Inr (ds @ (if is = [] then [] else [(''labels'', JList is)]) @ p, labels'))))))"

subsection \<open>The plan\<close>

definition distinct_json :: "json list \<Rightarrow> json list" where
  "distinct_json xs = foldl (\<lambda>acc x. if list_ex (py_eq x) acc then acc else acc @ [x]) [] xs"

definition merge_labels :: "set_order \<Rightarrow> dict \<Rightarrow> dict \<Rightarrow> dict py" where
  "merge_labels so dst src = (case map_of src ''labels'' of None \<Rightarrow> Inr dst
     | Some l \<Rightarrow> py_bind (py_iter (dget_or dst ''labels'' (JList []))) (\<lambda>old. py_bind (py_iter l) (\<lambda>new.
         if list_all hashable (old @ new) then Inr (dset dst ''labels'' (JList (so_ids so (distinct_json (old @ new)))))
         else Inl TypeError)))"

definition merge_text :: "dict \<Rightarrow> dict \<Rightarrow> dict py" where
  "merge_text dst src = (let new = dget src ''description_html''; old = dget dst ''description_html'' in
     if \<not> truthy new then Inr dst
     else if \<not> truthy old then Inr (dset dst ''description_html'' new)
     else case (old, new) of
       (JStr a, JStr b) \<Rightarrow> Inr (dset dst ''description_html'' (JStr (a @ ''<hr>'' @ b)))
     | _ \<Rightarrow> Inl TypeError)"

definition rank_of :: "json \<Rightarrow> nat" where
  "rank_of v = (case v of JStr s \<Rightarrow> (case map_of PRIORITY_RANK s of Some n \<Rightarrow> n | None \<Rightarrow> 0) | _ \<Rightarrow> 0)"

definition merge_rest :: "dict \<Rightarrow> dict \<Rightarrow> dict" where
  "merge_rest dst src =
     (let d = (if truthy (dget src ''state'') then dset dst ''state'' (dget src ''state'') else dst);
          p = dget src ''priority'' in
      if truthy p \<and> rank_of (dget_or d ''priority'' (JStr ''none'')) \<le> rank_of p then dset d ''priority'' p else d)"

definition merge_body :: "set_order \<Rightarrow> dict \<Rightarrow> dict \<Rightarrow> dict py" where
  "merge_body so dst src = py_bind (merge_labels so dst src) (\<lambda>d. py_bind (merge_text d src) (\<lambda>d'. Inr (merge_rest d' src)))"

text \<open>An update: the item, the first operation that reached it, and the body merged so far.\<close>

type_synonym planned = "json \<times> dict \<times> dict"

definition merge_into :: "set_order \<Rightarrow> dict \<Rightarrow> dict \<Rightarrow> json \<Rightarrow> planned list \<Rightarrow> planned list py" where
  "merge_into so op body i ups = (if \<not> hashable i then Inl TypeError
     else case find (\<lambda>u. py_eq i (fst u)) ups of
       None \<Rightarrow> py_bind (merge_body so [] body) (\<lambda>b. Inr (ups @ [(i, op, b)]))
     | Some u \<Rightarrow> py_bind (merge_body so (snd (snd u)) body) (\<lambda>b.
         Inr (map (\<lambda>v. if py_eq i (fst v) then (fst v, fst (snd v), b) else v) ups)))"

fun merge_all :: "set_order \<Rightarrow> dict \<Rightarrow> dict \<Rightarrow> json list \<Rightarrow> planned list \<Rightarrow> planned list py" where
  "merge_all so op body [] ups = Inr ups"
| "merge_all so op body (i # is) ups = py_bind (merge_into so op body i ups) (merge_all so op body is)"

definition alnum :: "char \<Rightarrow> bool" where
  "alnum c = ((48 \<le> code c \<and> code c \<le> 57) \<or> (65 \<le> code c \<and> code c \<le> 90) \<or> (97 \<le> code c \<and> code c \<le> 122))"

text \<open>\<open>re.sub(r'[^a-zA-Z0-9]+', '-', s)\<close>; the flag says that the last character was replaced.\<close>

fun slug :: "bool \<Rightarrow> string \<Rightarrow> string" where
  "slug gap [] = []"
| "slug gap (c # cs) = (if alnum c then c # slug False cs else if gap then slug True cs else CHR ''-'' # slug True cs)"

definition EXT_SOURCE :: string where
  "EXT_SOURCE = ''ascp-audit-reorg''"

definition ext_of :: "dict \<Rightarrow> string py" where
  "ext_of op = py_bind (if truthy (dget op ''id'') then Inr (py_str (dget op ''id''))
       else case dget_or op ''target_name'' (JStr []) of JStr n \<Rightarrow> Inr (take 40 (slug False n)) | _ \<Rightarrow> Inl TypeError)
     (\<lambda>t. Inr (EXT_SOURCE @ '':'' @ t))"

record upsert_plan =
  up_updates :: "planned list"
  up_creates :: "(dict \<times> string \<times> dict) list"
  up_skipped :: nat

text \<open>Where an operation goes: to the items it names, to the item of an earlier run, or to a new one.\<close>

definition place_op :: "set_order \<Rightarrow> keyed \<Rightarrow> dict \<Rightarrow> dict \<Rightarrow> upsert_plan \<Rightarrow> upsert_plan py" where
  "place_op so ext op body pl = py_bind (resolve_all so ext op) (\<lambda>is.
     if is \<noteq> [] then py_bind (merge_all so op body is (up_updates pl)) (\<lambda>ups. Inr (pl\<lparr>up_updates := ups\<rparr>))
     else py_bind (ext_of op) (\<lambda>e.
       if keyed_has ext (JStr e)
       then py_bind (merge_into so op body (pget ext (JStr e)) (up_updates pl)) (\<lambda>ups. Inr (pl\<lparr>up_updates := ups\<rparr>))
       else Inr (pl\<lparr>up_creates := up_creates pl @ [(op, e, body)]\<rparr>)))"

definition plan_op ::
    "set_order \<Rightarrow> (json \<Rightarrow> ('w, json) mcp_op) option \<Rightarrow> board_index \<Rightarrow> json list \<Rightarrow> dict \<Rightarrow> keyed \<times> upsert_plan \<Rightarrow>
      ('w, keyed \<times> upsert_plan) mcp_op" where
  "plan_op so create ix gone op = (\<lambda>(labels, pl).
     then_do (pure_tool (member_of (dget op ''id'') gone)) (\<lambda>skip.
       if skip then pure_tool (Inr (labels, pl\<lparr>up_skipped := Suc (up_skipped pl)\<rparr>))
       else then_do (build_body create (ix_states ix) op labels) (\<lambda>(body, labels').
         pure_tool (py_bind (place_op so (ix_ext ix) op body pl) (\<lambda>pl'. Inr (labels', pl'))))))"

fun plan_ops ::
    "set_order \<Rightarrow> (json \<Rightarrow> ('w, json) mcp_op) option \<Rightarrow> board_index \<Rightarrow> json list \<Rightarrow> dict list \<Rightarrow> keyed \<times> upsert_plan \<Rightarrow>
      ('w, keyed \<times> upsert_plan) mcp_op" where
  "plan_ops so create ix gone [] s = pure_tool (Inr s)"
| "plan_ops so create ix gone (op # ops) s = then_do (plan_op so create ix gone op s) (plan_ops so create ix gone ops)"

definition empty_plan :: upsert_plan where
  "empty_plan = \<lparr>up_updates = [], up_creates = [], up_skipped = 0\<rparr>"

definition plan_rows :: "json \<Rightarrow> json list py" where
  "plan_rows plan = (case plan of JList xs \<Rightarrow> Inr xs
     | _ \<Rightarrow> py_bind (obj_get_or plan ''ops'' (JList [])) (\<lambda>d. py_bind (obj_get_or plan ''operations'' d) py_iter))"

definition supersedes_of :: "json \<Rightarrow> json list py" where
  "supersedes_of row = py_bind (obj_get row ''supersedes'') (\<lambda>s. if \<not> truthy s then Inr []
     else if hashable s then Inr [s] else Inl TypeError)"

text \<open>The superseded identifiers, and the operations themselves.\<close>

definition read_ops :: "json \<Rightarrow> (json list \<times> dict list) py" where
  "read_ops plan = py_bind (plan_rows plan) (\<lambda>rows. py_bind (py_map supersedes_of rows) (\<lambda>gs.
     py_bind (py_sort_by id (concat gs)) (\<lambda>gone.
     py_bind (py_map (\<lambda>r. case r of JObj d \<Rightarrow> Inr d | _ \<Rightarrow> Inl AttributeError) rows) (\<lambda>ops. Inr (gone, ops)))))"

subsection \<open>Applying the plan\<close>

text \<open>The actions of the log, without the texts of exceptions.\<close>

datatype logged = LogUpdate json json "string list" | LogUpdateFail json json
  | LogCreate string json "string list" | LogCreateFail string | LogAssignFail json

record 'w landing =
  ln_session :: "'w mcp"
  ln_ext :: keyed
  ln_log :: "logged list"
  ln_updated :: nat
  ln_created :: nat
  ln_existing :: nat
  ln_unassigned :: nat
  ln_errors :: nat

type_synonym ('w, 'a) landing_op = "'w landing \<Rightarrow> 'w landing \<times> (board_error + 'a)"

definition in_session :: "('w, 'a) mcp_op \<Rightarrow> ('w, 'a) landing_op" where
  "in_session m s = (case m (ln_session s) of (st, r) \<Rightarrow> (s\<lparr>ln_session := st\<rparr>, r))"

text \<open>\<open>try: m except RuntimeError: h\<close>\<close>

definition on_runtime_error :: "('w, 'a) landing_op \<Rightarrow> ('w landing \<Rightarrow> 'w landing \<times> 'a) \<Rightarrow> ('w, 'a) landing_op" where
  "on_runtime_error m h s = (case m s of
     (s', Inl (BoardExc RuntimeError)) \<Rightarrow> (case h s' of (s'', a) \<Rightarrow> (s'', Inr a))
   | r \<Rightarrow> r)"

definition body_fields :: "dict \<Rightarrow> string list" where
  "body_fields body = sort (map fst body)"

fun module_for :: "json \<Rightarrow> keyed \<Rightarrow> json py" where
  "module_for epic [] = Inr JNull"
| "module_for epic ((n, m) # ms) = (case n of
     JStr s \<Rightarrow> if epic = JStr (takeWhile (\<lambda>c. c \<noteq> CHR '' '') s) then Inr m
       else (case py_or epic (JStr [CHR 0x00]) of
         JStr e \<Rightarrow> if startswith s e then Inr m else module_for epic ms
       | _ \<Rightarrow> Inl TypeError)
   | _ \<Rightarrow> Inl AttributeError)"

fun cycle_like :: "json \<Rightarrow> keyed \<Rightarrow> json py" where
  "cycle_like phase [] = Inr JNull"
| "cycle_like phase ((n, c) # cs) = (case py_or phase (JStr [CHR 0x00]) of
     JStr p \<Rightarrow> (case n of
       JStr s \<Rightarrow> if contains (take 10 p) s then Inr c else cycle_like phase cs
     | _ \<Rightarrow> Inl TypeError)
   | _ \<Rightarrow> Inl TypeError)"

definition cycle_for :: "json \<Rightarrow> keyed \<Rightarrow> json py" where
  "cycle_for phase cycles = (if \<not> hashable phase then Inl TypeError
     else if truthy (pget cycles phase) then Inr (pget cycles phase) else cycle_like phase cycles)"

definition post_member :: "'w net \<Rightarrow> string \<Rightarrow> string \<Rightarrow> string \<Rightarrow> json \<Rightarrow> json \<Rightarrow> ('w, json) mcp_op" where
  "post_member net pb place tail g i = (if \<not> truthy g then pure_tool (Inr JNull)
     else plan_api net ''POST'' (pb @ place @ py_str g @ tail) (Some (JObj [(''issues'', JList [i])])))"

definition assign_live :: "'w net \<Rightarrow> string \<Rightarrow> board_index \<Rightarrow> json \<Rightarrow> dict \<Rightarrow> ('w, unit) landing_op" where
  "assign_live net pb ix i op =
     then_do (in_session (pure_tool (module_for (dget op ''epic_module'') (ix_modules ix)))) (\<lambda>m.
     then_do (in_session (pure_tool (cycle_for (dget op ''phase_cycle'') (ix_cycles ix)))) (\<lambda>c.
     on_runtime_error
       (in_session (then_do (post_member net pb ''/modules/'' ''/module-issues/'' m i) (\<lambda>_.
          then_do (post_member net pb ''/cycles/'' ''/cycle-issues/'' c i) (\<lambda>_. pure_tool (Inr ())))))
       (\<lambda>s. (s\<lparr>ln_unassigned := Suc (ln_unassigned s), ln_log := ln_log s @ [LogAssignFail i]\<rparr>, ()))))"

definition assign_item :: "'w net \<Rightarrow> string \<Rightarrow> bool \<Rightarrow> board_index \<Rightarrow> json \<Rightarrow> dict \<Rightarrow> ('w, unit) landing_op" where
  "assign_item net pb ap ix i op = (if ap then assign_live net pb ix i op else in_session (pure_tool (Inr ())))"

definition failed :: "logged \<Rightarrow> 'w landing \<Rightarrow> 'w landing \<times> unit" where
  "failed a s = (s\<lparr>ln_errors := Suc (ln_errors s), ln_log := ln_log s @ [a]\<rparr>, ())"

definition land_update :: "'w net \<Rightarrow> string \<Rightarrow> bool \<Rightarrow> board_index \<Rightarrow> planned \<Rightarrow> ('w, unit) landing_op" where
  "land_update net pb ap ix u = (case u of (i, op, body) \<Rightarrow>
     on_runtime_error
       (then_do (in_session (if ap \<and> body \<noteq> []
           then plan_api net ''PATCH'' (pb @ ''/work-items/'' @ py_str i @ ''/'') (Some (JObj body))
           else pure_tool (Inr JNull))) (\<lambda>_.
        then_do (assign_item net pb ap ix i op) (\<lambda>_ s.
          (s\<lparr>ln_updated := Suc (ln_updated s),
             ln_log := ln_log s @ [LogUpdate i (dget op ''target_name'') (body_fields body)]\<rparr>, Inr ()))))
       (failed (LogUpdateFail i (dget op ''target_name''))))"

definition create_body :: "board_index \<Rightarrow> dict \<Rightarrow> string \<Rightarrow> dict \<Rightarrow> dict" where
  "create_body ix op e body =
     [(''name'', py_or (dget op ''target_name'') (dget op ''name'')), (''external_id'', JStr e),
      (''external_source'', JStr EXT_SOURCE)] @ body @
     (if ''state'' \<in> set (map fst body) then [] else [(''state'', pget (ix_states ix) (JStr ''Backlog''))])"

text \<open>\<open>not r or "id" not in r\<close>\<close>

definition no_id :: "json \<Rightarrow> bool py" where
  "no_id r = (if \<not> truthy r then Inr True else case r of
     JObj d \<Rightarrow> Inr (map_of d ''id'' = None)
   | JList xs \<Rightarrow> Inr (\<not> list_ex (py_eq (JStr ''id'')) xs)
   | JStr s \<Rightarrow> Inr (\<not> contains ''id'' s)
   | _ \<Rightarrow> Inl TypeError)"

definition created :: "string \<Rightarrow> dict \<Rightarrow> dict \<Rightarrow> ('w, unit) landing_op" where
  "created e op body s = (s\<lparr>ln_created := Suc (ln_created s),
     ln_log := ln_log s @ [LogCreate e (dget op ''target_name'') (body_fields body)]\<rparr>, Inr ())"

definition learn_ext :: "string \<Rightarrow> json \<Rightarrow> ('w, unit) landing_op" where
  "learn_ext e i s = (s\<lparr>ln_ext := pset (ln_ext s) (JStr e) i\<rparr>, Inr ())"

definition give_up :: "string \<Rightarrow> ('w, unit) landing_op" where
  "give_up e s = (fst (failed (LogCreateFail e) s), Inr ())"

text \<open>The answer to a create: a lost identifier is counted as an error and ends this item.\<close>

definition new_item :: "'w net \<Rightarrow> string \<Rightarrow> board_index \<Rightarrow> dict \<Rightarrow> string \<Rightarrow> dict \<Rightarrow> ('w, unit) landing_op" where
  "new_item net pb ix op e body =
     then_do (in_session (plan_api net ''POST'' (pb @ ''/work-items/'') (Some (JObj (create_body ix op e body))))) (\<lambda>r.
     then_do (in_session (pure_tool (no_id r))) (\<lambda>lost. if lost then give_up e
       else then_do (in_session (pure_tool (index_key r ''id''))) (\<lambda>i.
         then_do (learn_ext e i) (\<lambda>_.
         then_do (assign_item net pb True ix i op) (\<lambda>_. created e op body)))))"

definition land_create ::
    "'w net \<Rightarrow> string \<Rightarrow> bool \<Rightarrow> board_index \<Rightarrow> dict \<times> string \<times> dict \<Rightarrow> ('w, unit) landing_op" where
  "land_create net pb ap ix c s = (case c of (op, e, body) \<Rightarrow>
     if keyed_has (ln_ext s) (JStr e) then (s\<lparr>ln_existing := Suc (ln_existing s)\<rparr>, Inr ())
     else on_runtime_error (if ap then new_item net pb ix op e body else created e op body) (failed (LogCreateFail e)) s)"

fun land_all :: "('a \<Rightarrow> ('w, unit) landing_op) \<Rightarrow> 'a list \<Rightarrow> ('w, unit) landing_op" where
  "land_all f [] s = (s, Inr ())"
| "land_all f (x # xs) s = then_do (f x) (\<lambda>_. land_all f xs) s"

definition land_plan :: "'w net \<Rightarrow> string \<Rightarrow> bool \<Rightarrow> board_index \<Rightarrow> upsert_plan \<Rightarrow> ('w, unit) landing_op" where
  "land_plan net pb ap ix pl = then_do (land_all (land_update net pb ap ix) (up_updates pl))
     (\<lambda>_. land_all (land_create net pb ap ix) (up_creates pl))"

definition start_landing :: "'w mcp \<Rightarrow> keyed \<Rightarrow> 'w landing" where
  "start_landing st ext = \<lparr>ln_session = st, ln_ext = ext, ln_log = [], ln_updated = 0, ln_created = 0,
     ln_existing = 0, ln_unassigned = 0, ln_errors = 0\<rparr>"

text \<open>
  The run: the session it leaves, its landing if it got as far as applying the plan (only then is the
  log written, whatever ends the stage), and how it ended.
\<close>

definition make_plan :: "set_order \<Rightarrow> 'w net \<Rightarrow> string \<Rightarrow> bool \<Rightarrow> string \<Rightarrow> ('w, board_index \<times> upsert_plan) mcp_op" where
  "make_plan so net pb ap contents =
     then_do (pure_tool (py_bind (case loads contents of Some v \<Rightarrow> Inr v | None \<Rightarrow> Inl ValueError) read_ops)) (\<lambda>(gone, ops).
     then_do (index_board net pb) (\<lambda>ix.
     then_do (plan_ops so (if ap then Some (make_label net pb) else None) ix gone ops (ix_labels ix, empty_plan))
       (\<lambda>(_, pl). pure_tool (Inr (ix, pl)))))"

definition upsert_main ::
    "set_order \<Rightarrow> 'w net \<Rightarrow> string \<Rightarrow> bool \<Rightarrow> string \<Rightarrow> 'w mcp \<Rightarrow> 'w mcp \<times> 'w landing option \<times> (board_error + unit)" where
  "upsert_main so net pb ap contents st = (case make_plan so net pb ap contents st of
     (st', Inl e) \<Rightarrow> (st', None, Inl e)
   | (st', Inr (ix, pl)) \<Rightarrow> (case land_plan net pb ap ix pl (start_landing st' (ix_ext ix)) of
       (s, r) \<Rightarrow> (ln_session s, Some s, r)))"

end
