(* ===== verification/Upsert_Properties.thy ===== *)
theory Upsert_Properties
  imports Upsert_Plan Mcp_Properties
begin

section \<open>What applying the plan guarantees\<close>

text \<open>
  A dry run only reads and no run deletes; a superseded operation changes nothing; the items to update
  are pairwise different; and once a run has landed, planning again creates nothing.
\<close>

subsection \<open>The requests of a run\<close>

definition whole :: "'w mcp \<Rightarrow> 'w mcp" where
  "whole st = st"

definition sends :: "('s \<Rightarrow> 'w mcp) \<Rightarrow> string set \<Rightarrow> ('s \<Rightarrow> 's \<times> ('e + 'a)) \<Rightarrow> bool" where
  "sends sess M m \<longleftrightarrow> (\<forall>s. \<exists>qs. mc_sent (sess (fst (m s))) = mc_sent (sess s) @ qs \<and> fst ` set qs \<subseteq> M)"

named_theorems sends_rules "which methods an operation sends"

lemma sends_pure [sends_rules]: "sends whole M (pure_tool r)"
  by (simp add: sends_def pure_tool_def)

lemma sends_then [sends_rules]:
  assumes "sends sess M m" "\<And>a. sends sess M (f a)"
  shows "sends sess M (then_do m f)"
  unfolding sends_def
proof
  fix st
  obtain st1 r where m: "m st = (st1, r)" by (cases "m st")
  with assms(1) obtain qs where qs: "mc_sent (sess st1) = mc_sent (sess st) @ qs" "fst ` set qs \<subseteq> M"
    unfolding sends_def by (metis fst_conv)
  show "\<exists>qs. mc_sent (sess (fst (then_do m f st))) = mc_sent (sess st) @ qs \<and> fst ` set qs \<subseteq> M"
  proof (cases r)
    case (Inr a)
    from assms(2) [of a] obtain rs where "mc_sent (sess (fst (f a st1))) = mc_sent (sess st1) @ rs" "fst ` set rs \<subseteq> M"
      unfolding sends_def by blast
    with qs m Inr show ?thesis by (intro exI [of _ "qs @ rs"]) (simp add: then_do_def image_Un)
  qed (use m qs in \<open>auto simp: then_do_def\<close>)
qed

lemma sends_attempts: "sends whole {v} (plan_attempts net k (v, p, b))"
proof (induction k)
  case (Suc k)
  show ?case unfolding sends_def whole_def
  proof
    fix st :: "'a mcp"
    obtain w a where n: "net (v, p, b) (mc_world st) = (w, a)" by (cases "net (v, p, b) (mc_world st)")
    let ?st = "st\<lparr>mc_world := w, mc_sent := mc_sent st @ [(v, p, b)]\<rparr>"
    have step: "urlopen net (v, p, b) st = (?st, a)" by (simp add: urlopen_def n)
    from Suc.IH obtain qs where qs: "mc_sent (fst (plan_attempts net k (v, p, b) ?st)) = mc_sent ?st @ qs" "fst ` set qs \<subseteq> {v}"
      unfolding sends_def whole_def by blast
    have "fst (plan_attempts net (Suc k) (v, p, b) st) \<in> {?st, fst (plan_attempts net k (v, p, b) ?st)}"
      by (simp add: step split: http_answer.split)
    then consider "fst (plan_attempts net (Suc k) (v, p, b) st) = ?st"
      | "fst (plan_attempts net (Suc k) (v, p, b) st) = fst (plan_attempts net k (v, p, b) ?st)" by blast
    then show "\<exists>qs. mc_sent (fst (plan_attempts net (Suc k) (v, p, b) st)) = mc_sent st @ qs \<and> fst ` set qs \<subseteq> {v}"
    proof cases
      case 1
      then show ?thesis by (intro exI [of _ "[(v, p, b)]"]) simp
    next
      case 2
      have "mc_sent (fst (plan_attempts net (Suc k) (v, p, b) st)) = mc_sent st @ (v, p, b) # qs"
        unfolding 2 qs(1) by simp
      moreover have "fst ` set ((v, p, b) # qs) \<subseteq> {v}" using qs(2) by simp
      ultimately show ?thesis by blast
    qed
  qed
qed (simp add: sends_def)

lemma sends_mono:
  assumes "sends whole M m" "M \<subseteq> M'"
  shows "sends whole M' m"
  unfolding sends_def whole_def
proof
  fix st
  from assms(1) obtain qs where "mc_sent (fst (m st)) = mc_sent st @ qs" "fst ` set qs \<subseteq> M"
    unfolding sends_def whole_def by blast
  with assms(2) show "\<exists>qs. mc_sent (fst (m st)) = mc_sent st @ qs \<and> fst ` set qs \<subseteq> M'"
    by (intro exI [of _ qs]) (simp add: order_trans [of _ M])
qed

lemma sends_api [sends_rules]: "v \<in> M \<Longrightarrow> sends whole M (plan_api net v p b)"
  unfolding plan_api_def by (rule sends_mono [OF sends_attempts]) simp

lemma sends_pages: "(\<And>p. sends whole M (get p)) \<Longrightarrow> sends whole M (pages get k path cur out)"
proof (induction k arbitrary: cur out)
  case (Suc k)
  then have "sends whole M (case nxt of None \<Rightarrow> pure_tool (Inr (out @ rows)) | Some c \<Rightarrow> pages get k path c (out @ rows))" for nxt rows
    by (cases nxt) (simp_all add: sends_pure)
  then show ?case unfolding pages.simps by (intro sends_then sends_pure Suc.prems)
qed (simp add: sends_pure)

lemma sends_index [sends_rules]: "''GET'' \<in> M \<Longrightarrow> sends whole M (index_board net pb)"
  by (auto simp: index_board_def name_map_def paginate_def intro!: sends_rules sends_pages)

lemma sends_label_ids:
  "(\<And>mk n. create = Some mk \<Longrightarrow> sends whole M (mk n)) \<Longrightarrow> sends whole M (label_ids create ns labels)"
  by (induction ns arbitrary: labels)
    (auto simp: label_id_def Let_def intro!: sends_rules split: option.split)

lemma sends_plan_ops:
  "(\<And>mk n. create = Some mk \<Longrightarrow> sends whole M (mk n)) \<Longrightarrow> sends whole M (plan_ops so create ix gone ops s)"
  by (induction ops arbitrary: s)
    (auto simp: plan_op_def build_body_def intro!: sends_rules sends_label_ids split: prod.split)

definition run_methods :: "bool \<Rightarrow> string set" where
  "run_methods ap = (if ap then {''GET'', ''POST'', ''PATCH''} else {''GET''})"

lemma sends_make_plan: "sends whole (run_methods ap) (make_plan so net pb ap contents)"
  unfolding make_plan_def
  by (auto simp: run_methods_def make_label_def intro!: sends_rules sends_plan_ops split: prod.split if_splits)

lemma sends_quiet [sends_rules]: "(\<And>s. sess (fst (m s)) = sess s) \<Longrightarrow> sends sess M m"
  by (simp add: sends_def)

lemma sends_session [sends_rules]: "sends whole M m \<Longrightarrow> sends ln_session M (in_session m)"
  by (simp add: sends_def whole_def in_session_def case_prod_beta)

lemma sends_caught [sends_rules]:
  assumes "sends sess M m" "\<And>s. sess (fst (h s)) = sess s"
  shows "sends sess M (on_runtime_error m h)"
proof -
  have "sess (fst (on_runtime_error m h s)) = sess (fst (m s))" for s
    using assms(2) by (simp add: on_runtime_error_def split: prod.splits sum.splits board_error.splits py_exc.splits)
      (metis fst_conv)
  with assms(1) show ?thesis by (simp add: sends_def)
qed

lemma sends_assign: "sends ln_session (run_methods ap) (assign_item net pb ap ix i op)"
proof (cases ap)
  case True
  have "sends whole (run_methods ap) (post_member net pb place rest g i)" for place rest g
    using True by (simp add: post_member_def run_methods_def sends_rules)
  then show ?thesis unfolding assign_item_def assign_live_def if_P [OF True]
    by (intro sends_then sends_caught sends_session sends_pure) simp_all
qed (simp add: assign_item_def sends_session sends_pure)

lemma sends_all:
  assumes "\<And>x. sends sess M (f x)"
  shows "sends sess M (land_all f xs)"
proof (induction xs)
  case (Cons x xs)
  have eq: "land_all f (x # xs) = then_do (f x) (\<lambda>_. land_all f xs)" by (intro ext) simp
  show ?case unfolding eq by (intro sends_then assms Cons)
qed (simp add: sends_def)

lemma sends_update: "sends ln_session (run_methods ap) (land_update net pb ap ix u)"
proof (cases u)
  case (fields i op body)
  have "sends whole (run_methods ap) (if ap \<and> body \<noteq> [] then plan_api net ''PATCH'' p b else pure_tool (Inr JNull))" for p b
    by (simp add: run_methods_def sends_rules)
  then show ?thesis unfolding land_update_def fields prod.case
    by (intro sends_caught sends_then sends_assign sends_session) (simp_all add: failed_def sends_def)
qed

lemma sends_new_item: "sends ln_session (run_methods True) (new_item net pb ix op e body)"
proof -
  have lost: "sends ln_session M (if lost then give_up e else m)" if "sends ln_session M m"
    for M lost and m :: "('a, unit) landing_op"
    using that by (simp add: sends_def give_up_def failed_def)
  show ?thesis unfolding new_item_def
    by (intro sends_then lost sends_assign sends_session sends_pure sends_api)
      (simp_all add: run_methods_def sends_def learn_ext_def created_def)
qed

lemma sends_create: "sends ln_session (run_methods ap) (land_create net pb ap ix c)"
proof (cases c)
  case (fields op e body)
  have "sends ln_session (run_methods ap) (if ap then new_item net pb ix op e body else created e op body)"
    using sends_new_item [of net pb ix op e body] by (simp add: created_def sends_def)
  then have "sends ln_session (run_methods ap)
      (on_runtime_error (if ap then new_item net pb ix op e body else created e op body) (failed (LogCreateFail e)))"
    by (rule sends_caught) (simp add: failed_def)
  then show ?thesis by (cases ap) (simp_all add: sends_def land_create_def fields)
qed

lemma sends_land: "sends ln_session (run_methods ap) (land_plan net pb ap ix pl)"
  unfolding land_plan_def by (intro sends_then sends_all sends_update sends_create)

text \<open>
  C27. Whatever the network answers, a dry run reads and nothing else, and a run that applies the plan reads,
  posts and patches: no request deletes anything.
\<close>

theorem dry_run_reads_only:
  "\<exists>qs. mc_sent (fst (upsert_main so net pb ap contents st)) = mc_sent st @ qs \<and>
     fst ` set qs \<subseteq> (if ap then {''GET'', ''POST'', ''PATCH''} else {''GET''})"
proof -
  obtain st' r where run: "make_plan so net pb ap contents st = (st', r)" by (cases "make_plan so net pb ap contents st")
  with sends_make_plan [of ap so net pb contents] obtain qs where qs: "mc_sent st' = mc_sent st @ qs" "fst ` set qs \<subseteq> run_methods ap"
    unfolding sends_def whole_def by (metis fst_conv)
  show ?thesis
  proof (cases r)
    case (Inr a)
    then obtain ix pl where a: "r = Inr (ix, pl)" by (cases a) simp
    from sends_land [of ap net pb ix pl] obtain rs where
      "mc_sent (ln_session (fst (land_plan net pb ap ix pl (start_landing st' (ix_ext ix))))) = mc_sent st' @ rs" "fst ` set rs \<subseteq> run_methods ap"
      unfolding sends_def by (metis (no_types, lifting) start_landing_def landing.select_convs(1))
    with run a qs show ?thesis
      by (intro exI [of _ "qs @ rs"]) (auto simp: upsert_main_def run_methods_def split: prod.splits)
  qed (use run qs in \<open>auto simp: upsert_main_def run_methods_def\<close>)
qed

subsection \<open>The plan\<close>

definition live :: "json list \<Rightarrow> dict \<Rightarrow> bool" where
  "live gone op \<longleftrightarrow> \<not> list_ex (py_eq (dget op ''id'')) gone"

lemma plan_op_gone:
  assumes "hashable (dget op ''id'')" "\<not> live gone op"
  shows "plan_op so create ix gone op (labels, pl) st = (st, Inr (labels, pl\<lparr>up_skipped := Suc (up_skipped pl)\<rparr>))"
  using assms by (simp add: plan_op_def member_of_def live_def)

lemma plan_op_live:
  assumes "hashable (dget op ''id'')" "live gone op"
  shows "plan_op so create ix gone op (labels, pl) =
    then_do (build_body create (ix_states ix) op labels) (\<lambda>(body, labels').
      pure_tool (py_bind (place_op so (ix_ext ix) op body pl) (\<lambda>pl'. Inr (labels', pl'))))"
  using assms by (intro ext) (simp add: plan_op_def member_of_def live_def)

text \<open>Skipped operations only count: placing an operation does not look at the counter.\<close>

lemma place_op_skipped:
  assumes "place_op so ext op body pl = Inr pl'"
  shows "place_op so ext op body (pl\<lparr>up_skipped := k\<rparr>) = Inr (pl'\<lparr>up_skipped := k\<rparr>)"
  using assms by (cases pl; cases "resolve_all so ext op"; cases "ext_of op")
    (auto simp: place_op_def py_bind_Inr_iff split: if_splits)

lemma place_op_keeps_count: "place_op so ext op body pl = Inr pl' \<Longrightarrow> up_skipped pl' = up_skipped pl"
  by (auto simp: place_op_def py_bind_Inr_iff split: if_splits)

lemma pure_tool_Inr_iff: "pure_tool r st = (st', Inr a) \<longleftrightarrow> st' = st \<and> r = Inr a"
  by (auto simp: pure_tool_def lift_py_def split: sum.splits)

lemma plan_op_Inr:
  assumes "plan_op so create ix gone op (labels, pl) st = (st', Inr (labels', pl'))"
  shows "hashable (dget op ''id'')"
    "live gone op \<Longrightarrow> \<exists>body. build_body create (ix_states ix) op labels st = (st', Inr (body, labels')) \<and>
       place_op so (ix_ext ix) op body pl = Inr pl'"
    "\<not> live gone op \<Longrightarrow> st' = st \<and> labels' = labels \<and> pl' = pl\<lparr>up_skipped := Suc (up_skipped pl)\<rparr>"
proof -
  show h: "hashable (dget op ''id'')"
    using assms by (auto simp: plan_op_def member_of_def split: if_splits)
  show "\<exists>body. build_body create (ix_states ix) op labels st = (st', Inr (body, labels')) \<and> place_op so (ix_ext ix) op body pl = Inr pl'"
    if "live gone op"
    using assms unfolding plan_op_live [OF h that]
    by (auto simp: then_do_Inr_iff pure_tool_Inr_iff py_bind_Inr_iff)
  show "st' = st \<and> labels' = labels \<and> pl' = pl\<lparr>up_skipped := Suc (up_skipped pl)\<rparr>" if "\<not> live gone op"
    using assms unfolding plan_op_gone [OF h that] by simp
qed

lemma plan_op_liveI:
  assumes "hashable (dget op ''id'')" "live gone op"
    "build_body create (ix_states ix) op labels st = (st', Inr (body, labels'))" "place_op so (ix_ext ix) op body pl = Inr pl'"
  shows "plan_op so create ix gone op (labels, pl) st = (st', Inr (labels', pl'))"
  unfolding plan_op_live [OF assms(1,2)] using assms(3,4) by (simp add: then_do_def)

lemma plan_ops_Cons_Inr:
  "plan_ops so create ix gone (op # ops) s st = (st', Inr s') \<longleftrightarrow>
    (\<exists>st1 l p. plan_op so create ix gone op s st = (st1, Inr (l, p)) \<and> plan_ops so create ix gone ops (l, p) st1 = (st', Inr s'))"
  by (auto simp: then_do_Inr_iff)

lemma plan_ops_skipped:
  assumes "plan_ops so create ix gone ops (labels, pl) st = (st', Inr (labels', pl'))" "list_all (live gone) ops"
  shows "plan_ops so create ix gone ops (labels, pl\<lparr>up_skipped := k\<rparr>) st = (st', Inr (labels', pl'\<lparr>up_skipped := k\<rparr>))"
  using assms
proof (induction ops arbitrary: labels pl st)
  case (Cons op ops)
  then obtain st1 l p where step: "plan_op so create ix gone op (labels, pl) st = (st1, Inr (l, p))"
    and rest: "plan_ops so create ix gone ops (l, p) st1 = (st', Inr (labels', pl'))"
    unfolding plan_ops_Cons_Inr by blast
  from Cons.prems(2) have op: "live gone op" and ops: "list_all (live gone) ops" by simp_all
  from plan_op_Inr(2) [OF step op] obtain body where
    "build_body create (ix_states ix) op labels st = (st1, Inr (body, l))" "place_op so (ix_ext ix) op body pl = Inr p" by blast
  then have "plan_op so create ix gone op (labels, pl\<lparr>up_skipped := k\<rparr>) st = (st1, Inr (l, p\<lparr>up_skipped := k\<rparr>))"
    by (intro plan_op_liveI plan_op_Inr(1) [OF step] op place_op_skipped)
  with Cons.IH [OF rest ops] show ?case unfolding plan_ops_Cons_Inr by blast
qed (simp add: pure_tool_def lift_py_def)

lemma plan_ops_live:
  assumes "plan_ops so create ix gone ops (labels, pl) st = (st', Inr (labels', pl'))"
  shows "plan_ops so create ix gone (filter (live gone) ops) (labels, pl) st = (st', Inr (labels', pl'\<lparr>up_skipped := up_skipped pl\<rparr>)) \<and>
    up_skipped pl' = up_skipped pl + length (filter (\<lambda>op. \<not> live gone op) ops)"
  using assms
proof (induction ops arbitrary: labels pl st)
  case (Cons op ops)
  then obtain st1 l p where step: "plan_op so create ix gone op (labels, pl) st = (st1, Inr (l, p))"
    and rest: "plan_ops so create ix gone ops (l, p) st1 = (st', Inr (labels', pl'))"
    unfolding plan_ops_Cons_Inr by blast
  note IH = Cons.IH [OF rest]
  show ?case
  proof (cases "live gone op")
    case True
    from plan_op_Inr(2) [OF step True] have "up_skipped p = up_skipped pl" by (auto dest: place_op_keeps_count)
    with IH True step show ?thesis by (auto simp: plan_ops_Cons_Inr simp del: plan_ops.simps)
  next
    case False
    from plan_op_Inr(3) [OF step False] have eq: "st1 = st" "l = labels" "p = pl\<lparr>up_skipped := Suc (up_skipped pl)\<rparr>" by simp_all
    have "list_all (live gone) (filter (live gone) ops)" by (simp add: list_all_iff)
    from plan_ops_skipped [OF conjunct1 [OF IH] this, of "up_skipped pl"] IH False show ?thesis by (simp add: eq)
  qed
qed (simp add: pure_tool_def lift_py_def)

subsection \<open>What becomes of an operation\<close>

definition fresh :: "set_order \<Rightarrow> keyed \<Rightarrow> dict \<Rightarrow> string \<Rightarrow> bool" where
  "fresh so ext op e \<longleftrightarrow> resolve_all so ext op = Inr [] \<and> ext_of op = Inr e \<and> \<not> keyed_has ext (JStr e)"

definition targets :: "set_order \<Rightarrow> keyed \<Rightarrow> dict \<Rightarrow> json list py" where
  "targets so ext op = py_bind (resolve_all so ext op) (\<lambda>is. if is \<noteq> [] then Inr is
     else py_bind (ext_of op) (\<lambda>e. Inr (if keyed_has ext (JStr e) then [pget ext (JStr e)] else [])))"

definition add_target :: "json list \<Rightarrow> json \<Rightarrow> json list" where
  "add_target ts i = (if list_ex (py_eq i) ts then ts else ts @ [i])"

definition apart :: "json list \<Rightarrow> bool" where
  "apart ts \<longleftrightarrow> sorted_wrt (\<lambda>u v. \<not> py_eq v u) ts"

lemma apart_add: "apart ts \<Longrightarrow> apart (add_target ts i)"
  by (auto simp: apart_def add_target_def sorted_wrt_append list_ex_iff)

lemma apart_adds: "apart ts \<Longrightarrow> apart (foldl add_target ts is)"
  by (induction "is" arbitrary: ts) (simp_all add: apart_add)

lemma find_Some_ex: "find p xs = Some x \<Longrightarrow> list_ex p xs"
  by (induction xs) (auto split: if_splits)

lemma find_None_ex: "find p xs = None \<Longrightarrow> \<not> list_ex p xs"
  by (induction xs) (auto split: if_splits)

lemma list_ex_map: "list_ex p (map f xs) = list_ex (\<lambda>x. p (f x)) xs"
  by (induction xs) simp_all

lemma merge_into_targets:
  assumes "merge_into so op body i ups = Inr ups'"
  shows "map fst ups' = add_target (map fst ups) i \<and> hashable i"
  using assms
  by (auto simp: merge_into_def add_target_def list_ex_map py_bind_Inr_iff split: if_splits option.splits
    dest: find_Some_ex find_None_ex)

lemma merge_all_targets:
  "merge_all so op body is ups = Inr ups' \<Longrightarrow> map fst ups' = foldl add_target (map fst ups) is \<and> list_all hashable is"
proof (induction "is" arbitrary: ups)
  case (Cons i "is")
  then obtain ups1 where "merge_into so op body i ups = Inr ups1" "merge_all so op body is ups1 = Inr ups'"
    by (auto simp: py_bind_Inr_iff)
  with merge_into_targets Cons.IH show ?case by fastforce
qed simp

lemma place_op_Inr:
  assumes "place_op so ext op body pl = Inr pl'"
  obtains (items) "is" where "targets so ext op = Inr is" "list_all hashable is" "\<And>e. \<not> fresh so ext op e"
      "map fst (up_updates pl') = foldl add_target (map fst (up_updates pl)) is" "up_creates pl' = up_creates pl"
  | (new) e where "fresh so ext op e" "targets so ext op = Inr []" "up_updates pl' = up_updates pl"
      "up_creates pl' = up_creates pl @ [(op, e, body)]"
proof -
  from assms obtain "is" where r: "resolve_all so ext op = Inr is" by (auto simp: place_op_def py_bind_Inr_iff)
  show thesis
  proof (cases "is = []")
    case False
    with assms r obtain ups where "merge_all so op body is (up_updates pl) = Inr ups" "pl' = pl\<lparr>up_updates := ups\<rparr>"
      by (auto simp: place_op_def py_bind_Inr_iff)
    with merge_all_targets False r show thesis by (intro items [of "is"]) (auto simp: targets_def fresh_def)
  next
    case True
    with assms r obtain e where e: "ext_of op = Inr e" by (auto simp: place_op_def py_bind_Inr_iff)
    show thesis
    proof (cases "keyed_has ext (JStr e)")
      case has: True
      with assms r e True obtain ups where "merge_into so op body (pget ext (JStr e)) (up_updates pl) = Inr ups" "pl' = pl\<lparr>up_updates := ups\<rparr>"
        by (auto simp: place_op_def py_bind_Inr_iff)
      with merge_into_targets True r e has show thesis
        by (intro items [of "[pget ext (JStr e)]"]) (auto simp: targets_def fresh_def)
    next
      case False
      with assms r e True show thesis by (intro new [of e]) (auto simp: place_op_def targets_def fresh_def)
    qed
  qed
qed

text \<open>The operations that survive, their targets, and what is created.\<close>

definition op_targets :: "set_order \<Rightarrow> keyed \<Rightarrow> dict \<Rightarrow> json list" where
  "op_targets so ext op = (case targets so ext op of Inl _ \<Rightarrow> [] | Inr is \<Rightarrow> is)"

definition op_creates :: "set_order \<Rightarrow> keyed \<Rightarrow> dict \<Rightarrow> (dict \<times> string) list" where
  "op_creates so ext op = (case ext_of op of Inl _ \<Rightarrow> [] | Inr e \<Rightarrow> if fresh so ext op e then [(op, e)] else [])"

definition made :: "upsert_plan \<Rightarrow> (dict \<times> string) list" where
  "made pl = map (\<lambda>(op, e, _). (op, e)) (up_creates pl)"

lemma plan_op_result:
  assumes "plan_op so create ix gone op (labels, pl) st = (st', Inr (labels', pl'))"
  shows "live gone op \<Longrightarrow> map fst (up_updates pl') = foldl add_target (map fst (up_updates pl)) (op_targets so (ix_ext ix) op) \<and>
      made pl' = made pl @ op_creates so (ix_ext ix) op \<and> list_all hashable (op_targets so (ix_ext ix) op) \<and>
      (op_targets so (ix_ext ix) op = [] \<longrightarrow> op_creates so (ix_ext ix) op \<noteq> [])"
    "\<not> live gone op \<Longrightarrow> up_updates pl' = up_updates pl \<and> made pl' = made pl"
proof -
  assume l: "live gone op"
  from plan_op_Inr(2) [OF assms l] obtain body where "place_op so (ix_ext ix) op body pl = Inr pl'" by blast
  then show "map fst (up_updates pl') = foldl add_target (map fst (up_updates pl)) (op_targets so (ix_ext ix) op) \<and>
      made pl' = made pl @ op_creates so (ix_ext ix) op \<and> list_all hashable (op_targets so (ix_ext ix) op) \<and>
      (op_targets so (ix_ext ix) op = [] \<longrightarrow> op_creates so (ix_ext ix) op \<noteq> [])"
  proof (cases rule: place_op_Inr)
    case (items "is")
    have "op_creates so (ix_ext ix) op = []" using items(3) by (simp add: op_creates_def split: sum.split)
    moreover have "is \<noteq> []" using items(1,3) by (auto simp: targets_def fresh_def py_bind_Inr_iff split: if_splits)
    ultimately show ?thesis using items by (simp add: op_targets_def made_def)
  next
    case (new e)
    have "ext_of op = Inr e" using new(1) by (simp add: fresh_def)
    with new show ?thesis by (simp add: op_targets_def op_creates_def made_def)
  qed
next
  assume "\<not> live gone op"
  from plan_op_Inr(3) [OF assms this] show "up_updates pl' = up_updates pl \<and> made pl' = made pl" by (simp add: made_def)
qed

lemma plan_ops_result:
  assumes "plan_ops so create ix gone ops (labels, pl) st = (st', Inr (labels', pl'))"
  shows "map fst (up_updates pl') = foldl add_target (map fst (up_updates pl)) (concat (map (op_targets so (ix_ext ix)) (filter (live gone) ops))) \<and>
    made pl' = made pl @ concat (map (op_creates so (ix_ext ix)) (filter (live gone) ops)) \<and>
    (\<forall>op \<in> set (filter (live gone) ops). list_all hashable (op_targets so (ix_ext ix) op) \<and>
      (op_targets so (ix_ext ix) op = [] \<longrightarrow> op_creates so (ix_ext ix) op \<noteq> []))"
  using assms
proof (induction ops arbitrary: labels pl st)
  case (Cons op ops)
  from Cons.prems obtain st1 l p where step: "plan_op so create ix gone op (labels, pl) st = (st1, Inr (l, p))"
    and rest: "plan_ops so create ix gone ops (l, p) st1 = (st', Inr (labels', pl'))"
    unfolding plan_ops_Cons_Inr by blast
  note IH = Cons.IH [OF rest] and op = plan_op_result [OF step]
  show ?case by (cases "live gone op") (use IH op in simp_all)
qed (simp add: pure_tool_def lift_py_def)

lemma list_ex_adds: "list_ex (py_eq i) ts \<or> (i \<in> set is \<and> hashable i) \<Longrightarrow> list_ex (py_eq i) (foldl add_target ts is)"
proof (induction "is" arbitrary: ts)
  case (Cons j "is")
  have "list_ex (py_eq i) (add_target ts j) \<or> (i \<in> set is \<and> hashable i)"
    using Cons.prems py_eq_refl_hashable [of i] by (auto simp: add_target_def)
  with Cons.IH show ?case by simp
qed simp

text \<open>
  C28. The items of a plan are pairwise different, so that each gets at most one update; and every operation that
  is not superseded is in the plan: each of its targets is an item to update, and if it has none it is a create.
\<close>

theorem every_op_is_planned_once:
  assumes "plan_ops so create ix gone ops (labels, empty_plan) st = (st', Inr (labels', pl))"
  shows "apart (map fst (up_updates pl)) \<and>
    (\<forall>op \<in> set (filter (live gone) ops). (\<exists>is. targets so (ix_ext ix) op = Inr is \<and>
       list_all (\<lambda>i. list_ex (py_eq i) (map fst (up_updates pl))) is \<and> (is = [] \<longrightarrow> op \<in> fst ` set (made pl))))"
proof -
  note r = plan_ops_result [OF assms]
  have "apart []" by (simp add: apart_def)
  with r have apart: "apart (map fst (up_updates pl))" by (simp add: empty_plan_def apart_adds)
  show ?thesis
  proof (intro conjI apart ballI)
    fix op
    assume op: "op \<in> set (filter (live gone) ops)"
    show "\<exists>is. targets so (ix_ext ix) op = Inr is \<and> list_all (\<lambda>i. list_ex (py_eq i) (map fst (up_updates pl))) is \<and>
       (is = [] \<longrightarrow> op \<in> fst ` set (made pl))"
    proof (cases "targets so (ix_ext ix) op")
      case (Inl e)
      then have "op_targets so (ix_ext ix) op = []" "op_creates so (ix_ext ix) op = []"
        by (auto simp: op_targets_def op_creates_def fresh_def targets_def split: sum.splits)
      with r op show ?thesis by blast
    next
      case (Inr "is")
      then have t: "op_targets so (ix_ext ix) op = is" by (simp add: op_targets_def)
      with r op have h: "list_all hashable is" by blast
      have "list_ex (py_eq i) (map fst (up_updates pl))" if "i \<in> set is" for i
      proof -
        have "hashable i" using h that by (simp add: list_all_iff)
        moreover have "i \<in> set (concat (map (op_targets so (ix_ext ix)) (filter (live gone) ops)))" using op t that by auto
        ultimately show ?thesis using r list_ex_adds by (metis (no_types, lifting))
      qed
      moreover have "op \<in> fst ` set (made pl)" if "is = []"
      proof -
        have "op_creates so (ix_ext ix) op \<noteq> []" using r op t that by blast
        then obtain e where "(op, e) \<in> set (op_creates so (ix_ext ix) op)" by (auto simp: op_creates_def split: sum.splits if_splits)
        then have "(op, e) \<in> set (made pl)" using r op by auto
        then show ?thesis by force
      qed
      ultimately show ?thesis using Inr by (auto simp: list_all_iff)
    qed
  qed
qed

subsection \<open>A second run\<close>

lemma keyed_has_JStr: "keyed_has d (JStr c) \<longleftrightarrow> JStr c \<in> fst ` set d"
  by (auto simp: keyed_has_def list_ex_iff)

lemma keyed_has_truthy:
  assumes "keyed_has d k" "list_all (\<lambda>p. truthy (snd p)) d"
  shows "truthy (pget d k)"
  using assms by (induction d) (auto simp: keyed_has_def pget_def)

lemma resolve_keys_keep: "resolve_keys so ext mks ids = Inr is \<Longrightarrow> set ids \<subseteq> set is"
proof (induction mks arbitrary: ids)
  case (Cons mk mks)
  then show ?case by (fastforce simp: py_bind_Inr_iff split: if_splits)
qed simp

lemma resolve_keys_mono:
  assumes "resolve_keys so ext2 mks [] = Inr []" "list_all (\<lambda>p. truthy (snd p)) ext2" "fst ` set ext \<subseteq> fst ` set ext2"
  shows "resolve_keys so ext mks [] = Inr []"
  using assms(1)
proof (induction mks)
  case (Cons mk mks)
  show ?case
  proof (cases "truthy mk")
    case True
    with Cons.prems obtain i where i: "resolve_one so ext2 mk = Inr i" by (auto simp: py_bind_Inr_iff)
    have "\<not> truthy i"
    proof
      assume "truthy i"
      with Cons.prems True i have "resolve_keys so ext2 mks [i] = Inr [] \<or> resolve_keys so ext2 mks [] = Inr [] \<and> False"
        by (auto simp: member_of_def split: if_splits)
      with resolve_keys_keep [of so ext2 mks "[i]" "[]"] show False by simp
    qed
    with Cons.prems True i have rest: "resolve_keys so ext2 mks [] = Inr []" by simp
    from i obtain cs where cs: "variants so mk = Inr cs"
      and f: "i = (case find (\<lambda>c. keyed_has ext2 (JStr c)) cs of None \<Rightarrow> JNull | Some c \<Rightarrow> pget ext2 (JStr c))"
      by (auto simp: resolve_one_def py_bind_Inr_iff)
    have "find (\<lambda>c. keyed_has ext2 (JStr c)) cs = None"
    proof (rule ccontr)
      assume "find (\<lambda>c. keyed_has ext2 (JStr c)) cs \<noteq> None"
      then obtain c where c: "find (\<lambda>c. keyed_has ext2 (JStr c)) cs = Some c" by blast
      then have "keyed_has ext2 (JStr c)" by (auto simp: find_Some_iff)
      with f c \<open>\<not> truthy i\<close> keyed_has_truthy [OF _ assms(2)] show False by simp
    qed
    then have "find (\<lambda>c. keyed_has ext (JStr c)) cs = None"
      using assms(3) unfolding find_None_iff keyed_has_JStr by blast
    with cs have "resolve_one so ext mk = Inr JNull" by (simp add: resolve_one_def)
    with True Cons.IH [OF rest] show ?thesis by simp
  qed (use Cons in simp)
qed simp

lemma fresh_mono:
  assumes "fresh so ext2 op e" "list_all (\<lambda>p. truthy (snd p)) ext2" "fst ` set ext \<subseteq> fst ` set ext2"
  shows "fresh so ext op e"
proof -
  from assms(1) obtain ks where "match_keys op = Inr ks" "resolve_keys so ext2 ks [] = Inr []"
    by (auto simp: fresh_def resolve_all_def py_bind_Inr_iff)
  with resolve_keys_mono [OF _ assms(2,3)] have "resolve_all so ext op = Inr []" by (simp add: resolve_all_def)
  with assms(1,3) show ?thesis by (auto simp: fresh_def keyed_has_JStr)
qed

text \<open>A landed create is known from then on, and errors are never forgotten.\<close>

definition later :: "'w landing \<Rightarrow> 'w landing \<Rightarrow> bool" where
  "later s s' \<longleftrightarrow> ln_errors s \<le> ln_errors s' \<and> fst ` set (ln_ext s) \<subseteq> fst ` set (ln_ext s')"

definition grows :: "('w, 'a) landing_op \<Rightarrow> bool" where
  "grows m \<longleftrightarrow> (\<forall>s. later s (fst (m s)))"

lemma later_trans: "later s t \<Longrightarrow> later t u \<Longrightarrow> later s u"
  by (auto simp: later_def)

lemma later_refl [simp]: "later s s"
  by (simp add: later_def)

lemma grows_later: "grows m \<Longrightarrow> m s = (s', r) \<Longrightarrow> later s s'"
  unfolding grows_def by (metis fst_conv)

lemma grows_then:
  assumes "grows m" "\<And>a. grows (f a)"
  shows "grows (then_do m f)"
  unfolding grows_def
proof
  fix s
  obtain s1 r where m: "m s = (s1, r)" by (cases "m s")
  show "later s (fst (then_do m f s))"
  proof (cases r)
    case (Inr a)
    with m assms later_trans [OF grows_later [OF assms(1) m]] show ?thesis by (simp add: then_do_def grows_def)
  qed (use grows_later [OF assms(1) m] m in \<open>simp add: then_do_def\<close>)
qed

lemma grows_session: "grows (in_session m)"
  by (simp add: grows_def in_session_def later_def case_prod_beta)

lemma grows_caught:
  assumes "grows m" "\<And>s. later s (fst (h s))"
  shows "grows (on_runtime_error m h)"
  unfolding grows_def
proof
  fix s
  obtain s1 r where m: "m s = (s1, r)" by (cases "m s")
  obtain s2 a where h: "h s1 = (s2, a)" by (cases "h s1")
  have "later s s1" by (rule grows_later [OF assms(1) m])
  moreover have "later s1 s2" using assms(2) [of s1] h by simp
  moreover have "fst (on_runtime_error m h s) \<in> {s1, s2}"
    by (simp add: on_runtime_error_def m h split: sum.split board_error.split py_exc.split)
  ultimately show "later s (fst (on_runtime_error m h s))" using later_trans by blast
qed

lemma keys_pset: "fst ` set (pset d (JStr e) v) = insert (JStr e) (fst ` set d)"
proof -
  have "map fst (pset d (JStr e) v) = (if JStr e \<in> set (map fst d) then map fst d else map fst d @ [JStr e])"
    by (simp add: pset_def list_ex_key if_distrib cong: map_cong)
  then have "set (map fst (pset d (JStr e) v)) = set (if JStr e \<in> set (map fst d) then map fst d else map fst d @ [JStr e])"
    by (rule arg_cong)
  then show ?thesis by (auto split: if_splits)
qed

lemma grows_assign: "grows (assign_item net pb ap ix i op)"
  unfolding assign_item_def assign_live_def
  by (simp add: grows_session) (intro impI grows_then grows_caught grows_session; simp add: later_def)

lemma grows_steps: "grows (learn_ext e i)" "grows (give_up e)" "grows (created e op body)" "later s (fst (failed a s))"
  by (auto simp: grows_def later_def learn_ext_def give_up_def created_def failed_def keys_pset)

lemma grows_new_item: "grows (new_item net pb ix op e body)"
proof -
  have lost: "grows (if lost then give_up e else m)" if "grows m" for lost m
    using that by (simp add: grows_steps)
  show ?thesis unfolding new_item_def by (intro grows_then lost grows_session grows_assign grows_steps)
qed

lemma grows_create: "grows (land_create net pb ap ix c)"
proof (cases c)
  case (fields op e body)
  have "grows (on_runtime_error (if ap then new_item net pb ix op e body else created e op body) (failed (LogCreateFail e)))"
    by (intro grows_caught) (simp_all add: grows_new_item grows_steps)
  then show ?thesis by (cases ap) (simp_all add: grows_def land_create_def fields later_def)
qed

lemma new_item_known:
  assumes "new_item net pb ix op e body s = (s', Inr ())"
  shows "ln_errors s < ln_errors s' \<or> keyed_has (ln_ext s') (JStr e)"
proof -
  from assms obtain s1 r s2 lost where a: "in_session (plan_api net ''POST'' (pb @ ''/work-items/'') (Some (JObj (create_body ix op e body)))) s = (s1, Inr r)"
    and b: "in_session (pure_tool (no_id r)) s1 = (s2, Inr lost)"
    and c: "(if lost then give_up e else then_do (in_session (pure_tool (index_key r ''id''))) (\<lambda>i.
      then_do (learn_ext e i) (\<lambda>_. then_do (assign_item net pb True ix i op) (\<lambda>_. created e op body)))) s2 = (s', Inr ())"
    unfolding new_item_def then_do_Inr_iff by blast
  have s: "later s s2" using grows_later [OF grows_session a] grows_later [OF grows_session b] later_trans by blast
  show ?thesis
  proof (cases lost)
    case True
    with c s show ?thesis by (auto simp: give_up_def failed_def later_def)
  next
    case False
    with c obtain s3 i s4 where d: "learn_ext e i s3 = (s4, Inr ())"
      and g: "then_do (assign_item net pb True ix i op) (\<lambda>_. created e op body) s4 = (s', Inr ())"
      by (auto simp: then_do_Inr_iff)
    from grows_later [OF grows_then [OF grows_assign grows_steps(3)] g] have "later s4 s'" .
    with d show ?thesis by (auto simp: keyed_has_JStr later_def learn_ext_def keys_pset)
  qed
qed

lemma caught_Inr:
  assumes "on_runtime_error m (failed a) s = (s', Inr ())"
  shows "m s = (s', Inr ()) \<or> (\<exists>s1. m s = (s1, Inl (BoardExc RuntimeError)) \<and> s' = fst (failed a s1))"
  using assms by (auto simp: on_runtime_error_def failed_def split: prod.splits sum.splits board_error.splits py_exc.splits)

lemma land_create_known:
  assumes "land_create net pb True ix (op, e, body) s = (s', Inr ())"
  shows "ln_errors s < ln_errors s' \<or> keyed_has (ln_ext s') (JStr e)"
proof (cases "keyed_has (ln_ext s) (JStr e)")
  case True
  with assms show ?thesis by (auto simp: land_create_def)
next
  case False
  with assms have "on_runtime_error (new_item net pb ix op e body) (failed (LogCreateFail e)) s = (s', Inr ())"
    by (simp add: land_create_def)
  from caught_Inr [OF this] show ?thesis
  proof (elim disjE exE conjE)
    fix s1
    assume n: "new_item net pb ix op e body s = (s1, Inl (BoardExc RuntimeError))" and s': "s' = fst (failed (LogCreateFail e) s1)"
    from grows_later [OF grows_new_item n] show ?thesis unfolding s' by (auto simp: failed_def later_def)
  qed (rule new_item_known)
qed

lemma grows_all: "(\<And>x. grows (f x)) \<Longrightarrow> grows (land_all f xs)"
proof (induction xs)
  case (Cons x xs)
  have eq: "land_all f (x # xs) = then_do (f x) (\<lambda>_. land_all f xs)" by (intro ext) simp
  show ?case unfolding eq by (intro grows_then Cons)
qed (simp add: grows_def)

lemma land_creates_known:
  assumes "land_all (land_create net pb True ix) cs s = (s', Inr ())" "ln_errors s' = 0"
  shows "\<forall>c \<in> set cs. JStr (fst (snd c)) \<in> fst ` set (ln_ext s')"
  using assms(1)
proof (induction cs arbitrary: s)
  case (Cons c cs)
  then obtain s1 where one: "land_create net pb True ix c s = (s1, Inr ())" and rest: "land_all (land_create net pb True ix) cs s1 = (s', Inr ())"
    by (auto simp: then_do_Inr_iff)
  have l: "later s1 s'" by (rule grows_later [OF grows_all [OF grows_create] rest])
  obtain op e body where c: "c = (op, e, body)" by (cases c)
  have "ln_errors s1 = 0" using l assms(2) by (simp add: later_def)
  with land_create_known [OF one [unfolded c]] have "JStr e \<in> fst ` set (ln_ext s1)" by (simp add: keyed_has_JStr)
  with l Cons.IH [OF rest] show ?case by (auto simp: c later_def)
qed simp

lemma grows_update: "grows (land_update net pb ap ix u)"
proof (cases u)
  case (fields i op body)
  show ?thesis unfolding land_update_def fields prod.case
    by (intro grows_caught grows_then grows_session grows_assign) (simp_all add: grows_def later_def failed_def)
qed

lemma make_plan_Inr:
  assumes "make_plan so net pb ap contents st = (st', Inr (ix, pl))"
  obtains doc gone ops create st1 labels where "loads contents = Some doc" "read_ops doc = Inr (gone, ops)"
    "plan_ops so create ix gone ops (ix_labels ix, empty_plan) st1 = (st', Inr (labels, pl))"
  using assms by (auto simp: make_plan_def then_do_Inr_iff pure_tool_Inr_iff py_bind_Inr_iff split: option.splits)

text \<open>
  C29. If a run with \<open>--apply\<close> ended without an error, then the same plan, on any board that knows the
  external identifiers of the first run and what it created, creates nothing.
\<close>

theorem rerun_creates_nothing:
  assumes "make_plan so net pb True contents st = (st1, Inr (ix, pl))"
    and "land_plan net pb True ix pl (start_landing st1 (ix_ext ix)) = (s, Inr ())" "ln_errors s = 0"
    and "make_plan so net2 pb ap contents st2 = (st3, Inr (ix2, pl2))"
    and "fst ` set (ln_ext s) \<subseteq> fst ` set (ix_ext ix2)" "list_all (\<lambda>p. truthy (snd p)) (ix_ext ix2)"
  shows "up_creates pl2 = []"
proof (rule ccontr)
  assume "up_creates pl2 \<noteq> []"
  then obtain op e where "(op, e) \<in> set (made pl2)" by (cases "up_creates pl2") (auto simp: made_def)
  from assms(1) obtain doc gone ops create st0 labels where run1: "loads contents = Some doc" "read_ops doc = Inr (gone, ops)"
    "plan_ops so create ix gone ops (ix_labels ix, empty_plan) st0 = (st1, Inr (labels, pl))" by (rule make_plan_Inr)
  from assms(4) run1(1,2) obtain create2 st4 labels2 where
    run2: "plan_ops so create2 ix2 gone ops (ix_labels ix2, empty_plan) st4 = (st3, Inr (labels2, pl2))"
    by (elim make_plan_Inr) auto
  note r1 = plan_ops_result [OF run1(3)] and r2 = plan_ops_result [OF run2]
  from r2 \<open>(op, e) \<in> set (made pl2)\<close> have op: "op \<in> set (filter (live gone) ops)" "fresh so (ix_ext ix2) op e"
    by (auto simp: empty_plan_def made_def op_creates_def split: sum.splits if_splits)
  obtain s1 where up: "land_all (land_update net pb True ix) (up_updates pl) (start_landing st1 (ix_ext ix)) = (s1, Inr ())"
    and cr: "land_all (land_create net pb True ix) (up_creates pl) s1 = (s, Inr ())"
    using assms(2) by (auto simp: land_plan_def then_do_Inr_iff)
  from later_trans [OF grows_later [OF grows_all [OF grows_update] up] grows_later [OF grows_all [OF grows_create] cr]]
  have keep: "fst ` set (ix_ext ix) \<subseteq> fst ` set (ix_ext ix2)" using assms(5) by (auto simp: later_def start_landing_def)
  have "fresh so (ix_ext ix) op e" by (rule fresh_mono [OF op(2) assms(6) keep])
  then have "(op, e) \<in> set (op_creates so (ix_ext ix) op)" by (auto simp: op_creates_def fresh_def)
  with r1 op(1) have "(op, e) \<in> set (made pl)" by auto
  then obtain b where "(op, e, b) \<in> set (up_creates pl)" by (auto simp: made_def)
  with bspec [OF land_creates_known [OF cr assms(3)]] have "JStr e \<in> fst ` set (ln_ext s)" by (metis fst_conv snd_conv)
  with assms(5) op(2) show False by (auto simp: fresh_def keyed_has_JStr)
qed

subsection \<open>Samples\<close>

text \<open>Sets listed in the order they are built; a board that lists rows by path and answers every change alike.\<close>

definition in_order :: set_order where
  "in_order = \<lparr>so_names = (\<lambda>ns. ns), so_ids = (\<lambda>is. is)\<rparr>"

definition board_of :: "(string \<Rightarrow> json list) \<Rightarrow> json \<Rightarrow> unit net" where
  "board_of rows answer q w =
     ((), HttpOk (dumps False (if fst q = ''GET'' then JList (rows (fst (snd q))) else answer)) 200)"

lemma plan_api_board:
  assumes "wf_json (if v = ''GET'' then JList (rows p) else answer)"
  shows "plan_api (board_of rows answer) v p b st =
    (st\<lparr>mc_sent := mc_sent st @ [(v, p, b)]\<rparr>, Inr (if v = ''GET'' then JList (rows p) else answer))"
proof -
  let ?v = "if v = ''GET'' then JList (rows p) else answer"
  have "dumps False ?v \<noteq> []" using dumps_hd [OF assms] unfolding dumps_gen_eq by blast
  then have "decoded (dumps False ?v) = Inr ?v" using loads_dumps [OF assms] by (simp add: decoded_def)
  moreover have "urlopen (board_of rows answer) (v, p, b) st = (st\<lparr>mc_sent := mc_sent st @ [(v, p, b)]\<rparr>, HttpOk (dumps False ?v) 200)"
    by (simp add: urlopen_def board_of_def)
  moreover have "(6 :: nat) = Suc 5" by simp
  ultimately show ?thesis unfolding plan_api_def by (simp only: plan_attempts.simps prod.case http_answer.case)
qed

lemma paginate_board:
  assumes "wf_json (JList (rows (page_path path JNull)))"
  shows "paginate (board_of rows answer) path st =
    (st\<lparr>mc_sent := mc_sent st @ [(''GET'', page_path path JNull, None)]\<rparr>, Inr (rows (page_path path JNull)))"
proof -
  have "(80 :: nat) = Suc 79" by simp
  moreover have "plan_api (board_of rows answer) ''GET'' (page_path path JNull) None st =
      (st\<lparr>mc_sent := mc_sent st @ [(''GET'', page_path path JNull, None)]\<rparr>, Inr (JList (rows (page_path path JNull))))"
    using assms by (subst plan_api_board) simp_all
  ultimately show ?thesis
    by (simp only: paginate_def pages.simps) (simp add: then_do_def page_rows_def next_page_def pure_tool_def lift_py_def)
qed

text \<open>One operation on a bare board, and on the board that the run leaves.\<close>

definition one_create :: dict where
  "one_create = [(''id'', JStr ''N1''), (''op'', JStr ''create''), (''target_name'', JStr ''a'')]"

definition plan_text :: "dict list \<Rightarrow> string" where
  "plan_text ops = dumps False (JList (map JObj ops))"

definition bare_board :: "unit net" where
  "bare_board = board_of (\<lambda>_. []) (JObj [(''id'', JStr ''n1'')])"

definition later_rows :: "string \<Rightarrow> json list" where
  "later_rows path = (if path = ''/p/work-items/?per_page=100''
     then [JObj [(''external_id'', JStr ''ascp-audit-reorg:N1''), (''id'', JStr ''n1''), (''name'', JStr ''a'')]] else [])"

definition later_board :: "unit net" where
  "later_board = board_of later_rows JNull"

definition bare_index :: board_index where
  "bare_index = \<lparr>ix_states = [], ix_labels = [], ix_modules = [], ix_cycles = [], ix_ext = []\<rparr>"

definition later_index :: board_index where
  "later_index = bare_index\<lparr>ix_ext := [(JStr ''ascp-audit-reorg:N1'', JStr ''n1'')]\<rparr>"

lemma index_bare: "\<exists>st'. index_board bare_board ''/p'' st = (st', Inr bare_index)"
  by (simp add: index_board_def name_map_def bare_board_def paginate_board then_do_def pure_tool_def lift_py_def bare_index_def)

lemma index_later: "\<exists>st'. index_board later_board ''/p'' st = (st', Inr later_index)"
  by (simp add: index_board_def name_map_def later_board_def paginate_board then_do_def pure_tool_def lift_py_def
      bare_index_def later_index_def later_rows_def page_path_def index_key_def named_row_def add_ext_def pset_def
      numeral_nat)

lemma read_plan_text:
  assumes "list_all (\<lambda>op. wf_json (JObj op)) ops"
  shows "loads (plan_text ops) = Some (JList (map JObj ops))"
proof -
  have "wf_json (JList (map JObj ops))" using assms by (simp add: list_all_iff)
  then show ?thesis unfolding plan_text_def by (rule loads_dumps)
qed

lemma make_planI:
  fixes net :: "'w net"
  assumes "list_all (\<lambda>op. wf_json (JObj op)) ops" "read_ops (JList (map JObj ops)) = Inr (gone, ops)"
    "\<exists>st1. index_board net pb st = (st1, Inr ix)"
    "\<And>(create :: (json \<Rightarrow> ('w, json) mcp_op) option) st1.
      plan_ops so create ix gone ops (ix_labels ix, empty_plan) st1 = (st1, Inr (labels, pl))"
  shows "\<exists>st'. make_plan so net pb ap (plan_text ops) st = (st', Inr (ix, pl))"
  using assms(2,3) by (auto simp: make_plan_def then_do_def read_plan_text [OF assms(1)] assms(4))

lemma read_one: "read_ops (JList (map JObj [one_create])) = Inr ([], [one_create])" "list_all (\<lambda>op. wf_json (JObj op)) [one_create]"
  by code_simp+

lemma place_one:
  "place_op in_order (ix_ext bare_index) one_create [] empty_plan =
      Inr (empty_plan\<lparr>up_creates := [(one_create, ''ascp-audit-reorg:N1'', [])]\<rparr>)"
  "place_op in_order (ix_ext later_index) one_create [] empty_plan = Inr (empty_plan\<lparr>up_updates := [(JStr ''n1'', one_create, [])]\<rparr>)"
  "hashable (dget one_create ''id'')" "live [] one_create"
  by code_simp+

lemma body_one: "build_body create [] one_create labels st = (st, Inr ([], labels))"
proof -
  have "described_field one_create = Inr []" "py_iter (py_or (dget one_create ''labels'') (JList [])) = Inr []"
    "priority_of one_create = Inr []" "state_of [] one_create = Inr []"
    by code_simp+
  then show ?thesis by (simp add: build_body_def)
qed

lemma plan_one:
  assumes "ix_states ix = []" "place_op in_order (ix_ext ix) one_create [] empty_plan = Inr pl"
  shows "plan_ops in_order create ix [] [one_create] (ix_labels ix, empty_plan) st = (st, Inr (ix_labels ix, pl))"
proof -
  have "build_body create (ix_states ix) one_create (ix_labels ix) st = (st, Inr ([], ix_labels ix))"
    unfolding assms(1) by (rule body_one)
  from plan_op_liveI [OF place_one(3,4) this assms(2)] show ?thesis by (simp add: then_do_def)
qed

definition first_plan :: upsert_plan where
  "first_plan = empty_plan\<lparr>up_creates := [(one_create, ''ascp-audit-reorg:N1'', [])]\<rparr>"

lemma samples_stateless: "ix_states bare_index = []" "ix_states later_index = []"
  by (simp_all add: bare_index_def later_index_def)

lemma plan_first: "\<exists>st'. make_plan in_order bare_board ''/p'' ap (plan_text [one_create]) st = (st', Inr (bare_index, first_plan))"
  by (rule make_planI [OF read_one(2,1) index_bare plan_one [OF samples_stateless(1) place_one(1) [folded first_plan_def]]])

lemma plan_second: "\<exists>st'. make_plan in_order later_board ''/p'' ap (plan_text [one_create]) st =
    (st', Inr (later_index, empty_plan\<lparr>up_updates := [(JStr ''n1'', one_create, [])]\<rparr>))"
  by (rule make_planI [OF read_one(2,1) index_later plan_one [OF samples_stateless(2) place_one(2)]])

lemma land_first: "\<exists>s. land_plan bare_board ''/p'' True bare_index first_plan (start_landing st (ix_ext bare_index)) = (s, Inr ()) \<and>
    ln_errors s = 0 \<and> ln_ext s = [(JStr ''ascp-audit-reorg:N1'', JStr ''n1'')]"
  by (simp add: land_plan_def first_plan_def empty_plan_def bare_index_def start_landing_def then_do_def land_create_def
      keyed_has_def on_runtime_error_def new_item_def in_session_def bare_board_def plan_api_board no_id_def pure_tool_def lift_py_def
      index_key_def learn_ext_def pset_def assign_item_def assign_live_def cycle_for_def post_member_def pget_def created_def
      one_create_def)

theorem rerun_creates_nothing_witness:
  "\<exists>st1 st2 pl. make_plan in_order bare_board ''/p'' True (plan_text [one_create]) (empty_session ()) = (st1, Inr (bare_index, first_plan)) \<and>
     length (up_creates first_plan) = 1 \<and>
     make_plan in_order later_board ''/p'' True (plan_text [one_create]) (empty_session ()) = (st2, Inr (later_index, pl)) \<and>
     up_creates pl = []"
proof -
  obtain st1 where one: "make_plan in_order bare_board ''/p'' True (plan_text [one_create]) (empty_session ()) = (st1, Inr (bare_index, first_plan))"
    using plan_first by blast
  obtain s where land: "land_plan bare_board ''/p'' True bare_index first_plan (start_landing st1 (ix_ext bare_index)) = (s, Inr ())"
    "ln_errors s = 0" "ln_ext s = [(JStr ''ascp-audit-reorg:N1'', JStr ''n1'')]"
    using land_first by blast
  obtain st2 pl where two: "make_plan in_order later_board ''/p'' True (plan_text [one_create]) (empty_session ()) = (st2, Inr (later_index, pl))"
    using plan_second by blast
  have "up_creates pl = []"
    by (rule rerun_creates_nothing [OF one land(1,2) two]) (simp_all add: land(3) later_index_def bare_index_def)
  with one two show ?thesis by (simp add: first_plan_def)
qed

theorem every_op_is_planned_once_witness:
  "apart (map fst (up_updates first_plan)) \<and> one_create \<in> fst ` set (made first_plan)"
proof -
  have "plan_ops in_order None bare_index [] [one_create] (ix_labels bare_index, empty_plan) (empty_session ()) =
      (empty_session (), Inr (ix_labels bare_index, first_plan))"
    by (rule plan_one [OF samples_stateless(1) place_one(1) [folded first_plan_def]])
  from every_op_is_planned_once [OF this] have "apart (map fst (up_updates first_plan))"
    and op: "\<exists>is. targets in_order (ix_ext bare_index) one_create = Inr is \<and>
      (is = [] \<longrightarrow> one_create \<in> fst ` set (made first_plan))"
    using place_one(4) by auto
  moreover have "targets in_order (ix_ext bare_index) one_create = Inr []" by code_simp
  ultimately show ?thesis by auto
qed

text \<open>
  An item and the item with the longer name are both candidates: the order in which Python lists the set of
  candidates decides which one the operation changes.
\<close>

theorem set_order_picks_target:
  "let ext = [(JStr ''story:E2-S1'', JStr ''a''), (JStr ''story:ASCP-E2-S1'', JStr ''b'')];
       op = [(''match_key'', JStr ''story:ASCP-E2-S1'')] in
    resolve_all in_order ext op = Inr [JStr ''b''] \<and>
    resolve_all (in_order\<lparr>so_names := rev\<rparr>) ext op = Inr [JStr ''a'']"
  by code_simp

text \<open>
  Two operations without an identifier, whose names have the same first forty letters, share an external
  identifier: once the first is created, the second is skipped as there already, without an error.
\<close>

lemma shared_slug: "take 40 (slug False (replicate 40 CHR ''a'' @ n)) = replicate 40 CHR ''a''"
proof -
  have "slug False (replicate k CHR ''a'' @ n) = replicate k CHR ''a'' @ slug False n" for k
    by (induction k) (simp_all add: alnum_def code_def)
  then show ?thesis by simp
qed

theorem shared_slug_drops_create:
  assumes "ext_of op = Inr e" "ext_of op2 = Inr e" "new_item net pb ix op e body s = (s', Inr ())" "ln_errors s' = ln_errors s"
  shows "land_create net pb True ix (op2, e, body2) s' = (s'\<lparr>ln_existing := Suc (ln_existing s')\<rparr>, Inr ())"
  using new_item_known [OF assms(3)] assms(4) by (simp add: land_create_def)

end
