(* ===== verification/Markdown.thy ===== *)
theory Markdown
  imports Prelude
begin

section \<open>From markdown to HTML\<close>

text \<open>
  \<open>md_to_html\<close> of \<open>plane-integration/apply_delta.py\<close>: escaping, the three inline substitutions, and the
  lines with the open list as state. A regular expression that cannot match in two ways is written as
  the scan it is.
\<close>

definition esc_text_char :: "char \<Rightarrow> string" where
  "esc_text_char c = (if c = CHR ''&'' then ''&amp;'' else if c = CHR ''<'' then ''&lt;''
     else if c = CHR ''>'' then ''&gt;'' else [c])"

definition esc_text :: "string \<Rightarrow> string" where
  "esc_text s = concat (map esc_text_char s)"

subsection \<open>Inline markup\<close>

text \<open>The text up to the next mark, if the mark follows it and it is not empty.\<close>

definition marked_text :: "char \<Rightarrow> string \<Rightarrow> (string \<times> string) option" where
  "marked_text m s = (case dropWhile (\<lambda>c. c \<noteq> m) s of [] \<Rightarrow> None
     | _ # r \<Rightarrow> if takeWhile (\<lambda>c. c \<noteq> m) s = [] then None else Some (takeWhile (\<lambda>c. c \<noteq> m) s, r))"

lemma span_Some: "marked_text m s = Some (t, r) \<Longrightarrow> s = t @ m # r \<and> t \<noteq> [] \<and> m \<notin> set t"
proof -
  assume "marked_text m s = Some (t, r)"
  then have t: "t = takeWhile (\<lambda>c. c \<noteq> m) s" "t \<noteq> []" and d: "\<exists>x. dropWhile (\<lambda>c. c \<noteq> m) s = x # r"
    by (auto simp: marked_text_def split: list.splits if_splits)
  from d obtain x where x: "dropWhile (\<lambda>c. c \<noteq> m) s = x # r" by blast
  then have "x = m" using hd_dropWhile [of "\<lambda>c. c \<noteq> m" s] by simp
  with x t takeWhile_dropWhile_id [of "\<lambda>c. c \<noteq> m" s] show ?thesis by (auto dest: set_takeWhileD)
qed

text \<open>\<open>re.sub(r'`([^`]+)`', r'<code>\1</code>', s)\<close> and the two forms of stars, by fuel, the length of the text.\<close>

fun sub_code :: "nat \<Rightarrow> string \<Rightarrow> string" where
  "sub_code 0 s = s"
| "sub_code (Suc n) [] = []"
| "sub_code (Suc n) (c # cs) = (case (if c = CHR 0x60 then marked_text CHR 0x60 cs else None) of
     Some (t, r) \<Rightarrow> ''<code>'' @ t @ ''</code>'' @ sub_code n r
   | None \<Rightarrow> c # sub_code n cs)"

definition bold_span :: "string \<Rightarrow> (string \<times> string) option" where
  "bold_span s = (case s of a # b # r \<Rightarrow> (if a = CHR ''*'' \<and> b = CHR ''*'' then (case marked_text CHR ''*'' r of
       Some (t, c # r') \<Rightarrow> if c = CHR ''*'' then Some (t, r') else None | _ \<Rightarrow> None) else None)
     | _ \<Rightarrow> None)"

fun sub_bold :: "nat \<Rightarrow> string \<Rightarrow> string" where
  "sub_bold 0 s = s"
| "sub_bold (Suc n) [] = []"
| "sub_bold (Suc n) (c # cs) = (case bold_span (c # cs) of
     Some (t, r) \<Rightarrow> ''<b>'' @ t @ ''</b>'' @ sub_bold n r
   | None \<Rightarrow> c # sub_bold n cs)"

text \<open>A single star: none before it (the flag), and none after the closing one.\<close>

definition italic_span :: "bool \<Rightarrow> string \<Rightarrow> (string \<times> string) option" where
  "italic_span star s = (case s of a # r \<Rightarrow> (if a = CHR ''*'' \<and> \<not> star then (case marked_text CHR ''*'' r of
       Some (t, r') \<Rightarrow> if r' \<noteq> [] \<and> hd r' = CHR ''*'' then None else Some (t, r') | None \<Rightarrow> None) else None)
     | [] \<Rightarrow> None)"

fun sub_italic :: "nat \<Rightarrow> bool \<Rightarrow> string \<Rightarrow> string" where
  "sub_italic 0 star s = s"
| "sub_italic (Suc n) star [] = []"
| "sub_italic (Suc n) star (c # cs) = (case italic_span star (c # cs) of
     Some (t, r) \<Rightarrow> ''<i>'' @ t @ ''</i>'' @ sub_italic n True r
   | None \<Rightarrow> c # sub_italic n (c = CHR ''*'') cs)"

definition inline_html :: "string \<Rightarrow> string" where
  "inline_html s = (let a = esc_text s; b = sub_code (length a) a; d = sub_bold (length b) b in sub_italic (length d) False d)"

subsection \<open>Lines\<close>

definition rstrip :: "string \<Rightarrow> string" where
  "rstrip s = rev (dropWhile is_space (rev s))"

text \<open>The text after the mark of a heading, a bullet or a number, and the white space that must follow it.\<close>

definition after_space :: "string \<Rightarrow> string option" where
  "after_space s = (case s of [] \<Rightarrow> None | c # _ \<Rightarrow> if is_space c then Some (dropWhile is_space s) else None)"

definition heading :: "string \<Rightarrow> (nat \<times> string) option" where
  "heading s = (let n = length (takeWhile (\<lambda>c. c = CHR ''#'') s) in
     if 1 \<le> n \<and> n \<le> 6 then map_option (Pair n) (after_space (drop n s)) else None)"

definition bullet :: "string \<Rightarrow> string option" where
  "bullet s = (case dropWhile is_space s of [] \<Rightarrow> None
     | c # r \<Rightarrow> if c = CHR ''-'' \<or> c = CHR ''*'' then after_space r else None)"

definition numbered :: "string \<Rightarrow> string option" where
  "numbered s = (let t = dropWhile is_space s; r = dropWhile digit_char t in
     if takeWhile digit_char t = [] then None
     else case r of [] \<Rightarrow> None | c # r' \<Rightarrow> if c = CHR ''.'' \<or> c = CHR '')'' then after_space r' else None)"

record lists =
  in_ul :: bool
  in_ol :: bool

definition close_ul :: "lists \<Rightarrow> string" where
  "close_ul l = (if in_ul l then ''</ul>'' else [])"

definition close_ol :: "lists \<Rightarrow> string" where
  "close_ol l = (if in_ol l then ''</ol>'' else [])"

definition no_lists :: lists where
  "no_lists = \<lparr>in_ul = False, in_ol = False\<rparr>"

definition heading_html :: "nat \<Rightarrow> string \<Rightarrow> string" where
  "heading_html n t = (let l = dec_digits (min (n + 2) 6) in ''<h'' @ l @ ''>'' @ inline_html t @ ''</h'' @ l @ ''>'')"

definition line_html :: "string \<Rightarrow> lists \<Rightarrow> string \<times> lists" where
  "line_html line l = (let s = rstrip line; closed = close_ul l @ close_ol l in
     if strip s = [] then (closed, no_lists)
     else case heading s of
       Some (n, t) \<Rightarrow> (closed @ heading_html n t, no_lists)
     | None \<Rightarrow> (case bullet s of
         Some t \<Rightarrow> (close_ol l @ (if in_ul l then [] else ''<ul>'') @ ''<li>'' @ inline_html t @ ''</li>'', \<lparr>in_ul = True, in_ol = False\<rparr>)
       | None \<Rightarrow> (case numbered s of
           Some t \<Rightarrow> (close_ul l @ (if in_ol l then [] else ''<ol>'') @ ''<li>'' @ inline_html t @ ''</li>'', \<lparr>in_ul = False, in_ol = True\<rparr>)
         | None \<Rightarrow> (closed @ ''<p>'' @ inline_html s @ ''</p>'', no_lists))))"

fun lines_html :: "string list \<Rightarrow> lists \<Rightarrow> string" where
  "lines_html [] l = close_ul l @ close_ol l"
| "lines_html (line # rest) l = (case line_html line l of (h, l') \<Rightarrow> h @ lines_html rest l')"

definition md_to_html :: "string \<Rightarrow> string" where
  "md_to_html md = (if md = [] then ''<p></p>''
     else lines_html (split_on (\<lambda>c. c = CHR 0x0A) (replace_all [CHR 0x0D, CHR 0x0A] [CHR 0x0A] md)) no_lists)"

subsection \<open>Nothing of the input becomes a tag\<close>

definition html_tags :: "string set" where
  "html_tags = {''<code>'', ''</code>'', ''<b>'', ''</b>'', ''<i>'', ''</i>'', ''<ul>'', ''</ul>'', ''<ol>'', ''</ol>'',
     ''<li>'', ''</li>'', ''<p>'', ''</p>'', ''<h3>'', ''</h3>'', ''<h4>'', ''</h4>'', ''<h5>'', ''</h5>'', ''<h6>'', ''</h6>''}"

inductive tagged :: "string \<Rightarrow> bool" where
  tagged_Nil: "tagged []"
| tagged_char: "c \<noteq> CHR ''<'' \<Longrightarrow> c \<noteq> CHR ''>'' \<Longrightarrow> tagged s \<Longrightarrow> tagged (c # s)"
| tagged_tag: "t \<in> html_tags \<Longrightarrow> tagged s \<Longrightarrow> tagged (t @ s)"

lemma tagged_append: "tagged s \<Longrightarrow> tagged t \<Longrightarrow> tagged (s @ t)"
  by (induction rule: tagged.induct) (simp_all add: tagged.intros)

lemma tagged_of_tag: "t \<in> html_tags \<Longrightarrow> tagged t"
  using tagged_tag [OF _ tagged_Nil] by simp

definition mark :: "char \<Rightarrow> bool" where
  "mark c \<longleftrightarrow> c = CHR ''*'' \<or> c = CHR 0x60"

lemma tags_unmarked: "t \<in> html_tags \<Longrightarrow> mark c \<Longrightarrow> c \<notin> set t"
  by (auto simp: html_tags_def mark_def)

lemma tagged_split:
  assumes "tagged s" "s = a @ c # b" "mark c"
  shows "tagged a \<and> tagged b"
  using assms(1,2)
proof (induction arbitrary: a rule: tagged.induct)
  case (tagged_char x s)
  show ?case
  proof (cases a)
    case (Cons y a')
    with tagged_char show ?thesis using tagged.tagged_char by auto
  qed (use tagged_char tagged_Nil in auto)
next
  case (tagged_tag t s)
  from tagged_tag.prems obtain us where "(a = t @ us \<and> s = us @ c # b) \<or> (t = a @ us \<and> us @ s = c # b)"
    by (auto simp: append_eq_append_conv2)
  then have "(\<exists>u. a = t @ u \<and> s = u @ c # b) \<or> (\<exists>u. t = a @ c # u)"
    by (cases us) auto
  with tags_unmarked [OF tagged_tag.hyps(1) assms(3)] obtain u where "a = t @ u" "s = u @ c # b" by auto
  with tagged_tag.IH [of u] tagged_tag.hyps(1) show ?case using tagged.tagged_tag by simp
qed simp

lemma tagged_esc: "tagged (esc_text s)"
proof (induction s)
  case (Cons c s)
  have "tagged (esc_text_char c)" by (auto simp: esc_text_char_def intro!: tagged.intros)
  with Cons show ?case by (simp add: esc_text_def tagged_append)
qed (simp add: esc_text_def tagged_Nil)

lemma tagged_wrap: "x \<in> html_tags \<Longrightarrow> y \<in> html_tags \<Longrightarrow> tagged t \<Longrightarrow> tagged r \<Longrightarrow> tagged (x @ t @ y @ r)"
  by (intro tagged_append) (auto intro: tagged_of_tag)

lemma tagged_span:
  assumes "tagged (pre @ m # s)" "mark m" "marked_text m s = Some (t, r)"
  shows "tagged t" "tagged r"
proof -
  have "tagged s" using tagged_split [OF assms(1) refl assms(2)] by blast
  with span_Some [OF assms(3)] tagged_split [OF _ _ assms(2)] show "tagged t" "tagged r" by blast+
qed

lemma code_tags: "''<code>'' \<in> html_tags" "''</code>'' \<in> html_tags" "''<b>'' \<in> html_tags" "''</b>'' \<in> html_tags"
  "''<i>'' \<in> html_tags" "''</i>'' \<in> html_tags"
  by (simp_all add: html_tags_def)

text \<open>A substitution copies up to a mark, which is outside of every tag; \<open>pre\<close> is what it has copied.\<close>

lemma tagged_after: "tagged (pre @ m # s) \<Longrightarrow> mark m \<Longrightarrow> tagged pre \<and> tagged s"
  using tagged_split by blast

lemma tagged_sub_code: "tagged (pre @ s) \<Longrightarrow> tagged (pre @ sub_code n s)"
proof (induction n s arbitrary: pre rule: sub_code.induct)
  case (3 n c cs)
  show ?case
  proof (cases "if c = CHR 0x60 then marked_text CHR 0x60 cs else None")
    case None
    with 3(1) [OF None, of "pre @ [c]"] 3(3) show ?thesis by simp
  next
    case (Some p)
    then obtain t r where c: "c = CHR 0x60" and p: "p = (t, r)" and sp: "marked_text CHR 0x60 cs = Some (t, r)"
      by (cases p) (auto split: if_splits)
    have m: "mark CHR 0x60" by (simp add: mark_def)
    have "tagged pre" using tagged_after [OF 3(3) [unfolded c] m] by blast
    moreover note ts = tagged_span [OF 3(3) [unfolded c] m sp]
    have "tagged (sub_code n r)" using 3(2) [OF Some p [symmetric], of "[]"] ts(2) by simp
    ultimately show ?thesis
      using tagged_wrap [OF code_tags(1,2) ts(1)] tagged_append Some p by simp
  qed
qed simp_all

lemma bold_span_Some: "bold_span s = Some (t, r) \<Longrightarrow> s = CHR ''*'' # CHR ''*'' # t @ CHR ''*'' # CHR ''*'' # r"
  by (auto simp: bold_span_def split: list.splits if_splits option.splits dest!: span_Some)

lemma italic_span_Some: "italic_span star s = Some (t, r) \<Longrightarrow> s = CHR ''*'' # t @ CHR ''*'' # r"
  by (auto simp: italic_span_def split: list.splits if_splits option.splits dest!: span_Some)

lemma mark_star: "mark CHR ''*''"
  by (simp add: mark_def)

lemma tagged_sub_bold: "tagged (pre @ s) \<Longrightarrow> tagged (pre @ sub_bold n s)"
proof (induction n s arbitrary: pre rule: sub_bold.induct)
  case (3 n c cs)
  show ?case
  proof (cases "bold_span (c # cs)")
    case None
    with 3(1) [OF None, of "pre @ [c]"] 3(3) show ?thesis by simp
  next
    case (Some p)
    obtain t r where p: "p = (t, r)" by (cases p)
    from 3(3) bold_span_Some [OF Some [unfolded p]] have "tagged (pre @ CHR ''*'' # CHR ''*'' # t @ CHR ''*'' # CHR ''*'' # r)" by simp
    from tagged_after [OF this mark_star] have pre: "tagged pre" and "tagged ([] @ CHR ''*'' # t @ CHR ''*'' # CHR ''*'' # r)" by simp_all
    from tagged_after [OF this(2) mark_star] have "tagged (t @ CHR ''*'' # CHR ''*'' # r)" by blast
    from tagged_after [OF this mark_star] have t: "tagged t" and "tagged ([] @ CHR ''*'' # r)" by simp_all
    from tagged_after [OF this(2) mark_star] have "tagged r" by blast
    then have "tagged (sub_bold n r)" using 3(2) [OF Some p [symmetric], of "[]"] by simp
    then show ?thesis using tagged_wrap [OF code_tags(3,4) t] tagged_append pre Some p by simp
  qed
qed simp_all

lemma tagged_sub_italic: "tagged (pre @ s) \<Longrightarrow> tagged (pre @ sub_italic n star s)"
proof (induction n star s arbitrary: pre rule: sub_italic.induct)
  case (3 n star c cs)
  show ?case
  proof (cases "italic_span star (c # cs)")
    case None
    with 3(1) [OF None, of "pre @ [c]"] 3(3) show ?thesis by simp
  next
    case (Some p)
    obtain t r where p: "p = (t, r)" by (cases p)
    from 3(3) italic_span_Some [OF Some [unfolded p]] have "tagged (pre @ CHR ''*'' # t @ CHR ''*'' # r)" by simp
    from tagged_after [OF this mark_star] have pre: "tagged pre" and "tagged (t @ CHR ''*'' # r)" by simp_all
    from tagged_after [OF this(2) mark_star] have t: "tagged t" and "tagged r" by simp_all
    then have "tagged (sub_italic n True r)" using 3(2) [OF Some p [symmetric], of "[]"] by simp
    then show ?thesis using tagged_wrap [OF code_tags(5,6) t] tagged_append pre Some p by simp
  qed
qed simp_all

lemma tagged_inline: "tagged (inline_html s)"
  using tagged_sub_italic [of "[]"] tagged_sub_bold [of "[]"] tagged_sub_code [of "[]"] tagged_esc
  by (simp add: inline_html_def Let_def)

lemma block_tags: "''<ul>'' \<in> html_tags" "''</ul>'' \<in> html_tags" "''<ol>'' \<in> html_tags" "''</ol>'' \<in> html_tags"
  "''<li>'' \<in> html_tags" "''</li>'' \<in> html_tags" "''<p>'' \<in> html_tags" "''</p>'' \<in> html_tags"
  by (simp_all add: html_tags_def)

lemma tagged_block: "x \<in> html_tags \<Longrightarrow> y \<in> html_tags \<Longrightarrow> tagged t \<Longrightarrow> tagged (x @ t @ y)"
  by (intro tagged_append) (auto intro: tagged_of_tag)

lemma level_digits: "dec_digits 3 = ''3''" "dec_digits 4 = ''4''" "dec_digits 5 = ''5''" "dec_digits 6 = ''6''"
  by code_simp+

lemma tagged_heading:
  assumes "1 \<le> n"
  shows "tagged (heading_html n t)"
proof -
  have "min (n + 2) 6 \<in> {3, 4, 5, 6}" using assms by auto
  then have "(''<h'' @ dec_digits (min (n + 2) 6) @ ''>'') \<in> html_tags \<and> (''</h'' @ dec_digits (min (n + 2) 6) @ ''>'') \<in> html_tags"
    by (elim insertE emptyE) (simp_all only: level_digits, simp_all add: html_tags_def)
  from tagged_block [OF conjunct1 [OF this] conjunct2 [OF this] tagged_inline [of t]] show ?thesis
    by (simp add: heading_html_def Let_def)
qed

lemma tagged_close: "tagged (close_ul l)" "tagged (close_ol l)"
  using tagged_of_tag block_tags tagged_Nil by (simp_all add: close_ul_def close_ol_def)

lemma tagged_line: "tagged (fst (line_html line l))"
proof -
  have h: "tagged (heading_html n t)" if "heading s = Some (n, t)" for n t s
    using that by (intro tagged_heading) (auto simp: heading_def Let_def split: if_splits)
  note li = tagged_block [OF block_tags(5,6) tagged_inline] and p = tagged_block [OF block_tags(7,8) tagged_inline]
  have ul: "tagged ((if b then [] else ''<ul>'') @ ''<li>'' @ inline_html t @ ''</li>'')" for b t
    using li [of t] tagged_append [OF tagged_of_tag [OF block_tags(1)] li [of t]] by auto
  have ol: "tagged ((if b then [] else ''<ol>'') @ ''<li>'' @ inline_html t @ ''</li>'')" for b t
    using li [of t] tagged_append [OF tagged_of_tag [OF block_tags(3)] li [of t]] by auto
  have c: "tagged (close_ul l @ close_ol l)" by (rule tagged_append [OF tagged_close])
  let ?s = "rstrip line"
  consider "strip ?s = []"
    | n t where "strip ?s \<noteq> []" "heading ?s = Some (n, t)"
    | t where "strip ?s \<noteq> []" "heading ?s = None" "bullet ?s = Some t"
    | t where "strip ?s \<noteq> []" "heading ?s = None" "bullet ?s = None" "numbered ?s = Some t"
    | "strip ?s \<noteq> []" "heading ?s = None" "bullet ?s = None" "numbered ?s = None"
    by (metis option.exhaust prod.exhaust)
  then show ?thesis
  proof cases
    case 1
    then show ?thesis using c by (simp add: line_html_def)
  next
    case (2 n t)
    then show ?thesis using tagged_append [OF c h [OF 2(2)]] by (simp add: line_html_def)
  next
    case (3 t)
    then show ?thesis using tagged_append [OF tagged_close(2) ul] by (simp add: line_html_def)
  next
    case (4 t)
    then show ?thesis using tagged_append [OF tagged_close(1) ol] by (simp add: line_html_def)
  next
    case 5
    then show ?thesis using tagged_append [OF c p] by (simp add: line_html_def)
  qed
qed

lemma tagged_lines: "tagged (lines_html ls l)"
proof (induction ls arbitrary: l)
  case (Cons line ls)
  then show ?case using tagged_append [OF tagged_line [of line l]] by (simp add: case_prod_beta)
qed (simp add: tagged_append tagged_close)

text \<open>
  C31. The HTML is made of the tags of a fixed list and of characters that are neither angle bracket: nothing that
  the markdown contains reaches the board as a tag, an attribute or a script.
\<close>

theorem md_to_html_tagged: "tagged (md_to_html md)"
  using tagged_lines tagged_of_tag [OF block_tags(7)] tagged_append [OF tagged_of_tag [OF block_tags(7)] tagged_of_tag [OF block_tags(8)]]
  by (simp add: md_to_html_def)

text \<open>A list item keeps its code and its emphasis; a tag in the source is shown as text.\<close>

lemma md_sample: "md_to_html (''- use `a<b` and **c**'') = ''<ul><li>use <code>a&lt;b</code> and <b>c</b></li></ul>''"
  by code_simp

end
