(* ===== verification/Delta_Plan.thy ===== *)
theory Delta_Plan
  imports Upsert_Properties Markdown Req_Scan
begin

section \<open>Applying the delta plan to the board\<close>

text \<open>
  \<open>plane-integration/apply_delta.py\<close>: updates, appends, creates and relations, one operation after the
  other, on the session, the pages, the label step and the candidates of the upsert script, which this script has
  copied. The log keeps no text of an exception. A listing of the board, its labels and the identifiers it
  has learnt are threaded through the operations.
\<close>

subsection \<open>Requests\<close>

text \<open>Here a server that cannot be reached ends the request.\<close>

fun delta_attempts :: "'w net \<Rightarrow> nat \<Rightarrow> http_request \<Rightarrow> ('w, json) mcp_op" where
  "delta_attempts net 0 q st = (st, Inl (BoardExc RuntimeError))"
| "delta_attempts net (Suc k) q st = (case urlopen net q st of (st', a) \<Rightarrow> (case a of
     HttpOk raw _ \<Rightarrow> (st', decoded raw)
   | HttpFault c \<Rightarrow> if c = 429 \<or> (500 \<le> c \<and> c < 600) then delta_attempts net k q st'
       else (st', Inl (BoardExc RuntimeError))
   | Unreachable \<Rightarrow> (st', Inl (BoardExc RuntimeError))
   | Broken e \<Rightarrow> (st', Inl (BoardExc e))))"

definition delta_api :: "'w net \<Rightarrow> string \<Rightarrow> string \<Rightarrow> json option \<Rightarrow> ('w, json) mcp_op" where
  "delta_api net m path body = delta_attempts net 6 (m, path, body)"

definition delta_pages :: "'w net \<Rightarrow> string \<Rightarrow> ('w, json list) mcp_op" where
  "delta_pages net path = pages (\<lambda>p. delta_api net ''GET'' p None) 120 path JNull []"

subsection \<open>The board, and what the run has learnt\<close>

record delta_index =
  dx_states :: keyed
  dx_modules :: "json list"
  dx_cycles :: "json list"
  dx_names :: keyed

datatype delta_log = DeltaUpdate json json "string list" | DeltaMiss json | DeltaCreate json json | DeltaSkip json
  | RelationMiss json json | RelationMade json json json | DeltaError json

record 'w delta =
  dl_session :: "'w mcp"
  dl_labels :: keyed
  dl_ext :: keyed
  dl_log :: "delta_log list"
  dl_updates :: nat
  dl_creates :: nat
  dl_relations :: nat
  dl_skips :: nat
  dl_errors :: nat

type_synonym ('w, 'a) delta_op = "'w delta \<Rightarrow> 'w delta \<times> (board_error + 'a)"

definition on_board :: "('w, 'a) mcp_op \<Rightarrow> ('w, 'a) delta_op" where
  "on_board m s = (case m (dl_session s) of (st, r) \<Rightarrow> (s\<lparr>dl_session := st\<rparr>, r))"

definition value_of :: "'a py \<Rightarrow> ('w, 'a) delta_op" where
  "value_of r = on_board (pure_tool r)"

definition tell :: "('w delta \<Rightarrow> 'w delta) \<Rightarrow> ('w, unit) delta_op" where
  "tell f s = (f s, Inr ())"

definition add_name :: "json \<Rightarrow> keyed \<Rightarrow> keyed py" where
  "add_name w d = py_bind (obj_get w ''name'') (\<lambda>n. py_bind (index_key w ''id'') (\<lambda>i.
     if hashable n then Inr (pset d n i) else Inl TypeError))"

fun add_names :: "json list \<Rightarrow> keyed \<Rightarrow> keyed py" where
  "add_names [] d = Inr d"
| "add_names (w # ws) d = py_bind (add_name w d) (add_names ws)"

subsection \<open>Looking things up\<close>

text \<open>\<open>re.search(r'E\d+-\w+', s)\<close>\<close>

fun story_token :: "string \<Rightarrow> string option" where
  "story_token [] = None"
| "story_token (c # cs) = (let ds = takeWhile digit_char cs; r = dropWhile digit_char cs; w = takeWhile word_char (tl r) in
     if c = CHR ''E'' \<and> ds \<noteq> [] \<and> r \<noteq> [] \<and> hd r = CHR ''-'' \<and> w \<noteq> [] then Some (c # ds @ CHR ''-'' # w)
     else story_token cs)"

text \<open>The first identifier that contains the token, among those of stories and tasks.\<close>

fun token_match :: "string \<Rightarrow> keyed \<Rightarrow> json option py" where
  "token_match t [] = Inr None"
| "token_match t ((e, i) # es) = (case e of
     JStr s \<Rightarrow> if s \<noteq> [] \<and> contains t s \<and> (startswith s ''story:'' \<or> startswith s ''task:'') then Inr (Some i) else token_match t es
   | _ \<Rightarrow> if truthy e then Inl TypeError else token_match t es)"

definition by_token :: "keyed \<Rightarrow> json \<Rightarrow> json option py" where
  "by_token ext e = (case py_or e (JStr []) of
     JStr s \<Rightarrow> (case story_token s of None \<Rightarrow> Inr None | Some t \<Rightarrow> token_match t ext)
   | _ \<Rightarrow> Inl TypeError)"

definition delta_resolve :: "set_order \<Rightarrow> keyed \<Rightarrow> keyed \<Rightarrow> json \<Rightarrow> json \<Rightarrow> json py" where
  "delta_resolve so names ext e name = py_bind (variants so e) (\<lambda>cs.
     case find (\<lambda>c. keyed_has ext (JStr c)) cs of
       Some c \<Rightarrow> Inr (pget ext (JStr c))
     | None \<Rightarrow> py_bind (by_token ext e) (\<lambda>m. case m of
         Some i \<Rightarrow> Inr i
       | None \<Rightarrow> if hashable name then Inr (pget names name) else Inl TypeError))"

text \<open>Rows of modules and cycles: the first that matches.\<close>

fun first_row :: "(json \<Rightarrow> bool py) \<Rightarrow> json list \<Rightarrow> json py" where
  "first_row f [] = Inr JNull"
| "first_row f (r # rs) = py_bind (f r) (\<lambda>b. if b then index_key r ''id'' else first_row f rs)"

definition module_row :: "json \<Rightarrow> json \<Rightarrow> bool py" where
  "module_row epic m = py_bind (index_key m ''name'') (\<lambda>n. case n of
     JStr s \<Rightarrow> if JStr (takeWhile (\<lambda>c. c \<noteq> CHR '' '') s) = epic then Inr True
       else (case epic of JStr e \<Rightarrow> Inr (startswith s e) | _ \<Rightarrow> Inl TypeError)
   | _ \<Rightarrow> Inl AttributeError)"

definition cycle_row :: "json \<Rightarrow> json \<Rightarrow> bool py" where
  "cycle_row name c = py_bind (index_key c ''name'') (\<lambda>n. if py_eq n name then Inr True
     else case (name, n) of
       (JStr p, JStr s) \<Rightarrow> Inr (contains (take 10 p) s)
     | _ \<Rightarrow> Inl TypeError)"

definition delta_module :: "delta_index \<Rightarrow> json \<Rightarrow> json py" where
  "delta_module ix epic = (if \<not> truthy epic then Inr JNull else first_row (module_row epic) (dx_modules ix))"

definition delta_cycle :: "delta_index \<Rightarrow> json \<Rightarrow> json py" where
  "delta_cycle ix name = (if \<not> truthy name then Inr JNull else first_row (cycle_row name) (dx_cycles ix))"

definition DELTA_PRIORITIES :: "(string \<times> string) list" where
  "DELTA_PRIORITIES = [(''priority:blocking'', ''urgent''), (''priority:high'', ''high''), (''priority:normal'', ''medium'')]"

fun delta_priority :: "json list \<Rightarrow> dict py" where
  "delta_priority [] = Inr []"
| "delta_priority (n # ns) = (if \<not> hashable n then Inl TypeError
     else case n of
       JStr s \<Rightarrow> (case map_of DELTA_PRIORITIES s of Some v \<Rightarrow> Inr [(''priority'', JStr v)] | None \<Rightarrow> delta_priority ns)
     | _ \<Rightarrow> delta_priority ns)"

definition delta_text :: "dict \<Rightarrow> dict py" where
  "delta_text op = (if truthy (dget op ''description_html'') then Inr [(''description_html'', dget op ''description_html'')]
     else if truthy (dget op ''description_md'') then (case dget op ''description_md'' of
       JStr md \<Rightarrow> Inr [(''description_html'', JStr (md_to_html md))] | _ \<Rightarrow> Inl AttributeError)
     else Inr [])"

definition delta_state :: "keyed \<Rightarrow> dict \<Rightarrow> dict py" where
  "delta_state states op = (let s = dget op ''set_state'' in
     if \<not> truthy s then Inr [] else if \<not> hashable s then Inl TypeError
     else Inr (if keyed_has states s then [(''state'', pget states s)] else []))"

subsection \<open>One operation\<close>

text \<open>Labels are remembered one by one, also when a later one fails.\<close>

definition delta_label :: "'w net \<Rightarrow> string \<Rightarrow> bool \<Rightarrow> json \<Rightarrow> ('w, json) delta_op" where
  "delta_label net pb ap n s = (let i = pget (dl_labels s) n in
     if \<not> hashable n then value_of (Inl TypeError) s
     else if ap \<and> \<not> truthy i
     then then_do (on_board (delta_api net ''POST'' (pb @ ''/labels/'') (Some (JObj [(''name'', n)])))) (\<lambda>r.
       then_do (value_of (index_key r ''id'')) (\<lambda>new s. (s\<lparr>dl_labels := pset (dl_labels s) n new\<rparr>, Inr new))) s
     else (s, Inr i))"

fun delta_label_ids :: "'w net \<Rightarrow> string \<Rightarrow> bool \<Rightarrow> json list \<Rightarrow> ('w, json list) delta_op" where
  "delta_label_ids net pb ap [] = value_of (Inr [])"
| "delta_label_ids net pb ap (n # ns) = then_do (delta_label net pb ap n) (\<lambda>i.
     then_do (delta_label_ids net pb ap ns) (\<lambda>is. value_of (Inr (if truthy i then i # is else is))))"

definition delta_body :: "'w net \<Rightarrow> string \<Rightarrow> bool \<Rightarrow> delta_index \<Rightarrow> dict \<Rightarrow> ('w, dict) delta_op" where
  "delta_body net pb ap ix op =
     then_do (value_of (py_bind (delta_text op) (\<lambda>t. py_bind (delta_state (dx_states ix) op) (\<lambda>st. Inr (t @ st))))) (\<lambda>ts.
     then_do (value_of (py_iter (py_or (dget op ''set_labels'') (JList [])))) (\<lambda>ns.
     then_do (delta_label_ids net pb ap ns) (\<lambda>is.
     then_do (value_of (delta_priority ns)) (\<lambda>p.
       value_of (Inr (ts @ (if is = [] then [] else [(''labels'', JList is)]) @ p))))))"

definition item_path :: "string \<Rightarrow> json \<Rightarrow> string" where
  "item_path pb i = pb @ ''/work-items/'' @ py_str i @ ''/''"

definition sentinel :: "dict \<Rightarrow> string" where
  "sentinel op = ''<!--xref:'' @ py_str (dget_or op ''why'' (JStr ''append'')) @ ''-->''"

text \<open>An append: \<open>None\<close> if the description has the sentinel, otherwise the description with the block.\<close>

definition appended :: "dict \<Rightarrow> json \<Rightarrow> string option py" where
  "appended op cur = py_bind (obj_get (py_or cur (JObj [])) ''description_html'') (\<lambda>h. case py_or h (JStr []) of
     JStr html \<Rightarrow> if contains (sentinel op) html then Inr None
       else (case dget op ''append_md'' of
         JStr md \<Rightarrow> Inr (Some (html @ sentinel op @ md_to_html md)) | _ \<Rightarrow> Inl AttributeError)
   | _ \<Rightarrow> Inl TypeError)"

definition count_update :: "json \<Rightarrow> dict \<Rightarrow> dict \<Rightarrow> ('w, unit) delta_op" where
  "count_update i op body = tell (\<lambda>s. s\<lparr>dl_updates := Suc (dl_updates s),
     dl_log := dl_log s @ [DeltaUpdate i (dget op ''target_external_id'') (map fst body)]\<rparr>)"

definition send_update :: "'w net \<Rightarrow> string \<Rightarrow> bool \<Rightarrow> json \<Rightarrow> dict \<Rightarrow> dict \<Rightarrow> ('w, unit) delta_op" where
  "send_update net pb ap i op body =
     then_do (on_board (if ap \<and> body \<noteq> [] then delta_api net ''PATCH'' (item_path pb i) (Some (JObj body)) else pure_tool (Inr JNull)))
       (\<lambda>_. count_update i op body)"

definition count_skip :: "'w delta \<Rightarrow> 'w delta" where
  "count_skip s = s\<lparr>dl_skips := Suc (dl_skips s)\<rparr>"

definition delta_update :: "set_order \<Rightarrow> 'w net \<Rightarrow> string \<Rightarrow> bool \<Rightarrow> delta_index \<Rightarrow> dict \<Rightarrow> dict \<Rightarrow> ('w, unit) delta_op" where
  "delta_update so net pb ap ix op body s =
     then_do (value_of (delta_resolve so (dx_names ix) (dl_ext s) (dget op ''target_external_id'') (dget op ''name''))) (\<lambda>i.
       if \<not> truthy i then tell (\<lambda>s. s\<lparr>dl_errors := Suc (dl_errors s), dl_log := dl_log s @ [DeltaMiss (dget op ''target_external_id'')]\<rparr>)
       else if \<not> truthy (dget op ''append_md'') then send_update net pb ap i op body
       else then_do (on_board (delta_api net ''GET'' (item_path pb i) None)) (\<lambda>cur.
         then_do (value_of (appended op cur)) (\<lambda>h. case h of
           None \<Rightarrow> tell count_skip
         | Some html \<Rightarrow> send_update net pb ap i op (dset body ''description_html'' (JStr html))))) s"

text \<open>A name is a text here; a list, which could be cut as well, is taken for a \<open>TypeError\<close>.\<close>

definition delta_ext :: "dict \<Rightarrow> json py" where
  "delta_ext op = (let e = dget op ''external_id'' in
     if truthy e then (if hashable e then Inr e else Inl TypeError)
     else case dget_or op ''name'' (JStr []) of JStr n \<Rightarrow> Inr (JStr (EXT_SOURCE @ '':'' @ take 40 (slug False n))) | _ \<Rightarrow> Inl TypeError)"

definition delta_create_body :: "delta_index \<Rightarrow> string \<Rightarrow> json \<Rightarrow> dict \<Rightarrow> dict" where
  "delta_create_body ix name e body =
     [(''name'', JStr (take 250 name)), (''external_id'', e), (''external_source'', JStr EXT_SOURCE)] @ body @
     (if ''description_html'' \<in> set (map fst body) then [] else [(''description_html'', JStr ''<p></p>'')]) @
     (if ''state'' \<in> set (map fst body) then [] else [(''state'', pget (dx_states ix) (JStr ''Backlog''))])"

definition delta_member :: "'w net \<Rightarrow> string \<Rightarrow> string \<Rightarrow> string \<Rightarrow> json \<Rightarrow> json \<Rightarrow> ('w, json) mcp_op" where
  "delta_member net pb place tail g i = (if \<not> truthy g then pure_tool (Inr JNull)
     else delta_api net ''POST'' (pb @ place @ py_str g @ tail) (Some (JObj [(''issues'', JList [i])])))"

definition place_new :: "'w net \<Rightarrow> string \<Rightarrow> delta_index \<Rightarrow> dict \<Rightarrow> json \<Rightarrow> dict \<Rightarrow> ('w, json) delta_op" where
  "place_new net pb ix op e payload =
     then_do (on_board (delta_api net ''POST'' (pb @ ''/work-items/'') (Some (JObj payload)))) (\<lambda>r.
     then_do (value_of (index_key r ''id'')) (\<lambda>i.
     then_do (tell (\<lambda>s. s\<lparr>dl_ext := pset (dl_ext s) e i\<rparr>)) (\<lambda>_.
     then_do (value_of (delta_module ix (dget op ''epic_module''))) (\<lambda>m.
     then_do (value_of (delta_cycle ix (dget op ''phase_cycle''))) (\<lambda>c.
     then_do (on_board (delta_member net pb ''/modules/'' ''/module-issues/'' m i)) (\<lambda>_.
     then_do (on_board (delta_member net pb ''/cycles/'' ''/cycle-issues/'' c i)) (\<lambda>_. value_of (Inr i))))))))"

definition delta_create :: "'w net \<Rightarrow> string \<Rightarrow> bool \<Rightarrow> delta_index \<Rightarrow> dict \<Rightarrow> dict \<Rightarrow> ('w, unit) delta_op" where
  "delta_create net pb ap ix op body s =
     then_do (value_of (delta_ext op)) (\<lambda>e.
       if keyed_has (dl_ext s) e then tell (\<lambda>s. count_skip (s\<lparr>dl_log := dl_log s @ [DeltaSkip e]\<rparr>))
       else then_do (value_of (index_key (JObj op) ''name'')) (\<lambda>n. case n of
         JStr name \<Rightarrow> then_do (if ap then place_new net pb ix op e (delta_create_body ix name e body) else value_of (Inr JNull)) (\<lambda>i.
           tell (\<lambda>s. s\<lparr>dl_creates := Suc (dl_creates s), dl_log := dl_log s @ [DeltaCreate i e]\<rparr>))
       | _ \<Rightarrow> value_of (Inl TypeError))) s"

definition edge_is :: "json \<Rightarrow> json \<Rightarrow> bool py" where
  "edge_is i r = py_bind (py_map (obj_get r) [''id'', ''entity_identifier'', ''related_issue'', ''issue'']) (\<lambda>vs.
     Inr (list_ex (\<lambda>v. py_eq v i) vs))"

fun any_edge :: "json \<Rightarrow> json list \<Rightarrow> bool py" where
  "any_edge i [] = Inr False"
| "any_edge i (r # rs) = py_bind (edge_is i r) (\<lambda>b. if b then Inr True else any_edge i rs)"

definition edge_there :: "json \<Rightarrow> json \<Rightarrow> json \<Rightarrow> bool py" where
  "edge_there rt i rel = (case rel of
     JObj d \<Rightarrow> if d = [] \<or> \<not> hashable rt then (if hashable rt then Inr False else Inl TypeError)
       else py_bind (py_iter (case rt of JStr k \<Rightarrow> dget_or d k (JList []) | _ \<Rightarrow> JList [])) (any_edge i)
   | _ \<Rightarrow> Inr False)"

text \<open>The relations that are read; a request that gives up counts as none.\<close>

definition read_edge :: "'w net \<Rightarrow> string \<Rightarrow> json \<Rightarrow> json \<Rightarrow> json \<Rightarrow> ('w, bool) delta_op" where
  "read_edge net pb f rt t s = (case then_do (on_board (delta_api net ''GET'' (item_path pb f @ ''relations/'') None))
       (\<lambda>rel. value_of (edge_there rt t rel)) s of
     (s', Inl (BoardExc RuntimeError)) \<Rightarrow> (s', Inr False)
   | r \<Rightarrow> r)"

definition delta_relation :: "set_order \<Rightarrow> 'w net \<Rightarrow> string \<Rightarrow> bool \<Rightarrow> delta_index \<Rightarrow> dict \<Rightarrow> ('w, unit) delta_op" where
  "delta_relation so net pb ap ix op s = (let rt = dget_or op ''relation_type'' (JStr ''blocked_by'') in
     then_do (value_of (delta_resolve so (dx_names ix) (dl_ext s) (dget op ''from_external_id'') JNull)) (\<lambda>f.
     then_do (value_of (delta_resolve so (dx_names ix) (dl_ext s) (dget op ''to_external_id'') JNull)) (\<lambda>t.
       if \<not> truthy f \<or> \<not> truthy t then tell (\<lambda>s. s\<lparr>dl_errors := Suc (dl_errors s),
         dl_log := dl_log s @ [RelationMiss (dget op ''from_external_id'') (dget op ''to_external_id'')]\<rparr>)
       else then_do (read_edge net pb f rt t) (\<lambda>there. if there then tell count_skip
         else then_do (on_board (if ap then delta_api net ''POST'' (item_path pb f @ ''relations/'')
               (Some (JObj [(''relation_type'', rt), (''issues'', JList [t])])) else pure_tool (Inr JNull))) (\<lambda>_.
           tell (\<lambda>s. s\<lparr>dl_relations := Suc (dl_relations s), dl_log := dl_log s @ [RelationMade rt f t]\<rparr>))))) s)"

subsection \<open>The run\<close>

definition delta_kind :: "set_order \<Rightarrow> 'w net \<Rightarrow> string \<Rightarrow> bool \<Rightarrow> delta_index \<Rightarrow> dict \<Rightarrow> ('w, unit) delta_op" where
  "delta_kind so net pb ap ix op = (let kind = dget op ''kind'' in
     if kind = JStr ''update'' \<or> kind = JStr ''create'' then then_do (delta_body net pb ap ix op) (\<lambda>body.
       if kind = JStr ''update'' then delta_update so net pb ap ix op body else delta_create net pb ap ix op body)
     else if kind = JStr ''relation'' then delta_relation so net pb ap ix op
     else tell (\<lambda>s. s\<lparr>dl_errors := Suc (dl_errors s)\<rparr>))"

text \<open>A \<open>RuntimeError\<close> is counted and the run goes on; any other exception ends it.\<close>

definition delta_step :: "set_order \<Rightarrow> 'w net \<Rightarrow> string \<Rightarrow> bool \<Rightarrow> delta_index \<Rightarrow> json \<Rightarrow> ('w, unit) delta_op" where
  "delta_step so net pb ap ix v s = (case v of
     JObj op \<Rightarrow> (case delta_kind so net pb ap ix op s of
         (s', Inl (BoardExc RuntimeError)) \<Rightarrow>
           (s'\<lparr>dl_errors := Suc (dl_errors s'), dl_log := dl_log s' @ [DeltaError (dget op ''kind'')]\<rparr>, Inr ())
       | r \<Rightarrow> r)
   | _ \<Rightarrow> value_of (Inl AttributeError) s)"

fun delta_ops :: "set_order \<Rightarrow> 'w net \<Rightarrow> string \<Rightarrow> bool \<Rightarrow> delta_index \<Rightarrow> json list \<Rightarrow> ('w, unit) delta_op" where
  "delta_ops so net pb ap ix [] = value_of (Inr ())"
| "delta_ops so net pb ap ix (v # vs) = then_do (delta_step so net pb ap ix v) (\<lambda>_. delta_ops so net pb ap ix vs)"

definition start_delta :: "'w mcp \<Rightarrow> keyed \<Rightarrow> keyed \<Rightarrow> 'w delta" where
  "start_delta st labels ext = \<lparr>dl_session = st, dl_labels = labels, dl_ext = ext, dl_log = [], dl_updates = 0,
     dl_creates = 0, dl_relations = 0, dl_skips = 0, dl_errors = 0\<rparr>"

definition delta_named :: "'w net \<Rightarrow> string \<Rightarrow> ('w, keyed) mcp_op" where
  "delta_named net path = then_do (delta_pages net path) (\<lambda>rows. pure_tool (add_states rows []))"

definition delta_board :: "'w net \<Rightarrow> string \<Rightarrow> ('w, delta_index \<times> keyed \<times> keyed) mcp_op" where
  "delta_board net pb =
     then_do (delta_named net (pb @ ''/states/'')) (\<lambda>states.
     then_do (delta_named net (pb @ ''/labels/'')) (\<lambda>labels.
     then_do (delta_pages net (pb @ ''/modules/'')) (\<lambda>modules.
     then_do (delta_pages net (pb @ ''/cycles/'')) (\<lambda>cycles.
     then_do (delta_pages net (pb @ ''/work-items/'')) (\<lambda>items.
     then_do (pure_tool (py_bind (add_exts items []) (\<lambda>ext. py_bind (add_names items []) (\<lambda>names. Inr (ext, names))))) (\<lambda>(ext, names).
     pure_tool (Inr (\<lparr>dx_states = states, dx_modules = modules, dx_cycles = cycles, dx_names = names\<rparr>, labels, ext))))))))"

text \<open>\<open>plan.get("ops", ...)\<close>: a plan that is a list has no \<open>get\<close>.\<close>

definition delta_rows :: "json \<Rightarrow> json list py" where
  "delta_rows plan = py_bind (obj_get_or plan ''ops'' (JList [])) py_iter"

text \<open>The log is written only when the run comes to its end.\<close>

definition delta_main ::
    "set_order \<Rightarrow> 'w net \<Rightarrow> string \<Rightarrow> bool \<Rightarrow> string option \<Rightarrow> 'w mcp \<Rightarrow> 'w mcp \<times> 'w delta option \<times> (board_error + unit)" where
  "delta_main so net pb ap contents st = (case contents of
     None \<Rightarrow> (st, None, Inl (SystemExit 1))
   | Some t \<Rightarrow> (case then_do (pure_tool (py_bind (case loads t of Some v \<Rightarrow> Inr v | None \<Rightarrow> Inl ValueError) delta_rows)) (\<lambda>ops.
         then_do (delta_board net pb) (\<lambda>b. pure_tool (Inr (ops, b)))) st of
       (st', Inl e) \<Rightarrow> (st', None, Inl e)
     | (st', Inr (ops, ix, labels, ext)) \<Rightarrow> (case delta_ops so net pb ap ix ops (start_delta st' labels ext) of
         (s, Inl e) \<Rightarrow> (dl_session s, None, Inl e)
       | (s, Inr _) \<Rightarrow> (dl_session s, Some s, Inr ()))))"

subsection \<open>What a second run does\<close>

lemma startswith_append [simp]: "startswith (p @ b) p"
  by (simp add: startswith_def)

lemma contains_infix: "contains p (a @ p @ b)"
proof (induction a)
  case Nil
  show ?case
  proof (cases "p @ b")
    case Nil
    then show ?thesis by simp
  next
    case (Cons c cs)
    then have "startswith (c # cs) p" using startswith_append [of p b] by simp
    with Cons show ?thesis by simp
  qed
qed simp

lemma appended_contains:
  assumes "appended op cur = Inr (Some html)"
  shows "contains (sentinel op) html"
proof -
  from assms obtain h where h: "(case py_or h (JStr []) of
       JStr t \<Rightarrow> if contains (sentinel op) t then Inr None
         else (case dget op ''append_md'' of JStr md \<Rightarrow> Inr (Some (t @ sentinel op @ md_to_html md)) | _ \<Rightarrow> Inl AttributeError)
     | _ \<Rightarrow> Inl TypeError) = Inr (Some html)"
    by (auto simp: appended_def py_bind_Inr_iff)
  then have "\<exists>t md. html = t @ sentinel op @ md_to_html md"
    by (cases "py_or h (JStr [])"; cases "dget op ''append_md''") (auto split: if_splits)
  then show ?thesis by (auto simp: contains_infix)
qed

lemma value_of_simps [simp]:
  "then_do (value_of (Inr a)) f s = f a s"
  "then_do (value_of (Inl e)) f s = (s, Inl (BoardExc e))"
  by (simp_all add: value_of_def on_board_def then_do_def pure_tool_def lift_py_def)

text \<open>
  C30. An append happens once: the description it leaves holds its sentinel, and on an item whose description holds it the
  same operation reads the item, counts a skip and changes nothing.
\<close>

theorem append_happens_once:
  assumes "delta_resolve so (dx_names ix) (dl_ext s) (dget op ''target_external_id'') (dget op ''name'') = Inr i" "truthy i"
    and "truthy (dget op ''append_md'')" "appended op cur = Inr (Some html)"
    and "delta_api net ''GET'' (item_path pb i) None (dl_session s) = (st, Inr (JObj (dset d ''description_html'' (JStr html))))"
  shows "delta_update so net pb ap ix op body s = (count_skip (s\<lparr>dl_session := st\<rparr>), Inr ())"
proof -
  have c: "contains (sentinel op) html" by (rule appended_contains [OF assms(4)])
  have "html \<noteq> []" using c by (cases html) (auto simp: sentinel_def)
  moreover have "dset d ''description_html'' (JStr html) \<noteq> []"
    by (cases d) (auto simp: dset_def)
  ultimately have "appended op (JObj (dset d ''description_html'' (JStr html))) = Inr None"
    using c by (simp add: appended_def py_or_def)
  with assms show ?thesis by (simp add: delta_update_def then_do_def on_board_def tell_def value_of_def pure_tool_def lift_py_def)
qed

text \<open>
  A relation that the board lists is left alone: the run reads the relations of the item and sends nothing else.
\<close>

theorem listed_relation_skipped:
  assumes "delta_resolve so (dx_names ix) (dl_ext s) (dget op ''from_external_id'') JNull = Inr f" "truthy f"
    and "delta_resolve so (dx_names ix) (dl_ext s) (dget op ''to_external_id'') JNull = Inr t" "truthy t"
    and "dget_or op ''relation_type'' (JStr ''blocked_by'') = JStr rt"
    and "delta_api net ''GET'' (item_path pb f @ ''relations/'') None (dl_session s) = (st, Inr (JObj d))"
    and "map_of d rt = Some (JList (pre @ JObj e # post))" "list_all is_dict pre" "py_eq (dget e ''id'') t"
  shows "delta_relation so net pb ap ix op s = (count_skip (s\<lparr>dl_session := st\<rparr>), Inr ())"
proof -
  have "edge_is t (JObj e) = Inr True" using assms(9) by (simp add: edge_is_def)
  moreover have "\<exists>b. edge_is t r = Inr b" if "is_dict r" for r using that by (cases r) (simp_all add: edge_is_def)
  ultimately have "any_edge t (pre @ JObj e # post) = Inr True"
    using assms(8) by (induction pre) fastforce+
  then have "edge_there (JStr rt) t (JObj d) = Inr True" using assms(7) by (auto simp: edge_there_def dget_or_def)
  with assms show ?thesis
    by (simp add: delta_relation_def Let_def then_do_def on_board_def tell_def value_of_def pure_tool_def lift_py_def read_edge_def)
qed

text \<open>
  Without a candidate on the board, any story whose identifier contains the token of the operation is taken: the item
  of story 10 stands for story 1.
\<close>

theorem token_takes_longer_story:
  "delta_resolve in_order [] [(JStr ''story:ASCP-E1-S10'', JStr ''x'')] (JStr ''story:ASCP-E1-S1'') JNull = Inr (JStr ''x'')"
  by code_simp

text \<open>Two appends to one item without a reason of their own have the same sentinel: the second is skipped.\<close>

theorem second_append_dropped:
  "appended [(''append_md'', JStr ''one'')] (JObj []) = Inr (Some ''<!--xref:append--><p>one</p>'') \<and>
   appended [(''append_md'', JStr ''two'')] (JObj [(''description_html'', JStr ''<!--xref:append--><p>one</p>'')]) = Inr None"
  by code_simp

subsection \<open>Samples\<close>

definition answering :: "json \<Rightarrow> unit net" where
  "answering v q w = ((), HttpOk (dumps False v) 200)"

lemma delta_api_answering:
  assumes "wf_json v"
  shows "delta_api (answering v) m p b st = (st\<lparr>mc_sent := mc_sent st @ [(m, p, b)]\<rparr>, Inr v)"
proof -
  have "dumps False v \<noteq> []" using dumps_hd [OF assms] unfolding dumps_gen_eq by blast
  then have "decoded (dumps False v) = Inr v" using loads_dumps [OF assms] by (simp add: decoded_def)
  moreover have "urlopen (answering v) (m, p, b) st = (st\<lparr>mc_sent := mc_sent st @ [(m, p, b)]\<rparr>, HttpOk (dumps False v) 200)"
    by (simp add: urlopen_def answering_def)
  moreover have "(6 :: nat) = Suc 5" by simp
  ultimately show ?thesis unfolding delta_api_def by (simp only: delta_attempts.simps prod.case http_answer.case)
qed

definition sample_delta :: "unit delta" where
  "sample_delta = start_delta (empty_session ()) [] [(JStr ''story:E1-S1'', JStr ''a''), (JStr ''story:E1-S2'', JStr ''b'')]"

definition no_rows :: delta_index where
  "no_rows = \<lparr>dx_states = [], dx_modules = [], dx_cycles = [], dx_names = []\<rparr>"

definition sample_append :: dict where
  "sample_append = [(''kind'', JStr ''update''), (''target_external_id'', JStr ''story:E1-S1''), (''append_md'', JStr ''one'')]"

definition sample_edge :: dict where
  "sample_edge = [(''kind'', JStr ''relation''), (''from_external_id'', JStr ''story:E1-S1''), (''to_external_id'', JStr ''story:E1-S2'')]"

definition described_item :: json where
  "described_item = JObj (dset [] ''description_html'' (JStr ''<!--xref:append--><p>one</p>''))"

definition listed_edges :: json where
  "listed_edges = JObj [(''blocked_by'', JList [JObj [(''id'', JStr ''b'')]])]"

lemma sample_found:
  "delta_resolve in_order (dx_names no_rows) (dl_ext sample_delta) (dget sample_append ''target_external_id'') (dget sample_append ''name'') = Inr (JStr ''a'')"
  "delta_resolve in_order (dx_names no_rows) (dl_ext sample_delta) (dget sample_edge ''from_external_id'') JNull = Inr (JStr ''a'')"
  "delta_resolve in_order (dx_names no_rows) (dl_ext sample_delta) (dget sample_edge ''to_external_id'') JNull = Inr (JStr ''b'')"
  "truthy (dget sample_append ''append_md'')" "dget_or sample_edge ''relation_type'' (JStr ''blocked_by'') = JStr ''blocked_by''"
  by code_simp+

lemma sample_appended: "appended sample_append (JObj []) = Inr (Some ''<!--xref:append--><p>one</p>'')"
  by code_simp

definition after_get :: "string \<Rightarrow> unit mcp" where
  "after_get p = (dl_session sample_delta)\<lparr>mc_sent := [(''GET'', p, None)]\<rparr>"

lemma sample_get:
  assumes "wf_json v"
  shows "delta_api (answering v) ''GET'' p None (dl_session sample_delta) = (after_get p, Inr v)"
  using delta_api_answering [OF assms] by (simp add: after_get_def sample_delta_def start_delta_def)

theorem append_happens_once_witness:
  "delta_update in_order (answering described_item) ''/p'' True no_rows sample_append [] sample_delta =
    (count_skip (sample_delta\<lparr>dl_session := after_get (item_path ''/p'' (JStr ''a''))\<rparr>), Inr ())"
proof (rule append_happens_once [OF sample_found(1) _ sample_found(4) sample_appended])
  have "wf_json described_item" by (simp add: described_item_def dset_def)
  from sample_get [OF this] show "delta_api (answering described_item) ''GET'' (item_path ''/p'' (JStr ''a'')) None (dl_session sample_delta) =
      (after_get (item_path ''/p'' (JStr ''a'')), Inr (JObj (dset [] ''description_html'' (JStr ''<!--xref:append--><p>one</p>''))))"
    by (simp only: described_item_def)
qed simp

theorem listed_relation_skipped_witness:
  "delta_relation in_order (answering listed_edges) ''/p'' True no_rows sample_edge sample_delta =
    (count_skip (sample_delta\<lparr>dl_session := after_get (item_path ''/p'' (JStr ''a'') @ ''relations/'')\<rparr>), Inr ())"
proof (rule listed_relation_skipped [OF sample_found(2) _ sample_found(3) _ sample_found(5)])
  have "wf_json listed_edges" by (simp add: listed_edges_def)
  from sample_get [OF this] show "delta_api (answering listed_edges) ''GET'' (item_path ''/p'' (JStr ''a'') @ ''relations/'') None (dl_session sample_delta) =
      (after_get (item_path ''/p'' (JStr ''a'') @ ''relations/''), Inr (JObj [(''blocked_by'', JList [JObj [(''id'', JStr ''b'')]])]))"
    by (simp only: listed_edges_def)
  show "map_of [(''blocked_by'', JList [JObj [(''id'', JStr ''b'')]])] ''blocked_by'' = Some (JList ([] @ JObj [(''id'', JStr ''b'')] # []))"
    by simp
qed simp_all

end
