(* ===== verification/Formal_Design.thy ===== *)
theory Formal_Design
  imports Prelude
begin

text \<open>
  The design proofs: \<open>verification/formal_verification_merged.py\<close> with its predecessor
  \<open>docs/superseded/formal_verification.py\<close>, and \<open>verification/actor_separation.py\<close>. They hand
  propositional constraints to the Z3 solver and compare its answers with the expected ones. The
  constraints are formulas here, in the order of the files, and the solver is an argument: what the
  scripts rely on is that it decides satisfiability. Descriptions and printing are left out.
\<close>

subsection \<open>Constraints and the solver\<close>

datatype form = Bool string | Neg form | And "form list" | Or "form list" | Implies form form | Equal form form | Differ form form

fun holds :: "(string \<Rightarrow> bool) \<Rightarrow> form \<Rightarrow> bool" where
  "holds v (Bool x) = v x"
| "holds v (Neg f) = (\<not> holds v f)"
| "holds v (And fs) = list_all (holds v) fs"
| "holds v (Or fs) = list_ex (holds v) fs"
| "holds v (Implies f g) = (holds v f \<longrightarrow> holds v g)"
| "holds v (Equal f g) = (holds v f = holds v g)"
| "holds v (Differ f g) = (holds v f = (\<not> holds v g))"

definition satisfiable :: "form list \<Rightarrow> bool" where
  "satisfiable fs \<longleftrightarrow> (\<exists>v. list_all (holds v) fs)"

datatype answer = Sat | Unsat | Unknown

definition decides :: "(form list \<Rightarrow> answer) \<Rightarrow> bool" where
  "decides solver \<longleftrightarrow> (\<forall>fs. solver fs = (if satisfiable fs then Sat else Unsat))"

text \<open>A check has a label, its constraints and the expected verdict; a failure also has the verdict that was got.\<close>

type_synonym design_check = "string \<times> form list \<times> string"

type_synonym design_failure = "string \<times> string \<times> string"

definition verdict_text :: "answer \<Rightarrow> string" where
  "verdict_text a = (if a = Sat then ''sat'' else ''unsat'')"

definition design_check :: "(form list \<Rightarrow> answer) \<Rightarrow> design_check \<Rightarrow> nat \<times> design_failure list \<Rightarrow> nat \<times> design_failure list" where
  "design_check solver = (\<lambda>(label, constraints, expected) (checks_run, failures).
     (let verdict = verdict_text (solver constraints) in
      (Suc checks_run, if verdict = expected then failures else failures @ [(label, expected, verdict)])))"

text \<open>The report: how many checks passed, of how many, and the exit code.\<close>

definition design_report :: "nat \<Rightarrow> design_failure list \<Rightarrow> int \<times> nat \<times> int" where
  "design_report total_checks failures =
     (int total_checks - int (length failures), total_checks, if failures = [] then 0 else 1)"

subsection \<open>The merged harness\<close>

definition core_axioms :: "form list" where
  "core_axioms =
    [Equal (Bool ''gateBlock'') (Bool ''unproven''), Implies (Bool ''complete'') (Neg (Bool ''gateBlock'')),
     Implies (Bool ''codeWrite'') (Bool ''planApproved''),
     Implies (Bool ''maint'') (Neg (Bool ''writeAllowed'')),
     Implies (Bool ''passed'') (And [Bool ''evidence'', Bool ''testsPass'']),
     Implies (Or [Bool ''capReached'', Bool ''budgetExceeded'', Bool ''noProgress'']) (And [Bool ''handoff'', Neg (Bool ''complete''), Neg (Bool ''hookExitsBlocking'')]),
     Implies (Or [Bool ''complete'', Bool ''handoff'']) (Neg (Bool ''running'')),
     Neg (And [Bool ''complete'', Bool ''handoff'']),
     Implies (And [Bool ''gateBlock'', Bool ''unproven'', Neg (Bool ''capReached''), Neg (Bool ''budgetExceeded''), Neg (Bool ''noProgress'')]) (Bool ''hookExitsBlocking'')]"

definition core_checks :: "design_check list" where
  "core_checks =
    [(''CHECK-1'', core_axioms @ [Neg (Bool ''unproven''), Bool ''complete'', Neg (Bool ''handoff''), Neg (Bool ''running''),
      Bool ''planApproved'', Bool ''evidence'', Bool ''testsPass'', Bool ''passed'', Neg (Bool ''capReached''),
      Neg (Bool ''budgetExceeded''), Neg (Bool ''noProgress''), Neg (Bool ''maint''),
      Neg (Bool ''hookExitsBlocking'')], ''sat''),
     (''CHECK-2a'', core_axioms @ [Bool ''maint'', Bool ''adminSave'', Bool ''writeAllowed''], ''unsat''),
     (''CHECK-2b'', core_axioms @ [Neg (Bool ''maint''), Bool ''adminSave'', Bool ''writeAllowed''], ''sat''),
     (''CHECK-3a'', core_axioms @ [Bool ''capReached'', Bool ''unproven'', Bool ''complete''], ''unsat''),
     (''CHECK-3b'', core_axioms @ [Bool ''capReached'', Bool ''handoff'', Neg (Bool ''complete''), Neg (Bool ''hookExitsBlocking'')], ''sat''),
     (''CHECK-4a'', core_axioms @ [Bool ''maint'', Neg (Bool ''writeAllowed'')], ''sat''),
     (''CHECK-4b'', core_axioms @ [Neg (Bool ''maint''), Bool ''writeAllowed''], ''sat''),
     (''CHECK-4c'', core_axioms @ [Bool ''unproven'', Bool ''gateBlock'', Neg (Bool ''complete''), Neg (Bool ''capReached''),
      Neg (Bool ''budgetExceeded''), Neg (Bool ''noProgress''), Bool ''hookExitsBlocking''], ''sat''),
     (''CHECK-4d'', core_axioms @ [Neg (Bool ''unproven''), Neg (Bool ''gateBlock''), Neg (Bool ''hookExitsBlocking'')], ''sat''),
     (''CHECK-4e'', core_axioms @ [Bool ''passed'', Bool ''evidence'', Bool ''testsPass''], ''sat''),
     (''CHECK-4f'', core_axioms @ [Bool ''codeWrite'', Neg (Bool ''planApproved'')], ''unsat''),
     (''CHECK-5'', [Equal (Bool ''gateA'') (Bool ''unproven''), Equal (Bool ''gateB'') (Bool ''unproven''),
      Differ (Bool ''predA'') (Bool ''predB''), Differ (Bool ''gateA'') (Bool ''gateB'')], ''unsat''),
     (''CHECK-5b'', core_axioms @ [Bool ''capReached'', Bool ''hookExitsBlocking''], ''unsat''),
     (''CHECK-5c'', core_axioms @ [Bool ''noProgress'', Bool ''hookExitsBlocking''], ''unsat'')]"

definition scope_sequencing_axioms :: "form list" where
  "scope_sequencing_axioms =
    [Implies (Bool ''priorItemUnproven'') (Bool ''scopeGateBlocks''),
     Implies (Bool ''scopeGateBlocks'') (Neg (Bool ''newSliceStarting''))]"

definition evidence_schema_axioms :: "form list" where
  "evidence_schema_axioms =
    [Equal (Bool ''evidenceComplete'') (And [Bool ''evidenceHasTestFile'', Bool ''evidenceHasTestName'', Bool ''evidenceHasHash'', Bool ''evidenceHasTimestamp'']),
     Implies (Bool ''passed'') (Bool ''evidenceComplete'')]"

definition no_progress_axioms :: "form list" where
  "no_progress_axioms =
    [Equal (Bool ''noProgressMeasurable'') (And [Bool ''noItemsProvenLastN'', Bool ''noCommitsLastN'']),
     Equal (Bool ''noProgress'') (Bool ''noProgressMeasurable'')]"

definition unmapped_axioms :: "form list" where
  "unmapped_axioms =
    [Implies (Bool ''unmappedExists'') (Neg (Bool ''advancementAllowed''))]"

definition kiro_checks :: "design_check list" where
  "kiro_checks =
    [(''CHECK-6a'', scope_sequencing_axioms @ [Bool ''priorItemUnproven'', Bool ''newSliceStarting''], ''unsat''),
     (''CHECK-6b'', scope_sequencing_axioms @ [Neg (Bool ''priorItemUnproven''), Neg (Bool ''scopeGateBlocks''), Bool ''newSliceStarting''], ''sat''),
     (''CHECK-7a'', evidence_schema_axioms @ [Bool ''passed'', Bool ''evidenceHasTestFile'', Bool ''evidenceHasTestName'',
      Neg (Bool ''evidenceHasHash''), Bool ''evidenceHasTimestamp''], ''unsat''),
     (''CHECK-7b'', evidence_schema_axioms @ [Bool ''passed'', Bool ''evidenceHasTestFile'', Bool ''evidenceHasTestName'', Bool ''evidenceHasHash'',
      Bool ''evidenceHasTimestamp'', Bool ''evidenceComplete'', Bool ''testsPass''], ''sat''),
     (''CHECK-7c'', evidence_schema_axioms @ [Bool ''passed'', Neg (Bool ''evidenceHasTestFile''), Neg (Bool ''evidenceHasTestName''),
      Neg (Bool ''evidenceHasHash''), Neg (Bool ''evidenceHasTimestamp'')], ''unsat''),
     (''CHECK-8a'', core_axioms @ no_progress_axioms @ [Bool ''noItemsProvenLastN'', Bool ''noCommitsLastN'', Bool ''noProgressMeasurable'', Bool ''noProgress''], ''sat''),
     (''CHECK-8b'', core_axioms @ no_progress_axioms @ [Bool ''noItemsProvenLastN'', Bool ''noCommitsLastN'', Bool ''noProgressMeasurable'', Bool ''noProgress'',
      Bool ''unproven'', Bool ''complete''], ''unsat''),
     (''CHECK-8c'', core_axioms @ no_progress_axioms @ [Bool ''noItemsProvenLastN'', Bool ''noCommitsLastN'', Bool ''noProgressMeasurable'', Bool ''noProgress'',
      Bool ''hookExitsBlocking''], ''unsat''),
     (''CHECK-8d'', core_axioms @ no_progress_axioms @ [Neg (Bool ''noItemsProvenLastN''), Neg (Bool ''noCommitsLastN''), Neg (Bool ''noProgressMeasurable''),
      Neg (Bool ''noProgress''), Bool ''running'', Neg (Bool ''complete''), Neg (Bool ''handoff'')], ''sat''),
     (''CHECK-9a'', unmapped_axioms @ [Bool ''unmappedExists'', Bool ''advancementAllowed''], ''unsat''),
     (''CHECK-9b'', unmapped_axioms @ [Neg (Bool ''unmappedExists''), Bool ''advancementAllowed''], ''sat''),
     (''CHECK-9c'', unmapped_axioms @ core_axioms @ [Neg (Bool ''unmappedExists''), Neg (Bool ''unproven''), Bool ''complete'', Neg (Bool ''handoff''),
      Bool ''planApproved'', Neg (Bool ''hookExitsBlocking'')], ''sat'')]"

definition amendment_axioms :: "form list" where
  "amendment_axioms =
    [Implies (And [Bool ''requirementAmended'', Neg (Bool ''amendedItemReproven'')]) (Bool ''unproven'')]"

definition resume_axioms :: "form list" where
  "resume_axioms =
    [Implies (Bool ''resumeHashMismatch'') (Neg (Bool ''runProceeds''))]"

definition checklist_axioms :: "form list" where
  "checklist_axioms =
    [Implies (Bool ''checklistIsDraft'') (Neg (Bool ''checklistUsedForDisc''))]"

definition omission_gate_axioms :: "form list" where
  "omission_gate_axioms =
    [Implies (Bool ''omissionDeclNull'') (Neg (Bool ''subagentAccepted13''))]"

definition gap_checks :: "design_check list" where
  "gap_checks =
    [(''CHECK-10a'', core_axioms @ amendment_axioms @ [Bool ''requirementAmended'', Neg (Bool ''amendedItemReproven''), Bool ''complete''], ''unsat''),
     (''CHECK-10b'', core_axioms @ amendment_axioms @ [Bool ''requirementAmended'', Bool ''amendedItemReproven'', Neg (Bool ''unproven''), Bool ''complete'',
      Neg (Bool ''handoff''), Bool ''planApproved'', Bool ''evidence'', Bool ''testsPass'', Bool ''passed'',
      Neg (Bool ''capReached''), Neg (Bool ''budgetExceeded''), Neg (Bool ''noProgress''),
      Neg (Bool ''hookExitsBlocking'')], ''sat''),
     (''CHECK-11a'', resume_axioms @ [Bool ''resumeHashMismatch'', Bool ''runProceeds''], ''unsat''),
     (''CHECK-11b'', resume_axioms @ [Neg (Bool ''resumeHashMismatch''), Bool ''runProceeds''], ''sat''),
     (''CHECK-12a'', checklist_axioms @ [Bool ''checklistIsDraft'', Bool ''checklistUsedForDisc''], ''unsat''),
     (''CHECK-12b'', checklist_axioms @ [Neg (Bool ''checklistIsDraft''), Bool ''checklistUsedForDisc''], ''sat''),
     (''CHECK-13a'', omission_gate_axioms @ [Bool ''omissionDeclNull'', Bool ''subagentAccepted13''], ''unsat''),
     (''CHECK-13b'', omission_gate_axioms @ [Neg (Bool ''omissionDeclNull''), Bool ''subagentAccepted13''], ''sat'')]"

definition merged_harness :: "(form list \<Rightarrow> answer) \<Rightarrow> int \<times> nat \<times> int" where
  "merged_harness solver =
     (let (checks_run, failures) = fold (design_check solver) (core_checks @ kiro_checks @ gap_checks) (0, [])
      in design_report checks_run failures)"

subsection \<open>The superseded harness\<close>

text \<open>Its other axioms are those of the merged harness; its report counts 21 checks whatever was run.\<close>

definition superseded_core_axioms :: "form list" where
  "superseded_core_axioms =
    [Equal (Bool ''gateBlock'') (Bool ''unproven''), Implies (Bool ''complete'') (Neg (Bool ''gateBlock'')),
     Implies (Bool ''codeWrite'') (Bool ''planApproved''),
     Implies (Bool ''maint'') (Neg (Bool ''writeAllowed'')),
     Implies (Bool ''passed'') (And [Bool ''evidence'', Bool ''testsPass'']),
     Implies (Or [Bool ''capReached'', Bool ''budgetExceeded'', Bool ''noProgress'']) (And [Bool ''handoff'', Neg (Bool ''complete'')]),
     Implies (Or [Bool ''complete'', Bool ''handoff'']) (Neg (Bool ''running'')),
     Neg (And [Bool ''complete'', Bool ''handoff''])]"

definition superseded_core_checks :: "design_check list" where
  "superseded_core_checks =
    [(''CHECK-1'', superseded_core_axioms @ [Neg (Bool ''unproven''), Bool ''complete'', Neg (Bool ''handoff''), Neg (Bool ''running''),
      Bool ''planApproved'', Bool ''evidence'', Bool ''testsPass'', Bool ''passed'', Neg (Bool ''capReached''),
      Neg (Bool ''budgetExceeded''), Neg (Bool ''noProgress''), Neg (Bool ''maint'')], ''sat''),
     (''CHECK-2a'', superseded_core_axioms @ [Bool ''maint'', Bool ''adminSave'', Bool ''writeAllowed''], ''unsat''),
     (''CHECK-2b'', superseded_core_axioms @ [Neg (Bool ''maint''), Bool ''adminSave'', Bool ''writeAllowed''], ''sat''),
     (''CHECK-3a'', superseded_core_axioms @ [Bool ''capReached'', Bool ''unproven'', Bool ''complete''], ''unsat''),
     (''CHECK-3b'', superseded_core_axioms @ [Bool ''capReached'', Bool ''handoff'', Neg (Bool ''complete'')], ''sat''),
     (''CHECK-4a'', superseded_core_axioms @ [Bool ''maint'', Neg (Bool ''writeAllowed'')], ''sat''),
     (''CHECK-4b'', superseded_core_axioms @ [Neg (Bool ''maint''), Bool ''writeAllowed''], ''sat''),
     (''CHECK-4c'', superseded_core_axioms @ [Bool ''unproven'', Bool ''gateBlock'', Neg (Bool ''complete'')], ''sat''),
     (''CHECK-4d'', superseded_core_axioms @ [Neg (Bool ''unproven''), Neg (Bool ''gateBlock'')], ''sat''),
     (''CHECK-4e'', superseded_core_axioms @ [Bool ''passed'', Bool ''evidence'', Bool ''testsPass''], ''sat''),
     (''CHECK-4f'', superseded_core_axioms @ [Bool ''codeWrite'', Neg (Bool ''planApproved'')], ''unsat''),
     (''CHECK-5'', [Equal (Bool ''gateA'') (Bool ''unproven''), Equal (Bool ''gateB'') (Bool ''unproven''),
      Differ (Bool ''predA'') (Bool ''predB''), Differ (Bool ''gateA'') (Bool ''gateB'')], ''unsat'')]"

definition superseded_gap_checks :: "design_check list" where
  "superseded_gap_checks =
    [(''CHECK-6a'', scope_sequencing_axioms @ [Bool ''priorItemUnproven'', Bool ''newSliceStarting''], ''unsat''),
     (''CHECK-6b'', scope_sequencing_axioms @ [Neg (Bool ''priorItemUnproven''), Neg (Bool ''scopeGateBlocks''), Bool ''newSliceStarting''], ''sat''),
     (''CHECK-7a'', evidence_schema_axioms @ [Bool ''passed'', Bool ''evidenceHasTestFile'', Bool ''evidenceHasTestName'',
      Neg (Bool ''evidenceHasHash''), Bool ''evidenceHasTimestamp''], ''unsat''),
     (''CHECK-7b'', evidence_schema_axioms @ [Bool ''passed'', Bool ''evidenceHasTestFile'', Bool ''evidenceHasTestName'', Bool ''evidenceHasHash'',
      Bool ''evidenceHasTimestamp'', Bool ''evidenceComplete'', Bool ''testsPass''], ''sat''),
     (''CHECK-7c'', evidence_schema_axioms @ [Bool ''passed'', Neg (Bool ''evidenceHasTestFile''), Neg (Bool ''evidenceHasTestName''),
      Neg (Bool ''evidenceHasHash''), Neg (Bool ''evidenceHasTimestamp'')], ''unsat''),
     (''CHECK-8a'', superseded_core_axioms @ no_progress_axioms @ [Bool ''noItemsProvenLastN'', Bool ''noCommitsLastN'', Bool ''noProgressMeasurable'', Bool ''noProgress''], ''sat''),
     (''CHECK-8b'', superseded_core_axioms @ no_progress_axioms @ [Bool ''noItemsProvenLastN'', Bool ''noCommitsLastN'', Bool ''noProgressMeasurable'', Bool ''noProgress'',
      Bool ''unproven'', Bool ''complete''], ''unsat''),
     (''CHECK-8c'', superseded_core_axioms @ no_progress_axioms @ [Neg (Bool ''noItemsProvenLastN''), Neg (Bool ''noCommitsLastN''), Neg (Bool ''noProgressMeasurable''),
      Neg (Bool ''noProgress''), Bool ''running'', Neg (Bool ''complete''), Neg (Bool ''handoff'')], ''sat''),
     (''CHECK-9a'', unmapped_axioms @ [Bool ''unmappedExists'', Bool ''advancementAllowed''], ''unsat''),
     (''CHECK-9b'', unmapped_axioms @ [Neg (Bool ''unmappedExists''), Bool ''advancementAllowed''], ''sat''),
     (''CHECK-9c'', unmapped_axioms @ superseded_core_axioms @ [Neg (Bool ''unmappedExists''), Neg (Bool ''unproven''), Bool ''complete'', Neg (Bool ''handoff''),
      Bool ''planApproved''], ''sat'')]"

definition superseded_harness :: "(form list \<Rightarrow> answer) \<Rightarrow> int \<times> nat \<times> int" where
  "superseded_harness solver =
     (let (checks_run, failures) = fold (design_check solver) (superseded_core_checks @ superseded_gap_checks) (0, [])
      in design_report (12 + 9) failures)"

subsection \<open>Separation of the actors\<close>

definition separation_constraints :: "form list" where
  "separation_constraints =
    [Implies (Bool ''proven'') (Bool ''verify_actor_distinct_from_impl''),
     And [Bool ''proven'', Neg (Bool ''verify_actor_distinct_from_impl'')]]"

definition separation_proof :: "(form list \<Rightarrow> answer) \<Rightarrow> string" where
  "separation_proof solver =
     (if solver separation_constraints = Sat then ''SAT-violation-possible'' else ''UNSAT-to-violate'')"

definition separation_exit :: "(form list \<Rightarrow> answer) \<Rightarrow> int" where
  "separation_exit solver = (if separation_proof solver = ''UNSAT-to-violate'' then 0 else 1)"

subsection \<open>The verdicts\<close>

definition right_check :: "design_check \<Rightarrow> bool" where
  "right_check = (\<lambda>(label, constraints, expected). expected = (if satisfiable constraints then ''sat'' else ''unsat''))"

definition tells :: "(form list \<Rightarrow> answer) \<Rightarrow> bool" where
  "tells solver \<longleftrightarrow> (\<forall>fs. solver fs = Sat \<longleftrightarrow> satisfiable fs)"

lemma decides_tells: "decides solver \<Longrightarrow> tells solver"
  by (simp add: decides_def tells_def)

lemma run_checks:
  assumes "tells solver" "list_all right_check cs"
  shows "fold (design_check solver) cs (n, fs) = (n + length cs, fs)"
  using assms(2)
proof (induction cs arbitrary: n)
  case (Cons c cs)
  obtain l gs e where c: "c = (l, gs, e)" by (cases c)
  have "verdict_text (solver gs) = e"
    using assms(1) Cons.prems by (auto simp: c tells_def right_check_def verdict_text_def)
  then show ?case using Cons by (simp add: c design_check_def Let_def)
qed simp

lemmas design_axioms = core_axioms_def superseded_core_axioms_def scope_sequencing_axioms_def evidence_schema_axioms_def
  no_progress_axioms_def unmapped_axioms_def amendment_axioms_def resume_axioms_def checklist_axioms_def omission_gate_axioms_def

text \<open>A satisfiable check has the letters that hold in a valuation as its certificate.\<close>

fun certified :: "design_check \<Rightarrow> string list option \<Rightarrow> bool" where
  "certified (l, fs, e) (Some ts) = (e = ''sat'' \<and> list_all (holds (\<lambda>x. x \<in> set ts)) fs)"
| "certified (l, fs, e) None = (e = ''unsat'' \<and> (\<forall>v. \<not> list_all (holds v) fs))"

lemma certified_right: "list_all2 certified cs ms \<Longrightarrow> list_all right_check cs"
proof (induction rule: list_all2_induct)
  case (Cons c cs m ms)
  then show ?case by (cases c; cases m) (auto simp: right_check_def satisfiable_def)
qed simp

lemma core_checks_right: "list_all right_check core_checks"
  by (rule certified_right [of _ "[Some [''complete'', ''planApproved'', ''passed'', ''evidence'', ''testsPass''], None,
      Some [''writeAllowed'', ''adminSave''], None, Some [''capReached'', ''handoff''], Some [''maint''],
      Some [''writeAllowed''], Some [''gateBlock'', ''unproven'', ''hookExitsBlocking''], Some [],
      Some [''passed'', ''evidence'', ''testsPass''], None, None, None, None]"])
    (auto simp: core_checks_def design_axioms)

lemma kiro_checks_right: "list_all right_check kiro_checks"
  by (rule certified_right [of _ "[None, Some [''newSliceStarting''], None,
      Some [''evidenceComplete'', ''evidenceHasTestFile'', ''evidenceHasTestName'', ''evidenceHasHash'', ''evidenceHasTimestamp'', ''passed'', ''testsPass''],
      None,
      Some [''noProgress'', ''handoff'', ''noProgressMeasurable'', ''noItemsProvenLastN'', ''noCommitsLastN''],
      None, None, Some [''running''], None, Some [''advancementAllowed''], Some [''complete'', ''planApproved'']]"])
    (auto simp: kiro_checks_def design_axioms)

lemma gap_checks_right: "list_all right_check gap_checks"
  by (rule certified_right [of _ "[None,
      Some [''complete'', ''planApproved'', ''passed'', ''evidence'', ''testsPass'', ''requirementAmended'', ''amendedItemReproven''],
      None, Some [''runProceeds''], None, Some [''checklistUsedForDisc''], None, Some [''subagentAccepted13'']]"])
    (auto simp: gap_checks_def design_axioms)

lemma superseded_core_checks_right: "list_all right_check superseded_core_checks"
  by (rule certified_right [of _ "[Some [''complete'', ''planApproved'', ''passed'', ''evidence'', ''testsPass''], None,
      Some [''writeAllowed'', ''adminSave''], None, Some [''capReached'', ''handoff''], Some [''maint''],
      Some [''writeAllowed''], Some [''gateBlock'', ''unproven''], Some [],
      Some [''passed'', ''evidence'', ''testsPass''], None, None]"])
    (auto simp: superseded_core_checks_def design_axioms)

lemma superseded_gap_checks_right: "list_all right_check superseded_gap_checks"
  by (rule certified_right [of _ "[None, Some [''newSliceStarting''], None,
      Some [''evidenceComplete'', ''evidenceHasTestFile'', ''evidenceHasTestName'', ''evidenceHasHash'', ''evidenceHasTimestamp'', ''passed'', ''testsPass''],
      None,
      Some [''noProgress'', ''handoff'', ''noProgressMeasurable'', ''noItemsProvenLastN'', ''noCommitsLastN''],
      None, Some [''running''], None, Some [''advancementAllowed''], Some [''complete'', ''planApproved'']]"])
    (auto simp: superseded_gap_checks_def design_axioms)

lemma merged_passes:
  assumes "tells solver"
  shows "merged_harness solver = (34, 34, 0)"
proof -
  have n: "length (core_checks @ kiro_checks @ gap_checks) = 34"
    by (simp add: core_checks_def kiro_checks_def gap_checks_def)
  have "list_all right_check (core_checks @ kiro_checks @ gap_checks)"
    using core_checks_right kiro_checks_right gap_checks_right by simp
  from run_checks [OF assms this, of 0 "[]"] n show ?thesis
    unfolding merged_harness_def Let_def by (simp only: split_conv) (simp add: design_report_def)
qed

subsection \<open>A solver by enumeration\<close>

fun letters :: "form \<Rightarrow> string list" where
  "letters (Bool x) = [x]"
| "letters (Neg f) = letters f"
| "letters (And fs) = concat (map letters fs)"
| "letters (Or fs) = concat (map letters fs)"
| "letters (Implies f g) = letters f @ letters g"
| "letters (Equal f g) = letters f @ letters g"
| "letters (Differ f g) = letters f @ letters g"

fun some_model :: "string list \<Rightarrow> string list \<Rightarrow> form list \<Rightarrow> bool" where
  "some_model [] ts fs = list_all (holds (\<lambda>x. x \<in> set ts)) fs"
| "some_model (x # xs) ts fs = (some_model xs ts fs \<or> some_model xs (x # ts) fs)"

definition enumerate_models :: "form list \<Rightarrow> answer" where
  "enumerate_models fs = (if some_model (remdups (concat (map letters fs))) [] fs then Sat else Unsat)"

lemma holds_cong: "(\<And>x. x \<in> set (letters f) \<Longrightarrow> v x = w x) \<Longrightarrow> holds v f = holds w f"
proof (induction f)
  case (And fs)
  then have "holds v f = holds w f" if "f \<in> set fs" for f using that by auto
  then show ?case by (auto simp: list_all_iff)
next
  case (Or fs)
  then have "holds v f = holds w f" if "f \<in> set fs" for f using that by auto
  then show ?case by (auto simp: list_ex_iff)
qed auto

lemma some_model_iff:
  "some_model xs ts fs \<longleftrightarrow> (\<exists>A. A \<subseteq> set xs \<and> list_all (holds (\<lambda>x. x \<in> set ts \<or> x \<in> A)) fs)"
proof (induction xs arbitrary: ts)
  case (Cons x xs)
  show ?case
  proof
    assume "some_model (x # xs) ts fs"
    then consider A where "A \<subseteq> set xs" "list_all (holds (\<lambda>y. y \<in> set ts \<or> y \<in> A)) fs"
      | A where "A \<subseteq> set xs" "list_all (holds (\<lambda>y. y \<in> set (x # ts) \<or> y \<in> A)) fs" by (auto simp: Cons.IH)
    then show "\<exists>A. A \<subseteq> set (x # xs) \<and> list_all (holds (\<lambda>y. y \<in> set ts \<or> y \<in> A)) fs"
    proof cases
      case 2
      moreover have "(\<lambda>y. y \<in> set (x # ts) \<or> y \<in> A) = (\<lambda>y. y \<in> set ts \<or> y \<in> insert x A)" by auto
      ultimately show ?thesis by (intro exI [of _ "insert x A"]) auto
    qed auto
  next
    assume "\<exists>A. A \<subseteq> set (x # xs) \<and> list_all (holds (\<lambda>y. y \<in> set ts \<or> y \<in> A)) fs"
    then obtain A where A: "A \<subseteq> set (x # xs)" "list_all (holds (\<lambda>y. y \<in> set ts \<or> y \<in> A)) fs" by blast
    show "some_model (x # xs) ts fs"
    proof (cases "x \<in> A")
      case True
      then have "(\<lambda>y. y \<in> set ts \<or> y \<in> A) = (\<lambda>y. y \<in> set (x # ts) \<or> y \<in> A - {x})" by auto
      with A have "some_model xs (x # ts) fs" unfolding Cons.IH by (intro exI [of _ "A - {x}"]) auto
      then show ?thesis by simp
    next
      case False
      with A have "some_model xs ts fs" unfolding Cons.IH by (intro exI [of _ A]) auto
      then show ?thesis by simp
    qed
  qed
qed simp

lemma enumeration_decides: "decides enumerate_models"
  unfolding decides_def
proof
  fix fs
  have "some_model (remdups (concat (map letters fs))) [] fs \<longleftrightarrow> satisfiable fs"
    unfolding some_model_iff satisfiable_def
  proof
    assume "\<exists>v. list_all (holds v) fs"
    then obtain v where v: "list_all (holds v) fs" by blast
    let ?A = "{x \<in> set (concat (map letters fs)). v x}"
    have "holds (\<lambda>x. x \<in> set [] \<or> x \<in> ?A) f = holds v f" if "f \<in> set fs" for f
      by (rule holds_cong) (use that in auto)
    with v show "\<exists>A. A \<subseteq> set (remdups (concat (map letters fs))) \<and> list_all (holds (\<lambda>x. x \<in> set [] \<or> x \<in> A)) fs"
      by (intro exI [of _ ?A]) (auto simp: list_all_iff)
  qed auto
  then show "enumerate_models fs = (if satisfiable fs then Sat else Unsat)" by (simp add: enumerate_models_def)
qed

subsection \<open>Properties\<close>

text \<open>
  C39. With a solver that decides satisfiability, the merged harness runs 34 checks, all of which pass, and
  exits with 0; the superseded one reports 21 of 21 for the 23 checks it runs; and the separation
  proof finds no violation.
\<close>

theorem design_checks_pass:
  assumes "decides solver"
  shows "merged_harness solver = (34, 34, 0) \<and> superseded_harness solver = (21, 21, 0) \<and>
    separation_proof solver = ''UNSAT-to-violate''"
proof (intro conjI)
  note t = decides_tells [OF assms]
  show "merged_harness solver = (34, 34, 0)" by (rule merged_passes [OF t])
  have "list_all right_check (superseded_core_checks @ superseded_gap_checks)"
    using superseded_core_checks_right superseded_gap_checks_right by simp
  from run_checks [OF t this, of 0 "[]"] show "superseded_harness solver = (21, 21, 0)"
    unfolding superseded_harness_def Let_def by (simp only: split_conv) (simp add: design_report_def)
  have "\<not> satisfiable separation_constraints" by (simp add: satisfiable_def separation_constraints_def)
  with assms show "separation_proof solver = ''UNSAT-to-violate''" by (simp add: separation_proof_def decides_def)
qed

theorem design_checks_pass_witness:
  "merged_harness enumerate_models = (34, 34, 0) \<and> separation_proof enumerate_models = ''UNSAT-to-violate''"
  using design_checks_pass [OF enumeration_decides] by simp

text \<open>
  The merged axioms strengthen the superseded ones, which leave the exit of the Stop hook open at the
  limit: there they allow it to block and so to keep the session running.
\<close>

theorem merged_axioms_strengthen:
  "(\<forall>v. list_all (holds v) core_axioms = (list_all (holds v) superseded_core_axioms \<and>
      list_all (holds v) (filter (\<lambda>f. ''hookExitsBlocking'' \<in> set (letters f)) core_axioms))) \<and>
   satisfiable (superseded_core_axioms @ [Bool ''capReached'', Bool ''hookExitsBlocking'']) \<and>
   \<not> satisfiable (core_axioms @ [Bool ''capReached'', Bool ''hookExitsBlocking''])"
proof (intro conjI allI)
  fix v
  show "list_all (holds v) core_axioms = (list_all (holds v) superseded_core_axioms \<and>
      list_all (holds v) (filter (\<lambda>f. ''hookExitsBlocking'' \<in> set (letters f)) core_axioms))"
    by (simp add: core_axioms_def superseded_core_axioms_def) blast
  show "satisfiable (superseded_core_axioms @ [Bool ''capReached'', Bool ''hookExitsBlocking''])"
    unfolding satisfiable_def
    by (rule exI [of _ "\<lambda>x. x \<in> set [''capReached'', ''hookExitsBlocking'', ''handoff'']"]) (simp add: superseded_core_axioms_def)
  show "\<not> satisfiable (core_axioms @ [Bool ''capReached'', Bool ''hookExitsBlocking''])"
    by (auto simp: satisfiable_def core_axioms_def)
qed

text \<open>
  An answer that decides nothing counts as unsatisfiable: a solver that finds every model but answers
  unknown where there is none passes the whole harness, and one that always answers unknown makes the
  separation proof succeed.
\<close>

theorem unknown_counts_as_unsat:
  "merged_harness (\<lambda>fs. if satisfiable fs then Sat else Unknown) = (34, 34, 0) \<and> separation_exit (\<lambda>fs. Unknown) = 0"
proof
  show "merged_harness (\<lambda>fs. if satisfiable fs then Sat else Unknown) = (34, 34, 0)"
    by (rule merged_passes) (simp add: tells_def)
  show "separation_exit (\<lambda>fs. Unknown) = 0" by (simp add: separation_exit_def separation_proof_def)
qed

end
