(* ===== verification/Config_Audit.thy ===== *)
theory Config_Audit
  imports Run_Loop
begin

section \<open>Audit of the board's configuration\<close>

text \<open>
  \<open>tools/plane_config_audit.py\<close>: the settings, the five groups of checks on what the REST API
  answers, and the exit code. The API is an argument: what a path answers, a document or an
  exception. The comparison of a float with a bound is that of the driver. The details of a check
  are printed only; what sorting or reading them may raise is kept.
\<close>

subsection \<open>Settings\<close>

definition audit_line :: "(string \<rightharpoonup> string) \<Rightarrow> string \<Rightarrow> (string \<rightharpoonup> string)" where
  "audit_line cfg line = (let ln = strip line; k = takeWhile (\<lambda>c. c \<noteq> CHR ''='') ln; v = tl (dropWhile (\<lambda>c. c \<noteq> CHR ''='') ln) in
     if ln = [] \<or> startswith ln ''#'' \<or> CHR ''='' \<notin> set ln then cfg
     else case cfg k of None \<Rightarrow> cfg(k \<mapsto> v) | Some _ \<Rightarrow> cfg)"

definition AUDIT_SETTINGS :: "string list" where
  "AUDIT_SETTINGS = [''PLANE_API_BASE'', ''PLANE_WORKSPACE_SLUG'', ''PLANE_PROJECT_ID'', ''PLANE_API_KEY'']"

text \<open>The credentials file is its text, if there is one; the result is the missing settings or the configuration.\<close>

definition load_cfg :: "(string \<rightharpoonup> string) \<Rightarrow> string option \<Rightarrow> string list + (string \<rightharpoonup> string)" where
  "load_cfg environ creds =
     (let cfg = (case creds of None \<Rightarrow> environ | Some text \<Rightarrow> foldl audit_line environ (splitlines text));
          miss = filter (\<lambda>k. case cfg k of None \<Rightarrow> True | Some v \<Rightarrow> v = []) AUDIT_SETTINGS in
      if miss = [] then Inr cfg else Inl miss)"

definition audit_setting :: "(string \<rightharpoonup> string) \<Rightarrow> string \<Rightarrow> string" where
  "audit_setting cfg k = (case cfg k of Some v \<Rightarrow> v | None \<Rightarrow> [])"

definition audit_base :: "(string \<rightharpoonup> string) \<Rightarrow> string" where
  "audit_base cfg = rev (dropWhile (\<lambda>c. c = CHR ''/'') (rev (audit_setting cfg ''PLANE_API_BASE'')))"

definition audit_url :: "(string \<rightharpoonup> string) \<Rightarrow> string \<Rightarrow> string" where
  "audit_url cfg path = (if startswith path ''http'' then path
     else if startswith path ''/workspaces'' then audit_base cfg @ path
     else audit_base cfg @ ''/workspaces/'' @ audit_setting cfg ''PLANE_WORKSPACE_SLUG'' @ ''/projects/'' @
       audit_setting cfg ''PLANE_PROJECT_ID'' @ path)"

subsection \<open>Checks\<close>

definition payload_rows :: "json \<Rightarrow> json py" where
  "payload_rows payload = (if is_list payload then Inr payload
     else py_bind (obj_get_or payload ''data'' (JList [])) (\<lambda>data. obj_get_or payload ''results'' data))"

text \<open>A check is its name and whether it passed. A group of checks adds to the list, and an exception
  of the group adds one failed check after those already made.\<close>

type_synonym audit_check = "string \<times> bool"

type_synonym audit_group = "audit_check list \<times> unit py"

definition check_that :: "string \<Rightarrow> bool \<Rightarrow> audit_group \<Rightarrow> audit_group" where
  "check_that name ok rest = ((name, ok) # fst rest, snd rest)"

definition after_reading :: "'a py \<Rightarrow> ('a \<Rightarrow> audit_group) \<Rightarrow> audit_group" where
  "after_reading r f = (case r of Inl e \<Rightarrow> ([], Inl e) | Inr x \<Rightarrow> f x)"

definition guarded :: "string \<Rightarrow> audit_group \<Rightarrow> audit_check list" where
  "guarded name g = (case snd g of Inr u \<Rightarrow> fst g | Inl e \<Rightarrow> fst g @ [(name, False)])"

definition hashable_get :: "string \<Rightarrow> json \<Rightarrow> json \<Rightarrow> json py" where
  "hashable_get k v row = py_bind (obj_get_or row k v) (\<lambda>x. if hashable x then Inr x else Inl TypeError)"

fun is_number :: "json \<Rightarrow> bool" where
  "is_number (JInt i) = True"
| "is_number (JBool b) = True"
| "is_number (JFloat r) = True"
| "is_number v = False"

definition sortable :: "json list \<Rightarrow> unit py" where
  "sortable vs = (if list_all is_str vs \<or> list_all is_number vs then Inr () else Inl TypeError)"

definition STATE_GROUPS :: "string list" where
  "STATE_GROUPS = [''backlog'', ''unstarted'', ''started'', ''completed'', ''cancelled'']"

definition audit_states :: "(string \<Rightarrow> json py) \<Rightarrow> audit_check list" where
  "audit_states api = guarded ''States reachable''
     (after_reading (py_bind (api ''/states/'') payload_rows) (\<lambda>st.
      after_reading (py_iter st) (\<lambda>rows.
      after_reading (py_map (hashable_get ''group'' JNull) rows) (\<lambda>groups.
      check_that ''States: >= 9 custom workflow states'' (9 \<le> length rows)
        (after_reading (sortable (filter truthy groups)) (\<lambda>_.
         check_that ''States: all 5 groups present (backlog/unstarted/started/completed/cancelled)''
           (JStr ` set STATE_GROUPS \<subseteq> set groups)
           (after_reading (py_map (\<lambda>s. obj_get s ''color'') rows) (\<lambda>colors.
            check_that ''States: each has an explicit color (visual encoding)'' (list_all truthy colors) ([], Inr ())))))))))"

definition dated_cycle :: "json \<Rightarrow> bool py" where
  "dated_cycle c = py_bind (obj_get c ''start_date'') (\<lambda>s. if \<not> truthy s then Inr False
     else py_bind (obj_get c ''end_date'') (\<lambda>e. Inr (truthy e)))"

definition audit_cycles :: "(string \<Rightarrow> json py) \<Rightarrow> audit_check list" where
  "audit_cycles api = guarded ''Cycles reachable''
     (after_reading (py_bind (api ''/cycles/'') payload_rows) (\<lambda>cy.
      after_reading (py_iter cy) (\<lambda>rows.
      after_reading (py_map dated_cycle rows) (\<lambda>dated.
      check_that ''Cycles: 7 cycles configured'' (length rows = 7)
        (check_that ''Cycles: every cycle is timeboxed (start+end dates)'' (list_all (\<lambda>b. b) dated \<and> rows \<noteq> []) ([], Inr ()))))))"

text \<open>The namespace of a label is its name up to the first colon.\<close>

definition label_prefix :: "json \<Rightarrow> string list py" where
  "label_prefix n = (case n of JStr s \<Rightarrow> Inr (if CHR '':'' \<in> set s then [takeWhile (\<lambda>c. c \<noteq> CHR '':'') s] else [])
     | _ \<Rightarrow> Inl TypeError)"

definition LABEL_NAMESPACES :: "string list" where
  "LABEL_NAMESPACES = [''agent'', ''type'', ''gate'', ''phase'']"

definition audit_labels :: "(string \<Rightarrow> json py) \<Rightarrow> audit_check list" where
  "audit_labels api = guarded ''Labels reachable''
     (after_reading (py_bind (api ''/labels/'') payload_rows) (\<lambda>lb.
      after_reading (py_iter lb) (\<lambda>rows.
      after_reading (py_map (hashable_get ''name'' (JStr [])) rows) (\<lambda>names.
      after_reading (py_map label_prefix names) (\<lambda>prefixes.
      check_that ''Labels: >= 15 labels present'' (15 \<le> length rows)
        (check_that ''Labels: encoded namespaces present (agent/type/gate/phase)''
          (list_ex (\<lambda>p. p \<in> set (concat prefixes)) LABEL_NAMESPACES) ([], Inr ())))))))"

definition issue_total :: "json \<Rightarrow> json py" where
  "issue_total first = (let counted = (case first of JObj d \<Rightarrow> dget d ''total_count'' | _ \<Rightarrow> JNull) in
     if counted \<noteq> JNull then Inr counted
     else py_bind (payload_rows first) (\<lambda>rs. py_bind (py_iter rs) (\<lambda>rows. Inr (JInt (int (length rows))))))"

definition audit_issues :: "floats \<Rightarrow> (string \<Rightarrow> json py) \<Rightarrow> audit_check list" where
  "audit_issues fl api = guarded ''Issues reachable''
     (after_reading (py_bind (api ''/issues/'') issue_total) (\<lambda>t.
      after_reading (py_ge fl t 240) (\<lambda>ok.
      check_that ''Work items: >= 240 issues materialized'' ok ([], Inr ()))))"

definition audit_project :: "(string \<Rightarrow> json py) \<Rightarrow> audit_check list" where
  "audit_project api = guarded ''Project reachable''
     (after_reading (api []) (\<lambda>pj.
      after_reading (obj_get pj ''name'') (\<lambda>name.
      after_reading (obj_get pj ''identifier'') (\<lambda>identifier.
      check_that ''Project: has a name + identifier'' (truthy name \<and> truthy identifier) ([], Inr ())))))"

definition config_checks :: "floats \<Rightarrow> (string \<Rightarrow> json py) \<Rightarrow> audit_check list" where
  "config_checks fl api = audit_states api @ audit_cycles api @ audit_labels api @ audit_issues fl api @ audit_project api"

definition audit_exit :: "audit_check list \<Rightarrow> int" where
  "audit_exit checks = (if filter (\<lambda>(name, ok). \<not> ok) checks \<noteq> [] then 1 else 0)"

definition config_audit_main :: "floats \<Rightarrow> (string \<Rightarrow> json py) \<Rightarrow> int" where
  "config_audit_main fl api = audit_exit (config_checks fl api)"

subsection \<open>When the audit passes\<close>

definition passes :: "audit_group \<Rightarrow> bool" where
  "passes g \<longleftrightarrow> snd g = Inr () \<and> list_all snd (fst g)"

lemma passes_simps [simp]:
  "passes (check_that name ok g) \<longleftrightarrow> ok \<and> passes g"
  "passes (after_reading r f) \<longleftrightarrow> (\<exists>x. r = Inr x \<and> passes (f x))"
  "passes ([], Inr ())"
  by (auto simp: passes_def check_that_def after_reading_def split: sum.splits)

lemma guarded_passes: "list_all snd (guarded name g) \<longleftrightarrow> passes g"
  by (cases "snd g") (simp_all add: passes_def guarded_def)

text \<open>The rows of a listing, all of them objects.\<close>

definition listing :: "(string \<Rightarrow> json py) \<Rightarrow> string \<Rightarrow> dict list \<Rightarrow> bool" where
  "listing api path ds \<longleftrightarrow> py_bind (py_bind (api path) payload_rows) py_iter = Inr (map JObj ds)"

lemma py_map_shaped:
  assumes "\<And>v x. f v = Inr x \<longleftrightarrow> (\<exists>d. v = C d \<and> x = g d \<and> P d)"
  shows "py_map f vs = Inr xs \<longleftrightarrow> (\<exists>ds. vs = map C ds \<and> xs = map g ds \<and> list_all P ds)"
proof (induction vs arbitrary: xs)
  case (Cons v vs)
  have "py_map f (v # vs) = Inr xs \<longleftrightarrow> (\<exists>y ys. f v = Inr y \<and> py_map f vs = Inr ys \<and> xs = y # ys)"
    by (auto simp: py_bind_Inr_iff)
  also have "\<dots> \<longleftrightarrow> (\<exists>d ds. v = C d \<and> vs = map C ds \<and> xs = map g (d # ds) \<and> list_all P (d # ds))"
    unfolding assms Cons.IH by auto
  also have "\<dots> \<longleftrightarrow> (\<exists>ds. v # vs = map C ds \<and> xs = map g ds \<and> list_all P ds)"
  proof
    assume "\<exists>ds. v # vs = map C ds \<and> xs = map g ds \<and> list_all P ds"
    then show "\<exists>d ds. v = C d \<and> vs = map C ds \<and> xs = map g (d # ds) \<and> list_all P (d # ds)"
    proof (elim exE conjE)
      fix ds assume ds: "v # vs = map C ds" "xs = map g ds" "list_all P ds"
      then show ?thesis by (cases ds) auto
    qed
  qed (metis list.simps(9))
  finally show ?case .
qed auto

lemma hashable_rows: "py_map (hashable_get k w) vs = Inr xs \<longleftrightarrow>
    (\<exists>ds. vs = map JObj ds \<and> xs = map (\<lambda>d. dget_or d k w) ds \<and> list_all (\<lambda>d. hashable (dget_or d k w)) ds)"
proof (rule py_map_shaped)
  show "hashable_get k w v = Inr x \<longleftrightarrow> (\<exists>d. v = JObj d \<and> x = dget_or d k w \<and> hashable (dget_or d k w))" for v x
    by (cases v) (auto simp: hashable_get_def)
qed

definition dated :: "dict \<Rightarrow> bool" where
  "dated d \<longleftrightarrow> truthy (dget d ''start_date'') \<and> truthy (dget d ''end_date'')"

lemma dated_rows: "py_map dated_cycle vs = Inr bs \<longleftrightarrow> (\<exists>ds. vs = map JObj ds \<and> bs = map dated ds)"
proof -
  have "py_map dated_cycle vs = Inr bs \<longleftrightarrow> (\<exists>ds. vs = map JObj ds \<and> bs = map dated ds \<and> list_all (\<lambda>d. True) ds)"
  proof (rule py_map_shaped)
    show "dated_cycle v = Inr x \<longleftrightarrow> (\<exists>d. v = JObj d \<and> x = dated d \<and> True)" for v x
      by (cases v) (auto simp: dated_cycle_def dated_def)
  qed
  then show ?thesis by (simp add: list_all_iff)
qed

definition namespaces_of :: "string \<Rightarrow> string list" where
  "namespaces_of s = (if CHR '':'' \<in> set s then [takeWhile (\<lambda>c. c \<noteq> CHR '':'') s] else [])"

lemma label_rows: "py_map label_prefix names = Inr ps \<longleftrightarrow> (\<exists>ss. names = map JStr ss \<and> ps = map namespaces_of ss)"
proof -
  have "py_map label_prefix names = Inr ps \<longleftrightarrow> (\<exists>ss. names = map JStr ss \<and> ps = map namespaces_of ss \<and> list_all (\<lambda>s. True) ss)"
  proof (rule py_map_shaped)
    show "label_prefix v = Inr x \<longleftrightarrow> (\<exists>s. v = JStr s \<and> x = namespaces_of s \<and> True)" for v x
      by (cases v) (auto simp: label_prefix_def namespaces_of_def)
  qed
  then show ?thesis by (simp add: list_all_iff)
qed

lemma colored_rows: "py_map (\<lambda>s. obj_get s k) (map JObj ds) = Inr (map (\<lambda>d. dget d k) ds)"
  by (induction ds) simp_all

lemma read_objects:
  "passes (after_reading (py_bind r payload_rows) (\<lambda>st. after_reading (py_iter st) (\<lambda>rows.
      after_reading (py_map (hashable_get k w) rows) (f rows)))) \<longleftrightarrow>
    (\<exists>ds. py_bind (py_bind r payload_rows) py_iter = Inr (map JObj ds) \<and> list_all (\<lambda>d. hashable (dget_or d k w)) ds \<and>
      passes (f (map JObj ds) (map (\<lambda>d. dget_or d k w) ds)))"
  unfolding passes_simps hashable_rows py_bind_Inr_iff by blast

lemma states_pass_raw: "list_all snd (audit_states api) \<longleftrightarrow> (\<exists>ds. listing api ''/states/'' ds \<and>
    list_all (\<lambda>d. hashable (dget d ''group'')) ds \<and> 9 \<le> length ds \<and>
    sortable (filter truthy (map (\<lambda>d. dget d ''group'') ds)) = Inr () \<and>
    JStr ` set STATE_GROUPS \<subseteq> set (map (\<lambda>d. dget d ''group'') ds) \<and>
    list_all truthy (map (\<lambda>d. dget d ''color'') ds))"
  unfolding audit_states_def guarded_passes read_objects listing_def by (simp add: colored_rows dget_def [symmetric])

lemma states_pass: "list_all snd (audit_states api) \<longleftrightarrow> (\<exists>ds. listing api ''/states/'' ds \<and> 9 \<le> length ds \<and>
    list_all (\<lambda>g. list_ex (\<lambda>d. dget d ''group'' = JStr g) ds) STATE_GROUPS \<and>
    list_all (\<lambda>d. is_str (dget d ''group'') \<or> \<not> truthy (dget d ''group'') \<and> hashable (dget d ''group'')) ds \<and>
    list_all (\<lambda>d. truthy (dget d ''color'')) ds)"
proof -
  have groups: "JStr ` set STATE_GROUPS \<subseteq> set (map (\<lambda>d. dget d ''group'') ds) \<longleftrightarrow>
      list_all (\<lambda>g. list_ex (\<lambda>d. dget d ''group'' = JStr g) ds) STATE_GROUPS" for ds
    unfolding list_all_iff list_ex_iff set_map image_subset_iff by (metis (no_types, lifting) image_iff)
  have sorted: "sortable (filter truthy (map (\<lambda>d. dget d ''group'') ds)) = Inr () \<and> list_all (\<lambda>d. hashable (dget d ''group'')) ds \<longleftrightarrow>
      list_all (\<lambda>d. is_str (dget d ''group'') \<or> \<not> truthy (dget d ''group'') \<and> hashable (dget d ''group'')) ds"
    if "list_all (\<lambda>g. list_ex (\<lambda>d. dget d ''group'' = JStr g) ds) STATE_GROUPS" for ds
  proof -
    have "list_ex (\<lambda>d. dget d ''group'' = JStr ''backlog'') ds" using that by (simp add: STATE_GROUPS_def)
    then obtain d where "d \<in> set ds" "dget d ''group'' = JStr ''backlog''" unfolding list_ex_iff by blast
    then have "\<not> list_all is_number (filter truthy (map (\<lambda>d. dget d ''group'') ds))"
      by (auto simp: list_all_iff intro!: bexI [of _ d])
    moreover have "is_str v \<Longrightarrow> hashable v" for v by (cases v) simp_all
    ultimately show ?thesis by (auto simp: sortable_def list_all_iff)
  qed
  show ?thesis unfolding states_pass_raw groups
    by (rule arg_cong [of _ _ Ex], rule ext) (use sorted in \<open>auto simp: list.pred_map comp_def\<close>)
qed

definition label_name :: "dict \<Rightarrow> json" where
  "label_name d = dget_or d ''name'' (JStr [])"

lemma read_prefixes: "passes (after_reading (py_map label_prefix names) f) \<longleftrightarrow>
    (\<exists>ns. names = map JStr ns \<and> passes (f (map namespaces_of ns)))"
  unfolding passes_simps label_rows by blast

lemma labels_pass: "list_all snd (audit_labels api) \<longleftrightarrow> (\<exists>ds ns. listing api ''/labels/'' ds \<and> 15 \<le> length ds \<and>
    map label_name ds = map JStr ns \<and> list_ex (\<lambda>p. list_ex (\<lambda>n. p \<in> set (namespaces_of n)) ns) LABEL_NAMESPACES)"
proof -
  have h: "map label_name ds = map JStr ns \<Longrightarrow> list_all (\<lambda>d. hashable (label_name d)) ds" for ds ns
  proof -
    assume "map label_name ds = map JStr ns"
    then have "list_all hashable (map label_name ds)" by (simp add: list_all_iff)
    then show ?thesis by (simp add: list.pred_map comp_def)
  qed
  have "list_all snd (audit_labels api) \<longleftrightarrow> (\<exists>ds. listing api ''/labels/'' ds \<and> list_all (\<lambda>d. hashable (label_name d)) ds \<and>
      (\<exists>ns. map label_name ds = map JStr ns \<and> 15 \<le> length ds \<and>
         list_ex (\<lambda>p. p \<in> set (concat (map namespaces_of ns))) LABEL_NAMESPACES))"
    unfolding audit_labels_def guarded_passes read_objects read_prefixes listing_def label_name_def [symmetric] by simp
  then show ?thesis using h by (auto simp: list_ex_iff)
qed

lemma read_dated:
  "passes (after_reading (py_bind r payload_rows) (\<lambda>st. after_reading (py_iter st) (\<lambda>rows.
      after_reading (py_map dated_cycle rows) (f rows)))) \<longleftrightarrow>
    (\<exists>ds. py_bind (py_bind r payload_rows) py_iter = Inr (map JObj ds) \<and> passes (f (map JObj ds) (map dated ds)))"
  unfolding passes_simps dated_rows py_bind_Inr_iff by blast

lemma cycles_pass: "list_all snd (audit_cycles api) \<longleftrightarrow>
    (\<exists>ds. listing api ''/cycles/'' ds \<and> length ds = 7 \<and> list_all dated ds)"
proof -
  have "list_all snd (audit_cycles api) \<longleftrightarrow> (\<exists>ds. listing api ''/cycles/'' ds \<and> length ds = 7 \<and>
      list_all dated ds \<and> ds \<noteq> [])"
    unfolding audit_cycles_def guarded_passes read_dated listing_def by (simp add: list.pred_map comp_def)
  then show ?thesis by auto
qed

text \<open>The number of work items that the server reports, or the length of the first page.\<close>

definition counted_items :: "floats \<Rightarrow> json \<Rightarrow> bool" where
  "counted_items fl first \<longleftrightarrow> (\<exists>t. issue_total first = Inr t \<and> py_ge fl t 240 = Inr True)"

text \<open>
  The audit exits with 0 exactly when every listing is readable and meets its expectations: nine
  coloured states over all five groups, seven dated cycles, fifteen labels one of which has a known
  namespace, 240 work items, and a project with a name and an identifier.
\<close>

theorem config_audit_exit0_iff:
  "config_audit_main fl api = 0 \<longleftrightarrow>
    (\<exists>st cy lb ns first p. listing api ''/states/'' st \<and> 9 \<le> length st \<and>
      list_all (\<lambda>g. list_ex (\<lambda>d. dget d ''group'' = JStr g) st) STATE_GROUPS \<and>
      list_all (\<lambda>d. is_str (dget d ''group'') \<or> \<not> truthy (dget d ''group'') \<and> hashable (dget d ''group'')) st \<and>
      list_all (\<lambda>d. truthy (dget d ''color'')) st \<and>
      listing api ''/cycles/'' cy \<and> length cy = 7 \<and> list_all dated cy \<and>
      listing api ''/labels/'' lb \<and> 15 \<le> length lb \<and> map label_name lb = map JStr ns \<and>
      list_ex (\<lambda>p. list_ex (\<lambda>n. p \<in> set (namespaces_of n)) ns) LABEL_NAMESPACES \<and>
      api ''/issues/'' = Inr first \<and> counted_items fl first \<and>
      api [] = Inr (JObj p) \<and> truthy (dget p ''name'') \<and> truthy (dget p ''identifier''))"
proof -
  have issues: "list_all snd (audit_issues fl api) \<longleftrightarrow> (\<exists>first. api ''/issues/'' = Inr first \<and> counted_items fl first)"
    unfolding audit_issues_def guarded_passes counted_items_def by (auto simp: py_bind_Inr_iff)
  have obj: "obj_get v k = Inr x \<longleftrightarrow> (\<exists>d. v = JObj d \<and> x = dget d k)" for v k x by (cases v) auto
  have project: "list_all snd (audit_project api) \<longleftrightarrow>
      (\<exists>p. api [] = Inr (JObj p) \<and> truthy (dget p ''name'') \<and> truthy (dget p ''identifier''))"
    unfolding audit_project_def guarded_passes by (auto simp: obj)
  have "filter (\<lambda>(name, ok). \<not> ok) cs = [] \<longleftrightarrow> list_all snd cs" for cs :: "audit_check list"
    by (induction cs) auto
  then have "config_audit_main fl api = 0 \<longleftrightarrow> list_all snd (config_checks fl api)"
    by (simp add: config_audit_main_def audit_exit_def)
  also have "\<dots> \<longleftrightarrow> list_all snd (audit_states api) \<and> list_all snd (audit_cycles api) \<and> list_all snd (audit_labels api) \<and>
      list_all snd (audit_issues fl api) \<and> list_all snd (audit_project api)"
    by (simp add: config_checks_def)
  finally show ?thesis unfolding states_pass cycles_pass labels_pass issues project by blast
qed

text \<open>
  One namespace is enough: a board all of whose labels start with \<open>agent:\<close> passes the check named after
  four namespaces.
\<close>

definition sample_board :: "string \<Rightarrow> json py" where
  "sample_board path =
    (if path = ''/states/'' then Inr (JList (map (\<lambda>g. JObj [(''group'', JStr g), (''color'', JStr ''#fff'')]) (STATE_GROUPS @ STATE_GROUPS)))
     else if path = ''/cycles/'' then Inr (JList (replicate 7 (JObj [(''start_date'', JStr ''2026-01-01''), (''end_date'', JStr ''2026-02-01'')])))
     else if path = ''/labels/'' then Inr (JObj [(''results'', JList (replicate 15 (JObj [(''name'', JStr ''agent:verifier'')])))])
     else if path = ''/issues/'' then Inr (JObj [(''total_count'', JInt 243)])
     else Inr (JObj [(''name'', JStr ''Board''), (''identifier'', JStr ''ASCP'')]))"

theorem one_namespace_is_enough:
  "config_audit_main fl sample_board = 0 \<and> py_bind (sample_board ''/labels/'') payload_rows =
    Inr (JList (replicate 15 (JObj [(''name'', JStr ''agent:verifier'')])))"
proof
  show "config_audit_main fl sample_board = 0"
    by (simp add: config_audit_main_def config_checks_def audit_exit_def sample_board_def STATE_GROUPS_def LABEL_NAMESPACES_def
        audit_states_def audit_cycles_def audit_labels_def audit_issues_def audit_project_def guarded_def check_that_def
        after_reading_def payload_rows_def hashable_get_def dget_def dget_or_def sortable_def dated_cycle_def
        label_prefix_def issue_total_def numeral_eq_Suc)
  show "py_bind (sample_board ''/labels/'') payload_rows =
    Inr (JList (replicate 15 (JObj [(''name'', JStr ''agent:verifier'')])))"
    by (simp add: sample_board_def payload_rows_def dget_or_def)
qed

end
