(* ===== verification/Governed_Pilot.thy ===== *)
theory Governed_Pilot
  imports Depth_Feed Plane_Loop
begin

section \<open>The governed pilot\<close>

text \<open>
  \<open>tools/governed_pilot.py\<close>: the scenarios that drive \<open>gated_prove\<close> of
  \<open>plane-integration/the_loop.py\<close> with a recording client in place of the board, and the oracle over
  their outcomes. The recording client keeps the calls in order; a lenient one lets every check pass
  and records none, a strict one records and enforces them. A pilot's root is a fresh directory: no driver
  file, no coverage model, and no repository for \<open>git\<close>. The report that is printed is left out, and so
  is the wording of a decision, an argument.
\<close>

subsection \<open>The recording client\<close>

record pilot_pc =
  pc_strict :: bool
  pc_state :: string
  pc_secret :: bool

type_synonym pilot_call = "string \<times> string list"

type_synonym 'a pilot_op = "pilot_call list \<Rightarrow> pilot_call list \<times> (board_error + 'a)"

definition LEGAL_DONE_PREDECESSORS :: "string list" where
  "LEGAL_DONE_PREDECESSORS = [''In-Verification'', ''Human-Review'']"

definition recorded :: "string \<Rightarrow> string list \<Rightarrow> unit pilot_op" where
  "recorded fn args calls = (calls @ [(fn, args)], Inr ())"

definition mock_check_actor :: "pilot_pc \<Rightarrow> string \<Rightarrow> string \<Rightarrow> unit pilot_op" where
  "mock_check_actor pc role to calls =
     (if \<not> pc_strict pc then (calls, Inr ())
      else (calls @ [(''check_actor'', [role, to])],
        if to = ''Done'' \<and> (role \<noteq> ''verifier'' \<or> \<not> pc_secret pc) then Inl PermissionError else Inr ()))"

definition mock_legal_edge :: "pilot_pc \<Rightarrow> string \<Rightarrow> string \<Rightarrow> bool pilot_op" where
  "mock_legal_edge pc cur to calls =
     (if \<not> pc_strict pc then (calls, Inr True)
      else (calls @ [(''legal_edge'', [cur, to])], Inr (\<not> (to = ''Done'' \<and> cur \<notin> set LEGAL_DONE_PREDECESSORS))))"

text \<open>\<open>_gate\<close> and \<open>gated_prove\<close> of the loop, on the recording client.\<close>

definition mock_gate :: "pilot_pc \<Rightarrow> string \<Rightarrow> string \<Rightarrow> unit pilot_op" where
  "mock_gate pc to role = then_do (mock_check_actor pc role to) (\<lambda>_.
     then_do (mock_legal_edge pc (pc_state pc) to) (\<lambda>legal calls. (calls, if legal then Inr () else Inl PermissionError)))"

definition mock_advance :: "pilot_pc \<Rightarrow> string \<Rightarrow> json \<Rightarrow> unit pilot_op" where
  "mock_advance pc i evidence = then_do (mock_gate pc ''Done'' ''verifier'') (\<lambda>_.
     then_do (\<lambda>calls. (calls, lift_py (py_map (index_key evidence) [''test_file'', ''test_name'', ''output_hash'', ''collected_at'']))) (\<lambda>vs.
     then_do (recorded ''post_evidence'' (i # map py_str vs @ [''verifier''])) (\<lambda>_.
     recorded ''transition'' [i, ''Done'', ''verifier''])))"

definition mock_handoff :: "pilot_pc \<Rightarrow> string \<Rightarrow> string \<Rightarrow> unit pilot_op" where
  "mock_handoff pc i text = then_do (mock_gate pc ''HANDOFF'' ''verifier'') (\<lambda>_.
     then_do (recorded ''comment'' [i, gate_text text]) (\<lambda>_. recorded ''transition'' [i, ''HANDOFF'', ''verifier'']))"

text \<open>A run starts with no calls. Its action is \<open>None\<close> when the proof raised.\<close>

record pilot_run =
  pr_action :: "gate_action option"
  pr_code :: "gate_code option"
  pr_board :: "pilot_call list"

definition pr_done :: "pilot_run \<Rightarrow> bool" where
  "pr_done r = list_ex (\<lambda>(fn, args). fn = ''transition'' \<and> list_ex (\<lambda>a. a = ''Done'') args) (pr_board r)"

definition pr_evidence_posted :: "pilot_run \<Rightarrow> bool" where
  "pr_evidence_posted r = list_ex (\<lambda>(fn, args). fn = ''post_evidence'') (pr_board r)"

definition pilot_feed :: "exec_bounds \<Rightarrow> depth_feed py" where
  "pilot_feed bounds = compute_depth_feed (\<lambda>_. None) NoFile bounds None"

definition pilot_request :: "json \<Rightarrow> json \<Rightarrow> json \<Rightarrow> advance_request" where
  "pilot_request evidence artifact ledger = \<lparr>rq_evidence = evidence, rq_artifact = artifact, rq_ledger = ledger,
     rq_changed = NoChange, rq_baseline = None, rq_known = []\<rparr>"

record pilot_env =
  pe_loop :: loop_env
  pe_workspace :: workspace
  pe_wording :: "advance \<Rightarrow> string"

definition run_pilot :: "pilot_env \<Rightarrow> pilot_pc \<Rightarrow> string \<Rightarrow> advance_request \<Rightarrow> state_file \<Rightarrow> pilot_run \<times> state_file" where
  "run_pilot env pc i q file =
     (case fed_advance (pilot_feed (le_bounds (pe_loop env))) (pe_workspace env) (pe_loop env) file q of
        Inl e \<Rightarrow> (\<lparr>pr_action = None, pr_code = None, pr_board = []\<rparr>, file)
      | Inr (decision, file') \<Rightarrow>
          (case (case la_action decision of
               Advance \<Rightarrow> mock_advance pc i (rq_evidence q) []
             | HandOff \<Rightarrow> mock_handoff pc i (pe_wording env decision) []
             | SelfHeal \<Rightarrow> ([], Inr ())) of
            (calls, Inl e) \<Rightarrow> (\<lparr>pr_action = None, pr_code = None, pr_board = calls\<rparr>, file')
          | (calls, Inr u) \<Rightarrow> (\<lparr>pr_action = Some (la_action decision), pr_code = Some (la_code decision), pr_board = calls\<rparr>, file')))"

definition fresh_run :: "pilot_env \<Rightarrow> pilot_pc \<Rightarrow> string \<Rightarrow> advance_request \<Rightarrow> pilot_run" where
  "fresh_run env pc i q = fst (run_pilot env pc i q Missing)"

subsection \<open>The material of the scenarios\<close>

definition PILOT_ARTIFACT :: string where
  "PILOT_ARTIFACT = ''PASS tests/spine/test_evidence_gate.py::test_self_grade_rejected 1 passed in 0.02s''"

definition PILOT_IMPL :: string where
  "PILOT_IMPL = ''sess-implementer-7f3a''"

definition PILOT_VERI :: string where
  "PILOT_VERI = ''sess-verifier-9b21''"

definition good_evidence :: "(string \<times> json) list \<Rightarrow> json" where
  "good_evidence over = JObj (foldl (\<lambda>d (k, v). dset d k v)
     [(''test_file'', JStr ''tests/spine/test_evidence_gate.py''), (''test_name'', JStr ''test_self_grade_rejected''),
      (''output_hash'', JStr (''sha256:'' @ sha256_hex PILOT_ARTIFACT)),
      (''collected_at'', JStr ''2026-06-23T12:00:00+00:00''),
      (''implementer_session_id'', JStr PILOT_IMPL), (''verifier_session_id'', JStr PILOT_VERI)] over)"

definition ledger_of :: "string list \<Rightarrow> json" where
  "ledger_of ids = JObj [(''sessions'', JList (map JStr ids))]"

definition lenient_pc :: pilot_pc where
  "lenient_pc = \<lparr>pc_strict = False, pc_state = ''In-Verification'', pc_secret = True\<rparr>"

definition strict_pc :: "string \<Rightarrow> bool \<Rightarrow> pilot_pc" where
  "strict_pc state secret = \<lparr>pc_strict = True, pc_state = state, pc_secret = secret\<rparr>"

text \<open>The forgeries: the code the gate must answer, the evidence, the artifact and the ledger.\<close>

definition forgeries :: "(gate_code \<times> json \<times> json \<times> json) list" where
  "forgeries =
    [(SAME_SESSION, good_evidence [(''verifier_session_id'', JStr PILOT_IMPL)], JStr PILOT_ARTIFACT, ledger_of [PILOT_IMPL, PILOT_VERI]),
     (SAME_SESSION, good_evidence [(''implementer_session_id'', JStr ''sess-x''), (''verifier_session_id'', JStr ''  SESS-X  '')],
       JStr PILOT_ARTIFACT, ledger_of [''sess-x'', ''  SESS-X  '']),
     (SESSION_MISSING, good_evidence [(''implementer_session_id'', JStr ''ss''), (''verifier_session_id'', JStr [CHR 0xDF])],
       JStr PILOT_ARTIFACT, ledger_of [''ss'', [CHR 0xDF]]),
     (HASH_MISMATCH, good_evidence [], JStr (PILOT_ARTIFACT @ '' <TAMPERED>''), ledger_of [PILOT_IMPL, PILOT_VERI]),
     (EVIDENCE_MALFORMED, good_evidence [(''output_hash'', JStr (''sha256:'' @ replicate 64 CHR ''A''))],
       JStr PILOT_ARTIFACT, ledger_of [PILOT_IMPL, PILOT_VERI]),
     (EVIDENCE_MALFORMED, good_evidence [(''collected_at'', JStr ''2026-01-01T00:00:00'')],
       JStr PILOT_ARTIFACT, ledger_of [PILOT_IMPL, PILOT_VERI]),
     (EVIDENCE_MISSING, JNull, JStr PILOT_ARTIFACT, ledger_of [PILOT_IMPL, PILOT_VERI]),
     (SESSION_MISSING, good_evidence [(''verifier_session_id'', JStr ''   '')], JStr PILOT_ARTIFACT, ledger_of [PILOT_IMPL, PILOT_VERI]),
     (SESSION_MISSING, good_evidence [(''verifier_session_id'', JInt 12345)], JStr PILOT_ARTIFACT, ledger_of [PILOT_IMPL, PILOT_VERI]),
     (SESSION_NOT_IN_LEDGER, good_evidence [(''verifier_session_id'', JStr ''sess-ghost'')], JStr PILOT_ARTIFACT, ledger_of [PILOT_IMPL])]"

subsection \<open>The oracle\<close>

definition accept_scenario :: "pilot_env \<Rightarrow> pilot_pc \<Rightarrow> string \<Rightarrow> json \<Rightarrow> json \<Rightarrow> bool" where
  "accept_scenario env pc i evidence ledger = (let r = fresh_run env pc i (pilot_request evidence (JStr PILOT_ARTIFACT) ledger) in
     pr_action r = Some Advance \<and> pr_done r)"

definition forgery_scenario :: "pilot_env \<Rightarrow> gate_code \<times> json \<times> json \<times> json \<Rightarrow> bool" where
  "forgery_scenario env = (\<lambda>(want, evidence, artifact, ledger).
     let r = fresh_run env lenient_pc ''PILOT-F'' (pilot_request evidence artifact ledger) in
     pr_action r \<noteq> Some Advance \<and> \<not> pr_done r \<and> \<not> pr_evidence_posted r \<and> pr_code r = Some want)"

definition board_reject_scenario :: "pilot_env \<Rightarrow> pilot_pc \<Rightarrow> string \<Rightarrow> bool" where
  "board_reject_scenario env pc i =
     (let r = fresh_run env pc i (pilot_request (good_evidence []) (JStr PILOT_ARTIFACT) (ledger_of [PILOT_IMPL, PILOT_VERI])) in
      \<not> pr_done r \<and> \<not> pr_evidence_posted r)"

text \<open>The same rejected slice again and again in one directory.\<close>

fun repeated_runs :: "pilot_env \<Rightarrow> nat \<Rightarrow> advance_request \<Rightarrow> state_file \<Rightarrow> pilot_run list" where
  "repeated_runs env 0 q file = []"
| "repeated_runs env (Suc n) q file = (case run_pilot env lenient_pc ''PILOT-ESC'' q file of
     (r, file') \<Rightarrow> r # repeated_runs env n q file')"

text \<open>With no run at all there is no last one to read.\<close>

definition escalation_scenario :: "pilot_env \<Rightarrow> bool py" where
  "escalation_scenario env =
     (let n = nat (BLOCK_STREAK_HANDOFF (le_bounds (pe_loop env)));
          rs = repeated_runs env n (pilot_request (good_evidence [(''verifier_session_id'', JStr PILOT_IMPL)])
            (JStr PILOT_ARTIFACT) (ledger_of [PILOT_IMPL])) Missing in
      if rs = [] then Inl TypeError
      else Inr (list_ex (\<lambda>(fn, args). fn = ''comment'') (pr_board (last rs)) \<and> \<not> pr_done (last rs) \<and>
        map pr_action rs = replicate (n - 1) (Some SelfHeal) @ [Some HandOff]))"

definition coverage_scenarios :: "bool list" where
  "coverage_scenarios =
     (let led = ledger_of [PILOT_IMPL, PILOT_VERI]; arts = [(JStr ''A'', JStr PILOT_ARTIFACT)];
          proven = JObj [(''id'', JStr ''A''), (''in_scope'', JBool True), (''status'', JStr ''proven''), (''evidence'', good_evidence [])];
          unproven = JObj [(''id'', JStr ''B''), (''in_scope'', JBool True), (''status'', JStr ''unproven'')];
          v = check_model (JObj [(''items'', JList [proven, unproven])]) led arts;
          w = check_model (JObj [(''items'', JStr ''not-a-list'')]) led arts in
      [\<not> m_accepted v \<and> list_ex (\<lambda>x. rej_id x = JStr ''B'') (m_rejections v),
       \<not> m_accepted w \<and> rej_code (hd (m_rejections w)) = MODEL_MALFORMED])"

definition pilot_results :: "pilot_env \<Rightarrow> bool list py" where
  "pilot_results env = py_bind (escalation_scenario env) (\<lambda>escalated. Inr
     ([accept_scenario env lenient_pc ''PILOT-001'' (good_evidence []) (ledger_of [PILOT_IMPL, PILOT_VERI])] @
      map (forgery_scenario env) forgeries @
      [accept_scenario env (strict_pc ''In-Verification'' True) ''PILOT-B1'' (good_evidence []) (ledger_of [PILOT_IMPL, PILOT_VERI]),
       board_reject_scenario env (strict_pc ''Backlog'' True) ''PILOT-B2'',
       board_reject_scenario env (strict_pc ''In-Verification'' False) ''PILOT-B3'', escalated] @
      coverage_scenarios @
      [accept_scenario env lenient_pc ''PILOT-TRUST'' (good_evidence [(''implementer_session_id'', JStr ''atk-a''),
         (''verifier_session_id'', JStr ''atk-b'')]) (ledger_of [''atk-a'', ''atk-b''])]))"

definition pilot_main :: "pilot_env \<Rightarrow> int py" where
  "pilot_main env = py_bind (pilot_results env) (\<lambda>rs. Inr (if list_all (\<lambda>b. b) rs then 0 else 1))"

subsection \<open>What the gate says of the material\<close>

lemma digits_val_numeral: "digits_val (numeral k) s = (case s of [] \<Rightarrow> None
   | c # r \<Rightarrow> if digit_char c then map_option (\<lambda>(v, r). ((code c - 48) * 10 ^ pred_numeral k + v, r))
       (digits_val (pred_numeral k) r) else None)"
  by (simp add: numeral_eq_Suc split: list.split)

lemma digits_val_one: "digits_val (Suc 0) s = (case s of [] \<Rightarrow> None
   | c # r \<Rightarrow> if digit_char c then Some (code c - 48, r) else None)"
  by (simp split: list.split)

lemmas date_eval = fromisoformat_def date_separator_def parse_date_def parse_time_def hms_def is_tz_def valid_date_def
  days_in_month_def digits_val_numeral digits_val_one digit_char_def code_def Let_def

lemma pilot_times: "fromisoformat ''2026-06-23T12:00:00+00:00'' = Some True" "fromisoformat ''2026-01-01T00:00:00'' = Some False"
  by (simp_all add: date_eval)

text \<open>A record with the four fields of the pilot; only its sessions differ.\<close>

definition pilot_record :: "dict \<Rightarrow> bool" where
  "pilot_record d \<longleftrightarrow> dget d ''test_file'' = JStr ''tests/spine/test_evidence_gate.py'' \<and>
     dget d ''test_name'' = JStr ''test_self_grade_rejected'' \<and>
     dget d ''output_hash'' = JStr (''sha256:'' @ sha256_hex PILOT_ARTIFACT) \<and>
     dget d ''collected_at'' = JStr ''2026-06-23T12:00:00+00:00''"

lemma pilot_record_valid:
  assumes "pilot_record d"
  shows "validate_evidence_record (JObj d)"
proof -
  have names: "strip ''tests/spine/test_evidence_gate.py'' \<noteq> []" "strip ''test_self_grade_rejected'' \<noteq> []"
    "strip ''2026-06-23T12:00:00+00:00'' \<noteq> []" by code_simp+
  have "strip (''sha256:'' @ sha256_hex PILOT_ARTIFACT) \<noteq> []"
    by (simp add: strip_def is_space_def code_def dropWhile_append)
  moreover have "output_hash_match (''sha256:'' @ sha256_hex PILOT_ARTIFACT)"
    by (rule output_hash_match_digest) simp
  ultimately show ?thesis
    using names assms by (simp add: validate_evidence_record_def REQUIRED_FIELDS_def pilot_record_def pilot_times)
qed

lemma check_pilot_record:
  assumes "pilot_record d"
  shows "check_slice (JObj d) (JStr art) ledger =
    (if sha256_hex art \<noteq> sha256_hex PILOT_ARTIFACT then reject HASH_MISMATCH
       (Text ''output_hash does not re-derive from the captured artifact'')
     else case actor_separation d ledger of Inr v \<Rightarrow> v | Inl e \<Rightarrow> reject EVIDENCE_MALFORMED (Raised e))"
  using pilot_record_valid [OF assms] validate_truthy [OF pilot_record_valid [OF assms]] assms
  by (simp add: check_slice_def check_slice_body_def rederive_def pilot_record_def)

lemma pilot_sessions:
  "norm_session (JStr PILOT_IMPL) = PILOT_IMPL" "norm_session (JStr PILOT_VERI) = PILOT_VERI"
  "norm_session (JStr ''sess-x'') = ''sess-x''" "norm_session (JStr ''  SESS-X  '') = ''sess-x''"
  "norm_session (JStr ''ss'') = ''ss''" "norm_session (JStr [CHR 0xDF]) = []"
  "norm_session (JStr ''   '') = []" "norm_session (JStr ''sess-ghost'') = ''sess-ghost''"
  "norm_session (JStr ''atk-a'') = ''atk-a''" "norm_session (JStr ''atk-b'') = ''atk-b''"
  "norm_session (JInt 12345) = []"
  by code_simp+

lemma pilot_names: "[] \<noteq> PILOT_IMPL" "[] \<noteq> PILOT_VERI" "PILOT_IMPL \<noteq> []" "PILOT_VERI \<noteq> []" "PILOT_IMPL \<noteq> PILOT_VERI" "PILOT_VERI \<noteq> PILOT_IMPL"
  "PILOT_IMPL \<noteq> ''sess-ghost''" "''sess-ghost'' \<noteq> PILOT_IMPL"
  by (simp_all add: PILOT_IMPL_def PILOT_VERI_def)

text \<open>The records of the scenarios, with the sessions that were put in.\<close>

definition sessions_record :: "json \<Rightarrow> json \<Rightarrow> dict" where
  "sessions_record im vs = [(''test_file'', JStr ''tests/spine/test_evidence_gate.py''), (''test_name'', JStr ''test_self_grade_rejected''),
      (''output_hash'', JStr (''sha256:'' @ sha256_hex PILOT_ARTIFACT)), (''collected_at'', JStr ''2026-06-23T12:00:00+00:00''),
      (''implementer_session_id'', im), (''verifier_session_id'', vs)]"

lemma sessions_record_pilot: "pilot_record (sessions_record im vs)"
  by (simp add: pilot_record_def sessions_record_def dget_def dget_or_def)

lemma sessions_record_get [simp]: "dget (sessions_record im vs) ''implementer_session_id'' = im"
  "dget (sessions_record im vs) ''verifier_session_id'' = vs"
  by (simp_all add: sessions_record_def dget_def dget_or_def)

lemma good_evidence_sessions:
  "good_evidence [] = JObj (sessions_record (JStr PILOT_IMPL) (JStr PILOT_VERI))"
  "good_evidence [(''verifier_session_id'', vs)] = JObj (sessions_record (JStr PILOT_IMPL) vs)"
  "good_evidence [(''implementer_session_id'', im), (''verifier_session_id'', vs)] = JObj (sessions_record im vs)"
  by (simp_all add: good_evidence_def sessions_record_def dset_def)

lemma check_sessions:
  assumes "sha256_hex art = sha256_hex PILOT_ARTIFACT"
  shows "check_slice (JObj (sessions_record im vs)) (JStr art) (ledger_of ids) =
    (let v = norm_session vs; i = norm_session im; valid = removeAll [] (map (norm_session \<circ> JStr) ids) in
     if v = [] \<or> i = [] then reject SESSION_MISSING
       (Text ''evidence lacks a valid (non-empty, ASCII) verifier/implementer session id'')
     else if v = i then reject SAME_SESSION (Text ''verifier session equals implementer session (self-grading)'')
     else if v \<notin> set valid \<or> i \<notin> set valid then reject SESSION_NOT_IN_LEDGER
       (Text ''a declared session id is not in the dispatch ledger'')
     else accept_ok (Text ''evidence independently verified''))"
  by (simp add: check_pilot_record [OF sessions_record_pilot] assms actor_separation_def ledger_of_def dget_or_def Let_def comp_def
      image_image del: norm_session.simps)

definition wanted :: "gate_code \<times> json \<times> json \<times> json \<Rightarrow> bool" where
  "wanted = (\<lambda>(want, evidence, artifact, ledger). \<not> accepted (check_slice evidence artifact ledger) \<and>
     vcode (check_slice evidence artifact ledger) = want)"

lemma malformed_refused:
  assumes "\<not> validate_evidence_record (JObj d)" "d \<noteq> []"
  shows "check_slice (JObj d) a l = reject EVIDENCE_MALFORMED (Text ''Evidence_Record fails four-field validation'')"
  using assms by (simp add: check_slice_def check_slice_body_def)

lemma forgeries_refused: "list_all wanted forgeries \<longleftrightarrow> \<not> collide PILOT_ARTIFACT (PILOT_ARTIFACT @ '' <TAMPERED>'')"
proof -
  have bad_hash: "\<not> validate_evidence_record (good_evidence [(''output_hash'', JStr (''sha256:'' @ replicate 64 CHR ''A''))])"
  proof -
    have "\<not> output_hash_match (''sha256:'' @ replicate 64 CHR ''A'')" by code_simp
    then show ?thesis by (auto simp: good_evidence_def dset_def validate_evidence_record_def dget_def dget_or_def)
  qed
  have bad_time: "\<not> validate_evidence_record (good_evidence [(''collected_at'', JStr ''2026-01-01T00:00:00'')])"
    by (auto simp: good_evidence_def dset_def validate_evidence_record_def dget_def dget_or_def pilot_times)
  have obj: "good_evidence over = JObj d \<Longrightarrow> d \<noteq> []" for over d
  proof -
    have ne: "dset d k v \<noteq> []" for k v and d :: dict by (cases d) (auto simp: dset_def)
    have "d0 \<noteq> [] \<Longrightarrow> foldl (\<lambda>d (k, v). dset d k v) d0 over \<noteq> []" for d0
      by (induction over arbitrary: d0) (simp_all add: ne split_beta)
    then show "good_evidence over = JObj d \<Longrightarrow> d \<noteq> []" by (auto simp: good_evidence_def)
  qed
  have refused: "\<not> validate_evidence_record (good_evidence over) \<Longrightarrow> wanted (EVIDENCE_MALFORMED, good_evidence over, a, l)" for over a l
    using malformed_refused obj [of over] by (auto simp: wanted_def good_evidence_def)
  have tampered: "wanted (HASH_MISMATCH, good_evidence [], JStr (PILOT_ARTIFACT @ '' <TAMPERED>''), l) \<longleftrightarrow>
      \<not> collide PILOT_ARTIFACT (PILOT_ARTIFACT @ '' <TAMPERED>'')" if "l = ledger_of [PILOT_IMPL, PILOT_VERI]" for l
  proof (cases "sha256_hex (PILOT_ARTIFACT @ '' <TAMPERED>'') = sha256_hex PILOT_ARTIFACT")
    case True
    then show ?thesis unfolding that good_evidence_sessions wanted_def
      by (simp add: check_sessions [OF True] pilot_sessions pilot_names collide_def Let_def del: norm_session.simps)
  next
    case False
    then show ?thesis unfolding that good_evidence_sessions wanted_def
      by (simp add: check_pilot_record [OF sessions_record_pilot] collide_def)
  qed
  have missing: "wanted (EVIDENCE_MISSING, JNull, a, l)" for a l
    by (simp add: wanted_def check_slice_def check_slice_body_def)
  have sessions:
    "wanted (SAME_SESSION, good_evidence [(''verifier_session_id'', JStr PILOT_IMPL)], JStr PILOT_ARTIFACT, ledger_of [PILOT_IMPL, PILOT_VERI])"
    "wanted (SAME_SESSION, good_evidence [(''implementer_session_id'', JStr ''sess-x''), (''verifier_session_id'', JStr ''  SESS-X  '')],
       JStr PILOT_ARTIFACT, ledger_of [''sess-x'', ''  SESS-X  ''])"
    "wanted (SESSION_MISSING, good_evidence [(''implementer_session_id'', JStr ''ss''), (''verifier_session_id'', JStr [CHR 0xDF])],
       JStr PILOT_ARTIFACT, ledger_of [''ss'', [CHR 0xDF]])"
    "wanted (SESSION_MISSING, good_evidence [(''verifier_session_id'', JStr ''   '')], JStr PILOT_ARTIFACT, ledger_of [PILOT_IMPL, PILOT_VERI])"
    "wanted (SESSION_MISSING, good_evidence [(''verifier_session_id'', JInt 12345)], JStr PILOT_ARTIFACT, ledger_of [PILOT_IMPL, PILOT_VERI])"
    "wanted (SESSION_NOT_IN_LEDGER, good_evidence [(''verifier_session_id'', JStr ''sess-ghost'')], JStr PILOT_ARTIFACT, ledger_of [PILOT_IMPL])"
    by (simp_all add: good_evidence_sessions wanted_def check_sessions pilot_sessions pilot_names Let_def del: norm_session.simps)
  show ?thesis
    unfolding forgeries_def
    by (simp only: list.pred_inject tampered [OF refl] missing refused [OF bad_hash] refused [OF bad_time] sessions simp_thms)
qed

subsection \<open>Runs of the pilot\<close>

lemma fed_check [simp]: "check_slice (rq_evidence (fed_request feed q)) (rq_artifact (fed_request feed q)) (rq_ledger (fed_request feed q)) =
    check_slice (rq_evidence q) (rq_artifact q) (rq_ledger q)"
  by (simp add: fed_request_def split: sum.split)

lemma pilot_feed_empty: "depth_rejections env (fed_request (pilot_feed bounds) q) = Inr []"
  by (simp add: pilot_feed_def compute_depth_feed_def known_ids_def changed_since_def Let_def no_changes_no_depth)

lemma fed_limit [simp]: "loop_limit (fed_env feed ws env) limit = loop_limit env limit" "le_floats (fed_env feed ws env) = le_floats env"
  by (cases limit) (simp_all add: fed_env_def loop_limit_def)

text \<open>A missing driver file is read as a fresh row.\<close>

lemma missing_is_fresh: "tick fl Missing t = tick fl (Document (JObj (init_row ''unknown''))) t"
  by (simp add: tick_def read_row_def)

lemma gated_advance_missing: "gated_advance env limit Missing q = gated_advance env limit (Document (JObj (init_row ''unknown''))) q"
  by (simp add: gated_advance_def escalate_def missing_is_fresh Let_def cong: list.case_cong)

lemma run_pilot_missing: "fst (run_pilot env pc i q Missing) = fst (run_pilot env pc i q (Document (JObj (init_row ''unknown''))))"
  by (simp add: run_pilot_def fed_advance_def gated_advance_missing split: sum.split prod.split gate_action.split)

lemma fed_rejected:
  assumes "\<not> accepted (check_slice (rq_evidence q) (rq_artifact q) (rq_ledger q))" "counters row (i, n, b)"
  obtains r row' where "fed_advance feed ws env (Document (JObj row)) q = Inr (r, Document (JObj row'))"
    "la_action r = (if BLOCK_STREAK_HANDOFF (le_bounds env) \<le> int (Suc b) then HandOff else SelfHeal)"
    "la_code r = vcode (check_slice (rq_evidence q) (rq_artifact q) (rq_ledger q))" "counters row' (Suc i, Suc n, Suc b)"
proof -
  have rej: "\<not> accepted (check_slice (rq_evidence (fed_request feed q)) (rq_artifact (fed_request feed q)) (rq_ledger (fed_request feed q)))"
    using assms(1) by simp
  obtain r row' where r: "gated_advance (fed_env feed ws env) None (Document (JObj row)) (fed_request feed q) = Inr (r, Document (JObj row'))"
    "la_action r = (if loop_limit (fed_env feed ws env) None \<le> int (Suc b) then HandOff else SelfHeal)"
    "counters row' (Suc i, Suc n, Suc b)"
    by (rule slice_rejected_step [OF rej assms(2), of "fed_env feed ws env" None])
  from r(1) have "la_code r = vcode (check_slice (rq_evidence q) (rq_artifact q) (rq_ledger q))"
    by (auto simp: gated_advance_rejected [OF rej] escalate_def Let_def py_bind_Inr_iff split: if_splits)
  with r show thesis by (intro that) (simp_all add: fed_advance_def loop_limit_def [of env None])
qed

lemma fed_accepted:
  assumes "accepted (check_slice (rq_evidence q) (rq_artifact q) (rq_ledger q))"
  obtains r file' where "fed_advance (pilot_feed bounds) ws env Missing q = Inr (r, file')" "la_action r = Advance"
proof -
  obtain row where "tick (le_floats env) Missing progress_tick = Inr (row, Document (JObj row))"
    using tick_counts [OF _ init_row_counters [of "''unknown''"], of Missing "le_floats env" progress_tick] by (auto simp: read_row_def)
  with assms have "\<exists>r file'. fed_advance (pilot_feed bounds) ws env Missing q = Inr (r, file') \<and> la_action r = Advance"
    by (simp add: fed_advance_def gated_advance_def Let_def pilot_feed_empty
        depth_rejections_def [of "fed_env (pilot_feed bounds) ws env"])
  then show thesis using that by blast
qed

definition pilot_limit :: "pilot_env \<Rightarrow> int" where
  "pilot_limit env = BLOCK_STREAK_HANDOFF (le_bounds (pe_loop env))"

lemma handoff_calls: "mock_handoff lenient_pc i text [] = ([(''comment'', [i, gate_text text]), (''transition'', [i, ''HANDOFF'', ''verifier''])], Inr ())"
  by (simp add: mock_handoff_def mock_gate_def mock_check_actor_def mock_legal_edge_def lenient_pc_def recorded_def then_do_def)

lemma rejected_run:
  assumes "\<not> accepted (check_slice (rq_evidence q) (rq_artifact q) (rq_ledger q))" "counters row (i, n, b)"
  obtains r row' where "run_pilot env lenient_pc item q (Document (JObj row)) = (r, Document (JObj row'))"
    "pr_action r = Some (if pilot_limit env \<le> int (Suc b) then HandOff else SelfHeal)"
    "pr_code r = Some (vcode (check_slice (rq_evidence q) (rq_artifact q) (rq_ledger q)))"
    "list_ex (\<lambda>(fn, args). fn = ''comment'') (pr_board r) \<longleftrightarrow> pilot_limit env \<le> int (Suc b)"
    "pr_done r \<longleftrightarrow> pilot_limit env \<le> int (Suc b) \<and> item = ''Done''" "\<not> pr_evidence_posted r"
    "counters row' (Suc i, Suc n, Suc b)"
proof -
  obtain r row' where r: "fed_advance (pilot_feed (le_bounds (pe_loop env))) (pe_workspace env) (pe_loop env) (Document (JObj row)) q =
        Inr (r, Document (JObj row'))"
    "la_action r = (if pilot_limit env \<le> int (Suc b) then HandOff else SelfHeal)"
    "la_code r = vcode (check_slice (rq_evidence q) (rq_artifact q) (rq_ledger q))" "counters row' (Suc i, Suc n, Suc b)"
    unfolding pilot_limit_def by (rule fed_rejected [OF assms])
  show thesis
  proof (cases "pilot_limit env \<le> int (Suc b)")
    case True
    let ?r = "\<lparr>pr_action = Some HandOff, pr_code = Some (la_code r),
      pr_board = [(''comment'', [item, gate_text (pe_wording env r)]), (''transition'', [item, ''HANDOFF'', ''verifier''])]\<rparr>"
    have "run_pilot env lenient_pc item q (Document (JObj row)) = (?r, Document (JObj row'))"
      using True r by (simp add: run_pilot_def handoff_calls)
    then show thesis by (rule that) (use True r in \<open>simp_all add: pr_done_def pr_evidence_posted_def\<close>)
  next
    case False
    let ?r = "\<lparr>pr_action = Some SelfHeal, pr_code = Some (la_code r), pr_board = []\<rparr>"
    have "run_pilot env lenient_pc item q (Document (JObj row)) = (?r, Document (JObj row'))"
      using False r by (simp add: run_pilot_def)
    then show thesis by (rule that) (use False r in \<open>simp_all add: pr_done_def pr_evidence_posted_def\<close>)
  qed
qed

lemma accepted_run:
  assumes "accepted (check_slice (rq_evidence q) (rq_artifact q) (rq_ledger q))"
  obtains c where "fresh_run env pc i q = (case mock_advance pc i (rq_evidence q) [] of
      (calls, Inl e) \<Rightarrow> \<lparr>pr_action = None, pr_code = None, pr_board = calls\<rparr>
    | (calls, Inr u) \<Rightarrow> \<lparr>pr_action = Some Advance, pr_code = Some c, pr_board = calls\<rparr>)"
proof -
  obtain r file' where "fed_advance (pilot_feed (le_bounds (pe_loop env))) (pe_workspace env) (pe_loop env) Missing q = Inr (r, file')"
    "la_action r = Advance" by (rule fed_accepted [OF assms])
  then have "fresh_run env pc i q = (case mock_advance pc i (rq_evidence q) [] of
      (calls, Inl e) \<Rightarrow> \<lparr>pr_action = None, pr_code = None, pr_board = calls\<rparr>
    | (calls, Inr u) \<Rightarrow> \<lparr>pr_action = Some Advance, pr_code = Some (la_code r), pr_board = calls\<rparr>)"
    by (simp add: fresh_run_def run_pilot_def split: prod.split sum.split)
  then show thesis by (rule that)
qed

lemma forgery_held: "forgery_scenario env f \<longleftrightarrow> wanted f"
proof -
  obtain want evidence artifact ledger where f: "f = (want, evidence, artifact, ledger)" by (cases f)
  let ?q = "pilot_request evidence artifact ledger"
  show ?thesis
  proof (cases "accepted (check_slice evidence artifact ledger)")
    case True
    then have acc: "accepted (check_slice (rq_evidence ?q) (rq_artifact ?q) (rq_ledger ?q))" by (simp add: pilot_request_def)
    obtain c where c: "fresh_run env lenient_pc ''PILOT-F'' ?q = (case mock_advance lenient_pc ''PILOT-F'' (rq_evidence ?q) [] of
        (calls, Inl e) \<Rightarrow> \<lparr>pr_action = None, pr_code = None, pr_board = calls\<rparr>
      | (calls, Inr u) \<Rightarrow> \<lparr>pr_action = Some Advance, pr_code = Some c, pr_board = calls\<rparr>)" by (rule accepted_run [OF acc])
    then have "pr_action (fresh_run env lenient_pc ''PILOT-F'' ?q) = Some Advance \<or> pr_code (fresh_run env lenient_pc ''PILOT-F'' ?q) = None"
      by (simp split: prod.split sum.split)
    then show ?thesis using True by (auto simp: f forgery_scenario_def wanted_def Let_def)
  next
    case False
    then have rej: "\<not> accepted (check_slice (rq_evidence ?q) (rq_artifact ?q) (rq_ledger ?q))" by (simp add: pilot_request_def)
    obtain r row' where r: "run_pilot env lenient_pc ''PILOT-F'' ?q (Document (JObj (init_row ''unknown''))) = (r, Document (JObj row'))"
      "pr_action r = Some (if pilot_limit env \<le> int (Suc 0) then HandOff else SelfHeal)"
      "pr_code r = Some (vcode (check_slice (rq_evidence ?q) (rq_artifact ?q) (rq_ledger ?q)))"
      "list_ex (\<lambda>(fn, args). fn = ''comment'') (pr_board r) \<longleftrightarrow> pilot_limit env \<le> int (Suc 0)"
      "pr_done r \<longleftrightarrow> pilot_limit env \<le> int (Suc 0) \<and> ''PILOT-F'' = ''Done''" "\<not> pr_evidence_posted r"
      "counters row' (Suc 0, Suc 0, Suc 0)"
      by (rule rejected_run [OF rej init_row_counters])
    have run: "fresh_run env lenient_pc ''PILOT-F'' ?q = r" by (simp add: fresh_run_def run_pilot_missing r(1))
    have "vcode (check_slice (rq_evidence ?q) (rq_artifact ?q) (rq_ledger ?q)) = vcode (check_slice evidence artifact ledger)"
      by (simp add: pilot_request_def)
    with False r show ?thesis by (simp add: f forgery_scenario_def run wanted_def Let_def)
  qed
qed

lemma repeated_rejections:
  assumes "\<not> accepted (check_slice (rq_evidence q) (rq_artifact q) (rq_ledger q))" "counters row (i, n, b)"
  shows "map pr_action (repeated_runs env k q (Document (JObj row))) =
      map (\<lambda>j. Some (if pilot_limit env \<le> int (b + Suc j) then HandOff else SelfHeal)) [0 ..< k] \<and>
    list_all (\<lambda>r. (list_ex (\<lambda>(fn, args). fn = ''comment'') (pr_board r) \<longleftrightarrow> pr_action r = Some HandOff) \<and> \<not> pr_done r)
      (repeated_runs env k q (Document (JObj row)))"
  using assms(2)
proof (induction k arbitrary: row i n b)
  case (Suc k)
  obtain r row' where r: "run_pilot env lenient_pc ''PILOT-ESC'' q (Document (JObj row)) = (r, Document (JObj row'))"
    "pr_action r = Some (if pilot_limit env \<le> int (Suc b) then HandOff else SelfHeal)"
    "list_ex (\<lambda>(fn, args). fn = ''comment'') (pr_board r) \<longleftrightarrow> pilot_limit env \<le> int (Suc b)"
    "pr_done r \<longleftrightarrow> pilot_limit env \<le> int (Suc b) \<and> ''PILOT-ESC'' = ''Done''" "counters row' (Suc i, Suc n, Suc b)"
    by (rule rejected_run [OF assms(1) Suc.prems])
  have "[0 ..< Suc k] = 0 # map Suc [0 ..< k]" by (simp add: upt_conv_Cons map_Suc_upt del: upt_Suc)
  then show ?case using r Suc.IH [OF r(5)] by (simp add: comp_def del: upt_Suc)
qed simp

lemma self_graded: "check_slice (good_evidence [(''verifier_session_id'', JStr PILOT_IMPL)]) (JStr PILOT_ARTIFACT) (ledger_of [PILOT_IMPL]) =
    reject SAME_SESSION (Text ''verifier session equals implementer session (self-grading)'')"
  by (simp add: good_evidence_sessions check_sessions pilot_sessions pilot_names Let_def del: norm_session.simps)

lemma repeated_from_missing:
  assumes "\<not> accepted (check_slice (rq_evidence q) (rq_artifact q) (rq_ledger q))"
  shows "repeated_runs env n q Missing = repeated_runs env n q (Document (JObj (init_row ''unknown'')))"
proof (cases n)
  case (Suc k)
  obtain r row' where r: "fed_advance (pilot_feed (le_bounds (pe_loop env))) (pe_workspace env) (pe_loop env)
      (Document (JObj (init_row ''unknown''))) q = Inr (r, Document (JObj row'))"
    by (rule fed_rejected [OF assms init_row_counters])
  then have "fed_advance (pilot_feed (le_bounds (pe_loop env))) (pe_workspace env) (pe_loop env) Missing q = Inr (r, Document (JObj row'))"
    by (simp add: fed_advance_def gated_advance_missing)
  with r have "run_pilot env lenient_pc ''PILOT-ESC'' q Missing = run_pilot env lenient_pc ''PILOT-ESC'' q (Document (JObj (init_row ''unknown'')))"
    by (simp add: run_pilot_def)
  then show ?thesis by (simp add: Suc)
qed simp

lemma escalation_held: "escalation_scenario env = (if pilot_limit env < 1 then Inl TypeError else Inr True)"
proof -
  let ?q = "pilot_request (good_evidence [(''verifier_session_id'', JStr PILOT_IMPL)]) (JStr PILOT_ARTIFACT) (ledger_of [PILOT_IMPL])"
  let ?n = "nat (pilot_limit env)"
  let ?rs = "repeated_runs env ?n ?q Missing"
  have rej: "\<not> accepted (check_slice (rq_evidence ?q) (rq_artifact ?q) (rq_ledger ?q))"
    by (simp add: pilot_request_def self_graded)
  from repeated_rejections [OF rej init_row_counters, of env ?n "''unknown''"] have
    acts: "map pr_action ?rs = map (\<lambda>j. Some (if pilot_limit env \<le> int (Suc j) then HandOff else SelfHeal)) [0 ..< ?n]" and
    each: "list_all (\<lambda>r. (list_ex (\<lambda>(fn, args). fn = ''comment'') (pr_board r) \<longleftrightarrow> pr_action r = Some HandOff) \<and> \<not> pr_done r) ?rs"
    by (simp_all add: repeated_from_missing [OF rej])
  have len: "length ?rs = ?n" using arg_cong [OF acts, of length] by simp
  show ?thesis
  proof (cases "pilot_limit env < 1")
    case True
    with len have "?rs = []" by simp
    with True show ?thesis by (simp add: escalation_scenario_def Let_def pilot_limit_def)
  next
    case False
    define k where "k = ?n - 1"
    have k: "?n = Suc k" "pilot_limit env = int (Suc k)" using False by (simp_all add: k_def)
    have "map (\<lambda>j. Some (if int (Suc k) \<le> int (Suc j) then HandOff else SelfHeal)) [0 ..< k] = map (\<lambda>j. Some SelfHeal) [0 ..< k]"
      by (rule map_cong) auto
    then have "map pr_action ?rs = replicate k (Some SelfHeal) @ [Some HandOff]"
      unfolding acts unfolding k(1) unfolding k(2) by (simp add: map_replicate_const)
    moreover from this have "?rs \<noteq> []" by auto
    moreover from calculation have "pr_action (last ?rs) = Some HandOff" by (metis last_map last_snoc)
    moreover have "last ?rs \<in> set ?rs" using calculation(2) by simp
    ultimately show ?thesis
      using False each k(1) by (simp add: escalation_scenario_def Let_def pilot_limit_def [symmetric] list_all_iff)
  qed
qed

lemma record_fields: "index_key (JObj (sessions_record im vs)) ''test_file'' = Inr (JStr ''tests/spine/test_evidence_gate.py'')"
  "index_key (JObj (sessions_record im vs)) ''test_name'' = Inr (JStr ''test_self_grade_rejected'')"
  "index_key (JObj (sessions_record im vs)) ''output_hash'' = Inr (JStr (''sha256:'' @ sha256_hex PILOT_ARTIFACT))"
  "index_key (JObj (sessions_record im vs)) ''collected_at'' = Inr (JStr ''2026-06-23T12:00:00+00:00'')"
  by (simp_all add: index_key_def sessions_record_def)

lemmas mock_defs = mock_advance_def mock_gate_def mock_check_actor_def mock_legal_edge_def recorded_def then_do_def
  lenient_pc_def strict_pc_def LEGAL_DONE_PREDECESSORS_def lift_py_def record_fields

lemma accept_held:
  assumes "accepted (check_slice (JObj (sessions_record im vs)) (JStr PILOT_ARTIFACT) ledger)"
    and "pc = lenient_pc \<or> pc = strict_pc ''In-Verification'' True"
  shows "accept_scenario env pc i (JObj (sessions_record im vs)) ledger"
proof -
  let ?q = "pilot_request (JObj (sessions_record im vs)) (JStr PILOT_ARTIFACT) ledger"
  have acc: "accepted (check_slice (rq_evidence ?q) (rq_artifact ?q) (rq_ledger ?q))" using assms(1) by (simp add: pilot_request_def)
  obtain c where c: "fresh_run env pc i ?q = (case mock_advance pc i (rq_evidence ?q) [] of
      (calls, Inl e) \<Rightarrow> \<lparr>pr_action = None, pr_code = None, pr_board = calls\<rparr>
    | (calls, Inr u) \<Rightarrow> \<lparr>pr_action = Some Advance, pr_code = Some c, pr_board = calls\<rparr>)" by (rule accepted_run [OF acc])
  have "\<exists>calls. mock_advance pc i (rq_evidence ?q) [] = (calls, Inr ()) \<and>
      list_ex (\<lambda>(fn, args). fn = ''transition'' \<and> list_ex (\<lambda>a. a = ''Done'') args) calls"
    using assms(2) by (elim disjE) (simp_all add: pilot_request_def mock_defs)
  with c show ?thesis by (auto simp: accept_scenario_def Let_def pr_done_def)
qed

lemma good_accepted: "accepted (check_slice (good_evidence []) (JStr PILOT_ARTIFACT) (ledger_of [PILOT_IMPL, PILOT_VERI]))"
  by (simp add: good_evidence_sessions check_sessions pilot_sessions pilot_names Let_def del: norm_session.simps)

lemma board_reject_held:
  assumes "pc = strict_pc ''Backlog'' True \<or> pc = strict_pc ''In-Verification'' False"
  shows "board_reject_scenario env pc i"
proof -
  let ?q = "pilot_request (good_evidence []) (JStr PILOT_ARTIFACT) (ledger_of [PILOT_IMPL, PILOT_VERI])"
  have acc: "accepted (check_slice (rq_evidence ?q) (rq_artifact ?q) (rq_ledger ?q))" using good_accepted by (simp add: pilot_request_def)
  obtain c where c: "fresh_run env pc i ?q = (case mock_advance pc i (rq_evidence ?q) [] of
      (calls, Inl e) \<Rightarrow> \<lparr>pr_action = None, pr_code = None, pr_board = calls\<rparr>
    | (calls, Inr u) \<Rightarrow> \<lparr>pr_action = Some Advance, pr_code = Some c, pr_board = calls\<rparr>)" by (rule accepted_run [OF acc])
  have "\<exists>calls e. mock_advance pc i (rq_evidence ?q) [] = (calls, Inl e) \<and>
      \<not> list_ex (\<lambda>(fn, args). fn = ''transition'' \<and> list_ex (\<lambda>a. a = ''Done'') args) calls \<and>
      \<not> list_ex (\<lambda>(fn, args). fn = ''post_evidence'') calls"
    using assms by (elim disjE) (simp_all add: mock_defs)
  with c show ?thesis by (auto simp: board_reject_scenario_def Let_def pr_done_def pr_evidence_posted_def)
qed

lemma coverage_held: "list_all (\<lambda>b. b) coverage_scenarios"
proof -
  have a: "pget [(JStr ''A'', JStr PILOT_ARTIFACT)] (JStr ''A'') = JStr PILOT_ARTIFACT" by (simp add: pget_def)
  show ?thesis
    by (simp add: coverage_scenarios_def Let_def check_model_def check_model_body_def malformed_model_def in_scope_items_def
        dget_def dget_or_def check_item_def artifact_of_def a good_accepted)
qed

subsection \<open>Properties\<close>

text \<open>
  C40. The oracle of the pilot holds: whatever the environment, the workspace and the other bounds, the pilot
  exits with 0 when the streak that hands off is at least one, unless the artifact and its tampered
  form are a collision of SHA-256; with a smaller limit it runs no escalation and raises.
\<close>

theorem pilot_oracle:
  "pilot_main env = (if pilot_limit env < 1 then Inl TypeError
     else Inr (if collide PILOT_ARTIFACT (PILOT_ARTIFACT @ '' <TAMPERED>'') then 1 else 0))"
proof -
  have trust: "accepted (check_slice (JObj (sessions_record (JStr ''atk-a'') (JStr ''atk-b''))) (JStr PILOT_ARTIFACT) (ledger_of [''atk-a'', ''atk-b'']))"
    by (simp add: check_sessions pilot_sessions Let_def del: norm_session.simps)
  have accepts: "accept_scenario env lenient_pc ''PILOT-001'' (good_evidence []) (ledger_of [PILOT_IMPL, PILOT_VERI])"
    "accept_scenario env (strict_pc ''In-Verification'' True) ''PILOT-B1'' (good_evidence []) (ledger_of [PILOT_IMPL, PILOT_VERI])"
    "accept_scenario env lenient_pc ''PILOT-TRUST'' (good_evidence [(''implementer_session_id'', JStr ''atk-a''),
       (''verifier_session_id'', JStr ''atk-b'')]) (ledger_of [''atk-a'', ''atk-b''])"
    using good_accepted trust unfolding good_evidence_sessions by (simp_all add: accept_held)
  have forged: "list_all (\<lambda>b. b) (map (forgery_scenario env) forgeries) \<longleftrightarrow> \<not> collide PILOT_ARTIFACT (PILOT_ARTIFACT @ '' <TAMPERED>'')"
    unfolding forgeries_refused [symmetric] by (simp only: list.pred_map comp_def forgery_held)
  show ?thesis
    unfolding pilot_main_def pilot_results_def escalation_held
    by (simp add: accepts forged board_reject_held coverage_held)
qed

end
