(* ===== verification/Spec2Isabelle.thy ===== *)
theory Spec2Isabelle
  imports Sha256_Vectors Merge_Gate Run_Loop Audit_Log State_Integrity Event_Bus Orchestrator Store_Properties
    Webhook_Threads Dispatcher_Vectors Consumer_Properties Kill_Switch Ingest_Properties
    Ci_Check Sandbox Traceability Spec_Validator Structured_Output Checker_Properties Mcp_Properties Observability Fifth_Layer
    Depth_Feed Router Deepeval_Gate Canary Delta_Plan Formal_Design Config_Audit Governed_Pilot
begin

text \<open>
  A verification of Agentic-Driven-SDLC: the trusted tools under \<open>src/tools/\<close>, the board
  integration under \<open>src/plane-integration/\<close> and the formal design under
  \<open>src/verification/\<close>.

  \<^bold>\<open>The program.\<close> An implementer agent writes code, a verifier agent proves it, and a set of
  small tools, the spine, decides what counts as proof. The coverage model
  (\<open>feature_list.json\<close>) lists requirement items with a status; a slice of work delivers an
  evidence record, the raw test output and the ledger of the sessions that were dispatched. The
  evidence gate judges a delivered slice, the loop gate turns its verdict (and those of the depth
  pillars) into advance, self-heal or hand-off and ticks the run state, the merge gates and the CI
  check judge the model before a merge. The board of a Plane server shows the work: a webhook
  receiver appends a job to a queue for each move of an item, the dispatcher and the agent
  consumer read the queue and start agents, and the loop commands write the results back under the
  authority of a role. Beside them stand the durable store, the audit log, the event bus, the
  orchestrator, the wiring checks that feed the model, and scripts that load plans into the board.

  \<^bold>\<open>The library.\<close> A theory is named with the files it models; a theory \<open>X_Properties\<close> holds
  the properties of the component \<open>X\<close> where its definitions and proofs are long.
  \<^item> \<open>Prelude\<close>: the Python values the tools share. A JSON value is \<open>json\<close> (numbers that are not
    integers keep their literal), a dictionary is the association list \<open>dict\<close> in insertion order,
    an exception is a value of \<open>py_exc\<close> and a fallible computation is \<open>'a py\<close>; truth value,
    equality, hashing, sorting, \<open>strip\<close>, \<open>split\<close> and slicing as Python has them on 8-bit
    characters. \<open>Sha256\<close>, \<open>Sha256_Vectors\<close>: the digest of \<open>hashlib\<close> on 32-bit words.
    \<open>Json_Codec\<close>: \<open>json.dumps\<close> in the forms that the tools use and \<open>json.loads\<close>, with their
    round trip and the injectivity of the canonical form. \<open>Paths\<close>: \<open>realpath\<close> and \<open>resolve\<close>.
  \<^item> The model and its gates: \<open>Roles\<close> (\<open>spine_roles.py\<close>, \<open>execution_bounds.py\<close>,
    \<open>actor_identity.py\<close>), \<open>Coverage\<close> (\<open>coverage.py\<close>), \<open>Evidence\<close> (\<open>evidence_collector.py\<close>),
    \<open>Gate_Contract\<close>, \<open>Evidence_Gate\<close> and \<open>Orphan_Pillar\<close> (\<open>evidence_gate.py\<close>),
    \<open>Merge_Gate\<close> (\<open>coverage_gate.py\<close>, \<open>baseline_gate.py\<close>, \<open>baseline_writer.py\<close>,
    \<open>opa_input.py\<close>), \<open>Req_Scan\<close> (\<open>req_id_scan.py\<close>), \<open>Orphans\<close> (\<open>orphan_detector.py\<close>),
    \<open>Feature_List\<close> (\<open>feature_list_init.py\<close> and the schema), \<open>Ci_Check\<close>
    (\<open>ci_evidence_check.py\<close>), \<open>Spec_Validator\<close> (\<open>spec_validator.py\<close>), \<open>Traceability\<close>
    (\<open>traceability_writer.py\<close>).
  \<^item> The loop: \<open>Run_Loop\<close> (\<open>run_state_driver.py\<close>, \<open>loop_gate.py\<close>), \<open>Depth_Feed\<close>
    (\<open>depth_feed.py\<close>), \<open>Governed_Pilot\<close> (\<open>governed_pilot.py\<close>), \<open>Formal_Design\<close> (the
    constraints and checks of \<open>formal_verification_merged.py\<close>, \<open>actor_separation.py\<close> and their
    predecessor).
  \<^item> What lasts: \<open>Audit_Chain\<close> (the contract of a hash chain), \<open>Audit_Log\<close> (\<open>audit_log.py\<close>,
    \<open>audit_verify.py\<close>), \<open>State_Integrity\<close> (\<open>state_integrity.py\<close>,
    \<open>model_fingerprint.py\<close>), \<open>Store\<close> (\<open>store.py\<close>), \<open>Event_Bus\<close> (\<open>event_bus.py\<close>),
    \<open>Orchestrator\<close> (\<open>durable_orchestrator.py\<close>).
  \<^item> The board: \<open>Plane_States\<close>, \<open>Plane_Loop\<close> and \<open>Plane_Properties\<close> (\<open>plane_client.py\<close>,
    \<open>the_loop.py\<close>), \<open>Webhook\<close> with \<open>Webhook_Properties\<close> and
    \<open>Webhook_Threads\<close> (\<open>webhook_handler.py\<close>, one handler at a time and interleaved), \<open>Job_Queue\<close> (the contract of the
    queue file), \<open>Dispatcher\<close> with \<open>Dispatcher_Vectors\<close> (\<open>dispatcher.py\<close>),
    \<open>Agent_Consumer\<close> with \<open>Consumer_Properties\<close> (\<open>agent_consumer.py\<close>), \<open>Mcp_Server\<close>
    (\<open>plane_mcp_server.py\<close>), \<open>Upsert_Plan\<close> (\<open>apply_upsert_plan.py\<close>), \<open>Markdown\<close> and
    \<open>Delta_Plan\<close> (\<open>apply_delta.py\<close>), \<open>Config_Audit\<close> (\<open>plane_config_audit.py\<close>).
  \<^item> The wiring checks: \<open>Wiring_Checker\<close> with \<open>Checker_Properties\<close> (\<open>wiring_checker.py\<close>),
    \<open>Wiring\<close> with \<open>Wiring_Properties\<close> and \<open>Ingest_Properties\<close> (\<open>wiring_dedup.py\<close>,
    \<open>wiring_ingest.py\<close>).
  \<^item> Guards and measurements: \<open>Kill_Switch\<close> (\<open>kill_switch.py\<close>), \<open>Sandbox\<close>
    (\<open>sandbox_guard.py\<close>), \<open>Structured_Output\<close> (\<open>structured_output.py\<close>), \<open>Observability\<close>
    (\<open>observability.py\<close>), \<open>Fifth_Layer\<close> (\<open>perf_a11y_verifier.py\<close>), \<open>Router\<close>
    (\<open>predictive_router.py\<close>), \<open>Deepeval_Gate\<close> (\<open>deepeval_gate.py\<close>), \<open>Canary\<close>
    (\<open>run_spine_canary.py\<close>, \<open>hook_telemetry.py\<close>).

  Definitions keep the names of the functions they translate, without a leading underscore.

  \<^bold>\<open>Interfaces.\<close> \<open>scope_gate\<close> and \<open>merge_gate\<close> in \<open>Gate_Contract\<close> state what a gate over the
  items of a model promises; the evidence gate and the zero-evidence gate interpret them.
  \<open>status_moves\<close> in \<open>Coverage\<close> states the legal moves of an item, interpreted on the transition
  tables of \<open>coverage.py\<close> and of \<open>store.py\<close>. \<open>hash_chain\<close> in \<open>Audit_Chain\<close> is interpreted
  on the rows of the audit log. \<open>line_queue\<close> in \<open>Job_Queue\<close> is the file between the receiver,
  which appends a line for each job, and its readers; the dispatcher and the consumer interpret it.

  \<^bold>\<open>Properties.\<close> What each gate accepts, exactly and on every branch; that no session grades its
  own work; that the gates agree with each other; that the checks of the formal design pass; that the audit log
  reads back, verifies and binds its contents up to a collision of the digest, which the property
  names; that the loop ticks once a turn and hands a recurring rejection off; that durable steps
  and deliveries happen once; that activities are bounded and replay is deterministic. For the
  board: that only a verifier brings an item to Done, what is asked of the board for each decision,
  that the queue keeps every move once, under threads up to the order of the jobs, and each job is settled once within its attempts, that a plan
  run again creates nothing and a dry run only reads. For the store, the wiring and the CI check:
  the invariants that tie a proven item to its proof, and that findings reach the model.
  Properties of kind \<open>error\<close> state what the code does where a comment or a document promises
  more.

  \<^bold>\<open>Bounds and fuel.\<close> The parser of \<open>Json_Codec\<close> takes the length of its input as fuel, which the
  round trip shows is enough; the resolution of links in \<open>Paths\<close> takes the number of links, which
  \<open>resolution_fuel\<close> shows is enough. \<open>Event_Bus.deliver\<close> is a partial function, since a handler may emit
  for ever; that it returns is proved for handlers that leave the bus alone and do not raise. A request of the MCP
  server and of the plan scripts is tried as often as the code tries it, and the pages of a list are
  read up to the page limit of the code; these and the other retry loops are structural on what is
  left.

  \<^bold>\<open>Parameters.\<close> The clock, the environment, the working tree, the \<open>git\<close>, \<open>semgrep\<close> and agent
  processes, the board's server and the network, the Z3 solver, the schema validator, the syntax
  tree of a Python file, the comparison and arithmetic of floats, the order in which a set is listed,
  the wording of exceptions, regular expressions that a caller supplies, and the functions a caller
  hands to the bus or to the orchestrator are arguments of the definitions that use them. The body of a
  workflow is a tree of the commands that it issues, each with what the body goes on with for every value or
  exception of the command, so that a body may catch.

  \<^bold>\<open>Not modelled.\<close> Argument parsing, printing, locks (the turns of the receiver's handlers are what
  its lock makes of them), the wait between attempts, and the type
  conversions of SQLite and Postgres; the wrapper around the optional \<open>deepeval\<close> package and the
  staging of the canary's slice; the hooks, which are not in the repository, and with them
  \<open>prove_trivial_slice.py\<close>; \<open>materialize_feature_list.py\<close>, whose patterns need characters beyond
  8 bits; \<open>plane_preflight.py\<close>, \<open>setup_cf_access.py\<close>, \<open>provision_plane.py\<close>,
  \<open>reorg_plane.py\<close> and \<open>organize_plane_views.py\<close>, which probe a service or send it fixed data.
\<close>

end
